(* ===== verification/Neko_Prelude.thy ===== *)
theory Neko_Prelude
  imports Main "HOL-Library.Word"
begin

unbundle bit_operations_syntax

text \<open>
  Shared ground of the development: the types every component uses (bytes, byte buffers,
  fallible results), the fact collections the component theories fill, and the list, option and
  word lemmas that more than one component needs.

  A \<open>std::span\<close> or \<open>std::string_view\<close> over a buffer is the byte list it shows; a
  \<open>std::size_t\<close> offset is a \<open>nat\<close>, because every offset the code computes is bounded by the
  length of a buffer. A fallible function returns \<open>'e halt + value\<close>: \<open>Inl (Err e)\<close> is the error
  the code reports, \<open>Inl Out_Of_Bounds\<close> is an access outside the buffer, which C++ leaves
  undefined. The theorems in the collection \<open>fault_free\<close> say that the second never happens.
\<close>

type_synonym byte = "8 word"
type_synonym bytes = "byte list"
type_synonym u8 = "8 word"
type_synonym u16 = "16 word"
type_synonym u32 = "32 word"
type_synonym u64 = "64 word"

named_theorems wire_simps
named_theorems fault_free

subsection \<open>Fallible results\<close>

datatype 'e halt = Err 'e | Out_Of_Bounds

type_synonym ('e, 'a) checked = "'e halt + 'a"

definition and_then :: "('e, 'a) checked \<Rightarrow> ('a \<Rightarrow> ('e, 'b) checked) \<Rightarrow> ('e, 'b) checked" where
  "and_then r f = (case r of Inl e \<Rightarrow> Inl e | Inr x \<Rightarrow> f x)"

lemma and_then_simps [simp]:
  "and_then (Inl e) f = Inl e"
  "and_then (Inr x) f = f x"
  by (simp_all add: and_then_def)

lemma and_then_Inr_iff:
  "and_then r f = Inr y \<longleftrightarrow> (\<exists>x. r = Inr x \<and> f x = Inr y)"
  by (cases r) auto

lemma and_then_InrE:
  assumes "and_then r f = Inr y"
  obtains x where "r = Inr x" "f x = Inr y"
  using assms by (auto simp: and_then_Inr_iff)

text \<open>No undefined access happened.\<close>

definition in_bounds :: "('e, 'a) checked \<Rightarrow> bool" where
  "in_bounds r \<longleftrightarrow> r \<noteq> Inl Out_Of_Bounds"

lemma in_bounds_simps [simp]:
  "in_bounds (Inr x)"
  "in_bounds (Inl (Err e))"
  "\<not> in_bounds (Inl Out_Of_Bounds)"
  by (simp_all add: in_bounds_def)

lemma in_bounds_and_then [fault_free]:
  "in_bounds r \<Longrightarrow> (\<And>x. r = Inr x \<Longrightarrow> in_bounds (f x)) \<Longrightarrow> in_bounds (and_then r f)"
  by (cases r) (auto simp: in_bounds_def)

lemma in_bounds_if [fault_free]:
  "(b \<Longrightarrow> in_bounds r) \<Longrightarrow> (\<not> b \<Longrightarrow> in_bounds s) \<Longrightarrow> in_bounds (if b then r else s)"
  by simp

lemma and_then_cong [fundef_cong]:
  "r = r' \<Longrightarrow> (\<And>x. r' = Inr x \<Longrightarrow> f x = f' x) \<Longrightarrow> and_then r f = and_then r' f'"
  by (cases r') auto

definition guard_or :: "bool \<Rightarrow> 'e \<Rightarrow> ('e, unit) checked" where
  "guard_or b e = (if b then Inr () else Inl (Err e))"

lemma guard_or_simps [simp]:
  "guard_or True e = Inr ()"
  "guard_or False e = Inl (Err e)"
  "in_bounds (guard_or b e)"
  "guard_or b e = Inr u \<longleftrightarrow> b"
  by (auto simp: guard_or_def)

text \<open>One byte of a buffer, and the access outside it.\<close>

definition byte_at :: "'a list \<Rightarrow> nat \<Rightarrow> ('e, 'a) checked" where
  "byte_at data i = (if i < length data then Inr (data ! i) else Inl Out_Of_Bounds)"

lemma byte_at_inside: "i < length data \<Longrightarrow> byte_at data i = Inr (data ! i)"
  by (simp add: byte_at_def)

lemma byte_at_append [simp, wire_simps]:
  "byte_at (pre @ b # post) (length pre) = Inr b"
  by (simp add: byte_at_def)

lemma in_bounds_byte_at [fault_free]: "i < length data \<Longrightarrow> in_bounds (byte_at data i)"
  by (simp add: byte_at_def)

text \<open>The same access on a \<open>std::vector\<close> of anything.\<close>

abbreviation vec_at :: "'a list \<Rightarrow> nat \<Rightarrow> ('e, 'a) checked" where
  "vec_at \<equiv> byte_at"

text \<open>The write \<open>v[i] = x\<close>, undefined outside the vector too.\<close>

definition vec_set :: "'a list \<Rightarrow> nat \<Rightarrow> 'a \<Rightarrow> ('e, 'a list) checked" where
  "vec_set xs i x = (if i < length xs then Inr (xs[i := x]) else Inl Out_Of_Bounds)"

lemma vec_set_inside: "i < length xs \<Longrightarrow> vec_set xs i x = Inr (xs[i := x])"
  by (simp add: vec_set_def)

lemma vec_set_Inr: "vec_set xs i x = Inr ys \<longleftrightarrow> i < length xs \<and> ys = xs[i := x]"
  by (auto simp: vec_set_def)

lemma vec_at_Inr: "vec_at xs i = Inr x \<longleftrightarrow> i < length xs \<and> x = xs ! i"
  by (auto simp: byte_at_def)

lemma in_bounds_vec_set [fault_free]: "i < length xs \<Longrightarrow> in_bounds (vec_set xs i x)"
  by (simp add: vec_set_def)

subsection \<open>Buffers\<close>

definition subspan :: "'a list \<Rightarrow> nat \<Rightarrow> nat \<Rightarrow> 'a list" where
  "subspan xs offset count = take count (drop offset xs)"

lemma length_subspan [simp]: "length (subspan xs off n) = min n (length xs - off)"
  by (simp add: subspan_def)

lemma subspan_zero [simp]: "subspan xs off 0 = []"
  by (simp add: subspan_def)

lemma subspan_append_mid [wire_simps]:
  "off = length pre \<Longrightarrow> n = length mid \<Longrightarrow> subspan (pre @ mid @ post) off n = mid"
  by (simp add: subspan_def)

lemma subspan_append_last [wire_simps]:
  "off = length pre \<Longrightarrow> n = length mid \<Longrightarrow> subspan (pre @ mid) off n = mid"
  by (simp add: subspan_def)

lemma take_subspan_drop:
  "off + n \<le> length xs \<Longrightarrow> take off xs @ subspan xs off n @ drop (off + n) xs = xs"
  unfolding subspan_def by (metis append_take_drop_id drop_drop add.commute)

lemma drop_eq_subspan: "drop off xs = subspan xs off n @ drop (off + n) xs"
proof -
  have "drop off xs = take n (drop off xs) @ drop n (drop off xs)"
    by (rule append_take_drop_id [symmetric])
  then show ?thesis
    by (simp only: subspan_def drop_drop add.commute)
qed

text \<open>\<open>span::subspan\<close> with both bounds inside the span; C++ leaves the other case undefined.\<close>

definition span_sub :: "'a list \<Rightarrow> nat \<Rightarrow> nat \<Rightarrow> ('e, 'a list) checked" where
  "span_sub data offset count =
     (if offset + count \<le> length data then Inr (subspan data offset count) else Inl Out_Of_Bounds)"

lemma span_sub_inside: "off + n \<le> length data \<Longrightarrow> span_sub data off n = Inr (subspan data off n)"
  by (simp add: span_sub_def)

lemma in_bounds_span_sub [fault_free]: "off + n \<le> length data \<Longrightarrow> in_bounds (span_sub data off n)"
  by (simp add: span_sub_def)

lemma span_sub_append_mid [wire_simps]:
  "off = length pre \<Longrightarrow> n = length mid \<Longrightarrow> span_sub (pre @ mid @ post) off n = Inr mid"
  by (simp add: span_sub_def subspan_append_mid)

lemma span_sub_drop:
  assumes "drop off data = mid @ post" "off \<le> length data" "n = length mid"
  shows "span_sub data off n = Inr mid"
proof -
  have "length data - off = length mid + length post"
    using arg_cong [OF assms(1), of length] by simp
  with assms show ?thesis
    by (simp add: span_sub_def subspan_def)
qed

text \<open>The bytes of a \<open>std::string\<close>, and the string over given bytes (\<open>reinterpret_cast\<close>).\<close>

definition chars_of_bytes :: "bytes \<Rightarrow> string" where
  "chars_of_bytes bs = map (\<lambda>b. char_of (unat b)) bs"

definition bytes_of_chars :: "string \<Rightarrow> bytes" where
  "bytes_of_chars s = map (\<lambda>c. of_nat (of_char c)) s"

lemma length_chars_of_bytes [simp]: "length (chars_of_bytes bs) = length bs"
  by (simp add: chars_of_bytes_def)

lemma length_bytes_of_chars [simp]: "length (bytes_of_chars s) = length s"
  by (simp add: bytes_of_chars_def)

lemma char_of_byte_of_char: "char_of (unat (of_nat (of_char c) :: byte)) = c"
  by (simp add: unat_of_nat)

lemma unat_byte_mod: "unat (b :: byte) mod 256 = unat b"
  using unsigned_less [of b, where 'a = nat] by simp

lemma byte_of_char_of_byte: "(of_nat (of_char (char_of (unat b) :: char)) :: byte) = b"
  by (simp add: unat_byte_mod)

lemma chars_of_bytes_of_chars [simp, wire_simps]: "chars_of_bytes (bytes_of_chars s) = s"
  by (simp add: chars_of_bytes_def bytes_of_chars_def comp_def char_of_byte_of_char)

lemma bytes_of_chars_of_bytes [simp, wire_simps]: "bytes_of_chars (chars_of_bytes bs) = bs"
  by (simp add: chars_of_bytes_def bytes_of_chars_def comp_def unat_byte_mod)

lemma bytes_of_chars_eq_iff: "bytes_of_chars s = bytes_of_chars t \<longleftrightarrow> s = t"
  by (metis chars_of_bytes_of_chars)

subsection \<open>Words\<close>

lemma int_unat: "int (unat w) = uint w"
  by (rule uint_nat [symmetric])

lemma unat_of_nat_bound: "n < 2 ^ LENGTH('a) \<Longrightarrow> unat (of_nat n :: 'a::len word) = n"
  by (simp add: unat_of_nat take_bit_nat_eq_self)

text \<open>
  An accumulator below \<open>2 ^ s\<close> and a chunk moved up by \<open>s\<close> bits share no bit, so the readers'
  \<open>value |= chunk << s\<close> is an addition.
\<close>

lemma word_or_shift_unat:
  fixes acc c :: "'a::len word"
  assumes acc: "unat acc < 2 ^ s" and fit: "unat c * 2 ^ s < 2 ^ LENGTH('a)"
  shows "unat (acc OR push_bit s c) = unat acc + unat c * 2 ^ s"
proof -
  have "int (unat c * 2 ^ s) < int (2 ^ LENGTH('a))"
    using fit by (simp only: of_nat_less_iff)
  then have ub: "uint c * 2 ^ s < 2 ^ LENGTH('a)"
    by (simp add: int_unat)
  have ps: "uint (push_bit s c) = push_bit s (uint c)"
    by (simp only: unsigned_push_bit_eq) (simp add: push_bit_eq_mult take_bit_int_eq_self ub)
  have "int (unat acc) < int (2 ^ s)"
    using acc by (simp only: of_nat_less_iff)
  then have ua: "take_bit s (uint acc) = uint acc"
    by (simp add: take_bit_int_eq_self_iff int_unat)
  have "uint (acc OR push_bit s c) = uint acc OR push_bit s (uint c)"
    by (simp add: unsigned_or_eq ps)
  also have "\<dots> = concat_bit s (uint acc) (uint c)"
    by (simp add: concat_bit_def ua)
  also have "\<dots> = uint acc + uint c * 2 ^ s"
    by (simp add: concat_bit_eq ua push_bit_eq_mult)
  finally have "int (unat (acc OR push_bit s c)) = int (unat acc + unat c * 2 ^ s)"
    by (simp add: int_unat)
  then show ?thesis
    by (simp only: of_nat_eq_iff)
qed

text \<open>The seven low bits of a byte and its top bit, which three of the formats use as a flag.\<close>

lemma unat_drop_bit: "unat (drop_bit n (v :: 'a::len word)) = unat v div 2 ^ n"
  by (simp only: unsigned_drop_bit_eq) (simp add: drop_bit_eq_div take_bit_nat_eq_self)

lemma drop_bit_7_zero_iff: "drop_bit 7 (v :: 'a::len word) = 0 \<longleftrightarrow> unat v < 128"
  by (simp only: unat_eq_0 [symmetric] unat_drop_bit) auto

lemma word_and_0x7F: "x AND 0x7F = take_bit 7 (x :: 'a::len word)"
  by (simp add: take_bit_eq_mask mask_eq_exp_minus_1)

lemma bit_0x80: "bit (0x80 :: byte) k \<longleftrightarrow> k = 7"
proof -
  have "(0x80 :: byte) = 2 ^ 7"
    by simp
  then show ?thesis
    by (simp only: bit_exp_iff) auto
qed

lemma byte_and_0x80: "(b :: byte) AND 0x80 = 0 \<longleftrightarrow> \<not> bit b 7"
proof
  assume "b AND 0x80 = 0"
  then have "\<not> bit (b AND 0x80) 7"
    by simp
  then show "\<not> bit b 7"
    by (simp add: bit_and_iff bit_0x80)
next
  assume "\<not> bit b 7"
  then have "\<not> (bit b n \<and> bit (0x80 :: byte) n)" for n
    by (simp only: bit_0x80) auto
  then show "b AND 0x80 = 0"
    by (intro bit_eqI) (simp only: bit_and_iff bit_0_eq bot_apply bot_bool_def)
qed

lemma not_bit_7: "unat (b :: byte) < 128 \<Longrightarrow> \<not> bit b 7"
proof -
  assume "unat b < 128"
  then have "\<not> bit (drop_bit 7 b) 0"
    by (simp only: drop_bit_7_zero_iff [symmetric] bit_0_eq bot_apply) simp
  then show ?thesis
    by (simp add: bit_drop_bit_eq)
qed

lemma low_byte_flag: "k < 128 \<Longrightarrow> (of_nat k :: byte) AND 0x80 = 0"
  by (simp only: byte_and_0x80) (rule not_bit_7, simp add: unat_of_nat_bound)

lemma high_byte_flag: "(0x80 OR w :: byte) AND 0x80 \<noteq> 0"
  by (simp only: byte_and_0x80 bit_or_iff bit_0x80) simp

lemma high_byte_low: "k < 128 \<Longrightarrow> unat ((0x80 OR of_nat k :: byte) AND 0x7F) = k"
proof -
  assume k: "k < 128"
  have "take_bit 7 (0x80 OR of_nat k :: byte) = take_bit 7 (of_nat k :: byte)"
    by (rule bit_eqI) (simp only: bit_take_bit_iff bit_or_iff bit_0x80, auto)
  moreover have "unat (take_bit 7 (of_nat k :: byte)) = k"
    using k by (simp only: unsigned_take_bit_eq) (simp add: unat_of_nat_bound take_bit_eq_mod)
  ultimately show ?thesis
    by (simp only: word_and_0x7F)
qed

end
