(* ===== verification/Serialization_Error.thy ===== *)
theory Serialization_Error
  imports Neko_Prelude
begin

text \<open>
  The error values of the serialization layer (\<open>serialization/error.hpp\<close>): the code
  enumeration, the category's message table and the pair \<open>sa::Error\<close> of code and message.
\<close>

datatype sa_code =
    SaOk
  | SaUnknown
  | SaInvalidIndex
  | SaInvalidField
  | SaInvalidType
  | SaParseError
  | SaInvalidLength

fun sa_code_value :: "sa_code \<Rightarrow> int" where
  "sa_code_value SaOk = 0"
| "sa_code_value SaUnknown = 1"
| "sa_code_value SaInvalidIndex = 2"
| "sa_code_value SaInvalidField = 3"
| "sa_code_value SaInvalidType = 4"
| "sa_code_value SaParseError = 5"
| "sa_code_value SaInvalidLength = 6"

definition sa_category_message :: "int \<Rightarrow> string" where
  "sa_category_message ev =
     (if ev = 0 then ''ok''
      else if ev = 1 then ''unknown error''
      else if ev = 2 then ''invalid index''
      else if ev = 3 then ''invalid field''
      else if ev = 4 then ''invalid type''
      else if ev = 5 then ''parse error''
      else if ev = 6 then ''invalid length''
      else ''unknown error'')"

datatype sa_error = SaError (sa_ec: sa_code) (sa_msg: string)

definition sa_error_of_code :: "sa_code \<Rightarrow> sa_error" where
  "sa_error_of_code ec = SaError ec (sa_category_message (sa_code_value ec))"

definition sa_error_of_msg :: "string \<Rightarrow> sa_error" where
  "sa_error_of_msg msg = SaError SaUnknown msg"

lemma sa_code_value_inj: "sa_code_value a = sa_code_value b \<longleftrightarrow> a = b"
  by (cases a; cases b) auto

type_synonym 'a sa_result = "(sa_error, 'a) checked"

end
