(* ===== verification/Wire_Codec.thy ===== *)
theory Wire_Codec
  imports Neko_Prelude
begin

text \<open>
  The interface under which the writer and reader pairs of the wire formats are used. A reader
  gets the whole buffer and an offset and returns the value with the offset after it; a writer
  gives the bytes of a value. \<open>wire_codec\<close> is the contract a receiver needs (what was written is
  read back, wherever it stands in the buffer); \<open>canonical_codec\<close> adds that the reader takes
  nothing else, so that a message has one encoding only.
\<close>

text \<open>A reader applied \<open>n\<close> times in a row: the \<open>for (count)\<close> loops of the parsers.\<close>

fun read_many :: "('d \<Rightarrow> nat \<Rightarrow> ('e, 'v \<times> nat) checked) \<Rightarrow> nat \<Rightarrow> 'd \<Rightarrow> nat \<Rightarrow> ('e, 'v list \<times> nat) checked"
where
  "read_many dec 0 data c = Inr ([], c)"
| "read_many dec (Suc n) data c =
     and_then (dec data c)
       (\<lambda>p. and_then (read_many dec n data (snd p)) (\<lambda>q. Inr (fst p # fst q, snd q)))"

locale wire_codec =
  fixes fits :: "'v \<Rightarrow> bool"
    and enc :: "'v \<Rightarrow> bytes"
    and dec :: "bytes \<Rightarrow> nat \<Rightarrow> ('e, 'v \<times> nat) checked"
  assumes dec_enc: "fits v \<Longrightarrow> dec (pre @ enc v @ post) (length pre) = Inr (v, length pre + length (enc v))"
begin

lemma dec_enc_front: "fits v \<Longrightarrow> dec (enc v @ post) 0 = Inr (v, length (enc v))"
  using dec_enc [of v "[]" post] by simp

lemma unique_decoding:
  assumes "fits v" "fits w" "enc v @ p = enc w @ q"
  shows "v = w \<and> p = q"
proof -
  have "Inr (v, length (enc v)) = (Inr (w, length (enc w)) :: ('e, _) checked)"
    using dec_enc_front [OF assms(1), of p] dec_enc_front [OF assms(2), of q] assms(3) by simp
  with assms(3) show ?thesis
    by simp
qed

lemma enc_inj: "fits v \<Longrightarrow> fits w \<Longrightarrow> enc v = enc w \<longleftrightarrow> v = w"
  using unique_decoding [of v w "[]" "[]"] by auto

lemma read_many_enc:
  "list_all fits vs \<Longrightarrow>
    read_many dec (length vs) (pre @ concat (map enc vs) @ post) (length pre) =
      Inr (vs, length pre + length (concat (map enc vs)))"
proof (induction vs arbitrary: pre)
  case Nil
  then show ?case by simp
next
  case (Cons v vs)
  have "dec (pre @ enc v @ concat (map enc vs) @ post) (length pre) = Inr (v, length pre + length (enc v))"
    using Cons.prems by (intro dec_enc) simp
  moreover have "read_many dec (length vs) ((pre @ enc v) @ concat (map enc vs) @ post) (length (pre @ enc v)) =
      Inr (vs, length (pre @ enc v) + length (concat (map enc vs)))"
    using Cons.prems by (intro Cons.IH) simp
  ultimately show ?case
    by simp
qed

lemma concat_enc_inj:
  assumes "list_all fits vs" "list_all fits ws" "length vs = length ws"
    and "concat (map enc vs) @ p = concat (map enc ws) @ q"
  shows "vs = ws \<and> p = q"
  using assms(3,1,2,4)
proof (induction vs ws rule: list_induct2)
  case (Cons v vs w ws)
  then have "v = w \<and> concat (map enc vs) @ p = concat (map enc ws) @ q"
    by (intro unique_decoding) auto
  with Cons show ?case by simp
qed simp

end

locale canonical_codec = wire_codec fits enc dec
  for fits :: "'v \<Rightarrow> bool"
    and enc :: "'v \<Rightarrow> bytes"
    and dec :: "bytes \<Rightarrow> nat \<Rightarrow> ('e, 'v \<times> nat) checked" +
  assumes dec_sound:
    "dec data c = Inr (v, c') \<Longrightarrow> c \<le> length data \<Longrightarrow>
      fits v \<and> c \<le> c' \<and> c' \<le> length data \<and> subspan data c (c' - c) = enc v"
begin

lemma dec_iff:
  assumes "c \<le> length data"
  shows "dec data c = Inr (v, c') \<longleftrightarrow>
    fits v \<and> c' = c + length (enc v) \<and> c' \<le> length data \<and> subspan data c (length (enc v)) = enc v"
proof
  assume d: "dec data c = Inr (v, c')"
  note s = dec_sound [OF d assms]
  then have "length (enc v) = c' - c"
    by (metis diff_le_mono length_subspan min.absorb1)
  with s show "fits v \<and> c' = c + length (enc v) \<and> c' \<le> length data \<and> subspan data c (length (enc v)) = enc v"
    by simp
next
  assume r: "fits v \<and> c' = c + length (enc v) \<and> c' \<le> length data \<and> subspan data c (length (enc v)) = enc v"
  then have "drop c data = enc v @ drop (length (enc v)) (drop c data)"
    unfolding subspan_def by (metis append_take_drop_id)
  then have "data = take c data @ enc v @ drop (length (enc v)) (drop c data)"
    by (metis append_take_drop_id)
  with r assms show "dec data c = Inr (v, c')"
    using dec_enc [of v "take c data" "drop (length (enc v)) (drop c data)"] by simp
qed

lemma read_many_sound:
  "read_many dec n data c = Inr (vs, c') \<Longrightarrow> c \<le> length data \<Longrightarrow>
    list_all fits vs \<and> length vs = n \<and> c \<le> c' \<and> c' \<le> length data \<and>
    subspan data c (c' - c) = concat (map enc vs)"
proof (induction n arbitrary: c vs)
  case (Suc n)
  from Suc.prems(1) obtain v c1 ws where d: "dec data c = Inr (v, c1)"
    and m: "read_many dec n data c1 = Inr (ws, c')" and vs: "vs = v # ws"
    by (auto simp: and_then_Inr_iff)
  note s = dec_sound [OF d Suc.prems(2)]
  note t = Suc.IH [OF m] 
  have "take (c' - c) (drop c data) = take (c1 - c) (drop c data) @ take (c' - c1) (drop c1 data)"
  proof -
    have "c' - c = (c1 - c) + (c' - c1)"
      using s t by auto
    then show ?thesis
      using s take_add [of "c1 - c" "c' - c1" "drop c data"] by simp
  qed
  with s t show ?case
    by (simp add: subspan_def vs)
qed simp

lemma in_bounds_read_many:
  assumes "\<And>c. c \<le> length data \<Longrightarrow> in_bounds (dec data c)"
  shows "c \<le> length data \<Longrightarrow> in_bounds (read_many dec n data c)"
proof (induction n arbitrary: c)
  case (Suc n)
  show ?case
    unfolding read_many.simps
  proof (intro in_bounds_and_then)
    show "in_bounds (dec data c)"
      by (rule assms [OF Suc.prems])
  next
    fix p
    assume "dec data c = Inr p"
    then have "snd p \<le> length data"
      using dec_sound [of data c "fst p" "snd p"] Suc.prems by simp
    then show "in_bounds (read_many dec n data (snd p))"
      by (rule Suc.IH)
  qed simp
qed simp

end

end
