(* ===== verification/Wire_Integers.thy ===== *)
theory Wire_Integers
  imports Serialization_Error Wire_Codec
begin

unbundle bit_operations_syntax

text \<open>
  The big-endian integers of \<open>NekoRpcExtensionCodec\<close> (\<open>rpc/private/backend_base.hpp\<close>) and the
  byte swaps of \<open>serialization/binary/endian.hpp\<close>.
\<close>

subsection \<open>Big-endian integers: appendInteger and readInteger\<close>

text \<open>
  \<open>appendInteger\<close> runs \<open>ix\<close> from the width in bytes down to 1 and pushes the byte
  \<open>(wire >> ((ix - 1) * 8)) & 0xFF\<close>.
\<close>

fun append_integer_loop :: "nat \<Rightarrow> 'a::len word \<Rightarrow> bytes \<Rightarrow> bytes" where
  "append_integer_loop 0 wire out = out"
| "append_integer_loop (Suc ix) wire out =
     append_integer_loop ix wire (out @ [ucast (drop_bit (ix * 8) wire AND 0xFF)])"

definition appendInteger :: "bytes \<Rightarrow> 'a::len word \<Rightarrow> bytes" where
  "appendInteger out value = append_integer_loop (LENGTH('a) div 8) value out"

definition integerValue :: "'a::len word \<Rightarrow> bytes" where
  "integerValue value = appendInteger [] value"

text \<open>
  \<open>readInteger\<close> runs \<open>ix\<close> up from 0 and folds \<open>wire = (wire << 8) | data[offset + ix]\<close>; each
  access of the span is checked.
\<close>

fun read_integer_loop :: "nat \<Rightarrow> bytes \<Rightarrow> nat \<Rightarrow> 'a::len word \<Rightarrow> ('e, 'a word) checked" where
  "read_integer_loop 0 data pos wire = Inr wire"
| "read_integer_loop (Suc n) data pos wire =
     and_then (byte_at data pos)
       (\<lambda>b. read_integer_loop n data (Suc pos) (push_bit 8 wire OR ucast b))"

definition readInteger :: "bytes \<Rightarrow> nat \<Rightarrow> ('e, 'a::len word) checked" where
  "readInteger data offset = read_integer_loop (LENGTH('a) div 8) data offset 0"

definition readIntegerValue :: "bytes \<Rightarrow> ('e, 'a::len word option) checked" where
  "readIntegerValue data =
     (if length data \<noteq> LENGTH('a) div 8 then Inr None
      else and_then (readInteger data 0) (\<lambda>v. Inr (Some v)))"

text \<open>The bytes of a word, most significant first: what both loops are about.\<close>

fun be_bytes :: "nat \<Rightarrow> 'a::len word \<Rightarrow> bytes" where
  "be_bytes 0 w = []"
| "be_bytes (Suc n) w = ucast (drop_bit (n * 8) w) # be_bytes n w"

lemma length_be_bytes [simp]: "length (be_bytes n w) = n"
  by (induction n) auto

lemma ucast_and_0xFF: "(ucast (w AND 0xFF) :: byte) = ucast w"
  by (rule bit_eqI) (auto simp: bit_simps less_Suc_eq numeral_eq_Suc dest: bit_imp_le_length)

lemma append_integer_loop_eq: "append_integer_loop n w out = out @ be_bytes n w"
  by (induction n arbitrary: out) (simp_all add: ucast_and_0xFF)

lemma appendInteger_eq: "appendInteger out (w :: 'a::len word) = out @ be_bytes (LENGTH('a) div 8) w"
  by (simp add: appendInteger_def append_integer_loop_eq)

lemma integerValue_eq: "integerValue (w :: 'a::len word) = be_bytes (LENGTH('a) div 8) w"
  by (simp add: integerValue_def appendInteger_eq)

lemma length_integerValue [simp]: "length (integerValue (w :: 'a::len word)) = LENGTH('a) div 8"
  by (simp add: integerValue_eq)

lemma read_integer_loop_be:
  "read_integer_loop n (pre @ be_bytes n (w :: 'a::len word) @ post) (length pre) acc =
     (Inr (push_bit (n * 8) acc OR take_bit (n * 8) w) :: ('e, 'a word) checked)"
proof (induction n arbitrary: pre acc)
  case 0
  then show ?case by simp
next
  case (Suc n)
  let ?b = "ucast (drop_bit (n * 8) w) :: byte"
  let ?acc = "push_bit 8 acc OR ucast ?b"
  have eq: "push_bit (n * 8) ?acc OR take_bit (n * 8) w =
      push_bit (Suc n * 8) acc OR take_bit (Suc n * 8) w"
    by (rule bit_eqI) (auto simp: bit_simps not_less ac_simps dest: bit_imp_le_length)
  from Suc.IH [of "pre @ [?b]" ?acc] show ?case
    unfolding eq by simp
qed

lemma readInteger_append [wire_simps]:
  assumes "8 dvd LENGTH('a::len)"
  shows "readInteger (pre @ integerValue (w :: 'a word) @ post) (length pre) =
    (Inr w :: ('e, 'a word) checked)"
proof -
  have "take_bit (LENGTH('a) div 8 * 8) w = w"
    using assms by (simp add: take_bit_word_eq_self)
  moreover have "push_bit (LENGTH('a) div 8 * 8) 0 OR w = w"
    by simp
  ultimately show ?thesis
    by (simp add: readInteger_def integerValue_eq read_integer_loop_be)
qed

lemma readInteger_whole [wire_simps]:
  "8 dvd LENGTH('a::len) \<Longrightarrow>
    readInteger (integerValue (w :: 'a word)) 0 = (Inr w :: ('e, 'a word) checked)"
  using readInteger_append [of "[]" w "[]"] by simp

lemma readIntegerValue_whole [wire_simps]:
  "8 dvd LENGTH('a::len) \<Longrightarrow>
    readIntegerValue (integerValue (w :: 'a word)) = (Inr (Some w) :: ('e, _) checked)"
  by (simp add: readIntegerValue_def readInteger_whole)

lemma in_bounds_read_integer_loop:
  "pos + n \<le> length data \<Longrightarrow> in_bounds (read_integer_loop n data pos w)"
  by (induction n data pos w rule: read_integer_loop.induct) (auto simp: byte_at_inside)

lemma in_bounds_readInteger [fault_free]:
  "offset + LENGTH('a::len) div 8 \<le> length data \<Longrightarrow>
    in_bounds (readInteger data offset :: ('e, 'a word) checked)"
  by (simp add: readInteger_def in_bounds_read_integer_loop)

lemma read_integer_loop_total:
  "pos + n \<le> length data \<Longrightarrow> \<exists>v. read_integer_loop n data pos w = Inr v"
  by (induction n data pos w rule: read_integer_loop.induct) (auto simp: byte_at_inside)

lemma readInteger_total:
  "offset + LENGTH('a::len) div 8 \<le> length data \<Longrightarrow>
    \<exists>v :: 'a word. readInteger data offset = (Inr v :: ('e, _) checked)"
  by (simp add: readInteger_def read_integer_loop_total)

lemma in_bounds_readIntegerValue [fault_free]:
  "in_bounds (readIntegerValue data :: ('e, 'a::len word option) checked)"
  unfolding readIntegerValue_def by (intro fault_free) auto

lemma be_bytes_take_bit: "m \<le> n \<Longrightarrow> be_bytes m (take_bit (n * 8) w) = be_bytes m (w :: 'a::len word)"
proof (induction m)
  case (Suc m)
  have "ucast (drop_bit (m * 8) (take_bit (n * 8) w)) = (ucast (drop_bit (m * 8) w) :: byte)"
    using Suc.prems by (intro bit_eqI) (auto simp: bit_simps dest: bit_imp_le_length)
  with Suc show ?case by simp
qed simp

lemma be_bytes_cong:
  "take_bit (n * 8) v = take_bit (n * 8) w \<Longrightarrow> be_bytes n v = be_bytes n (w :: 'a::len word)"
  by (metis be_bytes_take_bit order_refl)

text \<open>The other direction: what was read is what the buffer holds.\<close>

lemma read_integer_loop_Inr_iff:
  "read_integer_loop n data pos acc = (Inr v :: ('e, 'a::len word) checked) \<Longrightarrow> pos \<le> length data \<Longrightarrow>
     n * 8 \<le> LENGTH('a) \<Longrightarrow>
     pos + n \<le> length data \<and>
     (\<exists>w. v = push_bit (n * 8) acc OR w \<and> take_bit (n * 8) w = w \<and> subspan data pos n = be_bytes n w)"
proof (induction n arbitrary: pos acc v)
  case 0
  then show ?case by (auto intro!: exI [of _ 0])
next
  case (Suc n)
  from Suc.prems(1) have inside: "pos < length data"
    by (auto simp: and_then_Inr_iff byte_at_def split: if_splits)
  let ?b = "data ! pos"
  let ?acc = "push_bit 8 acc OR ucast ?b :: 'a word"
  have "read_integer_loop n data (Suc pos) ?acc = (Inr v :: ('e, 'a word) checked)"
    using Suc.prems(1) inside by (simp add: byte_at_inside)
  from Suc.IH [OF this] inside Suc.prems(3) obtain w where
    len: "Suc pos + n \<le> length data" and v: "v = push_bit (n * 8) ?acc OR w"
    and tw: "take_bit (n * 8) w = w" and sub: "subspan data (Suc pos) n = be_bytes n w"
    by auto
  let ?w = "push_bit (n * 8) (ucast ?b) OR w"
  have nw: "\<not> bit w k" if "n * 8 \<le> k" for k
    using tw that by (metis bit_take_bit_iff not_less)
  have "v = push_bit (Suc n * 8) acc OR ?w"
    unfolding v by (rule bit_eqI) (auto simp: bit_simps ac_simps)
  moreover have "take_bit (Suc n * 8) ?w = ?w"
    by (rule bit_eqI) (auto simp: bit_simps nw not_less dest: bit_imp_le_length)
  moreover have "subspan data pos (Suc n) = be_bytes (Suc n) ?w"
  proof -
    have "drop pos data = ?b # drop (Suc pos) data"
      using inside by (rule Cons_nth_drop_Suc [symmetric])
    moreover have "ucast (drop_bit (n * 8) ?w) = ?b"
      using Suc.prems(3)
      by (intro bit_eqI) (auto simp: bit_simps nw ac_simps dest: bit_imp_le_length)
    moreover have "be_bytes n ?w = be_bytes n w"
      using tw by (intro be_bytes_cong, intro bit_eqI) (auto simp: bit_simps nw)
    ultimately show ?thesis
      using sub by (simp add: subspan_def)
  qed
  ultimately show ?case
    using len by (intro conjI exI [of _ ?w]) auto
qed

definition read_integer_at :: "bytes \<Rightarrow> nat \<Rightarrow> ('e, 'a::len word \<times> nat) checked" where
  "read_integer_at data offset = and_then (readInteger data offset) (\<lambda>v. Inr (v, offset + LENGTH('a) div 8))"

lemma appendInteger_integerValue: "appendInteger out w = out @ integerValue w"
  by (simp add: appendInteger_eq integerValue_eq)

lemma read_integer_at_drop:
  fixes w :: "'a::len word"
  assumes "drop off data = integerValue w @ post" and "8 dvd LENGTH('a)" and "off \<le> length data"
  shows "read_integer_at data off = (Inr (w, off + LENGTH('a) div 8) :: ('e, _) checked)"
proof -
  have "data = take off data @ integerValue w @ post"
    using assms(1) by (metis append_take_drop_id)
  then show ?thesis
    using readInteger_append [OF assms(2), where 'e = 'e, of "take off data" w post] assms(3)
    by (simp add: read_integer_at_def)
qed

lemma read_integer_at_canonical:
  assumes "8 dvd LENGTH('a::len)"
  shows "canonical_codec (\<lambda>_. True) (integerValue :: 'a word \<Rightarrow> bytes)
    (read_integer_at :: _ \<Rightarrow> _ \<Rightarrow> ('e, _) checked)"
proof
  show "read_integer_at (pre @ integerValue v @ post) (length pre) =
      (Inr (v, length pre + length (integerValue v)) :: ('e, _) checked)" for v :: "'a word" and pre post
    using assms by (simp add: read_integer_at_def readInteger_append)
next
  fix data c c' and v :: "'a word"
  assume r: "read_integer_at data c = (Inr (v, c') :: ('e, _) checked)" and c: "c \<le> length data"
  then have "readInteger data c = (Inr v :: ('e, 'a word) checked)" and c': "c' = c + LENGTH('a) div 8"
    by (auto simp: read_integer_at_def and_then_Inr_iff)
  with c have "c' \<le> length data \<and> subspan data c (LENGTH('a) div 8) = be_bytes (LENGTH('a) div 8) v"
    using read_integer_loop_Inr_iff [of "LENGTH('a) div 8" data c 0 v] assms
    by (auto simp: readInteger_def)
  then show "True \<and> c \<le> c' \<and> c' \<le> length data \<and> subspan data c (c' - c) = integerValue v"
    by (simp add: c' integerValue_eq)
qed

lemma read_integer_at_InrD:
  fixes w :: "'a::len word"
  assumes "read_integer_at data off = (Inr (w, c) :: ('e, _) checked)" and "8 dvd LENGTH('a)"
    and "off \<le> length data"
  shows "c = off + LENGTH('a) div 8 \<and> c \<le> length data \<and> drop off data = integerValue w @ drop c data"
proof -
  have s: "c \<le> length data \<and> subspan data off (c - off) = integerValue w"
    using canonical_codec.dec_sound [OF read_integer_at_canonical [OF assms(2)] assms(1,3)] by simp
  have c: "c = off + LENGTH('a) div 8"
    using assms(1) by (auto simp: read_integer_at_def and_then_Inr_iff)
  have "drop off data = take (c - off) (drop off data) @ drop (c - off) (drop off data)"
    by (rule append_take_drop_id [symmetric])
  with s c show ?thesis
    by (simp add: subspan_def add.commute)
qed

lemma read_integer_at_next:
  "read_integer_at data off = (Inr (w :: 'a::len word, c) :: ('e, _) checked) \<Longrightarrow> c = off + LENGTH('a) div 8"
  by (auto simp: read_integer_at_def and_then_Inr_iff)

lemma in_bounds_read_integer_at [fault_free]:
  "off + LENGTH('a::len) div 8 \<le> length data \<Longrightarrow>
    in_bounds (read_integer_at data off :: ('e, 'a word \<times> nat) checked)"
  unfolding read_integer_at_def by (intro fault_free) auto

lemma read_integer_at_total_then:
  assumes "off + LENGTH('a::len) div 8 \<le> length data"
    and "\<And>v :: 'a word. \<exists>r. f (v, off + LENGTH('a) div 8) = Inr r"
  shows "\<exists>r. and_then (read_integer_at data off) f = (Inr r :: ('e, _) checked)"
  using readInteger_total [OF assms(1), where 'e = 'e] assms(2) by (auto simp: read_integer_at_def)

lemma readInteger_whole_sound:
  fixes v :: "'a::len word"
  assumes "readInteger data 0 = (Inr v :: ('e, _) checked)" "length data = LENGTH('a) div 8" "8 dvd LENGTH('a)"
  shows "data = integerValue v"
  using read_integer_at_InrD [of data 0 v "LENGTH('a) div 8", where 'e = 'e] assms
  by (simp add: read_integer_at_def)

lemma readIntegerValue_sound:
  fixes v :: "'a::len word"
  assumes "readIntegerValue data = (Inr (Some v) :: ('e, _) checked)" "8 dvd LENGTH('a)"
  shows "data = integerValue v"
  using assms readInteger_whole_sound [of data v, where 'e = 'e]
  by (auto simp: readIntegerValue_def and_then_Inr_iff split: if_splits)

lemma in_bounds_read_integer_at_then:
  assumes "off + LENGTH('a::len) div 8 \<le> length data"
    and "\<And>v :: 'a word. in_bounds (f (v, off + LENGTH('a) div 8))"
  shows "in_bounds (and_then (read_integer_at data off) f :: ('e, _) checked)"
  using assms in_bounds_readInteger [OF assms(1), where 'e = 'e]
  by (cases "readInteger data off :: ('e, 'a word) checked") (auto simp: read_integer_at_def in_bounds_def)

interpretation be16: canonical_codec "\<lambda>_. True" "integerValue :: u16 \<Rightarrow> bytes" read_integer_at
  by (rule read_integer_at_canonical) simp

interpretation be32: canonical_codec "\<lambda>_. True" "integerValue :: u32 \<Rightarrow> bytes" read_integer_at
  by (rule read_integer_at_canonical) simp

interpretation be64: canonical_codec "\<lambda>_. True" "integerValue :: u64 \<Rightarrow> bytes" read_integer_at
  by (rule read_integer_at_canonical) simp

end
