(* ===== verification/Ordered_Map.thy ===== *)
theory Ordered_Map
  imports Neko_Prelude
begin

text \<open>
  \<open>std::map\<close>: an association list kept in strictly increasing key order, which is the order the
  range loops of the code visit. \<open>find\<close> and \<open>contains\<close> are \<open>map_of\<close>; \<open>emplace\<close> leaves an
  existing entry alone, \<open>insert_or_assign\<close> overwrites it.
\<close>

type_synonym ('k, 'v) std_map = "('k \<times> 'v) list"

definition std_map_ok :: "('k::linorder, 'v) std_map \<Rightarrow> bool" where
  "std_map_ok m \<longleftrightarrow> sorted_wrt (<) (map fst m)"

fun insert_or_assign :: "'k::linorder \<Rightarrow> 'v \<Rightarrow> ('k, 'v) std_map \<Rightarrow> ('k, 'v) std_map" where
  "insert_or_assign k v [] = [(k, v)]"
| "insert_or_assign k v ((k', v') # m) =
     (if k < k' then (k, v) # (k', v') # m
      else if k = k' then (k, v) # m
      else (k', v') # insert_or_assign k v m)"

definition contains :: "('k, 'v) std_map \<Rightarrow> 'k \<Rightarrow> bool" where
  "contains m k \<longleftrightarrow> map_of m k \<noteq> None"

definition emplace :: "'k::linorder \<Rightarrow> 'v \<Rightarrow> ('k, 'v) std_map \<Rightarrow> ('k, 'v) std_map" where
  "emplace k v m = (if contains m k then m else insert_or_assign k v m)"

definition erase_key :: "'k \<Rightarrow> ('k, 'v) std_map \<Rightarrow> ('k, 'v) std_map" where
  "erase_key k m = filter (\<lambda>e. fst e \<noteq> k) m"

lemma std_map_ok_simps [simp]:
  "std_map_ok []"
  "std_map_ok (e # m) \<longleftrightarrow> (\<forall>k \<in> fst ` set m. fst e < k) \<and> std_map_ok m"
  by (auto simp: std_map_ok_def)

lemma keys_insert_or_assign [simp]:
  "fst ` set (insert_or_assign k v m) = insert k (fst ` set m)"
  by (induction k v m rule: insert_or_assign.induct) auto

lemma std_map_ok_insert [simp]: "std_map_ok m \<Longrightarrow> std_map_ok (insert_or_assign k v m)"
  by (induction k v m rule: insert_or_assign.induct) auto

lemma map_of_insert_or_assign [simp]:
  "std_map_ok m \<Longrightarrow> map_of (insert_or_assign k v m) = (map_of m)(k \<mapsto> v)"
  by (induction k v m rule: insert_or_assign.induct) (auto simp: fun_eq_iff)

lemma std_map_ok_emplace [simp]: "std_map_ok m \<Longrightarrow> std_map_ok (emplace k v m)"
  by (simp add: emplace_def)

lemma emplace_new: "\<not> contains m k \<Longrightarrow> emplace k v m = insert_or_assign k v m"
  by (simp add: emplace_def)

lemma std_map_ok_erase [simp]: "std_map_ok m \<Longrightarrow> std_map_ok (erase_key k m)"
  by (induction m) (auto simp: erase_key_def)

lemma map_of_erase_key [simp]: "map_of (erase_key k m) = (map_of m)(k := None)"
  unfolding erase_key_def by (induction m) auto

lemma contains_iff: "contains m k \<longleftrightarrow> k \<in> fst ` set m"
  by (simp add: contains_def map_of_eq_None_iff)

lemma key_notin_iff: "k \<notin> fst ` set m \<longleftrightarrow> (\<forall>e \<in> set m. fst e \<noteq> k)"
  by (simp add: image_iff) metis

lemma std_map_ok_distinct: "std_map_ok m \<Longrightarrow> distinct (map fst m)"
  by (induction m) auto

lemma map_of_std_map: "std_map_ok m \<Longrightarrow> map_of m k = Some v \<longleftrightarrow> (k, v) \<in> set m"
  by (simp add: std_map_ok_distinct)

text \<open>The order is canonical: two maps with the same content are the same list.\<close>

lemma std_map_eqI:
  assumes "std_map_ok m" "std_map_ok n" "map_of m = map_of n"
  shows "m = n"
proof (rule map_sorted_distinct_set_unique [of fst])
  show "inj_on fst (set m \<union> set n)"
  proof (rule inj_onI)
    fix x y
    assume "x \<in> set m \<union> set n" "y \<in> set m \<union> set n" "fst x = fst y"
    then show "x = y"
      using assms by (cases x; cases y) (auto simp flip: map_of_std_map)
  qed
  show "sorted (map fst m)" "sorted (map fst n)"
    using assms unfolding std_map_ok_def by (auto intro: strict_sorted_imp_sorted)
  show "distinct (map fst m)" "distinct (map fst n)"
    using assms std_map_ok_distinct by auto
  show "set m = set n"
    using assms by (auto simp flip: map_of_std_map)
qed

lemma insert_or_assign_last:
  "(\<forall>k' \<in> fst ` set m. k' < k) \<Longrightarrow> insert_or_assign k v m = m @ [(k, v)]"
  by (induction m) (auto simp: not_less_iff_gr_or_eq)

end
