(* ===== verification/Rpc_Error.thy ===== *)
theory Rpc_Error
  imports Neko_Prelude
begin

text \<open>
  The error values of the RPC layer: \<open>RpcError\<close> with its category messages (\<open>rpc/error.hpp\<close>) and
  \<open>std::error_code\<close> as the pair of category and value the RPC code returns. Of the I/O errors of
  the \<open>ilias\<close> library only the names the modelled code uses appear.
\<close>

datatype RpcError =
    RpcOk
  | MethodNotBind
  | ClientNotInit
  | ResponseIdNotMatch
  | InvalidRequest
  | MethodNotFound
  | InvalidParams
  | InternalError
  | MethodIdNotNegotiated
  | MethodTableOutdated
  | MethodIdNotFound
  | MethodIdRemoved
  | MethodSignatureMismatch
  | MethodIdRequiredButUnsupported
  | CompressionRequiredButUnsupported
  | Overloaded
  | DeadlineExceeded

fun rpc_error_value :: "RpcError \<Rightarrow> int" where
  "rpc_error_value RpcOk = 0"
| "rpc_error_value MethodNotBind = 1"
| "rpc_error_value ClientNotInit = 2"
| "rpc_error_value ResponseIdNotMatch = 3"
| "rpc_error_value InvalidRequest = 4"
| "rpc_error_value MethodNotFound = 5"
| "rpc_error_value InvalidParams = 6"
| "rpc_error_value InternalError = 7"
| "rpc_error_value MethodIdNotNegotiated = 8"
| "rpc_error_value MethodTableOutdated = 9"
| "rpc_error_value MethodIdNotFound = 10"
| "rpc_error_value MethodIdRemoved = 11"
| "rpc_error_value MethodSignatureMismatch = 12"
| "rpc_error_value MethodIdRequiredButUnsupported = 13"
| "rpc_error_value CompressionRequiredButUnsupported = 14"
| "rpc_error_value Overloaded = 15"
| "rpc_error_value DeadlineExceeded = 16"

definition rpc_error_message :: "int \<Rightarrow> string" where
  "rpc_error_message v =
     (if v = 0 then ''Ok''
      else if v = 1 then ''Method not Bind''
      else if v = 2 then ''Client Not Init''
      else if v = 3 then ''Response Id Not Match''
      else if v = 4 then ''Invalid Request''
      else if v = 5 then ''Method Not Found''
      else if v = 6 then ''Invalid Params''
      else if v = 7 then ''Internal Error''
      else if v = 8 then ''Method Id Not Negotiated''
      else if v = 9 then ''Method Table Outdated''
      else if v = 10 then ''Method Id Not Found''
      else if v = 11 then ''Method Id Removed''
      else if v = 12 then ''Method Signature Mismatch''
      else if v = 13 then ''Method Id Required But Unsupported''
      else if v = 14 then ''Compression Required But Unsupported''
      else if v = 15 then ''RPC Server Overloaded''
      else if v = 16 then ''RPC Deadline Exceeded''
      else ''Unknown RPC Error'')"

lemma rpc_error_value_inj: "rpc_error_value a = rpc_error_value b \<longleftrightarrow> a = b"
  by (cases a; cases b; simp)

datatype IoError = MessageTooLarge | UnexpectedEOF | WriteZero | Io_Canceled | Io_InvalidArgument | Io_WouldBlock | Io_Other

text \<open>
  A received error frame may carry any integer as its error code, so the RPC category keeps the
  value and not the enumerator.
\<close>

datatype error_code = Rpc_Code int | Io_Code IoError | Serializer_Code string

definition rpc_err :: "RpcError \<Rightarrow> error_code" where
  "rpc_err e = Rpc_Code (rpc_error_value e)"

type_synonym 'a rpc_result = "(error_code, 'a) checked"

lemma rpc_err_eq [simp]: "rpc_err a = rpc_err b \<longleftrightarrow> a = b"
  by (simp add: rpc_err_def rpc_error_value_inj)

lemma rpc_err_not_io [simp]: "rpc_err a \<noteq> Io_Code e" "Io_Code e \<noteq> rpc_err a"
  by (simp_all add: rpc_err_def)

end
