(* ===== verification/Rpc_Frame.thy ===== *)
theory Rpc_Frame
  imports Wire_Integers Ordered_Map Rpc_Error
begin

unbundle bit_operations_syntax

text \<open>
  The RPC frame: \<open>NekoRpcFrameCodec\<close> and \<open>NekoRpcExtensionCodec\<close> (\<open>rpc/private/backend_base.hpp\<close>,
  \<open>rpc.cpp\<close>). A frame is a 24-byte header, the method bytes, the TLV extensions and the payload.
  \<open>bool\<close> results with an out-parameter are \<open>Inr\<close> of the parameter for true and \<open>Inl (Err ())\<close> for
  false; no caller reads the parameter after false. \<open>std::size_t\<close> is 64 bits wide.
\<close>

definition size_max :: nat where
  "size_max = 2 ^ 64 - 1"

subsection \<open>Kinds, flags, extension types\<close>

text \<open>The enumerations have a fixed underlying type and hold any value of it.\<close>

type_synonym NekoRpcKind = u8

definition Kind_Request :: NekoRpcKind where "Kind_Request = 1"
definition Kind_Response :: NekoRpcKind where "Kind_Response = 2"
definition Kind_Notify :: NekoRpcKind where "Kind_Notify = 3"
definition Kind_Cancel :: NekoRpcKind where "Kind_Cancel = 4"
definition Kind_Hello :: NekoRpcKind where "Kind_Hello = 5"

definition Flag_Error :: u8 where "Flag_Error = 1"
definition Flag_MethodId :: u8 where "Flag_MethodId = 2"
definition Flag_HasExtensions :: u8 where "Flag_HasExtensions = 4"
definition Flag_Compressed :: u8 where "Flag_Compressed = 8"

type_synonym NekoRpcExtensionType = u16

definition Ext_MethodId :: NekoRpcExtensionType where "Ext_MethodId = 1"
definition Ext_MethodTableVersion :: NekoRpcExtensionType where "Ext_MethodTableVersion = 2"
definition Ext_MethodTable :: NekoRpcExtensionType where "Ext_MethodTable = 3"
definition Ext_MethodTableDelta :: NekoRpcExtensionType where "Ext_MethodTableDelta = 4"
definition Ext_MethodSignatureHash :: NekoRpcExtensionType where "Ext_MethodSignatureHash = 5"
definition Ext_MethodMinimumCompatibleVersion :: NekoRpcExtensionType where
  "Ext_MethodMinimumCompatibleVersion = 6"
definition Ext_Compression :: NekoRpcExtensionType where "Ext_Compression = 16"
definition Ext_CompressionAlgorithm :: NekoRpcExtensionType where "Ext_CompressionAlgorithm = 17"
definition Ext_CompressionMinPayloadSize :: NekoRpcExtensionType where
  "Ext_CompressionMinPayloadSize = 18"

lemmas kind_defs = Kind_Request_def Kind_Response_def Kind_Notify_def Kind_Cancel_def Kind_Hello_def
lemmas flag_defs = Flag_Error_def Flag_MethodId_def Flag_HasExtensions_def Flag_Compressed_def
lemmas ext_defs = Ext_MethodId_def Ext_MethodTableVersion_def Ext_MethodTable_def
  Ext_MethodTableDelta_def Ext_MethodSignatureHash_def Ext_MethodMinimumCompatibleVersion_def
  Ext_Compression_def Ext_CompressionAlgorithm_def Ext_CompressionMinPayloadSize_def

type_synonym extension_map = "(NekoRpcExtensionType, bytes) std_map"

definition knownKind :: "NekoRpcKind \<Rightarrow> bool" where
  "knownKind kind \<longleftrightarrow> kind = Kind_Request \<or> kind = Kind_Response \<or> kind = Kind_Notify \<or>
     kind = Kind_Cancel \<or> kind = Kind_Hello"

subsection \<open>The header\<close>

definition Magic :: u16 where "Magic = 0x4E52"
definition Version :: u8 where "Version = 1"

record Header =
  h_magic :: u16
  h_version :: u8
  h_kind :: NekoRpcKind
  h_flags :: u8
  h_codec :: u8
  h_extension_size :: u16
  h_id :: u64
  h_method_size :: u32
  h_payload_size :: u32

definition default_header :: Header where
  "default_header = \<lparr>h_magic = Magic, h_version = Version, h_kind = Kind_Request, h_flags = 0,
     h_codec = 0, h_extension_size = 0, h_id = 0, h_method_size = 0, h_payload_size = 0\<rparr>"

text \<open>\<open>header_size()\<close> folds the widths of the reflected fields.\<close>

definition headerSize :: nat where
  "headerSize = sum_list [2, 1, 1, 1, 1, 2, 8, 4, 4]"

lemma headerSize_eq [simp]: "headerSize = 24"
  by (simp add: headerSize_def)

text \<open>\<open>read_header\<close> visits the fields in declaration order and carries the offset along.\<close>

definition read_header :: "bytes \<Rightarrow> ('e, Header) checked" where
  "read_header data =
     and_then (read_integer_at data 0) (\<lambda>(magic, offset).
     and_then (read_integer_at data offset) (\<lambda>(version, offset).
     and_then (read_integer_at data offset) (\<lambda>(kind, offset).
     and_then (read_integer_at data offset) (\<lambda>(flags, offset).
     and_then (read_integer_at data offset) (\<lambda>(codec, offset).
     and_then (read_integer_at data offset) (\<lambda>(extension_size, offset).
     and_then (read_integer_at data offset) (\<lambda>(id, offset).
     and_then (read_integer_at data offset) (\<lambda>(method_size, offset).
     and_then (read_integer_at data offset) (\<lambda>(payload_size, offset).
       Inr \<lparr>h_magic = magic, h_version = version, h_kind = kind, h_flags = flags, h_codec = codec,
            h_extension_size = extension_size, h_id = id, h_method_size = method_size,
            h_payload_size = payload_size\<rparr>)))))))))"

definition append_header :: "bytes \<Rightarrow> Header \<Rightarrow> bytes" where
  "append_header out header =
     (let out = appendInteger out (h_magic header);
          out = appendInteger out (h_version header);
          out = appendInteger out (h_kind header);
          out = appendInteger out (h_flags header);
          out = appendInteger out (h_codec header);
          out = appendInteger out (h_extension_size header);
          out = appendInteger out (h_id header);
          out = appendInteger out (h_method_size header)
      in appendInteger out (h_payload_size header))"

definition header_bytes :: "Header \<Rightarrow> bytes" where
  "header_bytes header = append_header [] header"

definition valid_header :: "Header \<Rightarrow> bool" where
  "valid_header header \<longleftrightarrow>
     h_magic header = Magic \<and> h_version header = Version \<and> knownKind (h_kind header)"

definition frame_body_size :: "Header \<Rightarrow> nat rpc_result" where
  "frame_body_size header =
     (let method_size = unat (h_method_size header);
          extension_size = unat (h_extension_size header);
          payload_size = unat (h_payload_size header)
      in if method_size > size_max - extension_size \<or>
            method_size + extension_size > size_max - payload_size \<or>
            method_size + extension_size + payload_size > size_max - headerSize
         then Inl (Err (rpc_err InvalidRequest))
         else Inr (method_size + extension_size + payload_size))"

subsection \<open>TLV extensions\<close>

function load_tlvs_loop :: "bytes \<Rightarrow> nat \<Rightarrow> extension_map \<Rightarrow> (unit, extension_map) checked" where
  "load_tlvs_loop data offset extensions =
     (if offset < length data then
        if length data - offset < 4 then Inl (Err ())
        else
          and_then (readInteger data offset) (\<lambda>wire_type.
          and_then (readInteger data (offset + 2)) (\<lambda>size :: u16.
            let offset' = offset + 4 in
            if length data - offset' < unat size then Inl (Err ())
            else if contains extensions wire_type then Inl (Err ())
            else
              and_then (span_sub data offset' (unat size))
                (\<lambda>value. load_tlvs_loop data (offset' + unat size) (emplace wire_type value extensions))))
      else Inr extensions)"
  by pat_completeness auto
termination
  by (relation "measure (\<lambda>(data, offset, extensions). length data - offset)") auto

declare load_tlvs_loop.simps [simp del]

definition loadTlvs :: "bytes \<Rightarrow> (unit, extension_map) checked" where
  "loadTlvs data = load_tlvs_loop data 0 []"

text \<open>\<open>appendTlvs\<close> stops with false (here \<open>None\<close>) at the first value too long for its size field.\<close>

fun appendTlvs :: "bytes \<Rightarrow> extension_map \<Rightarrow> bytes option" where
  "appendTlvs out [] = Some out"
| "appendTlvs out ((type, value) # extensions) =
     (if length value > 65535 then None
      else appendTlvs
             (appendInteger (appendInteger out type) (of_nat (length value) :: u16) @ value) extensions)"

definition extensions_supported :: "extension_map \<Rightarrow> bool" where
  "extensions_supported extensions \<longleftrightarrow> list_all (\<lambda>e. fst e AND 0x8000 = 0) extensions"

text \<open>Typed values of an extension.\<close>

definition readIntegerTlv :: "extension_map \<Rightarrow> NekoRpcExtensionType \<Rightarrow> ('e, 'a::len word option) checked"
where
  "readIntegerTlv extensions type =
     (case map_of extensions type of None \<Rightarrow> Inr None | Some value \<Rightarrow> readIntegerValue value)"

subsection \<open>Frames\<close>

record FrameParts =
  fp_header :: Header
  fp_method :: bytes
  fp_extensions :: extension_map
  fp_payload :: bytes

definition parse_frame_parts :: "bytes \<Rightarrow> (unit, FrameParts) checked" where
  "parse_frame_parts data =
     (if length data < headerSize then Inl (Err ())
      else
        and_then (read_header data) (\<lambda>header.
        if \<not> valid_header header then Inl (Err ())
        else case frame_body_size header of
          Inl _ \<Rightarrow> Inl (Err ())
        | Inr body_size \<Rightarrow>
          if headerSize + body_size \<noteq> length data then Inl (Err ())
          else
            let method_size = unat (h_method_size header);
                extension_size = unat (h_extension_size header);
                payload_size = unat (h_payload_size header);
                method_begin = headerSize;
                extension_begin = method_begin + method_size;
                payload_begin = extension_begin + extension_size
            in and_then (span_sub data method_begin method_size) (\<lambda>method.
               and_then (span_sub data extension_begin extension_size) (\<lambda>tlvs.
               and_then (loadTlvs tlvs) (\<lambda>extensions.
               and_then (span_sub data payload_begin payload_size) (\<lambda>payload.
                 if extensions_supported extensions
                 then Inr \<lparr>fp_header = header, fp_method = method,
                           fp_extensions = extensions, fp_payload = payload\<rparr>
                 else Inl (Err ())))))))"

definition parseFrame :: "bytes \<Rightarrow> u8 \<Rightarrow> (unit, FrameParts) checked" where
  "parseFrame data codec =
     and_then (parse_frame_parts data)
       (\<lambda>parts. if h_codec (fp_header parts) = codec then Inr parts else Inl (Err ()))"

definition encodeFrame :: "FrameParts \<Rightarrow> bytes" where
  "encodeFrame frame =
     (case appendTlvs [] (fp_extensions frame) of
        None \<Rightarrow> []
      | Some tlvs \<Rightarrow>
        if length (fp_method frame) > 2 ^ 32 - 1 \<or> length tlvs > 2 ^ 16 - 1 \<or>
           length (fp_payload frame) > 2 ^ 32 - 1
        then []
        else
          let h = fp_header frame;
              h = h\<lparr>h_magic := Magic, h_version := Version,
                    h_method_size := of_nat (length (fp_method frame)),
                    h_extension_size := of_nat (length tlvs),
                    h_payload_size := of_nat (length (fp_payload frame))\<rparr>;
              h = (if tlvs \<noteq> [] then h\<lparr>h_flags := h_flags h OR Flag_HasExtensions\<rparr>
                   else h\<lparr>h_flags := h_flags h AND NOT Flag_HasExtensions\<rparr>)
          in append_header [] h @ fp_method frame @ tlvs @ fp_payload frame)"

definition encodeHello :: "extension_map \<Rightarrow> u8 \<Rightarrow> bytes" where
  "encodeHello extensions codec =
     encodeFrame \<lparr>fp_header = default_header\<lparr>h_kind := Kind_Hello, h_codec := codec\<rparr>, fp_method = [],
                  fp_extensions = extensions, fp_payload = []\<rparr>"

record DecodedRequest =
  dr_header :: Header
  dr_method :: string
  dr_payload :: bytes

definition decodeFrame :: "bytes \<Rightarrow> DecodedRequest rpc_result" where
  "decodeFrame data =
     (case parse_frame_parts data of
        Inr parts \<Rightarrow>
          Inr \<lparr>dr_header = fp_header parts, dr_method = chars_of_bytes (fp_method parts),
               dr_payload = fp_payload parts\<rparr>
      | Inl (Err _) \<Rightarrow> Inl (Err (rpc_err InvalidRequest))
      | Inl Out_Of_Bounds \<Rightarrow> Inl Out_Of_Bounds)"

definition expectsResponse :: "DecodedRequest \<Rightarrow> bool" where
  "expectsResponse request \<longleftrightarrow> h_kind (dr_header request) = Kind_Request"

text \<open>\<open>encodeResponses\<close>: the first response, or an empty message.\<close>

definition codec_encodeResponses :: "bytes list \<Rightarrow> bytes" where
  "codec_encodeResponses responses = (case responses of [] \<Rightarrow> [] | r # _ \<Rightarrow> r)"

record NekoRpcFrameLimits =
  max_frame_bytes :: nat
  max_method_bytes :: nat
  max_payload_bytes :: nat
  max_extension_bytes :: nat

definition default_limits :: NekoRpcFrameLimits where
  "default_limits = \<lparr>max_frame_bytes = 16 * 1024 * 1024, max_method_bytes = 64 * 1024,
     max_payload_bytes = 16 * 1024 * 1024, max_extension_bytes = 64 * 1024\<rparr>"

definition headerBodySize :: "bytes \<Rightarrow> u8 \<Rightarrow> NekoRpcFrameLimits \<Rightarrow> nat rpc_result" where
  "headerBodySize hdr codec limits =
     (if length hdr \<noteq> headerSize then Inl (Err (rpc_err InvalidRequest))
      else
        and_then (read_header hdr) (\<lambda>parsed.
        if \<not> valid_header parsed \<or> h_codec parsed \<noteq> codec then Inl (Err (rpc_err InvalidRequest))
        else if unat (h_method_size parsed) > max_method_bytes limits \<or>
                unat (h_payload_size parsed) > max_payload_bytes limits \<or>
                unat (h_extension_size parsed) > max_extension_bytes limits
        then Inl (Err (Io_Code MessageTooLarge))
        else case frame_body_size parsed of
          Inl _ \<Rightarrow> Inl (Err (Io_Code MessageTooLarge))
        | Inr bodySize \<Rightarrow>
          if max_frame_bytes limits < headerSize \<or> bodySize > max_frame_bytes limits - headerSize
          then Inl (Err (Io_Code MessageTooLarge))
          else Inr bodySize))"

subsection \<open>The header round trip\<close>

lemma read_header_bytes: "read_header (header_bytes h @ rest) = (Inr h :: ('e, _) checked)"
  by (simp add: header_bytes_def append_header_def appendInteger_integerValue read_header_def
      read_integer_at_drop)

lemma length_header_bytes [simp]: "length (header_bytes h) = headerSize"
  by (simp add: header_bytes_def append_header_def appendInteger_integerValue)

lemma append_header_eq: "append_header out h = out @ header_bytes h"
  by (simp add: header_bytes_def append_header_def appendInteger_integerValue)

lemma read_header_sound:
  assumes "read_header data = (Inr h :: ('e, _) checked)"
  shows "headerSize \<le> length data \<and> data = header_bytes h @ drop headerSize data"
  using assms unfolding read_header_def header_bytes_def append_header_def Let_def
    appendInteger_integerValue
  apply (clarsimp simp: and_then_Inr_iff)
  apply (drule read_integer_at_InrD, simp, simp)
  apply (clarsimp)
  apply (drule read_integer_at_InrD, simp, simp, clarsimp)+
  done

lemma read_header_total:
  "headerSize \<le> length data \<Longrightarrow> \<exists>h. read_header data = (Inr h :: ('e, _) checked)"
  unfolding read_header_def
  by (rule read_integer_at_total_then; simp?)+

lemma in_bounds_read_header [fault_free]:
  "headerSize \<le> length data \<Longrightarrow> in_bounds (read_header data :: ('e, _) checked)"
  unfolding read_header_def
  by (rule in_bounds_read_integer_at_then; simp?)+

subsection \<open>The TLV section\<close>

definition tlv_short :: "NekoRpcExtensionType \<times> bytes \<Rightarrow> bool" where
  "tlv_short e \<longleftrightarrow> length (snd e) \<le> 65535"

definition tlv_bytes :: "NekoRpcExtensionType \<times> bytes \<Rightarrow> bytes" where
  "tlv_bytes e = integerValue (fst e) @ integerValue (of_nat (length (snd e)) :: u16) @ snd e"

definition tlvs_bytes :: "(NekoRpcExtensionType \<times> bytes) list \<Rightarrow> bytes" where
  "tlvs_bytes es = concat (map tlv_bytes es)"

lemma tlvs_bytes_simps [simp]:
  "tlvs_bytes [] = []"
  "tlvs_bytes (e # es) = tlv_bytes e @ tlvs_bytes es"
  by (simp_all add: tlvs_bytes_def)

lemma length_tlv_bytes [simp]: "length (tlv_bytes e) = 4 + length (snd e)"
  by (simp add: tlv_bytes_def)

lemma tlv_short_unat: "tlv_short e \<Longrightarrow> unat (of_nat (length (snd e)) :: u16) = length (snd e)"
  unfolding tlv_short_def by (rule unat_of_nat_bound) simp

lemma appendTlvs_eq:
  "appendTlvs out es = (if list_all tlv_short es then Some (out @ tlvs_bytes es) else None)"
proof (induction out es rule: appendTlvs.induct)
  case (2 out type v es)
  then show ?case
    by (simp add: tlv_short_def tlv_bytes_def appendInteger_integerValue)
qed simp

lemma load_tlvs_loop_step:
  assumes e: "tlv_short e" and data: "drop off data = tlv_bytes e @ rest" and off: "off \<le> length data"
  shows "load_tlvs_loop data off m =
    (if contains m (fst e) then Inl (Err ())
     else load_tlvs_loop data (off + length (tlv_bytes e)) (emplace (fst e) (snd e) m))"
proof -
  have len: "length data = off + length (tlv_bytes e) + length rest"
    using arg_cong [OF data, of length] off by simp
  have d2: "drop (off + 2) data = integerValue (of_nat (length (snd e)) :: u16) @ snd e @ rest"
    using arg_cong [OF data, of "drop 2"] by (simp add: tlv_bytes_def add.commute)
  have d4: "drop (off + 4) data = snd e @ rest"
    using arg_cong [OF data, of "drop 4"] by (simp add: tlv_bytes_def add.commute)
  have r1: "readInteger data off = (Inr (fst e) :: (unit, _) checked)"
    using read_integer_at_drop [of off data "fst e", where 'e = unit] data off
    by (simp add: tlv_bytes_def read_integer_at_def and_then_Inr_iff)
  have r2: "readInteger data (off + 2) = (Inr (of_nat (length (snd e)) :: u16) :: (unit, _) checked)"
    using read_integer_at_drop [OF d2, where 'e = unit] len
    by (simp add: read_integer_at_def and_then_Inr_iff)
  have sub: "span_sub data (off + 4) (length (snd e)) = (Inr (snd e) :: (unit, _) checked)"
    using len d4 by (simp add: span_sub_def subspan_def)
  show ?thesis
    using len by (subst load_tlvs_loop.simps) (simp add: r1 r2 sub tlv_short_unat [OF e] add.assoc del: add_2_eq_Suc')
qed

lemma load_tlvs_loop_inv:
  assumes "load_tlvs_loop data off m = Inr n" and "off < length data"
  obtains e rest where "tlv_short e" "drop off data = tlv_bytes e @ rest" "\<not> contains m (fst e)"
proof -
  have four: "off + 4 \<le> length data"
    using assms by (subst (asm) load_tlvs_loop.simps) (auto split: if_splits)
  note body = assms(1) [unfolded load_tlvs_loop.simps [of data off] if_P [OF assms(2)]]
  have nf: "\<not> length data - off < 4"
    using four by simp
  note body = body [unfolded if_not_P [OF nf]]
  obtain ty :: u16 where ty: "readInteger data off = (Inr ty :: (unit, _) checked)"
    using body by (elim and_then_InrE)
  obtain sz :: u16 where sz: "readInteger data (off + 2) = (Inr sz :: (unit, _) checked)"
    using body by (elim and_then_InrE)
  have rest: "off + 4 + unat sz \<le> length data" "\<not> contains m ty"
    using body four unfolding ty sz and_then_simps Let_def by (auto split: if_splits)
  have "drop off data = integerValue ty @ drop (off + 2) data"
    using read_integer_at_InrD [of data off ty "off + 2", where 'e = unit] ty four
    by (simp add: read_integer_at_def)
  moreover have "drop (off + 2) data = integerValue sz @ drop (off + 4) data"
    using read_integer_at_InrD [of data "off + 2" sz "off + 4", where 'e = unit] sz four
    by (simp add: read_integer_at_def)
  moreover have "drop (off + 4) data = subspan data (off + 4) (unat sz) @ drop (unat sz) (drop (off + 4) data)"
    by (simp only: subspan_def append_take_drop_id)
  ultimately have "drop off data =
      tlv_bytes (ty, subspan data (off + 4) (unat sz)) @ drop (unat sz) (drop (off + 4) data)"
    using rest(1) by (simp add: tlv_bytes_def)
  moreover have "tlv_short (ty, subspan data (off + 4) (unat sz))"
    using unsigned_less [of sz, where 'a = nat] by (simp add: tlv_short_def)
  ultimately show thesis
    using rest(2) by (intro that) auto
qed

definition emplace_all :: "extension_map \<Rightarrow> (NekoRpcExtensionType \<times> bytes) list \<Rightarrow> extension_map" where
  "emplace_all m es = foldl (\<lambda>m e. emplace (fst e) (snd e) m) m es"

lemma emplace_all_simps [simp]:
  "emplace_all m [] = m"
  "emplace_all m (e # es) = emplace_all (emplace (fst e) (snd e) m) es"
  by (simp_all add: emplace_all_def)

lemma contains_emplace [simp]: "contains (emplace k v m) k' \<longleftrightarrow> k' = k \<or> contains m k'"
  by (auto simp: contains_iff emplace_def)

lemma load_tlvs_loop_tlvs:
  "drop off data = tlvs_bytes es \<Longrightarrow> off \<le> length data \<Longrightarrow> list_all tlv_short es \<Longrightarrow>
   load_tlvs_loop data off m =
     (if distinct (map fst es) \<and> (\<forall>e \<in> set es. \<not> contains m (fst e))
      then Inr (emplace_all m es) else Inl (Err ()))"
proof (induction es arbitrary: off m)
  case Nil
  then show ?case by (subst load_tlvs_loop.simps) simp
next
  case (Cons e es)
  have data: "drop off data = tlv_bytes e @ tlvs_bytes es"
    using Cons.prems(1) by simp
  then have next': "drop (off + length (tlv_bytes e)) data = tlvs_bytes es"
    by (metis add.commute append_eq_conv_conj drop_drop)
  have len: "off + length (tlv_bytes e) \<le> length data"
    using arg_cong [OF data, of length] Cons.prems(2) by simp
  note ih = Cons.IH [OF next' len]
  show ?case
    using Cons.prems(3) ih load_tlvs_loop_step [OF _ data Cons.prems(2), of m]
    by (auto simp: key_notin_iff)
qed

lemma load_tlvs_loop_Inr:
  "load_tlvs_loop data off m = Inr n \<Longrightarrow> off \<le> length data \<Longrightarrow>
   \<exists>es. drop off data = tlvs_bytes es \<and> list_all tlv_short es"
proof (induction "length data - off" arbitrary: off m rule: less_induct)
  case less
  show ?case
  proof (cases "off < length data")
    case True
    with less.prems obtain e rest where e: "tlv_short e" "drop off data = tlv_bytes e @ rest"
      "\<not> contains m (fst e)"
      by (elim load_tlvs_loop_inv)
    have "load_tlvs_loop data (off + length (tlv_bytes e)) (emplace (fst e) (snd e) m) = Inr n"
      using load_tlvs_loop_step [OF e(1,2) less.prems(2), of m] e(3) less.prems(1) by simp
    moreover have len: "off + length (tlv_bytes e) \<le> length data"
      using arg_cong [OF e(2), of length] less.prems(2) by simp
    moreover have "length data - (off + length (tlv_bytes e)) < length data - off"
      using True by simp
    ultimately obtain es where "drop (off + length (tlv_bytes e)) data = tlvs_bytes es" "list_all tlv_short es"
      using less.hyps by blast
    moreover have "drop (off + length (tlv_bytes e)) data = rest"
      using e(2) by (metis add.commute append_eq_conv_conj drop_drop)
    ultimately have "drop off data = tlvs_bytes (e # es) \<and> list_all tlv_short (e # es)"
      using e by simp
    then show ?thesis
      by blast
  next
    case False
    then have "drop off data = tlvs_bytes [] \<and> list_all tlv_short []"
      by simp
    then show ?thesis
      by blast
  qed
qed

lemma emplace_all_props:
  "std_map_ok m \<Longrightarrow> distinct (map fst es) \<Longrightarrow> \<forall>e \<in> set es. \<not> contains m (fst e) \<Longrightarrow>
   std_map_ok (emplace_all m es) \<and> map_of (emplace_all m es) = map_of m ++ map_of es"
proof (induction es arbitrary: m)
  case (Cons e es)
  let ?m = "emplace (fst e) (snd e) m"
  have new: "\<forall>e' \<in> set es. fst e' \<noteq> fst e"
    using Cons.prems(2) by (simp flip: key_notin_iff)
  have m: "map_of ?m = (map_of m)(fst e \<mapsto> snd e)"
    using Cons.prems by (simp add: emplace_new)
  have "std_map_ok (emplace_all ?m es) \<and> map_of (emplace_all ?m es) = map_of ?m ++ map_of es"
    using Cons.prems new by (intro Cons.IH) auto
  moreover have "map_of es (fst e) = None"
    using Cons.prems(2) by (simp add: map_of_eq_None_iff)
  ultimately show ?case
    by (auto simp add: m fun_eq_iff map_add_def split: option.splits)
qed simp

text \<open>
  \<open>loadTlvs\<close> accepts exactly the concatenations of well-sized TLVs with distinct types, in any
  order, and returns their map.
\<close>

lemma loadTlvs_iff:
  "loadTlvs data = Inr m \<longleftrightarrow>
    (\<exists>es. data = tlvs_bytes es \<and> list_all tlv_short es \<and> distinct (map fst es) \<and>
       std_map_ok m \<and> map_of m = map_of es)"
proof
  assume l: "loadTlvs data = Inr m"
  then obtain es where es: "data = tlvs_bytes es" "list_all tlv_short es"
    using load_tlvs_loop_Inr [of data 0 "[]" m] by (auto simp: loadTlvs_def)
  with l have "distinct (map fst es)" "m = emplace_all [] es"
    using load_tlvs_loop_tlvs [of 0 data es "[]"] by (auto simp: loadTlvs_def split: if_splits)
  with es show "\<exists>es. data = tlvs_bytes es \<and> list_all tlv_short es \<and> distinct (map fst es) \<and>
      std_map_ok m \<and> map_of m = map_of es"
    using emplace_all_props [of "[]" es] by (auto simp: contains_def)
next
  assume "\<exists>es. data = tlvs_bytes es \<and> list_all tlv_short es \<and> distinct (map fst es) \<and>
      std_map_ok m \<and> map_of m = map_of es"
  then obtain es where es: "data = tlvs_bytes es" "list_all tlv_short es" "distinct (map fst es)"
    and m: "std_map_ok m" "map_of m = map_of es"
    by blast
  then have "loadTlvs data = Inr (emplace_all [] es)"
    using load_tlvs_loop_tlvs [of 0 data es "[]"] by (simp add: loadTlvs_def contains_def)
  moreover have "emplace_all [] es = m"
    using emplace_all_props [of "[]" es] es(3) m by (intro std_map_eqI) (auto simp: contains_def)
  ultimately show "loadTlvs data = Inr m"
    by simp
qed

lemma loadTlvs_tlvs_bytes:
  "std_map_ok m \<Longrightarrow> list_all tlv_short m \<Longrightarrow> loadTlvs (tlvs_bytes m) = Inr m"
  using std_map_ok_distinct [of m] by (auto simp: loadTlvs_iff)

lemma in_bounds_load_tlvs_loop: "in_bounds (load_tlvs_loop data off m)"
proof (induction "length data - off" arbitrary: off m rule: less_induct)
  case less
  show ?case
  proof (cases "off < length data \<and> \<not> length data - off < 4")
    case True
    then have len: "off + 4 \<le> length data"
      by linarith
    show ?thesis
      unfolding load_tlvs_loop.simps [of data off] Let_def
      using True len
      by (intro fault_free in_bounds_readInteger in_bounds_span_sub less.hyps) auto
  next
    case False
    then show ?thesis
      by (subst load_tlvs_loop.simps) auto
  qed
qed

lemma in_bounds_loadTlvs [fault_free]: "in_bounds (loadTlvs data)"
  by (simp add: loadTlvs_def in_bounds_load_tlvs_loop)

subsection \<open>The frame round trip\<close>

lemma frame_body_size_eq:
  "frame_body_size h = Inr (unat (h_method_size h) + unat (h_extension_size h) + unat (h_payload_size h))"
  using unsigned_less [of "h_method_size h", where 'a = nat]
    unsigned_less [of "h_extension_size h", where 'a = nat]
    unsigned_less [of "h_payload_size h", where 'a = nat]
  by (auto simp: frame_body_size_def size_max_def Let_def)

text \<open>What a frame looks like on the wire; the TLVs may come in any order.\<close>

definition wire_frame :: "bytes \<Rightarrow> FrameParts \<Rightarrow> (NekoRpcExtensionType \<times> bytes) list \<Rightarrow> bool" where
  "wire_frame data p es \<longleftrightarrow>
     data = header_bytes (fp_header p) @ fp_method p @ tlvs_bytes es @ fp_payload p \<and>
     valid_header (fp_header p) \<and>
     unat (h_method_size (fp_header p)) = length (fp_method p) \<and>
     unat (h_extension_size (fp_header p)) = length (tlvs_bytes es) \<and>
     unat (h_payload_size (fp_header p)) = length (fp_payload p)"

lemma parse_frame_parts_wire:
  assumes w: "wire_frame data p es" and t: "loadTlvs (tlvs_bytes es) = Inr (fp_extensions p)"
    and s: "extensions_supported (fp_extensions p)"
  shows "parse_frame_parts data = Inr p"
proof -
  note w = w [unfolded wire_frame_def]
  let ?h = "fp_header p"
  have len: "length data = headerSize +
      (unat (h_method_size ?h) + unat (h_extension_size ?h) + unat (h_payload_size ?h))"
    using w by simp
  have h: "read_header data = (Inr ?h :: (unit, _) checked)"
    using w by (simp add: read_header_bytes)
  have m: "span_sub data headerSize (unat (h_method_size ?h)) = (Inr (fp_method p) :: (unit, _) checked)"
    using w by (simp add: span_sub_append_mid)
  have e: "span_sub data (headerSize + unat (h_method_size ?h)) (unat (h_extension_size ?h)) =
      (Inr (tlvs_bytes es) :: (unit, _) checked)"
    using w by (intro span_sub_drop [where post = "fp_payload p"]) simp_all
  have p: "span_sub data (headerSize + unat (h_method_size ?h) + unat (h_extension_size ?h))
      (unat (h_payload_size ?h)) = (Inr (fp_payload p) :: (unit, _) checked)"
    using w by (intro span_sub_drop [where post = "[]"]) simp_all
  show ?thesis
    unfolding parse_frame_parts_def frame_body_size_eq h and_then_simps Let_def sum.case m e p t
    using w len s by simp
qed

lemma parse_frame_parts_Inr:
  assumes "parse_frame_parts data = Inr p"
  obtains es where "wire_frame data p es" "loadTlvs (tlvs_bytes es) = Inr (fp_extensions p)"
    "extensions_supported (fp_extensions p)"
proof -
  from assms obtain h where long: "headerSize \<le> length data"
    and h: "read_header data = (Inr h :: (unit, _) checked)"
    by (auto simp: parse_frame_parts_def and_then_Inr_iff split: if_splits)
  let ?m = "unat (h_method_size h)" and ?e = "unat (h_extension_size h)"
    and ?p = "unat (h_payload_size h)"
  note body = assms [unfolded parse_frame_parts_def if_not_P [OF leD [OF long]] h and_then_simps
      frame_body_size_eq sum.case Let_def]
  from body have v: "valid_header h" and size: "headerSize + (?m + ?e + ?p) = length data"
    by (auto split: if_splits)
  have sub: "span_sub data headerSize ?m = (Inr (subspan data headerSize ?m) :: (unit, _) checked)"
      "span_sub data (headerSize + ?m) ?e = (Inr (subspan data (headerSize + ?m) ?e) :: (unit, _) checked)"
      "span_sub data (headerSize + ?m + ?e) ?p =
        (Inr (subspan data (headerSize + ?m + ?e) ?p) :: (unit, _) checked)"
    using size by (simp_all add: span_sub_inside)
  from body v size have parts: "fp_header p = h" "fp_method p = subspan data headerSize ?m"
      "loadTlvs (subspan data (headerSize + ?m) ?e) = Inr (fp_extensions p)"
      "fp_payload p = subspan data (headerSize + ?m + ?e) ?p" "extensions_supported (fp_extensions p)"
    unfolding sub and_then_simps by (auto simp: and_then_Inr_iff split: if_splits)
  from parts(3) obtain es where es: "subspan data (headerSize + ?m) ?e = tlvs_bytes es"
    by (auto simp: loadTlvs_iff)
  have "data = header_bytes h @ drop headerSize data"
    using read_header_sound [OF h] by simp
  also have "drop headerSize data = subspan data headerSize ?m @ drop (headerSize + ?m) data"
    by (rule drop_eq_subspan)
  also have "drop (headerSize + ?m) data =
      tlvs_bytes es @ drop (headerSize + ?m + ?e) data"
    unfolding es [symmetric] by (rule drop_eq_subspan)
  also have "drop (headerSize + ?m + ?e) data = subspan data (headerSize + ?m + ?e) ?p"
    using size by (simp add: subspan_def)
  finally have data: "data = header_bytes h @ subspan data headerSize ?m @ tlvs_bytes es @
      subspan data (headerSize + ?m + ?e) ?p" .
  have "length (tlvs_bytes es) = ?e"
    unfolding es [symmetric] using size by simp
  with data v size parts have "wire_frame data p es"
    unfolding wire_frame_def by auto
  with parts es show thesis
    by (intro that) auto
qed

lemma parse_frame_parts_iff:
  "parse_frame_parts data = Inr p \<longleftrightarrow>
    (\<exists>es. wire_frame data p es \<and> loadTlvs (tlvs_bytes es) = Inr (fp_extensions p) \<and>
      extensions_supported (fp_extensions p))"
  using parse_frame_parts_wire by (blast elim: parse_frame_parts_Inr)

lemma in_bounds_parse_frame_parts [fault_free]: "in_bounds (parse_frame_parts data)"
proof (cases "length data < headerSize")
  case True
  then show ?thesis by (simp add: parse_frame_parts_def)
next
  case False
  then show ?thesis
    unfolding parse_frame_parts_def frame_body_size_eq Let_def
    by (auto intro!: fault_free)
qed

lemma in_bounds_parseFrame [fault_free]: "in_bounds (parseFrame data codec)"
  unfolding parseFrame_def by (intro fault_free) auto

lemma in_bounds_headerBodySize [fault_free]: "in_bounds (headerBodySize hdr codec limits)"
  unfolding headerBodySize_def frame_body_size_eq by (auto intro!: fault_free)

subsection \<open>What encodeFrame emits\<close>

definition sendable :: "FrameParts \<Rightarrow> bool" where
  "sendable f \<longleftrightarrow> list_all tlv_short (fp_extensions f) \<and> length (fp_method f) \<le> 2 ^ 32 - 1 \<and>
     length (tlvs_bytes (fp_extensions f)) \<le> 2 ^ 16 - 1 \<and> length (fp_payload f) \<le> 2 ^ 32 - 1"

definition stamped :: "FrameParts \<Rightarrow> Header" where
  "stamped f = (fp_header f)\<lparr>h_magic := Magic, h_version := Version,
     h_method_size := of_nat (length (fp_method f)),
     h_extension_size := of_nat (length (tlvs_bytes (fp_extensions f))),
     h_payload_size := of_nat (length (fp_payload f)),
     h_flags := (if fp_extensions f \<noteq> [] then h_flags (fp_header f) OR Flag_HasExtensions
                 else h_flags (fp_header f) AND NOT Flag_HasExtensions)\<rparr>"

lemma tlvs_bytes_empty_iff: "tlvs_bytes es = [] \<longleftrightarrow> es = []"
proof (cases es)
  case (Cons e es')
  then have "0 < length (tlvs_bytes es)"
    by simp
  with Cons show ?thesis
    by (metis length_greater_0_conv list.distinct(1))
qed simp

lemma encodeFrame_eq:
  "encodeFrame f =
    (if sendable f
     then header_bytes (stamped f) @ fp_method f @ tlvs_bytes (fp_extensions f) @ fp_payload f else [])"
  by (auto simp: encodeFrame_def appendTlvs_eq sendable_def stamped_def append_header_eq not_le
      tlvs_bytes_empty_iff Let_def)

lemma stamped_sizes:
  assumes "sendable f"
  shows "unat (h_method_size (stamped f)) = length (fp_method f)"
    and "unat (h_extension_size (stamped f)) = length (tlvs_bytes (fp_extensions f))"
    and "unat (h_payload_size (stamped f)) = length (fp_payload f)"
  using assms by (simp_all add: sendable_def stamped_def unat_of_nat_bound)

lemma stamped_fields [simp]:
  "h_magic (stamped f) = Magic" "h_version (stamped f) = Version"
  "h_kind (stamped f) = h_kind (fp_header f)" "h_codec (stamped f) = h_codec (fp_header f)"
  "h_id (stamped f) = h_id (fp_header f)"
  by (simp_all add: stamped_def)

lemma wire_frame_encode:
  "sendable f \<Longrightarrow> knownKind (h_kind (fp_header f)) \<Longrightarrow>
    wire_frame (encodeFrame f) (f\<lparr>fp_header := stamped f\<rparr>) (fp_extensions f)"
  by (simp add: wire_frame_def encodeFrame_eq stamped_sizes valid_header_def)

lemma parse_frame_parts_encode:
  assumes "sendable f" "knownKind (h_kind (fp_header f))" "std_map_ok (fp_extensions f)"
    and "extensions_supported (fp_extensions f)"
  shows "parse_frame_parts (encodeFrame f) = Inr (f\<lparr>fp_header := stamped f\<rparr>)"
  using assms loadTlvs_tlvs_bytes [OF assms(3)]
  by (intro parse_frame_parts_wire [OF wire_frame_encode]) (simp_all add: sendable_def)

subsection \<open>What headerBodySize lets through\<close>

lemma headerBodySize_Inr_iff:
  "headerBodySize hdr codec limits = Inr n \<longleftrightarrow>
    (\<exists>h. hdr = header_bytes h \<and> valid_header h \<and> h_codec h = codec \<and>
      unat (h_method_size h) \<le> max_method_bytes limits \<and>
      unat (h_payload_size h) \<le> max_payload_bytes limits \<and>
      unat (h_extension_size h) \<le> max_extension_bytes limits \<and>
      n = unat (h_method_size h) + unat (h_extension_size h) + unat (h_payload_size h) \<and>
      headerSize + n \<le> max_frame_bytes limits)" (is "?l = (\<exists>h. ?r h)")
proof
  assume l: ?l
  then obtain h where h: "read_header hdr = (Inr h :: (error_code, _) checked)" and "length hdr = headerSize"
    by (auto simp: headerBodySize_def and_then_Inr_iff split: if_splits)
  with read_header_sound [OF h] have "hdr = header_bytes h"
    by simp
  with l h show "\<exists>h. ?r h"
    by (intro exI [of _ h]) (auto simp: headerBodySize_def frame_body_size_eq split: if_splits)
next
  assume "\<exists>h. ?r h"
  then obtain h where r: "?r h" by blast
  have "read_header (header_bytes h) = (Inr h :: (error_code, _) checked)"
    using read_header_bytes [of h "[]"] by simp
  with r show ?l
    by (auto simp: headerBodySize_def frame_body_size_eq)
qed

lemma header_bytes_inj: "header_bytes h = header_bytes k \<longleftrightarrow> h = k"
proof
  assume eq: "header_bytes h = header_bytes k"
  have "(Inr h :: (unit, _) checked) = read_header (header_bytes h @ [])"
    by (rule read_header_bytes [symmetric])
  also have "\<dots> = Inr k"
    unfolding eq by (rule read_header_bytes)
  finally show "h = k"
    by simp
qed simp

lemma headerBodySize_InlD:
  assumes "headerBodySize hdr codec limits = Inl e"
  shows "e = Err (Io_Code MessageTooLarge) \<or> e = Err (rpc_err InvalidRequest)"
proof (cases "length hdr = headerSize")
  case True
  then obtain h where "read_header hdr = (Inr h :: (error_code, _) checked)"
    using read_header_total [of hdr] by auto
  with True assms show ?thesis
    by (auto simp: headerBodySize_def frame_body_size_eq split: if_splits)
next
  case False
  with assms show ?thesis
    by (simp add: headerBodySize_def)
qed

text \<open>The check the sender makes on its own frame before it goes out.\<close>

definition within_limits :: "NekoRpcFrameLimits \<Rightarrow> FrameParts \<Rightarrow> bool" where
  "within_limits limits f \<longleftrightarrow>
     length (fp_method f) \<le> max_method_bytes limits \<and> length (fp_payload f) \<le> max_payload_bytes limits \<and>
     length (tlvs_bytes (fp_extensions f)) \<le> max_extension_bytes limits \<and>
     headerSize + length (fp_method f) + length (tlvs_bytes (fp_extensions f)) + length (fp_payload f)
       \<le> max_frame_bytes limits"

lemma length_encodeFrame:
  "sendable f \<Longrightarrow> length (encodeFrame f) =
    headerSize + length (fp_method f) + length (tlvs_bytes (fp_extensions f)) + length (fp_payload f)"
  by (simp add: encodeFrame_eq)

lemma headerBodySize_encodeFrame:
  assumes "sendable f"
  shows "headerBodySize (take headerSize (encodeFrame f)) codec limits = Inr n \<longleftrightarrow>
    knownKind (h_kind (fp_header f)) \<and> h_codec (fp_header f) = codec \<and> within_limits limits f \<and>
    n = length (encodeFrame f) - headerSize"
proof -
  have "take headerSize (encodeFrame f) = header_bytes (stamped f)"
    using assms by (simp add: encodeFrame_eq)
  then show ?thesis
    unfolding headerBodySize_Inr_iff length_encodeFrame [OF assms]
    by (auto simp: header_bytes_inj stamped_sizes [OF assms] valid_header_def within_limits_def)
qed

subsection \<open>Properties\<close>

text \<open>C6 (round trip). A frame whose parts fit their size fields, of a known kind, with an ordered
  extension map of supported types, is read back by the receiver of the same codec: the same
  method, extensions and payload, and the header with magic, version, sizes and the extension flag
  stamped in.\<close>

theorem frame_roundtrip:
  assumes "sendable f" and "knownKind (h_kind (fp_header f))" and "std_map_ok (fp_extensions f)"
    and "extensions_supported (fp_extensions f)"
  shows "parseFrame (encodeFrame f) (h_codec (fp_header f)) = Inr (f\<lparr>fp_header := stamped f\<rparr>)"
  using parse_frame_parts_encode [OF assms] by (simp add: parseFrame_def)

definition sample_frame :: FrameParts where
  "sample_frame = \<lparr>fp_header = default_header\<lparr>h_id := 7, h_codec := 1\<rparr>, fp_method = [0x61, 0x62],
     fp_extensions = [(2, [0, 0, 0, 1]), (5, [])], fp_payload = [1, 2, 3]\<rparr>"

lemma frame_roundtrip_witness:
  "parseFrame (encodeFrame sample_frame) 1 = Inr (sample_frame\<lparr>fp_header := stamped sample_frame\<rparr>)"
  using frame_roundtrip [of sample_frame]
  by (simp add: sample_frame_def default_header_def sendable_def tlv_short_def tlvs_bytes_def
      tlv_bytes_def knownKind_def kind_defs extensions_supported_def)

text \<open>C7 (safety). What the receiver accepts is exactly a wire frame: header, method, extensions and
  payload partition the buffer with the sizes the header announces, the header is valid and of the
  receiver's codec, the extension section is well-formed and holds no unsupported type.\<close>

theorem parseFrame_exact:
  "parseFrame data codec = Inr p \<longleftrightarrow>
    (\<exists>es. wire_frame data p es \<and> loadTlvs (tlvs_bytes es) = Inr (fp_extensions p) \<and>
      extensions_supported (fp_extensions p) \<and> h_codec (fp_header p) = codec)"
  by (auto simp: parseFrame_def and_then_Inr_iff parse_frame_parts_iff)

text \<open>(functional). \<open>loadTlvs\<close> accepts exactly the concatenations of length-prefixed values with
  pairwise distinct types, in any order, and returns their ordered map: a truncated section and a
  duplicated type are both refused.\<close>

theorem loadTlvs_exact:
  "loadTlvs data = Inr m \<longleftrightarrow>
    (\<exists>es. data = tlvs_bytes es \<and> list_all tlv_short es \<and> distinct (map fst es) \<and>
       std_map_ok m \<and> map_of m = map_of es)"
  by (rule loadTlvs_iff)

text \<open>(safety). No byte string, however short or inconsistent, makes the frame decoders read
  outside their span.\<close>

theorem frame_decoders_in_bounds:
  "in_bounds (parseFrame data codec) \<and> in_bounds (decodeFrame data) \<and>
   in_bounds (headerBodySize data codec limits) \<and> in_bounds (loadTlvs data)"
proof -
  have "in_bounds (decodeFrame data)"
    using in_bounds_parse_frame_parts [of data]
    by (auto simp: decodeFrame_def in_bounds_def split: sum.splits halt.splits)
  then show ?thesis
    by (simp add: in_bounds_parseFrame in_bounds_headerBodySize in_bounds_loadTlvs)
qed

text \<open>(bounds). \<open>headerBodySize\<close> answers a size only for a valid header of the endpoint's codec
  whose sections respect every limit, so a receive buffer of that size stays within
  \<open>max_frame_bytes\<close>.\<close>

theorem headerBodySize_within_limits:
  "headerBodySize hdr codec limits = Inr n \<longleftrightarrow>
    (\<exists>h. hdr = header_bytes h \<and> valid_header h \<and> h_codec h = codec \<and>
      unat (h_method_size h) \<le> max_method_bytes limits \<and>
      unat (h_payload_size h) \<le> max_payload_bytes limits \<and>
      unat (h_extension_size h) \<le> max_extension_bytes limits \<and>
      n = unat (h_method_size h) + unat (h_extension_size h) + unat (h_payload_size h) \<and>
      headerSize + n \<le> max_frame_bytes limits)"
  by (rule headerBodySize_Inr_iff)

end
