(* ===== verification/Rpc_Method_Table.thy ===== *)
theory Rpc_Method_Table
  imports Rpc_Frame "HOL-Library.List_Lexorder" "HOL-Library.Char_ord"
begin

unbundle bit_operations_syntax

text \<open>
  \<open>NekoRpcMethodIdTable\<close> (\<open>rpc/private/method_id.hpp\<close>, \<open>rpc.cpp\<close>): the table that maps methods to
  the small numeric ids of method-id requests, kept by the server and copied by the client, with
  tombstones for removed methods. A pointer into the table that is returned to the caller is the
  entry it points to; \<open>nullptr\<close> is \<open>None\<close>. \<open>std::string\<close> is ordered bytewise.
\<close>

subsection \<open>Entries\<close>

text \<open>The state has an underlying \<open>std::uint8_t\<close> and may hold any value of it.\<close>

type_synonym NekoRpcMethodState = u8

definition St_Active :: NekoRpcMethodState where "St_Active = 0"
definition St_Removed :: NekoRpcMethodState where "St_Removed = 1"

lemma states_distinct [simp]: "St_Removed \<noteq> St_Active" "St_Active \<noteq> St_Removed"
  by (simp_all add: St_Active_def St_Removed_def)

record NekoRpcMethodEntry =
  me_id :: u64
  me_name :: string
  me_signature_hash :: u64
  me_state :: NekoRpcMethodState

definition default_entry :: NekoRpcMethodEntry where
  "default_entry = \<lparr>me_id = 0, me_name = [], me_signature_hash = 0, me_state = St_Active\<rparr>"

subsection \<open>The signature hash\<close>

definition fnv_update :: "u64 \<Rightarrow> string \<Rightarrow> u64" where
  "fnv_update = foldl (\<lambda>hash ch. (hash XOR ucast (of_nat (of_char ch) :: u8)) * 1099511628211)"

definition signatureHash :: "string \<Rightarrow> string \<Rightarrow> u64" where
  "signatureHash name signature =
     (let hash = fnv_update 14695981039346656037 name;
          hash = (hash XOR 0) * 1099511628211;
          hash = fnv_update hash signature
      in if hash = 0 then 1 else hash)"

lemma signatureHash_nonzero [simp]: "signatureHash name signature \<noteq> 0"
  by (simp add: signatureHash_def Let_def)

definition entriesFromNames :: "string list \<Rightarrow> NekoRpcMethodEntry list" where
  "entriesFromNames names =
     map (\<lambda>id. \<lparr>me_id = of_nat id, me_name = names ! id,
               me_signature_hash = signatureHash (names ! id) [], me_state = St_Active\<rparr>)
       [0..<length names]"

subsection \<open>The table\<close>

record method_table =
  mVersion :: u64
  mMinimumCompatibleVersion :: u64
  mNextId :: u64
  mEntries :: "NekoRpcMethodEntry list"
  mNameToId :: "(string, u64) std_map"
  mMaxEntries :: nat

definition new_table :: "nat \<Rightarrow> method_table" where
  "new_table max_entries = \<lparr>mVersion = 0, mMinimumCompatibleVersion = 0, mNextId = 0, mEntries = [],
     mNameToId = [], mMaxEntries = max_entries\<rparr>"

definition findById :: "method_table \<Rightarrow> u64 \<Rightarrow> NekoRpcMethodEntry option" where
  "findById t mid = (if unat mid \<ge> length (mEntries t) then None else Some (mEntries t ! unat mid))"

definition findByName :: "method_table \<Rightarrow> string \<Rightarrow> NekoRpcMethodEntry option" where
  "findByName t name = (case map_of (mNameToId t) name of None \<Rightarrow> None | Some ix \<Rightarrow> findById t ix)"

definition bumpVersion :: "method_table \<Rightarrow> method_table" where
  "bumpVersion t =
     (if mVersion t = 0 then t\<lparr>mVersion := 1, mMinimumCompatibleVersion := 1\<rparr>
      else if mVersion t \<noteq> - 1 then t\<lparr>mVersion := mVersion t + 1\<rparr>
      else t)"

fun rebuild_loop :: "NekoRpcMethodEntry list \<Rightarrow> method_table \<Rightarrow> method_table" where
  "rebuild_loop [] t = t"
| "rebuild_loop (entry # entries) t =
     (let t = (if me_state entry = St_Active \<and> me_name entry \<noteq> []
               then t\<lparr>mNameToId := insert_or_assign (me_name entry) (me_id entry) (mNameToId t)\<rparr> else t);
          t = (if me_id entry \<ge> mNextId t then t\<lparr>mNextId := me_id entry + 1\<rparr> else t)
      in rebuild_loop entries t)"

definition rebuildIndex :: "method_table \<Rightarrow> method_table" where
  "rebuildIndex t = rebuild_loop (mEntries t) (t\<lparr>mNameToId := [], mNextId := 0\<rparr>)"

text \<open>\<open>None\<close> is the answer false, which leaves the table as it was.\<close>

definition installEntry :: "method_table \<Rightarrow> NekoRpcMethodEntry \<Rightarrow> method_table option" where
  "installEntry t entry =
     (let ix = unat (me_id entry) in
      if ix \<ge> mMaxEntries t then None
      else
        let entries = (if ix \<ge> length (mEntries t)
                       then mEntries t @ replicate (ix + 1 - length (mEntries t)) default_entry
                       else mEntries t);
            t = (if me_id entry \<ge> mNextId t then t\<lparr>mNextId := me_id entry + 1\<rparr> else t)
        in Some (t\<lparr>mEntries := entries[ix := entry]\<rparr>))"

fun valid_loop ::
  "nat \<Rightarrow> bool \<Rightarrow> nat \<Rightarrow> (string, u64) std_map \<Rightarrow> NekoRpcMethodEntry list \<Rightarrow> bool" where
  "valid_loop max_entries contiguous index active_names [] = True"
| "valid_loop max_entries contiguous index active_names (entry # entries) =
     (if unat (me_id entry) \<ge> max_entries \<or> (me_state entry \<noteq> St_Active \<and> me_state entry \<noteq> St_Removed) \<or>
         (contiguous \<and> unat (me_id entry) \<noteq> index)
      then False
      else if me_state entry = St_Active
      then if me_name entry = [] \<or> contains active_names (me_name entry) then False
           else valid_loop max_entries contiguous (Suc index)
                  (emplace (me_name entry) (me_id entry) active_names) entries
      else valid_loop max_entries contiguous (Suc index) active_names entries)"

definition validTable :: "nat \<Rightarrow> NekoRpcMethodEntry list \<Rightarrow> u64 \<Rightarrow> bool \<Rightarrow> bool" where
  "validTable max_entries entries version contiguous \<longleftrightarrow>
     \<not> (length entries > max_entries \<or> (entries \<noteq> [] \<and> version = 0)) \<and> valid_loop max_entries contiguous 0 [] entries"

text \<open>The hash a peer left out is filled in.\<close>

definition fill_hash :: "NekoRpcMethodEntry \<Rightarrow> NekoRpcMethodEntry" where
  "fill_hash entry =
     (if me_signature_hash entry = 0 \<and> me_name entry \<noteq> []
      then entry\<lparr>me_signature_hash := signatureHash (me_name entry) []\<rparr> else entry)"

fun install_all :: "method_table \<Rightarrow> NekoRpcMethodEntry list \<Rightarrow> method_table" where
  "install_all t [] = t"
| "install_all t (entry # entries) =
     install_all (case installEntry t (fill_hash entry) of None \<Rightarrow> t | Some t' \<Rightarrow> t') entries"

definition resetValidated :: "method_table \<Rightarrow> NekoRpcMethodEntry list \<Rightarrow> u64 \<Rightarrow> method_table" where
  "resetValidated t entries version =
     (let t = t\<lparr>mEntries := [], mNameToId := [], mNextId := 0\<rparr>;
          t = t\<lparr>mVersion := (if entries = [] then 0 else version)\<rparr>;
          t = t\<lparr>mMinimumCompatibleVersion := (if mVersion t = 0 then 0 else mVersion t)\<rparr>
      in rebuildIndex (install_all t entries))"

definition table_reset :: "method_table \<Rightarrow> method_table" where
  "table_reset t = t\<lparr>mVersion := 0, mMinimumCompatibleVersion := 0, mNextId := 0, mEntries := [],
     mNameToId := []\<rparr>"

definition table_reset_entries :: "method_table \<Rightarrow> NekoRpcMethodEntry list \<Rightarrow> u64 \<Rightarrow> method_table" where
  "table_reset_entries t entries version =
     (if \<not> validTable (mMaxEntries t) entries version True then table_reset t
      else resetValidated t entries version)"

definition resetFromNames :: "method_table \<Rightarrow> string list \<Rightarrow> u64 \<Rightarrow> method_table" where
  "resetFromNames t names version = table_reset_entries t (entriesFromNames names) version"

definition applyRemoteTable :: "method_table \<Rightarrow> NekoRpcMethodEntry list \<Rightarrow> u64 \<Rightarrow> method_table option"
where
  "applyRemoteTable t entries version =
     (if \<not> validTable (mMaxEntries t) entries version True then None
      else Some (resetValidated (new_table (mMaxEntries t)) entries version))"

fun delta_loop ::
  "NekoRpcMethodEntry list \<Rightarrow> (u64, bool) std_map \<Rightarrow> method_table \<Rightarrow> method_table option" where
  "delta_loop [] seen_ids candidate = Some candidate"
| "delta_loop (entry # entries) seen_ids candidate =
     (if contains seen_ids (me_id entry) then None
      else case installEntry candidate (fill_hash entry) of
        None \<Rightarrow> None
      | Some candidate' \<Rightarrow> delta_loop entries (emplace (me_id entry) True seen_ids) candidate')"

definition applyRemoteDelta :: "method_table \<Rightarrow> NekoRpcMethodEntry list \<Rightarrow> u64 \<Rightarrow> method_table option"
where
  "applyRemoteDelta t entries version =
     (if version = 0 \<or> (mVersion t \<noteq> 0 \<and> version < mVersion t) then None
      else if length entries > mMaxEntries t then None
      else case delta_loop entries [] t of
        None \<Rightarrow> None
      | Some candidate \<Rightarrow>
        let candidate = candidate\<lparr>mVersion := version\<rparr>;
            candidate = (if mMinimumCompatibleVersion candidate = 0
                         then candidate\<lparr>mMinimumCompatibleVersion := version\<rparr> else candidate);
            candidate = rebuildIndex candidate
        in if \<not> validTable (mMaxEntries candidate) (mEntries candidate) version True then None
           else Some candidate)"

text \<open>The second half of \<open>upsert\<close>: a new entry at the next id.\<close>

definition upsert_append ::
  "method_table \<Rightarrow> string \<Rightarrow> u64 \<Rightarrow> (unit, method_table \<times> NekoRpcMethodEntry option) checked" where
  "upsert_append t name hash =
     (if unat (mNextId t) \<ge> mMaxEntries t then Inr (t, None)
      else
        let entry = \<lparr>me_id = mNextId t, me_name = name, me_signature_hash = hash, me_state = St_Active\<rparr>
        in case installEntry t entry of
             None \<Rightarrow> Inr (t, None)
           | Some t \<Rightarrow> let t = rebuildIndex (bumpVersion t) in Inr (t, findById t (me_id entry)))"

definition upsert ::
  "method_table \<Rightarrow> string \<Rightarrow> u64 \<Rightarrow> (unit, method_table \<times> NekoRpcMethodEntry option) checked" where
  "upsert t name hash =
     (if name = [] then Inr (t, None)
      else
        let hash = (if hash = 0 then signatureHash name [] else hash)
        in case map_of (mNameToId t) name of
             Some ix \<Rightarrow>
               and_then (vec_at (mEntries t) (unat ix)) (\<lambda>current.
                 if me_signature_hash current = hash \<and> me_state current = St_Active
                 then Inr (t, Some current)
                 else upsert_append
                        (t\<lparr>mEntries := (mEntries t)[unat ix := current\<lparr>me_state := St_Removed\<rparr>],
                           mNameToId := erase_key name (mNameToId t)\<rparr>) name hash)
           | None \<Rightarrow> upsert_append t name hash)"

definition table_remove :: "method_table \<Rightarrow> string \<Rightarrow> (unit, method_table \<times> bool) checked" where
  "table_remove t name =
     (case map_of (mNameToId t) name of
        None \<Rightarrow> Inr (t, False)
      | Some ix \<Rightarrow>
        and_then (vec_at (mEntries t) (unat ix)) (\<lambda>current.
          Inr (bumpVersion
                 (t\<lparr>mEntries := (mEntries t)[unat ix := current\<lparr>me_state := St_Removed\<rparr>],
                    mNameToId := erase_key name (mNameToId t)\<rparr>), True)))"

datatype resolve_status = Res_Ok | Res_TableOutdated | Res_MethodNotFound | Res_MethodRemoved | Res_SignatureMismatch

record NekoRpcMethodIdResolution =
  res_status :: resolve_status
  res_entry :: "NekoRpcMethodEntry option"
  res_current_version :: u64

definition resolve :: "method_table \<Rightarrow> u64 \<Rightarrow> u64 \<Rightarrow> u64 \<Rightarrow> bool \<Rightarrow> NekoRpcMethodIdResolution" where
  "resolve t mid client_version hash require_signature_hash =
     (let result = \<lparr>res_status = Res_MethodNotFound, res_entry = None, res_current_version = mVersion t\<rparr>
      in if client_version < mMinimumCompatibleVersion t \<or> client_version > mVersion t \<or>
            client_version = 0
         then result\<lparr>res_status := Res_TableOutdated\<rparr>
         else case findById t mid of
           None \<Rightarrow> result\<lparr>res_status := Res_MethodNotFound\<rparr>
         | Some entry \<Rightarrow>
           if me_name entry = [] then result\<lparr>res_status := Res_MethodNotFound\<rparr>
           else
             let result = result\<lparr>res_entry := Some entry\<rparr>
             in if me_state entry = St_Removed then result\<lparr>res_status := Res_MethodRemoved\<rparr>
                else if require_signature_hash \<and> hash \<noteq> me_signature_hash entry
                then result\<lparr>res_status := Res_SignatureMismatch\<rparr>
                else result\<lparr>res_status := Res_Ok\<rparr>)"

definition setMinimumCompatibleVersion :: "method_table \<Rightarrow> u64 \<Rightarrow> method_table" where
  "setMinimumCompatibleVersion t version =
     (if version > mVersion t then t\<lparr>mMinimumCompatibleVersion := mVersion t\<rparr>
      else t\<lparr>mMinimumCompatibleVersion := version\<rparr>)"

subsection \<open>Well-formed tables\<close>

definition active :: "NekoRpcMethodEntry \<Rightarrow> bool" where
  "active e \<longleftrightarrow> me_state e = St_Active"

definition removed :: "NekoRpcMethodEntry \<Rightarrow> bool" where
  "removed e \<longleftrightarrow> me_state e = St_Removed"

lemma not_active_removed [simp]: "removed e \<Longrightarrow> \<not> active e"
  by (simp add: active_def removed_def St_Active_def St_Removed_def)

definition active_names :: "NekoRpcMethodEntry list \<Rightarrow> string list" where
  "active_names es = map me_name (filter active es)"

lemma active_names_simps [simp]:
  "active_names [] = []"
  "active_names (e # es) = (if active e then me_name e # active_names es else active_names es)"
  "active_names (es @ fs) = active_names es @ active_names fs"
  by (simp_all add: active_names_def)

text \<open>Ids are positions counted from \<open>k\<close>.\<close>

definition contiguous :: "nat \<Rightarrow> NekoRpcMethodEntry list \<Rightarrow> bool" where
  "contiguous k es \<longleftrightarrow> (\<forall>i < length es. unat (me_id (es ! i)) = k + i)"

lemma contiguous_simps [simp]:
  "contiguous k []"
  "contiguous k (e # es) \<longleftrightarrow> unat (me_id e) = k \<and> contiguous (Suc k) es"
proof -
  show "contiguous k (e # es) \<longleftrightarrow> unat (me_id e) = k \<and> contiguous (Suc k) es"
    unfolding contiguous_def by (auto simp: nth_Cons split: nat.splits)
qed (simp add: contiguous_def)

lemma contiguous_append [simp]:
  "contiguous k (es @ fs) \<longleftrightarrow> contiguous k es \<and> contiguous (k + length es) fs"
  by (induction es arbitrary: k) auto

definition entries_ok :: "nat \<Rightarrow> NekoRpcMethodEntry list \<Rightarrow> u64 \<Rightarrow> bool" where
  "entries_ok max_entries es version \<longleftrightarrow>
     length es \<le> max_entries \<and> (es \<noteq> [] \<longrightarrow> version \<noteq> 0) \<and> contiguous 0 es \<and>
     list_all (\<lambda>e. active e \<and> me_name e \<noteq> [] \<or> removed e) es \<and> distinct (active_names es)"

lemma valid_loop_iff:
  "valid_loop m True k names es \<longleftrightarrow>
     (es = [] \<or> k + length es \<le> m) \<and> contiguous k es \<and>
     list_all (\<lambda>e. active e \<and> me_name e \<noteq> [] \<or> removed e) es \<and> distinct (active_names es) \<and>
     (\<forall>n \<in> set (active_names es). \<not> contains names n)"
proof (induction es arbitrary: k names)
  case (Cons e es)
  then show ?case
    by (auto simp: active_def removed_def)
qed simp

lemma validTable_iff: "validTable m es version True \<longleftrightarrow> entries_ok m es version"
  by (auto simp: validTable_def valid_loop_iff entries_ok_def contains_def)

definition index_ok :: "NekoRpcMethodEntry list \<Rightarrow> (string, u64) std_map \<Rightarrow> bool" where
  "index_ok es m \<longleftrightarrow> std_map_ok m \<and>
     (\<forall>n i. map_of m n = Some i \<longleftrightarrow>
        unat i < length es \<and> active (es ! unat i) \<and> me_name (es ! unat i) = n)"

definition table_ok :: "method_table \<Rightarrow> bool" where
  "table_ok t \<longleftrightarrow> mMaxEntries t < 2 ^ 64 \<and> entries_ok (mMaxEntries t) (mEntries t) (mVersion t) \<and>
     index_ok (mEntries t) (mNameToId t) \<and> mNextId t = of_nat (length (mEntries t)) \<and>
     mMinimumCompatibleVersion t \<le> mVersion t"

lemma entries_okD:
  assumes "entries_ok m es v"
  shows "length es \<le> m" "i < length es \<Longrightarrow> unat (me_id (es ! i)) = i" "es \<noteq> [] \<Longrightarrow> v \<noteq> 0"
    "i < length es \<Longrightarrow> active (es ! i) \<Longrightarrow> me_name (es ! i) \<noteq> []"
    "i < length es \<Longrightarrow> \<not> active (es ! i) \<Longrightarrow> removed (es ! i)"
  using assms by (auto simp: entries_ok_def contiguous_def list_all_length removed_def active_def
      St_Active_def St_Removed_def)

lemma entries_ok_unique:
  assumes ok: "entries_ok m es v" and "i < length es" "j < length es" "active (es ! i)" "active (es ! j)"
    "me_name (es ! i) = me_name (es ! j)"
  shows "i = j"
proof -
  have "inj_on me_name (set (filter active es))"
    using ok by (simp add: entries_ok_def active_names_def distinct_map)
  then have "es ! i = es ! j"
    using assms by (auto dest!: inj_onD)
  then show ?thesis
    using entries_okD(2) [OF ok] assms by metis
qed

lemma entries_ok_version: "entries_ok m es v \<Longrightarrow> v' \<noteq> 0 \<Longrightarrow> entries_ok m es v'"
  by (auto simp: entries_ok_def)

subsection \<open>Rebuilding the index\<close>

lemma rebuild_loop_fields [simp]:
  "mEntries (rebuild_loop es t) = mEntries t" "mVersion (rebuild_loop es t) = mVersion t"
  "mMinimumCompatibleVersion (rebuild_loop es t) = mMinimumCompatibleVersion t"
  "mMaxEntries (rebuild_loop es t) = mMaxEntries t"
  by (induction es t rule: rebuild_loop.induct) (auto simp: Let_def)

lemma rebuildIndex_fields [simp]:
  "mEntries (rebuildIndex t) = mEntries t" "mVersion (rebuildIndex t) = mVersion t"
  "mMinimumCompatibleVersion (rebuildIndex t) = mMinimumCompatibleVersion t"
  "mMaxEntries (rebuildIndex t) = mMaxEntries t"
  by (simp_all add: rebuildIndex_def)

lemma rebuild_loop_next:
  "contiguous k es \<Longrightarrow> mNextId t = of_nat k \<Longrightarrow> mNextId (rebuild_loop es t) = of_nat (k + length es)"
proof (induction es arbitrary: k t)
  case (Cons e es)
  from Cons.prems(1) have "k = unat (me_id e)"
    by simp
  then have "me_id e = of_nat k"
    by simp
  with Cons.prems show ?case
    by (subst rebuild_loop.simps(2), unfold Let_def, subst Cons.IH [of "Suc k"]) (auto simp: add.commute)
qed simp

lemma rebuild_loop_index:
  "std_map_ok (mNameToId t) \<Longrightarrow> distinct (active_names es) \<Longrightarrow> [] \<notin> set (active_names es) \<Longrightarrow>
   std_map_ok (mNameToId (rebuild_loop es t)) \<and>
   (\<forall>n i. map_of (mNameToId (rebuild_loop es t)) n = Some i \<longleftrightarrow>
      (\<exists>e \<in> set es. active e \<and> me_name e = n \<and> me_id e = i) \<or>
      n \<notin> set (active_names es) \<and> map_of (mNameToId t) n = Some i)"
proof (induction es arbitrary: t)
  case (Cons e es)
  have in_names: "me_name e' \<in> set (active_names es)" if "e' \<in> set es" "active e'" for e'
    using that by (auto simp: active_names_def)
  show ?case
  proof (cases "active e")
    case True
    with Cons show ?thesis
      by (auto simp: Let_def active_def dest: in_names)
  next
    case False
    with Cons show ?thesis
      by (auto simp: Let_def active_def dest: in_names)
  qed
qed simp

lemma rebuildIndex_ok:
  assumes "entries_ok m (mEntries t) v"
  shows "index_ok (mEntries t) (mNameToId (rebuildIndex t))"
    and "mNextId (rebuildIndex t) = of_nat (length (mEntries t))"
proof -
  let ?es = "mEntries t"
  have "(\<exists>e \<in> set ?es. active e \<and> me_name e = n \<and> me_id e = i) \<longleftrightarrow>
      unat i < length ?es \<and> active (?es ! unat i) \<and> me_name (?es ! unat i) = n" for n i
  proof
    assume "\<exists>e \<in> set ?es. active e \<and> me_name e = n \<and> me_id e = i"
    then obtain k where k: "k < length ?es" "active (?es ! k)" "me_name (?es ! k) = n" "me_id (?es ! k) = i"
      by (auto simp: in_set_conv_nth)
    moreover have "unat i = k"
      using entries_okD(2) [OF assms k(1)] k(4) by simp
    ultimately show "unat i < length ?es \<and> active (?es ! unat i) \<and> me_name (?es ! unat i) = n"
      by simp
  next
    assume r: "unat i < length ?es \<and> active (?es ! unat i) \<and> me_name (?es ! unat i) = n"
    then have "me_id (?es ! unat i) = i"
      using entries_okD(2) [OF assms, of "unat i"] by (simp add: word_unat_eq_iff)
    with r show "\<exists>e \<in> set ?es. active e \<and> me_name e = n \<and> me_id e = i"
      by (intro bexI [of _ "?es ! unat i"]) auto
  qed
  moreover have "[] \<notin> set (active_names ?es)"
    using assms by (auto simp: entries_ok_def active_names_def list_all_iff)
  ultimately show "index_ok ?es (mNameToId (rebuildIndex t))"
    using rebuild_loop_index [of "t\<lparr>mNameToId := [], mNextId := 0\<rparr>" ?es] assms
    by (simp add: index_ok_def rebuildIndex_def entries_ok_def)
  show "mNextId (rebuildIndex t) = of_nat (length ?es)"
    using rebuild_loop_next [of 0 ?es "t\<lparr>mNameToId := [], mNextId := 0\<rparr>"] assms
    by (simp add: rebuildIndex_def entries_ok_def)
qed

lemma rebuildIndex_next_irrelevant [simp]: "rebuildIndex (t\<lparr>mNextId := n, mEntries := es\<rparr>) = rebuildIndex (t\<lparr>mEntries := es\<rparr>)"
  by (simp add: rebuildIndex_def)

lemma table_ok_rebuild:
  "mMaxEntries t < 2 ^ 64 \<Longrightarrow> entries_ok (mMaxEntries t) (mEntries t) (mVersion t) \<Longrightarrow>
    mMinimumCompatibleVersion t \<le> mVersion t \<Longrightarrow> table_ok (rebuildIndex t)"
  using rebuildIndex_ok [of "mMaxEntries t" t "mVersion t"] by (simp add: table_ok_def)

subsection \<open>Installing entries\<close>

lemma installEntry_append:
  assumes "unat (me_id e) = length (mEntries t)" "length (mEntries t) < mMaxEntries t"
  shows "\<exists>n. installEntry t e = Some (t\<lparr>mNextId := n, mEntries := mEntries t @ [e]\<rparr>)"
proof (cases "me_id e \<ge> mNextId t")
  case True
  then have "installEntry t e = Some (t\<lparr>mNextId := me_id e + 1, mEntries := mEntries t @ [e]\<rparr>)"
    using assms by (simp add: installEntry_def Let_def list_update_append)
  then show ?thesis by blast
next
  case False
  then have "installEntry t e = Some (t\<lparr>mNextId := mNextId t, mEntries := mEntries t @ [e]\<rparr>)"
    using assms by (simp add: installEntry_def Let_def list_update_append)
  then show ?thesis by blast
qed

lemma installEntry_fields:
  "installEntry t e = Some t' \<Longrightarrow> mVersion t' = mVersion t \<and> mMaxEntries t' = mMaxEntries t \<and>
    mMinimumCompatibleVersion t' = mMinimumCompatibleVersion t"
  by (auto simp: installEntry_def Let_def split: if_splits)

lemma fill_hash_fields [simp]:
  "me_id (fill_hash e) = me_id e" "me_name (fill_hash e) = me_name e" "me_state (fill_hash e) = me_state e"
  "active (fill_hash e) = active e" "removed (fill_hash e) = removed e"
  by (simp_all add: fill_hash_def active_def removed_def)

lemma active_names_fill [simp]: "active_names (map fill_hash es) = active_names es"
  by (induction es) auto

lemma entries_ok_fill [simp]: "entries_ok m (map fill_hash es) v \<longleftrightarrow> entries_ok m es v"
  by (simp add: entries_ok_def contiguous_def list_all_length)

lemma install_all_append:
  "contiguous (length (mEntries t)) es \<Longrightarrow> es = [] \<or> length (mEntries t) + length es \<le> mMaxEntries t \<Longrightarrow>
    \<exists>n. install_all t es = t\<lparr>mNextId := n, mEntries := mEntries t @ map fill_hash es\<rparr>"
proof (induction es arbitrary: t)
  case Nil
  have "install_all t [] = t\<lparr>mNextId := mNextId t, mEntries := mEntries t @ map fill_hash []\<rparr>"
    by simp
  then show ?case by blast
next
  case (Cons e es)
  then obtain n where n:
    "installEntry t (fill_hash e) = Some (t\<lparr>mNextId := n, mEntries := mEntries t @ [fill_hash e]\<rparr>)"
    using installEntry_append [of "fill_hash e" t] by auto
  then show ?case
    using Cons.IH [of "t\<lparr>mNextId := n, mEntries := mEntries t @ [fill_hash e]\<rparr>"] Cons.prems by auto
qed

lemma resetValidated_eq:
  assumes "entries_ok (mMaxEntries t) es version"
  shows "resetValidated t es version =
    rebuildIndex (t\<lparr>mEntries := map fill_hash es, mNameToId := [],
      mVersion := (if es = [] then 0 else version),
      mMinimumCompatibleVersion := (if es = [] then 0 else version)\<rparr>)"
proof -
  let ?t = "t\<lparr>mEntries := [], mNameToId := [], mNextId := 0, mVersion := (if es = [] then 0 else version),
      mMinimumCompatibleVersion := (if es = [] then 0 else version)\<rparr>"
  have "resetValidated t es version = rebuildIndex (install_all ?t es)"
    by (auto simp: resetValidated_def Let_def)
  moreover obtain n where "install_all ?t es = ?t\<lparr>mNextId := n, mEntries := map fill_hash es\<rparr>"
    using install_all_append [of ?t es] assms by (auto simp: entries_ok_def)
  ultimately show ?thesis
    by (cases t) (simp add: rebuildIndex_def)
qed

lemma resetValidated_ok:
  assumes "entries_ok (mMaxEntries t) es version" "mMaxEntries t < 2 ^ 64"
  shows "table_ok (resetValidated t es version)"
proof -
  have "entries_ok (mMaxEntries t) (map fill_hash es) (if es = [] then 0 else version)"
    unfolding entries_ok_fill using assms(1) by (simp add: entries_ok_def)
  with assms(2) show ?thesis
    unfolding resetValidated_eq [OF assms(1)] by (intro table_ok_rebuild) simp_all
qed

lemma delta_loop_fields:
  "delta_loop es seen t = Some t' \<Longrightarrow> mVersion t' = mVersion t \<and> mMaxEntries t' = mMaxEntries t \<and>
    mMinimumCompatibleVersion t' = mMinimumCompatibleVersion t"
proof (induction es seen t rule: delta_loop.induct)
  case (2 e es seen t)
  then show ?case
    by (auto split: if_splits option.splits dest!: installEntry_fields)
qed simp

lemma applyRemoteDelta_ok:
  assumes "table_ok t" "applyRemoteDelta t es version = Some t'"
  shows "table_ok t'"
proof -
  from assms(2) have v: "version \<noteq> 0" "mVersion t = 0 \<or> mVersion t \<le> version"
    by (auto simp: applyRemoteDelta_def not_less split: if_splits)
  from assms(2) v obtain c where d: "delta_loop es [] t = Some c"
    by (auto simp: applyRemoteDelta_def Let_def split: if_splits option.splits)
  define c' where "c' = c\<lparr>mVersion := version, mMinimumCompatibleVersion :=
    (if mMinimumCompatibleVersion c = 0 then version else mMinimumCompatibleVersion c)\<rparr>"
  have t': "t' = rebuildIndex c'" and valid: "validTable (mMaxEntries c') (mEntries c') version True"
    using assms(2) d unfolding applyRemoteDelta_def c'_def Let_def
    by (auto split: if_splits)
  have "mMinimumCompatibleVersion c' \<le> mVersion c'"
    using delta_loop_fields [OF d] assms(1) v by (auto simp: c'_def table_ok_def)
  then show ?thesis
    using valid delta_loop_fields [OF d] assms(1) unfolding t'
    by (intro table_ok_rebuild) (auto simp: validTable_iff c'_def table_ok_def)
qed

subsection \<open>Tombstones\<close>

definition tombstone :: "NekoRpcMethodEntry \<Rightarrow> NekoRpcMethodEntry" where
  "tombstone e = e\<lparr>me_state := St_Removed\<rparr>"

lemma tombstone_fields [simp]:
  "me_id (tombstone e) = me_id e" "me_name (tombstone e) = me_name e"
  "me_signature_hash (tombstone e) = me_signature_hash e" "removed (tombstone e)" "\<not> active (tombstone e)"
  by (simp_all add: tombstone_def removed_def active_def)

definition retire :: "method_table \<Rightarrow> string \<Rightarrow> u64 \<Rightarrow> method_table" where
  "retire t name ix = t\<lparr>mEntries := (mEntries t)[unat ix := tombstone (mEntries t ! unat ix)],
     mNameToId := erase_key name (mNameToId t)\<rparr>"

lemma active_names_update:
  "\<not> active e \<Longrightarrow> distinct (active_names es) \<Longrightarrow>
    distinct (active_names (es[i := e])) \<and> set (active_names (es[i := e])) \<subseteq> set (active_names es)"
proof (induction es arbitrary: i)
  case (Cons x es)
  then show ?case
    by (cases i) (auto split: if_splits)
qed simp

lemma entries_ok_tombstone:
  assumes "entries_ok m es v" "i < length es"
  shows "entries_ok m (es[i := tombstone (es ! i)]) v"
  using assms active_names_update [of "tombstone (es ! i)" es i]
  by (auto simp: entries_ok_def contiguous_def nth_list_update list_all_length)

lemma index_okD:
  assumes "table_ok t" "map_of (mNameToId t) n = Some ix"
  shows "unat ix < length (mEntries t)" "active (mEntries t ! unat ix)" "me_name (mEntries t ! unat ix) = n"
    "me_id (mEntries t ! unat ix) = ix"
proof -
  show r: "unat ix < length (mEntries t)" "active (mEntries t ! unat ix)" "me_name (mEntries t ! unat ix) = n"
    using assms by (auto simp: table_ok_def index_ok_def)
  show "me_id (mEntries t ! unat ix) = ix"
    using entries_okD(2) [of "mMaxEntries t" "mEntries t" "mVersion t" "unat ix"] r(1) assms(1)
    by (simp add: table_ok_def word_unat_eq_iff)
qed

lemma retire_ok:
  assumes ok: "table_ok t" and ix: "map_of (mNameToId t) n = Some ix"
  shows "table_ok (retire t n ix)"
proof -
  note d = index_okD [OF ok ix]
  let ?es = "mEntries t" and ?es' = "(mEntries t)[unat ix := tombstone (mEntries t ! unat ix)]"
  have "unat j < length ?es' \<and> active (?es' ! unat j) \<and> me_name (?es' ! unat j) = n' \<longleftrightarrow>
      map_of (erase_key n (mNameToId t)) n' = Some j" for j n'
  proof (cases "n' = n")
    case True
    have "unat j = unat ix"
      if "unat j < length ?es" "active (?es ! unat j)" "me_name (?es ! unat j) = n"
      using that d ok by (intro entries_ok_unique [of "mMaxEntries t" ?es "mVersion t"]) (auto simp: table_ok_def)
    then show ?thesis
      using True d(1) by (auto simp: nth_list_update split: if_splits)
  next
    case False
    then show ?thesis
      using ok d by (auto simp: table_ok_def index_ok_def nth_list_update)
  qed
  then show ?thesis
    using ok d(1) by (simp add: retire_def table_ok_def index_ok_def entries_ok_tombstone)
qed

lemma unat_plus_one: "(w :: 'a::len word) \<noteq> - 1 \<Longrightarrow> unat (w + 1) = unat w + 1"
  by (metis Suc_eq_plus1 add.commute unatSuc add_eq_0_iff2)

lemma bumpVersion_ok: "table_ok t \<Longrightarrow> table_ok (bumpVersion t)"
  by (auto simp: bumpVersion_def table_ok_def entries_ok_def word_le_nat_alt unat_plus_one
      add_eq_0_iff2)

subsection \<open>The local operations\<close>

definition append_entry :: "method_table \<Rightarrow> string \<Rightarrow> u64 \<Rightarrow> method_table \<times> NekoRpcMethodEntry option" where
  "append_entry t name hash =
     (if length (mEntries t) \<ge> mMaxEntries t then (t, None)
      else
        let entry = \<lparr>me_id = of_nat (length (mEntries t)), me_name = name, me_signature_hash = hash,
                     me_state = St_Active\<rparr>
        in (rebuildIndex (bumpVersion (t\<lparr>mEntries := mEntries t @ [entry]\<rparr>)), Some entry))"

definition effective_hash :: "string \<Rightarrow> u64 \<Rightarrow> u64" where
  "effective_hash name hash = (if hash = 0 then signatureHash name [] else hash)"

lemma bumpVersion_fields [simp]:
  "mEntries (bumpVersion t) = mEntries t" "mNameToId (bumpVersion t) = mNameToId t"
  "mMaxEntries (bumpVersion t) = mMaxEntries t" "mNextId (bumpVersion t) = mNextId t"
  by (simp_all add: bumpVersion_def)

lemma bumpVersion_next_irrelevant:
  "rebuildIndex (bumpVersion (t\<lparr>mNextId := n, mEntries := es\<rparr>)) = rebuildIndex (bumpVersion (t\<lparr>mEntries := es\<rparr>))"
  by (cases t) (simp add: bumpVersion_def rebuildIndex_def)

lemma upsert_append_eq:
  assumes s: "table_ok s"
  shows "upsert_append s name h = Inr (append_entry s name h)"
proof -
  have len: "length (mEntries s) \<le> mMaxEntries s" "mMaxEntries s < 2 ^ 64"
    and next': "mNextId s = of_nat (length (mEntries s))"
    using s by (auto simp: table_ok_def entries_ok_def)
  then have un: "unat (mNextId s) = length (mEntries s)"
    by (simp add: unat_of_nat_bound)
  show ?thesis
  proof (cases "length (mEntries s) \<ge> mMaxEntries s")
    case True
    then show ?thesis by (simp add: un append_entry_def upsert_append_def)
  next
    case False
    let ?e = "\<lparr>me_id = mNextId s, me_name = name, me_signature_hash = h, me_state = St_Active\<rparr>"
    obtain n where "installEntry s ?e = Some (s\<lparr>mNextId := n, mEntries := mEntries s @ [?e]\<rparr>)"
      using installEntry_append [of ?e s] un False by auto
    then show ?thesis
      using False un
      by (simp add: upsert_append_def append_entry_def Let_def bumpVersion_next_irrelevant next' findById_def)
  qed
qed

text \<open>\<open>upsert\<close> on a well-formed table, case by case; no access of \<open>mEntries\<close> is out of range.\<close>

lemma upsert_eq:
  assumes ok: "table_ok t" and name: "name \<noteq> []"
  shows "upsert t name hash =
    Inr (case map_of (mNameToId t) name of
       None \<Rightarrow> append_entry t name (effective_hash name hash)
     | Some ix \<Rightarrow>
       if me_signature_hash (mEntries t ! unat ix) = effective_hash name hash
       then (t, Some (mEntries t ! unat ix))
       else append_entry (retire t name ix) name (effective_hash name hash))"
proof (cases "map_of (mNameToId t) name")
  case None
  then show ?thesis
    using name by (simp add: upsert_def effective_hash_def Let_def upsert_append_eq [OF ok])
next
  case (Some ix)
  note d = index_okD [OF ok Some]
  have r: "t\<lparr>mEntries := (mEntries t)[unat ix := (mEntries t ! unat ix)\<lparr>me_state := St_Removed\<rparr>],
      mNameToId := erase_key name (mNameToId t)\<rparr> = retire t name ix"
    by (simp add: retire_def tombstone_def)
  show ?thesis
    using name Some d
    by (simp add: upsert_def effective_hash_def Let_def byte_at_inside active_def r
        upsert_append_eq [OF retire_ok [OF ok Some]])
qed

lemma table_remove_eq:
  assumes ok: "table_ok t"
  shows "table_remove t name =
    (case map_of (mNameToId t) name of None \<Rightarrow> Inr (t, False)
     | Some ix \<Rightarrow> Inr (bumpVersion (retire t name ix), True))"
proof (cases "map_of (mNameToId t) name")
  case (Some ix)
  then show ?thesis
    using index_okD(1) [OF ok Some]
    by (simp add: table_remove_def byte_at_inside retire_def tombstone_def)
qed (simp add: table_remove_def)

lemma append_entry_ok:
  assumes ok: "table_ok t" and name: "name \<noteq> []" "map_of (mNameToId t) name = None"
  shows "table_ok (fst (append_entry t name h))"
proof (cases "length (mEntries t) \<ge> mMaxEntries t")
  case True
  with ok show ?thesis by (simp add: append_entry_def)
next
  case False
  let ?e = "\<lparr>me_id = of_nat (length (mEntries t)), me_name = name, me_signature_hash = h,
      me_state = St_Active\<rparr>"
  let ?t = "t\<lparr>mEntries := mEntries t @ [?e]\<rparr>"
  have len: "length (mEntries t) < 2 ^ 64"
    using ok False by (simp add: table_ok_def)
  have fresh: "name \<notin> set (active_names (mEntries t))"
  proof
    assume "name \<in> set (active_names (mEntries t))"
    then obtain e where "e \<in> set (mEntries t)" "active e" "me_name e = name"
      by (auto simp: active_names_def)
    then obtain i where i: "i < length (mEntries t)" "active (mEntries t ! i)" "me_name (mEntries t ! i) = name"
      by (auto simp: in_set_conv_nth)
    then have "map_of (mNameToId t) name = Some (of_nat i)"
      using ok len by (auto simp: table_ok_def index_ok_def unat_of_nat_bound)
    with name show False by simp
  qed
  have "entries_ok (mMaxEntries t) (mEntries t @ [?e]) 1"
    using ok False fresh name len
    by (auto simp: table_ok_def entries_ok_def active_def unat_of_nat_bound)
  then have "entries_ok (mMaxEntries t) (mEntries t @ [?e]) (mVersion (bumpVersion ?t))"
    by (rule entries_ok_version) (auto simp: bumpVersion_def add_eq_0_iff2)
  moreover have "mMinimumCompatibleVersion (bumpVersion ?t) \<le> mVersion (bumpVersion ?t)"
    using ok by (auto simp: bumpVersion_def table_ok_def word_le_nat_alt unat_plus_one)
  ultimately have "table_ok (rebuildIndex (bumpVersion ?t))"
    using ok by (intro table_ok_rebuild) (simp_all add: table_ok_def)
  with False show ?thesis
    by (simp add: append_entry_def Let_def)
qed

lemma retire_name [simp]: "map_of (mNameToId (retire t name ix)) name = None"
  by (simp add: retire_def)

lemma upsert_ok:
  assumes "table_ok t"
  shows "\<exists>t' r. upsert t name hash = Inr (t', r) \<and> table_ok t'"
proof (cases "name = []")
  case True
  with assms show ?thesis by (simp add: upsert_def)
next
  case False
  obtain p where p: "upsert t name hash = Inr p" and "table_ok (fst p)"
  proof (rule that [OF upsert_eq [OF assms False]])
    show "table_ok (fst (case map_of (mNameToId t) name of
       None \<Rightarrow> append_entry t name (effective_hash name hash)
     | Some ix \<Rightarrow>
       if me_signature_hash (mEntries t ! unat ix) = effective_hash name hash
       then (t, Some (mEntries t ! unat ix))
       else append_entry (retire t name ix) name (effective_hash name hash)))"
      using assms False by (auto split: option.splits intro!: append_entry_ok retire_ok)
  qed
  then show ?thesis
    by (cases p) auto
qed

lemma table_remove_ok:
  assumes "table_ok t"
  shows "\<exists>t' r. table_remove t name = Inr (t', r) \<and> table_ok t'"
  using assms unfolding table_remove_eq [OF assms]
  by (auto split: option.splits intro!: bumpVersion_ok retire_ok)

subsection \<open>Runs of operations\<close>

datatype table_op =
    Op_Reset
  | Op_ResetEntries "NekoRpcMethodEntry list" u64
  | Op_ResetFromNames "string list" u64
  | Op_ApplyRemoteTable "NekoRpcMethodEntry list" u64
  | Op_ApplyRemoteDelta "NekoRpcMethodEntry list" u64
  | Op_Upsert string u64
  | Op_Remove string
  | Op_SetMinimumCompatibleVersion u64

fun apply_op :: "method_table \<Rightarrow> table_op \<Rightarrow> (unit, method_table) checked" where
  "apply_op t Op_Reset = Inr (table_reset t)"
| "apply_op t (Op_ResetEntries es v) = Inr (table_reset_entries t es v)"
| "apply_op t (Op_ResetFromNames ns v) = Inr (resetFromNames t ns v)"
| "apply_op t (Op_ApplyRemoteTable es v) = Inr (case applyRemoteTable t es v of None \<Rightarrow> t | Some t' \<Rightarrow> t')"
| "apply_op t (Op_ApplyRemoteDelta es v) = Inr (case applyRemoteDelta t es v of None \<Rightarrow> t | Some t' \<Rightarrow> t')"
| "apply_op t (Op_Upsert n h) = and_then (upsert t n h) (\<lambda>r. Inr (fst r))"
| "apply_op t (Op_Remove n) = and_then (table_remove t n) (\<lambda>r. Inr (fst r))"
| "apply_op t (Op_SetMinimumCompatibleVersion v) = Inr (setMinimumCompatibleVersion t v)"

fun run_ops :: "method_table \<Rightarrow> table_op list \<Rightarrow> (unit, method_table) checked" where
  "run_ops t [] = Inr t"
| "run_ops t (x # xs) = and_then (apply_op t x) (\<lambda>t'. run_ops t' xs)"

lemma entries_ok_Nil [simp]: "entries_ok m [] v"
  by (simp add: entries_ok_def)

lemma table_ok_new: "n < 2 ^ 64 \<Longrightarrow> table_ok (new_table n)"
  by (simp add: table_ok_def new_table_def index_ok_def)

lemma table_ok_max: "table_ok t \<Longrightarrow> mMaxEntries t < 2 ^ 64"
  by (simp add: table_ok_def)

lemma table_ok_reset: "table_ok t \<Longrightarrow> table_ok (table_reset t)"
  by (simp add: table_ok_def table_reset_def index_ok_def)

lemma table_ok_reset_entries: "table_ok t \<Longrightarrow> table_ok (table_reset_entries t es v)"
  unfolding table_reset_entries_def validTable_iff
  by (simp only: split: if_split) (blast intro: resetValidated_ok table_ok_reset table_ok_max)

lemma table_ok_apply_table:
  assumes "table_ok t" "applyRemoteTable t es v = Some t'"
  shows "table_ok t'"
proof -
  have e: "entries_ok (mMaxEntries (new_table (mMaxEntries t))) es v"
    and t': "t' = resetValidated (new_table (mMaxEntries t)) es v"
    using assms(2) by (auto simp: applyRemoteTable_def validTable_iff new_table_def split: if_splits)
  have "mMaxEntries (new_table (mMaxEntries t)) < 2 ^ 64"
    using assms(1) by (simp add: table_ok_def new_table_def)
  then show ?thesis
    unfolding t' by (rule resetValidated_ok [OF e])
qed

lemma apply_op_ok:
  assumes "table_ok t"
  shows "\<exists>t'. apply_op t x = Inr t' \<and> table_ok t'"
proof (cases x)
  case (Op_ApplyRemoteTable es v)
  with assms table_ok_apply_table [OF assms] show ?thesis by (auto split: option.split)
next
  case (Op_ApplyRemoteDelta es v)
  with assms applyRemoteDelta_ok [OF assms] show ?thesis by (auto split: option.split)
next
  case (Op_Upsert n h)
  with upsert_ok [OF assms, of n h] show ?thesis by auto
next
  case (Op_Remove n)
  with table_remove_ok [OF assms, of n] show ?thesis by auto
next
  case (Op_SetMinimumCompatibleVersion v)
  with assms show ?thesis by (auto simp: setMinimumCompatibleVersion_def table_ok_def)
qed (use assms in \<open>simp_all add: table_ok_reset table_ok_reset_entries resetFromNames_def\<close>)

lemma run_ops_ok: "table_ok t \<Longrightarrow> \<exists>t'. run_ops t xs = Inr t' \<and> table_ok t'"
proof (induction xs arbitrary: t)
  case (Cons x xs)
  then show ?case
    using apply_op_ok [of t x] by auto
qed simp

subsection \<open>The history of an id\<close>

definition extends :: "method_table \<Rightarrow> method_table \<Rightarrow> bool" where
  "extends t t' \<longleftrightarrow> length (mEntries t) \<le> length (mEntries t') \<and> mVersion t \<le> mVersion t' \<and>
     (\<forall>i < length (mEntries t).
        mEntries t' ! i = mEntries t ! i \<or> mEntries t' ! i = tombstone (mEntries t ! i))"

lemma extends_refl [simp]: "extends t t"
  by (simp add: extends_def)

lemma tombstone_idem [simp]: "tombstone (tombstone e) = tombstone e"
  by (simp add: tombstone_def)

lemma extends_trans: "extends t u \<Longrightarrow> extends u v \<Longrightarrow> extends t v"
  unfolding extends_def by (auto simp: tombstone_def) (metis order_less_le_trans tombstone_def tombstone_idem)+

lemma bumpVersion_mono: "mVersion t \<le> mVersion (bumpVersion t)"
  by (auto simp: bumpVersion_def word_le_nat_alt unat_plus_one)

lemma extends_retire: "table_ok t \<Longrightarrow> map_of (mNameToId t) n = Some ix \<Longrightarrow> extends t (retire t n ix)"
  using index_okD(1) [of t n ix] by (auto simp: extends_def retire_def nth_list_update)

lemma extends_bump: "extends t u \<Longrightarrow> extends t (bumpVersion u)"
  using bumpVersion_mono [of u] by (auto simp: extends_def)

lemma extends_append: "extends t u \<Longrightarrow> extends t (fst (append_entry u n h))"
  using bumpVersion_mono [of "u\<lparr>mEntries := mEntries u @ x\<rparr>" for x]
  by (auto simp: extends_def append_entry_def Let_def nth_append intro: order_trans)

definition local_op :: "table_op \<Rightarrow> bool" where
  "local_op x \<longleftrightarrow> (case x of Op_Upsert _ _ \<Rightarrow> True | Op_Remove _ \<Rightarrow> True
     | Op_SetMinimumCompatibleVersion _ \<Rightarrow> True | _ \<Rightarrow> False)"

lemma apply_local_extends:
  assumes ok: "table_ok t" and "local_op x" "apply_op t x = Inr t'"
  shows "extends t t'"
proof (cases x)
  case (Op_Upsert n h)
  show ?thesis
  proof (cases "n = []")
    case True
    with Op_Upsert assms show ?thesis by (simp add: upsert_def)
  next
    case False
    with Op_Upsert assms show ?thesis
      by (auto simp: upsert_eq [OF ok] extends_append extends_retire split: option.splits if_splits)
  qed
next
  case (Op_Remove n)
  with assms show ?thesis
    by (auto simp: table_remove_eq [OF ok] extends_bump extends_retire split: option.splits)
next
  case (Op_SetMinimumCompatibleVersion v)
  with assms show ?thesis
    by (auto simp: setMinimumCompatibleVersion_def extends_def)
qed (use assms in \<open>simp_all add: local_op_def\<close>)

lemma run_local_extends:
  "table_ok t \<Longrightarrow> list_all local_op xs \<Longrightarrow> run_ops t xs = Inr t' \<Longrightarrow> extends t t'"
proof (induction xs arbitrary: t)
  case (Cons x xs)
  then obtain u where u: "apply_op t x = Inr u" "run_ops u xs = Inr t'"
    by (auto simp: and_then_Inr_iff)
  moreover have "table_ok u"
    using apply_op_ok [OF Cons.prems(1), of x] u by auto
  ultimately show ?case
    using Cons apply_local_extends [OF Cons.prems(1) _ u(1)] by (auto intro: extends_trans)
qed simp

lemma resolve_ok_iff:
  "res_status (resolve t i v h req) = Res_Ok \<longleftrightarrow>
    v \<noteq> 0 \<and> mMinimumCompatibleVersion t \<le> v \<and> v \<le> mVersion t \<and>
    (\<exists>e. findById t i = Some e \<and> me_name e \<noteq> [] \<and> \<not> removed e \<and> (req \<longrightarrow> me_signature_hash e = h))"
  by (auto simp: resolve_def Let_def removed_def not_less split: option.splits)

lemma resolve_ok_entry:
  assumes "res_status (resolve t i v h req) = Res_Ok"
  shows "res_entry (resolve t i v h req) = findById t i"
  using assms by (auto simp: resolve_def Let_def split: option.splits if_splits)

lemma active_findByName:
  assumes ok: "table_ok t" and e: "findById t i = Some e" "active e"
  shows "findByName t (me_name e) = Some e" "me_id e = i"
proof -
  from e have i: "unat i < length (mEntries t)" "mEntries t ! unat i = e"
    by (auto simp: findById_def split: if_splits)
  with ok e(2) have "map_of (mNameToId t) (me_name e) = Some i"
    by (auto simp: table_ok_def index_ok_def)
  with e show "findByName t (me_name e) = Some e"
    by (simp add: findByName_def)
  show "me_id e = i"
    using ok i entries_okD(2) [of _ "mEntries t" _ "unat i"] by (auto simp: table_ok_def word_unat_eq_iff)
qed

lemma findByName_Some_iff:
  assumes ok: "table_ok t"
  shows "findByName t n = Some e \<longleftrightarrow> findById t (me_id e) = Some e \<and> active e \<and> me_name e = n"
proof
  assume "findByName t n = Some e"
  then obtain ix where ix: "map_of (mNameToId t) n = Some ix" "findById t ix = Some e"
    by (auto simp: findByName_def split: option.splits)
  with index_okD [OF ok ix(1)] show "findById t (me_id e) = Some e \<and> active e \<and> me_name e = n"
    by (auto simp: findById_def)
next
  assume "findById t (me_id e) = Some e \<and> active e \<and> me_name e = n"
  then show "findByName t n = Some e"
    using active_findByName [OF ok] by auto
qed

subsection \<open>Properties\<close>

definition sample_table :: "nat \<Rightarrow> method_table" where
  "sample_table max_entries = \<lparr>mVersion = 1, mMinimumCompatibleVersion = 1, mNextId = 1,
     mEntries = [\<lparr>me_id = 0, me_name = ''a'', me_signature_hash = 5, me_state = St_Active\<rparr>],
     mNameToId = [(''a'', 0)], mMaxEntries = max_entries\<rparr>"

lemma sample_table_ok: "0 < n \<Longrightarrow> n < 2 ^ 64 \<Longrightarrow> table_ok (sample_table n)"
  by (auto simp: sample_table_def table_ok_def entries_ok_def index_ok_def active_def
      word_unat_eq_iff)

text \<open>C8 (invariant). Whatever sequence of operations, local or from the wire, is applied to a new
  table, none of them reads a vector out of range and the table stays well-formed: ids are
  positions, active names are unique and nonempty, the name index holds exactly the active
  entries, the next id is the number of entries, and the versions are ordered.\<close>

theorem method_table_invariant:
  assumes "max_entries < 2 ^ 64"
  shows "\<exists>t. run_ops (new_table max_entries) ops = Inr t \<and> table_ok t"
  using run_ops_ok [OF table_ok_new [OF assms]] .

lemma method_table_invariant_witness:
  "\<exists>t. run_ops (new_table 2) [Op_Upsert ''a'' 5, Op_Upsert ''a'' 6, Op_Remove ''b'', Op_Upsert ''c'' 1] = Inr t
     \<and> table_ok t"
  by (rule method_table_invariant) simp

text \<open>C14 (safety). Ids are never reused by the server's own operations: an id that resolved to a
  method before any number of upserts and removals can later resolve only to the same name with
  the same signature hash.\<close>

theorem method_id_stable:
  assumes "table_ok t" and "list_all local_op ops" and "run_ops t ops = Inr t'"
    and "res_status (resolve t i v h req) = Res_Ok" and "res_status (resolve t' i v' h' req') = Res_Ok"
  shows "\<exists>e. res_entry (resolve t i v h req) = Some e \<and> res_entry (resolve t' i v' h' req') = Some e"
proof -
  from assms(4) obtain e where e: "findById t i = Some e"
    by (auto simp: resolve_ok_iff)
  from assms(5) obtain e' where e': "findById t' i = Some e'" "\<not> removed e'"
    by (auto simp: resolve_ok_iff)
  have "extends t t'"
    by (rule run_local_extends [OF assms(1-3)])
  then have "unat i < length (mEntries t) \<Longrightarrow>
      mEntries t' ! unat i = mEntries t ! unat i \<or> mEntries t' ! unat i = tombstone (mEntries t ! unat i)"
    by (simp add: extends_def)
  with e e' have "e' = e"
    by (auto simp: findById_def split: if_splits)
  with e e' show ?thesis
    using resolve_ok_entry [OF assms(4)] resolve_ok_entry [OF assms(5)] by simp
qed

lemma method_id_stable_witness:
  "\<exists>t'. run_ops (sample_table 3) [Op_Upsert ''b'' 7, Op_Remove ''b''] = Inr t' \<and>
    res_entry (resolve t' 0 3 5 True) = res_entry (resolve (sample_table 3) 0 1 5 True)"
proof -
  let ?ops = "[Op_Upsert ''b'' 7, Op_Remove ''b'']"
  define t' where "t' = projr (run_ops (sample_table 3) ?ops)"
  have run: "run_ops (sample_table 3) ?ops = Inr t'"
    unfolding t'_def by code_simp
  have r: "res_status (resolve (sample_table 3) 0 1 5 True) = Res_Ok"
    by code_simp
  have r': "res_status (resolve t' 0 3 5 True) = Res_Ok"
    unfolding t'_def by code_simp
  have "list_all local_op ?ops"
    by (simp add: local_op_def)
  with method_id_stable [OF sample_table_ok _ run r r'] run show ?thesis
    by auto
qed

text \<open>C15 (functional). \<open>resolve\<close> answers Ok exactly for a version inside the accepted window and an
  id whose entry is live and, when asked, has the hash sent; in a well-formed table that entry is
  the one the method's name finds.\<close>

theorem resolve_ok_exact:
  assumes "table_ok t"
  shows "res_status (resolve t i v h req) = Res_Ok \<longleftrightarrow>
    v \<noteq> 0 \<and> mMinimumCompatibleVersion t \<le> v \<and> v \<le> mVersion t \<and>
    (\<exists>e. findByName t (me_name e) = Some e \<and> me_id e = i \<and> (req \<longrightarrow> me_signature_hash e = h))"
proof -
  have "findById t i = Some e \<and> me_name e \<noteq> [] \<and> \<not> removed e \<longleftrightarrow>
      findByName t (me_name e) = Some e \<and> me_id e = i" for e
  proof -
    have eo: "entries_ok (mMaxEntries t) (mEntries t) (mVersion t)"
      using assms by (simp add: table_ok_def)
    have at: "unat i < length (mEntries t) \<and> mEntries t ! unat i = e" if "findById t i = Some e"
      using that by (auto simp: findById_def split: if_splits)
    have "(me_name e \<noteq> [] \<and> \<not> removed e) = active e" if "findById t i = Some e"
      using at [OF that] entries_okD(4,5) [OF eo, of "unat i"] not_active_removed [of e]
      by blast
    moreover have "me_id e = i" if "findById t i = Some e"
      using at [OF that] entries_okD(2) [OF eo, of "unat i"] by (simp add: word_unat_eq_iff)
    ultimately show ?thesis
      unfolding findByName_Some_iff [OF assms] by blast
  qed
  then show ?thesis
    unfolding resolve_ok_iff by auto
qed

lemma resolve_ok_exact_witness:
  "res_status (resolve (sample_table 3) 0 1 5 True) = Res_Ok"
proof -
  let ?e = "\<lparr>me_id = 0, me_name = ''a'', me_signature_hash = 5, me_state = St_Active\<rparr>"
  have "findByName (sample_table 3) (me_name ?e) = Some ?e"
    by (simp add: sample_table_def findByName_def findById_def)
  then have "\<exists>e. findByName (sample_table 3) (me_name e) = Some e \<and> me_id e = 0 \<and>
      (True \<longrightarrow> me_signature_hash e = 5)"
    by (intro exI [of _ ?e]) simp
  then show ?thesis
    unfolding resolve_ok_exact [OF sample_table_ok [of 3, simplified]] by (simp add: sample_table_def)
qed

text \<open>(error). When the table is full, \<open>upsert\<close> of a known name with a new signature returns
  null but has already tombstoned the old entry: the method is gone from the table although its
  version did not change, so clients are never told.\<close>

theorem upsert_full_drops_method:
  assumes "table_ok t" and "findByName t name = Some e" and "hash \<noteq> 0"
    and "me_signature_hash e \<noteq> hash" and "length (mEntries t) = mMaxEntries t"
  shows "\<exists>t'. upsert t name hash = Inr (t', None) \<and> mVersion t' = mVersion t \<and>
    findByName t' name = None \<and> findById t' (me_id e) = Some (tombstone e)"
proof -
  from assms(2) obtain ix where ix: "map_of (mNameToId t) name = Some ix" "findById t ix = Some e"
    by (auto simp: findByName_def split: option.splits)
  note d = index_okD [OF assms(1) ix(1)]
  from ix(2) have e: "mEntries t ! unat ix = e"
    by (auto simp: findById_def split: if_splits)
  have name: "name \<noteq> []"
    using d assms(1) entries_okD(4) [of _ "mEntries t" _ "unat ix"] by (auto simp: table_ok_def)
  have "upsert t name hash = Inr (retire t name ix, None)"
    using upsert_eq [OF assms(1) name, of hash] ix(1) e assms(3-5)
    by (simp add: effective_hash_def append_entry_def retire_def)
  moreover have "findByName (retire t name ix) name = None"
    by (simp add: findByName_def)
  moreover have "findById (retire t name ix) (me_id e) = Some (tombstone e)"
    using d(1,4) e by (simp add: findById_def retire_def)
  ultimately show ?thesis
    by (simp add: retire_def)
qed

lemma upsert_full_drops_method_witness:
  "\<exists>t'. upsert (sample_table 1) ''a'' 6 = Inr (t', None) \<and> mVersion t' = mVersion (sample_table 1) \<and>
    findByName t' ''a'' = None"
proof -
  let ?e = "\<lparr>me_id = 0, me_name = ''a'', me_signature_hash = 5, me_state = St_Active\<rparr>"
  have "findByName (sample_table 1) ''a'' = Some ?e"
    by (simp add: sample_table_def findByName_def findById_def)
  from upsert_full_drops_method [OF sample_table_ok this, of 6] show ?thesis
    by (auto simp: sample_table_def)
qed

end
