(* ===== verification/Rpc_Method_Wire.thy ===== *)
theory Rpc_Method_Wire
  imports Rpc_Method_Table
begin

unbundle bit_operations_syntax

text \<open>
  The wire form of the method table (\<open>rpc.cpp\<close>, the \<open>MethodTable\<close> and \<open>MethodTableDelta\<close>
  extensions), the synchronisation of a server's table with its dispatcher and the lookup of an
  incoming method (\<open>rpc/private/backend_method_id.hpp\<close>). One entry on the wire is an instance of
  the \<open>canonical_codec\<close> interface; the table is a counted sequence of entries.
\<close>

definition MethodTableFormatVersion :: u8 where "MethodTableFormatVersion = 2"

definition name_short :: "NekoRpcMethodEntry \<Rightarrow> bool" where
  "name_short e \<longleftrightarrow> length (me_name e) \<le> 65535"

text \<open>The body of the writing loop.\<close>

definition append_method_entry :: "bytes \<Rightarrow> NekoRpcMethodEntry \<Rightarrow> bytes" where
  "append_method_entry value entry =
     (if \<not> name_short entry then value
      else
        let value = appendInteger value (me_id entry);
            value = appendInteger value (me_state entry);
            value = appendInteger value (me_signature_hash entry);
            value = appendInteger value (of_nat (length (me_name entry)) :: u16)
        in value @ bytes_of_chars (me_name entry))"

definition encode_method_entries_value :: "NekoRpcMethodEntry list \<Rightarrow> bytes" where
  "encode_method_entries_value entries =
     (let count = foldl (\<lambda>count e. if name_short e then count + 1 else count) (0 :: u32) entries;
          value = appendInteger [] MethodTableFormatVersion;
          value = appendInteger value count
      in foldl append_method_entry value entries)"

text \<open>The body of the reading loop.\<close>

definition read_method_entry :: "bytes \<Rightarrow> nat \<Rightarrow> (unit, NekoRpcMethodEntry \<times> nat) checked" where
  "read_method_entry value offset =
     (if length value - offset < 19 then Inl (Err ())
      else
        and_then (read_integer_at value offset) (\<lambda>(id, offset).
        and_then (read_integer_at value offset) (\<lambda>(raw_state, offset).
        if raw_state \<noteq> St_Active \<and> raw_state \<noteq> St_Removed then Inl (Err ())
        else
          and_then (read_integer_at value offset) (\<lambda>(signature_hash, offset).
          and_then (read_integer_at value offset) (\<lambda>(name_size :: u16, offset).
          if length value - offset < unat name_size then Inl (Err ())
          else
            and_then (span_sub value offset (unat name_size)) (\<lambda>name.
              Inr (\<lparr>me_id = id, me_name = chars_of_bytes name, me_signature_hash = signature_hash,
                    me_state = raw_state\<rparr>, offset + unat name_size)))))))"

definition parse_method_entries_value :: "bytes \<Rightarrow> (unit, NekoRpcMethodEntry list) checked" where
  "parse_method_entries_value value =
     (if length value < 4 then Inl (Err ())
      else if length value \<ge> 5 then
        and_then (readInteger value 0) (\<lambda>format.
        if format = MethodTableFormatVersion then
          and_then (readInteger value 1) (\<lambda>count :: u32.
          and_then (read_many read_method_entry (unat count) value 5) (\<lambda>(entries, offset).
            if offset = length value then Inr entries else Inl (Err ())))
        else Inl (Err ()))
      else Inl (Err ()))"

definition parse_method_entries ::
  "extension_map \<Rightarrow> NekoRpcExtensionType \<Rightarrow> (unit, NekoRpcMethodEntry list) checked" where
  "parse_method_entries extensions tlv_type =
     (case map_of extensions tlv_type of
        None \<Rightarrow> Inl (Err ())
      | Some value \<Rightarrow> parse_method_entries_value value)"

definition methodTableValue :: "NekoRpcMethodEntry list \<Rightarrow> bytes" where
  "methodTableValue entries = encode_method_entries_value entries"

definition methodTableDeltaValue :: "NekoRpcMethodEntry list \<Rightarrow> bytes" where
  "methodTableDeltaValue entries = encode_method_entries_value entries"

definition parseMethodTable :: "extension_map \<Rightarrow> (unit, NekoRpcMethodEntry list) checked" where
  "parseMethodTable extensions = parse_method_entries extensions Ext_MethodTable"

definition parseMethodTableDelta :: "extension_map \<Rightarrow> (unit, NekoRpcMethodEntry list) checked" where
  "parseMethodTableDelta extensions = parse_method_entries extensions Ext_MethodTableDelta"

subsection \<open>Entries as a canonical codec\<close>

definition entry_fits :: "NekoRpcMethodEntry \<Rightarrow> bool" where
  "entry_fits e \<longleftrightarrow> name_short e \<and> (me_state e = St_Active \<or> me_state e = St_Removed)"

definition entry_bytes :: "NekoRpcMethodEntry \<Rightarrow> bytes" where
  "entry_bytes e = integerValue (me_id e) @ integerValue (me_state e) @ integerValue (me_signature_hash e) @
     integerValue (of_nat (length (me_name e)) :: u16) @ bytes_of_chars (me_name e)"

lemma length_entry_bytes [simp]: "length (entry_bytes e) = 19 + length (me_name e)"
  by (simp add: entry_bytes_def)

lemma read_method_entry_enc:
  assumes "entry_fits e"
  shows "read_method_entry (pre @ entry_bytes e @ post) (length pre) =
    Inr (e, length pre + length (entry_bytes e))"
proof -
  have n: "unat (of_nat (length (me_name e)) :: u16) = length (me_name e)"
    using assms by (intro unat_of_nat_bound) (simp add: entry_fits_def name_short_def)
  have sub: "span_sub (pre @ entry_bytes e @ post) (19 + length pre) (length (me_name e)) =
      (Inr (bytes_of_chars (me_name e)) :: (unit, _) checked)"
    by (rule span_sub_drop [where post = post]) (simp_all add: entry_bytes_def)
  show ?thesis
    using assms sub
    by (simp add: read_method_entry_def entry_fits_def entry_bytes_def read_integer_at_drop n)
qed

lemma read_method_entry_sound:
  assumes "read_method_entry data c = Inr (e, c')" and c: "c \<le> length data"
  shows "entry_fits e \<and> c \<le> c' \<and> c' \<le> length data \<and> subspan data c (c' - c) = entry_bytes e"
proof -
  from assms(1) obtain i o1 st o2 h o3 and n :: u16 and o4 nm where
    r1: "read_integer_at data c = (Inr (i, o1) :: (unit, _) checked)" and
    r2: "read_integer_at data o1 = (Inr (st, o2) :: (unit, _) checked)" and
    st: "st = St_Active \<or> st = St_Removed" and
    r3: "read_integer_at data o2 = (Inr (h, o3) :: (unit, _) checked)" and
    r4: "read_integer_at data o3 = (Inr (n, o4) :: (unit, _) checked)" and
    len: "\<not> length data - o4 < unat n" and
    nm: "span_sub data o4 (unat n) = (Inr nm :: (unit, _) checked)" and
    e: "e = \<lparr>me_id = i, me_name = chars_of_bytes nm, me_signature_hash = h, me_state = st\<rparr>" and
    c': "c' = o4 + unat n"
    by (auto simp: read_method_entry_def and_then_Inr_iff split: if_splits)
  note d1 = read_integer_at_InrD [OF r1 _ c, simplified]
  note d2 = read_integer_at_InrD [OF r2, simplified]
  note d3 = read_integer_at_InrD [OF r3, simplified]
  note d4 = read_integer_at_InrD [OF r4, simplified]
  have o: "o1 = c + 8" "o2 = c + 9" "o3 = c + 17" "o4 = c + 19" "o4 \<le> length data"
    using d1 d2 d3 d4 by auto
  have "drop c data = integerValue i @ integerValue st @ integerValue h @ integerValue n @ drop o4 data"
    using d1 d2 d3 d4 o by auto
  moreover have "nm = subspan data o4 (unat n)" and in': "o4 + unat n \<le> length data"
    using nm by (auto simp: span_sub_def split: if_splits)
  moreover have "of_nat (length nm) = n"
    using calculation in' by simp
  ultimately have "drop c data = entry_bytes e @ drop c' data"
    using drop_eq_subspan [of o4 data "unat n"] by (simp add: entry_bytes_def e c')
  moreover have "length (entry_bytes e) = c' - c"
    using in' o e c' nm by (auto simp: span_sub_def split: if_splits)
  moreover have "entry_fits e"
    using st unsigned_less [of n, where 'a = nat] nm
    by (auto simp: e entry_fits_def name_short_def span_sub_def split: if_splits)
  ultimately show ?thesis
    using in' o c' by (simp add: subspan_def)
qed

interpretation method_entry: canonical_codec entry_fits entry_bytes read_method_entry
  by unfold_locales (auto simp: read_method_entry_enc dest: read_method_entry_sound)

subsection \<open>The table\<close>

lemma append_method_entry_eq:
  "append_method_entry out e = (if name_short e then out @ entry_bytes e else out)"
  by (simp add: append_method_entry_def entry_bytes_def appendInteger_integerValue)

lemma foldl_append_entries:
  "foldl append_method_entry out es = out @ concat (map entry_bytes (filter name_short es))"
  by (induction es arbitrary: out) (simp_all add: append_method_entry_eq)

lemma foldl_count:
  "foldl (\<lambda>count e. if name_short e then count + 1 else count) (c :: u32) es =
    c + of_nat (length (filter name_short es))"
  by (induction es arbitrary: c) (simp_all add: add.assoc)

lemma encode_entries_eq:
  "encode_method_entries_value es =
    [2] @ integerValue (of_nat (length (filter name_short es)) :: u32) @
    concat (map entry_bytes (filter name_short es))"
proof -
  have "integerValue (2 :: u8) = [2]"
    by (simp add: integerValue_eq)
  then show ?thesis
    by (simp add: encode_method_entries_value_def foldl_append_entries foldl_count Let_def
        appendInteger_integerValue MethodTableFormatVersion_def)
qed

lemma filter_all: "list_all P xs \<Longrightarrow> filter P xs = xs"
  by (simp add: list_all_iff)

lemma entries_fit_short: "list_all entry_fits es \<Longrightarrow> filter name_short es = es"
  by (simp add: list_all_iff entry_fits_def)

lemma parse_entries_encode:
  assumes fits: "list_all entry_fits es" and n: "length es < 2 ^ 32"
  shows "parse_method_entries_value (encode_method_entries_value es) = Inr es"
proof -
  let ?c = "of_nat (length es) :: u32"
  let ?v = "encode_method_entries_value es"
  have v: "?v = (2 # integerValue ?c) @ concat (map entry_bytes es)"
    using encode_entries_eq [of es] entries_fit_short [OF fits] by simp
  have r0: "readInteger ?v 0 = (Inr 2 :: (unit, u8) checked)"
    unfolding v by (simp add: readInteger_def byte_at_inside)
  have r1: "readInteger ?v 1 = (Inr ?c :: (unit, _) checked)"
    unfolding v using readInteger_append [of "[2]" ?c "concat (map entry_bytes es)", where 'e = unit] by simp
  have c: "unat ?c = length es"
    using n by (intro unat_of_nat_bound) simp
  have "read_many read_method_entry (length es) ((2 # integerValue ?c) @ concat (map entry_bytes es) @ [])
      (length (2 # integerValue ?c)) = Inr (es, length (2 # integerValue ?c) + length (concat (map entry_bytes es)))"
    by (rule method_entry.read_many_enc [OF fits])
  then have "read_many read_method_entry (unat ?c) ?v 5 = Inr (es, length ?v)"
    unfolding v c by simp
  moreover have "5 \<le> length ?v"
    unfolding v by simp
  ultimately show ?thesis
    by (simp add: parse_method_entries_value_def r0 r1 MethodTableFormatVersion_def del: One_nat_def)
qed

lemma parse_entries_sound:
  assumes "parse_method_entries_value data = Inr es"
  shows "list_all entry_fits es \<and> length es < 2 ^ 32 \<and> data = encode_method_entries_value es"
proof -
  from assms obtain f :: u8 and c :: u32 and o1 where len: "5 \<le> length data"
    and r0: "readInteger data 0 = (Inr f :: (unit, _) checked)" and f: "f = 2"
    and r1: "readInteger data 1 = (Inr c :: (unit, _) checked)"
    and m: "read_many read_method_entry (unat c) data 5 = Inr (es, o1)" and o1: "o1 = length data"
    by (auto simp: parse_method_entries_value_def and_then_Inr_iff MethodTableFormatVersion_def
        split: if_splits)
  note s = method_entry.read_many_sound [OF m len]
  have "drop 0 data = integerValue f @ drop 1 data"
    using read_integer_at_InrD [of data 0 f 1, where 'e = unit] r0 by (simp add: read_integer_at_def)
  moreover have "drop 1 data = integerValue c @ drop 5 data"
    using read_integer_at_InrD [of data 1 c 5, where 'e = unit] r1 len by (simp add: read_integer_at_def)
  moreover have "drop 5 data = concat (map entry_bytes es)"
    using s o1 by (simp add: subspan_def)
  moreover have "integerValue f = [2]"
    by (simp add: integerValue_eq f)
  ultimately have v: "data = [2] @ integerValue c @ concat (map entry_bytes es)"
    by simp
  have l: "length es = unat c"
    using s by simp
  then have c: "of_nat (length es) = c"
    by simp
  have "length es < 2 ^ 32"
    using unsigned_less [of c, where 'a = nat] l by simp
  with s v c show ?thesis
    by (simp add: encode_entries_eq entries_fit_short)
qed

lemma in_bounds_read_method_entry: "c \<le> length data \<Longrightarrow> in_bounds (read_method_entry data c)"
  unfolding read_method_entry_def
  by (auto intro!: fault_free dest!: read_integer_at_next)

lemma in_bounds_parse_entries [fault_free]: "in_bounds (parse_method_entries_value data)"
  unfolding parse_method_entries_value_def
  by (auto intro!: fault_free method_entry.in_bounds_read_many in_bounds_read_method_entry split: prod.splits)

subsection \<open>Entries of a dispatcher\<close>

record RpcMethodMetadata =
  md_name :: string
  md_signature :: string

fun method_entries_loop :: "u64 \<Rightarrow> RpcMethodMetadata list \<Rightarrow> NekoRpcMethodEntry list" where
  "method_entries_loop i [] = []"
| "method_entries_loop i (m # ms) =
     \<lparr>me_id = i, me_name = md_name m, me_signature_hash = signatureHash (md_name m) (md_signature m),
      me_state = St_Active\<rparr> # method_entries_loop (i + 1) ms"

definition NekoRpcMethodEntries :: "RpcMethodMetadata list \<Rightarrow> NekoRpcMethodEntry list" where
  "NekoRpcMethodEntries methods = method_entries_loop 0 methods"

subsection \<open>Synchronisation with the dispatcher\<close>

fun sync_upserts ::
  "NekoRpcMethodEntry list \<Rightarrow> method_table \<Rightarrow> NekoRpcMethodEntry list \<Rightarrow>
    (unit, method_table \<times> NekoRpcMethodEntry list) checked" where
  "sync_upserts [] t delta = Inr (t, delta)"
| "sync_upserts (entry # entries) t delta =
     (if (case findByName t (me_name entry) of
            None \<Rightarrow> False
          | Some current \<Rightarrow> me_state current = St_Active \<and> me_signature_hash current = me_signature_hash entry)
      then sync_upserts entries t delta
      else
        and_then (upsert t (me_name entry) (me_signature_hash entry)) (\<lambda>(t, updated).
          sync_upserts entries t (case updated of None \<Rightarrow> delta | Some e \<Rightarrow> delta @ [e])))"

definition removed_names :: "method_table \<Rightarrow> NekoRpcMethodEntry list \<Rightarrow> string list" where
  "removed_names t active_entries =
     map me_name (filter (\<lambda>current.
       \<not> (me_state current \<noteq> St_Active \<or> me_name current = []) \<and>
       \<not> list_ex (\<lambda>entry. me_name entry = me_name current) active_entries) (mEntries t))"

fun sync_removals ::
  "string list \<Rightarrow> method_table \<Rightarrow> NekoRpcMethodEntry list \<Rightarrow>
    (unit, method_table \<times> NekoRpcMethodEntry list) checked" where
  "sync_removals [] t delta = Inr (t, delta)"
| "sync_removals (name # names) t delta =
     (case findByName t name of
        None \<Rightarrow> sync_removals names t delta
      | Some current \<Rightarrow>
        and_then (table_remove t name) (\<lambda>(t, removed).
          sync_removals names t
            (if removed
             then (case findById t (me_id current) of None \<Rightarrow> delta | Some tomb \<Rightarrow> delta @ [tomb])
             else delta)))"

definition NekoRpcSyncMethodTable ::
  "method_table \<Rightarrow> NekoRpcMethodEntry list \<Rightarrow> (unit, method_table \<times> NekoRpcMethodEntry list) checked"
where
  "NekoRpcSyncMethodTable t active_entries =
     and_then (sync_upserts active_entries t []) (\<lambda>(t, delta).
       sync_removals (removed_names t active_entries) t delta)"

subsection \<open>The method of an incoming frame\<close>

definition NekoRpcIncomingMethodName ::
  "method_table \<Rightarrow> bool \<Rightarrow> FrameParts \<Rightarrow> string rpc_result" where
  "NekoRpcIncomingMethodName table method_id_enabled parts =
     (if h_flags (fp_header parts) AND Flag_MethodId = 0 then Inr (chars_of_bytes (fp_method parts))
      else if \<not> method_id_enabled \<or> length (fp_method parts) \<noteq> 8
      then Inl (Err (rpc_err MethodIdNotNegotiated))
      else
        and_then (readIntegerTlv (fp_extensions parts) Ext_MethodTableVersion) (\<lambda>version_tlv.
        case version_tlv of
          None \<Rightarrow> Inl (Err (rpc_err MethodTableOutdated))
        | Some version \<Rightarrow>
          and_then (readIntegerTlv (fp_extensions parts) Ext_MethodSignatureHash) (\<lambda>hash_tlv.
          and_then (readInteger (fp_method parts) 0) (\<lambda>method_id.
            let has_signature = hash_tlv \<noteq> None;
                signature_hash = (case hash_tlv of None \<Rightarrow> 0 | Some h \<Rightarrow> h);
                resolved = resolve table method_id version signature_hash True
            in if \<not> has_signature \<and> res_status resolved = Res_SignatureMismatch
               then Inl (Err (rpc_err MethodSignatureMismatch))
               else case res_status resolved of
                 Res_Ok \<Rightarrow> (case res_entry resolved of
                     None \<Rightarrow> Inl Out_Of_Bounds | Some entry \<Rightarrow> Inr (me_name entry))
               | Res_TableOutdated \<Rightarrow> Inl (Err (rpc_err MethodTableOutdated))
               | Res_MethodNotFound \<Rightarrow> Inl (Err (rpc_err MethodIdNotFound))
               | Res_MethodRemoved \<Rightarrow> Inl (Err (rpc_err MethodIdRemoved))
               | Res_SignatureMismatch \<Rightarrow> Inl (Err (rpc_err MethodSignatureMismatch))))))"

subsection \<open>The table as a map from names to signature hashes\<close>

definition live :: "method_table \<Rightarrow> string \<Rightarrow> u64 option" where
  "live t n = map_option me_signature_hash (findByName t n)"

lemma live_Some_iff:
  assumes "table_ok t"
  shows "live t n = Some h \<longleftrightarrow>
    (\<exists>e \<in> set (mEntries t). active e \<and> me_name e = n \<and> me_signature_hash e = h)"
proof -
  have eo: "entries_ok (mMaxEntries t) (mEntries t) (mVersion t)"
    using assms by (simp add: table_ok_def)
  have "findById t (me_id e) = Some e \<longleftrightarrow> e \<in> set (mEntries t)" for e
  proof
    assume "findById t (me_id e) = Some e"
    then have "unat (me_id e) < length (mEntries t)" "mEntries t ! unat (me_id e) = e"
      by (auto simp: findById_def split: if_splits)
    then show "e \<in> set (mEntries t)"
      by (metis nth_mem)
  next
    assume "e \<in> set (mEntries t)"
    then obtain i where "i < length (mEntries t)" "mEntries t ! i = e"
      by (auto simp: in_set_conv_nth)
    then show "findById t (me_id e) = Some e"
      using entries_okD(2) [OF eo, of i] by (simp add: findById_def)
  qed
  then show ?thesis
    by (auto simp: live_def findByName_Some_iff [OF assms])
qed

lemma live_retire:
  assumes ok: "table_ok t" and ix: "map_of (mNameToId t) name = Some ix"
  shows "live (retire t name ix) = (live t)(name := None)"
proof
  fix n
  show "live (retire t name ix) n = ((live t)(name := None)) n"
  proof (cases "n = name")
    case False
    have "unat j \<noteq> unat ix" if "map_of (mNameToId t) n = Some j" for j
      using index_okD(3) [OF ok that] index_okD(3) [OF ok ix] False by auto
    with False show ?thesis
      by (auto simp: live_def findByName_def retire_def findById_def split: option.splits)
  qed (simp add: live_def findByName_def)
qed

lemma live_bump [simp]: "live (bumpVersion t) = live t"
  by (rule ext) (simp add: live_def findByName_def findById_def split: option.splits)

lemma live_append:
  assumes ok: "table_ok t" and room: "length (mEntries t) < mMaxEntries t"
    and name: "name \<noteq> []" "map_of (mNameToId t) name = None"
  shows "live (fst (append_entry t name h)) = (live t)(name \<mapsto> h)"
proof (rule ext, rule option.expand)
  let ?t = "fst (append_entry t name h)"
  let ?e = "\<lparr>me_id = of_nat (length (mEntries t)), me_name = name, me_signature_hash = h, me_state = St_Active\<rparr>"
  have ok': "table_ok ?t"
    by (rule append_entry_ok [OF ok name])
  have es: "mEntries ?t = mEntries t @ [?e]"
    using room by (simp add: append_entry_def Let_def)
  have "live t name = None"
    using name by (simp add: live_def findByName_def)
  then have none: "\<not> (active e \<and> me_name e = name)" if "e \<in> set (mEntries t)" for e
    using that live_Some_iff [OF ok, of name "me_signature_hash e"] by auto
  have iff: "live ?t n = Some k \<longleftrightarrow> ((live t)(name \<mapsto> h)) n = Some k" for n k
    using none unfolding live_Some_iff [OF ok'] es
    by (auto simp: live_Some_iff [OF ok] active_def)
  fix n
  show "(live ?t n = None) = (((live t)(name \<mapsto> h)) n = None)"
    using iff [of n] by (metis not_None_eq)
  show "the (live ?t n) = the (((live t)(name \<mapsto> h)) n)"
    if "live ?t n \<noteq> None" "((live t)(name \<mapsto> h)) n \<noteq> None"
    using iff [of n] that by (metis option.collapse)
qed

lemma length_retire [simp]: "length (mEntries (retire t n ix)) = length (mEntries t)"
  "mMaxEntries (retire t n ix) = mMaxEntries t"
  by (simp_all add: retire_def)

lemma append_entry_some:
  assumes "length (mEntries t) < mMaxEntries t"
  shows "\<exists>t' e. append_entry t n h = (t', Some e) \<and> length (mEntries t') = Suc (length (mEntries t)) \<and>
    mMaxEntries t' = mMaxEntries t"
  using assms by (simp add: append_entry_def Let_def)

text \<open>\<open>upsert\<close> and \<open>remove\<close> are the update and the deletion of that map.\<close>

lemma upsert_live:
  assumes ok: "table_ok t" and name: "name \<noteq> []" and room: "length (mEntries t) < mMaxEntries t"
  obtains t' e where "upsert t name hash = Inr (t', Some e)" "table_ok t'"
    "live t' = (live t)(name \<mapsto> effective_hash name hash)"
    "length (mEntries t') \<le> Suc (length (mEntries t))" "mMaxEntries t' = mMaxEntries t"
proof -
  obtain t' r where r: "upsert t name hash = Inr (t', r)" "table_ok t'"
    using upsert_ok [OF ok] by blast
  have "live t' = (live t)(name \<mapsto> effective_hash name hash) \<and> r \<noteq> None \<and>
      length (mEntries t') \<le> Suc (length (mEntries t)) \<and> mMaxEntries t' = mMaxEntries t"
  proof (cases "map_of (mNameToId t) name")
    case None
    then have "append_entry t name (effective_hash name hash) = (t', r)"
      using r upsert_eq [OF ok name, of hash] by simp
    then show ?thesis
      using live_append [OF ok room name None, of "effective_hash name hash"]
        append_entry_some [OF room, of name "effective_hash name hash"] by auto
  next
    case (Some ix)
    show ?thesis
    proof (cases "me_signature_hash (mEntries t ! unat ix) = effective_hash name hash")
      case True
      then have "t' = t" "r = Some (mEntries t ! unat ix)"
        using r upsert_eq [OF ok name, of hash] Some by auto
      moreover have "live t name = Some (effective_hash name hash)"
        using True Some index_okD(1) [OF ok Some] by (simp add: live_def findByName_def findById_def)
      ultimately show ?thesis
        by (auto simp: fun_upd_idem)
    next
      case False
      then have "append_entry (retire t name ix) name (effective_hash name hash) = (t', r)"
        using r upsert_eq [OF ok name, of hash] Some by simp
      moreover have "live (fst (append_entry (retire t name ix) name (effective_hash name hash))) =
          (live t)(name \<mapsto> effective_hash name hash)"
        using live_append [OF retire_ok [OF ok Some] _ name(1)] live_retire [OF ok Some] room by simp
      ultimately show ?thesis
        using append_entry_some [of "retire t name ix" name "effective_hash name hash"] room by auto
    qed
  qed
  with r that show thesis
    by (cases r) auto
qed

lemma table_remove_live:
  assumes ok: "table_ok t"
  obtains t' b where "table_remove t name = Inr (t', b)" "table_ok t'" "live t' = (live t)(name := None)"
    "length (mEntries t') = length (mEntries t)" "mMaxEntries t' = mMaxEntries t"
proof (cases "map_of (mNameToId t) name")
  case None
  then have "(live t)(name := None) = live t"
    by (auto simp: live_def findByName_def)
  with None ok that [of t False] show thesis
    by (simp add: table_remove_eq)
next
  case (Some ix)
  with ok that [of "bumpVersion (retire t name ix)" True] show thesis
    by (simp add: table_remove_eq bumpVersion_ok retire_ok live_retire)
qed

subsection \<open>Synchronisation reaches the dispatcher's methods\<close>

definition wanted :: "NekoRpcMethodEntry list \<Rightarrow> string \<Rightarrow> u64 option" where
  "wanted es = map_of (map (\<lambda>e. (me_name e, me_signature_hash e)) es)"

lemma wanted_simps [simp]:
  "wanted [] = Map.empty"
  "wanted (e # es) = (wanted es)(me_name e \<mapsto> me_signature_hash e)"
  by (simp_all add: wanted_def)

lemma wanted_None_iff: "wanted es n = None \<longleftrightarrow> n \<notin> set (map me_name es)"
  unfolding wanted_def by (simp add: map_of_eq_None_iff image_image)

definition dispatcher_entries :: "NekoRpcMethodEntry list \<Rightarrow> bool" where
  "dispatcher_entries es \<longleftrightarrow> distinct (map me_name es) \<and>
     list_all (\<lambda>e. me_name e \<noteq> [] \<and> me_signature_hash e \<noteq> 0) es"

lemma live_findByName:
  "table_ok t \<Longrightarrow> findByName t n = Some e \<Longrightarrow> me_state e = St_Active \<and> live t n = Some (me_signature_hash e)"
  by (auto simp: live_def findByName_Some_iff active_def)

lemma sync_upserts_live:
  "table_ok t \<Longrightarrow> dispatcher_entries es \<Longrightarrow> length (mEntries t) + length es \<le> mMaxEntries t \<Longrightarrow>
    \<exists>t' d. sync_upserts es t delta = Inr (t', d) \<and> table_ok t' \<and> live t' = live t ++ wanted es"
proof (induction es arbitrary: t delta)
  case (Cons e es)
  have es: "dispatcher_entries es" and e: "me_name e \<noteq> []" "me_signature_hash e \<noteq> 0"
    using Cons.prems by (auto simp: dispatcher_entries_def)
  have fresh: "wanted es (me_name e) = None"
    using Cons.prems by (simp add: wanted_None_iff dispatcher_entries_def)
  then have split: "m ++ wanted (e # es) = m(me_name e \<mapsto> me_signature_hash e) ++ wanted es" for m
    by (auto simp: fun_eq_iff map_add_def split: option.splits)
  show ?case
  proof (cases "\<exists>c. findByName t (me_name e) = Some c \<and> me_signature_hash c = me_signature_hash e")
    case True
    then obtain c where c: "findByName t (me_name e) = Some c" "me_signature_hash c = me_signature_hash e"
      by blast
    note l = live_findByName [OF Cons.prems(1) c(1)]
    then have "(live t)(me_name e \<mapsto> me_signature_hash e) = live t"
      using c by (simp add: fun_upd_idem)
    moreover have "sync_upserts (e # es) t delta = sync_upserts es t delta"
      using c l by simp
    ultimately show ?thesis
      using Cons.IH [OF Cons.prems(1) es, of delta] Cons.prems(3) unfolding split by simp
  next
    case False
    obtain t1 u where u: "upsert t (me_name e) (me_signature_hash e) = Inr (t1, Some u)" "table_ok t1"
      "live t1 = (live t)(me_name e \<mapsto> me_signature_hash e)"
      "length (mEntries t1) \<le> Suc (length (mEntries t))" "mMaxEntries t1 = mMaxEntries t"
      using upsert_live [OF Cons.prems(1) e(1), of "me_signature_hash e"] Cons.prems(3) e(2)
      by (auto simp: effective_hash_def)
    have step: "sync_upserts (e # es) t delta = sync_upserts es t1 (delta @ [u])"
      using False u(1) by (auto split: option.split)
    have "\<exists>t' d. sync_upserts es t1 (delta @ [u]) = Inr (t', d) \<and> table_ok t' \<and>
        live t' = live t1 ++ wanted es"
      using Cons.prems(3) u(4,5) by (intro Cons.IH u(2) es) simp
    then show ?thesis
      unfolding step split u(3) .
  qed
qed simp

lemma sync_removals_live:
  "table_ok t \<Longrightarrow>
    \<exists>t' d. sync_removals ns t delta = Inr (t', d) \<and> table_ok t' \<and> live t' = live t |` (- set ns)"
proof (induction ns arbitrary: t delta)
  case (Cons n ns)
  have split: "m |` (- set (n # ns)) = m(n := None) |` (- set ns)" for m :: "string \<Rightarrow> u64 option"
    by (auto simp: restrict_map_def)
  show ?case
  proof (cases "findByName t n")
    case None
    then have "(live t)(n := None) = live t"
      by (auto simp: live_def)
    with None Cons show ?thesis
      unfolding split by simp
  next
    case (Some e)
    obtain t1 b where r: "table_remove t n = Inr (t1, b)" "table_ok t1" "live t1 = (live t)(n := None)"
      using table_remove_live [OF Cons.prems] by blast
    obtain d1 where step: "sync_removals (n # ns) t delta = sync_removals ns t1 d1"
      using Some r(1) by auto
    have "\<exists>t' d. sync_removals ns t1 d1 = Inr (t', d) \<and> table_ok t' \<and> live t' = live t1 |` (- set ns)"
      by (rule Cons.IH [OF r(2)])
    then show ?thesis
      unfolding step split r(3) .
  qed
qed (simp add: restrict_map_def)

lemma removed_names_iff:
  assumes "table_ok t"
  shows "n \<in> set (removed_names t es) \<longleftrightarrow> live t n \<noteq> None \<and> wanted es n = None"
proof -
  have "live t n \<noteq> None \<longleftrightarrow> (\<exists>e \<in> set (mEntries t). active e \<and> me_name e = n)"
    using live_Some_iff [OF assms, of n] by (metis not_None_eq)
  moreover have "active e \<Longrightarrow> e \<in> set (mEntries t) \<Longrightarrow> me_name e \<noteq> []" for e
    using assms by (auto simp: table_ok_def entries_ok_def list_all_iff dest: not_active_removed)
  ultimately show ?thesis
    unfolding removed_names_def wanted_None_iff
    by (simp add: list_ex_iff active_def image_iff) metis
qed

subsection \<open>Properties\<close>

text \<open>C16 (round trip). The parser of the method table accepts exactly the encodings of entry lists
  whose names fit and whose states are known, and returns that list: one list, one encoding.\<close>

theorem method_table_wire_exact:
  "parse_method_entries_value data = Inr es \<longleftrightarrow>
    list_all entry_fits es \<and> length es < 2 ^ 32 \<and> data = encode_method_entries_value es"
  using parse_entries_sound [of data es] parse_entries_encode [of es] by auto

text \<open>(refinement). Seen as a map from live method names to signature hashes, the table is
  updated by \<open>upsert\<close> at one name, as long as there is room for a new entry, and \<open>remove\<close>
  deletes one name.\<close>

theorem upsert_remove_refine_map:
  assumes "table_ok t"
  shows "(name \<noteq> [] \<and> length (mEntries t) < mMaxEntries t \<longrightarrow>
      (\<exists>t' e. upsert t name hash = Inr (t', Some e) \<and>
        live t' = (live t)(name \<mapsto> effective_hash name hash))) \<and>
    (\<exists>t' b. table_remove t name = Inr (t', b) \<and> live t' = (live t)(name := None))"
  using upsert_live [OF assms, of name hash] table_remove_live [OF assms, of name] by metis

lemma upsert_remove_refine_map_witness:
  "\<exists>t' b. table_remove (sample_table 3) ''a'' = Inr (t', b) \<and> live t' = (live (sample_table 3))(''a'' := None)"
  using upsert_remove_refine_map [OF sample_table_ok, of 3 "''a''"] by simp

text \<open>(functional). After a synchronisation with the dispatcher's methods, given room for them,
  the live methods of the table are exactly the dispatcher's, each with its signature hash.\<close>

theorem sync_reaches_dispatcher:
  assumes "table_ok t" and "dispatcher_entries es" and "length (mEntries t) + length es \<le> mMaxEntries t"
  shows "\<exists>t' delta. NekoRpcSyncMethodTable t es = Inr (t', delta) \<and> table_ok t' \<and> live t' = wanted es"
proof -
  obtain t1 d where u: "sync_upserts es t [] = Inr (t1, d)" "table_ok t1" "live t1 = live t ++ wanted es"
    using sync_upserts_live [OF assms] by blast
  obtain t' d' where r: "sync_removals (removed_names t1 es) t1 d = Inr (t', d')" "table_ok t'"
    "live t' = live t1 |` (- set (removed_names t1 es))"
    using sync_removals_live [OF u(2)] by blast
  have "live t' = wanted es"
  proof
    fix n
    have "n \<notin> set (removed_names t1 es)" if "wanted es n = Some h" for h
      using that removed_names_iff [OF u(2), of n es] by simp
    then show "live t' n = wanted es n"
      using removed_names_iff [OF u(2), of n es]
      by (cases "wanted es n") (auto simp: r(3) u(3) restrict_map_def map_add_def)
  qed
  with u r show ?thesis
    by (simp add: NekoRpcSyncMethodTable_def)
qed

lemma sync_reaches_dispatcher_witness:
  "\<exists>t' delta. NekoRpcSyncMethodTable (sample_table 4)
      [\<lparr>me_id = 0, me_name = ''a'', me_signature_hash = 6, me_state = St_Active\<rparr>,
       \<lparr>me_id = 1, me_name = ''b'', me_signature_hash = 7, me_state = St_Active\<rparr>] = Inr (t', delta) \<and>
    table_ok t' \<and> live t' = wanted
      [\<lparr>me_id = 0, me_name = ''a'', me_signature_hash = 6, me_state = St_Active\<rparr>,
       \<lparr>me_id = 1, me_name = ''b'', me_signature_hash = 7, me_state = St_Active\<rparr>]"
  by (rule sync_reaches_dispatcher [OF sample_table_ok])
    (simp_all add: dispatcher_entries_def sample_table_def)

text \<open>(error). A delta that announces a changed signature by the new entry alone, which is what
  \<open>NekoRpcSyncMethodTable\<close> collects for it, is refused by a client that holds the previous table:
  the old entry of the same name is still active there.\<close>

theorem signature_change_delta_refused:
  assumes "table_ok t" and "findByName t name = Some e" and "hash \<noteq> 0" and "hash \<noteq> me_signature_hash e"
    and "length (mEntries t) < mMaxEntries t" and "upsert t name hash = Inr (t', Some e')"
  shows "applyRemoteDelta t [e'] (mVersion t') = None"
proof -
  let ?es = "mEntries t"
  obtain ix where ix: "map_of (mNameToId t) name = Some ix" "findById t ix = Some e"
    using assms(2) by (auto simp: findByName_def split: option.splits)
  note d = index_okD [OF assms(1) ix(1)]
  have e: "?es ! unat ix = e"
    using ix(2) by (auto simp: findById_def split: if_splits)
  have eo: "entries_ok (mMaxEntries t) ?es (mVersion t)" and len: "length ?es < 2 ^ 64"
    using assms(1,5) by (auto simp: table_ok_def)
  have name: "name \<noteq> []"
    using entries_okD(4) [OF eo d(1,2)] d(3) by simp
  have e': "e' = \<lparr>me_id = of_nat (length ?es), me_name = name, me_signature_hash = hash, me_state = St_Active\<rparr>"
    using assms(3-6) upsert_eq [OF assms(1) name, of hash] ix(1) e
    by (auto simp: effective_hash_def append_entry_def Let_def)
  have ids: "fill_hash e' = e'" "unat (me_id e') = length ?es" "active e'"
    using assms(3) len by (simp_all add: e' fill_hash_def unat_of_nat_bound active_def)
  obtain n where n: "installEntry t e' = Some (t\<lparr>mNextId := n, mEntries := ?es @ [e']\<rparr>)"
    using installEntry_append [OF ids(2) assms(5)] by blast
  have "e \<in> set ?es"
    using d(1) e by auto
  then have "name \<in> set (active_names ?es)"
    using d(2,3) e by (auto simp: active_names_def)
  then have "\<not> entries_ok (mMaxEntries t) (?es @ [e']) v" for v
    using ids(3) by (simp add: entries_ok_def e')
  then show ?thesis
    by (simp add: applyRemoteDelta_def Let_def ids(1) n contains_def validTable_iff split: if_split)
qed

definition changed_entry :: NekoRpcMethodEntry where
  "changed_entry = \<lparr>me_id = 1, me_name = ''a'', me_signature_hash = 6, me_state = St_Active\<rparr>"

lemma signature_change_delta_refused_witness:
  "applyRemoteDelta (sample_table 3) [changed_entry] 2 = None"
proof -
  let ?e = "\<lparr>me_id = 0, me_name = ''a'', me_signature_hash = 5, me_state = St_Active\<rparr>"
  obtain t' where u: "upsert (sample_table 3) ''a'' 6 = Inr (t', Some changed_entry)" "mVersion t' = 2"
  proof
    show "upsert (sample_table 3) ''a'' 6 =
        Inr (fst (projr (upsert (sample_table 3) ''a'' 6)), Some changed_entry)"
      unfolding changed_entry_def by code_simp
    show "mVersion (fst (projr (upsert (sample_table 3) ''a'' 6))) = 2"
      by code_simp
  qed
  have "findByName (sample_table 3) ''a'' = Some ?e"
    by (simp add: sample_table_def findByName_def findById_def)
  from signature_change_delta_refused [OF sample_table_ok this _ _ _ u(1)] u(2) show ?thesis
    by (simp add: sample_table_def)
qed

text \<open>C17 (safety). A method id is honoured only after negotiation, for a live method: the name
  handed to the dispatcher is in the table, under the id and the signature hash the frame
  carries, and the table version of the frame is inside the accepted window.\<close>

theorem incoming_method_id_live:
  assumes "table_ok t" and "h_flags (fp_header parts) AND Flag_MethodId \<noteq> 0"
    and "NekoRpcIncomingMethodName t enabled parts = Inr name"
  shows "enabled \<and> (\<exists>e v. findByName t name = Some e \<and> fp_method parts = integerValue (me_id e) \<and>
    map_of (fp_extensions parts) Ext_MethodTableVersion = Some (integerValue v) \<and>
    mMinimumCompatibleVersion t \<le> v \<and> v \<le> mVersion t \<and>
    (map_of (fp_extensions parts) Ext_MethodSignatureHash = Some (integerValue (me_signature_hash e)) \<or>
     me_signature_hash e = 0))"
proof -
  let ?x = "fp_extensions parts"
  from assms(2,3) have en: "enabled" and len: "length (fp_method parts) = 8"
    by (auto simp: NekoRpcIncomingMethodName_def split: if_splits)
  note body = assms(3) [unfolded NekoRpcIncomingMethodName_def if_not_P [OF assms(2)]]
  obtain o1 where "readIntegerTlv ?x Ext_MethodTableVersion = (Inr o1 :: (error_code, u64 option) checked)"
    "o1 \<noteq> None"
    using body en len by (auto simp: and_then_Inr_iff split: option.splits)
  then obtain v where v: "readIntegerTlv ?x Ext_MethodTableVersion = (Inr (Some v) :: (error_code, u64 option) checked)"
    by auto
  obtain h i where
    h: "readIntegerTlv ?x Ext_MethodSignatureHash = (Inr h :: (error_code, u64 option) checked)"
    and i: "readInteger (fp_method parts) 0 = (Inr i :: (error_code, u64) checked)"
    using body en len by (auto simp: v and_then_Inr_iff)
  let ?r = "resolve t i v (case h of None \<Rightarrow> 0 | Some h \<Rightarrow> h) True"
  have r: "res_status ?r = Res_Ok"
    using body en len by (auto simp: v h i Let_def split: if_splits resolve_status.splits)
  then obtain e where e: "res_entry ?r = Some e" "name = me_name e"
    using body en len by (auto simp: v h i Let_def split: option.splits)
  have w: "mMinimumCompatibleVersion t \<le> v" "v \<le> mVersion t"
    and f: "findById t i = Some e" "me_name e \<noteq> []" "\<not> removed e"
      "me_signature_hash e = (case h of None \<Rightarrow> 0 | Some h \<Rightarrow> h)"
    using r resolve_ok_entry [OF r] e(1) unfolding resolve_ok_iff by auto
  have "active e"
    using f(1,3) assms(1) entries_okD(5) [of _ "mEntries t" _ "unat i"]
    by (auto simp: table_ok_def findById_def not_le split: if_splits)
  note fb = active_findByName [OF assms(1) f(1) this]
  have "fp_method parts = integerValue (me_id e)"
    using readInteger_whole_sound [OF i] len fb(2) by simp
  moreover have "map_of ?x Ext_MethodTableVersion = Some (integerValue v)"
    using v readIntegerValue_sound [of _ v, where 'e = error_code]
    by (auto simp: readIntegerTlv_def split: option.splits)
  moreover have "map_of ?x Ext_MethodSignatureHash = Some (integerValue (me_signature_hash e)) \<or>
      me_signature_hash e = 0"
    using h f(4) readIntegerValue_sound [of _ "me_signature_hash e", where 'e = error_code]
    by (cases h) (auto simp: readIntegerTlv_def split: option.splits)
  ultimately show ?thesis
    using en w fb(1) e(2) by blast
qed

definition method_id_frame :: FrameParts where
  "method_id_frame = \<lparr>fp_header = default_header\<lparr>h_flags := Flag_MethodId\<rparr>, fp_method = integerValue (0 :: u64),
     fp_extensions = [(Ext_MethodTableVersion, integerValue (1 :: u64)),
                      (Ext_MethodSignatureHash, integerValue (5 :: u64))], fp_payload = []\<rparr>"

lemma incoming_method_id_live_witness:
  "\<exists>e. findByName (sample_table 3) ''a'' = Some e \<and> fp_method method_id_frame = integerValue (me_id e)"
proof -
  have "res_status (resolve (sample_table 3) 0 1 5 True) = Res_Ok"
    "res_entry (resolve (sample_table 3) 0 1 5 True) = Some \<lparr>me_id = 0, me_name = ''a'',
       me_signature_hash = 5, me_state = St_Active\<rparr>"
    by code_simp+
  then have "NekoRpcIncomingMethodName (sample_table 3) True method_id_frame = Inr ''a''"
    by (simp add: NekoRpcIncomingMethodName_def method_id_frame_def flag_defs readIntegerTlv_def
        ext_defs readIntegerValue_whole readInteger_whole)
  from incoming_method_id_live [OF sample_table_ok _ this] show ?thesis
    by (auto simp: method_id_frame_def flag_defs)
qed

end
