(* ===== verification/Rpc_Compression.thy ===== *)
theory Rpc_Compression
  imports Rpc_Frame
begin

unbundle bit_operations_syntax

text \<open>
  \<open>NekoRpcCompressionCodec\<close> (\<open>rpc.cpp\<close>): the run-length codec the backend uses for payloads, and
  the interface \<open>payload_compression\<close> the backend relies on. A control byte below 0x80 introduces a
  literal of \<open>control + 1\<close> bytes, one from 0x80 on a run of \<open>control - 0x80 + 3\<close> equal bytes.
\<close>

type_synonym CompressionAlgorithm = u8

definition Alg_None :: CompressionAlgorithm where "Alg_None = 0"
definition Alg_RunLength :: CompressionAlgorithm where "Alg_RunLength = 1"

lemma algs_distinct [simp]: "Alg_None \<noteq> Alg_RunLength" "Alg_RunLength \<noteq> Alg_None"
  by (simp_all add: Alg_None_def Alg_RunLength_def)

definition preferred_algorithm :: CompressionAlgorithm where
  "preferred_algorithm = Alg_RunLength"

definition supports :: "CompressionAlgorithm \<Rightarrow> bool" where
  "supports algorithm \<longleftrightarrow> algorithm = Alg_RunLength"

subsection \<open>Compression\<close>

text \<open>The inner loop: how many bytes from \<open>offset\<close> on are equal, at most 130.\<close>

function scan_run :: "bytes \<Rightarrow> nat \<Rightarrow> nat \<Rightarrow> nat" where
  "scan_run payload offset run =
     (if offset + run < length payload \<and> run < 130 \<and> payload ! (offset + run) = payload ! offset
      then scan_run payload offset (Suc run) else run)"
  by pat_completeness auto
termination
  by (relation "measure (\<lambda>(payload, offset, run). 130 - run)") auto

declare scan_run.simps [simp del]

lemma scan_run_ge: "run \<le> scan_run payload offset run"
  by (induction payload offset run rule: scan_run.induct) (subst scan_run.simps, auto)

text \<open>The literal loop: it moves over short runs until a long one or 128 bytes.\<close>

function scan_literal :: "bytes \<Rightarrow> nat \<Rightarrow> nat \<Rightarrow> nat" where
  "scan_literal payload literal_begin offset =
     (if offset < length payload then
        let run = scan_run payload offset 1 in
        if run \<ge> 3 \<or> offset - literal_begin \<ge> 128 then offset
        else scan_literal payload literal_begin (offset + run)
      else offset)"
  by pat_completeness auto
termination
proof (relation "measure (\<lambda>(payload, literal_begin, offset). length payload - offset)", goal_cases)
  case (2 payload literal_begin offset run)
  then show ?case
    using scan_run_ge [of 1 payload offset] by simp
qed simp

declare scan_literal.simps [simp del]

lemma scan_literal_ge: "offset \<le> scan_literal payload literal_begin offset"
proof (induction payload literal_begin offset rule: scan_literal.induct)
  case (1 payload literal_begin offset)
  then show ?case
    by (subst scan_literal.simps) (fastforce simp: Let_def intro: le_trans [rotated])
qed

function compress_loop :: "bytes \<Rightarrow> nat \<Rightarrow> bytes \<Rightarrow> bytes" where
  "compress_loop payload offset out =
     (if offset < length payload then
        let run = scan_run payload offset 1 in
        if run \<ge> 3 then
          compress_loop payload (offset + run)
            (out @ [0x80 OR of_nat (run - 3)] @ [payload ! offset])
        else
          let literal_begin = offset;
              offset = scan_literal payload literal_begin (offset + run);
              literal_size = offset - literal_begin
          in compress_loop payload offset
               ((out @ [of_nat (literal_size - 1)]) @ subspan payload literal_begin literal_size)
      else out)"
  by pat_completeness auto
termination
proof (relation "measure (\<lambda>(payload, offset, out). length payload - offset)", goal_cases)
  case (2 payload offset out run)
  then show ?case
    by simp
next
  case (3 payload offset out run literal_begin offset' literal_size)
  have "1 \<le> run"
    using 3 scan_run_ge [of 1 payload offset] by simp
  then show ?case
    using 3 scan_literal_ge [of "offset + run" payload offset] by simp
qed simp

declare compress_loop.simps [simp del]

definition compressRunLength :: "bytes \<Rightarrow> bytes" where
  "compressRunLength payload = compress_loop payload 0 []"

subsection \<open>Decompression\<close>

function decompress_loop :: "bytes \<Rightarrow> nat \<Rightarrow> nat \<Rightarrow> bytes \<Rightarrow> bytes rpc_result" where
  "decompress_loop payload max_output_bytes offset out =
     (if offset < length payload then
        and_then (readInteger payload offset) (\<lambda>control :: u8.
          let offset = Suc offset in
          if control AND 0x80 \<noteq> 0 then
            if offset \<ge> length payload then Inl (Err (rpc_err InvalidRequest))
            else
              let count = unat (control AND 0x7F) + 3 in
              if count > max_output_bytes - min max_output_bytes (length out)
              then Inl (Err (Io_Code MessageTooLarge))
              else
                and_then (byte_at payload offset) (\<lambda>b.
                  decompress_loop payload max_output_bytes (Suc offset) (out @ replicate count b))
          else
            let count = unat control + 1 in
            if length payload - offset < count then Inl (Err (rpc_err InvalidRequest))
            else if count > max_output_bytes - min max_output_bytes (length out)
            then Inl (Err (Io_Code MessageTooLarge))
            else
              and_then (span_sub payload offset count) (\<lambda>bytes.
                decompress_loop payload max_output_bytes (offset + count) (out @ bytes)))
      else Inr out)"
  by pat_completeness auto
termination
  by (relation "measure (\<lambda>(payload, max_output_bytes, offset, out). length payload - offset)") auto

declare decompress_loop.simps [simp del]

definition decompressRunLength :: "bytes \<Rightarrow> nat \<Rightarrow> bytes rpc_result" where
  "decompressRunLength payload max_output_bytes = decompress_loop payload max_output_bytes 0 []"

definition compress :: "bytes \<Rightarrow> CompressionAlgorithm \<Rightarrow> bytes rpc_result" where
  "compress payload algorithm =
     (if algorithm = Alg_None then Inr payload
      else if algorithm = Alg_RunLength then Inr (compressRunLength payload)
      else Inl (Err (rpc_err InvalidRequest)))"

definition decompress :: "bytes \<Rightarrow> CompressionAlgorithm \<Rightarrow> nat \<Rightarrow> bytes rpc_result" where
  "decompress payload algorithm max_output_bytes =
     (if algorithm = Alg_None then
        if length payload > max_output_bytes then Inl (Err (Io_Code MessageTooLarge)) else Inr payload
      else if algorithm = Alg_RunLength then decompressRunLength payload max_output_bytes
      else Inl (Err (rpc_err InvalidRequest)))"

subsection \<open>What the scans find\<close>

lemma scan_run_props:
  "offset + run \<le> length payload \<Longrightarrow> run \<le> 130 \<Longrightarrow> \<forall>i < run. payload ! (offset + i) = payload ! offset \<Longrightarrow>
   offset + scan_run payload offset run \<le> length payload \<and> scan_run payload offset run \<le> 130 \<and>
   (\<forall>i < scan_run payload offset run. payload ! (offset + i) = payload ! offset)"
proof (induction payload offset run rule: scan_run.induct)
  case (1 payload offset run)
  show ?case
  proof (cases "offset + run < length payload \<and> run < 130 \<and> payload ! (offset + run) = payload ! offset")
    case True
    then have step: "scan_run payload offset run = scan_run payload offset (Suc run)"
      by (subst scan_run.simps) simp
    from True have "\<forall>i < Suc run. payload ! (offset + i) = payload ! offset"
      using "1.prems"(3) by (auto simp: less_Suc_eq)
    with True show ?thesis
      unfolding step by (intro "1.IH") simp_all
  next
    case False
    then have step: "scan_run payload offset run = run"
      by (subst scan_run.simps) auto
    from "1.prems" show ?thesis
      unfolding step by simp
  qed
qed

lemma scan_run_le: "offset < length payload \<Longrightarrow> offset + scan_run payload offset 1 \<le> length payload"
  and scan_run_130: "offset < length payload \<Longrightarrow> scan_run payload offset 1 \<le> 130"
  and scan_run_eq: "offset < length payload \<Longrightarrow> i < scan_run payload offset 1 \<Longrightarrow>
    payload ! (offset + i) = payload ! offset"
  using scan_run_props [of offset 1 payload] by auto

lemma scan_run_replicate:
  assumes "offset < length payload"
  shows "drop offset payload =
    replicate (scan_run payload offset 1) (payload ! offset) @ drop (offset + scan_run payload offset 1) payload"
proof -
  have "subspan payload offset (scan_run payload offset 1) = replicate (scan_run payload offset 1) (payload ! offset)"
    using scan_run_le [OF assms] scan_run_eq [OF assms]
    by (intro nth_equalityI) (auto simp: subspan_def)
  then show ?thesis
    using drop_eq_subspan [of offset payload "scan_run payload offset 1"] by simp
qed

lemma scan_literal_le:
  "offset \<le> length payload \<Longrightarrow> scan_literal payload literal_begin offset \<le> length payload"
proof (induction payload literal_begin offset rule: scan_literal.induct)
  case (1 payload literal_begin offset)
  then show ?case
    by (subst scan_literal.simps) (auto simp: Let_def scan_run_le simp del: One_nat_def)
qed

text \<open>
  A literal never gets longer than 129 bytes: the loop stops at 128, but the step before may take
  two bytes at once.
\<close>

lemma scan_literal_129:
  "literal_begin \<le> offset \<Longrightarrow> offset \<le> literal_begin + 129 \<Longrightarrow>
    scan_literal payload literal_begin offset \<le> literal_begin + 129"
proof (induction payload literal_begin offset rule: scan_literal.induct)
  case (1 payload literal_begin offset)
  then show ?case
    by (subst scan_literal.simps) (auto simp: Let_def not_le)
qed

subsection \<open>One chunk\<close>

lemma decompress_run:
  assumes d: "drop k q = [0x80 OR of_nat (n - 3), b] @ rest" and k: "k \<le> length q"
    and n: "3 \<le> n" "n \<le> 130" and room: "length out + n \<le> m"
  shows "decompress_loop q m k out = decompress_loop q m (k + 2) (out @ replicate n b)"
proof -
  define c :: u8 where "c = 0x80 OR of_nat (n - 3)"
  have c: "c AND 0x80 \<noteq> 0" "unat (c AND 0x7F) + 3 = n"
    using n high_byte_low [of "n - 3"] by (simp_all only: c_def high_byte_flag) auto
  have d: "drop k q = c # b # rest"
    using d by (simp add: c_def)
  have len: "length q - k = 2 + length rest"
    using arg_cong [OF d, of length] by simp
  have q: "q ! k = c" "q ! Suc k = b"
    using nth_drop [of k q 0] nth_drop [of k q 1] d k by simp_all
  have "readInteger q k = (Inr (q ! k) :: (error_code, u8) checked)"
    using len by (simp add: readInteger_def byte_at_inside)
  moreover have "k < length q" "Suc k < length q" "n \<le> m - length out"
    using len room by auto
  ultimately show ?thesis
    using c room
    by (subst decompress_loop.simps) (simp add: q byte_at_inside Let_def not_less min_def)
qed

lemma decompress_literal:
  assumes d: "drop k q = of_nat (length xs - 1) # xs @ rest" and k: "k \<le> length q"
    and n: "xs \<noteq> []" "length xs \<le> 128" and room: "length out + length xs \<le> m"
  shows "decompress_loop q m k out = decompress_loop q m (k + Suc (length xs)) (out @ xs)"
proof -
  define c :: u8 where "c = of_nat (length xs - 1)"
  have small: "length xs - 1 < 128" "length xs - 1 + 1 = length xs"
    using n by (cases xs; simp)+
  have "unat c = length xs - 1"
    unfolding c_def using small(1) by (intro unat_of_nat_bound) simp
  then have c: "c AND 0x80 = 0" "unat c + 1 = length xs"
    using small low_byte_flag [OF small(1)] by (simp_all only: c_def)
  have d: "drop k q = c # xs @ rest"
    using d by (simp only: c_def)
  have len: "length q - k = 1 + length xs + length rest"
    using arg_cong [OF d, of length] by simp
  have q: "q ! k = c"
    using nth_drop [of k q 0] d k by simp
  have r: "readInteger q k = (Inr c :: (error_code, u8) checked)"
    using len q by (simp add: readInteger_def byte_at_inside)
  have "drop (Suc k) q = xs @ rest"
    using arg_cong [OF d, of "drop 1"] by simp
  then have sub: "span_sub q (Suc k) (length xs) = (Inr xs :: bytes rpc_result)"
    using len by (intro span_sub_drop) auto
  have "k < length q" "length xs \<le> length q - Suc k" "length xs \<le> m - length out"
    using len room by auto
  then show ?thesis
    using c room sub r
    by (subst decompress_loop.simps) (simp add: Let_def not_less min_def del: One_nat_def)
qed

subsection \<open>When compression is invertible\<close>

function literals_fit :: "bytes \<Rightarrow> nat \<Rightarrow> bool" where
  "literals_fit payload offset \<longleftrightarrow>
     (if offset < length payload then
        let run = scan_run payload offset 1 in
        if run \<ge> 3 then literals_fit payload (offset + run)
        else
          let literal_end = scan_literal payload offset (offset + run)
          in literal_end - offset \<le> 128 \<and> literals_fit payload literal_end
      else True)"
  by pat_completeness auto
termination
proof (relation "measure (\<lambda>(payload, offset). length payload - offset)", goal_cases)
  case (3 payload offset run literal_end)
  have "1 \<le> run"
    using 3 scan_run_ge [of 1 payload offset] by simp
  then show ?case
    using 3 scan_literal_ge [of "offset + run" payload offset] by simp
qed auto

declare literals_fit.simps [simp del]

lemma literals_fit_short: "length payload \<le> 128 \<Longrightarrow> literals_fit payload offset"
proof (induction payload offset rule: literals_fit.induct)
  case (1 payload offset)
  have "scan_literal payload offset (offset + scan_run payload offset 1) - offset \<le> 128" if "offset < length payload"
    using scan_literal_le [of "offset + scan_run payload offset 1" payload offset] scan_run_le [OF that] "1.prems"
    by simp
  with 1 show ?case
    by (subst literals_fit.simps) (auto simp: Let_def simp del: One_nat_def)
qed

lemma compress_loop_inverse:
  "literals_fit payload offset \<Longrightarrow> offset \<le> length payload \<Longrightarrow>
    \<exists>c. (\<forall>out. compress_loop payload offset out = out @ c) \<and>
      (\<forall>q k m res. drop k q = c \<longrightarrow> k \<le> length q \<longrightarrow> length res + (length payload - offset) \<le> m \<longrightarrow>
         decompress_loop q m k res = Inr (res @ drop offset payload))"
proof (induction "length payload - offset" arbitrary: offset rule: less_induct)
  case less
  let ?P = "\<lambda>offset c. (\<forall>out. compress_loop payload offset out = out @ c) \<and>
      (\<forall>q k m res. drop k q = c \<longrightarrow> k \<le> length q \<longrightarrow> length res + (length payload - offset) \<le> m \<longrightarrow>
         decompress_loop q m k res = Inr (res @ drop offset payload))"
  show ?case
  proof (cases "offset < length payload")
    case False
    have "decompress_loop q m k res = Inr res" if "drop k q = []" for q m k res
      using that by (subst decompress_loop.simps) simp
    moreover have "compress_loop payload offset out = out" for out
      using False by (subst compress_loop.simps) simp
    ultimately have "?P offset []"
      using False by simp
    then show ?thesis by blast
  next
    case True
    let ?run = "scan_run payload offset 1"
    have run: "1 \<le> ?run" "?run \<le> 130" "offset + ?run \<le> length payload"
      using scan_run_ge [of 1 payload offset] scan_run_130 [OF True] scan_run_le [OF True] by auto
    show ?thesis
    proof (cases "?run \<ge> 3")
      case long: True
      have fit: "literals_fit payload (offset + ?run)"
        using less.prems(1) long True by (subst (asm) literals_fit.simps) (simp add: Let_def)
      have "length payload - (offset + ?run) < length payload - offset"
        using run True by linarith
      from less.hyps [OF this fit run(3)] obtain c where c: "?P (offset + ?run) c"
        by (elim exE)
      let ?c = "[0x80 OR of_nat (?run - 3), payload ! offset] @ c"
      have "compress_loop payload offset out = out @ ?c" for out
        using long True c by (subst compress_loop.simps) (simp add: Let_def)
      moreover have "decompress_loop q m k res = Inr (res @ drop offset payload)"
        if d: "drop k q = ?c" "k \<le> length q" "length res + (length payload - offset) \<le> m" for q m k res
      proof -
        have "decompress_loop q m k res = decompress_loop q m (k + 2) (res @ replicate ?run (payload ! offset))"
          using d run True long by (intro decompress_run [OF d(1,2)]) auto
        also have "\<dots> = Inr ((res @ replicate ?run (payload ! offset)) @ drop (offset + ?run) payload)"
        proof -
          have "drop (k + 2) q = c" "k + 2 \<le> length q"
            using arg_cong [OF d(1), of "drop 2"] arg_cong [OF d(1), of length] d(2)
            by (simp_all add: add.commute)
          then show ?thesis
            using c d(3) run by auto
        qed
        finally show ?thesis
          using scan_run_replicate [OF True] by simp
      qed
      ultimately have "?P offset ?c"
        by blast
      then show ?thesis by blast
    next
      case short: False
      let ?e = "scan_literal payload offset (offset + ?run)"
      let ?xs = "subspan payload offset (?e - offset)"
      have e: "offset < ?e" "?e \<le> length payload"
        using scan_literal_ge [of "offset + ?run" payload offset] scan_literal_le [OF run(3)] run by auto
      then have xs: "length ?xs = ?e - offset" "?xs \<noteq> []"
        by (auto simp: subspan_def)
      have fit: "?e - offset \<le> 128" "literals_fit payload ?e"
        using less.prems(1) short True by (subst (asm) literals_fit.simps; simp add: Let_def)+
      have "length payload - ?e < length payload - offset"
        using e True by linarith
      from less.hyps [OF this fit(2) e(2)] obtain c where c: "?P ?e c"
        by (elim exE)
      let ?c = "of_nat (length ?xs - 1) # ?xs @ c"
      have "compress_loop payload offset out = out @ ?c" for out
        using short True c xs(1) by (subst compress_loop.simps) (simp add: Let_def)
      moreover have "decompress_loop q m k res = Inr (res @ drop offset payload)"
        if d: "drop k q = ?c" "k \<le> length q" "length res + (length payload - offset) \<le> m" for q m k res
      proof -
        have "decompress_loop q m k res = decompress_loop q m (k + Suc (length ?xs)) (res @ ?xs)"
          using d xs fit(1) e by (intro decompress_literal [OF d(1,2)]) auto
        also have "\<dots> = Inr ((res @ ?xs) @ drop ?e payload)"
        proof -
          have "drop (k + Suc (length ?xs)) q = c" "k + Suc (length ?xs) \<le> length q"
            using arg_cong [OF d(1), of "drop (Suc (length ?xs))"] arg_cong [OF d(1), of length] d(2)
            by (simp_all add: add.commute)
          moreover have "length (res @ ?xs) + (length payload - ?e) \<le> m"
            using d(3) e xs(1) by simp
          ultimately show ?thesis
            using c by blast
        qed
        finally show ?thesis
          using drop_eq_subspan [of offset payload "?e - offset"] e by simp
      qed
      ultimately have "?P offset ?c"
        by blast
      then show ?thesis by blast
    qed
  qed
qed

lemma run_length_inverse:
  assumes "literals_fit payload 0" "length payload \<le> m"
  shows "decompressRunLength (compressRunLength payload) m = Inr payload"
proof -
  obtain c where "compress_loop payload 0 [] = [] @ c"
    "drop 0 c = c \<longrightarrow> 0 \<le> length c \<longrightarrow> length ([] :: bytes) + (length payload - 0) \<le> m \<longrightarrow>
      decompress_loop c m 0 [] = Inr ([] @ drop 0 payload)"
    using compress_loop_inverse [OF assms(1)] by blast
  with assms(2) show ?thesis
    by (simp add: compressRunLength_def decompressRunLength_def)
qed

subsection \<open>What decompression can produce\<close>

lemma unat_and_7F: "unat ((c :: byte) AND 0x7F) < 128"
proof -
  have "unat (take_bit 7 c) < 2 ^ 7"
    by (simp only: unsigned_take_bit_eq take_bit_nat_less_exp)
  then show ?thesis
    by (simp only: word_and_0x7F) simp
qed

text \<open>One step of the loop, with what it checked.\<close>

lemma decompress_loop_cases:
  obtains (finished) "offset \<ge> length payload" "decompress_loop payload m offset out = Inr out"
  | (error) e where "decompress_loop payload m offset out = Inl (Err e)"
  | (run) n b where "offset + 2 \<le> length payload" "n \<le> 130" "length out + n \<le> max m (length out)"
      "decompress_loop payload m offset out = decompress_loop payload m (offset + 2) (out @ replicate n b)"
  | (literal) n where "offset + Suc n \<le> length payload" "1 \<le> n" "length out + n \<le> max m (length out)"
      "decompress_loop payload m offset out =
        decompress_loop payload m (offset + Suc n) (out @ subspan payload (Suc offset) n)"
proof (cases "offset < length payload")
  case False
  then show thesis
    by (intro finished) (auto simp: decompress_loop.simps)
next
  case True
  let ?c = "payload ! offset"
  let ?n = "unat (?c AND 0x7F) + 3" and ?l = "unat ?c + 1"
  have r: "readInteger payload offset = (Inr ?c :: (error_code, u8) checked)"
    using True by (simp add: readInteger_def byte_at_inside)
  note step = decompress_loop.simps [of payload m offset out, unfolded if_P [OF True] r and_then_simps Let_def]
  show thesis
  proof (cases "?c AND 0x80 \<noteq> 0")
    case high: True
    note step = step [unfolded if_P [OF high]]
    show thesis
    proof (cases "Suc offset \<ge> length payload \<or> ?n > m - min m (length out)")
      case True
      with step have "decompress_loop payload m offset out = Inl (Err (rpc_err InvalidRequest)) \<or>
          decompress_loop payload m offset out = Inl (Err (Io_Code MessageTooLarge))"
        by (auto split: if_splits)
      then show thesis
        by (blast intro: error)
    next
      case False
      then have "decompress_loop payload m offset out =
          decompress_loop payload m (offset + 2) (out @ replicate ?n (payload ! Suc offset))"
        unfolding step by (simp add: byte_at_inside)
      moreover have "offset + 2 \<le> length payload" "?n \<le> 130"
          "length out + ?n \<le> max m (length out)"
        using False unat_and_7F [of ?c] by (auto simp: min_def max_def split: if_splits)
      ultimately show thesis
        by (intro run)
    qed
  next
    case low: False
    note step = step [unfolded if_not_P [OF low]]
    show thesis
    proof (cases "length payload - Suc offset < ?l \<or> ?l > m - min m (length out)")
      case True
      with step have "decompress_loop payload m offset out = Inl (Err (rpc_err InvalidRequest)) \<or>
          decompress_loop payload m offset out = Inl (Err (Io_Code MessageTooLarge))"
        by (auto split: if_splits)
      then show thesis
        by (blast intro: error)
    next
      case False
      then have in': "Suc offset + ?l \<le> length payload"
        by auto
      have "decompress_loop payload m offset out =
          decompress_loop payload m (offset + Suc ?l) (out @ subspan payload (Suc offset) ?l)"
        unfolding step span_sub_inside [OF in'] using False by simp
      moreover have "length out + ?l \<le> max m (length out)"
        using False by (auto simp: min_def max_def split: if_splits)
      ultimately show thesis
        using in' by (intro literal [of ?l]) auto
    qed
  qed
qed

lemma in_bounds_decompress_loop: "in_bounds (decompress_loop payload m offset out)"
proof (induction "length payload - offset" arbitrary: offset out rule: less_induct)
  case less
  show ?case
  proof (cases rule: decompress_loop_cases [of payload offset m out])
    case (run n b)
    then show ?thesis using less [of "offset + 2"] by simp
  next
    case (literal n)
    then show ?thesis using less [of "offset + Suc n"] by simp
  qed simp_all
qed

lemma decompress_loop_bound:
  "decompress_loop payload m offset out = Inr r \<Longrightarrow> offset \<le> length payload \<Longrightarrow>
    length r \<le> max m (length out) \<and> length r \<le> length out + 65 * (length payload - offset)"
proof (induction "length payload - offset" arbitrary: offset out rule: less_induct)
  case less
  show ?case
  proof (cases rule: decompress_loop_cases [of payload offset m out])
    case (run n b)
    have "length r \<le> max m (length (out @ replicate n b)) \<and>
        length r \<le> length (out @ replicate n b) + 65 * (length payload - (offset + 2))"
      using less.prems run by (intro less.hyps) auto
    with run show ?thesis by auto
  next
    case (literal n)
    have "length r \<le> max m (length (out @ subspan payload (Suc offset) n)) \<and>
        length r \<le> length (out @ subspan payload (Suc offset) n) + 65 * (length payload - (offset + Suc n))"
      using less.prems literal by (intro less.hyps) auto
    with literal show ?thesis by auto
  qed (use less.prems in auto)
qed

lemma in_bounds_compress [fault_free]: "in_bounds (compress payload a)"
  by (simp add: compress_def)

lemma in_bounds_decompress [fault_free]: "in_bounds (decompress payload a m)"
  by (simp add: decompress_def decompressRunLength_def in_bounds_decompress_loop)

lemma decompress_bound: "decompress payload a m = Inr r \<Longrightarrow> length r \<le> m"
  using decompress_loop_bound [of payload m 0 "[]" r]
  by (auto simp: decompress_def decompressRunLength_def split: if_splits)

lemma decompress_ratio: "decompress payload a m = Inr r \<Longrightarrow> length r \<le> 65 * length payload"
  using decompress_loop_bound [of payload m 0 "[]" r]
  by (auto simp: decompress_def decompressRunLength_def split: if_splits)

subsection \<open>The interface of a payload compression\<close>

text \<open>
  What the backend relies on. The backend is a template over the compression codec, so the client
  lemmas are proved from these laws: compression is undone by decompression for the payloads in
  \<open>safe\<close>, and decompression respects its budget, grows its input by a factor of at most \<open>ratio\<close>,
  and never reads out of range.
\<close>

locale payload_compression =
  fixes comp :: "bytes \<Rightarrow> CompressionAlgorithm \<Rightarrow> bytes rpc_result"
    and decomp :: "bytes \<Rightarrow> CompressionAlgorithm \<Rightarrow> nat \<Rightarrow> bytes rpc_result"
    and safe :: "CompressionAlgorithm \<Rightarrow> bytes \<Rightarrow> bool"
    and ratio :: nat
  assumes decomp_comp: "safe a p \<Longrightarrow> comp p a = Inr c \<Longrightarrow> length p \<le> m \<Longrightarrow> decomp c a m = Inr p"
    and decomp_budget: "decomp c a m = Inr p \<Longrightarrow> length p \<le> m"
    and decomp_ratio: "decomp c a m = Inr p \<Longrightarrow> length p \<le> ratio * length c"
    and comp_in_bounds: "in_bounds (comp p a)"
    and decomp_in_bounds: "in_bounds (decomp c a m)"

definition compression_safe :: "CompressionAlgorithm \<Rightarrow> bytes \<Rightarrow> bool" where
  "compression_safe a payload \<longleftrightarrow> (a = Alg_RunLength \<longrightarrow> literals_fit payload 0)"

interpretation neko_compression: payload_compression compress decompress compression_safe 65
proof
  show "decompress c a m = Inr p"
    if "compression_safe a p" "compress p a = Inr c" "length p \<le> m" for a p c m
    using that run_length_inverse [of p m]
    by (auto simp: compress_def decompress_def compression_safe_def split: if_splits)
qed (auto intro: fault_free dest: decompress_bound decompress_ratio)

subsection \<open>Properties\<close>

text \<open>C28 (round trip). Run-length decompression inverts compression whenever no literal of the
  compressed form exceeds 128 bytes, in particular for every payload of at most 128 bytes.\<close>

theorem compression_roundtrip:
  assumes "literals_fit payload 0 \<or> length payload \<le> 128" and "length payload \<le> max_output"
    and "compress payload algorithm = Inr c"
  shows "decompress c algorithm max_output = Inr payload"
  using assms literals_fit_short [of payload 0]
  by (intro neko_compression.decomp_comp) (auto simp: compression_safe_def)

lemma compression_roundtrip_witness:
  "decompress (compressRunLength [7, 7, 7, 7, 1, 2, 2]) Alg_RunLength 100 = Inr [7, 7, 7, 7, 1, 2, 2]"
  by (rule compression_roundtrip) (simp_all add: compress_def)

definition long_literal_payload :: bytes where
  "long_literal_payload = map of_nat [0..<127] @ [200, 200]"

text \<open>(error). The literal loop can stop at 129 bytes, whose length byte then reads as a run: a
  payload of 127 different bytes and one pair is compressed to something that does not decompress
  to it.\<close>

theorem long_literal_not_invertible:
  "compress long_literal_payload Alg_RunLength = Inr (0x80 # long_literal_payload) \<and>
   decompress (0x80 # long_literal_payload) Alg_RunLength 1000 = Inl (Err (rpc_err InvalidRequest))"
  by (rule conjI; code_simp)

text \<open>(bounds). Decompression never reads outside the payload, never returns more than its
  budget, and never more than 65 bytes for each byte received, which is why the default ratio of
  130 refuses no well-formed payload.\<close>

theorem decompress_bounded:
  "in_bounds (decompress payload algorithm max_output) \<and>
   (case decompress payload algorithm max_output of
      Inl e \<Rightarrow> True | Inr r \<Rightarrow> length r \<le> max_output \<and> length r \<le> 65 * length payload)"
  using decompress_bound [of payload algorithm max_output] decompress_ratio [of payload algorithm max_output]
  by (auto simp: in_bounds_decompress split: sum.split)

end
