(* ===== verification/Rpc_Session.thy ===== *)
theory Rpc_Session
  imports Rpc_Method_Wire Rpc_Compression
begin

unbundle bit_operations_syntax

text \<open>
  The options and the per-connection session of \<open>NekoRpcBackend\<close> (\<open>rpc/backend.hpp\<close>) and the
  transforms of outgoing and incoming payloads (\<open>rpc/private/backend_compression.hpp\<close>), written
  over the compression codec the backend is instantiated with. The statistics behind the shared
  pointer \<open>compression_stats\<close> are a state that is passed along, \<open>None\<close> for a null pointer.
\<close>

datatype NekoRpcFeatureMode = Mode_Disable | Mode_Auto | Mode_Require

definition feature_enabled :: "NekoRpcFeatureMode \<Rightarrow> bool" where
  "feature_enabled mode \<longleftrightarrow> mode \<noteq> Mode_Disable"

record Options =
  opt_method_id :: NekoRpcFeatureMode
  opt_compression :: NekoRpcFeatureMode
  opt_compression_min_payload_size :: u32
  opt_retry_method_id_error_once :: bool
  opt_max_auto_method_table_extension_bytes :: nat
  opt_frame_limits :: NekoRpcFrameLimits
  opt_max_decompressed_payload_bytes :: nat
  opt_max_compression_ratio :: nat
  opt_max_method_entries :: nat
  opt_max_pending_calls :: nat
  opt_max_inflight_requests_per_connection :: nat
  opt_max_active_requests_global :: nat
  opt_max_queued_requests_global :: nat
  opt_request_timeout :: "int option"

definition MaxExtensionBytes :: nat where
  "MaxExtensionBytes = 65535"

definition default_options :: Options where
  "default_options = \<lparr>opt_method_id = Mode_Auto, opt_compression = Mode_Disable,
     opt_compression_min_payload_size = 64, opt_retry_method_id_error_once = True,
     opt_max_auto_method_table_extension_bytes = MaxExtensionBytes, opt_frame_limits = default_limits,
     opt_max_decompressed_payload_bytes = 16 * 1024 * 1024, opt_max_compression_ratio = 130,
     opt_max_method_entries = 64 * 1024, opt_max_pending_calls = 1024,
     opt_max_inflight_requests_per_connection = 1024, opt_max_active_requests_global = 4096,
     opt_max_queued_requests_global = 4096, opt_request_timeout = None\<rparr>"

record PeerSession =
  ps_handshake_done :: bool
  ps_method_id_enabled :: bool
  ps_compression_enabled :: bool
  ps_compression_algorithm :: CompressionAlgorithm
  ps_compression_min_payload_size :: u32
  ps_remote_method_table :: method_table

definition new_session :: "nat \<Rightarrow> PeerSession" where
  "new_session max_method_entries = \<lparr>ps_handshake_done = False, ps_method_id_enabled = False,
     ps_compression_enabled = False, ps_compression_algorithm = Alg_None,
     ps_compression_min_payload_size = 64, ps_remote_method_table = new_table max_method_entries\<rparr>"

subsection \<open>Statistics\<close>

datatype stat_counter =
    compression_attempts
  | compressed_frames
  | decompressed_frames
  | compression_input_bytes
  | compression_output_bytes
  | decompression_input_bytes
  | decompression_output_bytes
  | skipped_small_payloads
  | skipped_ineffective_frames
  | compression_errors
  | decompression_errors

text \<open>The counters by name; \<open>fetch_add\<close> wraps at 64 bits.\<close>

type_synonym CompressionStats = "stat_counter \<Rightarrow> u64"

definition add_compression_stat ::
  "CompressionStats option \<Rightarrow> stat_counter \<Rightarrow> u64 \<Rightarrow> CompressionStats option" where
  "add_compression_stat stats counter value =
     (case stats of None \<Rightarrow> None | Some s \<Rightarrow> Some (s(counter := s counter + value)))"

definition compression_algorithm_name :: "CompressionAlgorithm \<Rightarrow> string" where
  "compression_algorithm_name algorithm =
     (if algorithm = Alg_None then ''none''
      else if algorithm = Alg_RunLength then ''run_length''
      else ''unknown'')"

subsection \<open>Outgoing frames\<close>

definition encode_checked :: "Options \<Rightarrow> FrameParts \<Rightarrow> bytes rpc_result" where
  "encode_checked options frame =
     (let encoded = encodeFrame frame in
      if length encoded < headerSize then Inl (Err (rpc_err InvalidRequest))
      else
        and_then (headerBodySize (take headerSize encoded) (h_codec (fp_header frame))
                    (opt_frame_limits options))
          (\<lambda>body_size. if body_size \<noteq> length encoded - headerSize then Inl (Err (rpc_err InvalidRequest))
                       else Inr encoded))"

definition encode_outgoing_frame ::
  "(bytes \<Rightarrow> CompressionAlgorithm \<Rightarrow> bytes rpc_result) \<Rightarrow> Options \<Rightarrow> PeerSession \<Rightarrow>
    CompressionStats option \<Rightarrow> FrameParts \<Rightarrow> bytes rpc_result \<times> CompressionStats option" where
  "encode_outgoing_frame compressor options session stats frame =
     (if \<not> ps_compression_enabled session \<or> ps_compression_algorithm session = Alg_None
      then (encode_checked options frame, stats)
      else if h_kind (fp_header frame) = Kind_Hello \<or> h_flags (fp_header frame) AND Flag_Compressed \<noteq> 0
      then (encode_checked options frame, stats)
      else if fp_payload frame = [] \<or>
              length (fp_payload frame) < unat (ps_compression_min_payload_size session)
      then (encode_checked options frame, add_compression_stat stats skipped_small_payloads 1)
      else
        let stats = add_compression_stat stats compression_attempts 1;
            stats = add_compression_stat stats compression_input_bytes (of_nat (length (fp_payload frame)))
        in case compressor (fp_payload frame) (ps_compression_algorithm session) of
             Inl e \<Rightarrow> (Inl e, add_compression_stat stats compression_errors 1)
           | Inr compressed \<Rightarrow>
             if length compressed \<ge> length (fp_payload frame)
             then (encode_checked options frame, add_compression_stat stats skipped_ineffective_frames 1)
             else
               let stats = add_compression_stat stats compressed_frames 1;
                   stats = add_compression_stat stats compression_output_bytes (of_nat (length compressed))
               in (encode_checked options
                     (frame\<lparr>fp_header := (fp_header frame)
                              \<lparr>h_flags := h_flags (fp_header frame) OR Flag_Compressed\<rparr>,
                            fp_payload := compressed\<rparr>), stats))"

subsection \<open>Incoming payloads\<close>

definition output_budget :: "Options \<Rightarrow> nat \<Rightarrow> nat" where
  "output_budget options payload_size =
     (let ratio = max (opt_max_compression_ratio options) 1;
          ratio_budget = (if payload_size > size_max div ratio then size_max else payload_size * ratio)
      in min (opt_max_decompressed_payload_bytes options) ratio_budget)"

definition decompress_incoming_payload ::
  "(bytes \<Rightarrow> CompressionAlgorithm \<Rightarrow> nat \<Rightarrow> bytes rpc_result) \<Rightarrow> Options \<Rightarrow> PeerSession \<Rightarrow>
    CompressionStats option \<Rightarrow> FrameParts \<Rightarrow> bytes option rpc_result \<times> CompressionStats option" where
  "decompress_incoming_payload decompressor options session stats parts =
     (if h_flags (fp_header parts) AND Flag_Compressed = 0 then (Inr None, stats)
      else
        let stats = add_compression_stat stats decompression_input_bytes (of_nat (length (fp_payload parts)))
        in if \<not> ps_compression_enabled session \<or> ps_compression_algorithm session = Alg_None \<or>
              h_kind (fp_header parts) = Kind_Hello
           then (Inl (Err (rpc_err InvalidRequest)), add_compression_stat stats decompression_errors 1)
           else case decompressor (fp_payload parts) (ps_compression_algorithm session)
                       (output_budget options (length (fp_payload parts))) of
             Inl e \<Rightarrow> (Inl e, add_compression_stat stats decompression_errors 1)
           | Inr payload \<Rightarrow>
             (Inr (Some payload),
              add_compression_stat (add_compression_stat stats decompressed_frames 1)
                decompression_output_bytes (of_nat (length payload))))"

text \<open>The payload the receiver goes on with.\<close>

definition payload_view :: "FrameParts \<Rightarrow> bytes option \<Rightarrow> bytes" where
  "payload_view parts decompressed = (case decompressed of None \<Rightarrow> fp_payload parts | Some p \<Rightarrow> p)"

subsection \<open>Compression is transparent\<close>

lemma encode_checked_Inr_iff:
  "encode_checked options f = Inr msg \<longleftrightarrow>
    sendable f \<and> knownKind (h_kind (fp_header f)) \<and> within_limits (opt_frame_limits options) f \<and>
    msg = encodeFrame f"
proof (cases "sendable f")
  case True
  have "encode_checked options f = Inr msg \<longleftrightarrow>
      headerBodySize (take headerSize (encodeFrame f)) (h_codec (fp_header f)) (opt_frame_limits options) =
        Inr (length (encodeFrame f) - headerSize) \<and> msg = encodeFrame f"
    by (auto simp: encode_checked_def Let_def and_then_Inr_iff length_encodeFrame [OF True] split: if_splits)
  then show ?thesis
    unfolding headerBodySize_encodeFrame [OF True] using True by auto
next
  case False
  then show ?thesis
    by (simp add: encode_checked_def encodeFrame_eq)
qed

lemma in_bounds_encode_checked [fault_free]: "in_bounds (encode_checked options f)"
  unfolding encode_checked_def Let_def by (auto intro!: fault_free in_bounds_headerBodySize)

text \<open>A frame the receiver's parser will take.\<close>

definition well_formed_frame :: "FrameParts \<Rightarrow> bool" where
  "well_formed_frame f \<longleftrightarrow> std_map_ok (fp_extensions f) \<and> extensions_supported (fp_extensions f)"

lemma parse_encode_checked:
  assumes "encode_checked options f = Inr msg" "well_formed_frame f"
  shows "parseFrame msg (h_codec (fp_header f)) = Inr (f\<lparr>fp_header := stamped f\<rparr>)"
  using assms parse_frame_parts_encode [of f]
  by (simp add: encode_checked_Inr_iff well_formed_frame_def parseFrame_def)

lemma word_or_and_absorb: "(w OR m) AND m = (m :: 'a::len word)"
  by (rule bit_eqI) (auto simp: bit_simps)

lemma word_and_disjoint:
  fixes m k :: "'a::len word"
  assumes "m AND k = 0"
  shows "(x OR k) AND m = x AND m" and "(x AND NOT k) AND m = x AND m"
proof -
  have d: "\<not> (bit m n \<and> bit k n)" for n
    using assms by (metis bit_0_eq bit_and_iff bot_apply bot_bool_def)
  show "(x OR k) AND m = x AND m" "(x AND NOT k) AND m = x AND m"
    using d by (auto intro!: bit_eqI simp: bit_simps dest: bit_imp_le_length)
qed

lemma flag_compressed_or: "(w OR Flag_Compressed) AND Flag_Compressed \<noteq> 0"
  by (simp only: word_or_and_absorb) (simp add: Flag_Compressed_def)

lemma stamped_flags:
  "m AND Flag_HasExtensions = 0 \<Longrightarrow> h_flags (stamped f) AND m = h_flags (fp_header f) AND m"
  by (simp add: stamped_def word_and_disjoint)

lemma flags_nonzero [simp]: "Flag_Compressed \<noteq> 0" "Flag_MethodId \<noteq> 0" "Flag_Error \<noteq> 0"
  by (simp_all add: flag_defs)

lemma flags_disjoint [simp]:
  "Flag_Compressed AND Flag_HasExtensions = 0" "Flag_Error AND Flag_HasExtensions = 0"
  "Flag_MethodId AND Flag_HasExtensions = 0" "Flag_Error AND Flag_Compressed = 0"
  "Flag_MethodId AND Flag_Compressed = 0" "Flag_MethodId AND Flag_Error = 0"
  "Flag_Compressed AND Flag_MethodId = 0" "Flag_Error AND Flag_MethodId = 0"
  "Flag_Compressed AND Flag_Error = 0"
  by (simp_all add: flag_defs)

lemma size_max_budget:
  assumes "length p \<le> ratio * n" "length p \<le> size_max" "ratio \<le> opt_max_compression_ratio options"
    and "length p \<le> opt_max_decompressed_payload_bytes options"
  shows "length p \<le> output_budget options n"
proof -
  have "ratio * n \<le> n * max (opt_max_compression_ratio options) 1"
    using assms(3) by (simp add: mult.commute [of n] le_max_iff_disj)
  with assms(1) have "length p \<le> n * max (opt_max_compression_ratio options) 1"
    by (rule le_trans)
  with assms(2,4) show ?thesis
    by (auto simp: output_budget_def Let_def simp del: One_nat_def)
qed

text \<open>Both ends use the same algorithm, and the receiver accepts what the payload expands to.\<close>

definition compression_agrees :: "nat \<Rightarrow> Options \<Rightarrow> PeerSession \<Rightarrow> PeerSession \<Rightarrow> bool" where
  "compression_agrees ratio options sender receiver \<longleftrightarrow>
     (ps_compression_enabled sender \<and> ps_compression_algorithm sender \<noteq> Alg_None \<longrightarrow>
        ps_compression_enabled receiver \<and> ps_compression_algorithm receiver = ps_compression_algorithm sender) \<and>
     ratio \<le> opt_max_compression_ratio options"

context payload_compression
begin

lemma encode_outgoing_cases:
  assumes e: "encode_outgoing_frame comp options session stats f = (Inr msg, stats')"
    and flags: "h_flags (fp_header f) AND Flag_Compressed = 0"
  obtains (plain) "encode_checked options f = Inr msg"
  | (compressed) c where "ps_compression_enabled session" "ps_compression_algorithm session \<noteq> Alg_None"
      "h_kind (fp_header f) \<noteq> Kind_Hello"
      "comp (fp_payload f) (ps_compression_algorithm session) = Inr c"
      "encode_checked options (f\<lparr>fp_header := (fp_header f)\<lparr>h_flags := h_flags (fp_header f) OR Flag_Compressed\<rparr>,
         fp_payload := c\<rparr>) = Inr msg"
  using e flags
  by (auto simp: encode_outgoing_frame_def Let_def split: if_splits sum.splits)

lemma transparent:
  assumes e: "encode_outgoing_frame comp options sender stats f = (Inr msg, stats')"
    and f: "well_formed_frame f" "h_flags (fp_header f) AND Flag_Compressed = 0"
    and agree: "compression_agrees ratio roptions sender receiver"
    and safe: "safe (ps_compression_algorithm sender) (fp_payload f)"
    and bound: "length (fp_payload f) \<le> size_max"
      "length (fp_payload f) \<le> opt_max_decompressed_payload_bytes roptions"
  obtains parts d rstats' where "parseFrame msg (h_codec (fp_header f)) = Inr parts"
    "decompress_incoming_payload decomp roptions receiver rstats parts = (Inr d, rstats')"
    "payload_view parts d = fp_payload f" "fp_method parts = fp_method f"
    "fp_extensions parts = fp_extensions f" "h_id (fp_header parts) = h_id (fp_header f)"
    "h_kind (fp_header parts) = h_kind (fp_header f)" "h_codec (fp_header parts) = h_codec (fp_header f)"
    "\<And>m. m AND Flag_Compressed = 0 \<Longrightarrow> m AND Flag_HasExtensions = 0 \<Longrightarrow>
      h_flags (fp_header parts) AND m = h_flags (fp_header f) AND m"
  using e f(2)
proof (cases rule: encode_outgoing_cases)
  case plain
  let ?p = "f\<lparr>fp_header := stamped f\<rparr>"
  have "decompress_incoming_payload decomp roptions receiver rstats ?p = (Inr None, rstats)"
    using f(2) by (simp add: decompress_incoming_payload_def stamped_flags)
  with parse_encode_checked [OF plain f(1)] show thesis
    by (rule that) (simp_all add: payload_view_def stamped_flags)
next
  case (compressed c)
  let ?a = "ps_compression_algorithm sender"
  let ?f = "f\<lparr>fp_header := (fp_header f)\<lparr>h_flags := h_flags (fp_header f) OR Flag_Compressed\<rparr>, fp_payload := c\<rparr>"
  let ?p = "?f\<lparr>fp_header := stamped ?f\<rparr>"
  have ag: "ps_compression_enabled receiver" "ps_compression_algorithm receiver = ?a"
    "ratio \<le> opt_max_compression_ratio roptions"
    using agree compressed(1,2) by (auto simp: compression_agrees_def)
  have "length (fp_payload f) \<le> ratio * length c"
    using decomp_comp [OF safe compressed(4) order_refl] by (rule decomp_ratio)
  then have "length (fp_payload f) \<le> output_budget roptions (length c)"
    using bound ag(3) by (intro size_max_budget)
  then have d: "decomp c ?a (output_budget roptions (length c)) = Inr (fp_payload f)"
    by (rule decomp_comp [OF safe compressed(4)])
  have fl: "h_flags (stamped ?f) AND Flag_Compressed \<noteq> 0"
    by (simp add: stamped_flags flag_compressed_or)
  have "\<exists>rs. decompress_incoming_payload decomp roptions receiver rstats ?p = (Inr (Some (fp_payload f)), rs)"
    using fl d ag(1,2) compressed(2,3) by (simp add: decompress_incoming_payload_def Let_def)
  then obtain rs where rs:
    "decompress_incoming_payload decomp roptions receiver rstats ?p = (Inr (Some (fp_payload f)), rs)" ..
  have "well_formed_frame ?f"
    using f(1) by (simp add: well_formed_frame_def)
  from parse_encode_checked [OF compressed(5) this]
  have "parseFrame msg (h_codec (fp_header f)) = Inr ?p"
    by simp
  from this rs show thesis
    by (rule that) (simp_all add: payload_view_def stamped_flags word_and_disjoint)
qed

end

end
