(* ===== verification/Rpc_Backend.thy ===== *)
theory Rpc_Backend
  imports Rpc_Session
begin

unbundle bit_operations_syntax

text \<open>
  \<open>NekoRpcBackend\<close> (\<open>rpc/backend.hpp\<close>) with the default compression codec: the frames a server
  decodes and answers, the requests a client encodes and the responses it decodes, the Hello
  exchange with its negotiation, and the recovery of a call after a method-id error. The payload
  serializer is a template parameter of the backend: \<open>_encodePayload\<close> and \<open>_decodePayload\<close> of a
  value appear as the bytes or the value they give, those of \<open>NekoRpcError\<close> are fields of
  \<open>payload_env\<close>, next to the values and messages of the error codes of other libraries.
\<close>

record NekoRpcError =
  ne_code :: int
  ne_message :: string
  ne_data :: bytes

record payload_env =
  env_codec :: u8
  env_encode_error :: "NekoRpcError \<Rightarrow> bytes option"
  env_decode_error :: "bytes \<Rightarrow> NekoRpcError option"
  env_error_value :: "error_code \<Rightarrow> int"
  env_error_message :: "error_code \<Rightarrow> string"

definition error_value :: "payload_env \<Rightarrow> error_code \<Rightarrow> int" where
  "error_value env e = (case e of Rpc_Code v \<Rightarrow> v | _ \<Rightarrow> env_error_value env e)"

definition error_message :: "payload_env \<Rightarrow> error_code \<Rightarrow> string" where
  "error_message env e = (case e of Rpc_Code v \<Rightarrow> rpc_error_message v | _ \<Rightarrow> env_error_message env e)"

type_synonym ExtensionStore = extension_map

record ResponseValue =
  rv_header :: Header
  rv_method :: bytes
  rv_extensions :: ExtensionStore
  rv_payload :: bytes

record DecodeResult =
  dres_ok :: bool
  dres_batch :: bool
  dres_requests :: "DecodedRequest list"
  dres_responses :: "ResponseValue list"

definition empty_result :: DecodeResult where
  "empty_result = \<lparr>dres_ok = False, dres_batch = False, dres_requests = [], dres_responses = []\<rparr>"

record EncodedRequest =
  er_message :: bytes
  er_id :: u64

record ClientContext =
  cc_options :: Options
  cc_stats :: "CompressionStats option"
  cc_next_id :: u64

record ServerContext =
  sc_options :: Options
  sc_stats :: "CompressionStats option"
  sc_method_table :: method_table

subsection \<open>Contexts and sessions\<close>

definition makeClientContext :: "Options \<Rightarrow> CompressionStats option \<Rightarrow> ClientContext" where
  "makeClientContext options stats = \<lparr>cc_options = options, cc_stats = stats, cc_next_id = 0\<rparr>"

definition makeServerContext ::
  "Options \<Rightarrow> CompressionStats option \<Rightarrow> RpcMethodMetadata list \<Rightarrow> ServerContext" where
  "makeServerContext options stats methods =
     \<lparr>sc_options = options, sc_stats = stats,
      sc_method_table = table_reset_entries (new_table (opt_max_method_entries options))
        (NekoRpcMethodEntries methods) 1\<rparr>"

definition makeClientPeerSession :: "ClientContext \<Rightarrow> PeerSession" where
  "makeClientPeerSession context =
     (new_session (opt_max_method_entries (cc_options context)))
       \<lparr>ps_compression_min_payload_size := opt_compression_min_payload_size (cc_options context)\<rparr>"

definition makeServerPeerSession :: "ServerContext \<Rightarrow> PeerSession" where
  "makeServerPeerSession context =
     (new_session (opt_max_method_entries (sc_options context)))
       \<lparr>ps_compression_min_payload_size := opt_compression_min_payload_size (sc_options context)\<rparr>"

definition validateFrameSize :: "payload_env \<Rightarrow> bytes \<Rightarrow> NekoRpcFrameLimits \<Rightarrow> unit rpc_result" where
  "validateFrameSize env frame limits =
     (if length frame < headerSize then Inl (Err (rpc_err InvalidRequest))
      else
        and_then (headerBodySize (take headerSize frame) (env_codec env) limits)
          (\<lambda>body_size. if body_size \<noteq> length frame - headerSize then Inl (Err (rpc_err InvalidRequest))
                       else Inr ()))"

definition validFrameSize :: "payload_env \<Rightarrow> bytes \<Rightarrow> NekoRpcFrameLimits \<Rightarrow> bool" where
  "validFrameSize env frame limits \<longleftrightarrow> validateFrameSize env frame limits = Inr ()"

definition refreshMethodCatalog ::
  "ServerContext \<Rightarrow> RpcMethodMetadata list \<Rightarrow> (unit, ServerContext) checked" where
  "refreshMethodCatalog context methods =
     and_then (NekoRpcSyncMethodTable (sc_method_table context) (NekoRpcMethodEntries methods))
       (\<lambda>(table, delta). Inr (context\<lparr>sc_method_table := table\<rparr>))"

subsection \<open>Responses\<close>

definition extensionViews :: "ExtensionStore \<Rightarrow> extension_map" where
  "extensionViews extensions = foldl (\<lambda>views e. emplace (fst e) (snd e) views) [] extensions"

definition makeResponse :: "payload_env \<Rightarrow> u64 \<Rightarrow> bytes \<Rightarrow> u8 \<Rightarrow> ExtensionStore \<Rightarrow> ResponseValue" where
  "makeResponse env rid payload flags extensions =
     \<lparr>rv_header = default_header\<lparr>h_kind := Kind_Response, h_flags := flags, h_codec := env_codec env,
                                h_id := rid\<rparr>,
      rv_method = [], rv_extensions = extensions, rv_payload = payload\<rparr>"

definition makeErrorResponse ::
  "payload_env \<Rightarrow> u64 \<Rightarrow> error_code \<Rightarrow> ExtensionStore \<Rightarrow> ResponseValue" where
  "makeErrorResponse env rid error extensions =
     (case env_encode_error env \<lparr>ne_code = error_value env error, ne_message = error_message env error,
             ne_data = []\<rparr> of
        None \<Rightarrow> makeResponse env rid [] Flag_Error extensions
      | Some payload \<Rightarrow> makeResponse env rid payload Flag_Error extensions)"

definition response_frame :: "ResponseValue \<Rightarrow> FrameParts" where
  "response_frame response =
     \<lparr>fp_header = rv_header response, fp_method = rv_method response,
      fp_extensions = extensionViews (rv_extensions response), fp_payload = rv_payload response\<rparr>"

definition encodeResponseFrame :: "ResponseValue \<Rightarrow> bytes" where
  "encodeResponseFrame response = encodeFrame (response_frame response)"

definition encodeResponseFrameFor ::
  "Options \<Rightarrow> PeerSession \<Rightarrow> CompressionStats option \<Rightarrow> ResponseValue \<Rightarrow>
    bytes rpc_result \<times> CompressionStats option" where
  "encodeResponseFrameFor options session stats response =
     encode_outgoing_frame compress options session stats (response_frame response)"

definition appendFrameError ::
  "payload_env \<Rightarrow> ResponseValue list \<Rightarrow> FrameParts \<Rightarrow> error_code \<Rightarrow> ExtensionStore \<Rightarrow> ResponseValue list" where
  "appendFrameError env responses parts error extensions =
     (if h_kind (fp_header parts) = Kind_Request
      then responses @ [makeErrorResponse env (h_id (fp_header parts)) error extensions]
      else responses)"

text \<open>\<open>result\<close> is the method's error or the payload serialisation of its return value.\<close>

definition appendMethodReturn ::
  "payload_env \<Rightarrow> ResponseValue list \<Rightarrow> DecodedRequest \<Rightarrow> error_code + bytes option \<Rightarrow> ResponseValue list" where
  "appendMethodReturn env responses request result =
     (if \<not> expectsResponse request then responses
      else case result of
        Inl e \<Rightarrow> responses @ [makeErrorResponse env (h_id (dr_header request)) e []]
      | Inr (Some payload) \<Rightarrow> responses @ [makeResponse env (h_id (dr_header request)) payload 0 []]
      | Inr None \<Rightarrow> responses @ [makeErrorResponse env (h_id (dr_header request)) (rpc_err InternalError) []])"

definition appendError ::
  "payload_env \<Rightarrow> ResponseValue list \<Rightarrow> DecodedRequest \<Rightarrow> error_code \<Rightarrow> ResponseValue list" where
  "appendError env responses request error =
     (if expectsResponse request
      then responses @ [makeErrorResponse env (h_id (dr_header request)) error []] else responses)"

text \<open>Both overloads of \<open>encodeResponses\<close>; the second falls back to the uncompressed frame.\<close>

definition encodeResponses :: "payload_env \<Rightarrow> ResponseValue list \<Rightarrow> bytes" where
  "encodeResponses env responses =
     codec_encodeResponses
       (filter (\<lambda>frame. validFrameSize env frame default_limits) (map encodeResponseFrame responses))"

fun encode_responses_loop ::
  "payload_env \<Rightarrow> Options \<Rightarrow> PeerSession \<Rightarrow> ResponseValue list \<Rightarrow> CompressionStats option \<Rightarrow> bytes list \<Rightarrow>
    bytes list \<times> CompressionStats option" where
  "encode_responses_loop env options session [] stats frames = (frames, stats)"
| "encode_responses_loop env options session (response # responses) stats frames =
     (case encodeResponseFrameFor options session stats response of
        (Inr encoded, stats) \<Rightarrow> encode_responses_loop env options session responses stats (frames @ [encoded])
      | (Inl _, stats) \<Rightarrow>
        let fallback = encodeResponseFrame response in
        encode_responses_loop env options session responses stats
          (if validFrameSize env fallback (opt_frame_limits options) then frames @ [fallback] else frames))"

definition encodeResponsesFor ::
  "payload_env \<Rightarrow> ServerContext \<Rightarrow> PeerSession \<Rightarrow> ResponseValue list \<Rightarrow> bytes \<times> ServerContext" where
  "encodeResponsesFor env context session responses =
     (let (frames, stats) = encode_responses_loop env (sc_options context) session responses
            (sc_stats context) []
      in (codec_encodeResponses frames, context\<lparr>sc_stats := stats\<rparr>))"

subsection \<open>Method-id metadata in frames\<close>

definition isMethodIdError :: "error_code \<Rightarrow> bool" where
  "isMethodIdError error =
     (case error of Rpc_Code v \<Rightarrow> v = 8 \<or> v = 9 \<or> v = 10 \<or> v = 11 \<or> v = 12 | _ \<Rightarrow> False)"

fun extension_wire_size_loop :: "ExtensionStore \<Rightarrow> nat \<Rightarrow> nat option" where
  "extension_wire_size_loop [] wire_size = Some wire_size"
| "extension_wire_size_loop ((type, value) # extensions) wire_size =
     (if length value > 65535 \<or> wire_size > MaxExtensionBytes - 4 \<or> wire_size + 4 > MaxExtensionBytes - length value
      then None
      else extension_wire_size_loop extensions (wire_size + (4 + length value)))"

definition extensionWireSize :: "ExtensionStore \<Rightarrow> nat option" where
  "extensionWireSize extensions = extension_wire_size_loop extensions 0"

definition extensionsFitAutoBudget :: "Options \<Rightarrow> ExtensionStore \<Rightarrow> bool" where
  "extensionsFitAutoBudget options extensions =
     (case extensionWireSize extensions of
        None \<Rightarrow> False
      | Some wire_size \<Rightarrow> wire_size \<le> min (opt_max_auto_method_table_extension_bytes options) MaxExtensionBytes)"

definition methodIdTableExtensions :: "ServerContext \<Rightarrow> bool \<Rightarrow> ExtensionStore" where
  "methodIdTableExtensions context include_table =
     (let table = sc_method_table context;
          extensions = insert_or_assign Ext_MethodId [] [];
          extensions = insert_or_assign Ext_MethodTableVersion (integerValue (mVersion table)) extensions;
          extensions = insert_or_assign Ext_MethodMinimumCompatibleVersion
            (integerValue (mMinimumCompatibleVersion table)) extensions
      in if include_table
         then insert_or_assign Ext_MethodTable (methodTableValue (mEntries table)) extensions
         else extensions)"

definition methodIdErrorResponseExtensions ::
  "ServerContext \<Rightarrow> PeerSession \<Rightarrow> error_code \<Rightarrow> ExtensionStore" where
  "methodIdErrorResponseExtensions context session error =
     (if \<not> ps_method_id_enabled session \<or> \<not> isMethodIdError error \<or>
         mEntries (sc_method_table context) = [] \<or>
         opt_max_auto_method_table_extension_bytes (sc_options context) = 0
      then []
      else
        let extensions = methodIdTableExtensions context True in
        if extensionsFitAutoBudget (sc_options context) extensions then extensions
        else
          let hint = methodIdTableExtensions context False in
          if extensionsFitAutoBudget (sc_options context) hint then hint else [])"

text \<open>\<open>map::insert\<close> of a range: existing keys stay.\<close>

definition insert_range :: "ExtensionStore \<Rightarrow> ExtensionStore \<Rightarrow> ExtensionStore" where
  "insert_range extensions entries = foldl (\<lambda>m e. emplace (fst e) (snd e) m) extensions entries"

definition appendMethodIdHelloExtensions :: "ServerContext \<Rightarrow> ExtensionStore \<Rightarrow> ExtensionStore" where
  "appendMethodIdHelloExtensions context extensions =
     (let table = methodIdTableExtensions context True in
      if extensionsFitAutoBudget (sc_options context) table then insert_range extensions table
      else
        let hint = methodIdTableExtensions context False in
        if extensionsFitAutoBudget (sc_options context) hint then insert_range extensions hint
        else extensions)"

definition applyMethodIdTableExtensions ::
  "PeerSession \<Rightarrow> extension_map \<Rightarrow> (unit, bool \<times> PeerSession) checked" where
  "applyMethodIdTableExtensions session extensions =
     (if \<not> contains extensions Ext_MethodTable \<and> \<not> contains extensions Ext_MethodTableDelta
      then Inr (False, session)
      else
        and_then (readIntegerTlv extensions Ext_MethodTableVersion) (\<lambda>version_tlv.
        case version_tlv of
          None \<Rightarrow> Inr (False, session)
        | Some version \<Rightarrow>
          let table = ps_remote_method_table session;
              applied =
                (case parseMethodTable extensions of
                   Inl Out_Of_Bounds \<Rightarrow> Inl Out_Of_Bounds
                 | Inr entries \<Rightarrow> Inr (applyRemoteTable table entries version)
                 | Inl (Err _) \<Rightarrow>
                   (case parseMethodTableDelta extensions of
                      Inl Out_Of_Bounds \<Rightarrow> Inl Out_Of_Bounds
                    | Inr entries \<Rightarrow> Inr (applyRemoteDelta table entries version)
                    | Inl (Err _) \<Rightarrow> Inr None))
          in and_then applied (\<lambda>applied.
             case applied of
               None \<Rightarrow> Inr (False, session)
             | Some table \<Rightarrow>
               and_then (readIntegerTlv extensions Ext_MethodMinimumCompatibleVersion) (\<lambda>minimum_tlv.
                 let table = (case minimum_tlv of None \<Rightarrow> table
                              | Some minimum_version \<Rightarrow> setMinimumCompatibleVersion table minimum_version)
                 in Inr (True, session\<lparr>ps_remote_method_table := table, ps_method_id_enabled := True\<rparr>)))))"

subsection \<open>The server decodes a frame\<close>

text \<open>What \<open>decodeIncoming\<close> does once the payload is known.\<close>

definition decode_request_frame ::
  "payload_env \<Rightarrow> ServerContext \<Rightarrow> PeerSession \<Rightarrow> FrameParts \<Rightarrow> bytes option \<Rightarrow> (unit, DecodeResult) checked"
where
  "decode_request_frame env context session parts decompressed =
     (if h_kind (fp_header parts) = Kind_Cancel \<or> h_kind (fp_header parts) = Kind_Hello
      then Inr (empty_result\<lparr>dres_ok := True\<rparr>)
      else if h_kind (fp_header parts) \<noteq> Kind_Request \<and> h_kind (fp_header parts) \<noteq> Kind_Notify
      then Inr empty_result
      else if h_flags (fp_header parts) AND Flag_Error \<noteq> 0 then Inr empty_result
      else
        (case NekoRpcIncomingMethodName (sc_method_table context) (ps_method_id_enabled session) parts of
           Inl Out_Of_Bounds \<Rightarrow> Inl Out_Of_Bounds
         | Inl (Err e) \<Rightarrow>
           Inr (empty_result\<lparr>dres_ok := True,
                  dres_responses := appendFrameError env [] parts e
                    (methodIdErrorResponseExtensions context session e)\<rparr>)
         | Inr method_name \<Rightarrow>
           if method_name = [] then Inr empty_result
           else
             let header = fp_header parts;
                 header = header\<lparr>h_flags := h_flags header AND NOT Flag_Compressed\<rparr>;
                 header = header\<lparr>h_flags := h_flags header AND NOT Flag_MethodId\<rparr>
             in Inr (empty_result\<lparr>dres_ok := True,
                  dres_requests := [\<lparr>dr_header = header, dr_method = method_name,
                                     dr_payload = payload_view parts decompressed\<rparr>]\<rparr>)))"

definition decodeIncoming ::
  "payload_env \<Rightarrow> ServerContext \<Rightarrow> PeerSession \<Rightarrow> bytes \<Rightarrow>
    (unit, DecodeResult) checked \<times> ServerContext" where
  "decodeIncoming env context session message =
     (if \<not> validFrameSize env message (opt_frame_limits (sc_options context))
      then (Inr empty_result, context)
      else case parseFrame message (env_codec env) of
        Inl Out_Of_Bounds \<Rightarrow> (Inl Out_Of_Bounds, context)
      | Inl (Err _) \<Rightarrow> (Inr empty_result, context)
      | Inr parts \<Rightarrow>
        let (decompressed, stats) =
              decompress_incoming_payload decompress (sc_options context) session (sc_stats context) parts;
            context = context\<lparr>sc_stats := stats\<rparr>
        in (case decompressed of
              Inl Out_Of_Bounds \<Rightarrow> (Inl Out_Of_Bounds, context)
            | Inl (Err e) \<Rightarrow>
              (Inr (empty_result\<lparr>dres_ok := True, dres_responses := appendFrameError env [] parts e []\<rparr>), context)
            | Inr d \<Rightarrow> (decode_request_frame env context session parts d, context)))"

text \<open>\<open>params\<close> is what \<open>_decodePayload\<close> made of the payload.\<close>

definition decodeParams :: "'p option \<Rightarrow> 'p rpc_result" where
  "decodeParams params = (case params of None \<Rightarrow> Inl (Err (rpc_err InvalidParams)) | Some p \<Rightarrow> Inr p)"

subsection \<open>The client encodes a request and decodes its response\<close>

definition next_request_id :: "ClientContext \<Rightarrow> u64" where
  "next_request_id context = (if cc_next_id context = - 1 then 1 else cc_next_id context + 1)"

definition request_frame ::
  "payload_env \<Rightarrow> PeerSession \<Rightarrow> string \<Rightarrow> bool \<Rightarrow> u64 \<Rightarrow> bytes \<Rightarrow> FrameParts" where
  "request_frame env session method_name notification rid payload =
     (let header = default_header\<lparr>h_kind := (if notification then Kind_Notify else Kind_Request),
                                  h_codec := env_codec env, h_id := rid\<rparr>;
          entry = (if ps_method_id_enabled session
                   then findByName (ps_remote_method_table session) method_name else None);
          (header, method_bytes, extensions) =
            (case entry of
               None \<Rightarrow> (header, [], [])
             | Some entry \<Rightarrow>
               (header\<lparr>h_flags := h_flags header OR Flag_MethodId\<rparr>,
                appendInteger [] (me_id entry),
                insert_or_assign Ext_MethodSignatureHash (integerValue (me_signature_hash entry))
                  (insert_or_assign Ext_MethodTableVersion
                     (integerValue (mVersion (ps_remote_method_table session))) [])));
          method_bytes = (if method_bytes = [] then bytes_of_chars method_name else method_bytes)
      in \<lparr>fp_header = header, fp_method = method_bytes, fp_extensions = extensionViews extensions,
          fp_payload = payload\<rparr>)"

definition encodeRequest ::
  "payload_env \<Rightarrow> ClientContext \<Rightarrow> PeerSession \<Rightarrow> string \<Rightarrow> bool \<Rightarrow> bytes option \<Rightarrow>
    EncodedRequest rpc_result \<times> ClientContext" where
  "encodeRequest env context session method_name notification params =
     (case params of
        None \<Rightarrow> (Inl (Err (rpc_err InvalidParams)), context)
      | Some payload \<Rightarrow>
        let rid = (if notification then 0 else next_request_id context);
            context = (if notification then context else context\<lparr>cc_next_id := rid\<rparr>);
            (frame, stats) = encode_outgoing_frame compress (cc_options context) session (cc_stats context)
              (request_frame env session method_name notification rid payload)
        in (and_then frame (\<lambda>message. Inr \<lparr>er_message = message, er_id = rid\<rparr>),
            context\<lparr>cc_stats := stats\<rparr>))"

definition response_error ::
  "payload_env \<Rightarrow> PeerSession \<Rightarrow> FrameParts \<Rightarrow> bytes \<Rightarrow> error_code rpc_result \<times> PeerSession" where
  "response_error env session parts payload =
     (case env_decode_error env payload of
        None \<Rightarrow> (Inr (rpc_err InternalError), session)
      | Some error \<Rightarrow>
        let ec = Rpc_Code (ne_code error) in
        if isMethodIdError ec then
          (case applyMethodIdTableExtensions session (fp_extensions parts) of
             Inl _ \<Rightarrow> (Inl Out_Of_Bounds, session)
           | Inr (updated, session) \<Rightarrow>
             (Inr ec,
              if updated then session
              else session\<lparr>ps_method_id_enabled := False,
                           ps_remote_method_table := table_reset (ps_remote_method_table session)\<rparr>))
        else (Inr ec, session))"

definition decode_response_frame ::
  "payload_env \<Rightarrow> (bytes \<Rightarrow> 'r option) \<Rightarrow> PeerSession \<Rightarrow> FrameParts \<Rightarrow> bytes \<Rightarrow> u64 \<Rightarrow>
    'r rpc_result \<times> PeerSession" where
  "decode_response_frame env dec session parts payload expected_id =
     (if h_kind (fp_header parts) \<noteq> Kind_Response \<or> h_codec (fp_header parts) \<noteq> env_codec env
      then (Inl (Err (rpc_err InvalidRequest)), session)
      else if h_id (fp_header parts) \<noteq> expected_id
      then (Inl (Err (rpc_err ResponseIdNotMatch)), session)
      else if h_flags (fp_header parts) AND Flag_Error \<noteq> 0
      then
        (case response_error env session parts payload of
           (Inr ec, session) \<Rightarrow> (Inl (Err ec), session)
         | (Inl e, session) \<Rightarrow> (Inl e, session))
      else
        (case dec payload of
           None \<Rightarrow> (Inl (Err (rpc_err InvalidParams)), session)
         | Some v \<Rightarrow> (Inr v, session)))"

definition decodeResponse ::
  "payload_env \<Rightarrow> (bytes \<Rightarrow> 'r option) \<Rightarrow> ClientContext \<Rightarrow> PeerSession \<Rightarrow> bytes \<Rightarrow> u64 \<Rightarrow>
    'r rpc_result \<times> ClientContext \<times> PeerSession" where
  "decodeResponse env dec context session buffer expected_id =
     (case validateFrameSize env buffer (opt_frame_limits (cc_options context)) of
        Inl e \<Rightarrow> (Inl e, context, session)
      | Inr _ \<Rightarrow>
        (case parseFrame buffer (env_codec env) of
           Inl Out_Of_Bounds \<Rightarrow> (Inl Out_Of_Bounds, context, session)
         | Inl (Err _) \<Rightarrow> (Inl (Err (rpc_err InvalidRequest)), context, session)
         | Inr parts \<Rightarrow>
           let (decompressed, stats) =
                 decompress_incoming_payload decompress (cc_options context) session (cc_stats context) parts;
               context = context\<lparr>cc_stats := stats\<rparr>
           in (case decompressed of
                 Inl e \<Rightarrow> (Inl e, context, session)
               | Inr d \<Rightarrow>
                 let (r, session) = decode_response_frame env dec session parts (payload_view parts d) expected_id
                 in (r, context, session))))"

text \<open>\<open>recoverClientCall\<close> decides whether a failed call is sent once more.\<close>

definition recoverClientCall ::
  "ClientContext \<Rightarrow> PeerSession \<Rightarrow> error_code \<Rightarrow> nat \<Rightarrow> bool \<times> PeerSession" where
  "recoverClientCall context session error retry_count =
     (if \<not> opt_retry_method_id_error_once (cc_options context) \<or> retry_count \<noteq> 0 \<or>
         \<not> feature_enabled (opt_method_id (cc_options context)) \<or> \<not> isMethodIdError error
      then (False, session)
      else if \<not> ps_method_id_enabled session \<or> mEntries (ps_remote_method_table session) = []
      then
        if opt_method_id (cc_options context) = Mode_Require then (False, session)
        else (True, session\<lparr>ps_method_id_enabled := False, ps_handshake_done := True\<rparr>)
      else (True, session))"

subsection \<open>Control frames\<close>

definition encodeCancel :: "payload_env \<Rightarrow> u64 \<Rightarrow> bytes" where
  "encodeCancel env rid =
     encodeFrame \<lparr>fp_header = default_header\<lparr>h_kind := Kind_Cancel, h_codec := env_codec env, h_id := rid\<rparr>,
                  fp_method = [], fp_extensions = [], fp_payload = []\<rparr>"

definition cancelId :: "payload_env \<Rightarrow> bytes \<Rightarrow> (unit, u64 option) checked" where
  "cancelId env message =
     (case parseFrame message (env_codec env) of
        Inl Out_Of_Bounds \<Rightarrow> Inl Out_Of_Bounds
      | Inl (Err _) \<Rightarrow> Inr None
      | Inr parts \<Rightarrow>
        if h_kind (fp_header parts) \<noteq> Kind_Cancel \<or> fp_method parts \<noteq> [] \<or> fp_extensions parts \<noteq> [] \<or>
           fp_payload parts \<noteq> []
        then Inr None else Inr (Some (h_id (fp_header parts))))"

definition responseId :: "payload_env \<Rightarrow> bytes \<Rightarrow> (unit, u64 option) checked" where
  "responseId env message =
     (case parseFrame message (env_codec env) of
        Inl Out_Of_Bounds \<Rightarrow> Inl Out_Of_Bounds
      | Inl (Err _) \<Rightarrow> Inr None
      | Inr parts \<Rightarrow>
        if h_kind (fp_header parts) \<noteq> Kind_Response then Inr None else Inr (Some (h_id (fp_header parts))))"

definition backend_encodeHello :: "payload_env \<Rightarrow> ExtensionStore \<Rightarrow> bytes" where
  "backend_encodeHello env extensions = encodeHello (extensionViews extensions) (env_codec env)"

definition isHello :: "payload_env \<Rightarrow> bytes \<Rightarrow> bool" where
  "isHello env frame \<longleftrightarrow>
     (case parseFrame frame (env_codec env) of
        Inl _ \<Rightarrow> False | Inr parts \<Rightarrow> h_kind (fp_header parts) = Kind_Hello)"

definition handleClientHello ::
  "payload_env \<Rightarrow> ServerContext \<Rightarrow> PeerSession \<Rightarrow> bytes \<Rightarrow> bytes rpc_result \<times> PeerSession" where
  "handleClientHello env context session frame =
     (case parseFrame frame (env_codec env) of
        Inl Out_Of_Bounds \<Rightarrow> (Inl Out_Of_Bounds, session)
      | Inl (Err _) \<Rightarrow> (Inl (Err (rpc_err InvalidRequest)), session)
      | Inr parts \<Rightarrow>
        (case and_then (readIntegerTlv (fp_extensions parts) Ext_CompressionAlgorithm) (\<lambda>algorithm :: u8 option.
              and_then (readIntegerTlv (fp_extensions parts) Ext_CompressionMinPayloadSize) (\<lambda>min_size :: u32 option.
                Inr (algorithm, min_size))) of
           Inl e \<Rightarrow> (Inl e, session)
         | Inr (algorithm_tlv, min_size_tlv) \<Rightarrow>
           let client_supports_method_id = contains (fp_extensions parts) Ext_MethodId;
               client_compression_algorithm = (case algorithm_tlv of None \<Rightarrow> Alg_None | Some a \<Rightarrow> a);
               has_client_compression_algorithm = algorithm_tlv \<noteq> None;
               client_min_payload_size = (case min_size_tlv of None \<Rightarrow> 0 | Some n \<Rightarrow> n);
               client_supports_compression =
                 contains (fp_extensions parts) Ext_Compression \<and> has_client_compression_algorithm \<and>
                 client_compression_algorithm \<noteq> Alg_None \<and> supports client_compression_algorithm;
               session = session\<lparr>ps_method_id_enabled :=
                 feature_enabled (opt_method_id (sc_options context)) \<and> client_supports_method_id \<and>
                 mEntries (sc_method_table context) \<noteq> []\<rparr>;
               session = session\<lparr>ps_compression_enabled :=
                 feature_enabled (opt_compression (sc_options context)) \<and> client_supports_compression\<rparr>;
               session = session\<lparr>ps_compression_algorithm :=
                 (if ps_compression_enabled session then client_compression_algorithm else Alg_None)\<rparr>;
               session = (if ps_compression_enabled session \<and>
                             client_min_payload_size > ps_compression_min_payload_size session
                          then session\<lparr>ps_compression_min_payload_size := client_min_payload_size\<rparr>
                          else session);
               extensions = (if ps_method_id_enabled session
                             then appendMethodIdHelloExtensions context [] else []);
               extensions = (if ps_compression_enabled session
                 then insert_or_assign Ext_CompressionMinPayloadSize
                        (integerValue (ps_compression_min_payload_size session))
                        (insert_or_assign Ext_CompressionAlgorithm
                           (integerValue (ps_compression_algorithm session))
                           (insert_or_assign Ext_Compression [] extensions))
                 else extensions);
               session = session\<lparr>ps_handshake_done := True\<rparr>
           in (Inr (backend_encodeHello env extensions), session)))"

text \<open>The client's side, its method-id half and its compression half: false leaves the session
partly updated, as the code does.\<close>

definition serverHelloMethodId :: "PeerSession \<Rightarrow> extension_map \<Rightarrow> (unit, PeerSession) checked" where
  "serverHelloMethodId session extensions =
     (let session = session\<lparr>ps_method_id_enabled := False\<rparr> in
      if contains extensions Ext_MethodId
      then and_then (applyMethodIdTableExtensions session extensions)
             (\<lambda>(applied, session).
                let session = session\<lparr>ps_method_id_enabled := applied\<rparr>
                in Inr (if \<not> ps_method_id_enabled session \<and> mEntries (ps_remote_method_table session) \<noteq> []
                        then session\<lparr>ps_method_id_enabled := True\<rparr> else session))
      else Inr session)"

definition serverHelloCompression ::
  "PeerSession \<Rightarrow> extension_map \<Rightarrow> (unit, bool \<times> PeerSession) checked" where
  "serverHelloCompression session extensions =
     (let session = session\<lparr>ps_compression_enabled := contains extensions Ext_Compression,
                            ps_compression_algorithm := Alg_None\<rparr>
      in if \<not> ps_compression_enabled session
         then Inr (True, session\<lparr>ps_handshake_done := True\<rparr>)
         else
           and_then (readIntegerTlv extensions Ext_CompressionAlgorithm) (\<lambda>algorithm_tlv :: u8 option.
           case algorithm_tlv of
             None \<Rightarrow> Inr (False, session)
           | Some algorithm \<Rightarrow>
             let session = session\<lparr>ps_compression_algorithm := algorithm\<rparr> in
             if algorithm = Alg_None \<or> \<not> supports algorithm then Inr (False, session)
             else
               and_then (readIntegerTlv extensions Ext_CompressionMinPayloadSize)
                 (\<lambda>min_size :: u32 option.
                  let session = (case min_size of None \<Rightarrow> session
                                 | Some n \<Rightarrow> session\<lparr>ps_compression_min_payload_size := n\<rparr>)
                  in Inr (True, session\<lparr>ps_handshake_done := True\<rparr>))))"

definition handleServerHello ::
  "payload_env \<Rightarrow> PeerSession \<Rightarrow> bytes \<Rightarrow> (unit, bool \<times> PeerSession) checked" where
  "handleServerHello env session frame =
     (case parseFrame frame (env_codec env) of
        Inl Out_Of_Bounds \<Rightarrow> Inl Out_Of_Bounds
      | Inl (Err _) \<Rightarrow> Inr (False, session)
      | Inr parts \<Rightarrow>
        and_then (serverHelloMethodId session (fp_extensions parts))
          (\<lambda>session. serverHelloCompression session (fp_extensions parts)))"

definition handleClientControl ::
  "payload_env \<Rightarrow> PeerSession \<Rightarrow> bytes \<Rightarrow> (unit, bool \<times> PeerSession) checked" where
  "handleClientControl env session message =
     (if \<not> isHello env message then Inr (False, session) else handleServerHello env session message)"

text \<open>The endpoint is a parameter: \<open>send\<close> and \<open>recv\<close> with the state of the connection.\<close>

type_synonym 's endpoint_send_op = "'s \<Rightarrow> bytes \<Rightarrow> nat rpc_result \<times> 's"
type_synonym 's endpoint_recv_op = "'s \<Rightarrow> bytes rpc_result \<times> 's"

definition hello_extensions :: "ClientContext \<Rightarrow> ExtensionStore" where
  "hello_extensions context =
     (let options = cc_options context;
          extensions = (if feature_enabled (opt_method_id options)
                        then insert_or_assign Ext_MethodId [] [] else []);
          algorithm = preferred_algorithm
      in if feature_enabled (opt_compression options) \<and> algorithm \<noteq> Alg_None \<and> supports algorithm
         then insert_or_assign Ext_CompressionMinPayloadSize
                (integerValue (opt_compression_min_payload_size options))
                (insert_or_assign Ext_CompressionAlgorithm (integerValue algorithm)
                   (insert_or_assign Ext_Compression [] extensions))
         else extensions)"

definition ensureClientReady ::
  "payload_env \<Rightarrow> 's endpoint_send_op \<Rightarrow> 's endpoint_recv_op \<Rightarrow> ClientContext \<Rightarrow> PeerSession \<Rightarrow> 's \<Rightarrow>
    unit rpc_result \<times> PeerSession \<times> 's" where
  "ensureClientReady env send recv context session endpoint =
     (let options = cc_options context in
      if ps_handshake_done session \<or>
         (\<not> feature_enabled (opt_method_id options) \<and> \<not> feature_enabled (opt_compression options))
      then (Inr (), session\<lparr>ps_handshake_done := True\<rparr>, endpoint)
      else if hello_extensions context = []
      then (Inr (), session\<lparr>ps_handshake_done := True\<rparr>, endpoint)
      else
        let hello = backend_encodeHello env (hello_extensions context) in
        case send endpoint hello of
          (Inl e, endpoint) \<Rightarrow> (Inl e, session, endpoint)
        | (Inr sent, endpoint) \<Rightarrow>
          if sent \<noteq> length hello then (Inl (Err (Io_Code WriteZero)), session, endpoint)
          else (case recv endpoint of
            (Inl e, endpoint) \<Rightarrow> (Inl e, session, endpoint)
          | (Inr response, endpoint) \<Rightarrow>
            if response = [] then (Inl (Err (rpc_err InvalidRequest)), session, endpoint)
            else (case handleClientControl env session response of
              Inl _ \<Rightarrow> (Inl Out_Of_Bounds, session, endpoint)
            | Inr (accepted, session) \<Rightarrow>
              if \<not> accepted then (Inl (Err (rpc_err InvalidRequest)), session, endpoint)
              else if opt_method_id options = Mode_Require \<and> \<not> ps_method_id_enabled session
              then (Inl (Err (rpc_err MethodIdRequiredButUnsupported)), session, endpoint)
              else if opt_compression options = Mode_Require \<and> \<not> ps_compression_enabled session
              then (Inl (Err (rpc_err CompressionRequiredButUnsupported)), session, endpoint)
              else (Inr (), session\<lparr>ps_handshake_done := True\<rparr>, endpoint))))"

definition handleServerControl ::
  "payload_env \<Rightarrow> 's endpoint_send_op \<Rightarrow> ServerContext \<Rightarrow> PeerSession \<Rightarrow> 's \<Rightarrow> bytes \<Rightarrow>
    bool rpc_result \<times> PeerSession \<times> 's" where
  "handleServerControl env send context session endpoint message =
     (if \<not> isHello env message then (Inr False, session, endpoint)
      else case handleClientHello env context session message of
        (Inl e, session) \<Rightarrow> (Inl e, session, endpoint)
      | (Inr response, session) \<Rightarrow>
        case send endpoint response of
          (Inl e, endpoint) \<Rightarrow> (Inl e, session, endpoint)
        | (Inr sent, endpoint) \<Rightarrow>
          if sent \<noteq> length response then (Inl (Err (Io_Code WriteZero)), session, endpoint)
          else (Inr True, session, endpoint))"

end
