(* ===== verification/Rpc_Backend_Facts.thy ===== *)
theory Rpc_Backend_Facts
  imports Rpc_Backend
begin

unbundle bit_operations_syntax

text \<open>
  What the backend's two ends make of each other's frames: requests, responses, cancellations and
  the Hello exchange, over the definitions of \<open>Rpc_Backend\<close>.
\<close>

subsection \<open>Extension stores\<close>

lemma foldl_emplace_append:
  "std_map_ok (m @ es) \<Longrightarrow> foldl (\<lambda>m e. emplace (fst e) (snd e) m) m es = m @ es"
proof (induction es arbitrary: m)
  case (Cons e es)
  have less: "\<forall>k \<in> fst ` set m. k < fst e"
    using Cons.prems by (auto simp: std_map_ok_def sorted_wrt_append)
  then have "\<not> contains m (fst e)"
    by (auto simp: contains_iff)
  then have "emplace (fst e) (snd e) m = m @ [e]"
    using less by (simp add: emplace_new insert_or_assign_last)
  with Cons show ?case by simp
qed simp

lemma extensionViews_id [simp]: "std_map_ok es \<Longrightarrow> extensionViews es = es"
  using foldl_emplace_append [of "[]" es] by (simp add: extensionViews_def)

lemma insert_range_Nil [simp]: "std_map_ok es \<Longrightarrow> insert_range [] es = es"
  using foldl_emplace_append [of "[]" es] by (simp add: insert_range_def)

lemma extension_wire_size_loop_iff:
  "n \<le> MaxExtensionBytes \<Longrightarrow> extension_wire_size_loop es n = Some k \<longleftrightarrow>
    k = n + length (tlvs_bytes es) \<and> k \<le> MaxExtensionBytes"
proof (induction es n rule: extension_wire_size_loop.induct)
  case (2 type v es n)
  show ?case
  proof (cases "length v > 65535 \<or> n > MaxExtensionBytes - 4 \<or> n + 4 > MaxExtensionBytes - length v")
    case True
    then show ?thesis
      by (auto simp: MaxExtensionBytes_def)
  next
    case False
    then have "n + (4 + length v) \<le> MaxExtensionBytes"
      by (auto simp: MaxExtensionBytes_def)
    from "2.IH" [OF False this] False show ?thesis
      by (simp add: add.assoc)
  qed
qed (auto simp: MaxExtensionBytes_def)

lemma extensionWireSize_iff:
  "extensionWireSize es = Some k \<longleftrightarrow> k = length (tlvs_bytes es) \<and> k \<le> 65535"
  using extension_wire_size_loop_iff [of 0 es k] by (simp add: extensionWireSize_def MaxExtensionBytes_def)

lemma tlvs_short_of_length: "length (tlvs_bytes es) \<le> 65535 \<Longrightarrow> list_all tlv_short es"
  by (induction es) (auto simp: tlv_short_def)

lemma ext_types_supported [simp]:
  "Ext_MethodId AND 0x8000 = 0" "Ext_MethodTableVersion AND 0x8000 = 0" "Ext_MethodTable AND 0x8000 = 0"
  "Ext_MethodTableDelta AND 0x8000 = 0" "Ext_MethodSignatureHash AND 0x8000 = 0"
  "Ext_MethodMinimumCompatibleVersion AND 0x8000 = 0" "Ext_Compression AND 0x8000 = 0"
  "Ext_CompressionAlgorithm AND 0x8000 = 0" "Ext_CompressionMinPayloadSize AND 0x8000 = 0"
  by (simp_all add: ext_defs)

lemma supported_insertI:
  "k AND 0x8000 = 0 \<Longrightarrow> extensions_supported m \<Longrightarrow> extensions_supported (insert_or_assign k v m)"
  by (induction k v m rule: insert_or_assign.induct) (auto simp: extensions_supported_def)

lemma supported_Nil [simp]: "extensions_supported []"
  by (simp add: extensions_supported_def)

lemma methodIdTableExtensions_ok [simp]:
  "std_map_ok (methodIdTableExtensions context b)" "extensions_supported (methodIdTableExtensions context b)"
  by (simp_all add: methodIdTableExtensions_def Let_def supported_insertI del: insert_or_assign.simps)

lemma appendMethodIdHello_ok [simp]:
  "std_map_ok (appendMethodIdHelloExtensions context [])"
  "extensions_supported (appendMethodIdHelloExtensions context [])"
  by (simp_all add: appendMethodIdHelloExtensions_def Let_def)

subsection \<open>Control frames\<close>

lemma cancel_round_trip: "cancelId env (encodeCancel env rid) = Inr (Some rid)"
proof -
  let ?f = "\<lparr>fp_header = default_header\<lparr>h_kind := Kind_Cancel, h_codec := env_codec env, h_id := rid\<rparr>,
     fp_method = [], fp_extensions = [], fp_payload = []\<rparr>"
  have "parseFrame (encodeFrame ?f) (h_codec (fp_header ?f)) = Inr (?f\<lparr>fp_header := stamped ?f\<rparr>)"
    unfolding parseFrame_def
    by (subst parse_frame_parts_encode) (simp_all add: sendable_def knownKind_def)
  then show ?thesis
    by (simp add: cancelId_def encodeCancel_def)
qed

lemma parseFrame_Inr_iff:
  "parseFrame data codec = Inr p \<longleftrightarrow> parse_frame_parts data = Inr p \<and> h_codec (fp_header p) = codec"
  by (auto simp: parseFrame_def and_then_Inr_iff split: if_splits)

lemma cancelId_sound:
  assumes "cancelId env message = Inr (Some rid)"
  shows "\<exists>h. message = header_bytes h \<and> valid_header h \<and> h_kind h = Kind_Cancel \<and> h_codec h = env_codec env \<and>
    h_id h = rid \<and> h_method_size h = 0 \<and> h_extension_size h = 0 \<and> h_payload_size h = 0"
proof -
  from assms obtain p where p: "parseFrame message (env_codec env) = Inr p"
    "h_kind (fp_header p) = Kind_Cancel" "fp_method p = []" "fp_extensions p = []" "fp_payload p = []"
    "rid = h_id (fp_header p)"
    by (auto simp: cancelId_def split: sum.splits halt.splits if_splits)
  then obtain es where w: "wire_frame message p es" and l: "loadTlvs (tlvs_bytes es) = Inr (fp_extensions p)"
    and c: "h_codec (fp_header p) = env_codec env"
    by (auto simp: parseFrame_Inr_iff parse_frame_parts_iff)
  have "es = []"
  proof (rule ccontr)
    assume "es \<noteq> []"
    then obtain e es' where es: "es = e # es'"
      by (cases es) auto
    from l obtain es2 where "tlvs_bytes es = tlvs_bytes es2" "map_of (fp_extensions p) = map_of es2"
      by (auto simp: loadTlvs_iff)
    moreover have "es2 \<noteq> []"
      using calculation(1) \<open>es \<noteq> []\<close> by (metis tlvs_bytes_empty_iff)
    ultimately show False
      using p(4) by (cases es2) (auto dest: fun_cong [where x = "fst (hd es2)"])
  qed
  with w p c show ?thesis
    by (auto simp: wire_frame_def unat_eq_0 intro!: exI [of _ "fp_header p"])
qed

subsection \<open>A request reaches the dispatcher\<close>

lemma validateFrameSize_encode:
  assumes "sendable f" "knownKind (h_kind (fp_header f))"
  shows "validFrameSize env (encodeFrame f) limits \<longleftrightarrow>
    h_codec (fp_header f) = env_codec env \<and> within_limits limits f"
proof -
  have "validateFrameSize env (encodeFrame f) limits = Inr () \<longleftrightarrow>
      headerBodySize (take headerSize (encodeFrame f)) (env_codec env) limits =
        Inr (length (encodeFrame f) - headerSize)"
    by (auto simp: validateFrameSize_def and_then_Inr_iff length_encodeFrame [OF assms(1)] split: if_splits)
  then show ?thesis
    unfolding validFrameSize_def headerBodySize_encodeFrame [OF assms(1)] using assms(2) by auto
qed

text \<open>The client's copy of the server's method table.\<close>

definition table_copy :: "method_table \<Rightarrow> method_table \<Rightarrow> bool" where
  "table_copy remote server \<longleftrightarrow> table_ok remote \<and> table_ok server \<and> mEntries remote = mEntries server \<and>
     mVersion remote = mVersion server"

lemma table_copy_resolves:
  assumes "table_copy remote server" "findByName remote n = Some e"
  shows "res_status (resolve server (me_id e) (mVersion remote) (me_signature_hash e) True) = Res_Ok"
    and "res_entry (resolve server (me_id e) (mVersion remote) (me_signature_hash e) True) = Some e"
proof -
  have ok: "table_ok remote" "table_ok server" "mEntries remote = mEntries server"
    "mVersion remote = mVersion server"
    using assms(1) by (auto simp: table_copy_def)
  have e: "findById remote (me_id e) = Some e" "active e" "me_name e = n"
    using assms(2) unfolding findByName_Some_iff [OF ok(1)] by auto
  then have se: "findById server (me_id e) = Some e"
    using ok(3) by (simp add: findById_def split: if_split_asm)
  note fb = active_findByName [OF ok(2) se e(2)]
  have "mEntries remote \<noteq> []"
    using e(1) by (auto simp: findById_def split: if_splits)
  then have v: "mVersion remote \<noteq> 0"
    using ok(1) by (auto simp: table_ok_def entries_ok_def)
  show r: "res_status (resolve server (me_id e) (mVersion remote) (me_signature_hash e) True) = Res_Ok"
    unfolding resolve_ok_exact [OF ok(2)]
    using v ok(2,4) fb by (intro conjI exI [of _ e]) (auto simp: table_ok_def)
  show "res_entry (resolve server (me_id e) (mVersion remote) (me_signature_hash e) True) = Some e"
    using resolve_ok_entry [OF r] se by simp
qed

lemma request_frame_cases:
  fixes env session method_name notification rid payload
  defines "f \<equiv> request_frame env session method_name notification rid payload"
  shows "h_kind (fp_header f) = (if notification then Kind_Notify else Kind_Request)"
    and "h_codec (fp_header f) = env_codec env" and "h_id (fp_header f) = rid" and "fp_payload f = payload"
    and "well_formed_frame f" and "h_flags (fp_header f) AND Flag_Compressed = 0"
    and "h_flags (fp_header f) AND Flag_Error = 0"
  unfolding f_def request_frame_def
  by (auto simp: Let_def default_header_def well_formed_frame_def supported_insertI word_and_disjoint
      simp del: insert_or_assign.simps split: option.splits)

lemma request_frame_method:
  fixes env session method_name notification rid payload
  defines "f \<equiv> request_frame env session method_name notification rid payload"
  assumes "ps_method_id_enabled session \<Longrightarrow> enabled \<and> table_copy (ps_remote_method_table session) table"
    and "fp_method p = fp_method f" "fp_extensions p = fp_extensions f"
    and "h_flags (fp_header p) AND Flag_MethodId = h_flags (fp_header f) AND Flag_MethodId"
  shows "NekoRpcIncomingMethodName table enabled p = Inr method_name"
proof (cases "ps_method_id_enabled session \<and> findByName (ps_remote_method_table session) method_name \<noteq> None")
  case False
  then have "h_flags (fp_header f) AND Flag_MethodId = 0" "fp_method f = bytes_of_chars method_name"
    by (auto simp: f_def request_frame_def default_header_def Let_def split: if_splits option.splits)
  with assms(3-5) show ?thesis
    by (simp add: NekoRpcIncomingMethodName_def)
next
  case True
  let ?t = "ps_remote_method_table session"
  obtain e where e: "findByName ?t method_name = Some e"
    using True by auto
  have en: "enabled" and c: "table_copy ?t table"
    using assms(2) True by auto
  note r = table_copy_resolves [OF c e]
  have name: "me_name e = method_name"
    using c e by (auto simp: table_copy_def findByName_Some_iff)
  have ne: "integerValue (me_id e) \<noteq> []"
    by (simp flip: length_0_conv)
  have f: "h_flags (fp_header f) AND Flag_MethodId \<noteq> 0" "fp_method f = integerValue (me_id e)"
    "fp_extensions f = insert_or_assign Ext_MethodSignatureHash (integerValue (me_signature_hash e))
       (insert_or_assign Ext_MethodTableVersion (integerValue (mVersion ?t)) [])"
    using True e ne
    by (simp_all add: f_def request_frame_def default_header_def Let_def word_or_and_absorb
        appendInteger_integerValue del: insert_or_assign.simps)
  have "readIntegerTlv (fp_extensions p) Ext_MethodTableVersion = (Inr (Some (mVersion ?t)) :: (error_code, _) checked)"
    unfolding assms(4) f(3) by (simp add: readIntegerTlv_def readIntegerValue_whole ext_defs del: insert_or_assign.simps)
  moreover have "readIntegerTlv (fp_extensions p) Ext_MethodSignatureHash =
      (Inr (Some (me_signature_hash e)) :: (error_code, _) checked)"
    unfolding assms(4) f(3) by (simp add: readIntegerTlv_def readIntegerValue_whole del: insert_or_assign.simps)
  moreover have "readInteger (fp_method p) 0 = (Inr (me_id e) :: (error_code, _) checked)"
    unfolding assms(3) f(2) by (simp add: readInteger_whole)
  moreover have "length (fp_method p) = 8"
    unfolding assms(3) f(2) by simp
  ultimately show ?thesis
    using f(1) assms(5) en r name by (simp add: NekoRpcIncomingMethodName_def Let_def)
qed

lemma encode_outgoing_sendable:
  assumes "encode_outgoing_frame compress options session stats f = (Inr msg, stats')"
    and "h_flags (fp_header f) AND Flag_Compressed = 0"
  shows "\<exists>g. msg = encodeFrame g \<and> sendable g \<and> knownKind (h_kind (fp_header g)) \<and>
    h_codec (fp_header g) = h_codec (fp_header f) \<and> within_limits (opt_frame_limits options) g"
  using assms
proof (cases rule: neko_compression.encode_outgoing_cases)
  case plain
  then show ?thesis by (auto simp: encode_checked_Inr_iff)
next
  case (compressed c)
  let ?g = "f\<lparr>fp_header := (fp_header f)\<lparr>h_flags := h_flags (fp_header f) OR Flag_Compressed\<rparr>, fp_payload := c\<rparr>"
  have "msg = encodeFrame ?g \<and> sendable ?g \<and> knownKind (h_kind (fp_header ?g)) \<and>
      h_codec (fp_header ?g) = h_codec (fp_header f) \<and> within_limits (opt_frame_limits options) ?g"
    using compressed(5) unfolding encode_checked_Inr_iff by simp
  then show ?thesis by blast
qed

text \<open>The receiver's limits admit whatever the sender's admit.\<close>

definition limits_cover :: "NekoRpcFrameLimits \<Rightarrow> NekoRpcFrameLimits \<Rightarrow> bool" where
  "limits_cover receiver sender \<longleftrightarrow> max_frame_bytes sender \<le> max_frame_bytes receiver \<and>
     max_method_bytes sender \<le> max_method_bytes receiver \<and>
     max_payload_bytes sender \<le> max_payload_bytes receiver \<and>
     max_extension_bytes sender \<le> max_extension_bytes receiver"

lemma within_limits_mono: "within_limits s f \<Longrightarrow> limits_cover r s \<Longrightarrow> within_limits r f"
  by (auto simp: within_limits_def limits_cover_def)

text \<open>Sender and receiver of payloads: options, sessions and one payload.\<close>

definition payload_passes ::
  "Options \<Rightarrow> Options \<Rightarrow> PeerSession \<Rightarrow> PeerSession \<Rightarrow> bytes \<Rightarrow> bool" where
  "payload_passes soptions roptions sender receiver payload \<longleftrightarrow>
     compression_agrees 65 roptions sender receiver \<and>
     compression_safe (ps_compression_algorithm sender) payload \<and>
     length payload \<le> size_max \<and> length payload \<le> opt_max_decompressed_payload_bytes roptions \<and>
     limits_cover (opt_frame_limits roptions) (opt_frame_limits soptions)"

lemma frame_delivered:
  assumes e: "encode_outgoing_frame compress soptions sender stats f = (Inr msg, stats')"
    and f: "well_formed_frame f" "h_flags (fp_header f) AND Flag_Compressed = 0"
      "h_codec (fp_header f) = env_codec env"
    and pass: "payload_passes soptions roptions sender receiver (fp_payload f)"
  obtains parts d rstats' where "validFrameSize env msg (opt_frame_limits roptions)"
    "parseFrame msg (env_codec env) = Inr parts"
    "decompress_incoming_payload decompress roptions receiver rstats parts = (Inr d, rstats')"
    "payload_view parts d = fp_payload f" "fp_method parts = fp_method f"
    "fp_extensions parts = fp_extensions f" "h_id (fp_header parts) = h_id (fp_header f)"
    "h_kind (fp_header parts) = h_kind (fp_header f)" "h_codec (fp_header parts) = env_codec env"
    "\<And>m. m AND Flag_Compressed = 0 \<Longrightarrow> m AND Flag_HasExtensions = 0 \<Longrightarrow>
      h_flags (fp_header parts) AND m = h_flags (fp_header f) AND m"
proof -
  obtain g where g: "msg = encodeFrame g" "sendable g" "knownKind (h_kind (fp_header g))"
    "h_codec (fp_header g) = h_codec (fp_header f)" "within_limits (opt_frame_limits soptions) g"
    using encode_outgoing_sendable [OF e f(2)] by blast
  have valid: "validFrameSize env msg (opt_frame_limits roptions)"
    using g pass f(3) within_limits_mono [OF g(5)]
    by (simp add: validateFrameSize_encode payload_passes_def)
  have ag: "compression_agrees 65 roptions sender receiver"
    "compression_safe (ps_compression_algorithm sender) (fp_payload f)" "length (fp_payload f) \<le> size_max"
    "length (fp_payload f) \<le> opt_max_decompressed_payload_bytes roptions"
    using pass by (auto simp: payload_passes_def)
  show thesis
    by (rule neko_compression.transparent [OF e f(1,2) ag(1,2,3,4), of rstats, unfolded f(3)])
      (rule that [OF valid]; assumption)
qed

lemma request_delivered:
  assumes e: "encodeRequest env cctx csess method_name notification (Some payload) = (Inr req, cctx')"
    and name: "method_name \<noteq> []"
    and pass: "payload_passes (cc_options cctx) (sc_options sctx) csess ssess payload"
    and table: "ps_method_id_enabled csess \<Longrightarrow>
      ps_method_id_enabled ssess \<and> table_copy (ps_remote_method_table csess) (sc_method_table sctx)"
  shows "\<exists>h sctx'. decodeIncoming env sctx ssess (er_message req) =
      (Inr (empty_result\<lparr>dres_ok := True,
              dres_requests := [\<lparr>dr_header = h, dr_method = method_name, dr_payload = payload\<rparr>]\<rparr>), sctx') \<and>
    h_kind h = (if notification then Kind_Notify else Kind_Request) \<and> h_id h = er_id req"
proof -
  define rid where "rid = (if notification then 0 else next_request_id cctx)"
  let ?f = "request_frame env csess method_name notification rid payload"
  note rf = request_frame_cases [of env csess method_name notification rid payload]
  obtain stats' where out: "encode_outgoing_frame compress (cc_options cctx) csess (cc_stats cctx) ?f =
      (Inr (er_message req), stats')" and rid: "er_id req = rid"
    using e by (cases notification)
      (auto simp: encodeRequest_def rid_def Let_def and_then_Inr_iff split: prod.splits)
  obtain parts d rstats' where v: "validFrameSize env (er_message req) (opt_frame_limits (sc_options sctx))"
    and p: "parseFrame (er_message req) (env_codec env) = Inr parts"
    and d: "decompress_incoming_payload decompress (sc_options sctx) ssess (sc_stats sctx) parts = (Inr d, rstats')"
    and view: "payload_view parts d = payload" and m: "fp_method parts = fp_method ?f"
    and x: "fp_extensions parts = fp_extensions ?f" and i: "h_id (fp_header parts) = rid"
    and k: "h_kind (fp_header parts) = (if notification then Kind_Notify else Kind_Request)"
    and fl: "\<And>m. m AND Flag_Compressed = 0 \<Longrightarrow> m AND Flag_HasExtensions = 0 \<Longrightarrow>
      h_flags (fp_header parts) AND m = h_flags (fp_header ?f) AND m"
    by (rule frame_delivered [OF out rf(5,6,2), of "sc_options sctx" ssess "sc_stats sctx"])
      (use pass rf in \<open>auto simp: rf\<close>)
  have "NekoRpcIncomingMethodName (sc_method_table sctx) (ps_method_id_enabled ssess) parts = Inr method_name"
    by (rule request_frame_method [OF table m x]) (simp_all add: fl)
  then have "decodeIncoming env sctx ssess (er_message req) =
      (Inr (empty_result\<lparr>dres_ok := True,
              dres_requests := [\<lparr>dr_header = (fp_header parts)\<lparr>h_flags :=
                (h_flags (fp_header parts) AND NOT Flag_Compressed) AND NOT Flag_MethodId\<rparr>,
                dr_method = method_name, dr_payload = payload\<rparr>]\<rparr>), sctx\<lparr>sc_stats := rstats'\<rparr>)"
    using v p d view k name rf(7) fl [of Flag_Error]
    by (simp add: decodeIncoming_def decode_request_frame_def Let_def kind_defs)
  with i k rid show ?thesis
    by (intro exI conjI) (assumption | simp)+
qed


subsection \<open>A response reaches the caller\<close>

lemma response_frame_cases:
  fixes env rid payload flags exts
  defines "f \<equiv> response_frame (makeResponse env rid payload flags exts)"
  assumes "std_map_ok exts" "extensions_supported exts"
  shows "h_kind (fp_header f) = Kind_Response" "h_codec (fp_header f) = env_codec env"
    "h_id (fp_header f) = rid" "fp_payload f = payload" "fp_extensions f = exts" "fp_method f = []"
    "h_flags (fp_header f) = flags" "well_formed_frame f"
  using assms(2,3) by (simp_all add: f_def response_frame_def makeResponse_def default_header_def well_formed_frame_def)

lemma response_frame_delivered:
  assumes e: "encodeResponseFrameFor (sc_options sctx) ssess stats (makeResponse env rid payload flags exts) =
      (Inr msg, stats')"
    and exts: "std_map_ok exts" "extensions_supported exts"
    and pass: "payload_passes (sc_options sctx) (cc_options cctx) ssess csess payload"
    and flags: "flags AND Flag_Compressed = 0"
  shows "\<exists>parts cctx'. decodeResponse env dec cctx csess msg rid =
      (let (r, s) = decode_response_frame env dec csess parts payload rid in (r, cctx', s)) \<and>
    cc_options cctx' = cc_options cctx \<and>
    h_kind (fp_header parts) = Kind_Response \<and> h_codec (fp_header parts) = env_codec env \<and>
    h_id (fp_header parts) = rid \<and> fp_extensions parts = exts \<and>
    h_flags (fp_header parts) AND Flag_Error = flags AND Flag_Error"
proof -
  let ?f = "response_frame (makeResponse env rid payload flags exts)"
  note rf = response_frame_cases [OF exts, of env rid payload flags]
  have out: "encode_outgoing_frame compress (sc_options sctx) ssess stats ?f = (Inr msg, stats')"
    using e by (simp add: encodeResponseFrameFor_def)
  have fc: "h_flags (fp_header ?f) AND Flag_Compressed = 0"
    using flags rf(7) by simp
  have ps: "payload_passes (sc_options sctx) (cc_options cctx) ssess csess (fp_payload ?f)"
    using pass rf(4) by simp
  obtain parts d rs where v: "validFrameSize env msg (opt_frame_limits (cc_options cctx))"
    and p: "parseFrame msg (env_codec env) = Inr parts"
    and d: "decompress_incoming_payload decompress (cc_options cctx) csess (cc_stats cctx) parts = (Inr d, rs)"
    and view: "payload_view parts d = fp_payload ?f" and x: "fp_extensions parts = fp_extensions ?f"
    and i: "h_id (fp_header parts) = h_id (fp_header ?f)" and k: "h_kind (fp_header parts) = h_kind (fp_header ?f)"
    and c: "h_codec (fp_header parts) = env_codec env"
    and fl: "\<And>m. m AND Flag_Compressed = 0 \<Longrightarrow> m AND Flag_HasExtensions = 0 \<Longrightarrow>
      h_flags (fp_header parts) AND m = h_flags (fp_header ?f) AND m"
    by (rule frame_delivered [OF out rf(8) fc rf(2) ps, of "cc_stats cctx"]) (rule that; assumption)
  have "decodeResponse env dec cctx csess msg rid =
      (let (r, s) = decode_response_frame env dec csess parts payload rid in (r, cctx\<lparr>cc_stats := rs\<rparr>, s))"
    using v p d view rf(4) by (simp add: decodeResponse_def validFrameSize_def Let_def)
  with x i k c rf fl [of Flag_Error] show ?thesis
    by (intro exI [of _ parts] exI [of _ "cctx\<lparr>cc_stats := rs\<rparr>"]) simp
qed

subsection \<open>The Hello exchange\<close>

lemma hello_frame:
  fixes env es
  defines "f \<equiv> \<lparr>fp_header = default_header\<lparr>h_kind := Kind_Hello, h_codec := env_codec env\<rparr>, fp_method = [],
     fp_extensions = es, fp_payload = []\<rparr>"
  assumes ok: "std_map_ok es" "extensions_supported es"
  shows "backend_encodeHello env es \<noteq> [] \<longleftrightarrow> length (tlvs_bytes es) \<le> 65535"
    and "length (tlvs_bytes es) \<le> 65535 \<Longrightarrow>
      parseFrame (backend_encodeHello env es) (env_codec env) = Inr (f\<lparr>fp_header := stamped f\<rparr>)"
proof -
  have s: "sendable f \<longleftrightarrow> length (tlvs_bytes es) \<le> 65535"
    using tlvs_short_of_length [of es] by (auto simp: sendable_def f_def)
  have e: "backend_encodeHello env es = encodeFrame f"
    using ok by (simp add: backend_encodeHello_def encodeHello_def f_def)
  show "backend_encodeHello env es \<noteq> [] \<longleftrightarrow> length (tlvs_bytes es) \<le> 65535"
    unfolding e encodeFrame_eq using s length_header_bytes [of "stamped f"]
    by (cases "header_bytes (stamped f)") auto
  show "parseFrame (backend_encodeHello env es) (env_codec env) = Inr (f\<lparr>fp_header := stamped f\<rparr>)"
    if "length (tlvs_bytes es) \<le> 65535"
    using parse_frame_parts_encode [of f] s that ok
    unfolding e parseFrame_Inr_iff by (simp add: f_def knownKind_def)
qed

lemma hello_extensions_ok [simp]:
  "std_map_ok (hello_extensions cctx)" "extensions_supported (hello_extensions cctx)"
  by (simp_all add: hello_extensions_def Let_def supported_insertI del: insert_or_assign.simps)

lemma tlvs_bytes_insert:
  "length (tlvs_bytes (insert_or_assign k v m)) \<le> length (tlvs_bytes m) + 4 + length v"
  by (induction k v m rule: insert_or_assign.induct) auto

lemma tlvs_bytes_insert_new:
  "\<not> contains m k \<Longrightarrow> length (tlvs_bytes (insert_or_assign k v m)) = length (tlvs_bytes m) + 4 + length v"
  by (induction k v m rule: insert_or_assign.induct) (auto simp: contains_def split: if_splits)

lemma hello_extensions_small: "length (tlvs_bytes (hello_extensions cctx)) \<le> 65535"
proof -
  have "length (tlvs_bytes (hello_extensions cctx)) \<le> 4 + (4 + (4 + 1) + (4 + 4))"
    unfolding hello_extensions_def Let_def
    by (auto intro!: tlvs_bytes_insert [THEN order_trans] simp: length_integerValue
        simp del: insert_or_assign.simps)
  then show ?thesis by simp
qed

lemma ext_types_distinct [simp]:
  "Ext_MethodId \<noteq> Ext_MethodTableVersion" "Ext_MethodId \<noteq> Ext_MethodTable"
  "Ext_MethodId \<noteq> Ext_MethodTableDelta" "Ext_MethodId \<noteq> Ext_MethodMinimumCompatibleVersion"
  "Ext_MethodId \<noteq> Ext_Compression" "Ext_MethodId \<noteq> Ext_CompressionAlgorithm"
  "Ext_MethodId \<noteq> Ext_CompressionMinPayloadSize"
  "Ext_MethodTableVersion \<noteq> Ext_MethodTable" "Ext_MethodTableVersion \<noteq> Ext_MethodTableDelta"
  "Ext_MethodTableVersion \<noteq> Ext_MethodMinimumCompatibleVersion" "Ext_MethodTableVersion \<noteq> Ext_Compression"
  "Ext_MethodTableVersion \<noteq> Ext_CompressionAlgorithm" "Ext_MethodTableVersion \<noteq> Ext_CompressionMinPayloadSize"
  "Ext_MethodTable \<noteq> Ext_MethodTableDelta" "Ext_MethodTable \<noteq> Ext_MethodMinimumCompatibleVersion"
  "Ext_MethodTable \<noteq> Ext_Compression" "Ext_MethodTable \<noteq> Ext_CompressionAlgorithm"
  "Ext_MethodTable \<noteq> Ext_CompressionMinPayloadSize"
  "Ext_MethodTableDelta \<noteq> Ext_MethodMinimumCompatibleVersion" "Ext_MethodTableDelta \<noteq> Ext_Compression"
  "Ext_MethodTableDelta \<noteq> Ext_CompressionAlgorithm" "Ext_MethodTableDelta \<noteq> Ext_CompressionMinPayloadSize"
  "Ext_MethodMinimumCompatibleVersion \<noteq> Ext_Compression"
  "Ext_MethodMinimumCompatibleVersion \<noteq> Ext_CompressionAlgorithm"
  "Ext_MethodMinimumCompatibleVersion \<noteq> Ext_CompressionMinPayloadSize"
  "Ext_Compression \<noteq> Ext_CompressionAlgorithm" "Ext_Compression \<noteq> Ext_CompressionMinPayloadSize"
  "Ext_CompressionAlgorithm \<noteq> Ext_CompressionMinPayloadSize"
  by (simp_all add: ext_defs)

lemmas ext_types_neq [simp] = ext_types_distinct [symmetric]

lemma hello_extensions_map:
  "map_of (hello_extensions cctx) =
    (let m = (if feature_enabled (opt_method_id (cc_options cctx)) then [Ext_MethodId \<mapsto> []] else Map.empty)
     in if feature_enabled (opt_compression (cc_options cctx))
        then m(Ext_Compression \<mapsto> [], Ext_CompressionAlgorithm \<mapsto> integerValue Alg_RunLength,
               Ext_CompressionMinPayloadSize \<mapsto> integerValue (opt_compression_min_payload_size (cc_options cctx)))
        else m)"
  by (simp add: hello_extensions_def Let_def preferred_algorithm_def supports_def del: insert_or_assign.simps)

definition reply_extensions :: "ServerContext \<Rightarrow> bool \<Rightarrow> bool \<Rightarrow> u32 \<Rightarrow> ExtensionStore" where
  "reply_extensions sctx method_id compression min_size =
     (let base = (if method_id then appendMethodIdHelloExtensions sctx [] else [])
      in if compression
         then insert_or_assign Ext_CompressionMinPayloadSize (integerValue min_size)
                (insert_or_assign Ext_CompressionAlgorithm (integerValue Alg_RunLength)
                   (insert_or_assign Ext_Compression [] base))
         else base)"

lemma reply_extensions_ok [simp]:
  "std_map_ok (reply_extensions sctx a b n)" "extensions_supported (reply_extensions sctx a b n)"
  by (simp_all add: reply_extensions_def Let_def supported_insertI del: insert_or_assign.simps)

text \<open>What the two ends agree on.\<close>

definition agreed_method_id :: "ClientContext \<Rightarrow> ServerContext \<Rightarrow> bool" where
  "agreed_method_id cctx sctx \<longleftrightarrow> feature_enabled (opt_method_id (sc_options sctx)) \<and>
     feature_enabled (opt_method_id (cc_options cctx)) \<and> mEntries (sc_method_table sctx) \<noteq> []"

definition agreed_compression :: "ClientContext \<Rightarrow> ServerContext \<Rightarrow> bool" where
  "agreed_compression cctx sctx \<longleftrightarrow> feature_enabled (opt_compression (sc_options sctx)) \<and>
     feature_enabled (opt_compression (cc_options cctx))"

definition agreed_min_size :: "ClientContext \<Rightarrow> ServerContext \<Rightarrow> PeerSession \<Rightarrow> u32" where
  "agreed_min_size cctx sctx ssess =
     (if agreed_compression cctx sctx \<and>
         opt_compression_min_payload_size (cc_options cctx) > ps_compression_min_payload_size ssess
      then opt_compression_min_payload_size (cc_options cctx) else ps_compression_min_payload_size ssess)"

lemma handleClientHello_reply:
  "handleClientHello env sctx ssess (backend_encodeHello env (hello_extensions cctx)) =
    (Inr (backend_encodeHello env (reply_extensions sctx (agreed_method_id cctx sctx)
            (agreed_compression cctx sctx) (agreed_min_size cctx sctx ssess))),
     ssess\<lparr>ps_method_id_enabled := agreed_method_id cctx sctx,
           ps_compression_enabled := agreed_compression cctx sctx,
           ps_compression_algorithm := (if agreed_compression cctx sctx then Alg_RunLength else Alg_None),
           ps_compression_min_payload_size := agreed_min_size cctx sctx ssess,
           ps_handshake_done := True\<rparr>)"
proof -
  let ?x = "hello_extensions cctx"
  note p = hello_frame(2) [OF hello_extensions_ok hello_extensions_small, of env cctx]
  have c: "contains ?x Ext_MethodId \<longleftrightarrow> feature_enabled (opt_method_id (cc_options cctx))"
    "contains ?x Ext_Compression \<longleftrightarrow> feature_enabled (opt_compression (cc_options cctx))"
    by (simp_all add: contains_def hello_extensions_map Let_def)
  have r: "readIntegerTlv ?x Ext_CompressionAlgorithm =
      (Inr (if feature_enabled (opt_compression (cc_options cctx)) then Some Alg_RunLength else None) :: (error_code, _) checked)"
    "readIntegerTlv ?x Ext_CompressionMinPayloadSize =
      (Inr (if feature_enabled (opt_compression (cc_options cctx))
            then Some (opt_compression_min_payload_size (cc_options cctx)) else None) :: (error_code, _) checked)"
    by (simp_all add: readIntegerTlv_def hello_extensions_map Let_def readIntegerValue_whole)
  show ?thesis
    unfolding handleClientHello_def p
    by (cases ssess) (auto simp: c r Let_def agreed_method_id_def agreed_compression_def agreed_min_size_def
        reply_extensions_def supports_def simp del: insert_or_assign.simps)
qed

lemma methodIdTableExtensions_map:
  "map_of (methodIdTableExtensions sctx b) =
    (let m = [Ext_MethodId \<mapsto> [],
              Ext_MethodTableVersion \<mapsto> integerValue (mVersion (sc_method_table sctx)),
              Ext_MethodMinimumCompatibleVersion \<mapsto> integerValue (mMinimumCompatibleVersion (sc_method_table sctx))]
     in if b then m(Ext_MethodTable \<mapsto> methodTableValue (mEntries (sc_method_table sctx))) else m)"
  by (simp add: methodIdTableExtensions_def Let_def del: insert_or_assign.simps)

lemma appendMethodIdHello_cases:
  obtains (table) "appendMethodIdHelloExtensions sctx [] = methodIdTableExtensions sctx True"
    "extensionsFitAutoBudget (sc_options sctx) (methodIdTableExtensions sctx True)"
  | (hint) "appendMethodIdHelloExtensions sctx [] = methodIdTableExtensions sctx False"
  | (nothing) "appendMethodIdHelloExtensions sctx [] = []"
  by (cases "extensionsFitAutoBudget (sc_options sctx) (methodIdTableExtensions sctx True)";
      cases "extensionsFitAutoBudget (sc_options sctx) (methodIdTableExtensions sctx False)")
    (auto simp: appendMethodIdHelloExtensions_def Let_def)

text \<open>A table the client can copy: names that fit the wire and hashes that are filled in.\<close>

definition publishable :: "method_table \<Rightarrow> bool" where
  "publishable t \<longleftrightarrow> table_ok t \<and> list_all (\<lambda>e. name_short e \<and> me_signature_hash e \<noteq> 0) (mEntries t)"

lemma publishable_fits:
  assumes "publishable t"
  shows "list_all entry_fits (mEntries t)" "map fill_hash (mEntries t) = mEntries t"
proof -
  show "list_all entry_fits (mEntries t)"
    using assms by (auto simp: publishable_def list_all_iff entry_fits_def table_ok_def entries_ok_def
        active_def removed_def)
  show "map fill_hash (mEntries t) = mEntries t"
    using assms by (auto simp: publishable_def list_all_iff fill_hash_def intro!: map_idI)
qed

lemma setMinimum_fields [simp]:
  "mEntries (setMinimumCompatibleVersion t v) = mEntries t" "mVersion (setMinimumCompatibleVersion t v) = mVersion t"
  by (simp_all add: setMinimumCompatibleVersion_def)

lemma apply_published_table:
  assumes st: "publishable st" "mEntries st \<noteq> []" "length (mEntries st) < 2 ^ 32"
    and rt: "table_ok (ps_remote_method_table s)"
    and x: "map_of x Ext_MethodTable = Some (methodTableValue (mEntries st))"
      "map_of x Ext_MethodTableVersion = Some (integerValue (mVersion st))"
      "map_of x Ext_MethodMinimumCompatibleVersion = Some (integerValue (mMinimumCompatibleVersion st))"
  shows "applyMethodIdTableExtensions s x = Inr (False, s) \<or>
    (\<exists>t. applyMethodIdTableExtensions s x = Inr (True, s\<lparr>ps_remote_method_table := t, ps_method_id_enabled := True\<rparr>) \<and>
      table_copy t st)"
proof -
  have parse: "parseMethodTable x = Inr (mEntries st)"
    using parse_entries_encode [OF publishable_fits(1) [OF st(1)] st(3)] x(1)
    by (simp add: parseMethodTable_def parse_method_entries_def methodTableValue_def)
  have v: "readIntegerTlv x Ext_MethodTableVersion = (Inr (Some (mVersion st)) :: (unit, _) checked)"
    "readIntegerTlv x Ext_MethodMinimumCompatibleVersion =
      (Inr (Some (mMinimumCompatibleVersion st)) :: (unit, _) checked)"
    by (simp_all add: readIntegerTlv_def x readIntegerValue_whole)
  have c: "contains x Ext_MethodTable"
    by (simp add: contains_def x)
  show ?thesis
  proof (cases "applyRemoteTable (ps_remote_method_table s) (mEntries st) (mVersion st)")
    case None
    then show ?thesis
      by (simp add: applyMethodIdTableExtensions_def c v parse Let_def)
  next
    case (Some t)
    let ?t = "setMinimumCompatibleVersion t (mMinimumCompatibleVersion st)"
    have "applyMethodIdTableExtensions s x =
        Inr (True, s\<lparr>ps_remote_method_table := ?t, ps_method_id_enabled := True\<rparr>)"
      using Some by (simp add: applyMethodIdTableExtensions_def c v parse Let_def)
    moreover have "table_ok ?t"
      using apply_op_ok [OF table_ok_apply_table [OF rt Some],
          of "Op_SetMinimumCompatibleVersion (mMinimumCompatibleVersion st)"] by simp
    moreover have "mEntries t = mEntries st \<and> mVersion t = mVersion st"
    proof -
      let ?n = "new_table (mMaxEntries (ps_remote_method_table s))"
      have "t = resetValidated ?n (mEntries st) (mVersion st)"
        and ok: "entries_ok (mMaxEntries ?n) (mEntries st) (mVersion st)"
        using Some by (auto simp: applyRemoteTable_def validTable_iff new_table_def split: if_splits)
      then show ?thesis
        using st(2) publishable_fits(2) [OF st(1)] by (simp add: resetValidated_eq [OF ok])
    qed
    ultimately show ?thesis
      using st(1) by (auto simp: table_copy_def publishable_def)
  qed
qed

lemma length_encode_entries:
  "list_all entry_fits es \<Longrightarrow> length (encode_method_entries_value es) = 5 + sum_list (map (\<lambda>e. 19 + length (me_name e)) es)"
  by (simp add: encode_entries_eq entries_fit_short length_concat comp_def)

lemma published_table_small:
  assumes "list_all entry_fits es" "length (encode_method_entries_value es) \<le> 65535"
  shows "length es < 2 ^ 32"
proof -
  have "length es \<le> sum_list (map (\<lambda>e. 19 + length (me_name e)) es)"
    by (induction es) auto
  with assms show ?thesis
    by (simp add: length_encode_entries)
qed

lemma map_of_tlv_length: "map_of es k = Some v \<Longrightarrow> length v \<le> length (tlvs_bytes es)"
  by (induction es) (auto split: if_splits)

end
