(* ===== verification/Rpc_Negotiation.thy ===== *)
theory Rpc_Negotiation
  imports Rpc_Backend_Facts
begin

unbundle bit_operations_syntax

text \<open>
  The Hello exchange between the two ends of \<open>NekoRpcBackend\<close>: what client and server hold of
  each other once the server's reply has been applied, and the two ways in which the exchange
  falls short of what it is for.
\<close>

subsection \<open>The client reads the server's reply\<close>

lemma reply_extensions_map:
  fixes sctx a b n
  defines "x \<equiv> reply_extensions sctx a b n"
  defines "base \<equiv> (if a then appendMethodIdHelloExtensions sctx [] else [])"
  shows "map_of x Ext_MethodId = map_of base Ext_MethodId"
    and "map_of x Ext_MethodTable = map_of base Ext_MethodTable"
    and "map_of x Ext_MethodTableDelta = map_of base Ext_MethodTableDelta"
    and "map_of x Ext_MethodTableVersion = map_of base Ext_MethodTableVersion"
    and "map_of x Ext_MethodMinimumCompatibleVersion = map_of base Ext_MethodMinimumCompatibleVersion"
  by (simp_all add: x_def base_def reply_extensions_def Let_def del: insert_or_assign.simps)

lemma methodIdTable_no_compression: "map_of (methodIdTableExtensions sctx b) Ext_Compression = None"
  by (simp add: methodIdTableExtensions_map Let_def)

lemma reply_extensions_compression:
  fixes sctx a b n
  defines "x \<equiv> reply_extensions sctx a b n"
  shows "contains x Ext_Compression \<longleftrightarrow> b"
    and "b \<Longrightarrow> map_of x Ext_CompressionAlgorithm = Some (integerValue Alg_RunLength)"
    and "b \<Longrightarrow> map_of x Ext_CompressionMinPayloadSize = Some (integerValue n)"
proof -
  have "map_of (appendMethodIdHelloExtensions sctx []) Ext_Compression = None"
    by (cases rule: appendMethodIdHello_cases [of sctx]) (simp_all add: methodIdTable_no_compression)
  then show "contains x Ext_Compression \<longleftrightarrow> b"
    by (simp add: x_def contains_def reply_extensions_def Let_def del: insert_or_assign.simps)
qed (simp_all add: x_def reply_extensions_def Let_def del: insert_or_assign.simps)

text \<open>The method-id half of \<open>_handleServerHello\<close>.\<close>

lemma hello_method_id:
  fixes csess sctx a b n
  defines "s \<equiv> csess\<lparr>ps_method_id_enabled := False\<rparr>"
    and "x \<equiv> reply_extensions sctx a b n"
  assumes server: "a \<Longrightarrow> publishable (sc_method_table sctx) \<and> mEntries (sc_method_table sctx) \<noteq> []"
    and client: "table_ok (ps_remote_method_table csess)" "mEntries (ps_remote_method_table csess) = []"
    and small: "length (tlvs_bytes x) \<le> 65535"
  shows "\<exists>t m. serverHelloMethodId csess x = Inr (s\<lparr>ps_remote_method_table := t, ps_method_id_enabled := m\<rparr>) \<and>
     (m \<longrightarrow> a \<and> table_copy t (sc_method_table sctx))"
proof -
  have none: ?thesis if "\<not> contains x Ext_MethodId"
    using that by (intro exI [of _ "ps_remote_method_table csess"] exI [of _ False])
      (simp add: s_def serverHelloMethodId_def)
  have skip: ?thesis if "applyMethodIdTableExtensions s x = Inr (False, s)"
    using that client by (intro exI [of _ "ps_remote_method_table csess"] exI [of _ False])
      (simp add: s_def serverHelloMethodId_def Let_def)
  note m = reply_extensions_map [of sctx a b n, folded x_def]
  show ?thesis
  proof (cases a)
    case False
    then show ?thesis using none m(1) by (simp add: contains_def)
  next
    case True
    show ?thesis
    proof (cases rule: appendMethodIdHello_cases [of sctx])
      case table
      note mm = m [unfolded table(1), simplified True if_True methodIdTableExtensions_map Let_def, simplified]
      let ?st = "sc_method_table sctx"
      have st: "publishable ?st" "mEntries ?st \<noteq> []"
        using server True by auto
      have "length (methodTableValue (mEntries ?st)) \<le> 65535"
        using map_of_tlv_length [OF mm(2)] small by simp
      then have len: "length (mEntries ?st) < 2 ^ 32"
        by (intro published_table_small) (simp_all add: publishable_fits st methodTableValue_def)
      have ok: "table_ok (ps_remote_method_table s)"
        using client by (simp add: s_def)
      consider "applyMethodIdTableExtensions s x = Inr (False, s)"
        | t where "applyMethodIdTableExtensions s x =
            Inr (True, s\<lparr>ps_remote_method_table := t, ps_method_id_enabled := True\<rparr>)" "table_copy t ?st"
        using apply_published_table [OF st len ok mm(2) mm(4) mm(5)] by blast
      then show ?thesis
      proof cases
        case (2 t)
        then show ?thesis
          using True by (intro exI [of _ t] exI [of _ True]) (simp add: serverHelloMethodId_def Let_def contains_def mm s_def)
      qed (rule skip)
    next
      case hint
      note mm = m [unfolded hint(1), simplified True if_True methodIdTableExtensions_map Let_def, simplified]
      have "applyMethodIdTableExtensions s x = Inr (False, s)"
        by (simp add: applyMethodIdTableExtensions_def contains_def mm)
      then show ?thesis by (rule skip)
    next
      case nothing
      then show ?thesis using none m(1) by (simp add: contains_def)
    qed
  qed
qed

lemma client_applies_reply:
  assumes server: "a \<Longrightarrow> publishable (sc_method_table sctx) \<and> mEntries (sc_method_table sctx) \<noteq> []"
    and client: "table_ok (ps_remote_method_table csess)" "mEntries (ps_remote_method_table csess) = []"
    and small: "length (tlvs_bytes (reply_extensions sctx a b n)) \<le> 65535"
  shows "\<exists>csess'. handleClientControl env csess (backend_encodeHello env (reply_extensions sctx a b n)) =
      Inr (True, csess') \<and> ps_handshake_done csess' \<and> ps_compression_enabled csess' = b \<and>
    ps_compression_algorithm csess' = (if b then Alg_RunLength else Alg_None) \<and>
    (b \<longrightarrow> ps_compression_min_payload_size csess' = n) \<and>
    (ps_method_id_enabled csess' \<longrightarrow> a \<and> table_copy (ps_remote_method_table csess') (sc_method_table sctx))"
proof -
  define x where "x = reply_extensions sctx a b n"
  let ?x = "reply_extensions sctx a b n"
  note p = hello_frame(2) [OF reply_extensions_ok(1,2) small, of env]
  obtain t m where h: "serverHelloMethodId csess ?x =
      Inr (csess\<lparr>ps_method_id_enabled := False\<rparr>\<lparr>ps_remote_method_table := t, ps_method_id_enabled := m\<rparr>)"
    and m: "m \<longrightarrow> a \<and> table_copy t (sc_method_table sctx)"
    using hello_method_id [OF server client small] by blast
  have c: "contains ?x Ext_Compression \<longleftrightarrow> b"
    and r: "b \<Longrightarrow> readIntegerTlv ?x Ext_CompressionAlgorithm = (Inr (Some Alg_RunLength) :: (unit, _) checked)"
      "b \<Longrightarrow> readIntegerTlv ?x Ext_CompressionMinPayloadSize = (Inr (Some n) :: (unit, _) checked)"
    by (simp_all add: reply_extensions_compression readIntegerTlv_def readIntegerValue_whole)
  have "handleClientControl env csess (backend_encodeHello env ?x) =
      and_then (serverHelloMethodId csess ?x) (\<lambda>session. serverHelloCompression session ?x)"
    unfolding handleClientControl_def isHello_def handleServerHello_def p by simp
  moreover have "serverHelloCompression s x = Inr (True,
      (if b then s\<lparr>ps_compression_enabled := True, ps_compression_algorithm := Alg_RunLength,
                    ps_compression_min_payload_size := n, ps_handshake_done := True\<rparr>
       else s\<lparr>ps_compression_enabled := False, ps_compression_algorithm := Alg_None, ps_handshake_done := True\<rparr>))" for s
    using c r unfolding x_def [symmetric] by (simp add: serverHelloCompression_def Let_def supports_def)
  ultimately show ?thesis
    using m by (simp add: h x_def)
qed

lemma appendMethodIdHello_budget:
  "length (tlvs_bytes (appendMethodIdHelloExtensions sctx [])) \<le>
    min (opt_max_auto_method_table_extension_bytes (sc_options sctx)) 65535"
  by (auto simp: appendMethodIdHelloExtensions_def Let_def extensionsFitAutoBudget_def MaxExtensionBytes_def
      extensionWireSize_iff split: option.split_asm)

lemma contains_insert_iff: "contains (insert_or_assign k v m) k' \<longleftrightarrow> k' = k \<or> contains m k'"
  by (simp add: contains_iff del: insert_or_assign.simps)

lemma reply_extensions_length:
  "length (tlvs_bytes (reply_extensions sctx a b n)) =
    (if a then length (tlvs_bytes (appendMethodIdHelloExtensions sctx [])) else 0) + (if b then 17 else 0)"
proof -
  have k: "\<not> contains (appendMethodIdHelloExtensions sctx []) k"
    if "k \<in> {Ext_Compression, Ext_CompressionAlgorithm, Ext_CompressionMinPayloadSize}" for k
    by (cases rule: appendMethodIdHello_cases [of sctx])
      (use that in \<open>auto simp: contains_def methodIdTableExtensions_map Let_def\<close>)
  then have "\<not> contains (if a then appendMethodIdHelloExtensions sctx [] else []) k"
    if "k \<in> {Ext_Compression, Ext_CompressionAlgorithm, Ext_CompressionMinPayloadSize}" for k
    using that by (simp add: contains_def)
  then show ?thesis
    by (simp add: reply_extensions_def Let_def tlvs_bytes_insert_new contains_insert_iff del: insert_or_assign.simps)
qed

text \<open>A budget that leaves room for the compression extensions keeps every reply encodable.\<close>

lemma reply_extensions_small:
  assumes "opt_max_auto_method_table_extension_bytes (sc_options sctx) \<le> 65518"
  shows "length (tlvs_bytes (reply_extensions sctx a b n)) \<le> 65535"
  using appendMethodIdHello_budget [of sctx] assms by (simp add: reply_extensions_length)

subsection \<open>The exchange\<close>

text \<open>What the two sessions agree on after the exchange.\<close>

definition sessions_agree :: "PeerSession \<Rightarrow> PeerSession \<Rightarrow> method_table \<Rightarrow> bool" where
  "sessions_agree csess ssess table \<longleftrightarrow>
     ps_handshake_done csess \<and> ps_handshake_done ssess \<and>
     ps_compression_enabled csess = ps_compression_enabled ssess \<and>
     ps_compression_algorithm csess = ps_compression_algorithm ssess \<and>
     (ps_compression_enabled ssess \<longrightarrow>
        ps_compression_min_payload_size csess = ps_compression_min_payload_size ssess) \<and>
     (ps_method_id_enabled csess \<longrightarrow>
        ps_method_id_enabled ssess \<and> table_copy (ps_remote_method_table csess) table)"

lemma sessions_agree_compression:
  assumes "sessions_agree csess ssess table"
  shows "65 \<le> opt_max_compression_ratio options \<Longrightarrow> compression_agrees 65 options csess ssess"
    and "65 \<le> opt_max_compression_ratio options \<Longrightarrow> compression_agrees 65 options ssess csess"
  using assms by (simp_all add: sessions_agree_def compression_agrees_def)

lemma handleClientHello_agreed:
  assumes publish: "publishable (sc_method_table sctx)"
    and client: "table_ok (ps_remote_method_table csess)" "mEntries (ps_remote_method_table csess) = []"
    and server: "handleClientHello env sctx ssess (backend_encodeHello env (hello_extensions cctx)) =
      (Inr reply, ssess')"
    and reply: "reply \<noteq> []"
  shows "\<exists>csess'. handleClientControl env csess reply = Inr (True, csess') \<and>
    sessions_agree csess' ssess' (sc_method_table sctx)"
proof -
  let ?a = "agreed_method_id cctx sctx" and ?b = "agreed_compression cctx sctx"
  let ?n = "agreed_min_size cctx sctx ssess"
  have r: "reply = backend_encodeHello env (reply_extensions sctx ?a ?b ?n)"
    and s: "ssess' = ssess\<lparr>ps_method_id_enabled := ?a, ps_compression_enabled := ?b,
           ps_compression_algorithm := (if ?b then Alg_RunLength else Alg_None),
           ps_compression_min_payload_size := ?n, ps_handshake_done := True\<rparr>"
    using server unfolding handleClientHello_reply by (simp_all only: prod.inject sum.inject)
  have small: "length (tlvs_bytes (reply_extensions sctx ?a ?b ?n)) \<le> 65535"
    using reply unfolding r hello_frame(1) [OF reply_extensions_ok] .
  have "?a \<Longrightarrow> publishable (sc_method_table sctx) \<and> mEntries (sc_method_table sctx) \<noteq> []"
    using publish by (simp add: agreed_method_id_def)
  from client_applies_reply [OF this client small, of env] obtain csess' where
    c: "handleClientControl env csess reply = Inr (True, csess')"
      "ps_handshake_done csess'" "ps_compression_enabled csess' = ?b"
      "ps_compression_algorithm csess' = (if ?b then Alg_RunLength else Alg_None)"
      "?b \<longrightarrow> ps_compression_min_payload_size csess' = ?n"
      "ps_method_id_enabled csess' \<longrightarrow> ?a \<and> table_copy (ps_remote_method_table csess') (sc_method_table sctx)"
    unfolding r by blast
  have "sessions_agree csess' ssess' (sc_method_table sctx)"
    unfolding s using c(2-6) by (simp add: sessions_agree_def)
  with c(1) show ?thesis by blast
qed

lemma serverHelloCompression_done:
  assumes "serverHelloCompression s x = Inr (True, s')"
  shows "ps_handshake_done s'"
proof (cases "readIntegerTlv x Ext_CompressionAlgorithm :: (unit, u8 option) checked")
  case (Inr a)
  show ?thesis
    by (cases "readIntegerTlv x Ext_CompressionMinPayloadSize :: (unit, u32 option) checked")
      (use assms Inr in \<open>auto simp: serverHelloCompression_def Let_def split: if_splits option.splits\<close>)
qed (use assms in \<open>auto simp: serverHelloCompression_def Let_def split: if_splits\<close>)

lemma handleClientControl_done:
  "handleClientControl env session message = Inr (True, session') \<Longrightarrow> ps_handshake_done session'"
  by (auto simp: handleClientControl_def handleServerHello_def and_then_Inr_iff
      dest: serverHelloCompression_done split: if_split_asm sum.split_asm halt.split_asm)

lemma ensureClientReady_exchange:
  assumes todo: "\<not> ps_handshake_done csess" "hello_extensions cctx \<noteq> []"
    and send: "send ep (backend_encodeHello env (hello_extensions cctx)) =
      (Inr (length (backend_encodeHello env (hello_extensions cctx))), ep1)"
    and recv: "recv ep1 = (Inr reply, ep2)" "reply \<noteq> []"
    and accept: "handleClientControl env csess reply = Inr (True, csess')"
  shows "ensureClientReady env send recv cctx csess ep =
    (if opt_method_id (cc_options cctx) = Mode_Require \<and> \<not> ps_method_id_enabled csess'
     then Inl (Err (rpc_err MethodIdRequiredButUnsupported))
     else if opt_compression (cc_options cctx) = Mode_Require \<and> \<not> ps_compression_enabled csess'
     then Inl (Err (rpc_err CompressionRequiredButUnsupported))
     else Inr (), csess', ep2)"
proof -
  have go: "(ps_handshake_done csess \<or> \<not> feature_enabled (opt_method_id (cc_options cctx)) \<and>
      \<not> feature_enabled (opt_compression (cc_options cctx))) = False"
    using todo by (auto simp: hello_extensions_def Let_def split: if_splits)
  have upd: "csess'\<lparr>ps_handshake_done := True\<rparr> = csess'"
    using handleClientControl_done [OF accept] by (cases csess') simp
  show ?thesis
    unfolding ensureClientReady_def Let_def go if_False
    by (simp add: todo(2) send recv accept upd)
qed

subsection \<open>Properties\<close>

text \<open>C2 (functional). The Hello exchange ends in agreement: a client with a fresh session whose Hello
is answered by a non-empty reply applies it, holds the same compression setting as the server and,
where it will send method ids, an exact copy of the server's method table; it reports an error only
when a feature it requires was not granted.\<close>
theorem hello_agreement:
  assumes "publishable (sc_method_table sctx)"
    and "table_ok (ps_remote_method_table csess)" "mEntries (ps_remote_method_table csess) = []"
      "\<not> ps_handshake_done csess" "hello_extensions cctx \<noteq> []"
    and "handleClientHello env sctx ssess (backend_encodeHello env (hello_extensions cctx)) =
      (Inr reply, ssess')" "reply \<noteq> []"
    and "send ep (backend_encodeHello env (hello_extensions cctx)) =
      (Inr (length (backend_encodeHello env (hello_extensions cctx))), ep1)" "recv ep1 = (Inr reply, ep2)"
  shows "\<exists>csess'. sessions_agree csess' ssess' (sc_method_table sctx) \<and>
    ensureClientReady env send recv cctx csess ep =
      (if opt_method_id (cc_options cctx) = Mode_Require \<and> \<not> ps_method_id_enabled csess'
       then Inl (Err (rpc_err MethodIdRequiredButUnsupported))
       else if opt_compression (cc_options cctx) = Mode_Require \<and> \<not> ps_compression_enabled csess'
       then Inl (Err (rpc_err CompressionRequiredButUnsupported))
       else Inr (), csess', ep2)"
  using handleClientHello_agreed [OF assms(1,2,3,6,7)]
    ensureClientReady_exchange [where send = send and recv = recv, OF assms(4,5,8,9,7)] by blast


definition sample_env :: payload_env where
  "sample_env = \<lparr>env_codec = 1, env_encode_error = (\<lambda>_. None), env_decode_error = (\<lambda>_. None),
     env_error_value = (\<lambda>_. 0), env_error_message = (\<lambda>_. [])\<rparr>"

definition sample_options :: Options where
  "sample_options = default_options
     \<lparr>opt_compression := Mode_Auto, opt_max_auto_method_table_extension_bytes := 1024\<rparr>"

definition sample_client :: ClientContext where
  "sample_client = makeClientContext sample_options None"

definition sample_server :: ServerContext where
  "sample_server = \<lparr>sc_options = sample_options, sc_stats = None, sc_method_table = sample_table 3\<rparr>"

lemma sample_publishable: "publishable (sample_table 3)"
  using sample_table_ok [of 3] by (simp add: publishable_def sample_table_def name_short_def)

lemma sample_session: "table_ok (ps_remote_method_table (new_session 3))"
  "mEntries (ps_remote_method_table (new_session 3)) = []" "\<not> ps_handshake_done (new_session 3)"
  using table_ok_new [of 3] by (simp_all add: new_session_def new_table_def)

lemma hello_agreement_witness:
  "\<exists>csess' ssess'. sessions_agree csess' ssess' (sample_table 3) \<and>
    fst (ensureClientReady sample_env (\<lambda>_ m. (Inr (length m), ())) (\<lambda>_. (Inr (projr (fst (handleClientHello
      sample_env sample_server (new_session 3) (backend_encodeHello sample_env (hello_extensions sample_client))))), ()))
      sample_client (new_session 3) ()) = Inr ()"
proof -
  let ?h = "handleClientHello sample_env sample_server (new_session 3)
    (backend_encodeHello sample_env (hello_extensions sample_client))"
  let ?reply = "projr (fst ?h)"
  have h: "?h = (Inr ?reply, snd ?h)"
    unfolding handleClientHello_reply by simp
  have small: "opt_max_auto_method_table_extension_bytes (sc_options sample_server) \<le> 65518"
    by (simp add: sample_server_def sample_options_def)
  have ne: "?reply \<noteq> []" "hello_extensions sample_client \<noteq> []"
    using hello_frame(1) [OF reply_extensions_ok, of sample_env] reply_extensions_small [OF small]
      hello_extensions_map [of sample_client]
    unfolding handleClientHello_reply
    by (auto simp: Let_def sample_client_def sample_options_def makeClientContext_def default_options_def
        feature_enabled_def dest: fun_cong [where x = Ext_MethodId])
  have pub: "publishable (sc_method_table sample_server)"
    using sample_publishable by (simp add: sample_server_def)
  have opts: "opt_method_id (cc_options sample_client) = Mode_Auto"
    "opt_compression (cc_options sample_client) = Mode_Auto"
    by (simp_all add: sample_client_def makeClientContext_def sample_options_def default_options_def)
  obtain csess' where c: "sessions_agree csess' (snd ?h) (sc_method_table sample_server)"
    "ensureClientReady sample_env (\<lambda>_ m. (Inr (length m), ())) (\<lambda>_. (Inr ?reply, ())) sample_client (new_session 3) () =
      (if opt_method_id (cc_options sample_client) = Mode_Require \<and> \<not> ps_method_id_enabled csess'
       then Inl (Err (rpc_err MethodIdRequiredButUnsupported))
       else if opt_compression (cc_options sample_client) = Mode_Require \<and> \<not> ps_compression_enabled csess'
       then Inl (Err (rpc_err CompressionRequiredButUnsupported))
       else Inr (), csess', ())"
    using hello_agreement [OF pub sample_session ne(2) h ne(1), where ?send = "\<lambda>_ m. (Inr (length m), ())"
      and ?recv = "\<lambda>_. (Inr ?reply, ())" and ep = "()" and ?ep1.0 = "()" and ?ep2.0 = "()",
      OF refl refl] by blast
  have t: "sc_method_table sample_server = sample_table 3"
    by (simp add: sample_server_def)
  show ?thesis
    by (rule exI [of _ csess'], rule exI [of _ "snd ?h"], rule conjI [OF c(1) [unfolded t]])
      (simp only: c(2) opts fst_conv NekoRpcFeatureMode.distinct simp_thms if_False)
qed

text \<open>C30 (error). The budget of the method-table extensions leaves no room for the compression
extensions: when the table fills it to within 17 bytes of the frame's limit and compression is
agreed too, the server's reply is not a frame but the empty message.\<close>

theorem hello_reply_overflow:
  assumes "agreed_method_id cctx sctx" "agreed_compression cctx sctx"
    and "extensionsFitAutoBudget (sc_options sctx) (methodIdTableExtensions sctx True)"
    and "65518 < length (tlvs_bytes (methodIdTableExtensions sctx True))"
  shows "fst (handleClientHello env sctx ssess (backend_encodeHello env (hello_extensions cctx))) = Inr []"
proof -
  have "appendMethodIdHelloExtensions sctx [] = methodIdTableExtensions sctx True"
    using assms(3) by (simp add: appendMethodIdHelloExtensions_def Let_def)
  then have "\<not> length (tlvs_bytes (reply_extensions sctx True True n)) \<le> 65535" for n
    using assms(4) by (simp add: reply_extensions_length)
  then have "backend_encodeHello env (reply_extensions sctx True True n) = []" for n
    using hello_frame(1) [OF reply_extensions_ok, of env sctx True True n] by blast
  then show ?thesis
    unfolding handleClientHello_reply using assms(1,2) by simp
qed

definition wide_server :: ServerContext where
  "wide_server = \<lparr>sc_options = default_options\<lparr>opt_compression := Mode_Auto\<rparr>, sc_stats = None,
     sc_method_table = \<lparr>mVersion = 1, mMinimumCompatibleVersion = 1, mNextId = 1,
       mEntries = [\<lparr>me_id = 0, me_name = replicate 65470 CHR ''a'', me_signature_hash = 5, me_state = St_Active\<rparr>],
       mNameToId = [(replicate 65470 CHR ''a'', 0)], mMaxEntries = 3\<rparr>\<rparr>"

lemma hello_reply_overflow_witness:
  "fst (handleClientHello sample_env wide_server (new_session 3)
     (backend_encodeHello sample_env (hello_extensions sample_client))) = Inr []"
proof (rule hello_reply_overflow)
  show "agreed_method_id sample_client wide_server" "agreed_compression sample_client wide_server"
    by (simp_all add: agreed_method_id_def agreed_compression_def wide_server_def sample_client_def
        makeClientContext_def sample_options_def default_options_def feature_enabled_def)
  have "list_all entry_fits (mEntries (sc_method_table wide_server))"
    by (simp add: wide_server_def entry_fits_def name_short_def)
  then have len: "length (tlvs_bytes (methodIdTableExtensions wide_server True)) = 65526"
    by (simp add: methodIdTableExtensions_def Let_def tlvs_bytes_insert_new contains_insert_iff methodTableValue_def
        length_encode_entries wide_server_def length_integerValue contains_def del: insert_or_assign.simps)
  then show "65518 < length (tlvs_bytes (methodIdTableExtensions wide_server True))"
    by simp
  show "extensionsFitAutoBudget (sc_options wide_server) (methodIdTableExtensions wide_server True)"
    using len extensionWireSize_iff [of "methodIdTableExtensions wide_server True" 65526]
    by (simp add: extensionsFitAutoBudget_def wide_server_def default_options_def MaxExtensionBytes_def)
qed

text \<open>C31 (error). Requiring a feature, method ids or compression, only fails the first attempt: when the
server's Hello does not grant what the client requires, the attempt ends in the error of that feature, but
the Hello already marked the handshake as done, so a call that tries again on the same session goes ahead
without the feature.\<close>

theorem require_bypassed_on_retry:
  assumes "\<not> ps_handshake_done csess" "hello_extensions cctx \<noteq> []"
    and "opt_method_id (cc_options cctx) = Mode_Require \<and> \<not> ps_method_id_enabled csess' \<or>
      opt_compression (cc_options cctx) = Mode_Require \<and> \<not> ps_compression_enabled csess'"
    and "handleClientControl env csess reply = Inr (True, csess')"
    and "send ep (backend_encodeHello env (hello_extensions cctx)) =
      (Inr (length (backend_encodeHello env (hello_extensions cctx))), ep1)"
      "recv ep1 = (Inr reply, ep2)" "reply \<noteq> []"
  shows "ensureClientReady env send recv cctx csess ep =
      (Inl (Err (rpc_err (if opt_method_id (cc_options cctx) = Mode_Require \<and> \<not> ps_method_id_enabled csess'
         then MethodIdRequiredButUnsupported else CompressionRequiredButUnsupported))), csess', ep2) \<and>
    ensureClientReady env send recv cctx csess' ep2 = (Inr (), csess', ep2)"
proof
  show "ensureClientReady env send recv cctx csess ep =
      (Inl (Err (rpc_err (if opt_method_id (cc_options cctx) = Mode_Require \<and> \<not> ps_method_id_enabled csess'
         then MethodIdRequiredButUnsupported else CompressionRequiredButUnsupported))), csess', ep2)"
    using ensureClientReady_exchange [where send = send and recv = recv, OF assms(1,2,5,6,7,4)] assms(3)
    by auto
  have "ps_handshake_done csess'"
    by (rule handleClientControl_done [OF assms(4)])
  then show "ensureClientReady env send recv cctx csess' ep2 = (Inr (), csess', ep2)"
    by (cases csess') (simp add: ensureClientReady_def Let_def)
qed

definition requiring_client :: ClientContext where
  "requiring_client = makeClientContext (default_options\<lparr>opt_method_id := Mode_Require\<rparr>) None"

lemma require_bypassed_on_retry_witness:
  "\<exists>csess'. ensureClientReady sample_env (\<lambda>_ m. (Inr (length m), ()))
      (\<lambda>_. (Inr (backend_encodeHello sample_env []), ())) requiring_client (new_session 3) () =
      (Inl (Err (rpc_err MethodIdRequiredButUnsupported)), csess', ()) \<and>
    ensureClientReady sample_env (\<lambda>_ m. (Inr (length m), ()))
      (\<lambda>_. (Inr (backend_encodeHello sample_env []), ())) requiring_client csess' () = (Inr (), csess', ())"
proof -
  let ?s = "(new_session 3)\<lparr>ps_method_id_enabled := False, ps_compression_enabled := False,
    ps_compression_algorithm := Alg_None, ps_handshake_done := True\<rparr>"
  have p: "parseFrame (backend_encodeHello sample_env []) (env_codec sample_env) =
      Inr (\<lparr>fp_header = stamped \<lparr>fp_header = default_header\<lparr>h_kind := Kind_Hello, h_codec := env_codec sample_env\<rparr>,
        fp_method = [], fp_extensions = [], fp_payload = []\<rparr>, fp_method = [], fp_extensions = [], fp_payload = []\<rparr>)"
    using hello_frame(2) [of "[]" sample_env] by simp
  have c: "handleClientControl sample_env (new_session 3) (backend_encodeHello sample_env []) = Inr (True, ?s)"
    unfolding handleClientControl_def isHello_def handleServerHello_def p
    by (simp add: serverHelloMethodId_def serverHelloCompression_def Let_def contains_def new_session_def)
  have ne: "backend_encodeHello sample_env [] \<noteq> []"
    using hello_frame(1) [of "[]" sample_env] by simp
  have x: "hello_extensions requiring_client \<noteq> []"
    using hello_extensions_map [of requiring_client]
    by (auto simp: requiring_client_def makeClientContext_def default_options_def feature_enabled_def
        dest: fun_cong [where x = Ext_MethodId])
  have r: "opt_method_id (cc_options requiring_client) = Mode_Require" "\<not> ps_method_id_enabled ?s"
    by (simp_all add: requiring_client_def makeClientContext_def)
  show ?thesis
    using r require_bypassed_on_retry [OF sample_session(3) x _ c, where ep = "()" and ?ep1.0 = "()"
        and ?ep2.0 = "()" and send = "\<lambda>_ m. (Inr (length m), ())"
        and recv = "\<lambda>_. (Inr (backend_encodeHello sample_env []), ())", OF _ refl refl ne] by auto
qed

end
