(* ===== verification/Rpc_Endpoint.thy ===== *)
theory Rpc_Endpoint
  imports Rpc_Frame
begin

text \<open>
  \<open>NekoRpcStreamEndpoint\<close> (\<open>rpc/private/stream_endpoint.hpp\<close>): framing over a byte stream. The
  stream belongs to the \<open>ilias\<close> library and is a parameter: its \<open>readAll\<close>, \<open>writeAll\<close> and
  \<open>flush_stream\<close> return the new state of the stream with an error or a result. The write mutex
  serialises whole \<open>_writeFrame\<close> calls, which are therefore taken one after the other.
\<close>

text \<open>\<open>readAll stream n\<close> returns the bytes it stored; fewer than \<open>n\<close> at the end of the stream.\<close>

type_synonym 's read_all = "'s \<Rightarrow> nat \<Rightarrow> (error_code + bytes) \<times> 's"
type_synonym 's write_all = "'s \<Rightarrow> bytes \<Rightarrow> (error_code + nat) \<times> 's"
type_synonym 's flush = "'s \<Rightarrow> (error_code + unit) \<times> 's"

definition endpoint_readFrame ::
  "'s read_all \<Rightarrow> u8 \<Rightarrow> NekoRpcFrameLimits \<Rightarrow> 's \<Rightarrow> bytes rpc_result \<times> 's" where
  "endpoint_readFrame readAll codec limits stream =
     (case readAll stream headerSize of
        (Inl e, stream) \<Rightarrow> (Inl (Err e), stream)
      | (Inr hdr, stream) \<Rightarrow>
        if length hdr \<noteq> headerSize then (Inl (Err (Io_Code UnexpectedEOF)), stream)
        else case headerBodySize hdr codec limits of
          Inl e \<Rightarrow> (Inl e, stream)
        | Inr body_size \<Rightarrow>
          if body_size = 0 then (Inr hdr, stream)
          else case readAll stream body_size of
            (Inl e, stream) \<Rightarrow> (Inl (Err e), stream)
          | (Inr body, stream) \<Rightarrow>
            if length body \<noteq> body_size then (Inl (Err (Io_Code UnexpectedEOF)), stream)
            else (Inr (hdr @ body), stream))"

definition endpoint_writeFrame ::
  "'s write_all \<Rightarrow> 's flush \<Rightarrow> u8 \<Rightarrow> NekoRpcFrameLimits \<Rightarrow> bytes \<Rightarrow> 's \<Rightarrow> unit rpc_result \<times> 's" where
  "endpoint_writeFrame writeAll flush codec limits frame stream =
     (if length frame < headerSize \<or> length frame > max_frame_bytes limits
      then (Inl (Err (Io_Code MessageTooLarge)), stream)
      else case headerBodySize (take headerSize frame) codec limits of
        Inl e \<Rightarrow> (Inl e, stream)
      | Inr body_size \<Rightarrow>
        if body_size \<noteq> length frame - headerSize then (Inl (Err (rpc_err InvalidRequest)), stream)
        else case writeAll stream frame of
          (Inl e, stream) \<Rightarrow> (Inl (Err e), stream)
        | (Inr ret, stream) \<Rightarrow>
          if ret \<noteq> length frame then (Inl (Err (Io_Code WriteZero)), stream)
          else case flush stream of
            (Inl e, stream) \<Rightarrow> (Inl (Err e), stream)
          | (Inr _, stream) \<Rightarrow> (Inr (), stream))"

definition endpoint_recv ::
  "'s read_all \<Rightarrow> u8 \<Rightarrow> NekoRpcFrameLimits \<Rightarrow> 's \<Rightarrow> bytes rpc_result \<times> 's" where
  "endpoint_recv readAll codec limits stream = endpoint_readFrame readAll codec limits stream"

definition endpoint_send ::
  "'s write_all \<Rightarrow> 's flush \<Rightarrow> u8 \<Rightarrow> NekoRpcFrameLimits \<Rightarrow> bytes \<Rightarrow> 's \<Rightarrow> nat rpc_result \<times> 's" where
  "endpoint_send writeAll flush codec limits frame stream =
     (case endpoint_writeFrame writeAll flush codec limits frame stream of
        (Inl e, stream) \<Rightarrow> (Inl e, stream)
      | (Inr _, stream) \<Rightarrow> (Inr (length frame), stream))"

text \<open>Several calls in a row, stopping at the first error.\<close>

fun send_frames ::
  "'s write_all \<Rightarrow> 's flush \<Rightarrow> u8 \<Rightarrow> NekoRpcFrameLimits \<Rightarrow> bytes list \<Rightarrow> 's \<Rightarrow> unit rpc_result \<times> 's" where
  "send_frames writeAll flush codec limits [] stream = (Inr (), stream)"
| "send_frames writeAll flush codec limits (f # fs) stream =
     (case endpoint_send writeAll flush codec limits f stream of
        (Inl e, stream) \<Rightarrow> (Inl e, stream)
      | (Inr _, stream) \<Rightarrow> send_frames writeAll flush codec limits fs stream)"

fun recv_frames ::
  "'s read_all \<Rightarrow> u8 \<Rightarrow> NekoRpcFrameLimits \<Rightarrow> nat \<Rightarrow> 's \<Rightarrow> bytes list rpc_result \<times> 's" where
  "recv_frames readAll codec limits 0 stream = (Inr [], stream)"
| "recv_frames readAll codec limits (Suc n) stream =
     (case endpoint_recv readAll codec limits stream of
        (Inl e, stream) \<Rightarrow> (Inl e, stream)
      | (Inr f, stream) \<Rightarrow>
        (case recv_frames readAll codec limits n stream of
           (Inl e, stream) \<Rightarrow> (Inl e, stream)
         | (Inr fs, stream) \<Rightarrow> (Inr (f # fs), stream)))"

text \<open>
  The documented behaviour of a reliable stream: what \<open>writeAll\<close> was given is appended to the
  bytes in flight, \<open>readAll\<close> removes the requested number from their front when they are there.
\<close>

definition reliable_stream :: "('s \<Rightarrow> bytes) \<Rightarrow> 's read_all \<Rightarrow> 's write_all \<Rightarrow> 's flush \<Rightarrow> bool" where
  "reliable_stream pending readAll writeAll flush \<longleftrightarrow>
     (\<forall>s n. n \<le> length (pending s) \<longrightarrow>
        fst (readAll s n) = Inr (take n (pending s)) \<and> pending (snd (readAll s n)) = drop n (pending s)) \<and>
     (\<forall>s bs. fst (writeAll s bs) = Inr (length bs) \<and> pending (snd (writeAll s bs)) = pending s @ bs) \<and>
     (\<forall>s. fst (flush s) = Inr () \<and> pending (snd (flush s)) = pending s)"

text \<open>A frame the sender's check lets through.\<close>

definition framed :: "u8 \<Rightarrow> NekoRpcFrameLimits \<Rightarrow> bytes \<Rightarrow> bool" where
  "framed codec limits f \<longleftrightarrow> headerSize \<le> length f \<and> length f \<le> max_frame_bytes limits \<and>
     headerBodySize (take headerSize f) codec limits = Inr (length f - headerSize)"

lemma writeFrame_framed:
  "fst (endpoint_writeFrame writeAll flush codec limits f s) = Inr () \<Longrightarrow> framed codec limits f"
  by (auto simp: endpoint_writeFrame_def framed_def split: if_splits sum.splits prod.splits)

lemma framed_encodeFrame:
  "sendable f \<Longrightarrow> framed codec limits (encodeFrame f) \<longleftrightarrow>
    knownKind (h_kind (fp_header f)) \<and> h_codec (fp_header f) = codec \<and> within_limits limits f"
  unfolding framed_def
  by (subst headerBodySize_encodeFrame) (auto simp: within_limits_def length_encodeFrame)

lemma send_framed:
  assumes "reliable_stream pending readAll writeAll flush" "framed codec limits f"
  shows "fst (endpoint_send writeAll flush codec limits f s) = Inr (length f)"
    and "pending (snd (endpoint_send writeAll flush codec limits f s)) = pending s @ f"
  using assms
  by (auto simp: endpoint_send_def endpoint_writeFrame_def framed_def reliable_stream_def
      split: sum.splits prod.splits) (metis fst_conv snd_conv sum.distinct(1) sum.inject(2))+

lemma readAll_reliable:
  assumes "reliable_stream pending readAll writeAll flush" "pending s = a @ b"
  obtains s' where "readAll s (length a) = (Inr a, s')" "pending s' = b"
proof (rule that)
  have "fst (readAll s (length a)) = Inr a \<and> pending (snd (readAll s (length a))) = b"
    using assms by (auto simp: reliable_stream_def)
  then show "readAll s (length a) = (Inr a, snd (readAll s (length a)))"
    and "pending (snd (readAll s (length a))) = b"
    by (auto simp: prod_eq_iff)
qed

lemma recv_framed:
  assumes rel: "reliable_stream pending readAll writeAll flush" and f: "framed codec limits f"
    and s: "pending s = f @ rest"
  obtains s' where "endpoint_recv readAll codec limits s = (Inr f, s')" "pending s' = rest"
proof -
  let ?h = "take headerSize f" and ?b = "drop headerSize f"
  have len: "length ?h = headerSize" "length ?b = length f - headerSize"
    using f by (auto simp: framed_def)
  from s have "pending s = ?h @ ?b @ rest"
    by (metis append.assoc append_take_drop_id)
  then obtain s1 where h: "readAll s headerSize = (Inr ?h, s1)" "pending s1 = ?b @ rest"
    using readAll_reliable [OF rel] len(1) by metis
  then obtain s2 where b: "readAll s1 (length ?b) = (Inr ?b, s2)" "pending s2 = rest"
    using readAll_reliable [OF rel] by metis
  show thesis
  proof (cases "?b = []")
    case True
    then have "endpoint_recv readAll codec limits s = (Inr f, s1)"
      using h len f by (simp add: endpoint_recv_def endpoint_readFrame_def framed_def)
    with True h show thesis by (intro that) auto
  next
    case False
    then have "endpoint_recv readAll codec limits s = (Inr f, s2)"
      using h b len f by (simp add: endpoint_recv_def endpoint_readFrame_def framed_def)
    with b show thesis by (intro that) auto
  qed
qed

lemma recv_frames_framed:
  assumes rel: "reliable_stream pending readAll writeAll flush"
  shows "list_all (framed codec limits) fs \<Longrightarrow> pending s = concat fs @ rest \<Longrightarrow>
    \<exists>s'. recv_frames readAll codec limits (length fs) s = (Inr fs, s') \<and> pending s' = rest"
proof (induction fs arbitrary: s)
  case (Cons f fs)
  then obtain s1 where r: "endpoint_recv readAll codec limits s = (Inr f, s1)" "pending s1 = concat fs @ rest"
    using recv_framed [OF rel, of codec limits f s "concat fs @ rest"] by auto
  with Cons obtain s' where "recv_frames readAll codec limits (length fs) s1 = (Inr fs, s')" "pending s' = rest"
    by auto
  with r show ?case by simp
qed simp

lemma send_frames_pending:
  assumes rel: "reliable_stream pending readAll writeAll flush"
  shows "send_frames writeAll flush codec limits fs s = (Inr (), s') \<Longrightarrow>
    list_all (framed codec limits) fs \<and> pending s' = pending s @ concat fs"
proof (induction fs arbitrary: s)
  case (Cons f fs)
  then obtain n s1 where f: "endpoint_send writeAll flush codec limits f s = (Inr n, s1)"
    and fs: "send_frames writeAll flush codec limits fs s1 = (Inr (), s')"
    by (auto split: prod.splits sum.splits)
  then have "framed codec limits f"
    using writeFrame_framed [of writeAll flush codec limits f s]
    by (auto simp: endpoint_send_def split: prod.splits sum.splits)
  moreover have "pending s1 = pending s @ f"
    using send_framed(2) [OF rel calculation, of s] f by simp
  ultimately show ?case
    using Cons.IH [OF fs] by simp
qed simp

subsection \<open>Properties\<close>

text \<open>C21 (functional). Over a reliable stream the endpoints deliver frames whole and in order: after
  any number of sends that reported success, as many receives of the peer return exactly those
  frames, and the stream is again at a frame boundary.\<close>

theorem endpoint_fifo:
  assumes "reliable_stream pending readAll writeAll flush" and "pending s = []"
    and "send_frames writeAll flush codec limits fs s = (Inr (), s')"
  shows "\<exists>s''. recv_frames readAll codec limits (length fs) s' = (Inr fs, s'') \<and> pending s'' = []"
  using recv_frames_framed [OF assms(1), of codec limits fs s' "[]"]
    send_frames_pending [OF assms(1,3)] assms(2) by simp

definition pipe_read :: "bytes read_all" where
  "pipe_read s n = (Inr (take n s), drop n s)"

definition pipe_write :: "bytes write_all" where
  "pipe_write s bs = (Inr (length bs), s @ bs)"

definition pipe_flush :: "bytes flush" where
  "pipe_flush s = (Inr (), s)"

lemma pipe_reliable: "reliable_stream id pipe_read pipe_write pipe_flush"
  by (simp add: reliable_stream_def pipe_read_def pipe_write_def pipe_flush_def)

definition two_frames :: "bytes list" where
  "two_frames = [encodeFrame sample_frame, encodeHello [] 1]"

lemma framed_two_frames: "list_all (framed 1 default_limits) two_frames"
  by (simp add: two_frames_def encodeHello_def framed_encodeFrame sample_frame_def sendable_def
      tlv_short_def tlvs_bytes_def tlv_bytes_def knownKind_def kind_defs within_limits_def
      default_limits_def default_header_def)

lemma pipe_send:
  "framed codec limits f \<Longrightarrow>
    endpoint_send pipe_write pipe_flush codec limits f s = (Inr (length f), s @ f)"
  by (auto simp: endpoint_send_def endpoint_writeFrame_def framed_def pipe_write_def pipe_flush_def)

lemma endpoint_fifo_witness:
  "\<exists>s''. recv_frames pipe_read 1 default_limits (length two_frames) (concat two_frames) = (Inr two_frames, s'') \<and> id s'' = []"
proof -
  have "send_frames pipe_write pipe_flush 1 default_limits two_frames [] = (Inr (), concat two_frames)"
    using framed_two_frames by (simp add: two_frames_def pipe_send)
  from endpoint_fifo [OF pipe_reliable _ this] show ?thesis
    by simp
qed

text \<open>(error). Nothing is written for a message that is not a frame within the limits: a send
  that fails the check leaves the stream as it was and reports why.\<close>

theorem endpoint_send_rejects:
  assumes "\<not> framed codec limits f"
  shows "snd (endpoint_send writeAll flush codec limits f s) = s \<and>
    (\<exists>e. fst (endpoint_send writeAll flush codec limits f s) = Inl (Err e) \<and>
       (e = Io_Code MessageTooLarge \<or> e = rpc_err InvalidRequest))"
  using assms
  by (auto simp: endpoint_send_def endpoint_writeFrame_def framed_def split: sum.splits prod.splits
      if_splits dest: headerBodySize_InlD)

lemma endpoint_send_rejects_witness:
  "snd (endpoint_send pipe_write pipe_flush 2 default_limits (encodeFrame sample_frame) []) = []"
proof -
  have "\<not> framed 2 default_limits (encodeFrame sample_frame)"
    by (subst framed_encodeFrame)
      (simp_all add: sample_frame_def sendable_def tlv_short_def tlvs_bytes_def tlv_bytes_def default_header_def)
  from endpoint_send_rejects [OF this, of pipe_write pipe_flush "[]"] show ?thesis
    by (rule conjunct1)
qed

end
