(* ===== verification/Rpc_Calls.thy ===== *)
theory Rpc_Calls
  imports Rpc_Negotiation Rpc_Endpoint
begin

unbundle bit_operations_syntax

text \<open>
  Calls over an established session: a request the client encodes is what the server dispatches,
  the answer is what the client's caller gets, a method-id error repairs the client's table, and
  what the decoders do with any other frame.
\<close>

subsection \<open>The decoders stay inside their buffers\<close>

lemma in_bounds_readIntegerTlv [fault_free]: "in_bounds (readIntegerTlv m k :: ('e, 'a::len word option) checked)"
  unfolding readIntegerTlv_def by (auto intro!: fault_free split: option.splits)

lemma in_bounds_incoming_name [fault_free]: "in_bounds (NekoRpcIncomingMethodName t b parts)"
proof -
  have some: "res_status (resolve t i v h True) = Res_Ok \<Longrightarrow> res_entry (resolve t i v h True) \<noteq> None" for i v h
    by (auto simp: resolve_def Let_def split: option.splits if_splits)
  have "in_bounds (case res_status (resolve t i v h True) of
      Res_Ok \<Rightarrow> (case res_entry (resolve t i v h True) of
        None \<Rightarrow> Inl Out_Of_Bounds | Some entry \<Rightarrow> Inr (me_name entry))
      | Res_TableOutdated \<Rightarrow> Inl (Err (rpc_err MethodTableOutdated))
      | Res_MethodNotFound \<Rightarrow> Inl (Err (rpc_err MethodIdNotFound))
      | Res_MethodRemoved \<Rightarrow> Inl (Err (rpc_err MethodIdRemoved))
      | Res_SignatureMismatch \<Rightarrow> Inl (Err (rpc_err MethodSignatureMismatch)))" for i v h
    using some [of i v h]
    by (auto split: resolve_status.splits option.splits)
  then show ?thesis
    unfolding NekoRpcIncomingMethodName_def Let_def
    by (auto intro!: fault_free split: option.splits)
qed

lemma in_bounds_decompress_incoming:
  "in_bounds (fst (decompress_incoming_payload decompress options session stats parts))"
  using in_bounds_decompress [of "fp_payload parts" "ps_compression_algorithm session"
      "output_budget options (length (fp_payload parts))"]
  by (auto simp: decompress_incoming_payload_def Let_def in_bounds_def split: sum.splits)

lemma decode_request_frame_Inr: "\<exists>r. decode_request_frame env context session parts d = Inr r"
  using in_bounds_incoming_name [of "sc_method_table context" "ps_method_id_enabled session" parts]
  by (auto simp: decode_request_frame_def Let_def in_bounds_def split: sum.splits halt.splits)

text \<open>The answers to a frame: a request to dispatch, or an error response under its id.\<close>

definition dispatches :: "FrameParts \<Rightarrow> DecodeResult \<Rightarrow> bool" where
  "dispatches parts r \<longleftrightarrow> dres_ok r \<and> dres_responses r = [] \<and>
     h_kind (fp_header parts) \<in> {Kind_Request, Kind_Notify} \<and>
     (\<exists>q. dres_requests r = [q] \<and> dr_method q \<noteq> [] \<and> h_id (dr_header q) = h_id (fp_header parts) \<and>
        h_kind (dr_header q) = h_kind (fp_header parts))"

definition refuses :: "payload_env \<Rightarrow> FrameParts \<Rightarrow> DecodeResult \<Rightarrow> bool" where
  "refuses env parts r \<longleftrightarrow> dres_ok r \<and> dres_requests r = [] \<and> h_kind (fp_header parts) = Kind_Request \<and>
     (\<exists>e exts. dres_responses r = [makeErrorResponse env (h_id (fp_header parts)) e exts])"

definition silent :: "DecodeResult \<Rightarrow> bool" where
  "silent r \<longleftrightarrow> dres_requests r = [] \<and> dres_responses r = []"

lemma silent_empty [simp]: "silent empty_result" "silent (empty_result\<lparr>dres_ok := b\<rparr>)"
  by (simp_all add: silent_def empty_result_def)

lemma frame_error_answer:
  "silent (empty_result\<lparr>dres_ok := True, dres_responses := appendFrameError env [] parts e exts\<rparr>) \<or>
   refuses env parts (empty_result\<lparr>dres_ok := True, dres_responses := appendFrameError env [] parts e exts\<rparr>)"
  by (cases "h_kind (fp_header parts) = Kind_Request")
    (auto simp: silent_def refuses_def empty_result_def appendFrameError_def)

lemma decode_request_frame_answer:
  assumes "decode_request_frame env context session parts d = Inr r"
  shows "silent r \<or> dispatches parts r \<or> refuses env parts r"
proof (cases "NekoRpcIncomingMethodName (sc_method_table context) (ps_method_id_enabled session) parts")
  case (Inl h)
  then show ?thesis
    using assms frame_error_answer [of env parts]
    by (cases h) (auto simp: decode_request_frame_def split: if_split_asm)
next
  case (Inr n)
  then show ?thesis
    using assms by (auto simp: decode_request_frame_def dispatches_def empty_result_def silent_def Let_def
        split: if_split_asm)
qed

text \<open>C19 (safety). Whatever bytes arrive, \<open>decodeIncoming\<close> reads none outside the message and answers
at most once: with one request to dispatch, a Request or Notify of the frame's id and with a method
name, or with one error response, only to a frame of kind Request and under its id, or with neither.\<close>
theorem decode_incoming_safe:
  "\<exists>r sctx'. decodeIncoming env sctx ssess message = (Inr r, sctx') \<and>
    (silent r \<or> (\<exists>parts. parseFrame message (env_codec env) = Inr parts \<and>
      (dispatches parts r \<or> refuses env parts r)))"
proof (cases "validFrameSize env message (opt_frame_limits (sc_options sctx))")
  case False
  then show ?thesis by (simp add: decodeIncoming_def)
next
  case valid: True
  show ?thesis
  proof (cases "parseFrame message (env_codec env)")
    case (Inl e)
    with in_bounds_parseFrame [of message "env_codec env"] valid show ?thesis
      by (cases e) (simp_all add: decodeIncoming_def in_bounds_def)
  next
    case p: (Inr parts)
    let ?d = "decompress_incoming_payload decompress (sc_options sctx) ssess (sc_stats sctx) parts"
    show ?thesis
    proof (cases "fst ?d")
      case (Inl e)
      with in_bounds_decompress_incoming [of "sc_options sctx" ssess "sc_stats sctx" parts] valid p
        frame_error_answer [of env parts _ "[]"]
      show ?thesis
        by (cases e; cases ?d) (auto simp: decodeIncoming_def in_bounds_def)
    next
      case (Inr d)
      let ?c = "sctx\<lparr>sc_stats := snd ?d\<rparr>"
      obtain r where r: "decode_request_frame env ?c ssess parts d = Inr r"
        using decode_request_frame_Inr by blast
      then have "decodeIncoming env sctx ssess message = (Inr r, ?c)"
        using valid p Inr by (cases ?d) (simp add: decodeIncoming_def)
      with decode_request_frame_answer [OF r] p show ?thesis by blast
    qed
  qed
qed

subsection \<open>Requests and responses\<close>

text \<open>(functional). A request or notification the client encodes is exactly what the server
dispatches: the method's name, through a method id where one was agreed, the payload through
compression where it pays, and the id under which the client waits.\<close>

theorem request_reaches_dispatcher:
  assumes "encodeRequest env cctx csess method_name notification (Some payload) = (Inr req, cctx')"
    and "method_name \<noteq> []" and "sessions_agree csess ssess (sc_method_table sctx)"
    and "payload_passes (cc_options cctx) (sc_options sctx) csess ssess payload"
  shows "\<exists>h sctx'. decodeIncoming env sctx ssess (er_message req) =
      (Inr (empty_result\<lparr>dres_ok := True,
              dres_requests := [\<lparr>dr_header = h, dr_method = method_name, dr_payload = payload\<rparr>]\<rparr>), sctx') \<and>
    h_kind h = (if notification then Kind_Notify else Kind_Request) \<and> h_id h = er_id req"
  using assms(3) by (intro request_delivered [OF assms(1,2,4)]) (simp_all add: sessions_agree_def)

lemma encode_outgoing_plain:
  assumes "\<not> ps_compression_enabled session" "sendable f" "knownKind (h_kind (fp_header f))"
    "within_limits (opt_frame_limits options) f"
  shows "encode_outgoing_frame compress options session stats f = (Inr (encodeFrame f), stats)"
  using assms encode_checked_Inr_iff [of options f "encodeFrame f"] by (simp add: encode_outgoing_frame_def)

text \<open>Two ends that exchanged Hellos without agreeing on anything.\<close>

definition plain_session :: PeerSession where
  "plain_session = (new_session 3)\<lparr>ps_handshake_done := True\<rparr>"

lemma plain_session_simps [simp]:
  "\<not> ps_compression_enabled plain_session" "ps_compression_algorithm plain_session = Alg_None"
  "\<not> ps_method_id_enabled plain_session" "ps_handshake_done plain_session"
  by (simp_all add: plain_session_def new_session_def)

lemma plain_agree: "sessions_agree plain_session plain_session t"
  by (simp add: sessions_agree_def)

lemma plain_passes:
  "length p \<le> 100 \<Longrightarrow> opt_frame_limits o1 = opt_frame_limits o2 \<Longrightarrow> 100 \<le> opt_max_decompressed_payload_bytes o2 \<Longrightarrow>
    65 \<le> opt_max_compression_ratio o2 \<Longrightarrow> payload_passes o1 o2 plain_session plain_session p"
  by (auto simp: payload_passes_def compression_agrees_def compression_safe_def limits_cover_def size_max_def)

lemma sample_request_encodes:
  "encodeRequest sample_env sample_client plain_session ''add'' False (Some [7, 7]) =
    (Inr \<lparr>er_message = encodeFrame (request_frame sample_env plain_session ''add'' False 1 [7, 7]), er_id = 1\<rparr>,
     sample_client\<lparr>cc_next_id := 1, cc_stats := None\<rparr>)"
proof -
  let ?f = "request_frame sample_env plain_session ''add'' False 1 [7, 7]"
  have f: "?f = \<lparr>fp_header = default_header\<lparr>h_kind := Kind_Request, h_codec := 1, h_id := 1\<rparr>,
      fp_method = bytes_of_chars ''add'', fp_extensions = [], fp_payload = [7, 7]\<rparr>"
    by (simp add: request_frame_def sample_env_def extensionViews_def bytes_of_chars_def)
  have c: "cc_options sample_client = sample_options" "cc_next_id sample_client = 0"
    "cc_stats sample_client = None"
    by (simp_all add: sample_client_def makeClientContext_def)
  have "encode_outgoing_frame compress sample_options plain_session None ?f = (Inr (encodeFrame ?f), None)"
    by (rule encode_outgoing_plain) (simp_all add: f sendable_def knownKind_def within_limits_def sample_options_def
        default_options_def default_limits_def bytes_of_chars_def headerSize_def)
  then show ?thesis
    by (simp add: encodeRequest_def c next_request_id_def Let_def)
qed

lemma request_reaches_dispatcher_witness:
  "\<exists>h sctx'. decodeIncoming sample_env sample_server plain_session
      (encodeFrame (request_frame sample_env plain_session ''add'' False 1 [7, 7])) =
      (Inr (empty_result\<lparr>dres_ok := True,
              dres_requests := [\<lparr>dr_header = h, dr_method = ''add'', dr_payload = [7, 7]\<rparr>]\<rparr>), sctx') \<and>
    h_kind h = Kind_Request \<and> h_id h = 1"
  using request_reaches_dispatcher [OF sample_request_encodes _ plain_agree, of sample_server] plain_passes
  by (simp add: sample_client_def makeClientContext_def sample_server_def sample_options_def default_options_def)

text \<open>(functional). What a method returns is what its caller gets: the value the client's
serializer reads from the payload, under the id of the request, with the session unchanged.\<close>

theorem response_reaches_caller:
  assumes "appendMethodReturn env [] request (Inr (Some payload)) = [response]"
    and "encodeResponseFrameFor (sc_options sctx) ssess stats response = (Inr msg, stats')"
    and "payload_passes (sc_options sctx) (cc_options cctx) ssess csess payload"
    and "dec payload = Some v"
  shows "\<exists>cctx'. decodeResponse env dec cctx csess msg (h_id (dr_header request)) = (Inr v, cctx', csess)"
proof -
  have r: "response = makeResponse env (h_id (dr_header request)) payload 0 []"
    using assms(1) by (simp add: appendMethodReturn_def split: if_splits)
  show ?thesis
    using response_frame_delivered [OF assms(2) [unfolded r] _ _ assms(3), of dec] assms(4)
    by (auto simp: decode_response_frame_def)
qed

lemma plain_response_encodes:
  "length payload \<le> 100 \<Longrightarrow> env_codec env = 1 \<Longrightarrow>
    encodeResponseFrameFor sample_options plain_session None (makeResponse env rid payload flags []) =
      (Inr (encodeResponseFrame (makeResponse env rid payload flags [])), None)"
  unfolding encodeResponseFrameFor_def encodeResponseFrame_def
  by (rule encode_outgoing_plain) (simp_all add: response_frame_def makeResponse_def sendable_def knownKind_def
      within_limits_def sample_options_def default_options_def default_limits_def headerSize_def default_header_def)

definition sample_request :: DecodedRequest where
  "sample_request = \<lparr>dr_header = default_header\<lparr>h_id := 5\<rparr>, dr_method = ''add'', dr_payload = []\<rparr>"

lemma response_reaches_caller_witness:
  "\<exists>cctx'. decodeResponse sample_env Some sample_client plain_session
      (encodeResponseFrame (makeResponse sample_env 5 [9] 0 [])) (h_id (dr_header sample_request)) =
    (Inr [9], cctx', plain_session)"
proof (rule response_reaches_caller)
  show "appendMethodReturn sample_env [] sample_request (Inr (Some [9])) = [makeResponse sample_env 5 [9] 0 []]"
    by (simp add: appendMethodReturn_def sample_request_def expectsResponse_def default_header_def)
  show "encodeResponseFrameFor (sc_options sample_server) plain_session None (makeResponse sample_env 5 [9] 0 []) =
      (Inr (encodeResponseFrame (makeResponse sample_env 5 [9] 0 [])), None)"
    by (simp add: plain_response_encodes sample_server_def sample_env_def)
  show "payload_passes (sc_options sample_server) (cc_options sample_client) plain_session plain_session [9]"
    by (rule plain_passes) (simp_all add: sample_server_def sample_client_def makeClientContext_def
        sample_options_def default_options_def)
qed simp

text \<open>(error). An error a method returns arrives as the error of the call: its numeric value
survives as a code of the RPC category, whatever category it had, provided the serializer reads
back the error object it wrote and the value is not one of the method-id errors.\<close>

theorem error_reaches_caller:
  assumes "appendMethodReturn env [] request (Inl e) = [response]"
    and "encodeResponseFrameFor (sc_options sctx) ssess stats response = (Inr msg, stats')"
    and "env_encode_error env \<lparr>ne_code = error_value env e, ne_message = error_message env e, ne_data = []\<rparr> = Some b"
    and "env_decode_error env b =
      Some \<lparr>ne_code = error_value env e, ne_message = error_message env e, ne_data = []\<rparr>"
    and "\<not> isMethodIdError (Rpc_Code (error_value env e))"
    and "payload_passes (sc_options sctx) (cc_options cctx) ssess csess b"
  shows "\<exists>cctx'. decodeResponse env dec cctx csess msg (h_id (dr_header request)) =
    (Inl (Err (Rpc_Code (error_value env e))), cctx', csess)"
proof -
  have r: "response = makeResponse env (h_id (dr_header request)) b Flag_Error []"
    using assms(1,3) by (simp add: appendMethodReturn_def makeErrorResponse_def split: if_splits)
  show ?thesis
    using response_frame_delivered [OF assms(2) [unfolded r] _ _ assms(6), of dec] assms(4,5)
    by (auto simp: decode_response_frame_def response_error_def)
qed

text \<open>An environment whose error object is its code.\<close>

definition coding_env :: payload_env where
  "coding_env = sample_env\<lparr>env_encode_error := (\<lambda>e. Some [word_of_int (ne_code e)]),
     env_decode_error := (\<lambda>b. Some \<lparr>ne_code = uint (hd b), ne_message = rpc_error_message (uint (hd b)), ne_data = []\<rparr>)\<rparr>"

lemma error_reaches_caller_witness:
  "\<exists>cctx'. decodeResponse coding_env (Some :: bytes \<Rightarrow> bytes option) sample_client plain_session
      (encodeResponseFrame (makeResponse coding_env 5 [6] Flag_Error [])) (h_id (dr_header sample_request)) =
    (Inl (Err (Rpc_Code (error_value coding_env (Rpc_Code 6)))), cctx', plain_session)"
proof (rule error_reaches_caller)
  show "appendMethodReturn coding_env [] sample_request (Inl (Rpc_Code 6)) =
      [makeResponse coding_env 5 [6] Flag_Error []]"
    by (simp add: appendMethodReturn_def sample_request_def expectsResponse_def default_header_def
        makeErrorResponse_def coding_env_def error_value_def)
  show "encodeResponseFrameFor (sc_options sample_server) plain_session None
      (makeResponse coding_env 5 [6] Flag_Error []) =
      (Inr (encodeResponseFrame (makeResponse coding_env 5 [6] Flag_Error [])), None)"
    by (simp add: plain_response_encodes sample_server_def coding_env_def sample_env_def)
  show "payload_passes (sc_options sample_server) (cc_options sample_client) plain_session plain_session [6]"
    by (rule plain_passes) (simp_all add: sample_server_def sample_client_def makeClientContext_def
        sample_options_def default_options_def)
  show "env_encode_error coding_env \<lparr>ne_code = error_value coding_env (Rpc_Code 6),
      ne_message = error_message coding_env (Rpc_Code 6), ne_data = []\<rparr> = Some [6]"
    by (simp add: coding_env_def error_value_def)
  show "env_decode_error coding_env [6] = Some \<lparr>ne_code = error_value coding_env (Rpc_Code 6),
      ne_message = error_message coding_env (Rpc_Code 6), ne_data = []\<rparr>"
    by (simp add: coding_env_def error_value_def error_message_def rpc_error_message_def)
  show "\<not> isMethodIdError (Rpc_Code (error_value coding_env (Rpc_Code 6)))"
    by (simp add: isMethodIdError_def error_value_def)
qed

subsection \<open>Recovery from a stale method id\<close>

lemma methodIdErrorResponse_ok [simp]:
  "std_map_ok (methodIdErrorResponseExtensions sctx ssess e)"
  "extensions_supported (methodIdErrorResponseExtensions sctx ssess e)"
  by (simp_all add: methodIdErrorResponseExtensions_def Let_def)

text \<open>Whatever table the error response carries, the client's session is consistent with it.\<close>

lemma error_response_repairs:
  fixes e sctx ssess
  defines "x \<equiv> methodIdErrorResponseExtensions sctx ssess e"
  assumes publish: "publishable (sc_method_table sctx)"
    and client: "table_ok (ps_remote_method_table csess)"
    and x: "fp_extensions parts = x" "length (tlvs_bytes x) \<le> 65535"
    and dec: "env_decode_error env b = Some err" "isMethodIdError (Rpc_Code (ne_code err))"
  shows "\<exists>csess'. response_error env csess parts b = (Inr (Rpc_Code (ne_code err)), csess') \<and>
    (ps_method_id_enabled csess' \<longrightarrow>
       ps_method_id_enabled ssess \<and> table_copy (ps_remote_method_table csess') (sc_method_table sctx))"
proof -
  have refused: ?thesis if "applyMethodIdTableExtensions csess x = Inr (False, csess)"
    using that dec x(1) by (simp add: response_error_def Let_def)
  consider (nothing) "x = []" | (table) "x = methodIdTableExtensions sctx True" "ps_method_id_enabled ssess"
      "mEntries (sc_method_table sctx) \<noteq> []"
    | (hint) "x = methodIdTableExtensions sctx False"
    by (cases "\<not> ps_method_id_enabled ssess \<or> \<not> isMethodIdError e \<or> mEntries (sc_method_table sctx) = [] \<or>
          opt_max_auto_method_table_extension_bytes (sc_options sctx) = 0";
        cases "extensionsFitAutoBudget (sc_options sctx) (methodIdTableExtensions sctx True)";
        cases "extensionsFitAutoBudget (sc_options sctx) (methodIdTableExtensions sctx False)")
      (simp_all add: x_def methodIdErrorResponseExtensions_def Let_def)
  then show ?thesis
  proof cases
    case nothing
    then show ?thesis
      by (intro refused) (simp add: applyMethodIdTableExtensions_def contains_def)
  next
    case hint
    then show ?thesis
      by (intro refused) (simp add: applyMethodIdTableExtensions_def contains_def methodIdTableExtensions_map Let_def)
  next
    case table
    have m: "map_of x Ext_MethodTable = Some (methodTableValue (mEntries (sc_method_table sctx)))"
      "map_of x Ext_MethodTableVersion = Some (integerValue (mVersion (sc_method_table sctx)))"
      "map_of x Ext_MethodMinimumCompatibleVersion =
        Some (integerValue (mMinimumCompatibleVersion (sc_method_table sctx)))"
      by (simp_all add: table(1) methodIdTableExtensions_map Let_def)
    have "length (methodTableValue (mEntries (sc_method_table sctx))) \<le> 65535"
      using map_of_tlv_length [OF m(1)] x(2) by simp
    then have len: "length (mEntries (sc_method_table sctx)) < 2 ^ 32"
      by (intro published_table_small) (simp_all add: publishable_fits publish methodTableValue_def)
    consider "applyMethodIdTableExtensions csess x = Inr (False, csess)"
      | t where "applyMethodIdTableExtensions csess x =
          Inr (True, csess\<lparr>ps_remote_method_table := t, ps_method_id_enabled := True\<rparr>)"
        "table_copy t (sc_method_table sctx)"
      using apply_published_table [OF publish table(3) len client m] by blast
    then show ?thesis
    proof cases
      case (2 t)
      then show ?thesis
        using dec x(1) table(2) by (simp add: response_error_def Let_def)
    qed (rule refused)
  qed
qed

lemma recover_keeps_agreement:
  assumes "recoverClientCall context session error n = (b, session')"
  shows "ps_method_id_enabled session' \<longrightarrow>
    ps_method_id_enabled session \<and> ps_remote_method_table session' = ps_remote_method_table session"
  using assms by (auto simp: recoverClientCall_def split: if_splits)

text \<open>C18 (functional). A request that named a method by a stale id repairs the client: the server's
error response carries its table where that fits, and after decoding it the client either holds an
exact copy of that table or has stopped using method ids, so that the one retry the client then
makes is dispatched.\<close>

theorem method_id_recovery:
  assumes "publishable (sc_method_table sctx)" "table_ok (ps_remote_method_table csess)"
    and "isMethodIdError e" "e = Rpc_Code v"
    and "encodeResponseFrameFor (sc_options sctx) ssess stats
      (makeErrorResponse env rid e (methodIdErrorResponseExtensions sctx ssess e)) = (Inr msg, stats')"
    and "env_encode_error env \<lparr>ne_code = v, ne_message = error_message env e, ne_data = []\<rparr> = Some b"
    and "env_decode_error env b = Some \<lparr>ne_code = v, ne_message = error_message env e, ne_data = []\<rparr>"
    and "payload_passes (sc_options sctx) (cc_options cctx) ssess csess b"
    and "opt_retry_method_id_error_once (cc_options cctx)" "opt_method_id (cc_options cctx) = Mode_Auto"
  shows "\<exists>cctx' csess' csess''. decodeResponse env dec cctx csess msg rid = (Inl (Err e), cctx', csess') \<and>
    recoverClientCall cctx' csess' e 0 = (True, csess'') \<and>
    (ps_method_id_enabled csess'' \<longrightarrow>
       ps_method_id_enabled ssess \<and> table_copy (ps_remote_method_table csess'') (sc_method_table sctx))"
proof -
  let ?x = "methodIdErrorResponseExtensions sctx ssess e"
  have r: "makeErrorResponse env rid e ?x = makeResponse env rid b Flag_Error ?x"
    using assms(4,6) by (simp add: makeErrorResponse_def error_value_def)
  obtain parts cctx' where d: "decodeResponse env dec cctx csess msg rid =
      (let (r, s) = decode_response_frame env dec csess parts b rid in (r, cctx', s))"
    and o: "cc_options cctx' = cc_options cctx"
    and p: "h_kind (fp_header parts) = Kind_Response" "h_codec (fp_header parts) = env_codec env"
      "h_id (fp_header parts) = rid" "fp_extensions parts = ?x"
      "h_flags (fp_header parts) AND Flag_Error = Flag_Error AND Flag_Error"
    using response_frame_delivered [OF assms(5) [unfolded r] _ _ assms(8), of dec] by auto
  have "length (tlvs_bytes ?x) \<le> 65535"
    by (auto simp: methodIdErrorResponseExtensions_def Let_def extensionsFitAutoBudget_def MaxExtensionBytes_def
        extensionWireSize_iff split: option.splits)
  from error_response_repairs [OF assms(1,2) p(4) this assms(7)] obtain csess' where
    c: "response_error env csess parts b = (Inr e, csess')"
      "ps_method_id_enabled csess' \<longrightarrow>
        ps_method_id_enabled ssess \<and> table_copy (ps_remote_method_table csess') (sc_method_table sctx)"
    using assms(3,4) by auto
  have dr: "decodeResponse env dec cctx csess msg rid = (Inl (Err e), cctx', csess')"
    using d p(1,2,3,5) c(1) by (simp add: decode_response_frame_def)
  obtain csess'' where rc: "recoverClientCall cctx' csess' e 0 = (True, csess'')"
  proof
    show "recoverClientCall cctx' csess' e 0 = (True, snd (recoverClientCall cctx' csess' e 0))"
      using assms(3,9,10) o by (simp add: recoverClientCall_def feature_enabled_def)
  qed
  from recover_keeps_agreement [OF this] c(2) have "ps_method_id_enabled csess'' \<longrightarrow>
       ps_method_id_enabled ssess \<and> table_copy (ps_remote_method_table csess'') (sc_method_table sctx)"
    by simp
  with dr rc show ?thesis by blast
qed

lemma method_id_recovery_witness:
  "\<exists>cctx' csess' csess'' msg. decodeResponse coding_env (Some :: bytes \<Rightarrow> bytes option) sample_client plain_session msg 5 =
      (Inl (Err (Rpc_Code 8)), cctx', csess') \<and>
    recoverClientCall cctx' csess' (Rpc_Code 8) 0 = (True, csess'')"
proof -
  let ?s = "plain_session\<lparr>ps_method_id_enabled := True\<rparr>"
  let ?x = "methodIdErrorResponseExtensions sample_server ?s (Rpc_Code 8)"
  let ?r = "makeErrorResponse coding_env 5 (Rpc_Code 8) ?x"
  have opts: "sc_options sample_server = sample_options" "sc_method_table sample_server = sample_table 3"
    "cc_options sample_client = sample_options" "opt_retry_method_id_error_once sample_options"
    "opt_method_id sample_options = Mode_Auto" "opt_frame_limits sample_options = default_limits"
    "opt_max_compression_ratio sample_options = 130" "opt_max_decompressed_payload_bytes sample_options = 16777216"
    "opt_max_auto_method_table_extension_bytes sample_options = 1024"
    by (simp_all add: sample_server_def sample_client_def makeClientContext_def sample_options_def default_options_def)
  have env: "env_encode_error coding_env = (\<lambda>e. Some [word_of_int (ne_code e)])"
    "env_decode_error coding_env =
      (\<lambda>b. Some \<lparr>ne_code = uint (hd b), ne_message = rpc_error_message (uint (hd b)), ne_data = []\<rparr>)"
    "env_codec coding_env = 1"
    by (simp_all add: coding_env_def sample_env_def)
  have r: "?r = makeResponse coding_env 5 [8] Flag_Error ?x"
    by (simp add: makeErrorResponse_def env error_value_def)
  have x: "length (tlvs_bytes ?x) \<le> 1024"
    by (auto simp: methodIdErrorResponseExtensions_def Let_def extensionsFitAutoBudget_def MaxExtensionBytes_def
        extensionWireSize_iff opts split: option.splits)
  have f: "response_frame ?r = \<lparr>fp_header = default_header\<lparr>h_kind := Kind_Response, h_flags := Flag_Error,
      h_codec := 1, h_id := 5\<rparr>, fp_method = [], fp_extensions = ?x, fp_payload = [8]\<rparr>"
    by (simp add: r response_frame_def makeResponse_def env)
  have "encode_outgoing_frame compress sample_options ?s None (response_frame ?r) =
      (Inr (encodeFrame (response_frame ?r)), None)"
    unfolding f by (rule encode_outgoing_plain)
      (use x tlvs_short_of_length [of ?x] in \<open>simp_all add: sendable_def knownKind_def within_limits_def opts
         default_limits_def headerSize_def\<close>)
  then have e: "encodeResponseFrameFor (sc_options sample_server) ?s None ?r =
      (Inr (encodeFrame (response_frame ?r)), None)"
    by (simp add: encodeResponseFrameFor_def opts)
  have pub: "publishable (sc_method_table sample_server)"
    using sample_publishable by (simp add: opts)
  have t: "table_ok (ps_remote_method_table plain_session)"
    using sample_session by (simp add: plain_session_def)
  have m: "isMethodIdError (Rpc_Code 8)"
    by (simp add: isMethodIdError_def)
  have pass: "payload_passes (sc_options sample_server) (cc_options sample_client) ?s plain_session [8]"
    by (simp add: payload_passes_def compression_agrees_def compression_safe_def limits_cover_def size_max_def opts)
  show ?thesis
    using method_id_recovery [OF pub t m refl e _ _ pass, where dec = Some]
    by (auto simp: env opts error_message_def)
qed

subsection \<open>Cancellation\<close>

text \<open>(round trip). A cancellation names its call: the frame the client encodes is read back as the
id, and the only messages the server takes for a cancellation of an id are bare, valid headers of
kind Cancel with that id and the endpoint's codec.\<close>

theorem cancel_exact:
  "cancelId env (encodeCancel env rid) = Inr (Some rid) \<and>
   (cancelId env message = Inr (Some rid) \<longleftrightarrow>
     (\<exists>h. message = header_bytes h \<and> valid_header h \<and> h_kind h = Kind_Cancel \<and> h_codec h = env_codec env \<and>
        h_id h = rid \<and> h_method_size h = 0 \<and> h_extension_size h = 0 \<and> h_payload_size h = 0))"
proof (intro conjI iffI)
  show "cancelId env (encodeCancel env rid) = Inr (Some rid)"
    by (rule cancel_round_trip)
  show "\<exists>h. message = header_bytes h \<and> valid_header h \<and> h_kind h = Kind_Cancel \<and> h_codec h = env_codec env \<and>
        h_id h = rid \<and> h_method_size h = 0 \<and> h_extension_size h = 0 \<and> h_payload_size h = 0"
    if "cancelId env message = Inr (Some rid)"
    using cancelId_sound [OF that] .
next
  assume "\<exists>h. message = header_bytes h \<and> valid_header h \<and> h_kind h = Kind_Cancel \<and> h_codec h = env_codec env \<and>
        h_id h = rid \<and> h_method_size h = 0 \<and> h_extension_size h = 0 \<and> h_payload_size h = 0"
  then obtain h where h: "message = header_bytes h" "valid_header h" "h_kind h = Kind_Cancel"
    "h_codec h = env_codec env" "h_id h = rid" "h_method_size h = 0" "h_extension_size h = 0"
    "h_payload_size h = 0" by blast
  let ?p = "\<lparr>fp_header = h, fp_method = [], fp_extensions = [], fp_payload = []\<rparr>"
  have "wire_frame message ?p []"
    using h by (simp add: wire_frame_def)
  moreover have "loadTlvs (tlvs_bytes []) = Inr (fp_extensions ?p)"
    by (auto simp: loadTlvs_iff intro: exI [of _ "[]"])
  moreover have "extensions_supported (fp_extensions ?p)" by simp
  ultimately have "parseFrame message (env_codec env) = Inr ?p"
    using h(4) unfolding parseFrame_Inr_iff parse_frame_parts_iff by auto
  then show "cancelId env message = Inr (Some rid)"
    using h by (simp add: cancelId_def)
qed


subsection \<open>Request ids\<close>

text \<open>The ids of successive calls: the counter of the client, stepped \<open>n\<close> times.\<close>

fun request_ids :: "nat \<Rightarrow> ClientContext \<Rightarrow> u64 list" where
  "request_ids 0 ctx = []"
| "request_ids (Suc n) ctx =
     (let rid = next_request_id ctx in rid # request_ids n (ctx\<lparr>cc_next_id := rid\<rparr>))"

lemma unat_max_id: "unat (- 1 :: u64) = 2 ^ 64 - 1"
  by (simp add: unsigned_minus_1_eq_mask mask_eq_exp_minus_1)

lemma mod_Suc_add: "Suc (j + a mod m) mod m = Suc (j + a) mod m" for a j m :: nat
  by (metis add_Suc mod_add_right_eq)

lemma next_request_id_unat:
  "unat (next_request_id ctx) = unat (cc_next_id ctx) mod (2 ^ 64 - 1) + 1"
proof (cases "cc_next_id ctx = - 1")
  case True
  then show ?thesis by (simp add: next_request_id_def unat_max_id)
next
  case False
  then have "unat (cc_next_id ctx) \<noteq> 2 ^ 64 - 1"
    by (simp add: word_unat_eq_iff unat_max_id)
  moreover have "unat (cc_next_id ctx) < 2 ^ 64"
    using unsigned_less [of "cc_next_id ctx"] by simp
  ultimately show ?thesis
    using False by (simp add: next_request_id_def unat_word_ariths)
qed

lemma mod_add_cancel_left:
  fixes a i j m :: nat
  assumes "(a + i) mod m = (a + j) mod m"
  shows "i mod m = j mod m"
proof -
  have "(int (a + i) - int a) mod int m = (int (a + j) - int a) mod int m"
  proof (intro mod_diff_cong)
    show "int (a + i) mod int m = int (a + j) mod int m"
      using arg_cong [OF assms, of int] by (simp only: zmod_int)
  qed simp
  then have "int (i mod m) = int (j mod m)"
    by (simp add: zmod_int)
  then show ?thesis by simp
qed

lemma request_ids_nth:
  "k < n \<Longrightarrow> unat (request_ids n ctx ! k) = (unat (cc_next_id ctx) + k) mod (2 ^ 64 - 1) + 1"
proof (induction n arbitrary: ctx k)
  case (Suc n)
  show ?case
  proof (cases k)
    case 0
    then show ?thesis by (simp add: Let_def next_request_id_unat)
  next
    case (Suc j)
    with Suc.prems Suc.IH [of j "ctx\<lparr>cc_next_id := next_request_id ctx\<rparr>"] show ?thesis
      by (simp add: Let_def next_request_id_unat mod_Suc_add mod_Suc_eq add.commute)
  qed
qed simp

lemma length_request_ids [simp]: "length (request_ids n ctx) = n"
  by (induction n ctx rule: request_ids.induct) (simp_all add: Let_def)

text \<open>C20 (bounds). Ids of calls are never 0, which is the id of notifications, also where the
counter wraps, and no id comes back before 2^64 - 1 calls have been made.\<close>

theorem request_ids_fresh:
  assumes "n \<le> 2 ^ 64 - 1"
  shows "0 \<notin> set (request_ids n ctx) \<and> distinct (request_ids n ctx)"
proof
  show "0 \<notin> set (request_ids n ctx)"
  proof
    assume "0 \<in> set (request_ids n ctx)"
    then obtain k where "k < n" "request_ids n ctx ! k = 0"
      by (auto simp: in_set_conv_nth)
    with request_ids_nth [of k n ctx] show False by simp
  qed
  show "distinct (request_ids n ctx)"
  proof (rule distinct_conv_nth [THEN iffD2], intro allI impI)
    fix i j
    assume ij: "i < length (request_ids n ctx)" "j < length (request_ids n ctx)" "i \<noteq> j"
    show "request_ids n ctx ! i \<noteq> request_ids n ctx ! j"
    proof
      assume "request_ids n ctx ! i = request_ids n ctx ! j"
      then have "(unat (cc_next_id ctx) + i) mod (2 ^ 64 - 1) = (unat (cc_next_id ctx) + j) mod (2 ^ 64 - 1)"
        using request_ids_nth [of i n ctx] request_ids_nth [of j n ctx] ij by simp
      then have "i mod (2 ^ 64 - 1) = j mod (2 ^ 64 - 1)"
        by (rule mod_add_cancel_left)
      with ij assms show False by simp
    qed
  qed
qed

lemma request_ids_fresh_witness:
  "request_ids 3 (sample_client\<lparr>cc_next_id := - 2\<rparr>) = [- 1, 1, 2] \<and>
   0 \<notin> set (request_ids 3 (sample_client\<lparr>cc_next_id := - 2\<rparr>))"
  using request_ids_fresh [of 3 "sample_client\<lparr>cc_next_id := - 2\<rparr>"]
  by (simp add: numeral_3_eq_3 next_request_id_def Let_def)

subsection \<open>Frames on a stream\<close>

lemma frame_travels:
  assumes out: "encode_outgoing_frame compress soptions sender stats f = (Inr msg, stats')"
    and f: "h_flags (fp_header f) AND Flag_Compressed = 0" "h_codec (fp_header f) = codec"
    and limits: "limits_cover rlimits (opt_frame_limits soptions)"
    and rel: "reliable_stream pending readAll writeAll flush" and empty: "pending s = []"
  shows "\<exists>s1 s2. endpoint_send writeAll flush codec (opt_frame_limits soptions) msg s = (Inr (length msg), s1) \<and>
    endpoint_recv readAll codec rlimits s1 = (Inr msg, s2) \<and> pending s2 = []"
proof -
  obtain g where g: "msg = encodeFrame g" "sendable g" "knownKind (h_kind (fp_header g))"
    "h_codec (fp_header g) = codec" "within_limits (opt_frame_limits soptions) g"
    using encode_outgoing_sendable [OF out f(1)] f(2) by auto
  have fr: "framed codec (opt_frame_limits soptions) msg" "framed codec rlimits msg"
    using g limits by (simp_all add: framed_encodeFrame within_limits_mono)
  let ?s1 = "snd (endpoint_send writeAll flush codec (opt_frame_limits soptions) msg s)"
  have "pending ?s1 = msg @ []"
    using send_framed(2) [OF rel fr(1), of s] empty by simp
  then obtain s2 where "endpoint_recv readAll codec rlimits ?s1 = (Inr msg, s2)" "pending s2 = []"
    by (rule recv_framed [OF rel fr(2)])
  moreover have "endpoint_send writeAll flush codec (opt_frame_limits soptions) msg s = (Inr (length msg), ?s1)"
    using send_framed(1) [OF rel fr(1), of s] by (simp add: prod_eq_iff)
  ultimately show ?thesis by blast
qed

lemma encode_outgoing_stats:
  "fst (encode_outgoing_frame c options session stats f) = fst (encode_outgoing_frame c options session stats' f)"
  by (auto simp: encode_outgoing_frame_def Let_def split: sum.splits)

lemma encodeRequest_keeps:
  assumes "encodeRequest env cctx csess name notification params = (r, cctx')"
  shows "cc_options cctx' = cc_options cctx"
  using assms by (auto simp: encodeRequest_def Let_def split: option.splits prod.splits if_splits)

lemma decodeIncoming_keeps:
  assumes "decodeIncoming env sctx ssess message = (r, sctx')"
  shows "sc_options sctx' = sc_options sctx" "sc_method_table sctx' = sc_method_table sctx"
  using assms by (auto simp: decodeIncoming_def Let_def split: sum.splits halt.splits prod.splits if_splits)

text \<open>One response, encoded, sent, received and decoded.\<close>

lemma single_response_travels:
  assumes enc: "encodeResponseFrameFor (sc_options sctx) ssess stats (makeResponse env rid payload 0 []) =
      (Inr answer, stats')"
    and pass: "payload_passes (sc_options sctx) (cc_options cctx) ssess csess payload"
    and dec: "dec payload = Some v"
    and rel: "reliable_stream pending readAll writeAll flush" "pending s = []"
  shows "\<exists>sctx' s1 s2 cctx'. encodeResponsesFor env sctx ssess [makeResponse env rid payload 0 []] = (answer, sctx') \<and>
    endpoint_send writeAll flush (env_codec env) (opt_frame_limits (sc_options sctx)) answer s = (Inr (length answer), s1) \<and>
    endpoint_recv readAll (env_codec env) (opt_frame_limits (cc_options cctx)) s1 = (Inr answer, s2) \<and> pending s2 = [] \<and>
    decodeResponse env dec cctx csess answer rid = (Inr v, cctx', csess)"
proof -
  let ?r = "makeResponse env rid payload 0 []"
  have c: "encodeResponsesFor env sctx ssess [?r] =
      (answer, sctx\<lparr>sc_stats := snd (encodeResponseFrameFor (sc_options sctx) ssess (sc_stats sctx) ?r)\<rparr>)"
    using encode_outgoing_stats [of compress "sc_options sctx" ssess "sc_stats sctx" "response_frame ?r" stats] enc
    by (auto simp: encodeResponsesFor_def encodeResponseFrameFor_def codec_encodeResponses_def
        split: prod.splits sum.splits)
  note rf = response_frame_cases [of "[]" env rid payload 0]
  have limits: "limits_cover (opt_frame_limits (cc_options cctx)) (opt_frame_limits (sc_options sctx))"
    using pass by (simp add: payload_passes_def)
  have "h_flags (fp_header (response_frame ?r)) AND Flag_Compressed = 0"
    "h_codec (fp_header (response_frame ?r)) = env_codec env"
    using rf by simp_all
  from frame_travels [OF enc [unfolded encodeResponseFrameFor_def] this limits rel(1), where s = s, OF rel(2)] obtain s1 s2 where
    t: "endpoint_send writeAll flush (env_codec env) (opt_frame_limits (sc_options sctx)) answer s =
        (Inr (length answer), s1)"
      "endpoint_recv readAll (env_codec env) (opt_frame_limits (cc_options cctx)) s1 = (Inr answer, s2)"
      "pending s2 = []" by blast
  have "\<exists>cctx'. decodeResponse env dec cctx csess answer rid = (Inr v, cctx', csess)"
    using response_frame_delivered [OF enc _ _ pass, of dec] dec by (auto simp: decode_response_frame_def)
  with c t show ?thesis by blast
qed

end
