(* ===== verification/Wire_Endian.thy ===== *)
theory Wire_Endian
  imports Wire_Integers
begin

unbundle bit_operations_syntax

text \<open>
  \<open>serialization/binary/endian.hpp\<close> on a little-endian host: the object representation of an
  integer, and \<open>htobe\<close> and \<open>betoh\<close>, which reverse it. A signed overload converts to the unsigned
  type of the same width and back, so one definition on words stands for both.
\<close>

definition mem_bytes :: "'a::len word \<Rightarrow> bytes" where
  "mem_bytes w = rev (be_bytes (LENGTH('a) div 8) w)"

definition be_value :: "bytes \<Rightarrow> 'a::len word" where
  "be_value bs = foldl (\<lambda>acc b. push_bit 8 acc OR ucast b) 0 bs"

definition mem_value :: "bytes \<Rightarrow> 'a::len word" where
  "mem_value bs = be_value (rev bs)"

definition htobe :: "'a::len word \<Rightarrow> 'a word" where
  "htobe value = mem_value (rev (mem_bytes value))"

definition betoh :: "'a::len word \<Rightarrow> 'a word" where
  "betoh value = mem_value (rev (mem_bytes value))"

lemma foldl_be_bytes:
  assumes "n * 8 \<le> LENGTH('a)"
  shows "foldl (\<lambda>acc b. push_bit 8 acc OR ucast b) acc (be_bytes n (w :: 'a::len word)) =
    push_bit (n * 8) acc OR take_bit (n * 8) w"
  using assms
proof (induction n arbitrary: acc)
  case (Suc n)
  have "push_bit (n * 8) (push_bit 8 acc OR ucast (ucast (drop_bit (n * 8) w) :: byte)) OR take_bit (n * 8) w =
      push_bit (Suc n * 8) acc OR take_bit (Suc n * 8) w"
    using Suc.prems by (intro bit_eqI) (auto simp: bit_simps add.commute [of 8])
  with Suc show ?case by simp
qed simp

lemma be_value_be_bytes:
  assumes "LENGTH('a) div 8 * 8 = LENGTH('a)"
  shows "be_value (be_bytes (LENGTH('a) div 8) (w :: 'a::len word)) = w"
  using foldl_be_bytes [of "LENGTH('a) div 8" 0 w] assms by (simp add: be_value_def)

lemma be_bytes_be_value:
  fixes bs :: bytes
  assumes "length bs * 8 \<le> LENGTH('a)"
  shows "be_bytes (length bs) (be_value bs :: 'a::len word) = bs"
proof -
  have gen: "be_bytes (length bs) (foldl (\<lambda>acc b. push_bit 8 acc OR ucast b) acc bs :: 'a word) = bs"
    if "length bs * 8 \<le> LENGTH('a)" for acc and bs :: bytes
    using that
  proof (induction bs arbitrary: acc)
    case (Cons b bs)
    let ?f = "foldl (\<lambda>acc b. push_bit 8 acc OR ucast b) :: 'a word \<Rightarrow> _"
    have shift: "drop_bit (length bs * 8) (?f acc bs) = take_bit (LENGTH('a) - length bs * 8) acc"
      if "length bs * 8 \<le> LENGTH('a)" for acc and bs :: bytes
      using that
    proof (induction bs arbitrary: acc)
      case (Cons c cs)
      have "drop_bit (length (c # cs) * 8) (?f acc (c # cs)) =
          drop_bit 8 (drop_bit (length cs * 8) (?f (push_bit 8 acc OR ucast c) cs))"
        by (simp add: drop_bit_drop_bit add.commute)
      also have "\<dots> = drop_bit 8 (take_bit (LENGTH('a) - length cs * 8) (push_bit 8 acc OR ucast c))"
        using Cons by simp
      also have "\<dots> = take_bit (LENGTH('a) - length (c # cs) * 8) acc"
        using Cons.prems by (intro bit_eqI) (auto simp: bit_simps dest: bit_imp_le_length)
      finally show ?case .
    qed simp
    have "drop_bit (length bs * 8) (?f (push_bit 8 acc OR ucast b) bs) =
        take_bit (LENGTH('a) - length bs * 8) (push_bit 8 acc OR ucast b)"
      by (rule shift) (use Cons.prems in simp)
    moreover have "ucast (take_bit (LENGTH('a) - length bs * 8) (push_bit 8 acc OR ucast b :: 'a word)) = b"
      using Cons.prems by (intro bit_eqI) (auto simp: bit_simps dest: bit_imp_le_length)
    ultimately show ?case
      using Cons by simp
  qed simp
  show ?thesis
    unfolding be_value_def by (rule gen [OF assms])
qed

lemma htobe_bytes:
  assumes "LENGTH('a) div 8 * 8 = LENGTH('a)"
  shows "mem_bytes (htobe (v :: 'a::len word)) = be_bytes (LENGTH('a) div 8) v"
  using be_bytes_be_value [where 'a = 'a, of "rev (be_bytes (LENGTH('a) div 8) v)"] assms
  by (simp add: htobe_def mem_bytes_def mem_value_def)

lemma betoh_mem_value:
  assumes "LENGTH('a) div 8 * 8 = LENGTH('a)" "length bs = LENGTH('a) div 8"
  shows "betoh (mem_value bs :: 'a::len word) = be_value bs"
  using be_bytes_be_value [where 'a = 'a, of "rev bs"] assms
  by (simp add: betoh_def mem_bytes_def mem_value_def)

end
