(* ===== verification/Wire_Uleb.thy ===== *)
theory Wire_Uleb
  imports Wire_Integers
begin

unbundle bit_operations_syntax

text \<open>
  The ULEB128 integers of the binary format: \<open>Writer::_writeUleb128\<close> and \<open>ulebSize\<close> of
  \<open>serialization/binary/binary_writer.hpp\<close>, \<open>Reader::_readUleb\<close> of \<open>binary_reader.hpp\<close>. The
  reader is proved to invert the writer and to accept nothing but what the writer emits.
\<close>

lemma unat_drop_bit_7_less: "drop_bit 7 (v :: 'a::len word) \<noteq> 0 \<Longrightarrow> unat (drop_bit 7 v) < unat v"
  by (simp only: drop_bit_7_zero_iff unat_drop_bit) auto

text \<open>\<open>_writeUleb128\<close>: a do-while loop that emits seven bits per byte, bit 7 set while more follow.\<close>

function write_uleb :: "'a::len word \<Rightarrow> bytes" where
  "write_uleb value =
     (let byte = ucast (value AND 0x7F); rest = drop_bit 7 value
      in if rest \<noteq> 0 then (byte OR 0x80) # write_uleb rest else [byte])"
  by pat_completeness auto
termination
proof (relation "measure unat")
  fix v byte and rest :: "'a word"
  assume "rest = drop_bit 7 v" "rest \<noteq> 0"
  then show "(rest, v) \<in> measure unat"
    using unat_drop_bit_7_less by auto
qed auto

declare write_uleb.simps [simp del]

function uleb_size :: "u64 \<Rightarrow> nat" where
  "uleb_size value = (if 0x80 \<le> value then Suc (uleb_size (drop_bit 7 value)) else 1)"
  by pat_completeness auto
termination
proof (relation "measure unat")
  fix v :: u64
  assume "0x80 \<le> v"
  then have "drop_bit 7 v \<noteq> 0"
    by (simp only: drop_bit_7_zero_iff word_le_nat_alt) simp
  then show "(drop_bit 7 v, v) \<in> measure unat"
    using unat_drop_bit_7_less by auto
qed auto

declare uleb_size.simps [simp del]

text \<open>\<open>_readUleb\<close>: the loop over cursor, value and shift; \<open>begin\<close> is where the varint started.\<close>

function read_uleb_loop ::
  "bytes \<Rightarrow> nat \<Rightarrow> nat \<Rightarrow> nat \<Rightarrow> 'a::len word \<Rightarrow> nat \<Rightarrow> ('a word \<times> nat) sa_result" where
  "read_uleb_loop data limit start cursor value shift =
     (if cursor < limit then
        and_then (byte_at data cursor)
          (\<lambda>byte.
             let chunk = ucast (byte AND 0x7F) :: 'a word in
             if LENGTH('a) \<le> shift \<or> drop_bit shift (- 1) < chunk
             then Inl (Err (SaError SaInvalidType ''Binary varint is out of range''))
             else
               let value' = value OR push_bit shift chunk in
               if byte AND 0x80 = 0 then
                 if 1 < Suc cursor - start \<and> chunk = 0
                 then Inl (Err (SaError SaParseError ''Binary varint is not minimally encoded''))
                 else Inr (value', Suc cursor)
               else read_uleb_loop data limit start (Suc cursor) value' (shift + 7))
      else Inl (Err (SaError SaParseError ''Truncated binary varint'')))"
  by pat_completeness auto
termination
  by (relation "measure (\<lambda>(data, limit, start, cursor, value, shift). limit - cursor)") auto

declare read_uleb_loop.simps [simp del]

definition read_uleb :: "bytes \<Rightarrow> nat \<Rightarrow> nat \<Rightarrow> ('a::len word \<times> nat) sa_result" where
  "read_uleb data cursor limit = read_uleb_loop data limit cursor cursor 0 0"

subsection \<open>Lengths\<close>

lemma write_uleb_nonempty [simp]: "write_uleb v \<noteq> []"
  by (subst write_uleb.simps) (simp add: Let_def)

lemma length_write_uleb_pos: "0 < length (write_uleb v)"
  by simp

lemma length_write_uleb: "length (write_uleb (v :: u64)) = uleb_size v"
proof (induction v rule: uleb_size.induct)
  case (1 v)
  have iff: "0x80 \<le> v \<longleftrightarrow> drop_bit 7 v \<noteq> 0"
    by (simp only: drop_bit_7_zero_iff word_le_nat_alt) auto
  show ?case
  proof (cases "0x80 \<le> v")
    case True
    with 1 iff show ?thesis
      by (subst write_uleb.simps, subst uleb_size.simps) (simp add: Let_def)
  next
    case False
    with iff show ?thesis
      by (subst write_uleb.simps, subst uleb_size.simps) (simp add: Let_def)
  qed
qed

subsection \<open>The reader inverts the writer\<close>

lemma uleb_chunk_fits:
  fixes x :: "'a::len word"
  assumes "unat x * 2 ^ s < 2 ^ LENGTH('a)"
  shows "\<not> drop_bit s (- 1) < take_bit 7 x"
proof -
  have "unat (take_bit 7 x) \<le> unat x"
    by (simp only: unsigned_take_bit_eq take_bit_nat_less_eq_self)
  then have "unat (take_bit 7 x) * 2 ^ s \<le> unat x * 2 ^ s"
    by simp
  also have "\<dots> \<le> 2 ^ LENGTH('a) - 1"
    using assms by linarith
  finally have "unat (take_bit 7 x) \<le> (2 ^ LENGTH('a) - 1) div 2 ^ s"
    by (simp add: less_eq_div_iff_mult_less_eq)
  moreover have "unat (drop_bit s (- 1 :: 'a word)) = (2 ^ LENGTH('a) - 1) div 2 ^ s"
    by (simp only: unat_drop_bit) (simp add: unsigned_minus_1_eq_mask mask_eq_exp_minus_1)
  ultimately show ?thesis
    by (simp only: not_less word_le_nat_alt)
qed

lemma uleb_rejoin:
  "push_bit s (take_bit 7 x) OR push_bit (s + 7) (drop_bit 7 x) = push_bit s (x :: 'a::len word)"
proof (rule bit_eqI)
  fix n
  have "7 + (n - (s + 7)) = n - s" if "s + 7 \<le> n"
    using that by simp
  then show "bit (push_bit s (take_bit 7 x) OR push_bit (s + 7) (drop_bit 7 x)) n =
      bit (push_bit s x) n"
    by (cases "s + 7 \<le> n") (auto simp: bit_simps not_le dest: bit_imp_le_length)
qed

lemma uleb_byte:
  fixes x :: "'a::len word"
  assumes "8 \<le> LENGTH('a)"
  shows "(ucast (take_bit 7 (ucast (take_bit 7 x) :: byte)) :: 'a word) = take_bit 7 x"
    and "(ucast (take_bit 7 ((ucast (take_bit 7 x) :: byte) OR 0x80)) :: 'a word) = take_bit 7 x"
    and "((ucast (take_bit 7 x) :: byte) AND 0x80) = 0"
    and "(((ucast (take_bit 7 x) :: byte) OR 0x80) AND 0x80) \<noteq> 0"
proof -
  show "(ucast (take_bit 7 (ucast (take_bit 7 x) :: byte)) :: 'a word) = take_bit 7 x"
    by (rule bit_eqI) (auto simp: bit_simps dest: bit_imp_le_length)
  show "(ucast (take_bit 7 ((ucast (take_bit 7 x) :: byte) OR 0x80)) :: 'a word) = take_bit 7 x"
    by (rule bit_eqI) (auto simp: bit_simps bit_0x80 dest: bit_imp_le_length)
  show "((ucast (take_bit 7 x) :: byte) AND 0x80) = 0"
    by (simp add: byte_and_0x80 bit_simps)
  show "(((ucast (take_bit 7 x) :: byte) OR 0x80) AND 0x80) \<noteq> 0"
    by (simp only: byte_and_0x80 bit_or_iff bit_0x80) simp
qed

lemma read_uleb_loop_write:
  fixes x :: "'a::len word"
  assumes "8 \<le> LENGTH('a)" and "s < LENGTH('a)" and "unat x * 2 ^ s < 2 ^ LENGTH('a)"
    and "x \<noteq> 0 \<or> start = length pre" and "start \<le> length pre"
    and "length pre + length (write_uleb x) \<le> limit"
  shows "read_uleb_loop (pre @ write_uleb x @ post) limit start (length pre) acc s =
    Inr (acc OR push_bit s x, length pre + length (write_uleb x))"
  using assms(2-)
proof (induction x arbitrary: pre acc s rule: write_uleb.induct)
  case (1 x)
  let ?c = "take_bit 7 x" and ?r = "drop_bit 7 x"
  note fits = uleb_chunk_fits [OF "1.prems"(2)]
  show ?case
  proof (cases "?r = 0")
    case True
    have c: "?c = x"
      using True uleb_rejoin [of 0 x] by simp
    obtain b where w: "write_uleb x = [b]" and b: "ucast (take_bit 7 b) = x" "b AND 0x80 = 0"
      using True uleb_byte [OF assms(1), of x] unfolding c
      by (subst (asm) write_uleb.simps) (simp add: Let_def word_and_0x7F c)
    have "x \<noteq> 0 \<or> Suc (length pre) - start = 1"
      using "1.prems"(3,4) by auto
    then show ?thesis
      using "1.prems"(1,5) fits unfolding c
      by (subst read_uleb_loop.simps) (auto simp: w Let_def word_and_0x7F b)
  next
    case False
    then have w: "write_uleb x = (ucast ?c OR 0x80) # write_uleb ?r"
      by (subst write_uleb.simps) (simp add: Let_def word_and_0x7F)
    have big: "128 \<le> unat x"
      using False by (simp add: drop_bit_7_zero_iff)
    have "unat ?r * 2 ^ (s + 7) \<le> unat x * 2 ^ s"
      by (simp add: unat_drop_bit power_add mult.commute mult.left_commute)
    then have r: "unat ?r * 2 ^ (s + 7) < 2 ^ LENGTH('a)"
      using "1.prems"(2) by linarith
    have "1 * 2 ^ (s + 7) \<le> unat ?r * 2 ^ (s + 7)"
      using False by (intro mult_le_mono1) (simp add: unat_gt_0 Suc_leI)
    then have "2 ^ (s + 7) < (2 :: nat) ^ LENGTH('a)"
      using r by linarith
    then have s: "s + 7 < LENGTH('a)"
      by (simp add: power_strict_increasing_iff)
    obtain b where w: "write_uleb x = b # write_uleb ?r"
      and b: "ucast (take_bit 7 b) = ?c" "b AND 0x80 \<noteq> 0"
      using w uleb_byte [OF assms(1), of x] by blast
    have IH: "read_uleb_loop ((pre @ [b]) @ write_uleb ?r @ post) limit start (length (pre @ [b]))
        (acc OR push_bit s ?c) (s + 7) =
        Inr ((acc OR push_bit s ?c) OR push_bit (s + 7) ?r, length (pre @ [b]) + length (write_uleb ?r))"
      using False s r "1.prems"(4,5) w by (intro "1.IH" [OF refl refl]) auto
    then show ?thesis
      using "1.prems"(1,5) fits
      by (subst read_uleb_loop.simps)
        (simp add: w Let_def word_and_0x7F b uleb_rejoin or.assoc)
  qed
qed

lemma read_uleb_write:
  fixes v :: "'a::len word"
  assumes "8 \<le> LENGTH('a)" and "length pre + length (write_uleb v) \<le> limit"
  shows "read_uleb (pre @ write_uleb v @ post) (length pre) limit =
    Inr (v, length pre + length (write_uleb v))"
  using read_uleb_loop_write [of 0 v "length pre" pre limit post 0] assms
  by (simp add: read_uleb_def)

subsection \<open>The reader accepts nothing else\<close>

lemma in_bounds_read_uleb_loop:
  "limit \<le> length data \<Longrightarrow> in_bounds (read_uleb_loop data limit start cursor acc s)"
proof (induction data limit start cursor acc s rule: read_uleb_loop.induct)
  case (1 data limit start cursor acc s)
  then show ?case
    by (subst read_uleb_loop.simps) (auto simp: byte_at_inside Let_def)
qed

lemma in_bounds_read_uleb [fault_free]:
  "limit \<le> length data \<Longrightarrow> in_bounds (read_uleb data cursor limit)"
  by (simp add: read_uleb_def in_bounds_read_uleb_loop)

lemma read_uleb_loop_Inr:
  assumes "read_uleb_loop data limit start cursor acc s = Inr (v :: 'a::len word, c)"
  defines "b \<equiv> data ! cursor"
  defines "chunk \<equiv> ucast (take_bit 7 b) :: 'a word"
  shows "cursor < limit" "cursor < length data" "s < LENGTH('a)" "\<not> drop_bit s (- 1) < chunk"
    and "b AND 0x80 = 0 \<Longrightarrow>
      v = acc OR push_bit s chunk \<and> c = Suc cursor \<and> (Suc cursor - start \<le> 1 \<or> chunk \<noteq> 0)"
    and "b AND 0x80 \<noteq> 0 \<Longrightarrow>
      read_uleb_loop data limit start (Suc cursor) (acc OR push_bit s chunk) (s + 7) = Inr (v, c)"
proof -
  let ?body = "if LENGTH('a) \<le> s \<or> drop_bit s (- 1) < chunk
     then Inl (Err (SaError SaInvalidType ''Binary varint is out of range''))
     else if b AND 0x80 = 0
     then if 1 < Suc cursor - start \<and> chunk = 0
       then Inl (Err (SaError SaParseError ''Binary varint is not minimally encoded''))
       else Inr (acc OR push_bit s chunk, Suc cursor)
     else read_uleb_loop data limit start (Suc cursor) (acc OR push_bit s chunk) (s + 7)"
  show lim: "cursor < limit"
    using assms(1) by (subst (asm) read_uleb_loop.simps) (simp split: if_splits)
  show len: "cursor < length data"
    using assms(1) lim by (subst (asm) read_uleb_loop.simps) (simp add: byte_at_def split: if_splits)
  have body: "?body = Inr (v, c)"
    using assms(1) lim len unfolding b_def chunk_def
    by (subst (asm) read_uleb_loop.simps) (simp only: byte_at_inside and_then_simps Let_def word_and_0x7F if_True)
  have guard: "\<not> (LENGTH('a) \<le> s \<or> drop_bit s (- 1) < chunk)"
  proof
    assume "LENGTH('a) \<le> s \<or> drop_bit s (- 1) < chunk"
    with body show False by (simp only: if_True sum.distinct)
  qed
  then show "s < LENGTH('a)" "\<not> drop_bit s (- 1) < chunk"
    by (metis not_le)+
  have rest: "(if b AND 0x80 = 0
     then if 1 < Suc cursor - start \<and> chunk = 0
       then Inl (Err (SaError SaParseError ''Binary varint is not minimally encoded''))
       else Inr (acc OR push_bit s chunk, Suc cursor)
     else read_uleb_loop data limit start (Suc cursor) (acc OR push_bit s chunk) (s + 7)) = Inr (v, c)"
    using body by (simp only: guard if_False)
  {
    assume z: "b AND 0x80 = 0"
    have n: "\<not> (1 < Suc cursor - start \<and> chunk = 0)"
    proof
      assume n: "1 < Suc cursor - start \<and> chunk = 0"
      show False using rest unfolding if_P [OF z] if_P [OF n] by simp
    qed
    show "v = acc OR push_bit s chunk \<and> c = Suc cursor \<and> (Suc cursor - start \<le> 1 \<or> chunk \<noteq> 0)"
      using rest n unfolding if_P [OF z] if_not_P [OF n] by auto
  }
  {
    assume z: "b AND 0x80 \<noteq> 0"
    with rest show "read_uleb_loop data limit start (Suc cursor) (acc OR push_bit s chunk) (s + 7) = Inr (v, c)"
      by (simp only: if_False)
  }
qed

lemma uleb_bound_of_guard:
  "\<not> drop_bit s (- 1) < (c :: 'a::len word) \<Longrightarrow> unat c * 2 ^ s < 2 ^ LENGTH('a)"
proof -
  assume "\<not> drop_bit s (- 1) < c"
  then have "unat c \<le> unat (drop_bit s (- 1 :: 'a word))"
    by (simp only: not_less word_le_nat_alt)
  also have "\<dots> = (2 ^ LENGTH('a) - 1) div 2 ^ s"
    by (simp only: unat_drop_bit) (simp add: unsigned_minus_1_eq_mask mask_eq_exp_minus_1)
  finally have "unat c * 2 ^ s \<le> 2 ^ LENGTH('a) - 1"
    by (simp add: less_eq_div_iff_mult_less_eq)
  moreover have "0 < (2 :: nat) ^ LENGTH('a)"
    by simp
  ultimately show ?thesis
    by linarith
qed

lemma uleb_join:
  fixes c x :: "'a::len word"
  assumes c: "unat c < 2 ^ 7" and x: "unat x * 2 ^ 7 < 2 ^ LENGTH('a)"
  shows "unat (c OR push_bit 7 x) = unat c + unat x * 128"
    and "take_bit 7 (c OR push_bit 7 x) = c" and "drop_bit 7 (c OR push_bit 7 x) = x"
proof -
  show y: "unat (c OR push_bit 7 x) = unat c + unat x * 128"
    using word_or_shift_unat [OF c x] by simp
  have "take_bit 7 (unat c + unat x * 128) = unat c"
    using c by (simp add: take_bit_eq_mod)
  then show "take_bit 7 (c OR push_bit 7 x) = c"
    by (simp only: word_unat_eq_iff unsigned_take_bit_eq y)
  show "drop_bit 7 (c OR push_bit 7 x) = x"
    using c by (simp only: word_unat_eq_iff unat_drop_bit y) simp
qed

lemma uleb_join_bound:
  fixes c x :: "'a::len word"
  assumes s: "s + 7 < LENGTH('a)" and x: "unat x * 2 ^ (s + 7) < 2 ^ LENGTH('a)"
    and c: "unat c < 2 ^ 7"
  shows "(unat c + unat x * 128) * 2 ^ s < 2 ^ LENGTH('a)"
proof -
  have split: "(2 :: nat) ^ LENGTH('a) = 2 ^ (LENGTH('a) - (s + 7)) * 2 ^ (s + 7)"
    using s by (simp flip: power_add)
  then have "unat x < 2 ^ (LENGTH('a) - (s + 7))"
    using x by (simp only: mult_less_cancel2)
  then have "(unat x + 1) * 2 ^ (s + 7) \<le> 2 ^ LENGTH('a)"
    unfolding split by (intro mult_le_mono1) simp
  moreover have "(unat c + unat x * 128) * 2 ^ s < ((unat x + 1) * 128) * 2 ^ s"
    using c by (intro mult_less_mono1) auto
  moreover have "((unat x + 1) * 128) * 2 ^ s = (unat x + 1) * 2 ^ (s + 7)"
    by (simp add: power_add algebra_simps)
  ultimately show ?thesis
    by linarith
qed

lemma uleb_high_byte:
  "(b :: byte) AND 0x80 \<noteq> 0 \<Longrightarrow> take_bit 7 b OR 0x80 = b"
proof (rule bit_eqI)
  fix n
  assume "b AND 0x80 \<noteq> 0" "possible_bit TYPE(byte) n"
  then have "bit b 7" "n < 8"
    by (simp_all add: byte_and_0x80)
  then show "bit (take_bit 7 b OR 0x80) n \<longleftrightarrow> bit b n"
    by (simp only: bit_or_iff bit_take_bit_iff bit_0x80) (cases "n = 7"; simp)
qed

lemma read_uleb_loop_canonical:
  fixes v :: "'a::len word"
  assumes "8 \<le> LENGTH('a)"
    and "read_uleb_loop data limit start cursor acc s = Inr (v, c)"
    and "start \<le> cursor" and "limit \<le> length data"
  shows "\<exists>x. v = acc OR push_bit s x \<and> cursor < c \<and> c \<le> limit \<and> s < LENGTH('a) \<and>
    unat x * 2 ^ s < 2 ^ LENGTH('a) \<and> (x \<noteq> 0 \<or> cursor = start) \<and>
    subspan data cursor (c - cursor) = write_uleb x"
  using assms(2,3)
proof (induction "limit - cursor" arbitrary: cursor acc s rule: less_induct)
  case less
  let ?b = "data ! cursor"
  let ?c = "ucast (take_bit 7 ?b) :: 'a word"
  have low: "ucast (take_bit 7 ?c) = take_bit 7 ?b" "take_bit 7 ?c = ?c"
    using assms(1) by (auto intro!: bit_eqI simp: bit_simps dest: bit_imp_le_length)
  note step = read_uleb_loop_Inr [OF less.prems(1)]
  show ?case
  proof (cases "?b AND 0x80 = 0")
    case True
    note last = step(5) [OF True]
    have "drop_bit 7 ?c = 0"
      by (rule bit_eqI) (auto simp: bit_simps)
    moreover have "take_bit 7 ?b = ?b"
      using True unfolding byte_and_0x80
      by (intro bit_eqI) (auto simp: bit_simps less_Suc_eq numeral_eq_Suc dest: bit_imp_le_length)
    ultimately have "write_uleb ?c = [?b]"
      using low by (subst write_uleb.simps) (simp add: Let_def word_and_0x7F)
    moreover have "subspan data cursor 1 = [?b]"
      using step(2) by (simp add: subspan_def hd_drop_conv_nth take_Suc)
    ultimately show ?thesis
      using last step(1-3) less.prems(2) uleb_bound_of_guard [OF step(4)]
      by (intro exI [of _ ?c]) auto
  next
    case False
    note more = step(6) [OF False]
    have "limit - Suc cursor < limit - cursor" "start \<le> Suc cursor"
      using step(1) less.prems(2) by simp_all
    from less.hyps [OF this(1) more this(2)]
    obtain x where
      v: "v = (acc OR push_bit s ?c) OR push_bit (s + 7) x" and c: "Suc cursor < c" "c \<le> limit"
      and x: "s + 7 < LENGTH('a)" "unat x * 2 ^ (s + 7) < 2 ^ LENGTH('a)" "x \<noteq> 0"
      and sub: "subspan data (Suc cursor) (c - Suc cursor) = write_uleb x"
      using less.prems(2) by (elim exE conjE) simp
    let ?y = "?c OR push_bit 7 x"
    have x128: "unat x * 2 ^ 7 < 2 ^ LENGTH('a)"
      using x(2) by (rule le_less_trans [rotated]) (simp add: power_add)
    have c128: "unat ?c < 2 ^ 7"
      using low(2) by (metis take_bit_nat_less_exp unsigned_take_bit_eq)
    note y = uleb_join [OF c128 x128]
    have "v = acc OR push_bit s ?y"
      using uleb_rejoin [of s ?y] by (simp only: v y or.assoc)
    moreover have "unat ?y * 2 ^ s < 2 ^ LENGTH('a)"
      using uleb_join_bound [OF x(1,2) c128] by (simp only: y)
    moreover have "write_uleb ?y = ?b # write_uleb x"
      using x(3) False by (subst write_uleb.simps) (simp only: Let_def word_and_0x7F y low(1) [unfolded low(2)] uleb_high_byte if_True not_False_eq_True)
    moreover have "subspan data cursor (c - cursor) = ?b # subspan data (Suc cursor) (c - Suc cursor)"
      using step(2) c(1) by (simp add: subspan_def Cons_nth_drop_Suc [symmetric] take_Cons' del: drop_drop)
    moreover have "?y \<noteq> 0"
      using y(3) x(3) by (metis drop_bit_of_0)
    ultimately show ?thesis
      using c x(1) sub by (intro exI [of _ ?y]) auto
  qed
qed

lemma read_uleb_sound:
  fixes v :: "'a::len word"
  assumes "8 \<le> LENGTH('a)" and "read_uleb data cursor limit = Inr (v, c)" and "limit \<le> length data"
  shows "subspan data cursor (c - cursor) = write_uleb v" and "cursor < c" and "c \<le> limit"
  using read_uleb_loop_canonical [OF assms(1) assms(2) [unfolded read_uleb_def] order_refl assms(3)]
  by auto

interpretation uleb64: canonical_codec "\<lambda>_. True" "write_uleb :: u64 \<Rightarrow> bytes"
  "\<lambda>data c. read_uleb data c (length data)"
proof
  show "read_uleb (pre @ write_uleb v @ post) (length pre) (length (pre @ write_uleb v @ post)) =
      Inr (v, length pre + length (write_uleb v))" for v :: u64 and pre post
    by (rule read_uleb_write) simp_all
next
  fix data c c' and v :: u64
  assume "read_uleb data c (length data) = Inr (v, c')" "c \<le> length data"
  from read_uleb_sound [OF _ this(1) order_refl]
  show "True \<and> c \<le> c' \<and> c' \<le> length data \<and> subspan data c (c' - c) = write_uleb v"
    by simp
qed

text \<open>C29 (round trip). A varint is read back exactly where the writer put it, and nothing else is
read as that value: the reader accepts at a position precisely the one minimal encoding of the
value, inside the buffer, and stops right after it, which is the size \<open>uleb_size\<close> predicts.\<close>
theorem uleb_exact:
  "(read_uleb data c (length data) :: (u64 \<times> nat) sa_result) = Inr (v, c') \<longleftrightarrow>
    c' = c + uleb_size v \<and> c' \<le> length data \<and> subspan data c (uleb_size v) = write_uleb v"
proof (cases "c \<le> length data")
  case True
  then show ?thesis
    using uleb64.dec_iff [OF True, of v c'] by (auto simp: length_write_uleb)
next
  case False
  then show ?thesis
    by (subst read_uleb_def, subst read_uleb_loop.simps) simp
qed

end
