(* ===== verification/Binary_Writer.thy ===== *)
theory Binary_Writer
  imports Wire_Endian Wire_Uleb
begin

unbundle bit_operations_syntax

text \<open>
  \<open>binary::Writer\<close> of \<open>serialization/binary/binary_writer.hpp\<close>: value tags, field keys, the
  container scopes with their declared and emitted counts, and every operation that appends to
  the buffer. The pointer to a parent scope is an option, \<open>None\<close> for a null pointer, and a scope
  that an operation counts up is returned updated. The C++ value types are the constructors of
  \<open>scalar\<close> and \<open>cvalue\<close>; a floating-point value is its IEEE-754 bit pattern.
\<close>

datatype value_tag =
    T_Null | T_False | T_True | T_SignedInteger | T_UnsignedInteger | T_Float32 | T_Float64 | T_String
  | T_Array | T_NamedObject | T_IdObject
  | T_FixedSigned8 | T_FixedSigned16 | T_FixedSigned32 | T_FixedSigned64
  | T_FixedUnsigned8 | T_FixedUnsigned16 | T_FixedUnsigned32 | T_FixedUnsigned64

definition all_tags :: "value_tag list" where
  "all_tags = [T_Null, T_False, T_True, T_SignedInteger, T_UnsignedInteger, T_Float32, T_Float64, T_String,
     T_Array, T_NamedObject, T_IdObject, T_FixedSigned8, T_FixedSigned16, T_FixedSigned32, T_FixedSigned64,
     T_FixedUnsigned8, T_FixedUnsigned16, T_FixedUnsigned32, T_FixedUnsigned64]"

fun tag_byte :: "value_tag \<Rightarrow> byte" where
  "tag_byte T_Null = 0"
| "tag_byte T_False = 1"
| "tag_byte T_True = 2"
| "tag_byte T_SignedInteger = 3"
| "tag_byte T_UnsignedInteger = 4"
| "tag_byte T_Float32 = 5"
| "tag_byte T_Float64 = 6"
| "tag_byte T_String = 7"
| "tag_byte T_Array = 8"
| "tag_byte T_NamedObject = 9"
| "tag_byte T_IdObject = 10"
| "tag_byte T_FixedSigned8 = 11"
| "tag_byte T_FixedSigned16 = 12"
| "tag_byte T_FixedSigned32 = 13"
| "tag_byte T_FixedSigned64 = 14"
| "tag_byte T_FixedUnsigned8 = 15"
| "tag_byte T_FixedUnsigned16 = 16"
| "tag_byte T_FixedUnsigned32 = 17"
| "tag_byte T_FixedUnsigned64 = 18"

definition BinaryMagic :: bytes where
  "BinaryMagic = [0x4E, 0x50, 0x02]"

definition fieldId :: "bytes \<Rightarrow> u32" where
  "fieldId name = foldl (\<lambda>hash ch. (hash XOR ucast ch) * 16777619) 2166136261 name"

text \<open>The keys of an object with compact keys; \<open>name.size()\<close> is a 64-bit number shifted by one.\<close>

definition named_key :: "bytes \<Rightarrow> u64" where
  "named_key name = push_bit 1 (of_nat (length name))"

definition hashed_key :: "u32 \<Rightarrow> u64" where
  "hashed_key h = push_bit 1 (ucast h) OR 1"

definition useHashedFieldId :: "bytes \<Rightarrow> bool" where
  "useHashedFieldId name \<longleftrightarrow>
     uleb_size (hashed_key (fieldId name)) < uleb_size (named_key name) + length name"

subsection \<open>Values\<close>

datatype scalar =
    S_bool bool
  | S_i8 u8 | S_i16 u16 | S_i32 u32 | S_i64 u64
  | S_u8 u8 | S_u16 u16 | S_u32 u32 | S_u64 u64
  | S_f32 u32 | S_f64 u64

datatype cvalue = C_string bytes | C_scalar scalar

fun scalar_size :: "scalar \<Rightarrow> nat" where
  "scalar_size (S_bool _) = 1"
| "scalar_size (S_i8 _) = 1"
| "scalar_size (S_i16 _) = 2"
| "scalar_size (S_i32 _) = 4"
| "scalar_size (S_i64 _) = 8"
| "scalar_size (S_u8 _) = 1"
| "scalar_size (S_u16 _) = 2"
| "scalar_size (S_u32 _) = 4"
| "scalar_size (S_u64 _) = 8"
| "scalar_size (S_f32 _) = 4"
| "scalar_size (S_f64 _) = 8"

text \<open>\<open>_fixedTag\<close>; the tag under which a floating-point value is written is fixed-width already.\<close>

fun fixedTag :: "scalar \<Rightarrow> value_tag" where
  "fixedTag (S_bool b) = (if b then T_True else T_False)"
| "fixedTag (S_i8 _) = T_FixedSigned8"
| "fixedTag (S_i16 _) = T_FixedSigned16"
| "fixedTag (S_i32 _) = T_FixedSigned32"
| "fixedTag (S_i64 _) = T_FixedSigned64"
| "fixedTag (S_u8 _) = T_FixedUnsigned8"
| "fixedTag (S_u16 _) = T_FixedUnsigned16"
| "fixedTag (S_u32 _) = T_FixedUnsigned32"
| "fixedTag (S_u64 _) = T_FixedUnsigned64"
| "fixedTag (S_f32 _) = T_Float32"
| "fixedTag (S_f64 _) = T_Float64"

text \<open>The zigzag encoding of \<open>_writeValue\<close>, at the width of the value.\<close>

definition zigzag :: "'a::len word \<Rightarrow> 'a word" where
  "zigzag v =
     (let negative = v <s 0;
          magnitude = (if negative then - (v + 1) + 1 else v)
      in push_bit 1 magnitude - (if negative then 1 else 0))"

subsection \<open>The writer\<close>

record writer =
  w_buffer :: bytes
  w_started :: bool
  w_raw :: bool
  w_error :: "sa_error option"

definition new_writer :: "bytes \<Rightarrow> writer" where
  "new_writer buffer = \<lparr>w_buffer = buffer, w_started = False, w_raw = False, w_error = None\<rparr>"

definition setError :: "sa_code \<Rightarrow> string \<Rightarrow> writer \<Rightarrow> writer" where
  "setError ec msg w = (if w_error w = None then w\<lparr>w_error := Some (SaError ec msg)\<rparr> else w)"

definition appendBytes :: "bytes \<Rightarrow> writer \<Rightarrow> writer" where
  "appendBytes bs w = w\<lparr>w_buffer := w_buffer w @ bs\<rparr>"

definition pushTag :: "value_tag \<Rightarrow> writer \<Rightarrow> writer" where
  "pushTag tag w = appendBytes [tag_byte tag] w"

definition writeUleb128 :: "'a::len word \<Rightarrow> writer \<Rightarrow> writer" where
  "writeUleb128 v w = appendBytes (write_uleb v) w"

definition beginRawFixedDataAsRoot :: "writer \<Rightarrow> writer" where
  "beginRawFixedDataAsRoot w = w\<lparr>w_raw := True\<rparr>"

definition writer_result :: "writer \<Rightarrow> unit sa_result" where
  "writer_result w = (case w_error w of Some e \<Rightarrow> Inl (Err e) | None \<Rightarrow> Inr ())"

definition ensureDocumentHeader :: "writer \<Rightarrow> writer" where
  "ensureDocumentHeader w =
     (if w_started w \<or> w_raw w then w else appendBytes BinaryMagic (w\<lparr>w_started := True\<rparr>))"

definition writeContainerHeader :: "value_tag \<Rightarrow> nat \<Rightarrow> writer \<Rightarrow> writer" where
  "writeContainerHeader tag n w =
     writeUleb128 (of_nat n :: u64) (pushTag tag (ensureDocumentHeader w))"

subsubsection \<open>Container scopes\<close>

datatype container_kind = K_Array | K_NamedObject | K_IdObject

record scope =
  sc_kind :: container_kind
  sc_expected :: nat
  sc_actual :: nat
  sc_ids :: "u32 list"

definition new_scope :: "container_kind \<Rightarrow> nat \<Rightarrow> scope" where
  "new_scope kind expected = \<lparr>sc_kind = kind, sc_expected = expected, sc_actual = 0, sc_ids = []\<rparr>"

definition scope_increment :: "scope option \<Rightarrow> scope option" where
  "scope_increment parent = map_option (\<lambda>s. s\<lparr>sc_actual := sc_actual s + 1\<rparr>) parent"

definition rememberId :: "u32 \<Rightarrow> scope \<Rightarrow> bool \<times> scope" where
  "rememberId ident s =
     (if sc_kind s = K_IdObject
      then (ident \<notin> set (sc_ids s), s\<lparr>sc_ids := List.insert ident (sc_ids s)\<rparr>)
      else (True, s))"

text \<open>The destructor of a scope.\<close>

definition scope_finish :: "scope \<Rightarrow> writer \<Rightarrow> writer" where
  "scope_finish s w =
     (if sc_actual s \<noteq> sc_expected s
      then setError SaInvalidLength ''Binary container emitted member count does not match its declared count'' w
      else w)"

subsubsection \<open>Values and field keys\<close>

fun scalar_bytes :: "scalar \<Rightarrow> bytes" where
  "scalar_bytes (S_bool b) = [if b then 1 else 0]"
| "scalar_bytes (S_i8 v) = mem_bytes v"
| "scalar_bytes (S_i16 v) = mem_bytes (htobe v)"
| "scalar_bytes (S_i32 v) = mem_bytes (htobe v)"
| "scalar_bytes (S_i64 v) = mem_bytes (htobe v)"
| "scalar_bytes (S_u8 v) = mem_bytes v"
| "scalar_bytes (S_u16 v) = mem_bytes (htobe v)"
| "scalar_bytes (S_u32 v) = mem_bytes (htobe v)"
| "scalar_bytes (S_u64 v) = mem_bytes (htobe v)"
| "scalar_bytes (S_f32 v) = mem_bytes (htobe v)"
| "scalar_bytes (S_f64 v) = mem_bytes (htobe v)"

definition writeRawFixed :: "scalar \<Rightarrow> nat \<Rightarrow> writer \<Rightarrow> writer" where
  "writeRawFixed v n w =
     (if n \<noteq> scalar_size v
      then setError SaInvalidLength ''Raw fixed binary value width does not match its C++ type'' w
      else appendBytes (scalar_bytes v) w)"

definition writeRawValue :: "cvalue \<Rightarrow> writer \<Rightarrow> writer" where
  "writeRawValue v w =
     (case v of
        C_string s \<Rightarrow> appendBytes s (writeUleb128 (of_nat (length s) :: u64) w)
      | C_scalar s \<Rightarrow> writeRawFixed s (scalar_size s) w)"

text \<open>\<open>_writeFloating\<close> on the bit pattern of a float or a double.\<close>

definition writeFloating :: "scalar \<Rightarrow> writer \<Rightarrow> writer" where
  "writeFloating v w = appendBytes (scalar_bytes v) (pushTag (fixedTag v) w)"

fun write_scalar :: "scalar \<Rightarrow> writer \<Rightarrow> writer" where
  "write_scalar (S_bool b) w = pushTag (if b then T_True else T_False) w"
| "write_scalar (S_i8 v) w = writeUleb128 (zigzag v) (pushTag T_SignedInteger w)"
| "write_scalar (S_i16 v) w = writeUleb128 (zigzag v) (pushTag T_SignedInteger w)"
| "write_scalar (S_i32 v) w = writeUleb128 (zigzag v) (pushTag T_SignedInteger w)"
| "write_scalar (S_i64 v) w = writeUleb128 (zigzag v) (pushTag T_SignedInteger w)"
| "write_scalar (S_u8 v) w = writeUleb128 v (pushTag T_UnsignedInteger w)"
| "write_scalar (S_u16 v) w = writeUleb128 v (pushTag T_UnsignedInteger w)"
| "write_scalar (S_u32 v) w = writeUleb128 v (pushTag T_UnsignedInteger w)"
| "write_scalar (S_u64 v) w = writeUleb128 v (pushTag T_UnsignedInteger w)"
| "write_scalar (S_f32 v) w = writeFloating (S_f32 v) w"
| "write_scalar (S_f64 v) w = writeFloating (S_f64 v) w"

definition writeValue :: "cvalue \<Rightarrow> writer \<Rightarrow> writer" where
  "writeValue v w =
     (let w = ensureDocumentHeader w in
      case v of
        C_string s \<Rightarrow> appendBytes s (writeUleb128 (of_nat (length s) :: u64) (pushTag T_String w))
      | C_scalar s \<Rightarrow> write_scalar s w)"

definition writeFixed :: "scalar \<Rightarrow> nat \<Rightarrow> writer \<Rightarrow> writer" where
  "writeFixed v n w =
     (let w = ensureDocumentHeader w in
      if n \<noteq> scalar_size v
      then setError SaInvalidLength ''Fixed binary value width does not match its C++ type'' w
      else case v of
        S_bool b \<Rightarrow> pushTag (if b then T_True else T_False) w
      | S_f32 _ \<Rightarrow> writeFloating v w
      | S_f64 _ \<Rightarrow> writeFloating v w
      | _ \<Rightarrow> writeRawFixed v n (pushTag (fixedTag v) w))"

definition beginNamedField :: "bytes \<Rightarrow> scope option \<Rightarrow> writer \<Rightarrow> scope option \<times> writer" where
  "beginNamedField name parent w =
     (scope_increment parent, appendBytes name (writeUleb128 (of_nat (length name) :: u64) w))"

definition beginIdField :: "bytes \<Rightarrow> scope option \<Rightarrow> writer \<Rightarrow> scope option \<times> writer" where
  "beginIdField name parent w =
     (let parent = scope_increment parent in
      if \<not> useHashedFieldId name
      then (parent, appendBytes name (writeUleb128 (named_key name) w))
      else
        let ident = fieldId name in
        case parent of
          None \<Rightarrow> (None, writeUleb128 (hashed_key ident) w)
        | Some p \<Rightarrow>
          let (fresh, p) = rememberId ident p;
              w = (if fresh then w
                   else setError SaInvalidField ''Reflected binary object contains colliding hashed field ids'' w)
          in (Some p, writeUleb128 (hashed_key ident) w))"

subsection \<open>Operations\<close>

definition arrayAsRoot :: "nat \<Rightarrow> writer \<Rightarrow> scope \<times> writer" where
  "arrayAsRoot n w = (new_scope K_Array n, writeContainerHeader T_Array n w)"

definition objectAsRoot :: "nat \<Rightarrow> writer \<Rightarrow> scope \<times> writer" where
  "objectAsRoot n w = (new_scope K_NamedObject n, writeContainerHeader T_NamedObject n w)"

definition idObjectAsRoot :: "nat \<Rightarrow> writer \<Rightarrow> scope \<times> writer" where
  "idObjectAsRoot n w = (new_scope K_IdObject n, writeContainerHeader T_IdObject n w)"

definition nullAsRoot :: "writer \<Rightarrow> writer" where
  "nullAsRoot w =
     (if w_raw w then setError SaInvalidType ''raw_fixed_data binary values cannot encode null'' w
      else pushTag T_Null (ensureDocumentHeader w))"

definition valueAsRoot :: "cvalue \<Rightarrow> writer \<Rightarrow> writer" where
  "valueAsRoot v w = (if w_raw w then writeRawValue v w else writeValue v w)"

definition fixedValueAsRoot :: "scalar \<Rightarrow> nat \<Rightarrow> writer \<Rightarrow> writer" where
  "fixedValueAsRoot v n w = (if w_raw w then writeRawFixed v n w else writeFixed v n w)"

text \<open>In an array.\<close>

definition addArrayToArray :: "nat \<Rightarrow> scope option \<Rightarrow> writer \<Rightarrow> scope \<times> scope option \<times> writer" where
  "addArrayToArray n parent w = (new_scope K_Array n, scope_increment parent, writeContainerHeader T_Array n w)"

definition addObjectToArray :: "nat \<Rightarrow> scope option \<Rightarrow> writer \<Rightarrow> scope \<times> scope option \<times> writer" where
  "addObjectToArray n parent w =
     (new_scope K_NamedObject n, scope_increment parent, writeContainerHeader T_NamedObject n w)"

definition addIdObjectToArray :: "nat \<Rightarrow> scope option \<Rightarrow> writer \<Rightarrow> scope \<times> scope option \<times> writer" where
  "addIdObjectToArray n parent w =
     (new_scope K_IdObject n, scope_increment parent, writeContainerHeader T_IdObject n w)"

definition addValueToArray :: "cvalue \<Rightarrow> scope option \<Rightarrow> writer \<Rightarrow> scope option \<times> writer" where
  "addValueToArray v parent w = (scope_increment parent, writeValue v w)"

definition addFixedValueToArray :: "scalar \<Rightarrow> nat \<Rightarrow> scope option \<Rightarrow> writer \<Rightarrow> scope option \<times> writer" where
  "addFixedValueToArray v n parent w = (scope_increment parent, writeFixed v n w)"

definition addNullToArray :: "scope option \<Rightarrow> writer \<Rightarrow> scope option \<times> writer" where
  "addNullToArray parent w = (scope_increment parent, pushTag T_Null (ensureDocumentHeader w))"

text \<open>In an object with names.\<close>

definition addArrayToObject ::
  "bytes \<Rightarrow> nat \<Rightarrow> scope option \<Rightarrow> writer \<Rightarrow> scope \<times> scope option \<times> writer" where
  "addArrayToObject name n parent w =
     (let (parent, w) = beginNamedField name parent w
      in (new_scope K_Array n, parent, writeContainerHeader T_Array n w))"

definition addObjectToObject ::
  "bytes \<Rightarrow> nat \<Rightarrow> scope option \<Rightarrow> writer \<Rightarrow> scope \<times> scope option \<times> writer" where
  "addObjectToObject name n parent w =
     (let (parent, w) = beginNamedField name parent w
      in (new_scope K_NamedObject n, parent, writeContainerHeader T_NamedObject n w))"

definition addIdObjectToObject ::
  "bytes \<Rightarrow> nat \<Rightarrow> scope option \<Rightarrow> writer \<Rightarrow> scope \<times> scope option \<times> writer" where
  "addIdObjectToObject name n parent w =
     (let (parent, w) = beginNamedField name parent w
      in (new_scope K_IdObject n, parent, writeContainerHeader T_IdObject n w))"

definition addValueToObject :: "bytes \<Rightarrow> cvalue \<Rightarrow> scope option \<Rightarrow> writer \<Rightarrow> scope option \<times> writer" where
  "addValueToObject name v parent w =
     (let (parent, w) = beginNamedField name parent w in (parent, writeValue v w))"

definition addFixedValueToObject ::
  "bytes \<Rightarrow> scalar \<Rightarrow> nat \<Rightarrow> scope option \<Rightarrow> writer \<Rightarrow> scope option \<times> writer" where
  "addFixedValueToObject name v n parent w =
     (let (parent, w) = beginNamedField name parent w in (parent, writeFixed v n w))"

definition addNullToObject :: "bytes \<Rightarrow> scope option \<Rightarrow> writer \<Rightarrow> scope option \<times> writer" where
  "addNullToObject name parent w =
     (let (parent, w) = beginNamedField name parent w in (parent, pushTag T_Null w))"

text \<open>In an object with compact keys.\<close>

definition addArrayToIdObject ::
  "bytes \<Rightarrow> nat \<Rightarrow> scope option \<Rightarrow> writer \<Rightarrow> scope \<times> scope option \<times> writer" where
  "addArrayToIdObject name n parent w =
     (let (parent, w) = beginIdField name parent w
      in (new_scope K_Array n, parent, writeContainerHeader T_Array n w))"

definition addObjectToIdObject ::
  "bytes \<Rightarrow> nat \<Rightarrow> scope option \<Rightarrow> writer \<Rightarrow> scope \<times> scope option \<times> writer" where
  "addObjectToIdObject name n parent w =
     (let (parent, w) = beginIdField name parent w
      in (new_scope K_NamedObject n, parent, writeContainerHeader T_NamedObject n w))"

definition addIdObjectToIdObject ::
  "bytes \<Rightarrow> nat \<Rightarrow> scope option \<Rightarrow> writer \<Rightarrow> scope \<times> scope option \<times> writer" where
  "addIdObjectToIdObject name n parent w =
     (let (parent, w) = beginIdField name parent w
      in (new_scope K_IdObject n, parent, writeContainerHeader T_IdObject n w))"

definition addValueToIdObject :: "bytes \<Rightarrow> cvalue \<Rightarrow> scope option \<Rightarrow> writer \<Rightarrow> scope option \<times> writer" where
  "addValueToIdObject name v parent w =
     (let (parent, w) = beginIdField name parent w in (parent, writeValue v w))"

definition addFixedValueToIdObject ::
  "bytes \<Rightarrow> scalar \<Rightarrow> nat \<Rightarrow> scope option \<Rightarrow> writer \<Rightarrow> scope option \<times> writer" where
  "addFixedValueToIdObject name v n parent w =
     (let (parent, w) = beginIdField name parent w in (parent, writeFixed v n w))"

definition addNullToIdObject :: "bytes \<Rightarrow> scope option \<Rightarrow> writer \<Rightarrow> scope option \<times> writer" where
  "addNullToIdObject name parent w =
     (let (parent, w) = beginIdField name parent w in (parent, pushTag T_Null w))"

end
