(* ===== verification/Binary_Document.thy ===== *)
theory Binary_Document
  imports Binary_Writer
begin

text \<open>
  The grammar of the binary format as a tree and its bytes, the documents a program writes through
  the operations of \<open>Writer\<close>, and the proof that the operations, called with the counts of the
  containers, emit the bytes of the document's tree.
\<close>

datatype field_key = Key_Name bytes | Key_Hash u32

datatype wtree =
    W_Null
  | W_Bool bool
  | W_SInt u64
  | W_UInt u64
  | W_Fixed value_tag bytes
  | W_Str bytes
  | W_Arr "wtree list"
  | W_Named "(bytes \<times> wtree) list"
  | W_Ided "(field_key \<times> wtree) list"

definition count_bytes :: "nat \<Rightarrow> bytes" where
  "count_bytes n = write_uleb (of_nat n :: u64)"

fun key_bytes :: "field_key \<Rightarrow> bytes" where
  "key_bytes (Key_Name n) = write_uleb (named_key n) @ n"
| "key_bytes (Key_Hash h) = write_uleb (hashed_key h)"

fun emit :: "wtree \<Rightarrow> bytes" where
  "emit W_Null = [tag_byte T_Null]"
| "emit (W_Bool b) = [tag_byte (if b then T_True else T_False)]"
| "emit (W_SInt z) = tag_byte T_SignedInteger # write_uleb z"
| "emit (W_UInt v) = tag_byte T_UnsignedInteger # write_uleb v"
| "emit (W_Fixed t bs) = tag_byte t # bs"
| "emit (W_Str s) = tag_byte T_String # count_bytes (length s) @ s"
| "emit (W_Arr ts) = tag_byte T_Array # count_bytes (length ts) @ concat (map emit ts)"
| "emit (W_Named fs) = tag_byte T_NamedObject # count_bytes (length fs) @
     concat (map (\<lambda>f. count_bytes (length (fst f)) @ fst f @ emit (snd f)) fs)"
| "emit (W_Ided fs) = tag_byte T_IdObject # count_bytes (length fs) @
     concat (map (\<lambda>f. key_bytes (fst f) @ emit (snd f)) fs)"

subsection \<open>Documents\<close>

datatype doc =
    D_null
  | D_value cvalue
  | D_fixed scalar
  | D_array "doc list"
  | D_object "(bytes \<times> doc) list"
  | D_idobject "(bytes \<times> doc) list"

definition key_of :: "bytes \<Rightarrow> field_key" where
  "key_of name = (if useHashedFieldId name then Key_Hash (fieldId name) else Key_Name name)"

fun scalar_tree :: "scalar \<Rightarrow> wtree" where
  "scalar_tree (S_bool b) = W_Bool b"
| "scalar_tree (S_i8 v) = W_SInt (ucast (zigzag v))"
| "scalar_tree (S_i16 v) = W_SInt (ucast (zigzag v))"
| "scalar_tree (S_i32 v) = W_SInt (ucast (zigzag v))"
| "scalar_tree (S_i64 v) = W_SInt (zigzag v)"
| "scalar_tree (S_u8 v) = W_UInt (ucast v)"
| "scalar_tree (S_u16 v) = W_UInt (ucast v)"
| "scalar_tree (S_u32 v) = W_UInt (ucast v)"
| "scalar_tree (S_u64 v) = W_UInt v"
| "scalar_tree (S_f32 v) = W_Fixed T_Float32 (scalar_bytes (S_f32 v))"
| "scalar_tree (S_f64 v) = W_Fixed T_Float64 (scalar_bytes (S_f64 v))"

definition fixed_tree :: "scalar \<Rightarrow> wtree" where
  "fixed_tree s = (case s of S_bool b \<Rightarrow> W_Bool b | _ \<Rightarrow> W_Fixed (fixedTag s) (scalar_bytes s))"

fun tree_of :: "doc \<Rightarrow> wtree" where
  "tree_of D_null = W_Null"
| "tree_of (D_value v) = (case v of C_string s \<Rightarrow> W_Str s | C_scalar s \<Rightarrow> scalar_tree s)"
| "tree_of (D_fixed s) = fixed_tree s"
| "tree_of (D_array ds) = W_Arr (map tree_of ds)"
| "tree_of (D_object fs) = W_Named (map (\<lambda>f. (fst f, tree_of (snd f))) fs)"
| "tree_of (D_idobject fs) = W_Ided (map (\<lambda>f. (key_of (fst f), tree_of (snd f))) fs)"

text \<open>No two fields of a reflected object share a hashed id.\<close>

definition hashed_ids :: "bytes list \<Rightarrow> u32 list" where
  "hashed_ids names = map fieldId (filter useHashedFieldId names)"

fun doc_ok :: "doc \<Rightarrow> bool" where
  "doc_ok (D_array ds) = list_all doc_ok ds"
| "doc_ok (D_object fs) = list_all (\<lambda>f. doc_ok (snd f)) fs"
| "doc_ok (D_idobject fs) \<longleftrightarrow> distinct (hashed_ids (map fst fs)) \<and> list_all (\<lambda>f. doc_ok (snd f)) fs"
| "doc_ok _ = True"

subsection \<open>Writing a document\<close>

datatype place = At_Root | In_Array | In_Object bytes | In_IdObject bytes

definition put_null :: "place \<Rightarrow> scope option \<Rightarrow> writer \<Rightarrow> scope option \<times> writer" where
  "put_null p parent w =
     (case p of At_Root \<Rightarrow> (parent, nullAsRoot w) | In_Array \<Rightarrow> addNullToArray parent w
      | In_Object n \<Rightarrow> addNullToObject n parent w | In_IdObject n \<Rightarrow> addNullToIdObject n parent w)"

definition put_value :: "place \<Rightarrow> cvalue \<Rightarrow> scope option \<Rightarrow> writer \<Rightarrow> scope option \<times> writer" where
  "put_value p v parent w =
     (case p of At_Root \<Rightarrow> (parent, valueAsRoot v w) | In_Array \<Rightarrow> addValueToArray v parent w
      | In_Object n \<Rightarrow> addValueToObject n v parent w | In_IdObject n \<Rightarrow> addValueToIdObject n v parent w)"

definition put_fixed :: "place \<Rightarrow> scalar \<Rightarrow> scope option \<Rightarrow> writer \<Rightarrow> scope option \<times> writer" where
  "put_fixed p v parent w =
     (let n = scalar_size v in
      case p of At_Root \<Rightarrow> (parent, fixedValueAsRoot v n w) | In_Array \<Rightarrow> addFixedValueToArray v n parent w
      | In_Object m \<Rightarrow> addFixedValueToObject m v n parent w
      | In_IdObject m \<Rightarrow> addFixedValueToIdObject m v n parent w)"

definition open_array :: "place \<Rightarrow> nat \<Rightarrow> scope option \<Rightarrow> writer \<Rightarrow> scope \<times> scope option \<times> writer" where
  "open_array p n parent w =
     (case p of At_Root \<Rightarrow> (let (s, w) = arrayAsRoot n w in (s, parent, w)) | In_Array \<Rightarrow> addArrayToArray n parent w
      | In_Object m \<Rightarrow> addArrayToObject m n parent w | In_IdObject m \<Rightarrow> addArrayToIdObject m n parent w)"

definition open_object :: "place \<Rightarrow> nat \<Rightarrow> scope option \<Rightarrow> writer \<Rightarrow> scope \<times> scope option \<times> writer" where
  "open_object p n parent w =
     (case p of At_Root \<Rightarrow> (let (s, w) = objectAsRoot n w in (s, parent, w)) | In_Array \<Rightarrow> addObjectToArray n parent w
      | In_Object m \<Rightarrow> addObjectToObject m n parent w | In_IdObject m \<Rightarrow> addObjectToIdObject m n parent w)"

definition open_idobject :: "place \<Rightarrow> nat \<Rightarrow> scope option \<Rightarrow> writer \<Rightarrow> scope \<times> scope option \<times> writer" where
  "open_idobject p n parent w =
     (case p of At_Root \<Rightarrow> (let (s, w) = idObjectAsRoot n w in (s, parent, w)) | In_Array \<Rightarrow> addIdObjectToArray n parent w
      | In_Object m \<Rightarrow> addIdObjectToObject m n parent w | In_IdObject m \<Rightarrow> addIdObjectToIdObject m n parent w)"

definition close_scope :: "scope option \<Rightarrow> writer \<Rightarrow> writer" where
  "close_scope s w = (case s of None \<Rightarrow> w | Some s \<Rightarrow> scope_finish s w)"

fun write_at :: "place \<Rightarrow> doc \<Rightarrow> scope option \<Rightarrow> writer \<Rightarrow> scope option \<times> writer"
  and write_elements :: "doc list \<Rightarrow> scope option \<Rightarrow> writer \<Rightarrow> scope option \<times> writer"
  and write_fields :: "(bytes \<Rightarrow> place) \<Rightarrow> (bytes \<times> doc) list \<Rightarrow> scope option \<Rightarrow> writer \<Rightarrow> scope option \<times> writer"
where
  "write_at p D_null parent w = put_null p parent w"
| "write_at p (D_value v) parent w = put_value p v parent w"
| "write_at p (D_fixed v) parent w = put_fixed p v parent w"
| "write_at p (D_array ds) parent w =
     (let (child, parent, w) = open_array p (length ds) parent w;
          (child, w) = write_elements ds (Some child) w
      in (parent, close_scope child w))"
| "write_at p (D_object fs) parent w =
     (let (child, parent, w) = open_object p (length fs) parent w;
          (child, w) = write_fields In_Object fs (Some child) w
      in (parent, close_scope child w))"
| "write_at p (D_idobject fs) parent w =
     (let (child, parent, w) = open_idobject p (length fs) parent w;
          (child, w) = write_fields In_IdObject fs (Some child) w
      in (parent, close_scope child w))"
| "write_elements [] parent w = (parent, w)"
| "write_elements (d # ds) parent w =
     (let (parent, w) = write_at In_Array d parent w in write_elements ds parent w)"
| "write_fields pl [] parent w = (parent, w)"
| "write_fields pl (f # fs) parent w =
     (let (parent, w) = write_at (pl (fst f)) (snd f) parent w in write_fields pl fs parent w)"

definition write_document :: "doc \<Rightarrow> writer" where
  "write_document d = snd (write_at At_Root d None (new_writer []))"

subsection \<open>What the operations emit\<close>

definition collision :: sa_error where
  "collision = SaError SaInvalidField ''Reflected binary object contains colliding hashed field ids''"

text \<open>A framed writer past its header that appended \<open>bs\<close>, with a collision reported unless \<open>ok\<close>.\<close>

definition framed :: "writer \<Rightarrow> bool" where
  "framed w \<longleftrightarrow> w_started w \<and> \<not> w_raw w"

definition wrote :: "writer \<Rightarrow> bytes \<Rightarrow> bool \<Rightarrow> writer" where
  "wrote w bs ok =
     w\<lparr>w_buffer := w_buffer w @ bs, w_error := (if w_error w = None \<and> \<not> ok then Some collision else w_error w)\<rparr>"

named_theorems emit_simps

lemma wrote_wrote [emit_simps]: "wrote (wrote w a p) b q = wrote w (a @ b) (p \<and> q)"
  by (simp add: wrote_def)

lemma framed_wrote [simp]: "framed (wrote w bs ok) = framed w"
  by (simp add: framed_def wrote_def)

lemma appendBytes_wrote [emit_simps]: "appendBytes bs w = wrote w bs True"
  by (simp add: appendBytes_def wrote_def)

lemma pushTag_wrote [emit_simps]: "pushTag tag w = wrote w [tag_byte tag] True"
  by (simp add: pushTag_def appendBytes_wrote)

lemma writeUleb128_wrote [emit_simps]: "writeUleb128 v w = wrote w (write_uleb v) True"
  by (simp add: writeUleb128_def appendBytes_wrote)

lemma setError_wrote [emit_simps]:
  "setError SaInvalidField ''Reflected binary object contains colliding hashed field ids'' w = wrote w [] False"
  by (simp add: setError_def wrote_def collision_def)

lemma framed_not_raw [simp]: "framed w \<Longrightarrow> w_raw w = False"
  by (simp add: framed_def)

lemma ensureDocumentHeader_framed [simp]: "framed w \<Longrightarrow> ensureDocumentHeader w = w"
  by (simp add: framed_def ensureDocumentHeader_def)

lemma writeContainerHeader_wrote [emit_simps]:
  "framed w \<Longrightarrow> writeContainerHeader tag n w = wrote w (tag_byte tag # count_bytes n) True"
  by (simp add: writeContainerHeader_def emit_simps count_bytes_def)

lemma write_uleb_ucast:
  assumes "8 \<le> LENGTH('a)" "LENGTH('a) \<le> LENGTH('b)"
  shows "write_uleb (ucast (v :: 'a::len word) :: 'b::len word) = write_uleb v"
proof (induction v rule: write_uleb.induct)
  case (1 v)
  have byte: "(ucast (ucast v AND (0x7F :: 'b word)) :: byte) = ucast (v AND 0x7F)"
    using assms by (intro bit_eqI) (auto simp: word_and_0x7F bit_simps)
  have rest: "drop_bit 7 (ucast v :: 'b word) = ucast (drop_bit 7 v)"
    using assms by (intro bit_eqI) (auto simp: bit_simps dest: bit_imp_le_length)
  have zero: "(ucast (drop_bit 7 v) :: 'b word) = 0 \<longleftrightarrow> drop_bit 7 v = 0"
    using assms by (metis ucast_0 ucast_up_ucast_id is_up)
  show ?case
    by (subst (1 2) write_uleb.simps) (use 1 in \<open>simp add: byte rest zero Let_def\<close>)
qed

lemma write_scalar_wrote [emit_simps]: "write_scalar s w = wrote w (emit (scalar_tree s)) True"
  by (cases s) (simp_all add: emit_simps writeFloating_def write_uleb_ucast)

lemma writeValue_wrote [emit_simps]:
  "framed w \<Longrightarrow> writeValue v w = wrote w (emit (tree_of (D_value v))) True"
  by (cases v) (simp_all add: writeValue_def emit_simps count_bytes_def)

lemma writeFixed_wrote [emit_simps]:
  "framed w \<Longrightarrow> writeFixed v (scalar_size v) w = wrote w (emit (fixed_tree v)) True"
  by (cases v) (simp_all add: writeFixed_def emit_simps fixed_tree_def writeRawFixed_def writeFloating_def)

text \<open>The key of a field, the parent scope it leaves and whether its id was new.\<close>

fun place_bytes :: "place \<Rightarrow> bytes" where
  "place_bytes (In_Object n) = count_bytes (length n) @ n"
| "place_bytes (In_IdObject n) = key_bytes (key_of n)"
| "place_bytes _ = []"

fun place_parent :: "place \<Rightarrow> scope option \<Rightarrow> scope option" where
  "place_parent At_Root parent = parent"
| "place_parent (In_IdObject n) parent =
     (if useHashedFieldId n then map_option (\<lambda>s. snd (rememberId (fieldId n) s)) (scope_increment parent)
      else scope_increment parent)"
| "place_parent _ parent = scope_increment parent"

fun place_ok :: "place \<Rightarrow> scope option \<Rightarrow> bool" where
  "place_ok (In_IdObject n) (Some s) \<longleftrightarrow>
     \<not> (useHashedFieldId n \<and> sc_kind s = K_IdObject \<and> fieldId n \<in> set (sc_ids s))"
| "place_ok _ _ = True"

lemma beginNamedField_wrote [emit_simps]:
  "beginNamedField name parent w =
     (place_parent (In_Object name) parent, wrote w (place_bytes (In_Object name)) True)"
  by (simp add: beginNamedField_def emit_simps count_bytes_def)

lemma beginIdField_wrote [emit_simps]:
  "beginIdField name parent w =
     (place_parent (In_IdObject name) parent,
      wrote w (place_bytes (In_IdObject name)) (place_ok (In_IdObject name) parent))"
  by (cases parent)
    (auto simp: beginIdField_def emit_simps key_of_def scope_increment_def rememberId_def Let_def)

lemma put_null_wrote [emit_simps]:
  "framed w \<Longrightarrow> put_null p parent w =
     (place_parent p parent, wrote w (place_bytes p @ [tag_byte T_Null]) (place_ok p parent))"
  by (cases p) (simp_all add: put_null_def nullAsRoot_def addNullToArray_def addNullToObject_def
      addNullToIdObject_def emit_simps)

lemma put_value_wrote [emit_simps]:
  "framed w \<Longrightarrow> put_value p v parent w =
     (place_parent p parent, wrote w (place_bytes p @ emit (tree_of (D_value v))) (place_ok p parent))"
  by (cases p) (simp_all add: put_value_def valueAsRoot_def addValueToArray_def addValueToObject_def
      addValueToIdObject_def emit_simps del: tree_of.simps)

lemma put_fixed_wrote [emit_simps]:
  "framed w \<Longrightarrow> put_fixed p v parent w =
     (place_parent p parent, wrote w (place_bytes p @ emit (fixed_tree v)) (place_ok p parent))"
  by (cases p) (simp_all add: put_fixed_def fixedValueAsRoot_def addFixedValueToArray_def addFixedValueToObject_def
      addFixedValueToIdObject_def emit_simps)

lemma open_wrote [emit_simps]:
  assumes "framed w"
  shows "open_array p n parent w = (new_scope K_Array n, place_parent p parent,
      wrote w (place_bytes p @ tag_byte T_Array # count_bytes n) (place_ok p parent))"
    and "open_object p n parent w = (new_scope K_NamedObject n, place_parent p parent,
      wrote w (place_bytes p @ tag_byte T_NamedObject # count_bytes n) (place_ok p parent))"
    and "open_idobject p n parent w = (new_scope K_IdObject n, place_parent p parent,
      wrote w (place_bytes p @ tag_byte T_IdObject # count_bytes n) (place_ok p parent))"
  using assms
  by (cases p; simp add: open_array_def open_object_def open_idobject_def arrayAsRoot_def objectAsRoot_def
      idObjectAsRoot_def addArrayToArray_def addObjectToArray_def addIdObjectToArray_def addArrayToObject_def
      addObjectToObject_def addIdObjectToObject_def addArrayToIdObject_def addObjectToIdObject_def
      addIdObjectToIdObject_def emit_simps)+

text \<open>A field list leaves the parent scope and the freshness of its ids by a walk over the names.\<close>

fun fields_parent :: "place list \<Rightarrow> scope option \<Rightarrow> scope option" where
  "fields_parent [] parent = parent"
| "fields_parent (p # ps) parent = fields_parent ps (place_parent p parent)"

fun fields_ok :: "place list \<Rightarrow> scope option \<Rightarrow> bool" where
  "fields_ok [] parent = True"
| "fields_ok (p # ps) parent \<longleftrightarrow> place_ok p parent \<and> fields_ok ps (place_parent p parent)"

lemma place_parent_counts:
  "p \<noteq> At_Root \<Longrightarrow>
     \<exists>ids. place_parent p (Some s) = Some (s\<lparr>sc_actual := Suc (sc_actual s), sc_ids := ids\<rparr>)"
  by (rule exI [of _ "sc_ids (the (place_parent p (Some s)))"], cases p)
    (auto simp: scope_increment_def rememberId_def)

lemma fields_parent_counts:
  "\<forall>p \<in> set ps. p \<noteq> At_Root \<Longrightarrow>
     \<exists>ids. fields_parent ps (Some s) = Some (s\<lparr>sc_actual := sc_actual s + length ps, sc_ids := ids\<rparr>)"
proof (induction ps arbitrary: s)
  case Nil
  then show ?case
    by (auto intro: exI [of _ "sc_ids s"])
next
  case (Cons p ps)
  then have "p \<noteq> At_Root"
    by simp
  then obtain ids where "place_parent p (Some s) = Some (s\<lparr>sc_actual := Suc (sc_actual s), sc_ids := ids\<rparr>)"
    using place_parent_counts by blast
  then show ?case
    using Cons.IH [of "s\<lparr>sc_actual := Suc (sc_actual s), sc_ids := ids\<rparr>"] Cons.prems by simp
qed

lemma close_full_scope:
  assumes "\<forall>p \<in> set ps. p \<noteq> At_Root"
  shows "close_scope (fields_parent ps (Some (new_scope k (length ps)))) w = w"
  using fields_parent_counts [OF assms, of "new_scope k (length ps)"]
  by (auto simp: close_scope_def scope_finish_def new_scope_def)

lemma fields_ok_named: "(\<And>p. p \<in> set ps \<Longrightarrow> \<forall>n. p \<noteq> In_IdObject n) \<Longrightarrow> fields_ok ps parent"
proof (induction ps arbitrary: parent)
  case (Cons p ps)
  then show ?case
    by (cases p) auto
qed simp

lemma fields_ok_ided:
  "sc_kind s = K_IdObject \<Longrightarrow>
   fields_ok (map In_IdObject names) (Some s) \<longleftrightarrow>
     distinct (hashed_ids names) \<and> set (hashed_ids names) \<inter> set (sc_ids s) = {}"
proof (induction names arbitrary: s)
  case (Cons n names)
  show ?case
  proof (cases "useHashedFieldId n")
    case True
    have "place_parent (In_IdObject n) (Some s) =
        Some (s\<lparr>sc_actual := sc_actual s + 1, sc_ids := List.insert (fieldId n) (sc_ids s)\<rparr>)"
      using True Cons.prems by (simp add: scope_increment_def rememberId_def)
    then show ?thesis
      using Cons.IH [of "s\<lparr>sc_actual := sc_actual s + 1, sc_ids := List.insert (fieldId n) (sc_ids s)\<rparr>"]
        Cons.prems True by (auto simp: hashed_ids_def simp del: place_parent.simps)
  next
    case False
    then have "place_parent (In_IdObject n) (Some s) = Some (s\<lparr>sc_actual := sc_actual s + 1\<rparr>)"
      by (simp add: scope_increment_def)
    then show ?thesis
      using Cons.IH [of "s\<lparr>sc_actual := sc_actual s + 1\<rparr>"] Cons.prems False
      by (auto simp: hashed_ids_def simp del: place_parent.simps)
  qed
qed (simp add: hashed_ids_def)

lemma fields_ok_new_idobject:
  "fields_ok (map In_IdObject names) (Some (new_scope K_IdObject n)) \<longleftrightarrow> distinct (hashed_ids names)"
  by (subst fields_ok_ided) (simp_all add: new_scope_def)

text \<open>What a document's operations do to a framed writer.\<close>

definition elements_bytes :: "doc list \<Rightarrow> bytes" where
  "elements_bytes ds = concat (map (\<lambda>d. emit (tree_of d)) ds)"

definition fields_bytes :: "(bytes \<Rightarrow> place) \<Rightarrow> (bytes \<times> doc) list \<Rightarrow> bytes" where
  "fields_bytes pl fs = concat (map (\<lambda>f. place_bytes (pl (fst f)) @ emit (tree_of (snd f))) fs)"

lemma write_at_wrote:
  "framed w \<Longrightarrow> write_at p d parent w =
     (place_parent p parent, wrote w (place_bytes p @ emit (tree_of d)) (place_ok p parent \<and> doc_ok d))"
  "framed w \<Longrightarrow> write_elements ds parent w =
     (fields_parent (map (\<lambda>_. In_Array) ds) parent, wrote w (elements_bytes ds) (list_all doc_ok ds))"
  "pl = In_Object \<or> pl = In_IdObject \<Longrightarrow> framed w \<Longrightarrow> write_fields pl fs parent w =
     (fields_parent (map (\<lambda>f. pl (fst f)) fs) parent,
      wrote w (fields_bytes pl fs) (fields_ok (map (\<lambda>f. pl (fst f)) fs) parent \<and> list_all (\<lambda>f. doc_ok (snd f)) fs))"
proof (induction p d parent w and ds parent w and pl fs parent w
    rule: write_at_write_elements_write_fields.induct)
  case (4 p ds parent w)
  have close: "close_scope (fields_parent (map (\<lambda>_. In_Array) ds) (Some (new_scope K_Array (length ds)))) v = v" for v
    using close_full_scope [of "map (\<lambda>_. In_Array) ds" K_Array v] by simp
  show ?case
    using 4 by (simp add: emit_simps close elements_bytes_def comp_def)
next
  case (5 p fs parent w)
  have close: "close_scope (fields_parent (map (\<lambda>f. In_Object (fst f)) fs) (Some (new_scope K_NamedObject (length fs)))) v = v" for v
    using close_full_scope [of "map (\<lambda>f. In_Object (fst f)) fs" K_NamedObject v] by auto
  have fresh: "fields_ok (map (\<lambda>f. In_Object (fst f)) fs) (Some (new_scope K_NamedObject (length fs)))"
    by (rule fields_ok_named) auto
  show ?case
    using 5 by (simp add: emit_simps close fresh fields_bytes_def comp_def)
next
  case (6 p fs parent w)
  have close: "close_scope (fields_parent (map (\<lambda>f. In_IdObject (fst f)) fs) (Some (new_scope K_IdObject (length fs)))) v = v" for v
    using close_full_scope [of "map (\<lambda>f. In_IdObject (fst f)) fs" K_IdObject v] by auto
  have fresh: "fields_ok (map (\<lambda>f. In_IdObject (fst f)) fs) (Some (new_scope K_IdObject (length fs))) \<longleftrightarrow>
      distinct (hashed_ids (map fst fs))"
    using fields_ok_new_idobject [of "map fst fs"] by (simp add: comp_def)
  show ?case
    using 6 by (simp add: emit_simps close fresh fields_bytes_def comp_def)
next
  case (8 d ds parent w)
  then show ?case
    by (simp add: emit_simps elements_bytes_def)
next
  case (10 pl f fs parent w)
  then show ?case
    by (auto simp: emit_simps fields_bytes_def intro: arg_cong [where f = "wrote w _"])
qed (simp_all add: emit_simps wrote_def elements_bytes_def fields_bytes_def)

text \<open>At the root the header is written first.\<close>

lemma ensureDocumentHeader_idem [simp]:
  "ensureDocumentHeader (ensureDocumentHeader w) = ensureDocumentHeader w"
  by (simp add: ensureDocumentHeader_def appendBytes_def)

lemma raw_ensureDocumentHeader [simp]: "w_raw (ensureDocumentHeader w) = w_raw w"
  by (simp add: ensureDocumentHeader_def appendBytes_def)

lemma framed_ensureDocumentHeader: "\<not> w_raw w \<Longrightarrow> framed (ensureDocumentHeader w)"
  by (simp add: framed_def ensureDocumentHeader_def appendBytes_def)

lemma write_at_root_header:
  "\<not> w_raw w \<Longrightarrow> write_at At_Root d parent w = write_at At_Root d parent (ensureDocumentHeader w)"
  by (cases d) (simp_all add: put_null_def put_value_def put_fixed_def nullAsRoot_def valueAsRoot_def
      fixedValueAsRoot_def writeValue_def writeFixed_def open_array_def open_object_def open_idobject_def
      arrayAsRoot_def objectAsRoot_def idObjectAsRoot_def writeContainerHeader_def)

lemma write_document_eq:
  "write_document d = wrote (ensureDocumentHeader (new_writer [])) (emit (tree_of d)) (doc_ok d)"
proof -
  let ?w = "ensureDocumentHeader (new_writer [])"
  have raw: "\<not> w_raw (new_writer [])"
    by (simp add: new_writer_def)
  show ?thesis
    unfolding write_document_def
    by (subst write_at_root_header [OF raw]) (simp add: write_at_wrote framed_ensureDocumentHeader [OF raw])
qed

text \<open>C24 (functional). Writing a document through the operations of \<open>Writer\<close>, with every
  container opened with its own count, emits the magic and the encoding of the document's tree,
  and the writer reports an error exactly when two hashed field ids of one reflected object
  collide: the error is the collision, the counts never disagree.\<close>

theorem write_document_exact:
  "w_buffer (write_document d) = BinaryMagic @ emit (tree_of d) \<and>
   writer_result (write_document d) = (if doc_ok d then Inr () else Inl (Err collision))"
  by (simp_all add: write_document_eq wrote_def writer_result_def ensureDocumentHeader_def appendBytes_def
      new_writer_def)

end
