(* ===== verification/Binary_Reader.thy ===== *)
theory Binary_Reader
  imports Binary_Document
begin

unbundle bit_operations_syntax

text \<open>
  \<open>binary::Reader\<close> of \<open>serialization/binary/binary_reader.hpp\<close>. The reader's \<open>State\<close> is split into
  what never changes (\<open>input\<close>: the bytes, the limits and the object sizes charged against the
  allocation budget, which the compiler chooses) and what does (\<open>rstate\<close>). A parsed \<open>Node\<close> is a tree;
  the two fields that later reads change, \<open>consumed\<close> and \<open>end\<close>, live in \<open>cells\<close>, indexed by the
  node's number, so that all handles of one node share them as the \<open>shared_ptr\<close> copies do.
\<close>

record ParseLimits =
  max_input_bytes :: nat
  max_string_bytes :: nat
  max_container_elements :: nat
  max_object_fields :: nat
  max_depth :: nat
  max_total_allocated_bytes :: nat

definition default_parse_limits :: ParseLimits where
  "default_parse_limits = \<lparr>max_input_bytes = 16 * 1024 * 1024, max_string_bytes = 4 * 1024 * 1024,
     max_container_elements = 1024 * 1024, max_object_fields = 64 * 1024, max_depth = 64,
     max_total_allocated_bytes = 32 * 1024 * 1024\<rparr>"

text \<open>\<open>sizeof\<close> of the reader's own types.\<close>

record sizes =
  sizeof_node :: nat
  sizeof_node_ptr :: nat
  sizeof_member :: nat
  sizeof_size_t :: nat

definition size_max :: nat where
  "size_max = 2 ^ 64 - 1"

text \<open>The difference of two \<open>std::size_t\<close>, which wraps when the first is the smaller.\<close>

definition size_diff :: "nat \<Rightarrow> nat \<Rightarrow> nat" where
  "size_diff a b = (if b \<le> a then a - b else size_max + 1 + a - b)"

lemma size_diff_le [simp]: "b \<le> a \<Longrightarrow> size_diff a b = a - b"
  by (simp add: size_diff_def)

subsection \<open>Data\<close>

record node_info =
  nd_cell :: nat
  nd_tag :: value_tag
  nd_raw :: bool
  nd_begin :: nat
  nd_dataBegin :: nat
  nd_dataEnd :: nat
  nd_depth :: nat
  nd_named :: "bytes \<rightharpoonup> nat"
  nd_ids :: "u32 \<rightharpoonup> nat"
  nd_error :: "sa_error option"

datatype node = Node (nd: node_info) (elements: "node list") (members: "(bytes \<times> u32 \<times> node) list")

record cell =
  consumed :: bool
  cell_end :: nat

record input =
  in_data :: "bytes option"
  in_size :: nat
  in_limits :: ParseLimits
  in_sizes :: sizes

record rstate =
  rs_offset :: nat
  rs_remaining :: nat
  rs_framed :: bool
  rs_error :: "sa_error option"
  rs_cells :: "cell list"

text \<open>\<open>InputValue\<close>: whether the pointer to the state is set, and the node it holds.\<close>

record handle =
  h_state :: bool
  h_node :: "node option"

definition in_bytes :: "input \<Rightarrow> bytes" where
  "in_bytes S = (case in_data S of None \<Rightarrow> [] | Some d \<Rightarrow> d)"

text \<open>An operation that changes the state, also when it fails.\<close>

type_synonym 'a act = "rstate \<Rightarrow> 'a sa_result \<times> rstate"

definition act_then :: "'a act \<Rightarrow> ('a \<Rightarrow> 'b act) \<Rightarrow> 'b act" where
  "act_then m f st = (case m st of (Inl e, st) \<Rightarrow> (Inl e, st) | (Inr x, st) \<Rightarrow> f x st)"

definition act_of :: "'a sa_result \<Rightarrow> 'a act" where
  "act_of r st = (r, st)"

definition fail :: "sa_code \<Rightarrow> string \<Rightarrow> 'a act" where
  "fail ec msg = act_of (Inl (Err (SaError ec msg)))"

lemma act_then_cong [fundef_cong]:
  "m st = m' st' \<Longrightarrow> (\<And>x t. m' st' = (Inr x, t) \<Longrightarrow> f x t = f' x t) \<Longrightarrow> act_then m f st = act_then m' f' st'"
  by (auto simp: act_then_def split: prod.splits sum.splits)

text \<open>The node a failed or a raw read returns, and the allocation of a node.\<close>

definition default_node :: "nat \<Rightarrow> node_info" where
  "default_node c = \<lparr>nd_cell = c, nd_tag = T_Null, nd_raw = False, nd_begin = 0, nd_dataBegin = 0,
     nd_dataEnd = 0, nd_depth = 0, nd_named = Map.empty, nd_ids = Map.empty, nd_error = None\<rparr>"

definition make_node :: "rstate \<Rightarrow> nat \<times> rstate" where
  "make_node st = (length (rs_cells st), st\<lparr>rs_cells := rs_cells st @ [\<lparr>consumed = False, cell_end = 0\<rparr>]\<rparr>)"

definition set_end :: "nat \<Rightarrow> nat \<Rightarrow> rstate \<Rightarrow> rstate" where
  "set_end c e st = st\<lparr>rs_cells := (rs_cells st)[c := (rs_cells st ! c)\<lparr>cell_end := e\<rparr>]\<rparr>"

definition set_consumed :: "nat \<Rightarrow> rstate \<Rightarrow> rstate" where
  "set_consumed c st = st\<lparr>rs_cells := (rs_cells st)[c := (rs_cells st ! c)\<lparr>consumed := True\<rparr>]\<rparr>"

definition errorValue :: "bool \<Rightarrow> sa_error \<Rightarrow> rstate \<Rightarrow> handle \<times> rstate" where
  "errorValue state e st =
     (let (c, st) = make_node st
      in (\<lparr>h_state = state, h_node = Some (Node ((default_node c)\<lparr>nd_error := Some e\<rparr>) [] [])\<rparr>, st))"

definition rawValue :: "input \<Rightarrow> rstate \<Rightarrow> handle \<times> rstate" where
  "rawValue S st =
     (let (c, st) = make_node st;
          st = set_end c (rs_offset st) st;
          n = (default_node c)\<lparr>nd_raw := True, nd_begin := rs_offset st, nd_dataBegin := rs_offset st,
                nd_dataEnd := in_size S\<rparr>;
          n = (if in_size S \<le> rs_offset st
               then n\<lparr>nd_error := Some (SaError SaParseError ''Unexpected end of raw fixed binary data'')\<rparr> else n)
      in (\<lparr>h_state = True, h_node = Some (Node n [] [])\<rparr>, st))"

subsection \<open>Parsing a framed value\<close>

definition charge :: "nat \<Rightarrow> unit act" where
  "charge n st =
     (if rs_remaining st < n then fail SaInvalidLength ''Binary parse allocation budget exceeded'' st
      else (Inr (), st\<lparr>rs_remaining := size_diff (rs_remaining st) n\<rparr>))"

definition chargeProduct :: "nat \<Rightarrow> nat \<Rightarrow> unit act" where
  "chargeProduct count elementSize st =
     (if count \<noteq> 0 \<and> size_max div count < elementSize
      then fail SaInvalidLength ''Binary parse allocation size overflow'' st
      else charge (count * elementSize) st)"

definition readCount :: "input \<Rightarrow> nat \<Rightarrow> nat \<Rightarrow> nat \<Rightarrow> string \<Rightarrow> (nat \<times> nat) sa_result" where
  "readCount S cursor limit maximum kind =
     and_then (read_uleb (in_bytes S) cursor limit) (\<lambda>(count :: u64, cursor).
       if maximum < unat count \<or> size_max < unat count
       then Inl (Err (SaError SaInvalidLength (''Binary '' @ kind @ '' exceeds configured member limit'')))
       else Inr (unat count, cursor))"

definition fixedWidth :: "value_tag \<Rightarrow> nat" where
  "fixedWidth tag =
     (case tag of
        T_FixedSigned8 \<Rightarrow> 1 | T_FixedUnsigned8 \<Rightarrow> 1
      | T_FixedSigned16 \<Rightarrow> 2 | T_FixedUnsigned16 \<Rightarrow> 2
      | T_FixedSigned32 \<Rightarrow> 4 | T_FixedUnsigned32 \<Rightarrow> 4
      | T_FixedSigned64 \<Rightarrow> 8 | T_FixedUnsigned64 \<Rightarrow> 8
      | _ \<Rightarrow> 0)"

text \<open>\<open>_takeFixed\<close>: the payload's begin and end, or \<open>None\<close> when it is cut short.\<close>

definition takeFixed :: "nat \<Rightarrow> nat \<Rightarrow> nat \<Rightarrow> (nat \<times> nat) option" where
  "takeFixed cursor limit width = (if size_diff limit cursor < width then None else Some (cursor, cursor + width))"

definition truncatedFixed :: sa_error where
  "truncatedFixed = SaError SaParseError ''Truncated fixed-width binary value''"

text \<open>The key of an object's next member: its name, its id and the cursor behind it.\<close>

definition read_name ::
  "input \<Rightarrow> nat \<Rightarrow> nat \<Rightarrow> nat \<Rightarrow> (bytes \<rightharpoonup> nat) \<Rightarrow> string \<Rightarrow> string \<Rightarrow> (bytes \<times> nat) sa_result" where
  "read_name S cursor limit n named too_long duplicate =
     (if max_string_bytes (in_limits S) < n \<or> size_diff limit cursor < n
      then Inl (Err (SaError SaInvalidLength too_long))
      else and_then (span_sub (in_bytes S) cursor n) (\<lambda>name.
        if name \<in> dom named then Inl (Err (SaError SaInvalidField duplicate))
        else Inr (name, cursor + n)))"

definition read_key ::
  "input \<Rightarrow> value_tag \<Rightarrow> nat \<Rightarrow> nat \<Rightarrow> (bytes \<rightharpoonup> nat) \<Rightarrow> (u32 \<rightharpoonup> nat) \<Rightarrow> (bytes \<times> u32 \<times> nat) sa_result"
where
  "read_key S tag limit cursor named ids =
     and_then (read_uleb (in_bytes S) cursor limit) (\<lambda>(key :: u64, cursor).
       if tag = T_NamedObject then
         and_then (read_name S cursor limit (unat key) named ''Binary field name exceeds configured limit''
             ''Binary object contains a duplicate field name'')
           (\<lambda>(name, cursor). Inr (name, 0, cursor))
       else if key AND 1 = 0 then
         and_then (read_name S cursor limit (unat (drop_bit 1 key)) named
             ''Binary reflected field name exceeds configured limit''
             ''Binary object contains a duplicate reflected field name'')
           (\<lambda>(name, cursor). Inr (name, 0, cursor))
       else
         let id64 = drop_bit 1 key in
         if ucast (- 1 :: u32) < id64
         then Inl (Err (SaError SaInvalidField ''Binary reflected field id is out of range''))
         else if ucast id64 \<in> dom ids
         then Inl (Err (SaError SaInvalidField ''Binary object contains a duplicate reflected field id''))
         else Inr ([], ucast id64, cursor))"

definition index_emplace :: "('k \<rightharpoonup> nat) \<Rightarrow> 'k \<Rightarrow> nat \<Rightarrow> ('k \<rightharpoonup> nat)" where
  "index_emplace m k v = (case m k of None \<Rightarrow> m(k \<mapsto> v) | Some _ \<Rightarrow> m)"

text \<open>Which index a member enters: an empty name of a compact-key object goes by its id.\<close>

definition index_member ::
  "value_tag \<Rightarrow> bytes \<Rightarrow> u32 \<Rightarrow> nat \<Rightarrow> (bytes \<rightharpoonup> nat) \<Rightarrow> (u32 \<rightharpoonup> nat) \<Rightarrow> (bytes \<rightharpoonup> nat) \<times> (u32 \<rightharpoonup> nat)" where
  "index_member tag name ident ix named ids =
     (if tag = T_NamedObject then (index_emplace named name ix, ids)
      else if name = [] then (named, index_emplace ids ident ix)
      else (index_emplace named name ix, ids))"

definition tag_of_byte :: "byte \<Rightarrow> value_tag option" where
  "tag_of_byte b = (if b \<le> tag_byte T_FixedUnsigned64 then Some (all_tags ! unat b) else None)"

text \<open>The payload of a value without children: its begin and end and the cursor behind it.\<close>

definition parse_leaf ::
  "input \<Rightarrow> value_tag \<Rightarrow> nat \<Rightarrow> nat \<Rightarrow> (nat \<times> nat \<times> nat) sa_result" where
  "parse_leaf S tag cursor limit =
     (let fixed = (\<lambda>width. case takeFixed cursor limit width of
            None \<Rightarrow> Inl (Err truncatedFixed) | Some (b, e) \<Rightarrow> Inr (b, e, e))
      in case tag of
        T_Null \<Rightarrow> Inr (0, 0, cursor) | T_False \<Rightarrow> Inr (0, 0, cursor) | T_True \<Rightarrow> Inr (0, 0, cursor)
      | T_SignedInteger \<Rightarrow>
          and_then (read_uleb (in_bytes S) cursor limit) (\<lambda>(_ :: u64, c). Inr (cursor, c, c))
      | T_UnsignedInteger \<Rightarrow>
          and_then (read_uleb (in_bytes S) cursor limit) (\<lambda>(_ :: u64, c). Inr (cursor, c, c))
      | T_Float32 \<Rightarrow> fixed 4
      | T_Float64 \<Rightarrow> fixed 8
      | T_String \<Rightarrow>
          and_then (read_uleb (in_bytes S) cursor limit) (\<lambda>(n :: u64, c).
            if max_string_bytes (in_limits S) < unat n \<or> size_diff limit c < unat n
            then Inl (Err (SaError SaInvalidLength ''Binary string exceeds configured byte limit''))
            else Inr (c, c + unat n, c + unat n))
      | _ \<Rightarrow> if fixedWidth tag = 0 then Inl (Err truncatedFixed) else fixed (fixedWidth tag))"

text \<open>
  \<open>_parseNode\<close> with its two loops. The recursion ends because the depth is checked first: a
  node at depth \<open>d\<close> is followed by loops over children at \<open>d + 1\<close>, at most \<open>max_depth + 1\<close>.
\<close>

function parse_node :: "input \<Rightarrow> nat \<Rightarrow> nat \<Rightarrow> nat \<Rightarrow> (node \<times> nat) act"
  and parse_elements :: "input \<Rightarrow> nat \<Rightarrow> nat \<Rightarrow> nat \<Rightarrow> nat \<Rightarrow> node list \<Rightarrow> (node list \<times> nat) act"
  and parse_members ::
    "input \<Rightarrow> value_tag \<Rightarrow> nat \<Rightarrow> nat \<Rightarrow> nat \<Rightarrow> nat \<Rightarrow> (bytes \<times> u32 \<times> node) list \<Rightarrow> (bytes \<rightharpoonup> nat) \<Rightarrow> (u32 \<rightharpoonup> nat) \<Rightarrow>
      ((bytes \<times> u32 \<times> node) list \<times> (bytes \<rightharpoonup> nat) \<times> (u32 \<rightharpoonup> nat) \<times> nat) act"
where
  "parse_node S cursor limit depth st =
     (if max_depth (in_limits S) < depth
      then fail SaInvalidLength ''Binary nesting exceeds configured depth limit'' st
      else if limit \<le> cursor \<or> in_size S < limit
      then fail SaParseError ''Unexpected end of binary value'' st
      else act_then (charge (sizeof_node (in_sizes S))) (\<lambda>_ st.
        let (cell, st) = make_node st;
            node = (default_node cell)\<lparr>nd_begin := cursor, nd_depth := depth\<rparr>
        in act_then (act_of (byte_at (in_bytes S) cursor)) (\<lambda>b st.
          case tag_of_byte b of
            None \<Rightarrow> fail SaInvalidType ''Unknown binary value tag'' st
          | Some tag \<Rightarrow>
            if tag = T_Array then
              act_then (act_of (readCount S (Suc cursor) limit (max_container_elements (in_limits S)) ''array''))
                (\<lambda>(count, cursor) st.
              act_then (chargeProduct count (sizeof_node_ptr (in_sizes S))) (\<lambda>_ st.
              act_then (parse_elements S count cursor limit (depth + 1) []) (\<lambda>(es, cursor) st.
                (Inr (Node (node\<lparr>nd_tag := tag\<rparr>) es [], cursor), set_end cell cursor st)) st) st) st
            else if tag = T_NamedObject \<or> tag = T_IdObject then
              act_then (act_of (readCount S (Suc cursor) limit (max_object_fields (in_limits S)) ''object''))
                (\<lambda>(count, cursor) st.
              act_then (chargeProduct count (sizeof_member (in_sizes S) + sizeof_size_t (in_sizes S))) (\<lambda>_ st.
              act_then (parse_members S tag count cursor limit (depth + 1) [] Map.empty Map.empty)
                (\<lambda>(ms, named, ids, cursor) st.
                (Inr (Node (node\<lparr>nd_tag := tag, nd_named := named, nd_ids := ids\<rparr>) [] ms, cursor),
                 set_end cell cursor st)) st) st) st
            else
              act_then (act_of (parse_leaf S tag (Suc cursor) limit)) (\<lambda>(db, de, cursor) st.
                (Inr (Node (node\<lparr>nd_tag := tag, nd_dataBegin := db, nd_dataEnd := de\<rparr>) [] [], cursor),
                 set_end cell cursor st)) st) st) st)"
| "parse_elements S 0 cursor limit depth es st = (Inr (es, cursor), st)"
| "parse_elements S (Suc n) cursor limit depth es st =
     act_then (parse_node S cursor limit depth) (\<lambda>(child, cursor) st.
       parse_elements S n cursor limit depth (es @ [child]) st) st"
| "parse_members S tag 0 cursor limit depth ms named ids st = (Inr (ms, named, ids, cursor), st)"
| "parse_members S tag (Suc n) cursor limit depth ms named ids st =
     act_then (act_of (read_key S tag limit cursor named ids)) (\<lambda>(name, ident, cursor) st.
     act_then (parse_node S cursor limit depth) (\<lambda>(child, cursor) st.
       let (named, ids) = index_member tag name ident (length ms) named ids
       in parse_members S tag n cursor limit depth (ms @ [(name, ident, child)]) named ids st) st) st"
  by pat_completeness auto
termination
  by (relation "measures
       [\<lambda>x. case x of
          Inl (S, cursor, limit, depth, st) \<Rightarrow> 2 * (Suc (max_depth (in_limits S)) - depth)
        | Inr (Inl (S, n, cursor, limit, depth, es, st)) \<Rightarrow> Suc (2 * (Suc (max_depth (in_limits S)) - depth))
        | Inr (Inr (S, tag, n, cursor, limit, depth, ms, named, ids, st)) \<Rightarrow>
            Suc (2 * (Suc (max_depth (in_limits S)) - depth)),
        \<lambda>x. case x of
          Inl _ \<Rightarrow> 0
        | Inr (Inl (S, n, cursor, limit, depth, es, st)) \<Rightarrow> n
        | Inr (Inr (S, tag, n, cursor, limit, depth, ms, named, ids, st)) \<Rightarrow> n]") auto

declare parse_node.simps [simp del]

end
