(* ===== verification/Binary_Parse.thy ===== *)
theory Binary_Parse
  imports Binary_Reader
begin

unbundle bit_operations_syntax

text \<open>
  The parser against the grammar: \<open>parse_node\<close> accepts exactly the encodings of the trees that fit
  the limits, the node it returns shows that tree, and it charges the tree's cost. The statements are
  about segments of the input: \<open>seg data a bs\<close> says that \<open>bs\<close> stands in \<open>data\<close> at \<open>a\<close>.
\<close>

definition seg :: "'a list \<Rightarrow> nat \<Rightarrow> 'a list \<Rightarrow> bool" where
  "seg data a bs \<longleftrightarrow> a + length bs \<le> length data \<and> subspan data a (length bs) = bs"

named_theorems seg_simps

lemma seg_Nil [seg_simps]: "seg data a [] \<longleftrightarrow> a \<le> length data"
  by (simp add: seg_def)

lemma seg_append [seg_simps]: "seg data a (bs @ cs) \<longleftrightarrow> seg data a bs \<and> seg data (a + length bs) cs"
proof -
  have split: "subspan data a (length bs + length cs) =
      subspan data a (length bs) @ subspan data (a + length bs) (length cs)"
    by (simp add: subspan_def take_add add.commute)
  have len: "length (subspan data a (length bs)) = length bs" if "a + length bs \<le> length data"
    using that by simp
  show ?thesis
    unfolding seg_def by (auto simp: split append_eq_append_conv len)
qed

lemma seg_Cons [seg_simps]: "seg data a (b # bs) \<longleftrightarrow> a < length data \<and> data ! a = b \<and> seg data (Suc a) bs"
proof -
  have "seg data a [b] \<longleftrightarrow> a < length data \<and> data ! a = b"
    by (auto simp: seg_def subspan_def take_Suc hd_drop_conv_nth)
  then show ?thesis
    using seg_append [of data a "[b]" bs] by (auto simp: seg_def)
qed

lemma seg_le: "seg data a bs \<Longrightarrow> a + length bs \<le> length data"
  by (simp add: seg_def)

lemma span_sub_iff: "span_sub data a n = Inr bs \<longleftrightarrow> length bs = n \<and> seg data a bs"
  by (auto simp: span_sub_def seg_def)

lemma seg_span_sub: "seg data a bs \<Longrightarrow> n = length bs \<Longrightarrow> span_sub data a n = Inr bs"
  by (simp add: span_sub_iff)

lemma read_uleb_iff:
  fixes v :: "'a::len word"
  assumes "8 \<le> LENGTH('a)" "limit \<le> length data"
  shows "read_uleb data c limit = Inr (v, c') \<longleftrightarrow>
    c' = c + length (write_uleb v) \<and> c' \<le> limit \<and> seg data c (write_uleb v)"
proof
  assume r: "read_uleb data c limit = Inr (v, c')"
  from read_uleb_sound [OF assms(1) r assms(2)]
  have sub: "subspan data c (c' - c) = write_uleb v" and cc: "c < c'" "c' \<le> limit"
    by simp_all
  from arg_cong [OF sub, of length] have "length (write_uleb v) = c' - c"
    using cc assms(2) by simp
  with sub cc assms(2) show "c' = c + length (write_uleb v) \<and> c' \<le> limit \<and> seg data c (write_uleb v)"
    by (simp add: seg_def)
next
  assume r: "c' = c + length (write_uleb v) \<and> c' \<le> limit \<and> seg data c (write_uleb v)"
  then have "data = take c data @ write_uleb v @ drop c' data"
    using take_subspan_drop [of c "length (write_uleb v)" data] by (auto simp: seg_def)
  moreover have "length (take c data) = c"
    using r assms(2) by simp
  ultimately show "read_uleb data c limit = Inr (v, c')"
    using read_uleb_write [OF assms(1), of "take c data" v limit "drop c' data"] r by simp
qed

subsection \<open>Actions\<close>

lemma act_then_Inr: "act_then m f st = (Inr y, st') \<longleftrightarrow> (\<exists>x t. m st = (Inr x, t) \<and> f x t = (Inr y, st'))"
  by (auto simp: act_then_def split: prod.splits sum.splits)

lemma act_of_Inr: "act_of r st = (Inr y, st') \<longleftrightarrow> r = Inr y \<and> st' = st"
  by (auto simp: act_of_def)

lemma fail_simps [simp]: "fail ec msg st = (Inl (Err (SaError ec msg)), st)"
  by (simp add: fail_def act_of_def)

lemma act_then_step: "m st = (Inr x, t) \<Longrightarrow> act_then m f st = f x t"
  by (simp add: act_then_def)

lemma act_of_step [simp]: "act_of r st = (r, st)"
  by (simp add: act_of_def)

lemma charge_Inr:
  "charge n st = (Inr u, st') \<longleftrightarrow>
     n \<le> rs_remaining st \<and> st' = st\<lparr>rs_remaining := rs_remaining st - n\<rparr>"
  by (auto simp: charge_def)

lemma div_less_iff_mult: "0 < n \<Longrightarrow> m div n < k \<longleftrightarrow> m < n * (k :: nat)"
  by (simp add: div_less_iff_less_mult mult.commute)

lemma chargeProduct_Inr:
  "chargeProduct n k st = (Inr u, st') \<longleftrightarrow>
     n * k \<le> size_max \<and> n * k \<le> rs_remaining st \<and> st' = st\<lparr>rs_remaining := rs_remaining st - n * k\<rparr>"
  by (cases "n = 0") (auto simp: chargeProduct_def charge_Inr div_less_iff_mult)

text \<open>What an action may do to the state, whether it succeeds or not: allocate nodes.\<close>

definition allocates :: "rstate \<Rightarrow> rstate \<Rightarrow> bool" where
  "allocates st st' \<longleftrightarrow>
     rs_offset st' = rs_offset st \<and> rs_framed st' = rs_framed st \<and> rs_error st' = rs_error st \<and>
     rs_remaining st' \<le> rs_remaining st \<and>
     (\<exists>new. rs_cells st' = rs_cells st @ new \<and> (\<forall>c \<in> set new. \<not> consumed c))"

lemma allocates_refl [simp, intro]: "allocates st st"
  by (simp add: allocates_def)

lemma allocates_trans: "allocates a b \<Longrightarrow> allocates b c \<Longrightarrow> allocates a c"
  by (auto simp: allocates_def intro: le_trans)

lemma allocates_charge: "allocates a st \<Longrightarrow> allocates a (snd (charge n st))"
  by (auto simp: charge_def allocates_def)

lemma allocates_chargeProduct: "allocates a st \<Longrightarrow> allocates a (snd (chargeProduct n k st))"
  by (simp add: chargeProduct_def allocates_charge)

lemma allocates_make_node: "allocates a st \<Longrightarrow> allocates a (snd (make_node st))"
  by (auto simp: make_node_def allocates_def)

lemma allocates_set_end:
  assumes "allocates a st" "length (rs_cells a) \<le> c"
  shows "allocates a (set_end c e st)"
proof -
  from assms(1) obtain new where new: "rs_cells st = rs_cells a @ new" "\<forall>c \<in> set new. \<not> consumed c"
    by (auto simp: allocates_def)
  show ?thesis
  proof (cases "c < length (rs_cells st)")
    case True
    let ?i = "c - length (rs_cells a)"
    have "rs_cells (set_end c e st) = rs_cells a @ new[?i := (new ! ?i)\<lparr>cell_end := e\<rparr>]"
      using new assms(2) by (simp add: set_end_def list_update_append nth_append)
    moreover have "\<forall>c \<in> set (new[?i := (new ! ?i)\<lparr>cell_end := e\<rparr>]). \<not> consumed c"
      using new True assms(2) set_update_subset_insert [of new ?i "(new ! ?i)\<lparr>cell_end := e\<rparr>"] by auto
    ultimately show ?thesis
      using assms(1) by (auto simp: allocates_def set_end_def)
  next
    case False
    then have "set_end c e st = st"
      by (simp add: set_end_def list_update_beyond)
    then show ?thesis
      using assms(1) by simp
  qed
qed

lemma allocates_act_then:
  assumes "allocates a (snd (m st))"
    and "\<And>x t. m st = (Inr x, t) \<Longrightarrow> allocates a t \<Longrightarrow> allocates a (snd (f x t))"
  shows "allocates a (snd (act_then m f st))"
  using assms by (auto simp: act_then_def split: prod.splits sum.splits)

lemma allocates_length: "allocates a st \<Longrightarrow> length (rs_cells a) \<le> length (rs_cells st)"
  by (auto simp: allocates_def)

lemma allocates_new_cell:
  "allocates a st \<Longrightarrow> allocates a (st\<lparr>rs_cells := rs_cells st @ [\<lparr>consumed = False, cell_end = 0\<rparr>]\<rparr>)"
  using allocates_make_node [of a st] by (simp add: make_node_def)

text \<open>Induction on the depth: the children are one level deeper, down to the limit.\<close>

lemma depth_induct:
  assumes step: "\<And>d. (d \<le> m \<Longrightarrow> P (Suc d)) \<Longrightarrow> P d"
  shows "P (d :: nat)"
proof (induction "Suc m - d" arbitrary: d rule: less_induct)
  case (less d)
  have "P (Suc d)" if "d \<le> m"
    by (rule less.hyps) (use that in arith)
  then show ?case
    by (rule step)
qed

lemma parse_elements_allocates:
  assumes "\<And>a cursor st. allocates a st \<Longrightarrow> allocates a (snd (parse_node S cursor limit depth st))"
  shows "allocates a st \<Longrightarrow> allocates a (snd (parse_elements S n cursor limit depth es st))"
  by (induction n arbitrary: cursor es st) (auto intro!: allocates_act_then assms)

lemma parse_members_allocates:
  assumes "\<And>a cursor st. allocates a st \<Longrightarrow> allocates a (snd (parse_node S cursor limit depth st))"
  shows "allocates a st \<Longrightarrow> allocates a (snd (parse_members S tag n cursor limit depth ms named ids st))"
  by (induction n arbitrary: cursor ms named ids st)
    (auto intro!: allocates_act_then assms simp: Let_def split: prod.splits)

lemma parse_node_allocates: "allocates a st \<Longrightarrow> allocates a (snd (parse_node S cursor limit depth st))"
proof (induction depth arbitrary: a cursor limit st rule: depth_induct [where m = "max_depth (in_limits S)"])
  case (1 depth)
  have children: "allocates a (snd (parse_node S cursor limit (Suc depth) st))"
    if "\<not> max_depth (in_limits S) < depth" "allocates a st" for a cursor limit st
    using 1 that by simp
  show ?case
    using "1.prems"
    by (subst parse_node.simps)
      (auto simp: Let_def make_node_def split: option.splits prod.splits
        intro!: allocates_act_then allocates_charge allocates_chargeProduct allocates_set_end allocates_new_cell
          parse_elements_allocates parse_members_allocates children allocates_length)
qed

subsection \<open>No access outside the input\<close>

lemma in_bounds_act_then:
  assumes "in_bounds (fst (m st))" and "\<And>x t. m st = (Inr x, t) \<Longrightarrow> in_bounds (fst (f x t))"
  shows "in_bounds (fst (act_then m f st))"
  using assms by (auto simp: act_then_def in_bounds_def split: prod.splits sum.splits)

lemma in_bounds_charge: "in_bounds (fst (charge n st))" "in_bounds (fst (chargeProduct n k st))"
  by (auto simp: charge_def chargeProduct_def)

lemma read_uleb_le:
  assumes "read_uleb data c limit = Inr (v :: u64, c')" "limit \<le> length data"
  shows "c' \<le> limit"
  using read_uleb_sound(3) [OF _ assms] by simp

lemma in_bounds_read_name [fault_free]:
  "cursor \<le> limit \<Longrightarrow> limit \<le> length (in_bytes S) \<Longrightarrow>
     in_bounds (read_name S cursor limit n named too_long duplicate)"
  by (auto simp: read_name_def intro!: fault_free)

lemma in_bounds_read_key:
  "limit \<le> length (in_bytes S) \<Longrightarrow> in_bounds (read_key S tag limit cursor named ids)"
  by (auto simp: read_key_def Let_def intro!: fault_free dest: read_uleb_le)

lemma in_bounds_readCount:
  "limit \<le> length (in_bytes S) \<Longrightarrow> in_bounds (readCount S cursor limit m kind)"
  by (auto simp: readCount_def intro!: fault_free)

lemma in_bounds_parse_leaf:
  "limit \<le> length (in_bytes S) \<Longrightarrow> in_bounds (parse_leaf S tag cursor limit)"
  by (cases tag) (auto simp: parse_leaf_def takeFixed_def fixedWidth_def Let_def intro!: fault_free)

lemma in_bounds_parse_elements:
  assumes "\<And>cursor st. in_bounds (fst (parse_node S cursor limit depth st))"
  shows "in_bounds (fst (parse_elements S n cursor limit depth es st))"
  by (induction n arbitrary: cursor es st) (auto intro!: in_bounds_act_then assms)

lemma in_bounds_parse_members:
  assumes "\<And>cursor st. in_bounds (fst (parse_node S cursor limit depth st))" "limit \<le> length (in_bytes S)"
  shows "in_bounds (fst (parse_members S tag n cursor limit depth ms named ids st))"
  by (induction n arbitrary: cursor ms named ids st)
    (auto intro!: in_bounds_act_then assms in_bounds_read_key simp: Let_def split: prod.splits)

lemma in_bounds_parse_node:
  assumes "in_size S = length (in_bytes S)"
  shows "in_bounds (fst (parse_node S cursor limit depth st))"
proof (induction depth arbitrary: cursor limit st rule: depth_induct [where m = "max_depth (in_limits S)"])
  case (1 depth)
  have children: "in_bounds (fst (parse_node S cursor limit (Suc depth) st))"
    if "\<not> max_depth (in_limits S) < depth" for cursor limit st
    using 1 that by simp
  show ?case
    using assms
    by (subst parse_node.simps)
      (auto simp: Let_def split: option.splits prod.splits
        intro!: in_bounds_act_then in_bounds_charge in_bounds_byte_at in_bounds_readCount in_bounds_parse_leaf
          in_bounds_parse_elements in_bounds_parse_members children)
qed

subsection \<open>The trees that fit the limits\<close>

fun tree_tag :: "wtree \<Rightarrow> value_tag" where
  "tree_tag W_Null = T_Null"
| "tree_tag (W_Bool b) = (if b then T_True else T_False)"
| "tree_tag (W_SInt _) = T_SignedInteger"
| "tree_tag (W_UInt _) = T_UnsignedInteger"
| "tree_tag (W_Fixed t _) = t"
| "tree_tag (W_Str _) = T_String"
| "tree_tag (W_Arr _) = T_Array"
| "tree_tag (W_Named _) = T_NamedObject"
| "tree_tag (W_Ided _) = T_IdObject"

definition payload_width :: "value_tag \<Rightarrow> nat" where
  "payload_width tag = (if tag = T_Float32 then 4 else if tag = T_Float64 then 8 else fixedWidth tag)"

text \<open>The name and the id a key gives its member, and the keys that are new to the indices.\<close>

fun key_name :: "field_key \<Rightarrow> bytes" where
  "key_name (Key_Name n) = n"
| "key_name (Key_Hash h) = []"

fun key_ident :: "field_key \<Rightarrow> u32" where
  "key_ident (Key_Name n) = 0"
| "key_ident (Key_Hash h) = h"

definition wire_key :: "value_tag \<Rightarrow> field_key \<Rightarrow> bytes" where
  "wire_key tag k = (if tag = T_NamedObject then count_bytes (length (key_name k)) @ key_name k else key_bytes k)"

definition key_ok :: "ParseLimits \<Rightarrow> value_tag \<Rightarrow> field_key \<Rightarrow> (bytes \<rightharpoonup> nat) \<Rightarrow> (u32 \<rightharpoonup> nat) \<Rightarrow> bool" where
  "key_ok L tag k named ids \<longleftrightarrow>
     (case k of
        Key_Name n \<Rightarrow> n \<notin> dom named \<and> length n \<le> max_string_bytes L \<and>
          length n < (if tag = T_NamedObject then 2 ^ 64 else 2 ^ 63)
      | Key_Hash h \<Rightarrow> tag = T_IdObject \<and> h \<notin> dom ids)"

fun keys_ok :: "ParseLimits \<Rightarrow> value_tag \<Rightarrow> field_key list \<Rightarrow> nat \<Rightarrow> (bytes \<rightharpoonup> nat) \<Rightarrow> (u32 \<rightharpoonup> nat) \<Rightarrow> bool" where
  "keys_ok L tag [] ix named ids = True"
| "keys_ok L tag (k # ks) ix named ids \<longleftrightarrow>
     key_ok L tag k named ids \<and>
     (let (named, ids) = index_member tag (key_name k) (key_ident k) ix named ids
      in keys_ok L tag ks (Suc ix) named ids)"

fun index_keys :: "value_tag \<Rightarrow> field_key list \<Rightarrow> nat \<Rightarrow> (bytes \<rightharpoonup> nat) \<Rightarrow> (u32 \<rightharpoonup> nat) \<Rightarrow> (bytes \<rightharpoonup> nat) \<times> (u32 \<rightharpoonup> nat)" where
  "index_keys tag [] ix named ids = (named, ids)"
| "index_keys tag (k # ks) ix named ids =
     (let (named, ids) = index_member tag (key_name k) (key_ident k) ix named ids
      in index_keys tag ks (Suc ix) named ids)"

definition named_keys :: "(bytes \<times> 'a) list \<Rightarrow> field_key list" where
  "named_keys fs = map (\<lambda>f. Key_Name (fst f)) fs"

fun tree_ok :: "ParseLimits \<Rightarrow> nat \<Rightarrow> wtree \<Rightarrow> bool" where
  "tree_ok L d (W_Fixed tag bs) \<longleftrightarrow> d \<le> max_depth L \<and> payload_width tag \<noteq> 0 \<and> length bs = payload_width tag"
| "tree_ok L d (W_Str s) \<longleftrightarrow> d \<le> max_depth L \<and> length s \<le> max_string_bytes L \<and> length s < 2 ^ 64"
| "tree_ok L d (W_Arr ts) \<longleftrightarrow> d \<le> max_depth L \<and> length ts \<le> max_container_elements L \<and> length ts < 2 ^ 64 \<and>
     list_all (\<lambda>t. tree_ok L (Suc d) t) ts"
| "tree_ok L d (W_Named fs) \<longleftrightarrow> d \<le> max_depth L \<and> length fs \<le> max_object_fields L \<and> length fs < 2 ^ 64 \<and>
     keys_ok L T_NamedObject (named_keys fs) 0 Map.empty Map.empty \<and> list_all (\<lambda>f. tree_ok L (Suc d) (snd f)) fs"
| "tree_ok L d (W_Ided fs) \<longleftrightarrow> d \<le> max_depth L \<and> length fs \<le> max_object_fields L \<and> length fs < 2 ^ 64 \<and>
     keys_ok L T_IdObject (map fst fs) 0 Map.empty Map.empty \<and> list_all (\<lambda>f. tree_ok L (Suc d) (snd f)) fs"
| "tree_ok L d _ \<longleftrightarrow> d \<le> max_depth L"

text \<open>What a tree costs of the allocation budget.\<close>

fun tree_cost :: "sizes \<Rightarrow> wtree \<Rightarrow> nat" where
  "tree_cost Z (W_Arr ts) =
     sizeof_node Z + length ts * sizeof_node_ptr Z + sum_list (map (tree_cost Z) ts)"
| "tree_cost Z (W_Named fs) =
     sizeof_node Z + length fs * (sizeof_member Z + sizeof_size_t Z) + sum_list (map (\<lambda>f. tree_cost Z (snd f)) fs)"
| "tree_cost Z (W_Ided fs) =
     sizeof_node Z + length fs * (sizeof_member Z + sizeof_size_t Z) + sum_list (map (\<lambda>f. tree_cost Z (snd f)) fs)"
| "tree_cost Z _ = sizeof_node Z"

text \<open>The node of a tree that stands at \<open>cursor\<close>, numbered from \<open>cell\<close>, and the cells it takes.\<close>

fun leaf_span :: "wtree \<Rightarrow> nat \<Rightarrow> nat \<times> nat" where
  "leaf_span (W_SInt z) c = (c, c + length (write_uleb z))"
| "leaf_span (W_UInt v) c = (c, c + length (write_uleb v))"
| "leaf_span (W_Fixed tag bs) c = (c, c + length bs)"
| "leaf_span (W_Str s) c =
     (c + length (count_bytes (length s)), c + length (count_bytes (length s)) + length s)"
| "leaf_span _ c = (0, 0)"

definition tree_node :: "wtree \<Rightarrow> nat \<Rightarrow> nat \<Rightarrow> nat \<Rightarrow> node_info" where
  "tree_node t cursor depth cell =
     (default_node cell)\<lparr>nd_begin := cursor, nd_depth := depth, nd_tag := tree_tag t,
        nd_dataBegin := fst (leaf_span t (Suc cursor)), nd_dataEnd := snd (leaf_span t (Suc cursor))\<rparr>"

fun tree_cells :: "wtree \<Rightarrow> nat \<Rightarrow> cell list"
  and trees_cells :: "wtree list \<Rightarrow> nat \<Rightarrow> cell list"
  and fields_cells :: "value_tag \<Rightarrow> (field_key \<times> wtree) list \<Rightarrow> nat \<Rightarrow> cell list"
where
  "tree_cells t c =
     \<lparr>consumed = False, cell_end = c + length (emit t)\<rparr> #
     (case t of
        W_Arr ts \<Rightarrow> trees_cells ts (Suc c + length (count_bytes (length ts)))
      | W_Named fs \<Rightarrow> fields_cells T_NamedObject (map (\<lambda>f. (Key_Name (fst f), snd f)) fs)
          (Suc c + length (count_bytes (length fs)))
      | W_Ided fs \<Rightarrow> fields_cells T_IdObject fs (Suc c + length (count_bytes (length fs)))
      | _ \<Rightarrow> [])"
| "trees_cells [] c = []"
| "trees_cells (t # ts) c = tree_cells t c @ trees_cells ts (c + length (emit t))"
| "fields_cells tag [] c = []"
| "fields_cells tag (f # fs) c =
     (let c = c + length (wire_key tag (fst f))
      in tree_cells (snd f) c @ fields_cells tag fs (c + length (emit (snd f))))"

fun node_of :: "wtree \<Rightarrow> nat \<Rightarrow> nat \<Rightarrow> nat \<Rightarrow> node"
  and nodes_of :: "wtree list \<Rightarrow> nat \<Rightarrow> nat \<Rightarrow> nat \<Rightarrow> node list"
  and members_of :: "value_tag \<Rightarrow> (field_key \<times> wtree) list \<Rightarrow> nat \<Rightarrow> nat \<Rightarrow> nat \<Rightarrow> (bytes \<times> u32 \<times> node) list"
where
  "node_of t c d k =
     (case t of
        W_Arr ts \<Rightarrow>
          Node (tree_node t c d k) (nodes_of ts (Suc c + length (count_bytes (length ts))) (Suc d) (Suc k)) []
      | W_Named fs \<Rightarrow>
          (let (named, ids) = index_keys T_NamedObject (named_keys fs) 0 Map.empty Map.empty in
           Node ((tree_node t c d k)\<lparr>nd_named := named, nd_ids := ids\<rparr>) []
             (members_of T_NamedObject (map (\<lambda>f. (Key_Name (fst f), snd f)) fs)
               (Suc c + length (count_bytes (length fs))) (Suc d) (Suc k)))
      | W_Ided fs \<Rightarrow>
          (let (named, ids) = index_keys T_IdObject (map fst fs) 0 Map.empty Map.empty in
           Node ((tree_node t c d k)\<lparr>nd_named := named, nd_ids := ids\<rparr>) []
             (members_of T_IdObject fs (Suc c + length (count_bytes (length fs))) (Suc d) (Suc k)))
      | _ \<Rightarrow> Node (tree_node t c d k) [] [])"
| "nodes_of [] c d k = []"
| "nodes_of (t # ts) c d k = node_of t c d k # nodes_of ts (c + length (emit t)) d (k + length (tree_cells t c))"
| "members_of tag [] c d k = []"
| "members_of tag (f # fs) c d k =
     (let c = c + length (wire_key tag (fst f)) in
      (key_name (fst f), key_ident (fst f), node_of (snd f) c d k) #
      members_of tag fs (c + length (emit (snd f))) d (k + length (tree_cells (snd f) c)))"

declare tree_cells.simps [simp del] node_of.simps [simp del]

definition after :: "rstate \<Rightarrow> nat \<Rightarrow> cell list \<Rightarrow> rstate" where
  "after st cost new = st\<lparr>rs_remaining := rs_remaining st - cost, rs_cells := rs_cells st @ new\<rparr>"

lemma after_simps [simp]:
  "rs_remaining (after st m new) = rs_remaining st - m"
  "rs_cells (after st m new) = rs_cells st @ new"
  "rs_offset (after st m new) = rs_offset st"
  "rs_framed (after st m new) = rs_framed st"
  "rs_error (after st m new) = rs_error st"
  by (simp_all add: after_def)

lemma after_after [simp]: "after (after st a cs) b ds = after st (a + b) (cs @ ds)"
  by (simp add: after_def)

lemma after_zero [simp]: "after st 0 [] = st"
  by (simp add: after_def)

text \<open>A value, a list of values and a list of fields that stand at \<open>cursor\<close> and can be paid for.\<close>

definition fits :: "input \<Rightarrow> nat \<Rightarrow> nat \<Rightarrow> nat \<Rightarrow> rstate \<Rightarrow> wtree \<Rightarrow> bool" where
  "fits S limit depth cursor st t \<longleftrightarrow>
     tree_ok (in_limits S) depth t \<and> tree_cost (in_sizes S) t \<le> rs_remaining st \<and>
     cursor + length (emit t) \<le> limit \<and> seg (in_bytes S) cursor (emit t)"

definition emits :: "wtree list \<Rightarrow> bytes" where
  "emits ts = concat (map emit ts)"

definition emit_fields :: "value_tag \<Rightarrow> (field_key \<times> wtree) list \<Rightarrow> bytes" where
  "emit_fields tag fs = concat (map (\<lambda>f. wire_key tag (fst f) @ emit (snd f)) fs)"

definition costs :: "input \<Rightarrow> wtree list \<Rightarrow> nat" where
  "costs S ts = sum_list (map (tree_cost (in_sizes S)) ts)"

definition parsed_as :: "input \<Rightarrow> nat \<Rightarrow> nat \<Rightarrow> bool" where
  "parsed_as S limit depth \<longleftrightarrow>
     (\<forall>cursor st n c st'. rs_remaining st \<le> size_max \<longrightarrow>
        (parse_node S cursor limit depth st = (Inr (n, c), st') \<longleftrightarrow>
         (\<exists>t. fits S limit depth cursor st t \<and> n = node_of t cursor depth (length (rs_cells st)) \<and>
            c = cursor + length (emit t) \<and> st' = after st (tree_cost (in_sizes S) t) (tree_cells t cursor))))"

lemma parsed_then:
  assumes "parsed_as S limit depth" "rs_remaining st \<le> size_max"
  shows "act_then (parse_node S cursor limit depth) (\<lambda>(x, c). f x c) st = (Inr y, st') \<longleftrightarrow>
    (\<exists>t. fits S limit depth cursor st t \<and>
       f (node_of t cursor depth (length (rs_cells st))) (cursor + length (emit t))
         (after st (tree_cost (in_sizes S) t) (tree_cells t cursor)) = (Inr y, st'))"
  using assms unfolding parsed_as_def act_then_Inr by auto

lemma ex_length_Suc: "(\<exists>xs. length xs = Suc n \<and> P xs) \<longleftrightarrow> (\<exists>x xs. length xs = n \<and> P (x # xs))"
  by (auto simp: length_Suc_conv)

lemma parse_elements_iff:
  assumes "parsed_as S limit depth"
  shows "rs_remaining st \<le> size_max \<Longrightarrow> cursor \<le> limit \<Longrightarrow> limit \<le> length (in_bytes S) \<Longrightarrow>
     parse_elements S n cursor limit depth es st = (Inr (es', c), st') \<longleftrightarrow>
       (\<exists>ts. length ts = n \<and> list_all (\<lambda>t. tree_ok (in_limits S) depth t) ts \<and>
          costs S ts \<le> rs_remaining st \<and> cursor + length (emits ts) \<le> limit \<and>
          seg (in_bytes S) cursor (emits ts) \<and>
          es' = es @ nodes_of ts cursor depth (length (rs_cells st)) \<and>
          c = cursor + length (emits ts) \<and> st' = after st (costs S ts) (trees_cells ts cursor))"
proof (induction n arbitrary: cursor es st)
  case 0
  then show ?case
    by (auto simp: emits_def costs_def seg_Nil)
next
  case (Suc n)
  have "parse_elements S (Suc n) cursor limit depth es st = (Inr (es', c), st') \<longleftrightarrow>
      (\<exists>t. fits S limit depth cursor st t \<and> (\<exists>ts. length ts = n \<and> list_all (\<lambda>t. tree_ok (in_limits S) depth t) ts \<and>
          costs S ts \<le> rs_remaining st - tree_cost (in_sizes S) t \<and>
          cursor + length (emit t) + length (emits ts) \<le> limit \<and>
          seg (in_bytes S) (cursor + length (emit t)) (emits ts) \<and>
          es' = (es @ [node_of t cursor depth (length (rs_cells st))]) @
            nodes_of ts (cursor + length (emit t)) depth (length (rs_cells st) + length (tree_cells t cursor)) \<and>
          c = cursor + length (emit t) + length (emits ts) \<and>
          st' = after st (tree_cost (in_sizes S) t + costs S ts)
            (tree_cells t cursor @ trees_cells ts (cursor + length (emit t)))))"
    using Suc.prems by (simp add: parsed_then [OF assms] Suc.IH fits_def cong: conj_cong)
  also have "\<dots> \<longleftrightarrow> (\<exists>t ts. length ts = n \<and> list_all (\<lambda>t. tree_ok (in_limits S) depth t) (t # ts) \<and>
          costs S (t # ts) \<le> rs_remaining st \<and> cursor + length (emits (t # ts)) \<le> limit \<and>
          seg (in_bytes S) cursor (emits (t # ts)) \<and>
          es' = es @ nodes_of (t # ts) cursor depth (length (rs_cells st)) \<and>
          c = cursor + length (emits (t # ts)) \<and> st' = after st (costs S (t # ts)) (trees_cells (t # ts) cursor))"
    by (intro ex_cong1) (auto simp: fits_def emits_def costs_def seg_append)
  finally show ?case
    by (simp only: ex_length_Suc)
qed

subsection \<open>Keys, counts and leaves\<close>

lemma length_u64_of_nat: "n < 2 ^ 64 \<Longrightarrow> unat (of_nat n :: u64) = n"
  by (rule unat_of_nat_bound) simp

lemma of_nat_unat_u64: "(of_nat (unat v) :: u64) = v"
  by simp

lemma read_name_iff:
  assumes "cursor \<le> limit" "limit \<le> length (in_bytes S)"
  shows "read_name S cursor limit n named too_long dup = Inr (name, c) \<longleftrightarrow>
     length name = n \<and> n \<le> max_string_bytes (in_limits S) \<and> cursor + n \<le> limit \<and>
     seg (in_bytes S) cursor name \<and> name \<notin> dom named \<and> c = cursor + n"
  using assms by (auto simp: read_name_def and_then_Inr_iff span_sub_iff split: if_splits)

lemma even_key:
  fixes key :: u64
  assumes "key AND 1 = 0"
  shows "push_bit 1 (drop_bit 1 key) = key"
proof (rule bit_eqI)
  fix m
  have "\<not> bit key 0"
    using assms by (simp add: and_one_eq bit_0 even_iff_mod_2_eq_zero)
  then show "bit (push_bit 1 (drop_bit 1 key)) m = bit key m"
    by (cases "m = 0") (auto simp: bit_simps simp del: push_bit_Suc drop_bit_Suc One_nat_def dest: bit_imp_le_length)
qed

lemma odd_key:
  fixes key :: u64
  assumes "key AND 1 \<noteq> 0"
  shows "push_bit 1 (drop_bit 1 key) OR 1 = key"
proof (rule bit_eqI)
  fix m
  have "bit key 0"
    using assms by (simp add: and_one_eq bit_0 even_iff_mod_2_eq_zero)
  then show "bit (push_bit 1 (drop_bit 1 key) OR 1) m = bit key m"
    by (cases "m = 0") (auto simp: bit_simps simp del: push_bit_Suc drop_bit_Suc One_nat_def dest: bit_imp_le_length)
qed

lemma key_parts:
  "n < 2 ^ 63 \<Longrightarrow> drop_bit 1 (push_bit 1 (of_nat n :: u64)) = of_nat n"
  "push_bit 1 (v :: u64) AND 1 = 0"
  "(push_bit 1 (v :: u64) OR 1) AND 1 \<noteq> 0"
  "drop_bit 1 (push_bit 1 (ucast h :: u64) OR 1) = ucast (h :: u32)"
proof -
  assume n: "n < 2 ^ 63"
  have "unat (drop_bit 1 (push_bit 1 (of_nat n :: u64))) = n"
    using n by (simp add: unat_drop_bit push_bit_eq_mult unat_word_ariths length_u64_of_nat)
  then show "drop_bit 1 (push_bit 1 (of_nat n :: u64)) = of_nat n"
    using n by (simp add: word_unat_eq_iff length_u64_of_nat)
next
  show "push_bit 1 (v :: u64) AND 1 = 0"
    by (rule bit_eqI) (auto simp: bit_simps simp del: push_bit_Suc drop_bit_Suc One_nat_def dest: bit_imp_le_length)
  have "bit ((push_bit 1 (v :: u64) OR 1) AND 1) 0"
    by (simp add: bit_simps)
  then show "(push_bit 1 (v :: u64) OR 1) AND 1 \<noteq> 0"
    by auto
  show "drop_bit 1 (push_bit 1 (ucast h :: u64) OR 1) = ucast (h :: u32)"
    by (rule bit_eqI) (auto simp: bit_simps simp del: push_bit_Suc drop_bit_Suc One_nat_def dest: bit_imp_le_length)
qed

lemma unat_drop_bit_1: "unat (drop_bit 1 (v :: u64)) < 2 ^ 63"
  using unsigned_less [of v, where 'a = nat] by (simp only: unat_drop_bit) simp

lemma u32_max_iff: "ucast (- 1 :: u32) < (v :: u64) \<longleftrightarrow> \<not> (\<exists>h :: u32. v = ucast h)"
proof -
  have m: "unat (ucast (- 1 :: u32) :: u64) = 2 ^ 32 - 1"
    by (simp add: unsigned_minus_1_eq_mask mask_eq_exp_minus_1 unsigned_ucast_eq take_bit_nat_eq_self)
  have small: "v = ucast (ucast v :: u32)" if "unat v < 2 ^ 32"
    using that by (simp add: word_unat_eq_iff unsigned_ucast_eq unsigned_take_bit_eq take_bit_nat_eq_self)
  have bound: "unat (ucast (h :: u32) :: u64) < 2 ^ 32" for h
    using unsigned_less [of h, where 'a = nat] by (simp add: unsigned_ucast_eq take_bit_nat_eq_self)
  show ?thesis
  proof (cases "unat v < 2 ^ 32")
    case True
    then show ?thesis
      using small unfolding word_less_nat_alt m by auto
  next
    case False
    then have "v \<noteq> ucast (h :: u32)" for h
      using bound [of h] by auto
    then show ?thesis
      using False unfolding word_less_nat_alt m by auto
  qed
qed

lemma ucast_u32_u64 [simp]: "(ucast (ucast h :: u64) :: u32) = h"
  by (rule bit_eqI) (auto simp: bit_simps)

lemma read_key_iff:
  assumes "limit \<le> length (in_bytes S)" "tag = T_NamedObject \<or> tag = T_IdObject"
  shows "read_key S tag limit cursor named ids = Inr (name, ident, c) \<longleftrightarrow>
    (\<exists>k. key_ok (in_limits S) tag k named ids \<and> name = key_name k \<and> ident = key_ident k \<and>
       c = cursor + length (wire_key tag k) \<and> c \<le> limit \<and> seg (in_bytes S) cursor (wire_key tag k))"
    (is "?L \<longleftrightarrow> (\<exists>k. ?R k)")
proof
  assume ?L
  then obtain key :: u64 and cur where key: "read_uleb (in_bytes S) cursor limit = Inr (key, cur)"
    by (auto simp: read_key_def and_then_Inr_iff)
  note u = key [unfolded read_uleb_iff [where 'a = 64, OF _ assms(1), simplified]]
  then have le: "cur \<le> limit"
    by simp
  show "\<exists>k. ?R k"
  proof (cases "tag = T_NamedObject")
    case True
    then have n: "length name = unat key" "ident = 0" "name \<notin> dom named"
        "length name \<le> max_string_bytes (in_limits S)" "c = cur + length name" "c \<le> limit"
        "seg (in_bytes S) cur name"
      using \<open>?L\<close> by (auto simp: read_key_def key and_then_Inr_iff read_name_iff [OF le assms(1)])
    have "count_bytes (length name) = write_uleb key"
      by (simp add: count_bytes_def n(1))
    then have "?R (Key_Name name)"
      using n u True unsigned_less [of key, where 'a = nat]
      by (auto simp: key_ok_def wire_key_def seg_append)
    then show ?thesis ..
  next
    case named: False
    show ?thesis
    proof (cases "key AND 1 = 0")
      case True
      then have n: "length name = unat (drop_bit 1 key)" "ident = 0" "name \<notin> dom named"
          "length name \<le> max_string_bytes (in_limits S)" "c = cur + length name" "c \<le> limit"
          "seg (in_bytes S) cur name"
        using \<open>?L\<close> named by (auto simp: read_key_def key and_then_Inr_iff read_name_iff [OF le assms(1)])
      have "named_key name = key"
        using even_key [OF True] by (simp only: named_key_def n(1) of_nat_unat_u64)
      then have "?R (Key_Name name)"
        using n u named unat_drop_bit_1 [of key]
        by (auto simp: key_ok_def wire_key_def seg_append)
      then show ?thesis ..
    next
      case False
      then have n: "name = []" "ident = ucast (drop_bit 1 key)" "c = cur"
          "\<not> ucast (- 1 :: u32) < drop_bit 1 key" "ident \<notin> dom ids"
        using \<open>?L\<close> named by (auto simp: read_key_def key Let_def split: if_splits)
      from n(4) obtain h :: u32 where h: "drop_bit 1 key = ucast h"
        by (auto simp: u32_max_iff)
      then have "ident = h"
        using n(2) by simp
      moreover have "hashed_key h = key"
        using odd_key [OF False] by (simp only: hashed_key_def h)
      ultimately have "?R (Key_Hash h)"
        using n u named assms(2) by (auto simp: key_ok_def wire_key_def)
      then show ?thesis ..
    qed
  qed
next
  assume "\<exists>k. ?R k"
  then obtain k where k: "?R k" ..
  note iff = read_uleb_iff [where 'a = 64, OF _ assms(1), simplified]
  show ?L
  proof (cases k)
    case (Key_Name n)
    show ?thesis
    proof (cases "tag = T_NamedObject")
      case True
      then have "read_uleb (in_bytes S) cursor limit =
          Inr (of_nat (length n) :: u64, cursor + length (count_bytes (length n)))"
        using k Key_Name by (auto simp: iff wire_key_def count_bytes_def seg_append)
      then show ?thesis
        using k Key_Name True assms(1)
        by (simp add: read_key_def and_then_Inr_iff read_name_iff key_ok_def length_u64_of_nat wire_key_def seg_append)
    next
      case False
      then have "read_uleb (in_bytes S) cursor limit =
          Inr (named_key n, cursor + length (write_uleb (named_key n)))"
        using k Key_Name by (auto simp: iff wire_key_def seg_append)
      then show ?thesis
        using k Key_Name False assms(1) key_parts(1) [of "length n"] key_parts(2) [of "of_nat (length n)"]
        by (simp add: read_key_def and_then_Inr_iff read_name_iff key_ok_def length_u64_of_nat wire_key_def
            seg_append named_key_def del: push_bit_Suc drop_bit_Suc One_nat_def)
    qed
  next
    case (Key_Hash h)
    then have tag: "tag = T_IdObject" and fresh: "h \<notin> dom ids"
      using k by (auto simp: key_ok_def)
    have "read_uleb (in_bytes S) cursor limit = Inr (hashed_key h, cursor + length (write_uleb (hashed_key h)))"
      using k Key_Hash tag by (auto simp: iff wire_key_def)
    moreover have "\<not> ucast (- 1 :: u32) < drop_bit 1 (hashed_key h)"
      unfolding u32_max_iff hashed_key_def key_parts(4) by auto
    ultimately show ?thesis
      using k Key_Hash tag fresh key_parts(3) [of "ucast h"] key_parts(4) [of h]
      by (simp add: read_key_def wire_key_def hashed_key_def Let_def del: push_bit_Suc drop_bit_Suc One_nat_def)
  qed
qed

end
