(* ===== verification/Binary_Exact.thy ===== *)
theory Binary_Exact
  imports Binary_Parse
begin

unbundle bit_operations_syntax

text \<open>
  The parser accepts exactly the encodings of the trees that fit, and everything it returns is
  determined by the tree: its node, the cursor, the charge and the cells.
\<close>

lemma readCount_iff:
  assumes "limit \<le> length (in_bytes S)"
  shows "readCount S cursor limit m kind = Inr (n, c) \<longleftrightarrow>
     n \<le> m \<and> n < 2 ^ 64 \<and> c = cursor + length (count_bytes n) \<and> c \<le> limit \<and>
     seg (in_bytes S) cursor (count_bytes n)"
proof -
  have lt: "unat (v :: u64) < 2 ^ 64" for v
    using unsigned_less [of v, where 'a = nat] by simp
  have "\<not> size_max < unat (v :: u64)" for v
    using lt [of v] by (simp add: size_max_def)
  then have "readCount S cursor limit m kind = Inr (n, c) \<longleftrightarrow>
      (\<exists>v :: u64. read_uleb (in_bytes S) cursor limit = Inr (v, c) \<and> unat v \<le> m \<and> n = unat v)"
    by (cases "read_uleb (in_bytes S) cursor limit :: (u64 \<times> nat) sa_result")
      (auto simp: readCount_def split: if_splits)
  also have "\<dots> \<longleftrightarrow> n < 2 ^ 64 \<and> n \<le> m \<and> read_uleb (in_bytes S) cursor limit = Inr (of_nat n :: u64, c)"
    using lt by (auto simp: length_u64_of_nat)
  finally show ?thesis
    by (auto simp: read_uleb_iff [OF _ assms] count_bytes_def)
qed

fun payload :: "wtree \<Rightarrow> bytes" where
  "payload (W_SInt z) = write_uleb z"
| "payload (W_UInt v) = write_uleb v"
| "payload (W_Fixed t bs) = bs"
| "payload (W_Str s) = count_bytes (length s) @ s"
| "payload (W_Arr ts) = count_bytes (length ts) @ emits ts"
| "payload (W_Named fs) = count_bytes (length fs) @ emit_fields T_NamedObject (map (\<lambda>f. (Key_Name (fst f), snd f)) fs)"
| "payload (W_Ided fs) = count_bytes (length fs) @ emit_fields T_IdObject fs"
| "payload _ = []"

lemma emit_payload: "emit t = tag_byte (tree_tag t) # payload t"
  by (cases t) (simp_all add: emits_def emit_fields_def wire_key_def comp_def)

lemma tag_of_byte_iff: "tag_of_byte b = Some tag \<longleftrightarrow> b = tag_byte tag"
proof
  assume "tag_of_byte b = Some tag"
  then have b: "unat b \<le> 18" and tag: "tag = all_tags ! unat b"
    by (auto simp: tag_of_byte_def word_le_nat_alt split: if_splits)
  have "\<forall>k \<in> {..18}. tag_byte (all_tags ! k) = of_nat k"
    by (simp add: all_tags_def atMost_Suc numeral_eq_Suc)
  then have "tag_byte (all_tags ! unat b) = of_nat (unat b)"
    using b by blast
  then show "b = tag_byte tag"
    by (simp add: tag)
next
  assume "b = tag_byte tag"
  then show "tag_of_byte b = Some tag"
    by (cases tag) (simp_all add: tag_of_byte_def all_tags_def)
qed

definition is_leaf_tag :: "value_tag \<Rightarrow> bool" where
  "is_leaf_tag tag \<longleftrightarrow> tag \<noteq> T_Array \<and> tag \<noteq> T_NamedObject \<and> tag \<noteq> T_IdObject"

fun leaf_ok :: "ParseLimits \<Rightarrow> wtree \<Rightarrow> bool" where
  "leaf_ok L (W_Fixed tag bs) \<longleftrightarrow> payload_width tag \<noteq> 0 \<and> length bs = payload_width tag"
| "leaf_ok L (W_Str s) \<longleftrightarrow> length s \<le> max_string_bytes L \<and> length s < 2 ^ 64"
| "leaf_ok L _ \<longleftrightarrow> True"

lemma fixed_leaf:
  assumes "limit \<le> length data" "cursor \<le> limit"
  shows "(case takeFixed cursor limit w of None \<Rightarrow> Inl (Err truncatedFixed) | Some (b, e) \<Rightarrow> Inr (b, e, e)) =
      (Inr (db, de, c) :: (nat \<times> nat \<times> nat) sa_result) \<longleftrightarrow>
    (\<exists>bs. length bs = w \<and> db = cursor \<and> de = cursor + w \<and> c = cursor + w \<and> c \<le> limit \<and> seg data cursor bs)"
proof -
  have "\<exists>bs. length bs = w \<and> seg data cursor bs" if "cursor + w \<le> limit"
    using that assms by (intro exI [of _ "subspan data cursor w"]) (simp add: seg_def)
  moreover have "\<not> limit - cursor < w \<longleftrightarrow> cursor + w \<le> limit"
    using assms by arith
  ultimately show ?thesis
    using assms by (auto simp: takeFixed_def)
qed

lemma parse_leaf_iff:
  assumes lim: "limit \<le> length (in_bytes S)" and cur: "cursor \<le> limit" and leaf: "is_leaf_tag tag"
  shows "parse_leaf S tag cursor limit = Inr (db, de, c) \<longleftrightarrow>
    (\<exists>t. tree_tag t = tag \<and> leaf_ok (in_limits S) t \<and> (db, de) = leaf_span t cursor \<and>
       c = cursor + length (payload t) \<and> c \<le> limit \<and> seg (in_bytes S) cursor (payload t))"
    (is "?L \<longleftrightarrow> (\<exists>t. ?R t)")
proof -
  note fx = fixed_leaf [OF lim cur]
  note ul = read_uleb_iff [where 'a = 64, OF _ lim, simplified]
  have lt: "unat (v :: u64) < 2 ^ 64" for v
    using unsigned_less [of v, where 'a = nat] by simp
  show ?thesis
  proof
    assume ?L
    show "\<exists>t. ?R t"
    proof (cases "tag = T_Null \<or> tag = T_False \<or> tag = T_True")
      case True
      then have "?R (if tag = T_Null then W_Null else W_Bool (tag = T_True))"
        using \<open>?L\<close> cur lim by (auto simp: parse_leaf_def seg_Nil)
      then show ?thesis ..
    next
      case False
      show ?thesis
      proof (cases "tag = T_SignedInteger \<or> tag = T_UnsignedInteger")
        case True
        then have "and_then (read_uleb (in_bytes S) cursor limit) (\<lambda>(_ :: u64, c). Inr (cursor, c, c)) = Inr (db, de, c)"
          using \<open>?L\<close> by (elim disjE) (simp_all only: parse_leaf_def Let_def value_tag.case)
        then obtain v :: u64 where v: "read_uleb (in_bytes S) cursor limit = Inr (v, c)" "db = cursor" "de = c"
          by (cases "read_uleb (in_bytes S) cursor limit :: (u64 \<times> nat) sa_result") auto
        have "?R (if tag = T_SignedInteger then W_SInt v else W_UInt v)"
          using True v [unfolded ul] by auto
        then show ?thesis ..
      next
        case noint: False
        show ?thesis
        proof (cases "tag = T_String")
          case True
          then obtain v :: u64 and d where v: "read_uleb (in_bytes S) cursor limit = Inr (v, d)"
              "unat v \<le> max_string_bytes (in_limits S)" "\<not> size_diff limit d < unat v" "db = d" "de = d + unat v" "c = de"
            using \<open>?L\<close> by (auto simp: parse_leaf_def and_then_Inr_iff split: if_splits)
          let ?s = "subspan (in_bytes S) d (unat v)"
          have d: "d = cursor + length (write_uleb v)" "d \<le> limit" "seg (in_bytes S) cursor (write_uleb v)"
            using v(1) [unfolded ul] by simp_all
          have room: "\<not> limit - d < unat v"
            using v(3) d(2) by simp
          then have s: "length ?s = unat v"
            using d(2) lim by simp
          then have "seg (in_bytes S) d ?s"
            using room d(2) lim by (simp add: seg_def)
          then have "?R (W_Str ?s)"
            using True v(1,2,4-6) room d s lt [of v] by (simp add: count_bytes_def seg_append)
          then show ?thesis ..
        next
          case False
          then have w: "payload_width tag \<noteq> 0" and fixed: "?L \<longleftrightarrow> (case takeFixed cursor limit (payload_width tag) of
              None \<Rightarrow> Inl (Err truncatedFixed) | Some (b, e) \<Rightarrow> Inr (b, e, e)) = (Inr (db, de, c) :: (nat \<times> nat \<times> nat) sa_result)"
            using noint \<open>\<not> (tag = T_Null \<or> _)\<close> leaf
            by (cases tag; simp add: parse_leaf_def is_leaf_tag_def payload_width_def fixedWidth_def)+
          from \<open>?L\<close> [unfolded fixed fx] obtain bs where "length bs = payload_width tag" "db = cursor"
              "de = cursor + payload_width tag" "c = cursor + payload_width tag" "c \<le> limit" "seg (in_bytes S) cursor bs"
            by blast
          then have "?R (W_Fixed tag bs)"
            using w by simp
          then show ?thesis ..
        qed
      qed
    qed
  next
    assume "\<exists>t. ?R t"
    then obtain t where t: "?R t" ..
    show ?L
    proof (cases t)
      case (W_Bool b)
      then show ?thesis
        using t by (cases b) (auto simp: parse_leaf_def)
    next
      case (W_Fixed tg bs)
      then have "tg = tag" "payload_width tag \<noteq> 0"
        using t by auto
      then have "?L \<longleftrightarrow> (case takeFixed cursor limit (payload_width tag) of
              None \<Rightarrow> Inl (Err truncatedFixed) | Some (b, e) \<Rightarrow> Inr (b, e, e)) = (Inr (db, de, c) :: (nat \<times> nat \<times> nat) sa_result)"
        by (cases tag) (simp_all add: parse_leaf_def payload_width_def fixedWidth_def)
      then show ?thesis
        using t W_Fixed unfolding fx by auto
    next
      case (W_Str s)
      then have "read_uleb (in_bytes S) cursor limit =
          Inr (of_nat (length s) :: u64, cursor + length (count_bytes (length s)))"
        using t by (auto simp: ul count_bytes_def seg_append)
      then show ?thesis
        using t W_Str by (auto simp: parse_leaf_def length_u64_of_nat)
    qed (use t leaf ul in \<open>auto simp: parse_leaf_def is_leaf_tag_def and_then_Inr_iff\<close>)
  qed
qed

subsection \<open>Members and nodes\<close>

lemma parse_members_iff:
  assumes "parsed_as S limit depth" "limit \<le> length (in_bytes S)" "tag = T_NamedObject \<or> tag = T_IdObject"
  shows "rs_remaining st \<le> size_max \<Longrightarrow> cursor \<le> limit \<Longrightarrow>
     parse_members S tag n cursor limit depth ms named ids st = (Inr (ms', named', ids', c), st') \<longleftrightarrow>
       (\<exists>fs. length fs = n \<and> keys_ok (in_limits S) tag (map fst fs) (length ms) named ids \<and>
          list_all (\<lambda>f. tree_ok (in_limits S) depth (snd f)) fs \<and>
          costs S (map snd fs) \<le> rs_remaining st \<and> cursor + length (emit_fields tag fs) \<le> limit \<and>
          seg (in_bytes S) cursor (emit_fields tag fs) \<and>
          (named', ids') = index_keys tag (map fst fs) (length ms) named ids \<and>
          ms' = ms @ members_of tag fs cursor depth (length (rs_cells st)) \<and>
          c = cursor + length (emit_fields tag fs) \<and> st' = after st (costs S (map snd fs)) (fields_cells tag fs cursor))"
proof (induction n arbitrary: cursor ms named ids st)
  case 0
  then show ?case
    using assms(2) by (auto simp: emit_fields_def costs_def seg_Nil)
next
  case (Suc n)
  let ?L = "in_limits S"
  have key: "act_then (act_of (read_key S tag limit cursor named ids)) (\<lambda>(name, ident, cursor). f name ident cursor) st = (Inr y, st') \<longleftrightarrow>
      (\<exists>k. key_ok ?L tag k named ids \<and> cursor + length (wire_key tag k) \<le> limit \<and>
        seg (in_bytes S) cursor (wire_key tag k) \<and>
        f (key_name k) (key_ident k) (cursor + length (wire_key tag k)) st = (Inr y, st'))"
    for f :: "bytes \<Rightarrow> u32 \<Rightarrow> nat \<Rightarrow> ((bytes \<times> u32 \<times> node) list \<times> (bytes \<rightharpoonup> nat) \<times> (u32 \<rightharpoonup> nat) \<times> nat) act" and y
    unfolding act_then_Inr act_of_Inr by (auto simp: read_key_iff [OF assms(2,3)])
  define P where "P k t fs \<longleftrightarrow>
      length fs = n \<and> keys_ok ?L tag (map fst ((k, t) # fs)) (length ms) named ids \<and>
      list_all (\<lambda>f. tree_ok ?L depth (snd f)) ((k, t) # fs) \<and>
      costs S (map snd ((k, t) # fs)) \<le> rs_remaining st \<and> cursor + length (emit_fields tag ((k, t) # fs)) \<le> limit \<and>
      seg (in_bytes S) cursor (emit_fields tag ((k, t) # fs)) \<and>
      (named', ids') = index_keys tag (map fst ((k, t) # fs)) (length ms) named ids \<and>
      ms' = ms @ members_of tag ((k, t) # fs) cursor depth (length (rs_cells st)) \<and>
      c = cursor + length (emit_fields tag ((k, t) # fs)) \<and>
      st' = after st (costs S (map snd ((k, t) # fs))) (fields_cells tag ((k, t) # fs) cursor)" for k t fs
  have "parse_members S tag (Suc n) cursor limit depth ms named ids st = (Inr (ms', named', ids', c), st') \<longleftrightarrow>
      (\<exists>k. key_ok ?L tag k named ids \<and> cursor + length (wire_key tag k) \<le> limit \<and>
         seg (in_bytes S) cursor (wire_key tag k) \<and>
         (\<exists>t. fits S limit depth (cursor + length (wire_key tag k)) st t \<and> (\<exists>fs. P k t fs)))"
    using Suc.prems
    by (simp add: key parsed_then [OF assms(1)] Suc.IH fits_def P_def Let_def split_beta emit_fields_def costs_def
        seg_append cong: conj_cong)
      (intro ex_cong1 conj_cong refl, auto)
  also have "\<dots> \<longleftrightarrow> (\<exists>k t fs. P k t fs)"
  proof -
    have "key_ok ?L tag k named ids \<and> cursor + length (wire_key tag k) \<le> limit \<and>
        seg (in_bytes S) cursor (wire_key tag k) \<and> fits S limit depth (cursor + length (wire_key tag k)) st t"
      if "P k t fs" for k t fs
      using that by (simp add: P_def fits_def emit_fields_def costs_def seg_append)
    then show ?thesis
      by blast
  qed
  finally show ?case
    unfolding P_def by (subst ex_length_Suc) simp
qed

lemma tree_ok_depth: "tree_ok L d t \<Longrightarrow> d \<le> max_depth L"
  by (cases t) auto

lemma sizeof_node_le_cost: "sizeof_node Z \<le> tree_cost Z t"
  by (cases t) auto

lemma set_end_after:
  "set_end (length (rs_cells st)) e (after st m (\<lparr>consumed = False, cell_end = x\<rparr> # new)) =
     after st m (\<lparr>consumed = False, cell_end = e\<rparr> # new)"
  by (simp add: set_end_def after_def list_update_append)

lemma leaf_tree:
  assumes "is_leaf_tag (tree_tag t)"
  shows "tree_ok L d t \<longleftrightarrow> d \<le> max_depth L \<and> leaf_ok L t"
    and "tree_cost Z t = sizeof_node Z"
    and "node_of t c d k = Node (tree_node t c d k) [] []"
    and "tree_cells t c = [\<lparr>consumed = False, cell_end = c + length (emit t)\<rparr>]"
  using assms by (cases t; simp add: is_leaf_tag_def node_of.simps tree_cells.simps)+

lemma readCount_then:
  assumes "limit \<le> length (in_bytes S)"
  shows "act_then (act_of (readCount S cursor limit m kind)) (\<lambda>(count, cursor). f count cursor) st = (Inr y, st') \<longleftrightarrow>
    (\<exists>count. count \<le> m \<and> count < 2 ^ 64 \<and> cursor + length (count_bytes count) \<le> limit \<and>
       seg (in_bytes S) cursor (count_bytes count) \<and>
       f count (cursor + length (count_bytes count)) st = (Inr y, st'))"
  unfolding act_then_Inr act_of_Inr by (auto simp: readCount_iff [OF assms])

lemma charge_then: "n \<le> rs_remaining st \<Longrightarrow> act_then (charge n) f st = f () (after st n [])"
  by (simp add: act_then_def charge_def after_def)

lemma act_then_act_of [simp]:
  "act_then (act_of (Inr x)) f st = f x st"
  "act_then (act_of (Inl e)) f st = (Inl e, st)"
  by (simp_all add: act_then_def act_of_def)

lemma make_node_after:
  "make_node (after st n []) = (length (rs_cells st), after st n [\<lparr>consumed = False, cell_end = 0\<rparr>])"
  by (simp add: make_node_def after_def)

lemma chargeProduct_then:
  "act_then (chargeProduct n k) (\<lambda>_. f) st = (Inr y, st') \<longleftrightarrow>
    n * k \<le> size_max \<and> n * k \<le> rs_remaining st \<and> f (after st (n * k) []) = (Inr y, st')"
  unfolding act_then_Inr chargeProduct_Inr by (auto simp: after_def)

lemma parse_elements_then:
  assumes "parsed_as S limit depth" "rs_remaining st \<le> size_max" "cursor \<le> limit" "limit \<le> length (in_bytes S)"
  shows "act_then (parse_elements S n cursor limit depth []) (\<lambda>(es, c). f es c) st = (Inr y, st') \<longleftrightarrow>
    (\<exists>ts. length ts = n \<and> list_all (\<lambda>t. tree_ok (in_limits S) depth t) ts \<and>
       costs S ts \<le> rs_remaining st \<and> cursor + length (emits ts) \<le> limit \<and>
       seg (in_bytes S) cursor (emits ts) \<and>
       f (nodes_of ts cursor depth (length (rs_cells st))) (cursor + length (emits ts))
         (after st (costs S ts) (trees_cells ts cursor)) = (Inr y, st'))"
  unfolding act_then_Inr by (auto simp: parse_elements_iff [OF assms(1) assms(2-4)])

lemma parse_members_then:
  assumes "parsed_as S limit depth" "rs_remaining st \<le> size_max" "cursor \<le> limit" "limit \<le> length (in_bytes S)"
    and "tag = T_NamedObject \<or> tag = T_IdObject"
  shows "act_then (parse_members S tag n cursor limit depth [] Map.empty Map.empty)
      (\<lambda>(ms, named, ids, c). f ms named ids c) st = (Inr y, st') \<longleftrightarrow>
    (\<exists>fs. length fs = n \<and> keys_ok (in_limits S) tag (map fst fs) 0 Map.empty Map.empty \<and>
       list_all (\<lambda>f. tree_ok (in_limits S) depth (snd f)) fs \<and>
       costs S (map snd fs) \<le> rs_remaining st \<and> cursor + length (emit_fields tag fs) \<le> limit \<and>
       seg (in_bytes S) cursor (emit_fields tag fs) \<and>
       f (members_of tag fs cursor depth (length (rs_cells st)))
         (fst (index_keys tag (map fst fs) 0 Map.empty Map.empty))
         (snd (index_keys tag (map fst fs) 0 Map.empty Map.empty))
         (cursor + length (emit_fields tag fs))
         (after st (costs S (map snd fs)) (fields_cells tag fs cursor)) = (Inr y, st'))"
  unfolding act_then_Inr
  by (auto simp: parse_members_iff [OF assms(1,4,5,2,3)] prod_eq_iff [of "(_, _)" "index_keys _ _ _ _ _"]) blast

lemma parse_leaf_then:
  assumes "limit \<le> length (in_bytes S)" "cursor \<le> limit" "is_leaf_tag tag"
  shows "act_then (act_of (parse_leaf S tag cursor limit)) (\<lambda>(db, de, c). f db de c) st = (Inr y, st') \<longleftrightarrow>
    (\<exists>t. tree_tag t = tag \<and> leaf_ok (in_limits S) t \<and> cursor + length (payload t) \<le> limit \<and>
       seg (in_bytes S) cursor (payload t) \<and>
       f (fst (leaf_span t cursor)) (snd (leaf_span t cursor)) (cursor + length (payload t)) st = (Inr y, st'))"
  unfolding act_then_Inr act_of_Inr
  by (auto simp: parse_leaf_iff [OF assms] prod_eq_iff [of "(_, _)" "leaf_span _ _"])

text \<open>A count and the children it announces.\<close>

lemma ex_counted: "(\<exists>n. A n \<and> (\<exists>xs. length xs = n \<and> B n xs)) \<longleftrightarrow> (\<exists>xs. A (length xs) \<and> B (length xs) xs)"
  by auto

lemma parse_array_then:
  assumes "parsed_as S limit depth" "rs_remaining st \<le> size_max" "limit \<le> length (in_bytes S)"
  shows "act_then (act_of (readCount S cursor limit m kind)) (\<lambda>(count, cur).
      act_then (chargeProduct count k) (\<lambda>_.
      act_then (parse_elements S count cur limit depth []) (\<lambda>(es, c). f es c))) st = (Inr y, st') \<longleftrightarrow>
    (\<exists>ts. (length ts \<le> m \<and> length ts < 2 ^ 64 \<and> cursor + length (count_bytes (length ts)) \<le> limit \<and>
       seg (in_bytes S) cursor (count_bytes (length ts)) \<and>
       length ts * k \<le> size_max \<and> length ts * k \<le> rs_remaining st) \<and>
       list_all (\<lambda>t. tree_ok (in_limits S) depth t) ts \<and>
       costs S ts \<le> rs_remaining st - length ts * k \<and>
       cursor + length (count_bytes (length ts)) + length (emits ts) \<le> limit \<and>
       seg (in_bytes S) (cursor + length (count_bytes (length ts))) (emits ts) \<and>
       f (nodes_of ts (cursor + length (count_bytes (length ts))) depth (length (rs_cells st)))
         (cursor + length (count_bytes (length ts)) + length (emits ts))
         (after st (length ts * k + costs S ts) (trees_cells ts (cursor + length (count_bytes (length ts))))) = (Inr y, st'))"
  by (subst ex_counted [symmetric])
    (use assms in \<open>simp add: readCount_then chargeProduct_then parse_elements_then conj_assoc cong: conj_cong\<close>)

lemma parse_object_then:
  assumes "parsed_as S limit depth" "rs_remaining st \<le> size_max" "limit \<le> length (in_bytes S)"
    "tag = T_NamedObject \<or> tag = T_IdObject"
  shows "act_then (act_of (readCount S cursor limit m kind)) (\<lambda>(count, cur).
      act_then (chargeProduct count k) (\<lambda>_.
      act_then (parse_members S tag count cur limit depth [] Map.empty Map.empty)
        (\<lambda>(ms, named, ids, c). f ms named ids c))) st = (Inr y, st') \<longleftrightarrow>
    (\<exists>fs. (length fs \<le> m \<and> length fs < 2 ^ 64 \<and> cursor + length (count_bytes (length fs)) \<le> limit \<and>
       seg (in_bytes S) cursor (count_bytes (length fs)) \<and>
       length fs * k \<le> size_max \<and> length fs * k \<le> rs_remaining st) \<and>
       keys_ok (in_limits S) tag (map fst fs) 0 Map.empty Map.empty \<and>
       list_all (\<lambda>f. tree_ok (in_limits S) depth (snd f)) fs \<and>
       costs S (map snd fs) \<le> rs_remaining st - length fs * k \<and>
       cursor + length (count_bytes (length fs)) + length (emit_fields tag fs) \<le> limit \<and>
       seg (in_bytes S) (cursor + length (count_bytes (length fs))) (emit_fields tag fs) \<and>
       f (members_of tag fs (cursor + length (count_bytes (length fs))) depth (length (rs_cells st)))
         (fst (index_keys tag (map fst fs) 0 Map.empty Map.empty))
         (snd (index_keys tag (map fst fs) 0 Map.empty Map.empty))
         (cursor + length (count_bytes (length fs)) + length (emit_fields tag fs))
         (after st (length fs * k + costs S (map snd fs))
           (fields_cells tag fs (cursor + length (count_bytes (length fs))))) = (Inr y, st'))"
  by (subst ex_counted [symmetric])
    (use assms in \<open>simp add: readCount_then chargeProduct_then parse_members_then conj_assoc cong: conj_cong\<close>)

lemma keys_ok_named: "keys_ok L T_NamedObject ks ix named ids \<Longrightarrow> \<exists>ns. ks = map Key_Name ns"
proof (induction ks arbitrary: ix named ids)
  case (Cons k ks)
  then obtain ns n where "ks = map Key_Name ns" "k = Key_Name n"
    by (cases k) (fastforce simp: key_ok_def Let_def split: prod.splits)+
  then show ?case
    by (intro exI [of _ "n # ns"]) simp
qed simp

lemma ex_named:
  assumes "\<And>fs. R fs \<Longrightarrow> keys_ok L T_NamedObject (map fst fs) ix named ids"
  shows "(\<exists>fs. R fs) \<longleftrightarrow> (\<exists>gs. R (map (\<lambda>f. (Key_Name (fst f), snd f)) gs))"
proof -
  have "\<exists>gs. fs = map (\<lambda>f. (Key_Name (fst f), snd f)) gs" if r: "R fs" for fs
  proof -
    obtain ns where "map fst fs = map Key_Name ns"
      using keys_ok_named [OF assms [OF r]] by blast
    then have "fs = map (\<lambda>f. (Key_Name (fst f), snd f)) (zip ns (map snd fs))"
      by (auto simp: list_eq_iff_nth_eq prod_eq_iff)
    then show ?thesis ..
  qed
  then show ?thesis
    by blast
qed

lemma parse_node_parsed:
  assumes "in_size S = length (in_bytes S)" "limit \<le> length (in_bytes S)"
  shows "parsed_as S limit depth"
proof (induction depth rule: depth_induct [where m = "max_depth (in_limits S)"])
  case (1 depth)
  show ?case
    unfolding parsed_as_def
  proof (intro allI impI)
    fix cursor n c and st st' :: rstate
    assume rem: "rs_remaining st \<le> size_max"
    let ?Z = "in_sizes S" and ?R = "\<exists>t. fits S limit depth cursor st t \<and> n = node_of t cursor depth (length (rs_cells st)) \<and>
            c = cursor + length (emit t) \<and> st' = after st (tree_cost (in_sizes S) t) (tree_cells t cursor)"
    show "parse_node S cursor limit depth st = (Inr (n, c), st') \<longleftrightarrow> ?R"
    proof (cases "depth \<le> max_depth (in_limits S) \<and> cursor < limit \<and> sizeof_node ?Z \<le> rs_remaining st")
      case False
      have "\<not> fits S limit depth cursor st t" for t
        using False tree_ok_depth [of "in_limits S" depth t] sizeof_node_le_cost [of ?Z t]
        by (auto simp: fits_def emit_payload)
      moreover have "parse_node S cursor limit depth st \<noteq> (Inr (n, c), st')"
        using False by (subst parse_node.simps) (auto simp: act_then_Inr charge_Inr)
      ultimately show ?thesis
        by blast
    next
      case True
      define b where "b = in_bytes S ! cursor"
      let ?st2 = "after st (sizeof_node ?Z) [\<lparr>consumed = False, cell_end = 0\<rparr>]"
      note step = charge_then [OF conjunct2 [OF conjunct2 [OF True]]] make_node_after byte_at_inside Let_def
      have cur: "cursor < length (in_bytes S)"
        using True assms by simp
      have rem2: "rs_remaining (after ?st2 m cs) \<le> size_max" "rs_remaining ?st2 \<le> size_max" for m cs
        using rem by simp_all
      show ?thesis
      proof (cases "tag_of_byte b")
        case None
        then have "b \<noteq> tag_byte tag" for tag
          using tag_of_byte_iff [of b tag] by auto
        then have "\<not> fits S limit depth cursor st t" for t
          by (auto simp: fits_def emit_payload seg_Cons b_def)
        moreover have "parse_node S cursor limit depth st \<noteq> (Inr (n, c), st')"
          using True assms None by (subst parse_node.simps) (simp add: step b_def cur)
        ultimately show ?thesis
          by blast
      next
        case (Some tag)
        then have b: "b = tag_byte tag"
          by (simp add: tag_of_byte_iff)
        have fits_iff: "fits S limit depth cursor st t \<longleftrightarrow> tree_tag t = tag \<and> tree_ok (in_limits S) depth t \<and>
            tree_cost ?Z t \<le> rs_remaining st \<and> Suc cursor + length (payload t) \<le> limit \<and>
            seg (in_bytes S) (Suc cursor) (payload t)" for t
          using cur tag_of_byte_iff [of b "tree_tag t"] Some
          by (auto simp: fits_def emit_payload seg_Cons b_def [symmetric])
        consider (arr) "tag = T_Array" | (named) "tag = T_NamedObject" | (ided) "tag = T_IdObject" | (leaf) "is_leaf_tag tag"
          by (auto simp: is_leaf_tag_def)
        then show ?thesis
        proof cases
          case leaf
          have "parse_node S cursor limit depth st = (Inr (n, c), st') \<longleftrightarrow> (\<exists>t. tree_tag t = tag \<and>
              leaf_ok (in_limits S) t \<and> Suc cursor + length (payload t) \<le> limit \<and>
              seg (in_bytes S) (Suc cursor) (payload t) \<and>
              n = Node (tree_node t cursor depth (length (rs_cells st))) [] [] \<and>
              c = Suc cursor + length (payload t) \<and>
              st' = after st (sizeof_node ?Z) [\<lparr>consumed = False, cell_end = Suc cursor + length (payload t)\<rparr>])"
            using True assms Some leaf
            by (subst parse_node.simps)
              (simp add: step b_def [symmetric] cur parse_leaf_then is_leaf_tag_def,
               intro ex_cong1, auto simp: tree_node_def set_end_after)
          also have "\<dots> \<longleftrightarrow> ?R"
          proof (rule ex_cong1)
            fix t
            show "(tree_tag t = tag \<and> leaf_ok (in_limits S) t \<and> Suc cursor + length (payload t) \<le> limit \<and>
                seg (in_bytes S) (Suc cursor) (payload t) \<and>
                n = Node (tree_node t cursor depth (length (rs_cells st))) [] [] \<and>
                c = Suc cursor + length (payload t) \<and>
                st' = after st (sizeof_node ?Z) [\<lparr>consumed = False, cell_end = Suc cursor + length (payload t)\<rparr>]) \<longleftrightarrow>
              (fits S limit depth cursor st t \<and> n = node_of t cursor depth (length (rs_cells st)) \<and>
                c = cursor + length (emit t) \<and> st' = after st (tree_cost ?Z t) (tree_cells t cursor))"
            proof (cases "tree_tag t = tag")
              case tt: True
              then have "is_leaf_tag (tree_tag t)"
                using leaf by simp
              then show ?thesis
                using True tt by (simp add: fits_iff leaf_tree emit_payload)
            qed (simp add: fits_iff)
          qed
          finally show ?thesis .
        next
          case arr
          have "parse_node S cursor limit depth st = (Inr (n, c), st') \<longleftrightarrow> (\<exists>ts.
              fits S limit depth cursor st (W_Arr ts) \<and> n = node_of (W_Arr ts) cursor depth (length (rs_cells st)) \<and>
              c = cursor + length (emit (W_Arr ts)) \<and>
              st' = after st (tree_cost ?Z (W_Arr ts)) (tree_cells (W_Arr ts) cursor))"
            using True assms Some arr rem
            by (subst parse_node.simps)
              (simp add: step b_def [symmetric] cur parse_array_then [OF 1 [OF conjunct1 [OF True]]],
               intro ex_cong1, auto simp: fits_iff node_of.simps tree_node_def default_node_def tree_cells.simps emits_def costs_def
                 seg_append set_end_after)
          moreover have "fits S limit depth cursor st t \<Longrightarrow> \<exists>ts. t = W_Arr ts" for t
            using arr by (cases t) (auto simp: fits_iff payload_width_def fixedWidth_def split: if_splits)
          ultimately show ?thesis
            by blast
        next
          case ided
          have "parse_node S cursor limit depth st = (Inr (n, c), st') \<longleftrightarrow> (\<exists>fs.
              fits S limit depth cursor st (W_Ided fs) \<and> n = node_of (W_Ided fs) cursor depth (length (rs_cells st)) \<and>
              c = cursor + length (emit (W_Ided fs)) \<and>
              st' = after st (tree_cost ?Z (W_Ided fs)) (tree_cells (W_Ided fs) cursor))"
            using True assms Some ided rem
            by (subst parse_node.simps)
              (simp add: step b_def [symmetric] cur parse_object_then [OF 1 [OF conjunct1 [OF True]]],
               intro ex_cong1, auto simp: fits_iff node_of.simps tree_node_def default_node_def tree_cells.simps
                 emit_fields_def costs_def seg_append set_end_after wire_key_def comp_def split_beta)
          moreover have "fits S limit depth cursor st t \<Longrightarrow> \<exists>fs. t = W_Ided fs" for t
            using ided by (cases t) (auto simp: fits_iff payload_width_def fixedWidth_def split: if_splits)
          ultimately show ?thesis
            by blast
        next
          case named
          have "parse_node S cursor limit depth st = (Inr (n, c), st') \<longleftrightarrow> (\<exists>fs.
              fits S limit depth cursor st (W_Named fs) \<and> n = node_of (W_Named fs) cursor depth (length (rs_cells st)) \<and>
              c = cursor + length (emit (W_Named fs)) \<and>
              st' = after st (tree_cost ?Z (W_Named fs)) (tree_cells (W_Named fs) cursor))"
            using True assms Some named rem
            by (subst parse_node.simps)
              (simp add: step b_def [symmetric] cur parse_object_then [OF 1 [OF conjunct1 [OF True]]],
               subst ex_named [where L = "in_limits S" and ix = 0 and named = Map.empty and ids = Map.empty], blast,
               intro ex_cong1, auto simp: fits_iff node_of.simps tree_node_def default_node_def tree_cells.simps
                 emit_fields_def costs_def seg_append set_end_after wire_key_def comp_def split_beta named_keys_def
                 list.pred_map)
          moreover have "fits S limit depth cursor st t \<Longrightarrow> \<exists>fs. t = W_Named fs" for t
            using named by (cases t) (auto simp: fits_iff payload_width_def fixedWidth_def split: if_splits)
          ultimately show ?thesis
            by blast
        qed
      qed
    qed
  qed
qed

end
