(* ===== verification/Binary_Values.thy ===== *)
theory Binary_Values
  imports Binary_Reader
begin

unbundle bit_operations_syntax

text \<open>
  The operations of \<open>binary::Reader\<close> on handles: opening the input, taking arrays and objects
  apart, converting values, the raw fixed mode, and the checkpoint that undoes reads. A read marks
  its node consumed; a raw read also moves the shared offset.
\<close>

definition new_reader ::
  "bytes option \<Rightarrow> nat \<Rightarrow> ParseLimits \<Rightarrow> sizes \<Rightarrow> input \<times> rstate" where
  "new_reader data n limits sz =
     (let S = \<lparr>in_data = data, in_size = n, in_limits = limits, in_sizes = sz\<rparr>;
          st = \<lparr>rs_offset = 0, rs_remaining = max_total_allocated_bytes limits, rs_framed = False,
                rs_error = None, rs_cells = []\<rparr>
      in if data = None then (S, st\<lparr>rs_error := Some (SaError SaParseError ''Binary input handle is null'')\<rparr>)
      else if max_input_bytes limits < n
      then (S, st\<lparr>rs_error := Some (SaError SaInvalidLength ''Binary input exceeds configured byte limit'')\<rparr>)
      else if length BinaryMagic \<le> n \<and> take (length BinaryMagic) (in_bytes S) = BinaryMagic
      then (S, st\<lparr>rs_framed := True, rs_offset := length BinaryMagic\<rparr>)
      else (S, st))"

definition inputResult :: "rstate \<Rightarrow> unit sa_result" where
  "inputResult st = (case rs_error st of Some e \<Rightarrow> Inl (Err e) | None \<Rightarrow> Inr ())"

definition reader_beginRaw :: "rstate \<Rightarrow> rstate" where
  "reader_beginRaw st = st\<lparr>rs_framed := False, rs_offset := 0\<rparr>"

definition reader_finish :: "input \<Rightarrow> rstate \<Rightarrow> unit sa_result" where
  "reader_finish S st =
     (case rs_error st of
        Some e \<Rightarrow> Inl (Err e)
      | None \<Rightarrow>
        if rs_offset st \<noteq> in_size S
        then Inl (Err (SaError SaParseError ''Binary input contains trailing or unconsumed bytes''))
        else Inr ())"

text \<open>A handle is validated before its node is used; the validated node is the result.\<close>

definition validateHandle :: "input \<Rightarrow> handle \<Rightarrow> rstate \<Rightarrow> node sa_result" where
  "validateHandle S h st =
     (case h_node h of
        None \<Rightarrow> Inl (Err (SaError SaParseError ''Binary input handle is null''))
      | Some n \<Rightarrow>
        if \<not> h_state h \<or> in_data S = None
        then Inl (Err (SaError SaParseError ''Binary input handle is null''))
        else case rs_error st of
          Some e \<Rightarrow> Inl (Err e)
        | None \<Rightarrow> (case nd_error (nd n) of Some e \<Rightarrow> Inl (Err e) | None \<Rightarrow> Inr n))"

definition validate :: "input \<Rightarrow> handle \<Rightarrow> rstate \<Rightarrow> node sa_result" where
  "validate S h st =
     and_then (validateHandle S h st) (\<lambda>n.
       if consumed (rs_cells st ! nd_cell (nd n))
       then Inl (Err (SaError SaParseError ''Binary value was already consumed'')) else Inr n)"

definition handle_of :: "node \<Rightarrow> handle" where
  "handle_of n = \<lparr>h_state = True, h_node = Some n\<rparr>"

definition reader_root :: "input \<Rightarrow> rstate \<Rightarrow> handle sa_result \<times> rstate" where
  "reader_root S st =
     (case rs_error st of
        Some e \<Rightarrow> map_prod Inr (\<lambda>st. st) (errorValue True e st)
      | None \<Rightarrow>
        if \<not> rs_framed st then map_prod Inr (\<lambda>st. st) (rawValue S st)
        else case parse_node S (rs_offset st) (in_size S) 0 st of
          (Inl (Err e), st) \<Rightarrow> map_prod Inr (\<lambda>st. st) (errorValue True e st)
        | (Inl Out_Of_Bounds, st) \<Rightarrow> (Inl Out_Of_Bounds, st)
        | (Inr (n, cursor), st) \<Rightarrow> (Inr (handle_of n), st\<lparr>rs_offset := cursor\<rparr>))"

definition reader_next :: "input \<Rightarrow> handle \<Rightarrow> rstate \<Rightarrow> handle sa_result \<times> rstate" where
  "reader_next S h st =
     (case validateHandle S h st of
        Inl (Err e) \<Rightarrow> map_prod Inr (\<lambda>st. st) (errorValue (h_state h) e st)
      | Inl Out_Of_Bounds \<Rightarrow> (Inl Out_Of_Bounds, st)
      | Inr n \<Rightarrow>
        if nd_raw (nd n) then map_prod Inr (\<lambda>st. st) (rawValue S st)
        else case parse_node S (cell_end (rs_cells st ! nd_cell (nd n))) (in_size S) (nd_depth (nd n)) st of
          (Inl (Err e), st) \<Rightarrow> map_prod Inr (\<lambda>st. st) (errorValue (h_state h) e st)
        | (Inl Out_Of_Bounds, st) \<Rightarrow> (Inl Out_Of_Bounds, st)
        | (Inr (n, cursor), st) \<Rightarrow> (Inr (handle_of n), st\<lparr>rs_offset := cursor\<rparr>))"

subsection \<open>Arrays and objects\<close>

definition isRaw :: "handle \<Rightarrow> bool" where
  "isRaw h \<longleftrightarrow> h_state h \<and> (case h_node h of None \<Rightarrow> False | Some n \<Rightarrow> nd_raw (nd n))"

definition isFramedObject :: "handle \<Rightarrow> bool" where
  "isFramedObject h \<longleftrightarrow> h_state h \<and>
     (case h_node h of None \<Rightarrow> False
      | Some n \<Rightarrow> \<not> nd_raw (nd n) \<and> (nd_tag (nd n) = T_NamedObject \<or> nd_tag (nd n) = T_IdObject))"

definition arraySize :: "handle \<Rightarrow> nat" where
  "arraySize h = (case h_node h of None \<Rightarrow> 0 | Some n \<Rightarrow> length (elements n))"

definition objectSize :: "handle \<Rightarrow> nat" where
  "objectSize h = (case h_node h of None \<Rightarrow> 0 | Some n \<Rightarrow> length (members n))"

definition arrayElement :: "input \<Rightarrow> handle \<Rightarrow> nat \<Rightarrow> rstate \<Rightarrow> handle sa_result \<times> rstate" where
  "arrayElement S h ix st =
     (case validateHandle S h st of
        Inl (Err e) \<Rightarrow> map_prod Inr (\<lambda>st. st) (errorValue (h_state h) e st)
      | Inl Out_Of_Bounds \<Rightarrow> (Inl Out_Of_Bounds, st)
      | Inr n \<Rightarrow>
        if nd_tag (nd n) \<noteq> T_Array \<or> length (elements n) \<le> ix
        then map_prod Inr (\<lambda>st. st)
          (errorValue (h_state h) (SaError SaInvalidIndex ''Binary array index is out of range'') st)
        else (and_then (vec_at (elements n) ix) (\<lambda>e. Inr (handle_of e)), st))"

definition missingField :: "bytes \<Rightarrow> sa_error" where
  "missingField name =
     SaError SaInvalidField (''Binary object does not contain field '' @ [CHR 0x27] @ chars_of_bytes name @ [CHR 0x27])"

definition typeError :: "string \<Rightarrow> sa_error" where
  "typeError expected = SaError SaInvalidType (''Binary value is not a '' @ expected)"

definition member_at :: "node \<Rightarrow> 'k \<Rightarrow> ('k \<rightharpoonup> nat) \<Rightarrow> bytes \<Rightarrow> handle sa_result" where
  "member_at n key index name =
     (case index key of
        None \<Rightarrow> Inl (Err (missingField name))
      | Some ix \<Rightarrow> and_then (vec_at (members n) ix) (\<lambda>(_, _, v). Inr (handle_of v)))"

definition objectField :: "input \<Rightarrow> handle \<Rightarrow> bytes \<Rightarrow> rstate \<Rightarrow> handle sa_result" where
  "objectField S h name st =
     and_then (validateHandle S h st) (\<lambda>n.
       if nd_tag (nd n) = T_NamedObject then member_at n name (nd_named (nd n)) name
       else if nd_tag (nd n) = T_IdObject then
         if useHashedFieldId name then member_at n (fieldId name) (nd_ids (nd n)) name
         else member_at n name (nd_named (nd n)) name
       else Inl (Err (typeError ''object'')))"

text \<open>The callback of \<open>forEachObjectMember\<close> acts on a state of its own kind.\<close>

fun each_member :: "(bytes \<Rightarrow> handle \<Rightarrow> 's \<Rightarrow> bool \<times> 's) \<Rightarrow> (bytes \<times> u32 \<times> node) list \<Rightarrow> 's \<Rightarrow> bool \<times> 's" where
  "each_member fn [] s = (True, s)"
| "each_member fn ((name, ident, v) # ms) s =
     (let (go, s) = fn name (handle_of v) s in if go then each_member fn ms s else (False, s))"

definition forEachObjectMember ::
  "input \<Rightarrow> rstate \<Rightarrow> (bytes \<Rightarrow> handle \<Rightarrow> 's \<Rightarrow> bool \<times> 's) \<Rightarrow> handle \<Rightarrow> 's \<Rightarrow> bool \<times> 's" where
  "forEachObjectMember S st fn h s =
     (case validateHandle S h st of
        Inl _ \<Rightarrow> (False, s)
      | Inr n \<Rightarrow> if nd_tag (nd n) \<noteq> T_NamedObject then (False, s) else each_member fn (members n) s)"

subsection \<open>Values\<close>

datatype basic =
    B_string | B_bool | B_i8 | B_i16 | B_i32 | B_i64 | B_u8 | B_u16 | B_u32 | B_u64 | B_f32 | B_f64

definition consume :: "node \<Rightarrow> rstate \<Rightarrow> rstate" where
  "consume n st = set_consumed (nd_cell (nd n)) st"

definition isEmpty :: "input \<Rightarrow> handle \<Rightarrow> rstate \<Rightarrow> bool \<times> rstate" where
  "isEmpty S h st =
     (case validate S h st of
        Inl _ \<Rightarrow> (False, st)
      | Inr n \<Rightarrow> if nd_raw (nd n) \<or> nd_tag (nd n) \<noteq> T_Null then (False, st) else (True, consume n st))"

text \<open>The value of a zigzag-encoded varint, with the range checks of the code.\<close>

definition signed_of_uleb :: "'a::len word \<Rightarrow> 'a word sa_result" where
  "signed_of_uleb encoded =
     (let magnitude = drop_bit 1 encoded + (encoded AND 1);
          maximum = mask (LENGTH('a) - 1);
          range_error = Inl (Err (SaError SaInvalidType ''Binary integer is out of range''))
      in if encoded AND 1 \<noteq> 0 then
           let minimumMagnitude = maximum + 1 in
           if minimumMagnitude < magnitude then range_error
           else if magnitude = minimumMagnitude then Inr (push_bit (LENGTH('a) - 1) 1)
           else Inr (- magnitude)
         else if maximum < magnitude then range_error
         else Inr magnitude)"

definition load :: "input \<Rightarrow> nat \<Rightarrow> 'a::len word sa_result" where
  "load S pos = and_then (span_sub (in_bytes S) pos (LENGTH('a) div 8)) (\<lambda>bs. Inr (mem_value bs))"

definition read_signed :: "('a::len word \<Rightarrow> scalar) \<Rightarrow> input \<Rightarrow> node \<Rightarrow> cvalue act" where
  "read_signed mk S n st =
     (if nd_tag (nd n) \<noteq> T_SignedInteger then (Inl (Err (typeError ''signed integer'')), st)
      else act_then (act_of (read_uleb (in_bytes S) (nd_dataBegin (nd n)) (nd_dataEnd (nd n)))) (\<lambda>(encoded, _) st.
        (and_then (signed_of_uleb encoded) (\<lambda>v. Inr (C_scalar (mk v))), consume n st)) st)"

definition read_unsigned :: "('a::len word \<Rightarrow> scalar) \<Rightarrow> input \<Rightarrow> node \<Rightarrow> cvalue act" where
  "read_unsigned mk S n st =
     (if nd_tag (nd n) \<noteq> T_UnsignedInteger then (Inl (Err (typeError ''unsigned integer'')), st)
      else act_then (act_of (read_uleb (in_bytes S) (nd_dataBegin (nd n)) (nd_dataEnd (nd n)))) (\<lambda>(decoded, _) st.
        (Inr (C_scalar (mk decoded)), consume n st)) st)"

definition read_float :: "('a::len word \<Rightarrow> scalar) \<Rightarrow> value_tag \<Rightarrow> string \<Rightarrow> input \<Rightarrow> node \<Rightarrow> cvalue act" where
  "read_float mk tag kind S n st =
     (if nd_tag (nd n) \<noteq> tag then (Inl (Err (typeError kind)), st)
      else act_then (act_of (load S (nd_dataBegin (nd n)))) (\<lambda>bits st.
        (Inr (C_scalar (mk (betoh bits))), consume n st)) st)"

definition readFloating :: "basic \<Rightarrow> input \<Rightarrow> node \<Rightarrow> cvalue act" where
  "readFloating b S n st =
     (if b = B_f32 then read_float S_f32 T_Float32 ''float32'' S n st
      else read_float S_f64 T_Float64 ''float64'' S n st)"

text \<open>Raw reads.\<close>

definition consumeRaw :: "node \<Rightarrow> nat \<Rightarrow> rstate \<Rightarrow> rstate" where
  "consumeRaw n e st = consume n (set_end (nd_cell (nd n)) e (st\<lparr>rs_offset := e\<rparr>))"

fun basic_size :: "basic \<Rightarrow> nat" where
  "basic_size B_i16 = 2"
| "basic_size B_i32 = 4"
| "basic_size B_i64 = 8"
| "basic_size B_u16 = 2"
| "basic_size B_u32 = 4"
| "basic_size B_u64 = 8"
| "basic_size B_f32 = 4"
| "basic_size B_f64 = 8"
| "basic_size _ = 1"

definition raw_load :: "('a::len word \<Rightarrow> scalar) \<Rightarrow> input \<Rightarrow> node \<Rightarrow> cvalue act" where
  "raw_load mk S n st =
     act_then (act_of (load S (rs_offset st))) (\<lambda>bits st.
       (Inr (C_scalar (mk (if LENGTH('a) = 8 then bits else betoh bits))),
        consumeRaw n (rs_offset st + LENGTH('a) div 8) st)) st"

definition readRawFixed :: "basic \<Rightarrow> nat \<Rightarrow> input \<Rightarrow> node \<Rightarrow> cvalue act" where
  "readRawFixed b m S n st =
     (if m \<noteq> basic_size b \<or> size_diff (in_size S) (rs_offset st) < m
      then fail SaParseError ''Unexpected end of raw fixed binary data'' st
      else case b of
        B_bool \<Rightarrow>
          act_then (act_of (byte_at (in_bytes S) (rs_offset st))) (\<lambda>byte st.
            let st = consumeRaw n (rs_offset st + 1) st in
            if 1 < byte then fail SaParseError ''Raw binary bool must be 0 or 1'' st
            else (Inr (C_scalar (S_bool (byte \<noteq> 0))), st)) st
      | B_i8 \<Rightarrow> raw_load S_i8 S n st | B_i16 \<Rightarrow> raw_load S_i16 S n st
      | B_i32 \<Rightarrow> raw_load S_i32 S n st | B_i64 \<Rightarrow> raw_load S_i64 S n st
      | B_u8 \<Rightarrow> raw_load S_u8 S n st | B_u16 \<Rightarrow> raw_load S_u16 S n st
      | B_u32 \<Rightarrow> raw_load S_u32 S n st | B_u64 \<Rightarrow> raw_load S_u64 S n st
      | B_f32 \<Rightarrow> raw_load S_f32 S n st | B_f64 \<Rightarrow> raw_load S_f64 S n st
      | B_string \<Rightarrow> fail SaInvalidType ''not an arithmetic type'' st)"

definition readRaw :: "basic \<Rightarrow> input \<Rightarrow> node \<Rightarrow> cvalue act" where
  "readRaw b S n st =
     (if b = B_string then
        act_then (act_of (read_uleb (in_bytes S) (rs_offset st) (in_size S))) (\<lambda>(m :: u64, cursor) st.
          if max_string_bytes (in_limits S) < unat m \<or> size_diff (in_size S) cursor < unat m
          then fail SaInvalidLength ''Raw binary string exceeds configured limit'' st
          else act_then (charge (unat m)) (\<lambda>_ st.
            act_then (act_of (span_sub (in_bytes S) cursor (unat m))) (\<lambda>s st.
              (Inr (C_string s), consumeRaw n (cursor + unat m) st)) st) st) st
      else readRawFixed b (basic_size b) S n st)"

definition toBasicType :: "basic \<Rightarrow> input \<Rightarrow> handle \<Rightarrow> cvalue act" where
  "toBasicType b S h st =
     act_then (\<lambda>st. (validate S h st, st)) (\<lambda>n st.
       if nd_raw (nd n) then readRaw b S n st
       else case b of
         B_string \<Rightarrow>
           if nd_tag (nd n) \<noteq> T_String then (Inl (Err (typeError ''string'')), st)
           else
             let len = size_diff (nd_dataEnd (nd n)) (nd_dataBegin (nd n)) in
             act_then (charge len) (\<lambda>_ st.
               act_then (act_of (span_sub (in_bytes S) (nd_dataBegin (nd n)) len)) (\<lambda>s st.
                 (Inr (C_string s), consume n st)) st) st
       | B_bool \<Rightarrow>
           if nd_tag (nd n) \<noteq> T_False \<and> nd_tag (nd n) \<noteq> T_True then (Inl (Err (typeError ''bool'')), st)
           else (Inr (C_scalar (S_bool (nd_tag (nd n) = T_True))), consume n st)
       | B_i8 \<Rightarrow> read_signed S_i8 S n st | B_i16 \<Rightarrow> read_signed S_i16 S n st
       | B_i32 \<Rightarrow> read_signed S_i32 S n st | B_i64 \<Rightarrow> read_signed S_i64 S n st
       | B_u8 \<Rightarrow> read_unsigned S_u8 S n st | B_u16 \<Rightarrow> read_unsigned S_u16 S n st
       | B_u32 \<Rightarrow> read_unsigned S_u32 S n st | B_u64 \<Rightarrow> read_unsigned S_u64 S n st
       | B_f32 \<Rightarrow> readFloating B_f32 S n st | B_f64 \<Rightarrow> readFloating B_f64 S n st) st"

definition read_fixed_int :: "('a::len word \<Rightarrow> scalar) \<Rightarrow> value_tag \<Rightarrow> nat \<Rightarrow> input \<Rightarrow> node \<Rightarrow> cvalue act" where
  "read_fixed_int mk tag m S n st =
     (if m \<noteq> LENGTH('a) div 8 \<or> nd_tag (nd n) \<noteq> tag then (Inl (Err (typeError ''fixed-width integer'')), st)
      else act_then (act_of (load S (nd_dataBegin (nd n)))) (\<lambda>v st.
        (Inr (C_scalar (mk (if LENGTH('a) = 8 then v else betoh v))), consume n st)) st)"

text \<open>\<open>readFixed\<close> is not instantiated at strings.\<close>

definition readFixed :: "basic \<Rightarrow> nat \<Rightarrow> input \<Rightarrow> handle \<Rightarrow> cvalue act" where
  "readFixed b m S h st =
     act_then (\<lambda>st. (validate S h st, st)) (\<lambda>n st.
       if nd_raw (nd n) then readRawFixed b m S n st
       else case b of
         B_bool \<Rightarrow> toBasicType B_bool S h st
       | B_i8 \<Rightarrow> read_fixed_int S_i8 T_FixedSigned8 m S n st
       | B_i16 \<Rightarrow> read_fixed_int S_i16 T_FixedSigned16 m S n st
       | B_i32 \<Rightarrow> read_fixed_int S_i32 T_FixedSigned32 m S n st
       | B_i64 \<Rightarrow> read_fixed_int S_i64 T_FixedSigned64 m S n st
       | B_u8 \<Rightarrow> read_fixed_int S_u8 T_FixedUnsigned8 m S n st
       | B_u16 \<Rightarrow> read_fixed_int S_u16 T_FixedUnsigned16 m S n st
       | B_u32 \<Rightarrow> read_fixed_int S_u32 T_FixedUnsigned32 m S n st
       | B_u64 \<Rightarrow> read_fixed_int S_u64 T_FixedUnsigned64 m S n st
       | B_string \<Rightarrow> fail SaInvalidType ''not an arithmetic type'' st
       | _ \<Rightarrow>
           if m \<noteq> basic_size b then fail SaInvalidLength ''Invalid fixed floating-point width'' st
           else readFloating b S n st) st"

definition toArray :: "input \<Rightarrow> handle \<Rightarrow> rstate \<Rightarrow> handle sa_result" where
  "toArray S h st =
     and_then (validate S h st) (\<lambda>n.
       if nd_raw (nd n) \<or> nd_tag (nd n) \<noteq> T_Array then Inl (Err (typeError ''array'')) else Inr h)"

definition toObject :: "input \<Rightarrow> handle \<Rightarrow> rstate \<Rightarrow> handle sa_result" where
  "toObject S h st =
     and_then (validate S h st) (\<lambda>n.
       if \<not> isFramedObject h then Inl (Err (typeError ''object'')) else Inr h)"

subsection \<open>Checkpoints\<close>

record checkpoint =
  cp_state :: bool
  cp_offset :: nat
  cp_remaining :: nat
  cp_entries :: "(nat \<times> bool \<times> nat) list"

fun node_cells :: "node \<Rightarrow> nat list" where
  "node_cells (Node n es ms) =
     nd_cell n # concat (map node_cells es) @ concat (map (\<lambda>(_, _, v). node_cells v) ms)"

definition captureCheckpoint :: "node option \<Rightarrow> rstate \<Rightarrow> (nat \<times> bool \<times> nat) list" where
  "captureCheckpoint n st =
     (case n of None \<Rightarrow> []
      | Some n \<Rightarrow> map (\<lambda>c. (c, consumed (rs_cells st ! c), cell_end (rs_cells st ! c))) (node_cells n))"

definition take_checkpoint :: "handle \<Rightarrow> rstate \<Rightarrow> checkpoint" where
  "take_checkpoint h st =
     \<lparr>cp_state = h_state h, cp_offset = (if h_state h then rs_offset st else 0),
      cp_remaining = (if h_state h then rs_remaining st else 0),
      cp_entries = captureCheckpoint (h_node h) st\<rparr>"

definition restore_entry :: "(nat \<times> bool \<times> nat) \<Rightarrow> rstate \<Rightarrow> rstate" where
  "restore_entry e st =
     (let (c, b, f) = e in st\<lparr>rs_cells := (rs_cells st)[c := \<lparr>consumed = b, cell_end = f\<rparr>]\<rparr>)"

definition restore :: "checkpoint \<Rightarrow> rstate \<Rightarrow> rstate" where
  "restore cp st =
     fold restore_entry (cp_entries cp)
       (if cp_state cp then st\<lparr>rs_offset := cp_offset cp, rs_remaining := cp_remaining cp\<rparr> else st)"

end
