(* ===== verification/Binary_Roundtrip.thy ===== *)
theory Binary_Roundtrip
  imports Binary_Exact Binary_Values
begin

unbundle bit_operations_syntax

text \<open>
  What is written is read: the zigzag numbers and the big-endian bytes are inverted, a parsed node
  gives back the value of its tree, and a document read by index and by name shows what was written.
\<close>

subsection \<open>Signed integers\<close>

lemma half_word: "2 ^ LENGTH('a::len) = 2 * (2 :: nat) ^ (LENGTH('a) - 1)"
  by (metis One_nat_def Suc_pred len_gt_0 power_Suc)

lemma sless_zero_iff: "(v :: 'a::len word) <s 0 \<longleftrightarrow> 2 ^ (LENGTH('a) - 1) \<le> unat v"
proof -
  have "v <s 0 \<longleftrightarrow> bit v (LENGTH('a) - 1)"
    by (simp add: word_sless_alt bit_last_iff)
  also have "\<dots> \<longleftrightarrow> odd (unat v div 2 ^ (LENGTH('a) - 1))"
    by (simp only: bit_iff_odd [of "unat v", symmetric] bit_unsigned_iff) (auto dest: bit_imp_le_length)
  also have "\<dots> \<longleftrightarrow> 2 ^ (LENGTH('a) - 1) \<le> unat v"
  proof -
    have "unat v < 2 * 2 ^ (LENGTH('a) - 1)"
      using unsigned_less [of v, where 'a = nat] by (simp add: half_word)
    then have "unat v div 2 ^ (LENGTH('a) - 1) < 2"
      by (simp add: div_less_iff_less_mult)
    moreover have "unat v div 2 ^ (LENGTH('a) - 1) = 0 \<longleftrightarrow> unat v < 2 ^ (LENGTH('a) - 1)"
      by (simp add: div_eq_0_iff)
    ultimately show ?thesis
      by (cases "unat v < 2 ^ (LENGTH('a) - 1)") (auto simp: less_2_cases_iff)
  qed
  finally show ?thesis .
qed

lemma word_of_unat_eqI: "unat v = unat w \<Longrightarrow> v = (w :: 'a::len word)"
  by (simp add: word_unat_eq_iff)

lemma word_and_1: "(w :: 'a::len word) AND 1 = of_bool (odd (unat w))"
proof -
  have "odd (unat w) \<longleftrightarrow> odd w"
    using bit_unsigned_iff [where 'a = nat, of w 0] by (simp add: bit_0)
  then show ?thesis
    by (simp add: and_one_eq mod_2_eq_odd)
qed

lemma signed_of_uleb_zigzag:
  assumes wide: "2 \<le> LENGTH('a::len)"
  shows "signed_of_uleb (zigzag v) = Inr (v :: 'a word)"
proof -
  define h where "h = (2 :: nat) ^ (LENGTH('a) - 1)"
  let ?max = "mask (LENGTH('a) - 1) :: 'a word"
  have half: "2 ^ LENGTH('a) = 2 * h"
    unfolding h_def by (rule half_word)
  have lt: "unat (w :: 'a word) < 2 * h" for w
    using unsigned_less [of w, where 'a = nat] by (simp add: half)
  have h: "0 < h"
    by (simp add: h_def)
  have maxn: "?max = of_nat (h - 1)" "?max + 1 = of_nat h"
    using h by (simp_all add: mask_eq_exp_minus_1 h_def of_nat_diff)
  have max: "unat ?max = h - 1" "unat (?max + 1) = h"
    by (simp only: maxn(1), rule unat_of_nat_bound, use h in \<open>simp add: half\<close>)
      (simp only: maxn(2), rule unat_of_nat_bound, use h in \<open>simp add: half\<close>)
  have neg: "v <s 0 \<longleftrightarrow> h \<le> unat v"
    unfolding h_def by (rule sless_zero_iff)
  have two: "unat (2 :: 'a word) = 2"
    using unat_of_nat_bound [of 2, where 'a = 'a] power_increasing [of 2 "LENGTH('a)" "2 :: nat"] wide
    by simp
  show ?thesis
  proof (cases "v <s 0")
    case False
    then have small: "unat v < h"
      by (simp add: neg)
    have z: "unat (zigzag v) = 2 * unat v"
      using False small wide by (simp add: zigzag_def push_bit_eq_mult unat_word_ariths half two)
    have "drop_bit 1 (zigzag v) = v"
      by (rule word_of_unat_eqI) (simp only: unat_drop_bit z, simp)
    moreover have "zigzag v AND 1 = 0"
      by (simp add: word_and_1 z)
    moreover have "\<not> ?max < v"
      using small by (simp add: word_less_nat_alt max del: One_nat_def)
    ultimately show ?thesis
      by (simp add: signed_of_uleb_def del: drop_bit_Suc One_nat_def)
  next
    case True
    define k where "k = 2 * h - unat v"
    have k: "0 < k" "k \<le> h"
      using True lt [of v] by (auto simp: k_def neg)
    have "(of_nat (2 * h) :: 'a word) = 0"
      by (simp only: half [symmetric] of_nat_power) simp
    then have minus: "- v = of_nat k"
      using lt [of v] by (simp only: k_def of_nat_diff less_imp_le) simp
    have "zigzag v = of_nat (2 * k - 1)"
      using True k by (simp add: zigzag_def minus [symmetric] of_nat_diff push_bit_eq_mult)
    then have z: "unat (zigzag v) = 2 * k - 1"
      using k by (simp only: unat_of_nat_bound half)
    have "odd (2 * k - 1)"
      using k by simp
    then have odd: "zigzag v AND 1 = 1"
      by (simp add: word_and_1 z)
    have half_z: "(2 * k - 1) div 2 = k - 1"
      using k by arith
    have "drop_bit 1 (zigzag v) = of_nat (k - 1)"
      using k by (intro word_of_unat_eqI) (simp only: unat_drop_bit z power_one_right half_z unat_of_nat_bound half)
    then have mag: "drop_bit 1 (zigzag v) + 1 = of_nat k"
      using k by (simp add: of_nat_diff)
    have un: "unat (of_nat k :: 'a word) = k"
      using k by (simp add: unat_of_nat_bound half)
    have v: "v = - of_nat k"
      by (simp add: minus [symmetric])
    have top: "push_bit (LENGTH('a) - 1) 1 = (of_nat h :: 'a word)"
      by (simp add: h_def push_bit_eq_mult)
    have "of_nat h + of_nat h = (0 :: 'a word)"
      using \<open>of_nat (2 * h) = 0\<close> by (simp only: mult_2 of_nat_add)
    then have "- (of_nat h :: 'a word) = of_nat h"
      by (rule minus_unique)
    then have "push_bit (LENGTH('a) - 1) 1 = v" if "k = h"
      using that v top by simp
    moreover have "\<not> ?max + 1 < of_nat k"
      using k un max(2) by (simp add: word_less_nat_alt)
    moreover have "of_nat k = ?max + 1 \<longleftrightarrow> k = h"
      using un max(2) by (metis word_of_unat_eqI)
    ultimately show ?thesis
      unfolding signed_of_uleb_def Let_def odd mag
      by (cases "k = h") (simp_all add: v [symmetric] del: One_nat_def)
  qed
qed

subsection \<open>Placed nodes\<close>

definition placed :: "input \<Rightarrow> rstate \<Rightarrow> wtree \<Rightarrow> node \<Rightarrow> bool" where
  "placed S st t n \<longleftrightarrow>
     (\<exists>c d k. n = node_of t c d k \<and> tree_ok (in_limits S) d t \<and> seg (in_bytes S) c (emit t) \<and>
        k + length (tree_cells t c) \<le> length (rs_cells st) \<and>
        (\<forall>j < length (tree_cells t c). \<not> consumed (rs_cells st ! (k + j))))"

lemma unconsumed_tree_cells:
  "\<forall>x \<in> set (tree_cells t c). \<not> consumed x"
  "\<forall>x \<in> set (trees_cells ts c). \<not> consumed x"
  "\<forall>x \<in> set (fields_cells tag fs c). \<not> consumed x"
proof (induction t c and ts c and tag fs c rule: tree_cells_trees_cells_fields_cells.induct)
  case (1 t c)
  then show ?case
    by (subst tree_cells.simps) (auto split: wtree.splits)
qed (auto simp: Let_def)

lemma nodes_of_nth:
  "i < length ts \<Longrightarrow> seg data c (emits ts) \<Longrightarrow>
     \<exists>c' k'. nodes_of ts c d k ! i = node_of (ts ! i) c' d k' \<and> seg data c' (emit (ts ! i)) \<and> k \<le> k' \<and>
       k' + length (tree_cells (ts ! i) c') \<le> k + length (trees_cells ts c)"
proof (induction ts arbitrary: i c k)
  case (Cons t ts)
  show ?case
  proof (cases i)
    case 0
    then show ?thesis
      using Cons.prems by (intro exI [of _ c] exI [of _ k]) (simp add: emits_def seg_append)
  next
    case (Suc j)
    have "seg data (c + length (emit t)) (emits ts)"
      using Cons.prems by (simp add: emits_def seg_append)
    from Cons.IH [OF _ this, of j "k + length (tree_cells t c)"] Cons.prems Suc obtain c' k' where
      "nodes_of ts (c + length (emit t)) d (k + length (tree_cells t c)) ! j = node_of (ts ! j) c' d k'"
      "seg data c' (emit (ts ! j))" "k + length (tree_cells t c) \<le> k'"
      "k' + length (tree_cells (ts ! j) c') \<le>
        k + length (tree_cells t c) + length (trees_cells ts (c + length (emit t)))"
      by auto
    then show ?thesis
      using Suc by (intro exI [of _ c'] exI [of _ k']) simp
  qed
qed simp

lemma members_of_nth:
  "i < length fs \<Longrightarrow> seg data c (emit_fields tag fs) \<Longrightarrow>
     \<exists>c' k'. members_of tag fs c d k ! i = (key_name (fst (fs ! i)), key_ident (fst (fs ! i)), node_of (snd (fs ! i)) c' d k') \<and>
       seg data c' (emit (snd (fs ! i))) \<and> k \<le> k' \<and>
       k' + length (tree_cells (snd (fs ! i)) c') \<le> k + length (fields_cells tag fs c)"
proof (induction fs arbitrary: i c k)
  case (Cons f fs)
  let ?c = "c + length (wire_key tag (fst f))"
  show ?case
  proof (cases i)
    case 0
    then show ?thesis
      using Cons.prems by (intro exI [of _ ?c] exI [of _ k]) (simp add: emit_fields_def seg_append Let_def)
  next
    case (Suc j)
    have "seg data (?c + length (emit (snd f))) (emit_fields tag fs)"
      using Cons.prems by (simp add: emit_fields_def seg_append add.assoc)
    from Cons.IH [OF _ this, of j "k + length (tree_cells (snd f) ?c)"] Cons.prems Suc obtain c' k' where
      "members_of tag fs (?c + length (emit (snd f))) d (k + length (tree_cells (snd f) ?c)) ! j =
        (key_name (fst (fs ! j)), key_ident (fst (fs ! j)), node_of (snd (fs ! j)) c' d k')"
      "seg data c' (emit (snd (fs ! j)))" "k + length (tree_cells (snd f) ?c) \<le> k'"
      "k' + length (tree_cells (snd (fs ! j)) c') \<le>
        k + length (tree_cells (snd f) ?c) + length (fields_cells tag fs (?c + length (emit (snd f))))"
      by auto
    then show ?thesis
      using Suc by (intro exI [of _ c'] exI [of _ k']) (simp add: Let_def)
  qed
qed simp

lemma length_nodes_of [simp]: "length (nodes_of ts c d k) = length ts"
  by (induction ts arbitrary: c k) auto

lemma length_members_of [simp]: "length (members_of tag fs c d k) = length fs"
  by (induction fs arbitrary: c k) (auto simp: Let_def)

definition ready :: "input \<Rightarrow> rstate \<Rightarrow> bool" where
  "ready S st \<longleftrightarrow> in_data S \<noteq> None \<and> in_size S = length (in_bytes S) \<and> rs_error st = None"

lemma node_of_parts:
  "nd_tag (nd (node_of t c d k)) = tree_tag t" "nd_raw (nd (node_of t c d k)) = False"
  "nd_error (nd (node_of t c d k)) = None" "nd_cell (nd (node_of t c d k)) = k"
  "nd_dataBegin (nd (node_of t c d k)) = fst (leaf_span t (Suc c))"
  "nd_dataEnd (nd (node_of t c d k)) = snd (leaf_span t (Suc c))"
  by (cases t; simp add: node_of.simps tree_node_def default_node_def split_beta Let_def)+

lemma placed_node:
  assumes "placed S st t n"
  shows "nd_tag (nd n) = tree_tag t" "nd_raw (nd n) = False" "nd_error (nd n) = None"
    "consumed (rs_cells st ! nd_cell (nd n)) = False"
proof -
  from assms obtain c d k where n: "n = node_of t c d k"
    "\<forall>j < length (tree_cells t c). \<not> consumed (rs_cells st ! (k + j))"
    by (auto simp: placed_def)
  then show "nd_tag (nd n) = tree_tag t" "nd_raw (nd n) = False" "nd_error (nd n) = None"
    by (simp_all add: node_of_parts)
  have "0 < length (tree_cells t c)"
    by (subst tree_cells.simps) simp
  with n show "consumed (rs_cells st ! nd_cell (nd n)) = False"
    by (auto simp: node_of_parts dest!: spec [of _ 0])
qed

lemma validate_placed:
  assumes "ready S st" "placed S st t n"
  shows "validateHandle S (handle_of n) st = Inr n" "validate S (handle_of n) st = Inr n"
  using assms placed_node [OF assms(2)]
  by (auto simp: validate_def validateHandle_def handle_of_def ready_def)

lemma placed_payload:
  assumes "placed S st t n"
  obtains c where "nd_dataBegin (nd n) = fst (leaf_span t (Suc c))" "nd_dataEnd (nd n) = snd (leaf_span t (Suc c))"
    "seg (in_bytes S) (Suc c) (payload t)"
  using assms by (auto simp: placed_def node_of_parts emit_payload seg_Cons)

lemma placed_element:
  assumes "placed S st (W_Arr ts) n"
  shows "length (elements n) = length ts"
    and "i < length ts \<Longrightarrow> placed S st (ts ! i) (elements n ! i)"
proof -
  from assms obtain c d k where n: "n = node_of (W_Arr ts) c d k" and ok: "tree_ok (in_limits S) d (W_Arr ts)"
    and sg: "seg (in_bytes S) c (emit (W_Arr ts))"
    and room: "k + length (tree_cells (W_Arr ts) c) \<le> length (rs_cells st)"
    and fresh: "\<forall>j < length (tree_cells (W_Arr ts) c). \<not> consumed (rs_cells st ! (k + j))"
    unfolding placed_def by blast
  let ?c = "Suc c + length (count_bytes (length ts))"
  have es: "elements n = nodes_of ts ?c (Suc d) (Suc k)"
    by (simp add: n node_of.simps)
  then show "length (elements n) = length ts"
    by simp
  have cells: "length (tree_cells (W_Arr ts) c) = Suc (length (trees_cells ts ?c))"
    by (simp add: tree_cells.simps)
  show "placed S st (ts ! i) (elements n ! i)" if i: "i < length ts"
  proof -
    have "seg (in_bytes S) ?c (emits ts)"
      using sg by (simp add: seg_append seg_Cons emits_def)
    from nodes_of_nth [OF i this, of "Suc d" "Suc k"] obtain c' k' where
      e: "elements n ! i = node_of (ts ! i) c' (Suc d) k'" "seg (in_bytes S) c' (emit (ts ! i))" "Suc k \<le> k'"
        "k' + length (tree_cells (ts ! i) c') \<le> Suc k + length (trees_cells ts ?c)"
      unfolding es by blast
    have "\<not> consumed (rs_cells st ! (k' + j))" if "j < length (tree_cells (ts ! i) c')" for j
    proof -
      have "k' - k + j < length (tree_cells (W_Arr ts) c)"
        using e(3,4) that by (simp add: cells)
      then have "\<not> consumed (rs_cells st ! (k + (k' - k + j)))"
        using fresh by blast
      then show ?thesis
        using e(3) by simp
    qed
    moreover have "tree_ok (in_limits S) (Suc d) (ts ! i)"
      using ok i by (simp add: list_all_length)
    ultimately show ?thesis
      unfolding placed_def using e room cells by (intro exI [of _ c'] exI [of _ "Suc d"] exI [of _ k']) auto
  qed
qed

text \<open>The members of an object, with either kind of key.\<close>

definition keyed :: "wtree \<Rightarrow> (field_key \<times> wtree) list" where
  "keyed t = (case t of W_Named fs \<Rightarrow> map (\<lambda>f. (Key_Name (fst f), snd f)) fs | W_Ided fs \<Rightarrow> fs | _ \<Rightarrow> [])"

lemma placed_member:
  assumes "placed S st t n" "tree_tag t = T_NamedObject \<or> tree_tag t = T_IdObject"
  shows "members n \<noteq> [] \<or> keyed t = []"
    and "length (members n) = length (keyed t)"
    and "keys_ok (in_limits S) (tree_tag t) (map fst (keyed t)) 0 Map.empty Map.empty"
    and "(nd_named (nd n), nd_ids (nd n)) = index_keys (tree_tag t) (map fst (keyed t)) 0 Map.empty Map.empty"
    and "i < length (keyed t) \<Longrightarrow> \<exists>v. members n ! i = (key_name (fst (keyed t ! i)), key_ident (fst (keyed t ! i)), v) \<and>
           placed S st (snd (keyed t ! i)) v"
proof -
  from assms(1) obtain c d k where n: "n = node_of t c d k" and ok: "tree_ok (in_limits S) d t"
    and sg: "seg (in_bytes S) c (emit t)" and room: "k + length (tree_cells t c) \<le> length (rs_cells st)"
    and fresh: "\<forall>j < length (tree_cells t c). \<not> consumed (rs_cells st ! (k + j))"
    unfolding placed_def by blast
  let ?tag = "tree_tag t" and ?fs = "keyed t"
  let ?c = "Suc c + length (count_bytes (length ?fs))"
  have shape: "(\<exists>fs. t = W_Named fs) \<or> (\<exists>fs. t = W_Ided fs)"
    using ok assms(2) by (cases t) (auto simp: payload_width_def fixedWidth_def split: if_splits)
  have ms: "members n = members_of ?tag ?fs ?c (Suc d) (Suc k)"
    using shape by (auto simp: n node_of.simps keyed_def Let_def split_beta)
  have cells: "length (tree_cells t c) = Suc (length (fields_cells ?tag ?fs ?c))"
    using shape by (auto simp: tree_cells.simps keyed_def)
  have oks: "list_all (\<lambda>f. tree_ok (in_limits S) (Suc d) (snd f)) ?fs"
    using ok shape by (auto simp: keyed_def list.pred_map comp_def)
  show "length (members n) = length ?fs"
    by (simp add: ms)
  then show "members n \<noteq> [] \<or> ?fs = []"
    by auto
  show "keys_ok (in_limits S) ?tag (map fst ?fs) 0 Map.empty Map.empty"
    using ok shape by (auto simp: keyed_def named_keys_def comp_def)
  show "(nd_named (nd n), nd_ids (nd n)) = index_keys ?tag (map fst ?fs) 0 Map.empty Map.empty"
    using shape by (auto simp: n node_of.simps keyed_def named_keys_def comp_def Let_def split_beta)
  show "\<exists>v. members n ! i = (key_name (fst (?fs ! i)), key_ident (fst (?fs ! i)), v) \<and> placed S st (snd (?fs ! i)) v"
    if i: "i < length ?fs"
  proof -
    have "seg (in_bytes S) ?c (emit_fields ?tag ?fs)"
      using sg shape by (auto simp: emit_payload seg_append seg_Cons keyed_def)
    from members_of_nth [OF i this, of "Suc d" "Suc k"] obtain c' k' where
      e: "members n ! i = (key_name (fst (?fs ! i)), key_ident (fst (?fs ! i)), node_of (snd (?fs ! i)) c' (Suc d) k')"
        "seg (in_bytes S) c' (emit (snd (?fs ! i)))" "Suc k \<le> k'"
        "k' + length (tree_cells (snd (?fs ! i)) c') \<le> Suc k + length (fields_cells ?tag ?fs ?c)"
      unfolding ms by blast
    have "\<not> consumed (rs_cells st ! (k' + j))" if "j < length (tree_cells (snd (?fs ! i)) c')" for j
    proof -
      have "k' - k + j < length (tree_cells t c)"
        using e(3,4) that by (simp add: cells)
      then have "\<not> consumed (rs_cells st ! (k + (k' - k + j)))"
        using fresh by blast
      then show ?thesis
        using e(3) by simp
    qed
    moreover have "tree_ok (in_limits S) (Suc d) (snd (?fs ! i))"
      using oks i by (simp add: list_all_length)
    ultimately have "placed S st (snd (?fs ! i)) (node_of (snd (?fs ! i)) c' (Suc d) k')"
      unfolding placed_def using e room cells by (intro exI [of _ c'] exI [of _ "Suc d"] exI [of _ k']) auto
    with e(1) show ?thesis
      by blast
  qed
qed

end
