(* ===== verification/Binary_Access.thy ===== *)
theory Binary_Access
  imports Binary_Roundtrip
begin

unbundle bit_operations_syntax

text \<open>
  Reading back what was written: the indices of a parsed object find each key, a value is read as
  it was written, and a walk through a document by index and by field name ends at the node of the
  part it names.
\<close>

subsection \<open>The indices of an object\<close>

lemma index_emplace_keep: "m k = Some i \<Longrightarrow> index_emplace m k' v k = Some i"
  by (auto simp: index_emplace_def split: option.splits)

lemma index_emplace_new: "m k = None \<Longrightarrow> index_emplace m k v k = Some v"
  by (auto simp: index_emplace_def split: option.splits)

lemma index_keys_keep:
  "named n = Some i \<Longrightarrow> fst (index_keys tag ks ix named ids) n = Some i"
  "ids h = Some i \<Longrightarrow> snd (index_keys tag ks ix named ids) h = Some i"
  by (induction ks arbitrary: ix named ids) (auto simp: index_member_def Let_def index_emplace_keep)

lemma index_keys_find:
  "keys_ok L tag ks ix named ids \<Longrightarrow> i < length ks \<Longrightarrow> ks ! i = Key_Name n \<Longrightarrow> tag = T_NamedObject \<or> n \<noteq> [] \<Longrightarrow>
     fst (index_keys tag ks ix named ids) n = Some (ix + i)"
  "keys_ok L tag ks ix named ids \<Longrightarrow> i < length ks \<Longrightarrow> ks ! i = Key_Hash h \<Longrightarrow>
     snd (index_keys tag ks ix named ids) h = Some (ix + i)"
proof (induction ks arbitrary: ix named ids i)
  case (Cons k ks)
  {
    case 1
    then show ?case
    proof (cases i)
      case 0
      with 1 show ?thesis
        by (auto simp: index_member_def Let_def key_ok_def index_emplace_new domIff intro!: index_keys_keep)
    next
      case (Suc j)
      with 1 show ?thesis
        by (auto simp: Let_def split_beta Cons.IH(1))
    qed
  next
    case 2
    then show ?case
    proof (cases i)
      case 0
      with 2 show ?thesis
        by (auto simp: index_member_def Let_def key_ok_def index_emplace_new domIff intro!: index_keys_keep)
    next
      case (Suc j)
      with 2 show ?thesis
        by (auto simp: Let_def split_beta Cons.IH(2))
    qed
  }
qed simp_all

subsection \<open>Values\<close>

fun basic_of :: "scalar \<Rightarrow> basic" where
  "basic_of (S_bool _) = B_bool"
| "basic_of (S_i8 _) = B_i8"
| "basic_of (S_i16 _) = B_i16"
| "basic_of (S_i32 _) = B_i32"
| "basic_of (S_i64 _) = B_i64"
| "basic_of (S_u8 _) = B_u8"
| "basic_of (S_u16 _) = B_u16"
| "basic_of (S_u32 _) = B_u32"
| "basic_of (S_u64 _) = B_u64"
| "basic_of (S_f32 _) = B_f32"
| "basic_of (S_f64 _) = B_f64"

definition basic_of_value :: "cvalue \<Rightarrow> basic" where
  "basic_of_value v = (case v of C_string _ \<Rightarrow> B_string | C_scalar s \<Rightarrow> basic_of s)"

definition value_cost :: "cvalue \<Rightarrow> nat" where
  "value_cost v = (case v of C_string s \<Rightarrow> length s | C_scalar _ \<Rightarrow> 0)"

lemma load_seg:
  assumes "seg (in_bytes S) pos bs" "length bs = LENGTH('a) div 8"
  shows "load S pos = Inr (mem_value bs :: 'a::len word)"
  using assms by (simp add: load_def seg_span_sub)

lemma length_mem_bytes [simp]: "length (mem_bytes (v :: 'a::len word)) = LENGTH('a) div 8"
  by (simp add: mem_bytes_def)

lemma mem_value_mem_bytes:
  "LENGTH('a) div 8 * 8 = LENGTH('a) \<Longrightarrow> mem_value (mem_bytes v) = (v :: 'a::len word)"
  by (simp add: mem_value_def mem_bytes_def be_value_be_bytes)

lemma betoh_htobe:
  assumes "LENGTH('a) div 8 * 8 = LENGTH('a)"
  shows "betoh (htobe v) = (v :: 'a::len word)"
proof -
  have "betoh (mem_value (mem_bytes (htobe v))) = (be_value (mem_bytes (htobe v)) :: 'a word)"
    using assms by (intro betoh_mem_value) simp_all
  then have "betoh (htobe v) = be_value (mem_bytes (htobe v))"
    by (simp only: mem_value_mem_bytes [OF assms])
  then show ?thesis
    by (simp only: htobe_bytes [OF assms] be_value_be_bytes [OF assms])
qed

lemma read_signed_value:
  assumes "placed S st (W_SInt (ucast (zigzag (v :: 'a::len word)))) n"
    and "8 \<le> LENGTH('a)" "LENGTH('a) \<le> 64"
  shows "read_signed mk S n st = (Inr (C_scalar (mk v)), consume n st)"
proof -
  from placed_payload [OF assms(1)] obtain c where c:
    "nd_dataBegin (nd n) = Suc c" "nd_dataEnd (nd n) = Suc c + length (write_uleb (zigzag v))"
    "seg (in_bytes S) (Suc c) (write_uleb (zigzag v))"
    using assms(2,3) by (auto simp: write_uleb_ucast)
  have "read_uleb (in_bytes S) (nd_dataBegin (nd n)) (nd_dataEnd (nd n)) = Inr (zigzag v, nd_dataEnd (nd n))"
    using c assms(2) by (subst read_uleb_iff) (auto dest: seg_le)
  then show ?thesis
    using placed_node [OF assms(1)] assms(2) by (simp add: read_signed_def signed_of_uleb_zigzag)
qed

lemma read_unsigned_value:
  assumes "placed S st (W_UInt (ucast (v :: 'a::len word))) n" and "8 \<le> LENGTH('a)" "LENGTH('a) \<le> 64"
  shows "read_unsigned mk S n st = (Inr (C_scalar (mk v)), consume n st)"
proof -
  from placed_payload [OF assms(1)] obtain c where c:
    "nd_dataBegin (nd n) = Suc c" "nd_dataEnd (nd n) = Suc c + length (write_uleb v)"
    "seg (in_bytes S) (Suc c) (write_uleb v)"
    using assms(2,3) by (auto simp: write_uleb_ucast)
  have "read_uleb (in_bytes S) (nd_dataBegin (nd n)) (nd_dataEnd (nd n)) = Inr (v, nd_dataEnd (nd n))"
    using c assms(2) by (subst read_uleb_iff) (auto dest: seg_le)
  then show ?thesis
    using placed_node [OF assms(1)] by (simp add: read_unsigned_def)
qed

lemma read_float_value:
  assumes "placed S st (W_Fixed tag (mem_bytes (htobe v))) n" and "LENGTH('a) div 8 * 8 = LENGTH('a::len)"
  shows "read_float mk tag kind S n st = (Inr (C_scalar (mk (v :: 'a word))), consume n st)"
proof -
  from placed_payload [OF assms(1)] obtain c where c:
    "nd_dataBegin (nd n) = Suc c" "seg (in_bytes S) (Suc c) (mem_bytes (htobe v))"
    by auto
  show ?thesis
    using placed_node [OF assms(1)] load_seg [OF c(2), where 'a = 'a] assms(2)
    by (simp add: read_float_def c(1) betoh_htobe mem_value_mem_bytes)
qed

lemma read_fixed_int_value:
  assumes "placed S st (W_Fixed tag bs) n" and "LENGTH('a) div 8 * 8 = LENGTH('a::len)"
    and "bs = (if LENGTH('a) = 8 then mem_bytes v else mem_bytes (htobe v))"
  shows "read_fixed_int mk tag (LENGTH('a) div 8) S n st = (Inr (C_scalar (mk (v :: 'a word))), consume n st)"
proof -
  from placed_payload [OF assms(1)] obtain c where c: "nd_dataBegin (nd n) = Suc c" "seg (in_bytes S) (Suc c) bs"
    by auto
  have "length bs = LENGTH('a) div 8"
    by (simp add: assms(3))
  then show ?thesis
    using placed_node [OF assms(1)] load_seg [OF c(2), where 'a = 'a] assms(2)
    by (simp add: read_fixed_int_def c(1) betoh_htobe mem_value_mem_bytes assms(3))
qed

lemma validate_then:
  "validate S h st = Inr n \<Longrightarrow> act_then (\<lambda>st. (validate S h st, st)) f st = f n st"
  "validate S h st = Inl e \<Longrightarrow> act_then (\<lambda>st. (validate S h st, st)) f st = (Inl e, st)"
  by (simp_all add: act_then_def)

lemma toBasicType_value:
  assumes "ready S st" "placed S st (tree_of (D_value v)) n" "value_cost v \<le> rs_remaining st"
  shows "toBasicType (basic_of_value v) S (handle_of n) st =
    (Inr v, consume n (st\<lparr>rs_remaining := rs_remaining st - value_cost v\<rparr>))"
proof (cases v)
  case (C_string s)
  then have p: "placed S st (W_Str s) n"
    using assms(2) by simp
  from placed_payload [OF p] obtain c where c:
    "nd_dataBegin (nd n) = Suc c + length (count_bytes (length s))"
    "nd_dataEnd (nd n) = Suc c + length (count_bytes (length s)) + length s"
    "seg (in_bytes S) (Suc c + length (count_bytes (length s))) s"
    by (auto simp: seg_append)
  then have "span_sub (in_bytes S) (nd_dataBegin (nd n)) (length s) = (Inr s :: bytes sa_result)"
    by (simp add: seg_span_sub)
  moreover have "act_then (charge (length s)) f st = f () (st\<lparr>rs_remaining := rs_remaining st - length s\<rparr>)" for f :: "unit \<Rightarrow> cvalue act"
    using assms(3) C_string by (simp add: act_then_def charge_def value_cost_def)
  ultimately show ?thesis
    using validate_placed [OF assms(1,2)] placed_node [OF p] c C_string
    by (simp add: toBasicType_def basic_of_value_def value_cost_def validate_then Let_def)
next
  case (C_scalar s)
  then have p: "placed S st (scalar_tree s) n"
    using assms(2) by simp
  note [simp] = toBasicType_def basic_of_value_def value_cost_def validate_then
    validate_placed(2) [OF assms(1,2)] placed_node(1,2) [OF p] C_scalar
  show ?thesis
  proof (cases s)
    case (S_f32 x)
    then show ?thesis
      using p by (simp add: readFloating_def read_float_value)
  next
    case (S_f64 x)
    then show ?thesis
      using p by (simp add: readFloating_def read_float_value)
  next
    case (S_i64 x)
    then show ?thesis
      using p read_signed_value [of S st x n S_i64] by simp
  next
    case (S_u64 x)
    then show ?thesis
      using p read_unsigned_value [of S st x n S_u64] by simp
  qed (use p in \<open>simp_all add: read_signed_value read_unsigned_value\<close>)
qed

lemma readFixed_value:
  assumes "ready S st" "placed S st (tree_of (D_fixed s)) n"
  shows "readFixed (basic_of s) (scalar_size s) S (handle_of n) st = (Inr (C_scalar s), consume n st)"
proof -
  have p: "placed S st (fixed_tree s) n"
    using assms(2) by simp
  note [simp] = readFixed_def toBasicType_def validate_then validate_placed(2) [OF assms]
    placed_node(1,2) [OF p] fixed_tree_def
  show ?thesis
  proof (cases s)
    case (S_f32 x)
    then show ?thesis
      using p by (simp add: readFloating_def read_float_value)
  next
    case (S_f64 x)
    then show ?thesis
      using p by (simp add: readFloating_def read_float_value)
  next
    case (S_i8 x)
    then show ?thesis
      using p read_fixed_int_value [of S st T_FixedSigned8 "mem_bytes x" n x S_i8] by simp
  next
    case (S_u8 x)
    then show ?thesis
      using p read_fixed_int_value [of S st T_FixedUnsigned8 "mem_bytes x" n x S_u8] by simp
  next
    case (S_i16 x)
    then show ?thesis
      using p read_fixed_int_value [of S st T_FixedSigned16 "mem_bytes (htobe x)" n x S_i16] by simp
  next
    case (S_u16 x)
    then show ?thesis
      using p read_fixed_int_value [of S st T_FixedUnsigned16 "mem_bytes (htobe x)" n x S_u16] by simp
  next
    case (S_i32 x)
    then show ?thesis
      using p read_fixed_int_value [of S st T_FixedSigned32 "mem_bytes (htobe x)" n x S_i32] by simp
  next
    case (S_u32 x)
    then show ?thesis
      using p read_fixed_int_value [of S st T_FixedUnsigned32 "mem_bytes (htobe x)" n x S_u32] by simp
  next
    case (S_i64 x)
    then show ?thesis
      using p read_fixed_int_value [of S st T_FixedSigned64 "mem_bytes (htobe x)" n x S_i64] by simp
  next
    case (S_u64 x)
    then show ?thesis
      using p read_fixed_int_value [of S st T_FixedUnsigned64 "mem_bytes (htobe x)" n x S_u64] by simp
  qed simp
qed

end
