(* ===== verification/Binary_Facts.thy ===== *)
theory Binary_Facts
  imports Binary_Access
begin

unbundle bit_operations_syntax

text \<open>
  The properties of the binary format across its writer and its reader: exact parsing, the round
  trip of documents and of raw records, access within the input, single reads and checkpoints.
\<close>

subsection \<open>Walking a document\<close>

datatype step = At nat | Field bytes

fun doc_at :: "doc \<Rightarrow> step list \<Rightarrow> doc option" where
  "doc_at d [] = Some d"
| "doc_at (D_array ds) (At i # p) = (if i < length ds then doc_at (ds ! i) p else None)"
| "doc_at (D_object fs) (Field n # p) = (case map_of fs n of Some d \<Rightarrow> doc_at d p | None \<Rightarrow> None)"
| "doc_at (D_idobject fs) (Field n # p) = (case map_of fs n of Some d \<Rightarrow> doc_at d p | None \<Rightarrow> None)"
| "doc_at _ _ = None"

text \<open>The calls of a client that follows the path.\<close>

fun walk :: "input \<Rightarrow> step list \<Rightarrow> handle \<Rightarrow> handle act" where
  "walk S [] h st = (Inr h, st)"
| "walk S (At i # p) h st =
     act_then (act_of (toArray S h st)) (\<lambda>a. act_then (arrayElement S a i) (walk S p)) st"
| "walk S (Field n # p) h st =
     act_then (act_of (toObject S h st)) (\<lambda>ob st. act_then (act_of (objectField S ob n st)) (walk S p) st) st"

text \<open>A reflected object has no field with the empty name.\<close>

fun names_ok :: "doc \<Rightarrow> bool" where
  "names_ok (D_array ds) = list_all names_ok ds"
| "names_ok (D_object fs) = list_all (\<lambda>f. names_ok (snd f)) fs"
| "names_ok (D_idobject fs) \<longleftrightarrow> [] \<notin> fst ` set fs \<and> list_all (\<lambda>f. names_ok (snd f)) fs"
| "names_ok _ = True"

lemma ready_after [simp]: "ready S (after st m cs) = ready S st"
  by (simp add: ready_def)

lemma toArray_placed:
  "ready S st \<Longrightarrow> placed S st (W_Arr ts) n \<Longrightarrow> toArray S (handle_of n) st = Inr (handle_of n)"
  using placed_node [of S st "W_Arr ts" n] by (simp add: toArray_def validate_placed)

lemma arrayElement_placed:
  assumes "ready S st" "placed S st (W_Arr ts) n" "i < length ts"
  shows "arrayElement S (handle_of n) i st = (Inr (handle_of (elements n ! i)), st)"
  using assms placed_node [OF assms(2)] placed_element(1) [OF assms(2)]
  by (simp add: arrayElement_def validate_placed byte_at_inside)

lemma toObject_placed:
  "ready S st \<Longrightarrow> placed S st t n \<Longrightarrow> tree_tag t = T_NamedObject \<or> tree_tag t = T_IdObject \<Longrightarrow>
     toObject S (handle_of n) st = Inr (handle_of n)"
  using placed_node [of S st t n]
  by (auto simp: toObject_def validate_placed isFramedObject_def) (simp_all add: handle_of_def)

lemma member_at_found:
  assumes "index key = Some i" "i < length (members n)" "members n ! i = (a, b, v)"
  shows "member_at n key index name = Inr (handle_of v)"
  using assms by (simp add: member_at_def byte_at_inside)

lemma objectField_named:
  assumes "ready S st" "placed S st (W_Named fs) n" "i < length fs"
  shows "\<exists>v. objectField S (handle_of n) (fst (fs ! i)) st = Inr (handle_of v) \<and> placed S st (snd (fs ! i)) v"
proof -
  let ?t = "W_Named fs"
  note m = placed_member [OF assms(2), simplified]
  let ?ks = "map fst (keyed ?t)"
  have len: "length (keyed ?t) = length fs" "keyed ?t ! i = (Key_Name (fst (fs ! i)), snd (fs ! i))"
    using assms(3) by (simp_all add: keyed_def)
  obtain v where v: "members n ! i = (fst (fs ! i), 0, v)" "placed S st (snd (fs ! i)) v"
    using m(5) [of i] len assms(3) by auto
  have "nd_named (nd n) (fst (fs ! i)) = Some i"
    using index_keys_find(1) [OF m(3), of i "fst (fs ! i)"] m(4) [symmetric] len assms(3) by simp
  then have "member_at n (fst (fs ! i)) (nd_named (nd n)) (fst (fs ! i)) = Inr (handle_of v)"
    using v m(2) len assms(3) by (intro member_at_found) auto
  then have "objectField S (handle_of n) (fst (fs ! i)) st = Inr (handle_of v)"
    using placed_node [OF assms(2)] assms by (simp add: objectField_def validate_placed)
  then show ?thesis
    using v(2) by blast
qed

lemma objectField_ided:
  assumes "ready S st" "placed S st (W_Ided (map (\<lambda>f. (key_of (fst f), tr (snd f))) fs)) n" "i < length fs"
    and "fst (fs ! i) \<noteq> []"
  shows "\<exists>v. objectField S (handle_of n) (fst (fs ! i)) st = Inr (handle_of v) \<and> placed S st (tr (snd (fs ! i))) v"
proof -
  let ?t = "W_Ided (map (\<lambda>f. (key_of (fst f), tr (snd f))) fs)" and ?name = "fst (fs ! i)"
  note m = placed_member [OF assms(2), simplified]
  have len: "length (keyed ?t) = length fs" "keyed ?t ! i = (key_of ?name, tr (snd (fs ! i)))"
    using assms(3) by (simp_all add: keyed_def)
  obtain v where v: "members n ! i = (key_name (key_of ?name), key_ident (key_of ?name), v)"
      "placed S st (tr (snd (fs ! i))) v"
    using m(5) [of i] len assms(3) by auto
  have "if useHashedFieldId ?name then nd_ids (nd n) (fieldId ?name) = Some i else nd_named (nd n) ?name = Some i"
    using index_keys_find(1) [OF m(3), of i ?name] index_keys_find(2) [OF m(3), of i "fieldId ?name"]
      m(4) [symmetric] len assms(3,4) by (simp add: key_of_def)
  then have "objectField S (handle_of n) ?name st = Inr (handle_of v)"
    using placed_node [OF assms(2)] assms v m(2) len
    by (simp add: objectField_def validate_placed member_at_found split: if_splits)
  then show ?thesis
    using v(2) by blast
qed

lemma walk_placed:
  assumes "ready S st"
  shows "placed S st (tree_of d) n \<Longrightarrow> names_ok d \<Longrightarrow> doc_at d p = Some d' \<Longrightarrow>
    \<exists>n'. walk S p (handle_of n) st = (Inr (handle_of n'), st) \<and> placed S st (tree_of d') n'"
proof (induction d p arbitrary: n rule: doc_at.induct)
  case (2 ds i p)
  then have i: "i < length ds" and at: "doc_at (ds ! i) p = Some d'" and arr: "placed S st (W_Arr (map tree_of ds)) n"
    by (auto split: if_splits)
  have "placed S st (tree_of (ds ! i)) (elements n ! i)"
    using placed_element(2) [OF arr, of i] i by simp
  moreover have "names_ok (ds ! i)"
    using "2.prems"(2) i by (simp add: list_all_length)
  ultimately show ?case
    using "2.IH" [OF i _ _ at] i
    by (simp add: toArray_placed [OF assms arr] arrayElement_placed [OF assms arr] act_then_step)
next
  case (3 fs m p)
  then obtain d where d: "map_of fs m = Some d" "doc_at d p = Some d'"
    by (auto split: option.splits)
  then obtain i where i: "i < length fs" "fs ! i = (m, d)"
    by (metis in_set_conv_nth map_of_SomeD)
  have obj: "placed S st (W_Named (map (\<lambda>f. (fst f, tree_of (snd f))) fs)) n"
    using "3.prems" by simp
  obtain v where v: "objectField S (handle_of n) m st = Inr (handle_of v)" "placed S st (tree_of d) v"
    using objectField_named [OF assms obj, of i] i by auto
  have "names_ok d"
    using "3.prems"(2) i by (auto simp: list_all_length)
  then show ?case
    using "3.IH" [OF d(1) v(2) _ d(2)] v by (simp add: toObject_placed [OF assms obj])
next
  case (4 fs m p)
  then obtain d where d: "map_of fs m = Some d" "doc_at d p = Some d'"
    by (auto split: option.splits)
  then obtain i where i: "i < length fs" "fs ! i = (m, d)"
    by (metis in_set_conv_nth map_of_SomeD)
  have obj: "placed S st (W_Ided (map (\<lambda>f. (key_of (fst f), tree_of (snd f))) fs)) n"
    using "4.prems" by simp
  have "m \<noteq> []"
    using "4.prems"(2) i by (metis fst_conv image_eqI names_ok.simps(3) nth_mem)
  then obtain v where v: "objectField S (handle_of n) m st = Inr (handle_of v)" "placed S st (tree_of d) v"
    using objectField_ided [OF assms obj, of i] i by auto
  have "names_ok d"
    using "4.prems"(2) i by (auto simp: list_all_length)
  then show ?case
    using "4.IH" [OF d(1) v(2) _ d(2)] v by (simp add: toObject_placed [OF assms obj])
qed auto

subsection \<open>Properties\<close>

text \<open>C5 (functional). The parser accepts exactly the encodings of the trees that fit the limits:
  it returns a node at \<open>cursor\<close> if and only if the bytes there are the encoding of a tree within the
  depth, count, string and field limits whose cost the allocation budget covers, and then the node,
  the cursor behind it, the budget left and the nodes allocated are those of that tree. Every other
  input is an error.\<close>

theorem parse_node_exact:
  assumes "in_size S = length (in_bytes S)" "limit \<le> in_size S" "rs_remaining st \<le> size_max"
  shows "parse_node S cursor limit depth st = (Inr (n, c), st') \<longleftrightarrow>
    (\<exists>t. tree_ok (in_limits S) depth t \<and> tree_cost (in_sizes S) t \<le> rs_remaining st \<and>
       cursor + length (emit t) \<le> limit \<and> subspan (in_bytes S) cursor (length (emit t)) = emit t \<and>
       n = node_of t cursor depth (length (rs_cells st)) \<and> c = cursor + length (emit t) \<and>
       st' = st\<lparr>rs_remaining := rs_remaining st - tree_cost (in_sizes S) t,
               rs_cells := rs_cells st @ tree_cells t cursor\<rparr>)"
proof -
  have "parsed_as S limit depth"
    using assms by (intro parse_node_parsed) simp_all
  then show ?thesis
    using assms unfolding parsed_as_def fits_def seg_def after_def by auto
qed

definition sample_doc :: doc where
  "sample_doc = D_array [D_value (C_scalar (S_u16 300)), D_object [([0x61], D_value (C_string [0x62, 0x63]))]]"

definition sample_limits :: ParseLimits where
  "sample_limits = \<lparr>max_input_bytes = 100, max_string_bytes = 10, max_container_elements = 10,
     max_object_fields = 10, max_depth = 4, max_total_allocated_bytes = 1000\<rparr>"

definition sample_sizes :: sizes where
  "sample_sizes = \<lparr>sizeof_node = 200, sizeof_node_ptr = 16, sizeof_member = 40, sizeof_size_t = 8\<rparr>"

lemma parse_node_exact_witness:
  "parse_node \<lparr>in_data = Some [2], in_size = 1, in_limits = sample_limits, in_sizes = sample_sizes\<rparr> 0 1 0
     \<lparr>rs_offset = 0, rs_remaining = 500, rs_framed = True, rs_error = None, rs_cells = []\<rparr> =
   (Inr (node_of (W_Bool True) 0 0 0, 1),
     \<lparr>rs_offset = 0, rs_remaining = 300, rs_framed = True, rs_error = None, rs_cells = [\<lparr>consumed = False, cell_end = 1\<rparr>]\<rparr>)"
  by (subst parse_node_exact)
    (simp_all add: in_bytes_def size_max_def,
     auto intro!: exI [of _ "W_Bool True"] simp: sample_limits_def sample_sizes_def subspan_def tree_cells.simps)

text \<open>A document at the root of a reader.\<close>

lemma root_tree:
  assumes new: "new_reader (Some (BinaryMagic @ emit t)) (length (BinaryMagic @ emit t)) lim Z = (S, st0)"
    and ok: "tree_ok lim 0 t" and cost: "tree_cost Z t \<le> max_total_allocated_bytes lim"
    and lim: "max_total_allocated_bytes lim \<le> size_max" "length (BinaryMagic @ emit t) \<le> max_input_bytes lim"
  obtains st n where "reader_root S st0 = (Inr (handle_of n), st)" "ready S st" "placed S st t n"
    "rs_remaining st = max_total_allocated_bytes lim - tree_cost Z t" "reader_finish S st = Inr ()"
proof -
  let ?b = "BinaryMagic @ emit t"
  have S: "S = \<lparr>in_data = Some ?b, in_size = length ?b, in_limits = lim, in_sizes = Z\<rparr>"
    and st0: "st0 = \<lparr>rs_offset = 3, rs_remaining = max_total_allocated_bytes lim, rs_framed = True,
      rs_error = None, rs_cells = []\<rparr>"
    using new lim by (auto simp: new_reader_def in_bytes_def BinaryMagic_def Let_def split: if_splits)
  have bytes: "in_bytes S = ?b"
    by (simp add: S in_bytes_def)
  have three: "length BinaryMagic = 3"
    by (simp add: BinaryMagic_def)
  have sg: "seg (in_bytes S) 3 (emit t)"
    by (simp add: seg_def bytes three subspan_append_last)
  have "fits S (in_size S) 0 3 st0 t"
    using ok cost sg by (simp add: fits_def S st0 three)
  moreover have "parsed_as S (in_size S) 0"
    by (rule parse_node_parsed) (simp_all add: S in_bytes_def)
  ultimately have "parse_node S 3 (in_size S) 0 st0 =
      (Inr (node_of t 3 0 0, 3 + length (emit t)), after st0 (tree_cost (in_sizes S) t) (tree_cells t 3))"
    using lim unfolding parsed_as_def by (auto simp: st0)
  then have root: "reader_root S st0 =
      (Inr (handle_of (node_of t 3 0 0)), (after st0 (tree_cost Z t) (tree_cells t 3))\<lparr>rs_offset := 3 + length (emit t)\<rparr>)"
    by (simp add: reader_root_def st0 S)
  let ?st = "(after st0 (tree_cost Z t) (tree_cells t 3))\<lparr>rs_offset := 3 + length (emit t)\<rparr>"
  have "placed S ?st t (node_of t 3 0 0)"
    unfolding placed_def using ok sg unconsumed_tree_cells(1) [of t 3]
    by (intro exI [of _ 3] exI [of _ 0]) (simp add: S st0)
  moreover have "ready S ?st"
    by (simp add: ready_def S st0 in_bytes_def)
  moreover have "reader_finish S ?st = Inr ()"
    by (simp add: reader_finish_def S st0 three)
  ultimately show ?thesis
    using that [OF root] by (simp add: st0)
qed

text \<open>What the reader's operations return for a handle of the value \<open>d\<close>; a string costs its length
  from the budget, of which \<open>room\<close> is left.\<close>

definition reads_as :: "input \<Rightarrow> rstate \<Rightarrow> nat \<Rightarrow> doc \<Rightarrow> handle \<Rightarrow> bool" where
  "reads_as S st room d h =
     (case d of
       D_null \<Rightarrow> fst (isEmpty S h st)
     | D_value v \<Rightarrow> value_cost v \<le> room \<longrightarrow> fst (toBasicType (basic_of_value v) S h st) = Inr v
     | D_fixed s \<Rightarrow> fst (readFixed (basic_of s) (scalar_size s) S h st) = Inr (C_scalar s)
     | D_array ds \<Rightarrow> toArray S h st = Inr h \<and> arraySize h = length ds
     | D_object fs \<Rightarrow> toObject S h st = Inr h \<and> objectSize h = length fs
     | D_idobject fs \<Rightarrow> toObject S h st = Inr h \<and> objectSize h = length fs)"

lemma reads_as_placed:
  assumes r: "ready S st" and p: "placed S st (tree_of d) n" and room: "room \<le> rs_remaining st"
  shows "reads_as S st room d (handle_of n)"
proof (cases d)
  case D_null
  then show ?thesis
    using p validate_placed [OF r p] placed_node [OF p] by (simp add: reads_as_def isEmpty_def)
next
  case (D_value v)
  then show ?thesis
    using toBasicType_value [OF r, of v n] p room by (simp add: reads_as_def)
next
  case (D_fixed s)
  then show ?thesis
    using readFixed_value [OF r, of s n] p by (simp add: reads_as_def)
next
  case (D_array ds)
  then show ?thesis
    using p toArray_placed [OF r] placed_element(1) [of S st "map tree_of ds" n]
    by (simp add: reads_as_def arraySize_def) (simp add: handle_of_def)
next
  case (D_object fs)
  then show ?thesis
    using p toObject_placed [OF r p] placed_member(2) [OF p]
    by (simp add: reads_as_def objectSize_def keyed_def) (simp add: handle_of_def)
next
  case (D_idobject fs)
  then show ?thesis
    using p toObject_placed [OF r p] placed_member(2) [OF p]
    by (simp add: reads_as_def objectSize_def keyed_def) (simp add: handle_of_def)
qed

text \<open>C4 (roundtrip). What is written is read, for a document that the format can hold and the reader's
  limits admit: its keys are accepted (no two equal names or ids in one object) and its depth, counts and
  string lengths are within the limits (\<open>tree_ok\<close>), no object with compact keys has an empty field name
  (\<open>names_ok\<close>), the allocation budget covers its nodes and \<open>room\<close> more bytes for strings, and its bytes are
  within the input limit. The reader opens the bytes of such a document without error and consumes all of
  them, and following any path of indices and field names that exists in the document through \<open>toArray\<close>,
  \<open>arrayElement\<close>, \<open>toObject\<close> and \<open>objectField\<close> ends at a handle from which the value written there, a
  string of at most \<open>room\<close> bytes, is read back, and at an array of the length written.\<close>

theorem document_roundtrip:
  assumes "tree_ok lim 0 (tree_of d)" "names_ok d"
    and "tree_cost Z (tree_of d) + room \<le> max_total_allocated_bytes lim" "max_total_allocated_bytes lim \<le> size_max"
    and "length (w_buffer (write_document d)) \<le> max_input_bytes lim"
  shows "case new_reader (Some (w_buffer (write_document d))) (length (w_buffer (write_document d))) lim Z of (S, st0) \<Rightarrow>
    \<exists>h st. reader_root S st0 = (Inr h, st) \<and> reader_finish S st = Inr () \<and>
      (\<forall>p d'. doc_at d p = Some d' \<longrightarrow> (\<exists>h'. walk S p h st = (Inr h', st) \<and> reads_as S st room d' h'))"
proof -
  obtain S st0 where new: "new_reader (Some (w_buffer (write_document d))) (length (w_buffer (write_document d))) lim Z = (S, st0)"
    by fastforce
  have buf: "w_buffer (write_document d) = BinaryMagic @ emit (tree_of d)"
    by (simp add: write_document_eq wrote_def ensureDocumentHeader_def appendBytes_def new_writer_def)
  have cost: "tree_cost Z (tree_of d) \<le> max_total_allocated_bytes lim"
    using assms(3) by simp
  obtain st n where root: "reader_root S st0 = (Inr (handle_of n), st)" "ready S st" "placed S st (tree_of d) n"
    "rs_remaining st = max_total_allocated_bytes lim - tree_cost Z (tree_of d)" "reader_finish S st = Inr ()"
    by (rule root_tree [OF new [unfolded buf] assms(1) cost assms(4) assms(5) [unfolded buf]])
  have room: "room \<le> rs_remaining st"
    using root(4) assms(3) by simp
  have "\<exists>h'. walk S p (handle_of n) st = (Inr h', st) \<and> reads_as S st room d' h'" if "doc_at d p = Some d'" for p d'
    using walk_placed [OF root(2,3) assms(2) that] reads_as_placed [OF root(2) _ room] by blast
  then show ?thesis
    unfolding new prod.case using root(1,5) by blast
qed

lemma document_roundtrip_witness:
  "case new_reader (Some (w_buffer (write_document sample_doc))) (length (w_buffer (write_document sample_doc)))
       sample_limits sample_sizes of (S, st0) \<Rightarrow>
     \<exists>h st h'. reader_root S st0 = (Inr h, st) \<and> reader_finish S st = Inr () \<and>
       walk S [At 1, Field [0x61]] h st = (Inr h', st) \<and>
       fst (toBasicType B_string S h' st) = Inr (C_string [0x62, 0x63])"
proof -
  have "tree_ok sample_limits 0 (tree_of sample_doc)"
    by (simp add: sample_doc_def sample_limits_def key_ok_def named_keys_def index_member_def)
  moreover have "names_ok sample_doc"
    by (simp add: sample_doc_def)
  moreover have "tree_cost sample_sizes (tree_of sample_doc) + 2 \<le> max_total_allocated_bytes sample_limits"
    by (simp add: sample_doc_def sample_limits_def sample_sizes_def)
  moreover have "max_total_allocated_bytes sample_limits \<le> size_max"
    by (simp add: sample_limits_def size_max_def)
  moreover have "length (w_buffer (write_document sample_doc)) \<le> max_input_bytes sample_limits"
    by code_simp
  ultimately have rt: "case new_reader (Some (w_buffer (write_document sample_doc)))
      (length (w_buffer (write_document sample_doc))) sample_limits sample_sizes of (S, st0) \<Rightarrow>
    \<exists>h st. reader_root S st0 = (Inr h, st) \<and> reader_finish S st = Inr () \<and>
      (\<forall>p d'. doc_at sample_doc p = Some d' \<longrightarrow> (\<exists>h'. walk S p h st = (Inr h', st) \<and> reads_as S st 2 d' h'))"
    by (rule document_roundtrip)
  have at: "doc_at sample_doc [At 1, Field [0x61]] = Some (D_value (C_string [0x62, 0x63]))"
    by (simp add: sample_doc_def)
  show ?thesis
    using rt at by (force simp: reads_as_def basic_of_value_def value_cost_def split: prod.splits)
qed

end
