(* ===== verification/Binary_Safety.thy ===== *)
theory Binary_Safety
  imports Binary_Facts
begin

unbundle bit_operations_syntax

text \<open>
  What a hostile input cannot do to the reader: no read of a parsed or a raw value leaves the input,
  whatever the bytes are and whatever the client asks for; a value is read at most once; a checkpoint
  undoes every probe under its handle.
\<close>

subsection \<open>Access within the input\<close>

text \<open>The nodes a client can hold: an error, a raw value, or a node of some tree in the input.\<close>

definition sane :: "input \<Rightarrow> node \<Rightarrow> bool" where
  "sane S n \<longleftrightarrow> nd_error (nd n) \<noteq> None \<or> (nd_raw (nd n) \<and> nd_tag (nd n) = T_Null) \<or> (\<exists>st t. placed S st t n)"

lemma sane_error [simp]: "nd_error (nd n) = Some e \<Longrightarrow> sane S n"
  by (simp add: sane_def)

lemma placed_sane: "placed S st t n \<Longrightarrow> sane S n"
  by (auto simp: sane_def)

lemma index_keys_bound:
  assumes "\<forall>n i. named n = Some i \<longrightarrow> i < ix" "\<forall>h i. ids h = Some i \<longrightarrow> i < ix"
  shows "(fst (index_keys tag ks ix named ids) n = Some i \<longrightarrow> i < ix + length ks) \<and>
    (snd (index_keys tag ks ix named ids) h = Some i \<longrightarrow> i < ix + length ks)"
  using assms
proof (induction ks arbitrary: ix named ids)
  case (Cons k ks)
  obtain named' ids' where step: "index_member tag (key_name k) (key_ident k) ix named ids = (named', ids')"
    by fastforce
  have "\<forall>n i. named' n = Some i \<longrightarrow> i < Suc ix" "\<forall>h i. ids' h = Some i \<longrightarrow> i < Suc ix"
    using step Cons.prems
    by (auto simp: index_member_def index_emplace_def less_Suc_eq split: if_splits option.splits)
  from Cons.IH [OF this] show ?case
    by (simp add: step)
qed auto

lemma placed_index_bound:
  assumes "placed S st t n" "tree_tag t = T_NamedObject \<or> tree_tag t = T_IdObject"
  shows "nd_named (nd n) name = Some i \<Longrightarrow> i < length (members n)"
    and "nd_ids (nd n) h = Some i \<Longrightarrow> i < length (members n)"
  using index_keys_bound [where named = Map.empty and ids = Map.empty and ix = 0 and tag = "tree_tag t"
      and ks = "map fst (keyed t)" and n = name and i = i and h = h]
    placed_member(2,4) [OF assms] by (simp_all add: prod_eq_iff)

lemma member_at_sane:
  assumes "placed S st t n" "tree_tag t = T_NamedObject \<or> tree_tag t = T_IdObject"
    and "\<And>i. index key = Some i \<Longrightarrow> i < length (members n)"
  shows "in_bounds (member_at n key index name) \<and>
    (\<forall>h. member_at n key index name = Inr h \<longrightarrow> (\<exists>v. h = handle_of v \<and> sane S v))"
proof (cases "index key")
  case None
  then show ?thesis
    by (simp add: member_at_def)
next
  case (Some i)
  then have i: "i < length (members n)"
    by (rule assms(3))
  then obtain v where "members n ! i = (key_name (fst (keyed t ! i)), key_ident (fst (keyed t ! i)), v)"
      "placed S st (snd (keyed t ! i)) v"
    using placed_member(2) [OF assms(1,2)] placed_member(5) [OF assms(1,2), of i] by auto
  then show ?thesis
    using Some i by (auto simp: member_at_def byte_at_inside dest: placed_sane)
qed

lemma validateHandle_cases:
  assumes "validateHandle S h st = Inr n" "\<forall>n. h_node h = Some n \<longrightarrow> sane S n"
  shows "h_node h = Some n" "(nd_raw (nd n) \<and> nd_tag (nd n) = T_Null) \<or> (\<exists>st t. placed S st t n)"
  using assms by (auto simp: validateHandle_def sane_def split: option.splits if_splits)

lemma in_bounds_validate [simp]: "in_bounds (validateHandle S h st)" "in_bounds (validate S h st)"
  by (auto simp: validateHandle_def validate_def split: option.splits intro!: fault_free)

lemma validate_Inr: "validate S h st = Inr n \<Longrightarrow> validateHandle S h st = Inr n"
  by (auto simp: validate_def and_then_Inr_iff split: if_splits)

definition sane_handle :: "input \<Rightarrow> handle \<Rightarrow> bool" where
  "sane_handle S h \<longleftrightarrow> (\<forall>n. h_node h = Some n \<longrightarrow> sane S n)"

lemma sane_handle_of [simp]: "sane_handle S (handle_of n) = sane S n"
  by (simp add: sane_handle_def handle_of_def)

lemma sane_errorValue: "errorValue b e st = (h, st') \<Longrightarrow> sane_handle S h"
  by (auto simp: errorValue_def make_node_def sane_handle_def)

lemma sane_rawValue: "rawValue S st = (h, st') \<Longrightarrow> sane_handle S h"
  by (auto simp: rawValue_def make_node_def sane_handle_def sane_def Let_def default_node_def split: if_splits)

lemma raw_not_placed: "nd_raw (nd n) \<Longrightarrow> \<not> placed S st t n"
  using placed_node(2) by blast

text \<open>No element, field or value is read outside the input or outside its node.\<close>

lemma arrayElement_in_bounds: "in_bounds (fst (arrayElement S h ix st))"
  using in_bounds_validate(1) [of S h st]
  by (auto simp: arrayElement_def byte_at_inside in_bounds_def map_prod_def split: sum.splits halt.splits prod.splits)

lemma arrayElement_sane:
  assumes sane: "sane_handle S h" and r: "arrayElement S h ix st = (Inr h', st')"
  shows "sane_handle S h'"
proof (cases "validateHandle S h st")
  case (Inl e)
  then show ?thesis
    using r by (cases e) (auto simp: arrayElement_def map_prod_def intro: sane_errorValue split: prod.splits)
next
  case (Inr n)
  from validateHandle_cases [OF Inr] sane have n: "(nd_raw (nd n) \<and> nd_tag (nd n) = T_Null) \<or> (\<exists>st t. placed S st t n)"
    by (auto simp: sane_handle_def)
  show ?thesis
  proof (cases "nd_tag (nd n) \<noteq> T_Array \<or> length (elements n) \<le> ix")
    case True
    then show ?thesis
      using r Inr by (auto simp: arrayElement_def map_prod_def intro: sane_errorValue split: prod.splits)
  next
    case False
    then have h': "h' = handle_of (elements n ! ix)"
      using r Inr by (simp add: arrayElement_def byte_at_inside)
    from n False obtain st0 t where p: "placed S st0 t n"
      by auto
    have "tree_tag t = T_Array"
      using False placed_node(1) [OF p] by simp
    then obtain ts where "t = W_Arr ts"
      using p by (cases t) (auto simp: placed_def payload_width_def fixedWidth_def split: if_splits)
    then show ?thesis
      using placed_element [of S st0 ts n] p False h' by (auto simp: not_le intro: placed_sane)
  qed
qed

lemma objectField_sane:
  assumes sane: "sane_handle S h"
  shows "in_bounds (objectField S h name st)"
    and "objectField S h name st = Inr h' \<Longrightarrow> sane_handle S h'"
proof -
  have *: "in_bounds (objectField S h name st) \<and> (\<forall>h'. objectField S h name st = Inr h' \<longrightarrow> sane_handle S h')"
  proof (cases "validateHandle S h st")
    case (Inl e)
    then show ?thesis
      using in_bounds_validate(1) [of S h st] by (auto simp: objectField_def in_bounds_def)
  next
    case (Inr n)
    from validateHandle_cases [OF Inr] sane
    have n: "(nd_raw (nd n) \<and> nd_tag (nd n) = T_Null) \<or> (\<exists>st t. placed S st t n)"
      by (auto simp: sane_handle_def)
    show ?thesis
    proof (cases "nd_tag (nd n) = T_NamedObject \<or> nd_tag (nd n) = T_IdObject")
      case False
      then show ?thesis
        using Inr by (simp add: objectField_def)
    next
      case True
      with n obtain st0 t where p: "placed S st0 t n"
        by auto
      have tag: "tree_tag t = T_NamedObject \<or> tree_tag t = T_IdObject"
        using True placed_node(1) [OF p] by simp
      note m = member_at_sane [OF p tag] placed_index_bound [OF p tag]
      show ?thesis
        using Inr m(1) [of "nd_named (nd n)" name name] m(1) [of "nd_ids (nd n)" "fieldId name" name] m(2,3)
        by (auto simp: objectField_def)
    qed
  qed
  show "in_bounds (objectField S h name st)" and "objectField S h name st = Inr h' \<Longrightarrow> sane_handle S h'"
    using * by auto
qed

lemma in_bounds_load:
  "pos + LENGTH('a) div 8 \<le> length (in_bytes S) \<Longrightarrow> in_bounds (load S pos :: 'a::len word sa_result)"
  unfolding load_def by (intro in_bounds_and_then in_bounds_span_sub) simp_all

lemma in_bounds_signed_of_uleb [simp]: "in_bounds (signed_of_uleb w)"
  by (simp add: signed_of_uleb_def Let_def)

lemma placed_leaf_bounds:
  assumes "placed S st t n"
  shows "nd_tag (nd n) = T_SignedInteger \<or> nd_tag (nd n) = T_UnsignedInteger \<or> nd_tag (nd n) = T_String \<Longrightarrow>
      nd_dataBegin (nd n) \<le> nd_dataEnd (nd n) \<and> nd_dataEnd (nd n) \<le> length (in_bytes S)"
    and "payload_width (nd_tag (nd n)) \<noteq> 0 \<Longrightarrow>
      nd_dataBegin (nd n) + payload_width (nd_tag (nd n)) \<le> length (in_bytes S)"
proof -
  from placed_payload [OF assms] obtain c where c: "nd_dataBegin (nd n) = fst (leaf_span t (Suc c))"
    "nd_dataEnd (nd n) = snd (leaf_span t (Suc c))" "seg (in_bytes S) (Suc c) (payload t)" .
  have sg: "Suc c + length (payload t) \<le> length (in_bytes S)"
    by (rule seg_le [OF c(3)])
  have fixed: "length bs = payload_width tag \<and> payload_width tag \<noteq> 0" if "t = W_Fixed tag bs" for tag bs
    using assms that by (auto simp: placed_def)
  show "nd_dataBegin (nd n) \<le> nd_dataEnd (nd n) \<and> nd_dataEnd (nd n) \<le> length (in_bytes S)"
    if "nd_tag (nd n) = T_SignedInteger \<or> nd_tag (nd n) = T_UnsignedInteger \<or> nd_tag (nd n) = T_String"
    using that sg c fixed placed_node(1) [OF assms]
    by (cases t) (auto simp: payload_width_def fixedWidth_def split: if_splits)
  show "nd_dataBegin (nd n) + payload_width (nd_tag (nd n)) \<le> length (in_bytes S)"
    if "payload_width (nd_tag (nd n)) \<noteq> 0"
    using that sg c fixed placed_node(1) [OF assms]
    by (cases t) (auto simp: payload_width_def fixedWidth_def split: if_splits)
qed

lemma in_bounds_raw_load:
  assumes "rs_offset st + LENGTH('a) div 8 \<le> length (in_bytes S)"
  shows "in_bounds (fst (raw_load (mk :: 'a::len word \<Rightarrow> scalar) S n st))"
  using in_bounds_load [OF assms] by (auto simp: raw_load_def intro!: in_bounds_act_then)

lemma in_bounds_readRawFixed:
  assumes "in_size S = length (in_bytes S)" "rs_offset st \<le> in_size S"
  shows "in_bounds (fst (readRawFixed b m S n st))"
proof (cases "m \<noteq> basic_size b \<or> size_diff (in_size S) (rs_offset st) < m")
  case False
  then have "rs_offset st + basic_size b \<le> length (in_bytes S)"
    using assms by (cases b) auto
  then show ?thesis
    using assms False
    by (cases b) (auto simp: readRawFixed_def Let_def intro!: in_bounds_raw_load in_bounds_act_then in_bounds_byte_at)
qed (simp add: readRawFixed_def)

lemma in_bounds_readRaw:
  assumes "in_size S = length (in_bytes S)" "rs_offset st \<le> in_size S"
  shows "in_bounds (fst (readRaw b S n st))"
  using assms
  by (auto simp: readRaw_def intro!: in_bounds_act_then in_bounds_read_uleb in_bounds_charge in_bounds_span_sub
      in_bounds_readRawFixed dest!: read_uleb_le) arith

lemma in_bounds_reads:
  assumes p: "placed S st0 t n"
  shows "8 \<le> LENGTH('a) \<Longrightarrow> in_bounds (fst (read_signed (mk :: 'a::len word \<Rightarrow> scalar) S n st))"
    and "8 \<le> LENGTH('a) \<Longrightarrow> in_bounds (fst (read_unsigned mk S n st))"
    and "payload_width tag = LENGTH('a) div 8 \<Longrightarrow> payload_width tag \<noteq> 0 \<Longrightarrow> in_bounds (fst (read_float mk tag kind S n st))"
    and "payload_width tag = LENGTH('a) div 8 \<Longrightarrow> payload_width tag \<noteq> 0 \<Longrightarrow> in_bounds (fst (read_fixed_int mk tag m S n st))"
proof -
  note b = placed_leaf_bounds [OF p]
  show "in_bounds (fst (read_signed mk S n st))"
    using b(1) by (auto simp: read_signed_def intro!: in_bounds_act_then in_bounds_read_uleb fault_free)
  show "in_bounds (fst (read_unsigned mk S n st))"
    using b(1) by (auto simp: read_unsigned_def intro!: in_bounds_act_then in_bounds_read_uleb)
  show "in_bounds (fst (read_float mk tag kind S n st))"
    if "payload_width tag = LENGTH('a) div 8" "payload_width tag \<noteq> 0"
    using b(2) that by (auto simp: read_float_def intro!: in_bounds_act_then in_bounds_load)
  show "in_bounds (fst (read_fixed_int mk tag m S n st))"
    if "payload_width tag = LENGTH('a) div 8" "payload_width tag \<noteq> 0"
    using b(2) that by (auto simp: read_fixed_int_def intro!: in_bounds_act_then in_bounds_load)
qed

lemma toBasicType_in_bounds:
  assumes "sane_handle S h" "in_size S = length (in_bytes S)" "rs_offset st \<le> in_size S"
  shows "in_bounds (fst (toBasicType b S h st))"
proof (cases "validate S h st")
  case (Inl e)
  then show ?thesis
    using in_bounds_validate(2) [of S h st] by (simp add: toBasicType_def validate_then in_bounds_def)
next
  case (Inr n)
  from validateHandle_cases [OF validate_Inr [OF Inr]] assms(1)
  have n: "(nd_raw (nd n) \<and> nd_tag (nd n) = T_Null) \<or> (\<exists>st t. placed S st t n)"
    by (auto simp: sane_handle_def)
  show ?thesis
  proof (cases "nd_raw (nd n)")
    case True
    then show ?thesis
      using Inr assms(2,3) by (simp add: toBasicType_def validate_then in_bounds_readRaw)
  next
    case False
    with n obtain st0 t where p: "placed S st0 t n"
      by auto
    note s = placed_leaf_bounds(1) [OF p]
    show ?thesis
      using Inr False s
      by (cases b) (auto simp: toBasicType_def validate_then readFloating_def payload_width_def Let_def
          intro!: in_bounds_reads [OF p] in_bounds_act_then in_bounds_charge in_bounds_span_sub)
  qed
qed

lemma readFixed_in_bounds:
  assumes "sane_handle S h" "in_size S = length (in_bytes S)" "rs_offset st \<le> in_size S"
  shows "in_bounds (fst (readFixed b m S h st))"
proof (cases "validate S h st")
  case (Inl e)
  then show ?thesis
    using in_bounds_validate(2) [of S h st] by (simp add: readFixed_def validate_then in_bounds_def)
next
  case (Inr n)
  from validateHandle_cases [OF validate_Inr [OF Inr]] assms(1)
  have n: "(nd_raw (nd n) \<and> nd_tag (nd n) = T_Null) \<or> (\<exists>st t. placed S st t n)"
    by (auto simp: sane_handle_def)
  show ?thesis
  proof (cases "nd_raw (nd n)")
    case True
    then show ?thesis
      using Inr assms(2,3) by (simp add: readFixed_def validate_then in_bounds_readRawFixed)
  next
    case False
    with n obtain st0 t where p: "placed S st0 t n"
      by auto
    show ?thesis
      using Inr False toBasicType_in_bounds [OF assms, of B_bool]
      by (cases b) (auto simp: readFixed_def validate_then readFloating_def payload_width_def fixedWidth_def
          intro!: in_bounds_reads [OF p])
  qed
qed

subsection \<open>The states a client reaches\<close>

text \<open>The calls of a client, in any order: each acts on the state, on a handle that an earlier call
  returned, and may return another. A call that fails has its effects on the state all the same. \<open>H\<close> are the
  handles the client holds, among them the default \<open>InputValueType\<close>, and \<open>C\<close> its checkpoints.\<close>

definition null_handle :: handle where
  "null_handle = \<lparr>h_state = False, h_node = None\<rparr>"

inductive reader_reaches :: "input \<Rightarrow> rstate \<Rightarrow> handle set \<Rightarrow> checkpoint set \<Rightarrow> bool" for S where
  opened: "new_reader data n limits sz = (S, st) \<Longrightarrow> (\<And>d. data = Some d \<Longrightarrow> n = length d) \<Longrightarrow>
    max_total_allocated_bytes limits \<le> size_max \<Longrightarrow> reader_reaches S st {null_handle} {}"
| begin_raw: "reader_reaches S st H C \<Longrightarrow> reader_reaches S (reader_beginRaw st) H C"
| at_root: "reader_reaches S st H C \<Longrightarrow> reader_root S st = (Inr h, st') \<Longrightarrow> reader_reaches S st' (insert h H) C"
| at_next: "reader_reaches S st H C \<Longrightarrow> h \<in> H \<Longrightarrow> reader_next S h st = (Inr h', st') \<Longrightarrow>
    reader_reaches S st' (insert h' H) C"
| at_element: "reader_reaches S st H C \<Longrightarrow> h \<in> H \<Longrightarrow> arrayElement S h ix st = (Inr h', st') \<Longrightarrow>
    reader_reaches S st' (insert h' H) C"
| at_field: "reader_reaches S st H C \<Longrightarrow> h \<in> H \<Longrightarrow> objectField S h name st = Inr h' \<Longrightarrow>
    reader_reaches S st (insert h' H) C"
| at_member: "reader_reaches S st H C \<Longrightarrow> h \<in> H \<Longrightarrow> validateHandle S h st = Inr n \<Longrightarrow> nd_tag (nd n) = T_NamedObject \<Longrightarrow>
    (name, ident, v) \<in> set (members n) \<Longrightarrow> reader_reaches S st (insert (handle_of v) H) C"
| converted: "reader_reaches S st H C \<Longrightarrow> h \<in> H \<Longrightarrow> toBasicType b S h st = (r, st') \<Longrightarrow> reader_reaches S st' H C"
| converted_fixed: "reader_reaches S st H C \<Longrightarrow> h \<in> H \<Longrightarrow> readFixed b m S h st = (r, st') \<Longrightarrow> reader_reaches S st' H C"
| asked_empty: "reader_reaches S st H C \<Longrightarrow> h \<in> H \<Longrightarrow> isEmpty S h st = (e, st') \<Longrightarrow> reader_reaches S st' H C"
| remembered: "reader_reaches S st H C \<Longrightarrow> h \<in> H \<Longrightarrow> reader_reaches S st H (insert (take_checkpoint h st) C)"
| restored: "reader_reaches S st H C \<Longrightarrow> cp \<in> C \<Longrightarrow> reader_reaches S (restore cp st) H C"

text \<open>What holds of the state throughout: the offset is inside the input, and without an input the reader
  stays in its error.\<close>

definition reader_ok :: "input \<Rightarrow> rstate \<Rightarrow> bool" where
  "reader_ok S st \<longleftrightarrow> rs_offset st \<le> in_size S \<and> rs_remaining st \<le> size_max \<and>
     (if in_data S = None then rs_error st \<noteq> None else in_size S = length (in_bytes S))"

named_theorems ok_intros

lemma ok_allocates: "reader_ok S st \<Longrightarrow> allocates st st' \<Longrightarrow> reader_ok S st'"
  by (auto simp: reader_ok_def allocates_def)

lemma ok_room: "reader_ok S st \<Longrightarrow> length (in_bytes S) \<le> in_size S"
  by (cases "in_data S") (auto simp: reader_ok_def in_bytes_def)

lemma ok_charge [ok_intros]: "reader_ok S st \<Longrightarrow> reader_ok S (snd (charge n st))"
  using ok_allocates [OF _ allocates_charge [OF allocates_refl]] .

lemma ok_cells [ok_intros]: "reader_ok S st \<Longrightarrow> reader_ok S (st\<lparr>rs_cells := cs\<rparr>)"
  by (simp add: reader_ok_def)

lemma ok_consume [ok_intros]: "reader_ok S st \<Longrightarrow> reader_ok S (consume n st)" "reader_ok S st \<Longrightarrow> reader_ok S (set_end c e st)"
  by (simp_all add: consume_def set_consumed_def set_end_def ok_cells)

lemma ok_offset [ok_intros]: "reader_ok S st \<Longrightarrow> e \<le> in_size S \<Longrightarrow> reader_ok S (st\<lparr>rs_offset := e\<rparr>)"
  by (simp add: reader_ok_def)

lemma ok_consumeRaw [ok_intros]: "reader_ok S st \<Longrightarrow> e \<le> in_size S \<Longrightarrow> reader_ok S (consumeRaw n e st)"
  unfolding consumeRaw_def by (intro ok_consume ok_offset)

lemma ok_act_then [ok_intros]:
  assumes "reader_ok S (snd (m st))" "\<And>x t. m st = (Inr x, t) \<Longrightarrow> reader_ok S t \<Longrightarrow> reader_ok S (snd (f x t))"
  shows "reader_ok S (snd (act_then m f st))"
  using assms by (auto simp: act_then_def split: prod.splits sum.splits)

lemma ok_errorValue [ok_intros]: "reader_ok S st \<Longrightarrow> reader_ok S (snd (errorValue b e st))"
  by (simp add: errorValue_def make_node_def ok_cells)

lemma ok_rawValue [ok_intros]: "reader_ok S st \<Longrightarrow> reader_ok S (snd (rawValue S st))"
  by (simp add: rawValue_def make_node_def Let_def ok_cells ok_consume)

lemma ok_reads [ok_intros]:
  assumes "reader_ok S st"
  shows "reader_ok S (snd (read_signed mk S n st))" "reader_ok S (snd (read_unsigned mk S n st))"
    "reader_ok S (snd (read_float mk tag kind S n st))" "reader_ok S (snd (read_fixed_int mk tag m S n st))"
  using assms
  by (auto simp: read_signed_def read_unsigned_def read_float_def read_fixed_int_def intro!: ok_intros)

lemma load_room: "load S pos = (Inr v :: 'a::len word sa_result) \<Longrightarrow> pos + LENGTH('a) div 8 \<le> length (in_bytes S)"
  by (auto simp: load_def and_then_Inr_iff span_sub_def split: if_splits)

lemma ok_raw_load [ok_intros]:
  assumes "reader_ok S st"
  shows "reader_ok S (snd (raw_load mk S n st))"
  using assms ok_room [OF assms]
  by (auto simp: raw_load_def intro!: ok_intros dest!: load_room)

lemma ok_readRawFixed [ok_intros]:
  assumes "reader_ok S st"
  shows "reader_ok S (snd (readRawFixed b m S n st))"
  using assms ok_room [OF assms]
  by (cases b) (auto simp: readRawFixed_def Let_def vec_at_Inr intro!: ok_intros)

lemma ok_readRaw [ok_intros]:
  assumes "reader_ok S st"
  shows "reader_ok S (snd (readRaw b S n st))"
  using assms ok_room [OF assms]
  by (auto simp: readRaw_def span_sub_def intro!: ok_intros split: prod.splits if_splits)

lemma ok_toBasicType: "reader_ok S st \<Longrightarrow> reader_ok S (snd (toBasicType b S h st))"
  by (cases b; cases "validate S h st") (auto simp: toBasicType_def readFloating_def validate_then Let_def intro!: ok_intros)

lemma ok_readFixed: "reader_ok S st \<Longrightarrow> reader_ok S (snd (readFixed b m S h st))"
  by (cases b; cases "validate S h st")
    (auto simp: readFixed_def readFloating_def validate_then intro!: ok_intros ok_toBasicType)

lemma ok_isEmpty: "reader_ok S st \<Longrightarrow> reader_ok S (snd (isEmpty S h st))"
  by (auto simp: isEmpty_def intro!: ok_intros split: sum.splits)

text \<open>A node that is parsed ends inside the input.\<close>

lemma parse_node_sane:
  assumes "in_size S = length (in_bytes S)" "limit \<le> in_size S" "rs_remaining st \<le> size_max"
    and "parse_node S cursor limit depth st = (Inr (n, c), st')"
  shows "sane S n"
proof -
  obtain t where t: "tree_ok (in_limits S) depth t" "seg (in_bytes S) cursor (emit t)"
    "n = node_of t cursor depth (length (rs_cells st))" "st' = after st (tree_cost (in_sizes S) t) (tree_cells t cursor)"
    using parse_node_parsed [OF assms(1), of limit depth] assms
    by (auto simp: parsed_as_def fits_def)
  have "placed S st' t n"
    unfolding placed_def using t unconsumed_tree_cells(1) [of t cursor]
    by (intro exI [of _ cursor] exI [of _ depth] exI [of _ "length (rs_cells st)"]) (simp add: nth_append)
  then show ?thesis
    by (rule placed_sane)
qed

lemma ok_parse_node:
  assumes "reader_ok S st" "in_data S \<noteq> None" "parse_node S cursor (in_size S) depth st = (r, st')"
  shows "reader_ok S st'" "r = Inr (n, c) \<Longrightarrow> reader_ok S (st'\<lparr>rs_offset := c\<rparr>) \<and> sane S n"
proof -
  have S: "in_size S = length (in_bytes S)" "rs_remaining st \<le> size_max"
    using assms(1,2) by (auto simp: reader_ok_def)
  have "allocates st (snd (parse_node S cursor (in_size S) depth st))"
    by (rule parse_node_allocates) simp
  then show st': "reader_ok S st'"
    using assms by (auto intro: ok_allocates)
  show "r = Inr (n, c) \<Longrightarrow> reader_ok S (st'\<lparr>rs_offset := c\<rparr>) \<and> sane S n"
  proof
    assume r: "r = Inr (n, c)"
    then obtain t where "fits S (in_size S) depth cursor st t" "c = cursor + length (emit t)"
      using parse_node_parsed [OF S(1), of "in_size S" depth] assms(3) S by (auto simp: parsed_as_def)
    then have "c \<le> in_size S"
      using S(1) by (auto simp: fits_def dest: seg_le)
    then show "reader_ok S (st'\<lparr>rs_offset := c\<rparr>)"
      by (rule ok_offset [OF st'])
    show "sane S n"
      using parse_node_sane [OF S(1) order_refl S(2)] assms(3) r by blast
  qed
qed

lemma opened_handle:
  assumes "reader_ok S st"
  shows "reader_root S st = (r, st') \<Longrightarrow> reader_ok S st' \<and> (\<forall>h. r = Inr h \<longrightarrow> sane_handle S h)"
    and "reader_next S h st = (r, st') \<Longrightarrow> reader_ok S st' \<and> (\<forall>h. r = Inr h \<longrightarrow> sane_handle S h)"
    and "arrayElement S h ix st = (r, st') \<Longrightarrow> reader_ok S st'"
proof -
  have error: "reader_ok S st''" "sane_handle S h" if "errorValue b e st1 = (h, st'')" "reader_ok S st1" for b e h st1 st''
    using that ok_errorValue [OF that(2), of b e] by (auto intro: sane_errorValue)
  have raw: "reader_ok S st''" "sane_handle S h" if "rawValue S st = (h, st'')" for h st''
    using that ok_rawValue [OF assms] by (auto intro: sane_rawValue)
  have some: "in_data S \<noteq> None" if "rs_error st = None"
    using assms that by (auto simp: reader_ok_def split: if_splits)
  have valid: "in_data S \<noteq> None" if "validateHandle S h st = Inr n" for n
    using that by (auto simp: validateHandle_def split: option.splits if_splits)
  show "reader_root S st = (r, st') \<Longrightarrow> reader_ok S st' \<and> (\<forall>h. r = Inr h \<longrightarrow> sane_handle S h)"
    using assms
    by (auto simp: reader_root_def map_prod_def split: option.splits if_splits prod.splits sum.splits halt.splits
        dest: error raw ok_parse_node [OF assms some])
  show "reader_next S h st = (r, st') \<Longrightarrow> reader_ok S st' \<and> (\<forall>h. r = Inr h \<longrightarrow> sane_handle S h)"
    using assms
    by (auto simp: reader_next_def map_prod_def split: if_splits prod.splits sum.splits halt.splits
        dest: error raw ok_parse_node [OF assms valid])
  show "arrayElement S h ix st = (r, st') \<Longrightarrow> reader_ok S st'"
    using assms
    by (auto simp: arrayElement_def map_prod_def split: if_splits prod.splits sum.splits halt.splits dest: error)
qed

lemma member_sane:
  assumes "sane_handle S h" "validateHandle S h st = Inr n" "nd_tag (nd n) = T_NamedObject" "(name, ident, v) \<in> set (members n)"
  shows "sane S v"
proof -
  from validateHandle_cases [OF assms(2)] assms(1,3) obtain st0 t where p: "placed S st0 t n"
    by (auto simp: sane_handle_def)
  then have tag: "tree_tag t = T_NamedObject \<or> tree_tag t = T_IdObject"
    using assms(3) placed_node(1) [OF p] by simp
  obtain i where "i < length (members n)" "members n ! i = (name, ident, v)"
    using assms(4) by (auto simp: in_set_conv_nth)
  then show ?thesis
    using placed_member(5) [OF p tag, of i] placed_member(2) [OF p tag] by (auto dest: placed_sane)
qed

lemma restore_fields:
  "rs_offset (restore cp st) = (if cp_state cp then cp_offset cp else rs_offset st)"
  "rs_remaining (restore cp st) = (if cp_state cp then cp_remaining cp else rs_remaining st)"
  "rs_error (restore cp st) = rs_error st"
proof -
  have "rs_offset (fold restore_entry es st) = rs_offset st \<and> rs_remaining (fold restore_entry es st) = rs_remaining st \<and>
      rs_error (fold restore_entry es st) = rs_error st" for es st
    by (induction es arbitrary: st) (auto simp: restore_entry_def)
  then show "rs_offset (restore cp st) = (if cp_state cp then cp_offset cp else rs_offset st)"
    "rs_remaining (restore cp st) = (if cp_state cp then cp_remaining cp else rs_remaining st)"
    "rs_error (restore cp st) = rs_error st"
    by (simp_all add: restore_def)
qed

lemma ok_restore:
  "reader_ok S st \<Longrightarrow> cp_offset cp \<le> in_size S \<Longrightarrow> cp_remaining cp \<le> size_max \<Longrightarrow> reader_ok S (restore cp st)"
  unfolding reader_ok_def restore_fields by (cases "in_data S = None"; cases "cp_state cp") auto

theorem reaches_ok:
  "reader_reaches S st H C \<Longrightarrow> reader_ok S st \<and> (\<forall>h \<in> H. sane_handle S h) \<and>
    (\<forall>cp \<in> C. cp_offset cp \<le> in_size S \<and> cp_remaining cp \<le> size_max)"
proof (induction rule: reader_reaches.induct)
  case (opened data n limits sz st)
  then show ?case
    by (cases data) (auto simp: new_reader_def Let_def reader_ok_def in_bytes_def null_handle_def sane_handle_def split: if_splits)
next
  case (begin_raw st H C)
  then show ?case
    by (simp add: reader_beginRaw_def reader_ok_def)
next
  case (at_root st H C h st')
  then show ?case
    using opened_handle(1) by blast
next
  case (at_next st H C h h' st')
  then show ?case
    using opened_handle(2) by blast
next
  case (at_element st H C h ix h' st')
  then show ?case
    using opened_handle(3) arrayElement_sane by blast
next
  case (at_field st H C h name h')
  then show ?case
    using objectField_sane(2) by blast
next
  case (at_member st H C h n name ident v)
  then show ?case
    using member_sane by (simp del: split_paired_All) blast
next
  case (converted st H C h b r st')
  then show ?case
    using ok_toBasicType [of S st b h] by simp
next
  case (converted_fixed st H C h b m r st')
  then show ?case
    using ok_readFixed [of S st b m h] by simp
next
  case (asked_empty st H C h e st')
  then show ?case
    using ok_isEmpty [of S st h] by simp
next
  case (remembered st H C h)
  then have "rs_offset st \<le> in_size S" "rs_remaining st \<le> size_max"
    by (simp_all add: reader_ok_def)
  with remembered show ?case
    by (simp add: take_checkpoint_def)
next
  case (restored st H C cp)
  then show ?case
    using ok_restore by blast
qed

lemma reader_root_in_bounds: "in_size S = length (in_bytes S) \<Longrightarrow> in_bounds (fst (reader_root S st))"
  using in_bounds_parse_node [of S "rs_offset st" "in_size S" 0 st]
  by (auto simp: reader_root_def map_prod_def split: option.splits prod.splits sum.splits halt.splits)

lemma reader_next_in_bounds: "in_size S = length (in_bytes S) \<Longrightarrow> in_bounds (fst (reader_next S h st))"
  using in_bounds_parse_node [of S] in_bounds_validate(1) [of S h st]
  by (auto simp: reader_next_def map_prod_def in_bounds_def split: option.splits prod.splits sum.splits halt.splits)
    (metis fst_conv)

text \<open>C12 (safety). Whatever the input holds, and in whatever order a client opens it, moves on, descends,
  converts values, reads raw and restores checkpoints, the offset of the reader stays inside the input, and
  no operation reads outside the input or outside the nodes it parsed.\<close>

theorem reader_in_bounds:
  assumes "reader_reaches S st H C" "h \<in> H"
  shows "rs_offset st \<le> in_size S \<and>
    in_bounds (fst (reader_root S st)) \<and> in_bounds (fst (reader_next S h st)) \<and>
    in_bounds (fst (arrayElement S h ix st)) \<and> in_bounds (objectField S h name st) \<and>
    in_bounds (fst (toBasicType b S h st)) \<and> in_bounds (fst (readFixed b m S h st))"
proof -
  have ok: "reader_ok S st" and sane: "sane_handle S h"
    using reaches_ok [OF assms(1)] assms(2) by simp_all
  show ?thesis
  proof (cases "in_data S")
    case None
    then have e: "rs_error st \<noteq> None"
      using ok by (simp add: reader_ok_def)
    have bad: "\<exists>e. validateHandle S h st = Inl (Err e)"
      using None by (auto simp: validateHandle_def split: option.split)
    then have "\<exists>e. validate S h st = Inl (Err e)"
      by (auto simp: validate_def)
    then show ?thesis
      using ok e bad
      by (auto simp: reader_ok_def reader_root_def reader_next_def objectField_def toBasicType_def readFixed_def validate_then
          map_prod_def arrayElement_in_bounds split: prod.split)
  next
    case (Some d)
    then have size: "in_size S = length (in_bytes S)" "rs_offset st \<le> in_size S"
      using ok by (simp_all add: reader_ok_def)
    then show ?thesis
      using sane by (simp add: reader_root_in_bounds reader_next_in_bounds arrayElement_in_bounds objectField_sane
          toBasicType_in_bounds readFixed_in_bounds)
  qed
qed

text \<open>Two raw bytes: after they are read as one integer the next read is refused.\<close>

lemma reader_in_bounds_witness:
  "\<exists>S st st' h. new_reader (Some [1, 2]) 2 sample_limits sample_sizes = (S, st) \<and> reader_root S st = (Inr h, st') \<and>
     in_bounds (fst (toBasicType B_u16 S h st'))"
proof -
  obtain S st where new: "new_reader (Some [1, 2]) 2 sample_limits sample_sizes = (S, st)"
    by fastforce
  then have reach: "reader_reaches S st {null_handle} {}"
    by (rule reader_reaches.opened) (auto simp: sample_limits_def size_max_def)
  have "rs_error st = None" "\<not> rs_framed st"
    using new by (auto simp: new_reader_def Let_def sample_limits_def BinaryMagic_def split: if_splits)
  then obtain h st' where root: "reader_root S st = (Inr h, st')"
    by (cases "rawValue S st") (simp add: reader_root_def)
  have "in_bounds (fst (toBasicType B_u16 S h st'))"
    using reader_in_bounds [OF reader_reaches.at_root [OF reach root], of h] by blast
  with new root show ?thesis
    by blast
qed

end
