(* ===== verification/Binary_Checkpoint.thy ===== *)
theory Binary_Checkpoint
  imports Binary_Facts
begin

unbundle bit_operations_syntax

text \<open>
  Reads that change the state: a checkpoint of a handle undoes every read below it, and a value that
  was read is not read again.
\<close>

subsection \<open>Checkpoints\<close>

text \<open>The state outside the nodes \<open>cs\<close> of a checkpoint, the offset and the budget is as it was.\<close>

definition kept :: "nat list \<Rightarrow> rstate \<Rightarrow> rstate \<Rightarrow> bool" where
  "kept cs st0 st \<longleftrightarrow>
     rs_framed st = rs_framed st0 \<and> rs_error st = rs_error st0 \<and> length (rs_cells st0) \<le> length (rs_cells st) \<and>
     (\<forall>i < length (rs_cells st0). i \<notin> set cs \<longrightarrow> rs_cells st ! i = rs_cells st0 ! i)"

text \<open>A handle below the checkpoint, or on a node that was made since.\<close>

definition below :: "nat list \<Rightarrow> rstate \<Rightarrow> node \<Rightarrow> bool" where
  "below cs st0 n \<longleftrightarrow> nd_cell (nd n) \<in> set cs \<or> length (rs_cells st0) \<le> nd_cell (nd n)"

named_theorems kept_intros

lemma kept_refl [simp]: "kept cs st st"
  by (simp add: kept_def)

lemma kept_allocates: "kept cs st0 st \<Longrightarrow> allocates st st' \<Longrightarrow> kept cs st0 st'"
  by (auto simp: kept_def allocates_def nth_append)

lemma kept_charge [kept_intros]: "kept cs st0 st \<Longrightarrow> kept cs st0 (snd (charge n st))"
  by (auto simp: charge_def kept_def)

lemma kept_update:
  assumes "kept cs st0 st" "c \<in> set cs \<or> length (rs_cells st0) \<le> c"
  shows "kept cs st0 (st\<lparr>rs_cells := (rs_cells st)[c := x]\<rparr>)"
proof -
  have "(rs_cells st)[c := x] ! i = rs_cells st ! i" if "i < length (rs_cells st0)" "i \<notin> set cs" for i
  proof -
    have "c \<noteq> i"
      using assms(2) that by auto
    then show ?thesis
      by (rule nth_list_update_neq)
  qed
  then show ?thesis
    using assms(1) by (simp add: kept_def)
qed

lemma kept_consume [kept_intros]: "kept cs st0 st \<Longrightarrow> below cs st0 n \<Longrightarrow> kept cs st0 (consume n st)"
  unfolding consume_def set_consumed_def by (rule kept_update) (simp_all add: below_def)

lemma kept_set_end: "kept cs st0 st \<Longrightarrow> below cs st0 n \<Longrightarrow> kept cs st0 (set_end (nd_cell (nd n)) e st)"
  unfolding set_end_def by (rule kept_update) (simp_all add: below_def)

lemma kept_offset [kept_intros]: "kept cs st0 st \<Longrightarrow> kept cs st0 (st\<lparr>rs_offset := off\<rparr>)"
  by (simp add: kept_def)

lemma kept_consumeRaw [kept_intros]: "kept cs st0 st \<Longrightarrow> below cs st0 n \<Longrightarrow> kept cs st0 (consumeRaw n e st)"
  unfolding consumeRaw_def by (intro kept_consume kept_set_end kept_offset)

lemma kept_errorValue [kept_intros]: "kept cs st0 st \<Longrightarrow> kept cs st0 (snd (errorValue b e st))"
  by (auto simp: errorValue_def make_node_def kept_def nth_append)

lemma kept_rawValue [kept_intros]: "kept cs st0 st \<Longrightarrow> kept cs st0 (snd (rawValue S st))"
  by (auto simp: rawValue_def make_node_def set_end_def kept_def nth_append nth_list_update Let_def)

lemma kept_act_then [kept_intros]:
  assumes "kept cs st0 (snd (m st))"
    and "\<And>x t. m st = (Inr x, t) \<Longrightarrow> kept cs st0 t \<Longrightarrow> kept cs st0 (snd (f x t))"
  shows "kept cs st0 (snd (act_then m f st))"
  using assms by (auto simp: act_then_def split: prod.splits sum.splits)

lemma kept_reads [kept_intros]:
  assumes "kept cs st0 st" "below cs st0 n"
  shows "kept cs st0 (snd (read_signed mk S n st))" "kept cs st0 (snd (read_unsigned mk S n st))"
    "kept cs st0 (snd (read_float mk tag kind S n st))" "kept cs st0 (snd (read_fixed_int mk tag m S n st))"
    "kept cs st0 (snd (raw_load mk S n st))"
  using assms
  by (auto simp: read_signed_def read_unsigned_def read_float_def read_fixed_int_def raw_load_def intro!: kept_intros)

lemma kept_readFloating [kept_intros]:
  "kept cs st0 st \<Longrightarrow> below cs st0 n \<Longrightarrow> kept cs st0 (snd (readFloating b S n st))"
  by (simp add: readFloating_def kept_reads)

lemma kept_readRawFixed [kept_intros]:
  "kept cs st0 st \<Longrightarrow> below cs st0 n \<Longrightarrow> kept cs st0 (snd (readRawFixed b m S n st))"
  by (cases b) (auto simp: readRawFixed_def Let_def intro!: kept_intros)

lemma kept_readRaw [kept_intros]:
  "kept cs st0 st \<Longrightarrow> below cs st0 n \<Longrightarrow> kept cs st0 (snd (readRaw b S n st))"
  by (auto simp: readRaw_def split: prod.splits intro!: kept_intros)

lemma validate_node: "validate S h st = Inr n \<Longrightarrow> h_node h = Some n"
  by (auto simp: validate_def validateHandle_def and_then_Inr_iff split: option.splits if_splits)

lemma kept_toBasicType:
  assumes "kept cs st0 st" "\<forall>n. h_node h = Some n \<longrightarrow> below cs st0 n"
  shows "kept cs st0 (snd (toBasicType b S h st))"
proof (cases "validate S h st")
  case (Inl e)
  then show ?thesis
    using assms by (simp add: toBasicType_def validate_then)
next
  case (Inr n)
  then have "below cs st0 n"
    using assms validate_node by blast
  with Inr assms(1) show ?thesis
    by (cases b) (auto simp: toBasicType_def validate_then Let_def intro!: kept_intros)
qed

lemma kept_readFixed:
  assumes "kept cs st0 st" "\<forall>n. h_node h = Some n \<longrightarrow> below cs st0 n"
  shows "kept cs st0 (snd (readFixed b m S h st))"
proof (cases "validate S h st")
  case (Inl e)
  then show ?thesis
    using assms by (simp add: readFixed_def validate_then)
next
  case (Inr n)
  then have "below cs st0 n"
    using assms validate_node by blast
  with Inr assms show ?thesis
    by (cases b) (auto simp: readFixed_def validate_then intro!: kept_intros kept_toBasicType)
qed

lemma kept_isEmpty:
  assumes "kept cs st0 st" "\<forall>n. h_node h = Some n \<longrightarrow> below cs st0 n"
  shows "kept cs st0 (snd (isEmpty S h st))"
  using assms by (auto simp: isEmpty_def dest!: validate_node split: sum.splits intro!: kept_intros)

lemma kept_arrayElement: "kept cs st0 st \<Longrightarrow> kept cs st0 (snd (arrayElement S h ix st))"
  by (auto simp: arrayElement_def split: sum.splits halt.splits intro!: kept_intros)

lemma kept_next: "kept cs st0 st \<Longrightarrow> kept cs st0 (snd (reader_next S h st))"
proof -
  assume k: "kept cs st0 st"
  have "kept cs st0 (snd (parse_node S c l d st))" for c l d
    using k parse_node_allocates [OF allocates_refl] by (rule kept_allocates)
  then have p: "parse_node S c l d st = (r, st') \<Longrightarrow> kept cs st0 st'" for c l d r st'
    by (metis snd_conv)
  show ?thesis
    using k by (auto simp: reader_next_def split: sum.splits halt.splits prod.splits intro!: kept_intros dest!: p)
qed

text \<open>What a probe of a union alternative does: any sequence of reads below the handle.\<close>

inductive probed :: "input \<Rightarrow> nat list \<Rightarrow> rstate \<Rightarrow> rstate \<Rightarrow> bool" for S cs st0 where
  start: "probed S cs st0 st0"
| basic: "probed S cs st0 st \<Longrightarrow> \<forall>n. h_node h = Some n \<longrightarrow> below cs st0 n \<Longrightarrow>
    probed S cs st0 (snd (toBasicType b S h st))"
| fixed: "probed S cs st0 st \<Longrightarrow> \<forall>n. h_node h = Some n \<longrightarrow> below cs st0 n \<Longrightarrow>
    probed S cs st0 (snd (readFixed b m S h st))"
| empty: "probed S cs st0 st \<Longrightarrow> \<forall>n. h_node h = Some n \<longrightarrow> below cs st0 n \<Longrightarrow>
    probed S cs st0 (snd (isEmpty S h st))"
| element: "probed S cs st0 st \<Longrightarrow> probed S cs st0 (snd (arrayElement S h ix st))"
| follow: "probed S cs st0 st \<Longrightarrow> probed S cs st0 (snd (reader_next S h st))"

lemma probed_kept: "probed S cs st0 st \<Longrightarrow> kept cs st0 st"
  by (induction rule: probed.induct)
    (auto intro: kept_toBasicType kept_readFixed kept_isEmpty kept_arrayElement kept_next)

lemma restore_entries:
  "fold restore_entry (map (\<lambda>c. (c, consumed (X ! c), cell_end (X ! c))) cs) st =
     st\<lparr>rs_cells := fold (\<lambda>c xs. xs[c := X ! c]) cs (rs_cells st)\<rparr>" for X :: "cell list"
proof (induction cs arbitrary: st)
  case (Cons c cs)
  have eq: "\<lparr>consumed = consumed (X ! c), cell_end = cell_end (X ! c)\<rparr> = X ! c"
    by (cases "X ! c") simp
  show ?case
    using Cons by (simp add: restore_entry_def eq)
qed simp

lemma length_fold_update: "length (fold (\<lambda>c xs. xs[c := X ! c]) cs xs) = length xs"
  by (induction cs arbitrary: xs) auto

lemma nth_fold_update:
  "i < length xs \<Longrightarrow> fold (\<lambda>c xs. xs[c := X ! c]) cs xs ! i = (if i \<in> set cs then X ! i else xs ! i)"
  by (induction cs arbitrary: xs) (auto simp: nth_list_update)

text \<open>C25 (invariant). A checkpoint undoes the probes of a union: after any sequence of reads of the
  handle's value and of the values below it, restoring the checkpoint leaves the state as it was when
  the checkpoint was taken, but for the nodes made since, which no handle of before refers to.\<close>

theorem checkpoint_restores:
  assumes "h_node h = Some n" "h_state h" "\<forall>c \<in> set (node_cells n). c < length (rs_cells st0)"
    and "probed S (node_cells n) st0 st"
  shows "restore (take_checkpoint h st0) st =
    st0\<lparr>rs_cells := rs_cells st0 @ drop (length (rs_cells st0)) (rs_cells st)\<rparr>"
proof -
  let ?cs = "node_cells n" and ?X = "rs_cells st0"
  have k: "kept ?cs st0 st"
    by (rule probed_kept [OF assms(4)])
  have "fold (\<lambda>c xs. xs[c := ?X ! c]) ?cs (rs_cells st) = ?X @ drop (length ?X) (rs_cells st)"
    using k assms(3)
    by (auto simp: list_eq_iff_nth_eq length_fold_update nth_fold_update nth_append kept_def)
  then show ?thesis
    using assms(1,2) k
    by (simp add: restore_def take_checkpoint_def captureCheckpoint_def restore_entries kept_def)
qed

lemma checkpoint_restores_witness:
  "let n = Node ((default_node 0)\<lparr>nd_tag := T_True\<rparr>) [] [];
       S = \<lparr>in_data = Some [2], in_size = 1, in_limits = sample_limits, in_sizes = sample_sizes\<rparr>;
       st0 = \<lparr>rs_offset = 1, rs_remaining = 5, rs_framed = True, rs_error = None,
              rs_cells = [\<lparr>consumed = False, cell_end = 1\<rparr>]\<rparr>;
       st = snd (toBasicType B_bool S (handle_of n) st0)
   in st \<noteq> st0 \<and> restore (take_checkpoint (handle_of n) st0) st = st0"
proof -
  let ?n = "Node ((default_node 0)\<lparr>nd_tag := T_True\<rparr>) [] []"
  let ?S = "\<lparr>in_data = Some [2], in_size = 1, in_limits = sample_limits, in_sizes = sample_sizes\<rparr>"
  let ?before = "\<lparr>rs_offset = 1, rs_remaining = 5, rs_framed = True, rs_error = None,
              rs_cells = [\<lparr>consumed = False, cell_end = 1\<rparr>]\<rparr>"
  let ?st = "snd (toBasicType B_bool ?S (handle_of ?n) ?before)"
  have st: "?st = ?before\<lparr>rs_cells := [\<lparr>consumed = True, cell_end = 1\<rparr>]\<rparr>"
    by (simp add: toBasicType_def act_then_def validate_def validateHandle_def handle_of_def default_node_def
        consume_def set_consumed_def)
  have "probed ?S (node_cells ?n) ?before ?st"
    by (rule probed.basic [OF probed.start [of ?S "node_cells ?n" ?before]])
      (simp add: below_def handle_of_def default_node_def)
  then have "restore (take_checkpoint (handle_of ?n) ?before) ?st =
      ?before\<lparr>rs_cells := rs_cells ?before @ drop (length (rs_cells ?before)) (rs_cells ?st)\<rparr>"
    by (intro checkpoint_restores [where n = ?n]) (simp_all add: handle_of_def default_node_def)
  then show ?thesis
    unfolding Let_def st by simp
qed

subsection \<open>A value is read once\<close>

definition quiet :: "node \<Rightarrow> rstate \<Rightarrow> rstate \<Rightarrow> bool" where
  "quiet n st0 st \<longleftrightarrow> nd_cell (nd n) < length (rs_cells st0) \<and> rs_error st = rs_error st0 \<and> length (rs_cells st) = length (rs_cells st0)"

definition once :: "node \<Rightarrow> rstate \<Rightarrow> 'a sa_result \<times> rstate \<Rightarrow> bool" where
  "once n st0 r \<longleftrightarrow> quiet n st0 (snd r) \<and> (\<forall>v. fst r = Inr v \<longrightarrow> consumed (rs_cells (snd r) ! nd_cell (nd n)))"

named_theorems once_intros

lemma once_act_then [once_intros]:
  assumes "quiet n st0 (snd (m st))" "\<And>x t. m st = (Inr x, t) \<Longrightarrow> quiet n st0 t \<Longrightarrow> once n st0 (f x t)"
  shows "once n st0 (act_then m f st)"
  using assms by (auto simp: act_then_def once_def split: prod.splits sum.splits)

lemma once_error [once_intros]: "quiet n st0 st \<Longrightarrow> once n st0 (Inl e, st)"
  by (simp add: once_def)

lemma quiet_refl: "nd_cell (nd n) < length (rs_cells st) \<Longrightarrow> quiet n st st"
  by (simp add: quiet_def)

lemma quiet_charge [once_intros]: "quiet n st0 st \<Longrightarrow> quiet n st0 (snd (charge m st))"
  by (auto simp: charge_def quiet_def)

lemma once_consume [once_intros]: "quiet n st0 st \<Longrightarrow> once n st0 (r, consume n st)"
  by (simp add: once_def quiet_def consume_def set_consumed_def)

lemma once_consumeRaw [once_intros]: "quiet n st0 st \<Longrightarrow> once n st0 (r, consumeRaw n e st)"
  by (simp add: once_def quiet_def consumeRaw_def consume_def set_consumed_def set_end_def)

lemma quiet_consumeRaw: "quiet n st0 st \<Longrightarrow> quiet n st0 (consumeRaw n e st)"
  by (simp add: quiet_def consumeRaw_def consume_def set_consumed_def set_end_def)

lemma once_reads [once_intros]:
  assumes "quiet n st0 st"
  shows "once n st0 (read_signed mk S n st)" "once n st0 (read_unsigned mk S n st)"
    "once n st0 (read_float mk tag kind S n st)" "once n st0 (read_fixed_int mk tag m S n st)"
    "once n st0 (raw_load mk S n st)"
  using assms
  by (auto simp: read_signed_def read_unsigned_def read_float_def read_fixed_int_def raw_load_def intro!: once_intros)

lemma once_readFloating [once_intros]: "quiet n st0 st \<Longrightarrow> once n st0 (readFloating b S n st)"
  by (simp add: readFloating_def once_reads)

lemma once_readRawFixed [once_intros]: "quiet n st0 st \<Longrightarrow> once n st0 (readRawFixed b m S n st)"
  by (cases b) (auto simp: readRawFixed_def Let_def intro!: once_intros quiet_consumeRaw)

lemma once_readRaw [once_intros]: "quiet n st0 st \<Longrightarrow> once n st0 (readRaw b S n st)"
  by (auto simp: readRaw_def split: prod.splits intro!: once_intros)

lemma once_toBasicType:
  assumes "validate S h st = Inr n" "nd_cell (nd n) < length (rs_cells st)"
  shows "once n st (toBasicType b S h st)"
  using assms
  by (cases b) (auto simp: toBasicType_def validate_then Let_def intro!: once_intros quiet_refl)

lemma once_readFixed:
  assumes "validate S h st = Inr n" "nd_cell (nd n) < length (rs_cells st)"
  shows "once n st (readFixed b m S h st)"
  using assms
  by (cases b) (auto simp: readFixed_def validate_then intro!: once_intros once_toBasicType quiet_refl)

lemma validate_again:
  assumes "validate S h st = Inr n" "once n st (Inr v, st')"
  shows "validate S h st' = Inl (Err (SaError SaParseError ''Binary value was already consumed''))"
  using assms by (auto simp: validate_def validateHandle_def and_then_Inr_iff once_def quiet_def
      split: option.splits if_splits)

text \<open>C27 (safety). A value is read at most once: when a conversion of a handle succeeds, every later
  conversion of the same handle, to whatever type, fails with the error for a consumed value and
  changes nothing.\<close>

theorem value_read_once:
  assumes "h_node h = Some n" "nd_cell (nd n) < length (rs_cells st)"
    and "toBasicType b S h st = (Inr v, st') \<or> readFixed b m S h st = (Inr v, st')"
  shows "toBasicType b' S h st' = (Inl (Err (SaError SaParseError ''Binary value was already consumed'')), st') \<and>
    readFixed b' m' S h st' = (Inl (Err (SaError SaParseError ''Binary value was already consumed'')), st') \<and>
    isEmpty S h st' = (False, st')"
proof -
  have "\<exists>n'. validate S h st = Inr n'"
    using assms(3) by (cases "validate S h st") (auto simp: toBasicType_def readFixed_def validate_then)
  then have v: "validate S h st = Inr n"
    using validate_node assms(1) by fastforce
  have "once n st (Inr v, st')"
    using once_toBasicType [OF v assms(2), of b] once_readFixed [OF v assms(2), of b m] assms(3) by auto
  from validate_again [OF v this] show ?thesis
    by (simp add: toBasicType_def readFixed_def validate_then isEmpty_def)
qed

lemma value_read_once_witness:
  "let n = Node ((default_node 0)\<lparr>nd_tag := T_True\<rparr>) [] [];
       S = \<lparr>in_data = Some [2], in_size = 1, in_limits = sample_limits, in_sizes = sample_sizes\<rparr>;
       st = \<lparr>rs_offset = 1, rs_remaining = 5, rs_framed = True, rs_error = None,
             rs_cells = [\<lparr>consumed = False, cell_end = 1\<rparr>]\<rparr>;
       (r, st') = toBasicType B_bool S (handle_of n) st
   in r = Inr (C_scalar (S_bool True)) \<and> fst (toBasicType B_string S (handle_of n) st') =
      Inl (Err (SaError SaParseError ''Binary value was already consumed''))"
proof -
  let ?n = "Node ((default_node 0)\<lparr>nd_tag := T_True\<rparr>) [] []"
  let ?S = "\<lparr>in_data = Some [2], in_size = 1, in_limits = sample_limits, in_sizes = sample_sizes\<rparr>"
  let ?st = "\<lparr>rs_offset = 1, rs_remaining = 5, rs_framed = True, rs_error = None,
             rs_cells = [\<lparr>consumed = False, cell_end = 1\<rparr>]\<rparr>"
  have read: "toBasicType B_bool ?S (handle_of ?n) ?st =
      (Inr (C_scalar (S_bool True)), ?st\<lparr>rs_cells := [\<lparr>consumed = True, cell_end = 1\<rparr>]\<rparr>)"
    by (simp add: toBasicType_def act_then_def validate_def validateHandle_def handle_of_def default_node_def
        consume_def set_consumed_def)
  have "h_node (handle_of ?n) = Some ?n" "nd_cell (nd ?n) < length (rs_cells ?st)"
    by (simp_all add: handle_of_def default_node_def)
  from value_read_once [OF this disjI1 [OF read], of B_string] show ?thesis
    unfolding Let_def read by simp
qed

end
