(* ===== verification/Binary_Field_Names.thy ===== *)
theory Binary_Field_Names
  imports Binary_Facts
begin

unbundle bit_operations_syntax

text \<open>
  The field names a compact-key object can carry. A name is written as its hash when that is shorter
  and literally otherwise, and the two kinds of key have their own indices; the empty name and a
  repeated literal name fall between the checks of the writer and of the reader.
\<close>

lemma not_hashed_empty: "\<not> useHashedFieldId []"
  by code_simp

lemma index_keys_no_empty:
  "named [] = None \<Longrightarrow> fst (index_keys T_IdObject ks ix named ids) [] = None"
  by (induction ks arbitrary: ix named ids)
    (auto simp: index_member_def index_emplace_def Let_def split: option.splits)

text \<open>(error). A reflected field with the empty name is lost: the writer accepts it and writes its
  value, the reader parses the object without error, and \<open>objectField\<close> with the empty name reports
  the field as missing, because the member is indexed under the hashed id 0.\<close>

theorem empty_field_name_lost:
  assumes "d = D_idobject fs" "[] \<in> fst ` set fs" "tree_ok lim 0 (tree_of d)"
    and "tree_cost Z (tree_of d) \<le> max_total_allocated_bytes lim" "max_total_allocated_bytes lim \<le> size_max"
    and "length (w_buffer (write_document d)) \<le> max_input_bytes lim" "doc_ok d"
  shows "writer_result (write_document d) = Inr () \<and>
    (case new_reader (Some (w_buffer (write_document d))) (length (w_buffer (write_document d))) lim Z of (S, st0) \<Rightarrow>
      \<exists>h st. reader_root S st0 = (Inr h, st) \<and> toObject S h st = Inr h \<and> objectSize h = length fs \<and>
        objectField S h [] st = Inl (Err (missingField [])))"
proof -
  let ?b = "w_buffer (write_document d)"
  obtain S st0 where new: "new_reader (Some ?b) (length ?b) lim Z = (S, st0)"
    by fastforce
  have buf: "?b = BinaryMagic @ emit (tree_of d)"
    by (simp add: write_document_eq wrote_def ensureDocumentHeader_def appendBytes_def new_writer_def)
  obtain st n where root: "reader_root S st0 = (Inr (handle_of n), st)" "ready S st" "placed S st (tree_of d) n"
    by (rule root_tree [OF new [unfolded buf] assms(3,4,5) assms(6) [unfolded buf]])
  have tag: "tree_tag (tree_of d) = T_IdObject"
    by (simp add: assms(1))
  note m = placed_member [OF root(3) disjI2 [OF tag]]
  have "nd_named (nd n) [] = None"
    using m(4) index_keys_no_empty [of Map.empty "map fst (keyed (tree_of d))" 0 Map.empty] tag
    by (metis fst_conv)
  then have "objectField S (handle_of n) [] st = Inl (Err (missingField []))"
    using placed_node(1) [OF root(3)] tag
    by (simp add: objectField_def validate_placed [OF root(2,3)] not_hashed_empty member_at_def)
  moreover have "objectSize (handle_of n) = length fs"
    using m(2) by (simp add: objectSize_def handle_of_def keyed_def assms(1))
  moreover have "writer_result (write_document d) = Inr ()"
    using assms(7) by (simp add: write_document_eq wrote_def writer_result_def ensureDocumentHeader_def
        appendBytes_def new_writer_def)
  ultimately show ?thesis
    using root(1) toObject_placed [OF root(2,3) disjI2 [OF tag]] unfolding new prod.case by blast
qed

definition unnamed_doc :: doc where
  "unnamed_doc = D_idobject [([], D_null)]"

lemma empty_field_name_lost_witness:
  "writer_result (write_document unnamed_doc) = Inr () \<and>
    (case new_reader (Some (w_buffer (write_document unnamed_doc))) (length (w_buffer (write_document unnamed_doc)))
       sample_limits sample_sizes of (S, st0) \<Rightarrow>
      \<exists>h st. reader_root S st0 = (Inr h, st) \<and> toObject S h st = Inr h \<and>
        objectField S h [] st = Inl (Err (missingField [])))"
proof -
  have t: "tree_of unnamed_doc = W_Ided [(Key_Name [], W_Null)]"
    by (simp add: unnamed_doc_def key_of_def not_hashed_empty)
  have "tree_ok sample_limits 0 (tree_of unnamed_doc)"
    unfolding t by (simp add: sample_limits_def key_ok_def index_member_def)
  moreover have "tree_cost sample_sizes (tree_of unnamed_doc) \<le> max_total_allocated_bytes sample_limits"
    unfolding t by (simp add: sample_limits_def sample_sizes_def)
  moreover have "max_total_allocated_bytes sample_limits \<le> size_max"
    by (simp add: sample_limits_def size_max_def)
  moreover have "length (w_buffer (write_document unnamed_doc)) \<le> max_input_bytes sample_limits"
    by code_simp
  moreover have "doc_ok unnamed_doc"
    by (simp add: unnamed_doc_def hashed_ids_def)
  ultimately show ?thesis
    using empty_field_name_lost [of unnamed_doc "[([], D_null)]" sample_limits sample_sizes]
    by (auto simp: unnamed_doc_def split: prod.splits)
qed

definition duplicate_doc :: doc where
  "duplicate_doc = D_idobject [([0x69, 0x64], D_null), ([0x69, 0x64], D_null)]"

definition duplicate_input :: input where
  "duplicate_input = \<lparr>in_data = Some [0x4E, 0x50, 2, 10, 2, 4, 0x69, 0x64, 0, 4, 0x69, 0x64, 0], in_size = 13,
     in_limits = sample_limits, in_sizes = sample_sizes\<rparr>"

lemma duplicate_bytes:
  "w_buffer (write_document duplicate_doc) = [0x4E, 0x50, 2, 10, 2, 4, 0x69, 0x64, 0, 4, 0x69, 0x64, 0]"
  "writer_result (write_document duplicate_doc) = Inr ()"
  by code_simp+

lemma duplicate_keys:
  "read_key duplicate_input T_IdObject 13 5 Map.empty Map.empty = Inr ([0x69, 0x64], 0, 8)"
  "read_key duplicate_input T_IdObject 13 9 [[0x69, 0x64] \<mapsto> 0] Map.empty =
    Inl (Err (SaError SaInvalidField ''Binary object contains a duplicate reflected field name''))"
  by code_simp+

lemma duplicate_count: "readCount duplicate_input 4 13 10 ''object'' = Inr (2, 5)"
  by (simp add: readCount_iff duplicate_input_def in_bytes_def) code_simp

lemma duplicate_parse:
  "\<exists>st'. parse_node duplicate_input 3 13 0 \<lparr>rs_offset = 3, rs_remaining = 1000, rs_framed = True, rs_error = None, rs_cells = []\<rparr> =
   (Inl (Err (SaError SaInvalidField ''Binary object contains a duplicate reflected field name'')), st')"
proof -
  have S: "in_limits duplicate_input = sample_limits" "in_sizes duplicate_input = sample_sizes" "in_size duplicate_input = 13"
     "in_bytes duplicate_input = [0x4E, 0x50, 2, 10, 2, 4, 0x69, 0x64, 0, 4, 0x69, 0x64, 0]"
     by (simp_all add: duplicate_input_def in_bytes_def)
  have bytes: "byte_at (in_bytes duplicate_input) 3 = Inr (tag_byte T_IdObject)" "byte_at (in_bytes duplicate_input) 8 = Inr (tag_byte T_Null)"
    by (simp_all add: S byte_at_def)
  have null: "parse_node duplicate_input 8 13 1 st = (Inr (node_of W_Null 8 1 (length (rs_cells st)), 9), after st 200 (tree_cells W_Null 8))"
    if "200 \<le> rs_remaining st" "rs_remaining st \<le> size_max" for st
    using parse_node_parsed [of duplicate_input 13 1] that
    unfolding parsed_as_def fits_def by (auto simp: S seg_Cons seg_Nil sample_limits_def sample_sizes_def intro!: exI [of _ W_Null])
  have tags: "tag_of_byte 10 = Some T_IdObject"
    using tag_of_byte_iff [of 10 T_IdObject] by simp
  note S' = S(1-3)
  have size_max: "size_max = 18446744073709551615" by (simp add: size_max_def)
  have two: "\<not> (18446744073709551615 :: nat) div Suc (Suc 0) < 48"
    by (simp add: numeral_2_eq_2 [symmetric])
  show ?thesis
    by (subst parse_node.simps)
      (simp add: S' bytes(1) [simplified] sample_limits_def sample_sizes_def charge_then make_node_after Let_def tags,
       simp add: duplicate_count [unfolded numeral_2_eq_2] act_then_def chargeProduct_def charge_def size_max two
         duplicate_keys null [simplified] index_member_def index_emplace_def)
qed

text \<open>(error). A short name used for two fields of a reflected object, as a flattened record can
  bring about, is written without an error and makes the document unreadable: the writer compares
  hashed ids only, and a name that is not longer than its hash is written literally, while the reader refuses a
  repeated literal name.\<close>

theorem duplicate_short_name_unreadable:
  "writer_result (write_document duplicate_doc) = Inr () \<and>
   (case new_reader (Some (w_buffer (write_document duplicate_doc))) (length (w_buffer (write_document duplicate_doc)))
      sample_limits sample_sizes of (S, st) \<Rightarrow>
      \<exists>h st'. reader_root S st = (Inr h, st') \<and>
        toObject S h st' = Inl (Err (SaError SaInvalidField ''Binary object contains a duplicate reflected field name'')))"
proof -
  let ?e = "SaError SaInvalidField ''Binary object contains a duplicate reflected field name''"
  let ?st = "\<lparr>rs_offset = 3, rs_remaining = 1000, rs_framed = True, rs_error = None, rs_cells = []\<rparr>"
  have new: "new_reader (Some (w_buffer (write_document duplicate_doc))) (length (w_buffer (write_document duplicate_doc)))
      sample_limits sample_sizes = (duplicate_input, ?st)"
    by (simp add: duplicate_bytes new_reader_def duplicate_input_def in_bytes_def BinaryMagic_def sample_limits_def)
  obtain st' where parse: "parse_node duplicate_input 3 13 0 ?st = (Inl (Err ?e), st')"
    using duplicate_parse by blast
  obtain h st'' where h: "errorValue True ?e st' = (h, st'')"
    by fastforce
  then have root: "reader_root duplicate_input ?st = (Inr h, st'')"
    using parse by (simp add: reader_root_def duplicate_input_def)
  have "rs_error st'' = None"
    using h parse_node_allocates [OF allocates_refl, of ?st duplicate_input 3 13 0] parse
    by (auto simp: errorValue_def make_node_def allocates_def)
  then have "toObject duplicate_input h st'' = Inl (Err ?e)"
    using h by (auto simp: errorValue_def make_node_def toObject_def validate_def validateHandle_def duplicate_input_def)
  then show ?thesis
    unfolding new prod.case using root duplicate_bytes(2) by blast
qed

end
