(* ===== verification/Binary_Raw.thy ===== *)
theory Binary_Raw
  imports Binary_Facts
begin

unbundle bit_operations_syntax

text \<open>
  The raw records of the binary format and the backend's root operations: the arithmetic parsers of
  \<open>serialization/parsing/basic.hpp\<close>, the \<open>raw_fixed_data\<close> loops of \<open>serialization/parsing/reflection.hpp\<close>,
  which write and read the fields of a reflected record without tags, and \<open>BinaryBackend\<close> of
  \<open>serialization/binary_serializer.hpp\<close>. A field that is no number is \<open>None\<close>; a tag that is not
  declared has the value 0.
\<close>

fun to_string :: "nat \<Rightarrow> string" where
  "to_string n = (if n < 10 then [char_of (48 + n)] else to_string (n div 10) @ [char_of (48 + n mod 10)])"

declare to_string.simps [simp del]

definition parser_context :: "string \<Rightarrow> 'a sa_result \<Rightarrow> 'a sa_result" where
  "parser_context prefix r =
     (case r of Inl (Err e) \<Rightarrow> Inl (Err (SaError (sa_ec e) (prefix @ sa_msg e))) | _ \<Rightarrow> r)"

text \<open>\<open>tag_property::fixed_length<T>::get\<close>: the tag value 1 stands for the size of the type.\<close>

definition fixed_length_of :: "nat \<Rightarrow> nat \<Rightarrow> nat" where
  "fixed_length_of tag n = (if tag = 1 then n else tag)"

definition fixed_length_error :: "nat \<Rightarrow> nat \<Rightarrow> sa_error" where
  "fixed_length_error n got =
     SaError SaInvalidLength (''Fixed-length arithmetic field requires '' @ to_string n @
       '' bytes for its C++ type, got '' @ to_string got)"

definition write_arithmetic ::
  "nat \<Rightarrow> scalar \<Rightarrow> place \<Rightarrow> scope option \<Rightarrow> writer \<Rightarrow> unit sa_result \<times> scope option \<times> writer" where
  "write_arithmetic tag v p parent w =
     (if tag \<noteq> 0 then
        let fixed_length = fixed_length_of tag (scalar_size v) in
        if fixed_length \<noteq> scalar_size v
        then (Inl (Err (fixed_length_error (scalar_size v) fixed_length)), parent, w)
        else (Inr (), put_fixed p v parent w)
      else (Inr (), put_value p (C_scalar v) parent w))"

definition read_arithmetic :: "nat \<Rightarrow> basic \<Rightarrow> input \<Rightarrow> handle \<Rightarrow> cvalue act" where
  "read_arithmetic tag b S h st =
     (if tag \<noteq> 0 then
        let fixed_length = fixed_length_of tag (basic_size b) in
        if fixed_length \<noteq> basic_size b
        then (Inl (Err (fixed_length_error (basic_size b) fixed_length)), st)
        else readFixed b fixed_length S h st
      else toBasicType b S h st)"

subsection \<open>Raw records\<close>

record raw_field =
  rf_name :: string
  rf_ignore :: bool
  rf_fixed :: nat

definition requires_fixed :: "string \<Rightarrow> sa_error" where
  "requires_fixed name =
     SaError SaInvalidLength (''raw_fixed_data field '' @ [CHR 0x27] @ name @ [CHR 0x27] @ '' requires fixed_length'')"

definition not_arithmetic :: "string \<Rightarrow> sa_error" where
  "not_arithmetic name =
     SaError SaInvalidType (''raw_fixed_data field '' @ [CHR 0x27] @ name @ [CHR 0x27] @
       '' must be an arithmetic or enum value with a fixed wire width'')"

fun write_raw_fields :: "(raw_field \<times> scalar option) list \<Rightarrow> writer \<Rightarrow> unit sa_result \<times> writer" where
  "write_raw_fields [] w = (Inr (), w)"
| "write_raw_fields ((f, v) # fs) w =
     (if rf_ignore f then write_raw_fields fs w
      else if rf_fixed f = 0 then (Inl (Err (requires_fixed (rf_name f))), w)
      else case v of
        None \<Rightarrow> (Inl (Err (not_arithmetic (rf_name f))), w)
      | Some s \<Rightarrow>
        (case write_arithmetic (rf_fixed f) s At_Root None w of
           (Inr _, _, w) \<Rightarrow> write_raw_fields fs w
         | (Inl e, _, w) \<Rightarrow>
             (parser_context (''Failed to write raw fixed field '' @ [CHR 0x27] @ rf_name f @ [CHR 0x27] @ '': '')
                (Inl e), w)))"

definition write_raw_record :: "(raw_field \<times> scalar option) list \<Rightarrow> writer \<Rightarrow> unit sa_result \<times> writer" where
  "write_raw_record fs w = write_raw_fields fs (beginRawFixedDataAsRoot w)"

fun read_raw_fields :: "input \<Rightarrow> (raw_field \<times> basic option) list \<Rightarrow> handle \<Rightarrow> cvalue list \<Rightarrow> cvalue list act" where
  "read_raw_fields S [] current vs st = (Inr vs, st)"
| "read_raw_fields S ((f, b) # fs) current vs st =
     (if rf_ignore f then read_raw_fields S fs current vs st
      else if rf_fixed f = 0 then (Inl (Err (requires_fixed (rf_name f))), st)
      else case b of
        None \<Rightarrow> (Inl (Err (not_arithmetic (rf_name f))), st)
      | Some b \<Rightarrow>
        (case read_arithmetic (rf_fixed f) b S current st of
           (Inr v, st) \<Rightarrow> act_then (reader_next S current) (\<lambda>current. read_raw_fields S fs current (vs @ [v])) st
         | (Inl e, st) \<Rightarrow>
             (parser_context (''Failed to parse raw fixed field '' @ [CHR 0x27] @ rf_name f @ [CHR 0x27] @ '': '')
                (Inl e), st)))"

definition read_raw_record :: "input \<Rightarrow> (raw_field \<times> basic option) list \<Rightarrow> handle \<Rightarrow> cvalue list act" where
  "read_raw_record S fs h st =
     (if \<not> isRaw h then (Inl (Err (SaError SaInvalidType ''raw_fixed_data requires a raw binary input segment'')), st)
      else read_raw_fields S fs h [] st)"

subsection \<open>The backend\<close>

record out_state =
  os_writer :: writer
  os_wroteRoot :: bool

text \<open>What the tag of the value at the root says: no \<open>raw_fixed_data\<close>, or the tag on a type that is or is
  not a reflected object with named fields.\<close>

datatype root_tag = Root_Framed | Root_Raw bool

definition raw_unreflected :: sa_error where
  "raw_unreflected =
     SaError SaInvalidType ''raw_fixed_data requires a reflected object with named fixed-width fields''"

definition backend_write ::
  "root_tag \<Rightarrow> (writer \<Rightarrow> unit sa_result \<times> writer) \<Rightarrow> out_state \<Rightarrow> unit sa_result \<times> out_state" where
  "backend_write tag parser_write os =
     (if os_wroteRoot os
      then (Inl (Err (SaError SaInvalidLength
              ''Binary V2 accepts exactly one root value; wrap multiple values in a tuple or object'')), os)
      else if tag = Root_Raw False then (Inl (Err raw_unreflected), os\<lparr>os_wroteRoot := True\<rparr>)
      else
        let (r, w) = parser_write (os_writer os);
            os = \<lparr>os_writer = w, os_wroteRoot = True\<rparr>
        in case r of Inl e \<Rightarrow> (Inl e, os) | Inr _ \<Rightarrow> (writer_result w, os))"

text \<open>The parse works on a copy of the value.\<close>

definition backend_read ::
  "root_tag \<Rightarrow> input \<Rightarrow> (handle \<Rightarrow> 'v act) \<Rightarrow> 'v \<Rightarrow> rstate \<Rightarrow> unit sa_result \<times> 'v \<times> rstate" where
  "backend_read tag S parser_read current st =
     (if tag = Root_Raw False then (Inl (Err raw_unreflected), current, st)
      else
        let st = (if tag = Root_Raw True then reader_beginRaw st else st)
        in case act_then (reader_root S) parser_read st of
          (Inl e, st) \<Rightarrow> (Inl e, current, st)
        | (Inr parsed, st) \<Rightarrow>
          (case reader_finish S st of Inl e \<Rightarrow> (Inl e, current, st) | Inr _ \<Rightarrow> (Inr (), parsed, st)))"

definition backend_finish_output :: "out_state \<Rightarrow> unit sa_result \<Rightarrow> unit sa_result" where
  "backend_finish_output os r = (case r of Inl e \<Rightarrow> Inl e | Inr _ \<Rightarrow> writer_result (os_writer os))"

definition backend_finish_input :: "input \<Rightarrow> rstate \<Rightarrow> unit sa_result \<Rightarrow> unit sa_result" where
  "backend_finish_input S st r = (case r of Inl e \<Rightarrow> Inl e | Inr _ \<Rightarrow> reader_finish S st)"

subsection \<open>Raw records are read back\<close>

definition raw_ok :: "raw_field \<times> scalar \<Rightarrow> bool" where
  "raw_ok f \<longleftrightarrow> \<not> rf_ignore (fst f) \<and> (rf_fixed (fst f) = 1 \<or> rf_fixed (fst f) = scalar_size (snd f))"

definition raw_bytes :: "(raw_field \<times> scalar) list \<Rightarrow> bytes" where
  "raw_bytes fs = concat (map (\<lambda>f. scalar_bytes (snd f)) fs)"

lemma scalar_size_pos [simp]: "0 < scalar_size s" "scalar_size s \<noteq> 0"
  by (cases s; simp)+

lemma length_scalar_bytes [simp]: "length (scalar_bytes s) = scalar_size s"
  by (cases s) simp_all

lemma basic_size_of [simp]: "basic_size (basic_of s) = scalar_size s"
  by (cases s) simp_all

lemma write_raw_fields_bytes:
  "list_all raw_ok fs \<Longrightarrow> w_raw w \<Longrightarrow>
     write_raw_fields (map (\<lambda>f. (fst f, Some (snd f))) fs) w = (Inr (), w\<lparr>w_buffer := w_buffer w @ raw_bytes fs\<rparr>)"
proof (induction fs arbitrary: w)
  case (Cons f fs)
  have "write_arithmetic (rf_fixed (fst f)) (snd f) At_Root None w =
      (Inr (), None, w\<lparr>w_buffer := w_buffer w @ scalar_bytes (snd f)\<rparr>)"
    using Cons.prems
    by (auto simp: write_arithmetic_def fixed_length_of_def raw_ok_def put_fixed_def fixedValueAsRoot_def
        writeRawFixed_def appendBytes_def Let_def)
  then show ?case
    using Cons by (auto simp: raw_ok_def raw_bytes_def)
qed (simp add: raw_bytes_def)

lemma raw_load_value:
  assumes "seg (in_bytes S) (rs_offset st) bs" "LENGTH('a) div 8 * 8 = LENGTH('a::len)"
    and "bs = (if LENGTH('a) = 8 then mem_bytes v else mem_bytes (htobe (v :: 'a word)))"
  shows "raw_load mk S n st = (Inr (C_scalar (mk v)), consumeRaw n (rs_offset st + LENGTH('a) div 8) st)"
proof -
  have "length bs = LENGTH('a) div 8"
    by (simp add: assms(3))
  from load_seg [OF assms(1) this] show ?thesis
    using assms(2) by (simp add: raw_load_def betoh_htobe mem_value_mem_bytes assms(3))
qed

lemma readRawFixed_value:
  assumes "seg (in_bytes S) (rs_offset st) (scalar_bytes s)" "in_size S = length (in_bytes S)"
  shows "readRawFixed (basic_of s) (scalar_size s) S n st =
    (Inr (C_scalar s), consumeRaw n (rs_offset st + scalar_size s) st)"
proof -
  have room: "\<not> size_diff (in_size S) (rs_offset st) < scalar_size s"
    using seg_le [OF assms(1)] assms(2) by simp
  show ?thesis
  proof (cases s)
    case (S_bool b)
    then show ?thesis
      using assms room by (cases b) (auto simp: readRawFixed_def seg_Cons byte_at_def Let_def)
  qed (use assms room in \<open>simp_all add: readRawFixed_def raw_load_value\<close>)
qed

text \<open>A fresh raw handle at the offset.\<close>

definition raw_at :: "rstate \<Rightarrow> handle \<Rightarrow> bool" where
  "raw_at st h \<longleftrightarrow> h_state h \<and> (\<exists>n. h_node h = Some n \<and> nd_raw (nd n) \<and> nd_error (nd n) = None \<and>
     nd_cell (nd n) < length (rs_cells st) \<and> \<not> consumed (rs_cells st ! nd_cell (nd n)))"

lemma rawValue_at:
  assumes "rs_offset st < in_size S" "rawValue S st = (h, st')"
  shows "raw_at st' h" "rs_offset st' = rs_offset st" "rs_error st' = rs_error st" "rs_framed st' = rs_framed st"
    "rs_remaining st' = rs_remaining st"
  using assms
  by (auto simp: rawValue_def make_node_def set_end_def raw_at_def default_node_def Let_def)

lemma read_raw_step:
  assumes "ready S st" "raw_at st h" "seg (in_bytes S) (rs_offset st) (scalar_bytes s)"
    and "tag = 1 \<or> tag = scalar_size s"
  obtains st' where "read_arithmetic tag (basic_of s) S h st = (Inr (C_scalar s), st')" "ready S st'"
    "rs_offset st' = rs_offset st + scalar_size s" "reader_next S h st' = map_prod Inr (\<lambda>st. st) (rawValue S st')"
proof -
  from assms(2) obtain n where n: "h_state h" "h_node h = Some n" "nd_raw (nd n)" "nd_error (nd n) = None"
    "\<not> consumed (rs_cells st ! nd_cell (nd n))"
    by (auto simp: raw_at_def)
  have size: "in_size S = length (in_bytes S)"
    using assms(1) by (simp add: ready_def)
  let ?st' = "consumeRaw n (rs_offset st + scalar_size s) st"
  have "validate S h st = Inr n"
    using assms(1) n by (auto simp: validate_def validateHandle_def ready_def)
  then have "readFixed (basic_of s) (scalar_size s) S h st = (Inr (C_scalar s), ?st')"
    using n(3) by (simp add: readFixed_def validate_then readRawFixed_value [OF assms(3) size])
  then have "read_arithmetic tag (basic_of s) S h st = (Inr (C_scalar s), ?st')"
    using assms(4) by (auto simp: read_arithmetic_def fixed_length_of_def Let_def)
  moreover have st': "ready S ?st'" "rs_offset ?st' = rs_offset st + scalar_size s"
    using assms(1) by (simp_all add: ready_def consumeRaw_def consume_def set_consumed_def set_end_def)
  moreover have "validateHandle S h ?st' = Inr n"
    using st'(1) n by (auto simp: validateHandle_def ready_def)
  then have "reader_next S h ?st' = map_prod Inr (\<lambda>st. st) (rawValue S ?st')"
    using n(3) by (simp add: reader_next_def)
  ultimately show ?thesis
    using that by blast
qed

lemma read_raw_fields_values:
  "list_all raw_ok fs \<Longrightarrow> ready S st \<Longrightarrow> seg (in_bytes S) (rs_offset st) (raw_bytes fs) \<Longrightarrow>
   (fs \<noteq> [] \<Longrightarrow> raw_at st h) \<Longrightarrow>
   \<exists>st'. read_raw_fields S (map (\<lambda>f. (fst f, Some (basic_of (snd f)))) fs) h vs st =
       (Inr (vs @ map (\<lambda>f. C_scalar (snd f)) fs), st') \<and>
     rs_error st' = None \<and> rs_offset st' = rs_offset st + length (raw_bytes fs)"
proof (induction fs arbitrary: st h vs)
  case Nil
  then show ?case
    by (simp add: raw_bytes_def ready_def)
next
  case (Cons f fs)
  have here: "seg (in_bytes S) (rs_offset st) (scalar_bytes (snd f))"
    and rest: "seg (in_bytes S) (rs_offset st + scalar_size (snd f)) (raw_bytes fs)"
    using Cons.prems(3) by (simp_all add: raw_bytes_def seg_append)
  have "raw_at st h"
    using Cons.prems(4) by simp
  moreover have "rf_fixed (fst f) = 1 \<or> rf_fixed (fst f) = scalar_size (snd f)"
    using Cons.prems(1) by (simp add: raw_ok_def)
  ultimately obtain st1 where st1:
    "read_arithmetic (rf_fixed (fst f)) (basic_of (snd f)) S h st = (Inr (C_scalar (snd f)), st1)"
    "ready S st1" "rs_offset st1 = rs_offset st + scalar_size (snd f)"
    "reader_next S h st1 = map_prod Inr (\<lambda>st. st) (rawValue S st1)"
    by (rule read_raw_step [OF Cons.prems(2) _ here])
  obtain h2 st2 where nxt: "rawValue S st1 = (h2, st2)"
    by fastforce
  have st2: "ready S st2" "rs_offset st2 = rs_offset st1"
    using nxt st1(2) by (auto simp: rawValue_def make_node_def set_end_def ready_def Let_def)
  have at: "raw_at st2 h2" if "fs \<noteq> []"
  proof (rule rawValue_at(1) [OF _ nxt])
    have "0 < length (raw_bytes fs)"
      using that by (cases fs) (simp_all add: raw_bytes_def)
    then show "rs_offset st1 < in_size S"
      using seg_le [OF rest] st1(2,3) by (simp add: ready_def del: length_greater_0_conv)
  qed
  have "rf_fixed (fst f) \<noteq> 0" "\<not> rf_ignore (fst f)"
    using Cons.prems(1) by (auto simp: raw_ok_def)
  then have "read_raw_fields S (map (\<lambda>f. (fst f, Some (basic_of (snd f)))) (f # fs)) h vs st =
      read_raw_fields S (map (\<lambda>f. (fst f, Some (basic_of (snd f)))) fs) h2 (vs @ [C_scalar (snd f)]) st2"
    using st1 nxt by (simp add: act_then_def)
  with Cons.IH [OF _ st2(1) _ at, of "vs @ [C_scalar (snd f)]"] show ?case
    using Cons.prems(1) rest st1(3) st2(2) by (simp add: raw_bytes_def add.assoc)
qed

text \<open>C26 (roundtrip). A raw record is read back: \<open>BinaryBackend\<close> writes a record whose fields all have
  a fixed length that agrees with their type as the concatenation of their big-endian bytes, without
  magic, tags or keys, and reading these bytes with the same schema gives the values written and
  consumes the input to its end, even when the bytes happen to start with the magic of a framed
  document.\<close>

theorem raw_record_roundtrip:
  assumes "list_all raw_ok fs" "fs \<noteq> []" "length (raw_bytes fs) \<le> max_input_bytes lim"
  shows "case backend_write (Root_Raw True) (write_raw_record (map (\<lambda>f. (fst f, Some (snd f))) fs))
           \<lparr>os_writer = new_writer [], os_wroteRoot = False\<rparr> of (r, os) \<Rightarrow>
      r = Inr () \<and> w_buffer (os_writer os) = raw_bytes fs \<and>
      (case new_reader (Some (w_buffer (os_writer os))) (length (w_buffer (os_writer os))) lim Z of (S, st) \<Rightarrow>
        \<exists>st'. backend_read (Root_Raw True) S (read_raw_record S (map (\<lambda>f. (fst f, Some (basic_of (snd f)))) fs)) old st =
          (Inr (), map (\<lambda>f. C_scalar (snd f)) fs, st'))"
proof -
  let ?b = "raw_bytes fs"
  have w: "backend_write (Root_Raw True) (write_raw_record (map (\<lambda>f. (fst f, Some (snd f))) fs))
       \<lparr>os_writer = new_writer [], os_wroteRoot = False\<rparr> =
     (Inr (), \<lparr>os_writer = (beginRawFixedDataAsRoot (new_writer []))\<lparr>w_buffer := ?b\<rparr>, os_wroteRoot = True\<rparr>)"
    using assms(1)
    by (simp add: backend_write_def write_raw_record_def write_raw_fields_bytes beginRawFixedDataAsRoot_def
        new_writer_def writer_result_def)
  obtain S st0 where new: "new_reader (Some ?b) (length ?b) lim Z = (S, st0)"
    by fastforce
  let ?start = "reader_beginRaw st0"
  have S: "in_data S = Some ?b" "in_size S = length ?b" "in_bytes S = ?b"
    using new by (auto simp: new_reader_def in_bytes_def Let_def split: if_splits)
  have start: "rs_error ?start = None" "rs_offset ?start = 0" "\<not> rs_framed ?start"
    using new assms(3) by (auto simp: new_reader_def reader_beginRaw_def Let_def split: if_splits)
  obtain h st1 where raw: "rawValue S ?start = (h, st1)"
    by fastforce
  have pos: "0 < length ?b"
    using assms(2) by (cases fs) (simp_all add: raw_bytes_def)
  note at = rawValue_at [OF _ raw]
  have "raw_at st1 h" "rs_offset st1 = 0" "ready S st1"
    using at start pos S by (simp_all add: ready_def)
  moreover have "seg (in_bytes S) 0 ?b"
    by (simp add: S seg_def subspan_def)
  ultimately obtain st' where read: "read_raw_fields S (map (\<lambda>f. (fst f, Some (basic_of (snd f)))) fs) h [] st1 =
      (Inr (map (\<lambda>f. C_scalar (snd f)) fs), st')" "rs_error st' = None" "rs_offset st' = length ?b"
    using read_raw_fields_values [OF assms(1), of S st1 h "[]"] by auto
  have "isRaw h"
    using \<open>raw_at st1 h\<close> by (auto simp: raw_at_def isRaw_def)
  then have "backend_read (Root_Raw True) S (read_raw_record S (map (\<lambda>f. (fst f, Some (basic_of (snd f)))) fs)) old st0 =
      (Inr (), map (\<lambda>f. C_scalar (snd f)) fs, st')"
    using start raw read S
    by (simp add: backend_read_def reader_root_def act_then_def read_raw_record_def reader_finish_def)
  then show ?thesis
    unfolding w prod.case by (simp add: new)
qed

definition sample_raw :: "(raw_field \<times> scalar) list" where
  "sample_raw = [(\<lparr>rf_name = ''a'', rf_ignore = False, rf_fixed = 1\<rparr>, S_u16 0x4E50),
     (\<lparr>rf_name = ''b'', rf_ignore = False, rf_fixed = 1\<rparr>, S_bool True)]"

lemma raw_record_roundtrip_witness:
  "case backend_write (Root_Raw True) (write_raw_record (map (\<lambda>f. (fst f, Some (snd f))) sample_raw))
       \<lparr>os_writer = new_writer [], os_wroteRoot = False\<rparr> of (r, os) \<Rightarrow>
     r = Inr () \<and> w_buffer (os_writer os) = raw_bytes sample_raw"
proof -
  have "length (raw_bytes sample_raw) \<le> max_input_bytes sample_limits"
    by (simp add: sample_raw_def raw_bytes_def sample_limits_def)
  moreover have "list_all raw_ok sample_raw" "sample_raw \<noteq> []"
    by (simp_all add: sample_raw_def raw_ok_def)
  ultimately show ?thesis
    using raw_record_roundtrip [where fs = sample_raw and lim = sample_limits and Z = sample_sizes and old = "[]"]
    by (auto split: prod.splits)
qed

text \<open>(error). A read that fails changes nothing but the reader: whatever the parser of the value did
  before the failure, and also when it succeeded but bytes are left over, the value keeps what it
  held; a second root value is refused without a byte written.\<close>

theorem backend_transactional:
  "(fst (backend_read tag S p old st) \<noteq> Inr () \<longrightarrow> fst (snd (backend_read tag S p old st)) = old) \<and>
   (fst (backend_read tag S p old st) = Inr () \<longrightarrow> rs_offset (snd (snd (backend_read tag S p old st))) = in_size S) \<and>
   (os_wroteRoot os \<longrightarrow> snd (backend_write tag q os) = os \<and> fst (backend_write tag q os) \<noteq> Inr ()) \<and>
   os_wroteRoot (snd (backend_write tag q os))"
  by (auto simp: backend_read_def reader_finish_def backend_write_def Let_def split: prod.splits sum.splits
      option.splits if_splits)

lemma backend_transactional_witness:
  "let S = \<lparr>in_data = Some [5], in_size = 1, in_limits = sample_limits, in_sizes = sample_sizes\<rparr>;
       st = \<lparr>rs_offset = 0, rs_remaining = 5, rs_framed = False, rs_error = None, rs_cells = []\<rparr>;
       r = backend_read Root_Framed S (\<lambda>h st. (Inr True, st)) False st
   in fst r \<noteq> Inr () \<and> fst (snd r) = False"
proof -
  let ?S = "\<lparr>in_data = Some [5], in_size = 1, in_limits = sample_limits, in_sizes = sample_sizes\<rparr>"
  let ?st = "\<lparr>rs_offset = 0, rs_remaining = 5, rs_framed = False, rs_error = None, rs_cells = []\<rparr>"
  have "fst (backend_read Root_Framed ?S (\<lambda>h st. (Inr True, st)) False ?st) \<noteq> Inr ()"
    by (simp add: backend_read_def reader_root_def rawValue_def make_node_def set_end_def act_then_def
        reader_finish_def Let_def)
  with conjunct1 [OF backend_transactional, of Root_Framed ?S "\<lambda>h st. (Inr True, st)" False ?st] show ?thesis
    unfolding Let_def by simp
qed

end
