(* ===== verification/Parse_Types.thy ===== *)
theory Parse_Types
  imports Binary_Raw
begin

text \<open>
  The C++ types the generic parsers of \<open>serialization/parsing\<close> are instantiated at, and their values.
  A type is a value of \<open>ty\<close>, with what a template knows of it: the insertion of a container, which
  its comparator or hash decides, the enumerators of an enum, the fields of a reflected record with
  their tags and default member initializers. A value is a \<open>tvalue\<close>; \<open>of_type\<close> relates the two. The
  tags are those the binary format reads; a tag that is not declared has its default value.
\<close>

subsection \<open>Values, tags and types\<close>

datatype tvalue =
    V_basic cvalue
  | V_null
  | V_bits "bool list"
  | V_list "tvalue list"
  | V_map "(tvalue \<times> tvalue) list"
  | V_opt "tvalue option"
  | V_alt nat tvalue

record ptags =
  tg_fixed :: nat
  tg_untagged :: bool
  tg_ignore :: bool
  tg_skippable :: bool
  tg_flat :: bool
  tg_name :: "bytes option"

definition NoTags :: ptags where
  "NoTags = \<lparr>tg_fixed = 0, tg_untagged = False, tg_ignore = False, tg_skippable = False, tg_flat = False,
     tg_name = None\<rparr>"

text \<open>\<open>UnionTag\<close> describes one union boundary and is stripped lt the payload.\<close>

definition unionPayloadTags :: "ptags \<Rightarrow> ptags" where
  "unionPayloadTags tags = tags\<lparr>tg_untagged := False\<rparr>"

record field =
  fd_name :: bytes
  fd_tags :: ptags
  fd_init :: tvalue

datatype opt_kind = O_optional | O_shared_ptr | O_unique_ptr

text \<open>What a record is parsed into: a copy of the target, a new value, or the target.\<close>

datatype rec_kind = Rec_Copy | Rec_Fresh | Rec_InPlace

datatype ty =
    Ty_Basic basic
  | Ty_Nullptr
  | Ty_Monostate
  | Ty_Enum basic "(bytes \<times> scalar) list"
  | Ty_StringView
  | Ty_CString bool
  | Ty_Byte
  | Ty_Bitset nat
  | Ty_Seq "tvalue list \<Rightarrow> tvalue \<Rightarrow> tvalue list \<times> bool" ty
  | Ty_VectorBool
  | Ty_Array nat ty
  | Ty_Map bool "(tvalue \<times> tvalue) list \<Rightarrow> tvalue \<Rightarrow> tvalue \<Rightarrow> (tvalue \<times> tvalue) list \<times> bool" ty ty
  | Ty_Tuple "ty list"
  | Ty_Pair ty ty
  | Ty_Opt opt_kind ty
  | Ty_Atomic ty
  | Ty_Variant "ty list"
  | Ty_NameValuePair bytes ty
  | Ty_Record rec_kind "(field \<times> ty) list"
  | Ty_Positional rec_kind "(field \<times> ty) list"

subsection \<open>Containers\<close>

text \<open>\<open>push_back\<close> of vector, deque and list; insertion into the ordered containers, whose comparator
  is \<open>lt\<close>: a set and a map refuse an equivalent element, a multiset and a multimap put it last
  among its equals.\<close>

definition push_back :: "tvalue list \<Rightarrow> tvalue \<Rightarrow> tvalue list \<times> bool" where
  "push_back xs v = (xs @ [v], True)"

fun ordered_insert :: "('a \<Rightarrow> 'k) \<Rightarrow> ('k \<Rightarrow> 'k \<Rightarrow> bool) \<Rightarrow> bool \<Rightarrow> 'a list \<Rightarrow> 'a \<Rightarrow> 'a list \<times> bool" where
  "ordered_insert key lt unique [] v = ([v], True)"
| "ordered_insert key lt unique (x # xs) v =
     (if lt (key v) (key x) then (v # x # xs, True)
      else if unique \<and> \<not> lt (key x) (key v) then (x # xs, False)
      else map_prod (Cons x) (\<lambda>b. b) (ordered_insert key lt unique xs v))"

definition set_insert :: "(tvalue \<Rightarrow> tvalue \<Rightarrow> bool) \<Rightarrow> bool \<Rightarrow> tvalue list \<Rightarrow> tvalue \<Rightarrow> tvalue list \<times> bool" where
  "set_insert lt unique = ordered_insert (\<lambda>v. v) lt unique"

definition map_emplace ::
  "(tvalue \<Rightarrow> tvalue \<Rightarrow> bool) \<Rightarrow> bool \<Rightarrow> (tvalue \<times> tvalue) list \<Rightarrow> tvalue \<Rightarrow> tvalue \<Rightarrow> (tvalue \<times> tvalue) list \<times> bool" where
  "map_emplace lt unique m k v = ordered_insert fst lt unique m (k, v)"

text \<open>The elements inserted one after the other; \<open>None\<close> when one of them is refused.\<close>

fun insert_all :: "('a list \<Rightarrow> 'a \<Rightarrow> 'a list \<times> bool) \<Rightarrow> 'a list \<Rightarrow> 'a list \<Rightarrow> 'a list option" where
  "insert_all ins xs [] = Some xs"
| "insert_all ins xs (v # vs) = (case ins xs v of (ys, ok) \<Rightarrow> if ok then insert_all ins ys vs else None)"

lemma insert_all_push_back: "insert_all push_back xs vs = Some (xs @ vs)"
  by (induction vs arbitrary: xs) (auto simp: push_back_def)

text \<open>A container that holds its elements in its order is rebuilt by inserting them in that order.\<close>

lemma ordered_insert_last:
  assumes "\<forall>x \<in> set xs. \<not> lt (key v) (key x) \<and> (unique \<longrightarrow> lt (key x) (key v))"
  shows "ordered_insert key lt unique xs v = (xs @ [v], True)"
  using assms by (induction xs) auto

lemma insert_all_ordered:
  assumes "sorted_wrt (\<lambda>x y. \<not> lt (key y) (key x) \<and> (unique \<longrightarrow> lt (key x) (key y))) (xs @ vs)"
  shows "insert_all (ordered_insert key lt unique) xs vs = Some (xs @ vs)"
  using assms
proof (induction vs arbitrary: xs)
  case (Cons v vs)
  then have "ordered_insert key lt unique xs v = (xs @ [v], True)"
    by (intro ordered_insert_last) (auto simp: sorted_wrt_append)
  moreover have "insert_all (ordered_insert key lt unique) (xs @ [v]) vs = Some ((xs @ [v]) @ vs)"
    using Cons.prems by (intro Cons.IH) simp
  ultimately show ?case
    by simp
qed simp

subsection \<open>The value of \<open>T{}\<close>\<close>

fun zero_scalar :: "basic \<Rightarrow> scalar" where
  "zero_scalar B_i8 = S_i8 0"
| "zero_scalar B_i16 = S_i16 0"
| "zero_scalar B_i32 = S_i32 0"
| "zero_scalar B_i64 = S_i64 0"
| "zero_scalar B_u8 = S_u8 0"
| "zero_scalar B_u16 = S_u16 0"
| "zero_scalar B_u32 = S_u32 0"
| "zero_scalar B_u64 = S_u64 0"
| "zero_scalar B_f32 = S_f32 0"
| "zero_scalar B_f64 = S_f64 0"
| "zero_scalar _ = S_bool False"

definition zero_basic :: "basic \<Rightarrow> cvalue" where
  "zero_basic b = (if b = B_string then C_string [] else C_scalar (zero_scalar b))"

fun default_of :: "ty \<Rightarrow> tvalue" where
  "default_of (Ty_Basic b) = V_basic (zero_basic b)"
| "default_of Ty_Nullptr = V_null"
| "default_of Ty_Monostate = V_null"
| "default_of (Ty_Enum b names) = V_basic (zero_basic b)"
| "default_of Ty_StringView = V_basic (C_string [])"
| "default_of (Ty_CString c) = V_opt None"
| "default_of Ty_Byte = V_basic (C_scalar (S_u8 0))"
| "default_of (Ty_Bitset n) = V_bits (replicate n False)"
| "default_of (Ty_Seq ins t) = V_list []"
| "default_of Ty_VectorBool = V_list []"
| "default_of (Ty_Array n t) = V_list (replicate n (default_of t))"
| "default_of (Ty_Map str ins k t) = V_map []"
| "default_of (Ty_Tuple ts) = V_list (map default_of ts)"
| "default_of (Ty_Pair k t) = V_list [default_of k, default_of t]"
| "default_of (Ty_Opt kind t) = V_opt None"
| "default_of (Ty_Atomic t) = default_of t"
| "default_of (Ty_Variant ts) = (case ts of [] \<Rightarrow> V_null | t # _ \<Rightarrow> V_alt 0 (default_of t))"
| "default_of (Ty_NameValuePair n t) = default_of t"
| "default_of (Ty_Record kind fs) = V_list (map (\<lambda>f. fd_init (fst f)) fs)"
| "default_of (Ty_Positional kind fs) = V_list (map (\<lambda>f. fd_init (fst f)) fs)"

fun items :: "tvalue \<Rightarrow> tvalue list" where
  "items (V_list vs) = vs"
| "items _ = []"

fun entries :: "tvalue \<Rightarrow> (tvalue \<times> tvalue) list" where
  "entries (V_map es) = es"
| "entries _ = []"

subsection \<open>The values of a type\<close>

fun of_type :: "ty \<Rightarrow> tvalue \<Rightarrow> bool"
  and of_types :: "ty list \<Rightarrow> tvalue list \<Rightarrow> bool"
  and of_fields :: "(field \<times> ty) list \<Rightarrow> tvalue list \<Rightarrow> bool"
  and of_alternative :: "ty list \<Rightarrow> nat \<Rightarrow> tvalue \<Rightarrow> bool"
where
  "of_type (Ty_Basic b) v = (case v of V_basic x \<Rightarrow> basic_of_value x = b | _ \<Rightarrow> False)"
| "of_type Ty_Nullptr v = (v = V_null)"
| "of_type Ty_Monostate v = (v = V_null)"
| "of_type (Ty_Enum b names) v = (case v of V_basic (C_scalar x) \<Rightarrow> basic_of x = b | _ \<Rightarrow> False)"
| "of_type Ty_StringView v = (case v of V_basic (C_string x) \<Rightarrow> True | _ \<Rightarrow> False)"
| "of_type (Ty_CString c) v = (case v of V_opt None \<Rightarrow> True | V_opt (Some (V_basic (C_string x))) \<Rightarrow> True | _ \<Rightarrow> False)"
| "of_type Ty_Byte v = (case v of V_basic (C_scalar (S_u8 x)) \<Rightarrow> True | _ \<Rightarrow> False)"
| "of_type (Ty_Bitset n) v = (case v of V_bits bs \<Rightarrow> length bs = n | _ \<Rightarrow> False)"
| "of_type (Ty_Seq ins t) v = (case v of V_list vs \<Rightarrow> list_all (of_type t) vs | _ \<Rightarrow> False)"
| "of_type Ty_VectorBool v = (case v of V_list vs \<Rightarrow> list_all (of_type (Ty_Basic B_bool)) vs | _ \<Rightarrow> False)"
| "of_type (Ty_Array n t) v = (case v of V_list vs \<Rightarrow> length vs = n \<and> list_all (of_type t) vs | _ \<Rightarrow> False)"
| "of_type (Ty_Map str ins k t) v =
     (case v of V_map es \<Rightarrow> list_all (\<lambda>e. of_type k (fst e) \<and> of_type t (snd e)) es \<and>
        (str \<longrightarrow> list_all (\<lambda>e. \<exists>n. fst e = V_basic (C_string n)) es)
      | _ \<Rightarrow> False)"
| "of_type (Ty_Tuple ts) v = (case v of V_list vs \<Rightarrow> of_types ts vs | _ \<Rightarrow> False)"
| "of_type (Ty_Pair k t) v = (case v of V_list [a, b] \<Rightarrow> of_type k a \<and> of_type t b | _ \<Rightarrow> False)"
| "of_type (Ty_Opt kind t) v = (case v of V_opt None \<Rightarrow> True | V_opt (Some x) \<Rightarrow> of_type t x | _ \<Rightarrow> False)"
| "of_type (Ty_Atomic t) v = of_type t v"
| "of_type (Ty_Variant ts) v = (case v of V_alt i x \<Rightarrow> of_alternative ts i x | _ \<Rightarrow> False)"
| "of_type (Ty_NameValuePair n t) v = of_type t v"
| "of_type (Ty_Record kind fs) v = (case v of V_list vs \<Rightarrow> of_fields fs vs | _ \<Rightarrow> False)"
| "of_type (Ty_Positional kind fs) v = (case v of V_list vs \<Rightarrow> of_fields fs vs | _ \<Rightarrow> False)"
| "of_types [] vs = (vs = [])"
| "of_types (t # ts) vs = (case vs of [] \<Rightarrow> False | v # vs \<Rightarrow> of_type t v \<and> of_types ts vs)"
| "of_fields [] vs = (vs = [])"
| "of_fields (f # fs) vs = (case vs of [] \<Rightarrow> False | v # vs \<Rightarrow> of_type (snd f) v \<and> of_fields fs vs)"
| "of_alternative [] i v = False"
| "of_alternative (t # ts) i v = (case i of 0 \<Rightarrow> of_type t v | Suc j \<Rightarrow> of_alternative ts j v)"

end
