(* ===== verification/Parse_Write.thy ===== *)
theory Parse_Write
  imports Parse_Types
begin

text \<open>
  \<open>parser_write\<close> for the binary writer: the \<open>WriteParser\<close>s of \<open>serialization/parsing\<close> (basic, sequence,
  map, tuple, optional, pointer, atomic, utility, variant, reflection). A parser returns its result,
  the scope of its parent and the writer; the scope a parser opens is finished when it returns, on
  every path. \<open>NEKO_WRITE_NULL_FOR_EMPTY_OPTIONAL\<close> is not defined.
\<close>

type_synonym pwrite = "place \<Rightarrow> scope option \<Rightarrow> writer \<Rightarrow> unit sa_result \<times> scope option \<times> writer"

type_synonym pbody = "scope option \<Rightarrow> writer \<Rightarrow> unit sa_result \<times> scope option \<times> writer"

definition quoted :: "string \<Rightarrow> string" where
  "quoted s = [CHR 0x27] @ s @ [CHR 0x27]"

text \<open>A container that is opened, filled and closed.\<close>

definition in_array :: "nat \<Rightarrow> pbody \<Rightarrow> pwrite" where
  "in_array n body p parent w =
     (let (child, parent, w) = open_array p n parent w;
          (r, child, w) = body (Some child) w
      in (r, parent, close_scope child w))"

definition in_object :: "nat \<Rightarrow> pbody \<Rightarrow> pwrite" where
  "in_object n body p parent w =
     (let (child, parent, w) = open_object p n parent w;
          (r, child, w) = body (Some child) w
      in (r, parent, close_scope child w))"

definition in_idobject :: "nat \<Rightarrow> pbody \<Rightarrow> pwrite" where
  "in_idobject n body p parent w =
     (let (child, parent, w) = open_idobject p n parent w;
          (r, child, w) = body (Some child) w
      in (r, parent, close_scope child w))"

definition write_ok :: "scope option \<times> writer \<Rightarrow> unit sa_result \<times> scope option \<times> writer" where
  "write_ok r = (Inr (), r)"

definition write_failed :: "sa_code \<Rightarrow> string \<Rightarrow> pbody" where
  "write_failed c msg parent w = (Inl (Err (SaError c msg)), parent, w)"

definition write_context :: "string \<Rightarrow> unit sa_result \<times> scope option \<times> writer \<Rightarrow> unit sa_result \<times> scope option \<times> writer" where
  "write_context msg r = (parser_context msg (fst r), snd r)"

text \<open>\<open>parser_write_string\<close>: the binary writer has no raw values.\<close>

definition parser_write_string :: "bytes \<Rightarrow> pwrite" where
  "parser_write_string s p parent w = write_ok (put_value p (C_string s) parent w)"

definition write_basic :: "nat \<Rightarrow> cvalue \<Rightarrow> pwrite" where
  "write_basic tag v p parent w =
     (case v of C_string s \<Rightarrow> parser_write_string s p parent w | C_scalar s \<Rightarrow> write_arithmetic tag s p parent w)"

text \<open>\<open>Reflect<T>::name\<close> of an enum: the first enumerator with this value.\<close>

fun enum_name :: "(bytes \<times> scalar) list \<Rightarrow> scalar \<Rightarrow> bytes" where
  "enum_name [] v = []"
| "enum_name (e # es) v = (if snd e = v then fst e else enum_name es v)"

definition write_enum :: "nat \<Rightarrow> (bytes \<times> scalar) list \<Rightarrow> scalar \<Rightarrow> pwrite" where
  "write_enum tag names v p parent w =
     (let name = enum_name names v in
      if name \<noteq> [] then parser_write_string name p parent w else write_arithmetic tag v p parent w)"

definition bits_string :: "bool list \<Rightarrow> bytes" where
  "bits_string bs = map (\<lambda>b. if b then 0x31 else 0x30) bs"

text \<open>The loop over the elements of a sequence.\<close>

fun write_items :: "(tvalue \<Rightarrow> pwrite) \<Rightarrow> string \<Rightarrow> nat \<Rightarrow> tvalue list \<Rightarrow> pbody" where
  "write_items wr msg i [] parent w = (Inr (), parent, w)"
| "write_items wr msg i (v # vs) parent w =
     (case wr v In_Array parent w of
        (Inl e, parent, w) \<Rightarrow> (parser_context (msg @ to_string i @ '': '') (Inl e), parent, w)
      | (Inr _, parent, w) \<Rightarrow> write_items wr msg (Suc i) vs parent w)"

definition parser_write_sequence :: "(tvalue \<Rightarrow> pwrite) \<Rightarrow> string \<Rightarrow> tvalue list \<Rightarrow> pwrite" where
  "parser_write_sequence wr msg vs = in_array (length vs) (write_items wr msg 0 vs)"

text \<open>Two parts of one object: an entry of a map and a pair.\<close>

definition write_two ::
  "(bytes \<times> (tvalue \<Rightarrow> pwrite) \<times> tvalue \<times> string) \<Rightarrow> (bytes \<times> (tvalue \<Rightarrow> pwrite) \<times> tvalue \<times> string) \<Rightarrow> pbody" where
  "write_two a b parent w =
     (let (name1, wr1, v1, msg1) = a; (name2, wr2, v2, msg2) = b in
      case wr1 v1 (In_Object name1) parent w of
        (Inl e, parent, w) \<Rightarrow> (parser_context msg1 (Inl e), parent, w)
      | (Inr _, parent, w) \<Rightarrow> write_context msg2 (wr2 v2 (In_Object name2) parent w))"

fun write_entries :: "(tvalue \<Rightarrow> pwrite) \<Rightarrow> (tvalue \<Rightarrow> pwrite) \<Rightarrow> nat \<Rightarrow> (tvalue \<times> tvalue) list \<Rightarrow> pbody" where
  "write_entries wk wv i [] parent w = (Inr (), parent, w)"
| "write_entries wk wv i (e # es) parent w =
     (case in_object 2
         (write_two (bytes_of_chars ''key'', wk, fst e, ''Failed to write map entry '' @ to_string i @ '' key: '')
            (bytes_of_chars ''value'', wv, snd e, ''Failed to write map entry '' @ to_string i @ '' value: ''))
         In_Array parent w of
        (Inl e, parent, w) \<Rightarrow> (Inl e, parent, w)
      | (Inr _, parent, w) \<Rightarrow> write_entries wk wv (Suc i) es parent w)"

definition parser_write_key_value_array ::
  "(tvalue \<Rightarrow> pwrite) \<Rightarrow> (tvalue \<Rightarrow> pwrite) \<Rightarrow> (tvalue \<times> tvalue) list \<Rightarrow> pwrite" where
  "parser_write_key_value_array wk wv es = in_array (length es) (write_entries wk wv 0 es)"

fun key_string :: "tvalue \<Rightarrow> bytes" where
  "key_string (V_basic (C_string n)) = n"
| "key_string _ = []"

fun write_members :: "(tvalue \<Rightarrow> pwrite) \<Rightarrow> (tvalue \<times> tvalue) list \<Rightarrow> pbody" where
  "write_members wr [] parent w = (Inr (), parent, w)"
| "write_members wr (e # es) parent w =
     (case wr (snd e) (In_Object (key_string (fst e))) parent w of
        (Inl x, parent, w) \<Rightarrow>
          (parser_context (''Failed to write map field '' @ quoted (chars_of_bytes (key_string (fst e))) @ '': '')
             (Inl x), parent, w)
      | (Inr _, parent, w) \<Rightarrow> write_members wr es parent w)"

definition parser_write_string_key_map :: "(tvalue \<Rightarrow> pwrite) \<Rightarrow> (tvalue \<times> tvalue) list \<Rightarrow> pwrite" where
  "parser_write_string_key_map wr es = in_object (length es) (write_members wr es)"

text \<open>\<open>traits::optional_like_type\<close>: \<open>std::optional\<close> and the variants with a \<open>std::monostate\<close>; a
  pointer is not. \<open>set_null\<close> gives the empty value.\<close>

definition is_monostate :: "ty \<Rightarrow> bool" where
  "is_monostate t = (case t of Ty_Monostate \<Rightarrow> True | _ \<Rightarrow> False)"

fun monostate_index :: "ty list \<Rightarrow> nat" where
  "monostate_index [] = 0"
| "monostate_index (t # ts) = (if is_monostate t then 0 else Suc (monostate_index ts))"

definition optional_like :: "ty \<Rightarrow> bool" where
  "optional_like t =
     (case t of Ty_Opt kind _ \<Rightarrow> kind = O_optional | Ty_Variant ts \<Rightarrow> list_ex is_monostate ts | _ \<Rightarrow> False)"

definition set_null :: "ty \<Rightarrow> tvalue" where
  "set_null t = (case t of Ty_Variant ts \<Rightarrow> V_alt (monostate_index ts) V_null | _ \<Rightarrow> V_opt None)"

definition has_value :: "ty \<Rightarrow> tvalue \<Rightarrow> bool" where
  "has_value t v = (case v of V_alt i _ \<Rightarrow> (case t of Ty_Variant ts \<Rightarrow> i \<noteq> monostate_index ts | _ \<Rightarrow> True) | _ \<Rightarrow> v \<noteq> V_opt None)"

definition parser_should_skip_empty_field :: "ty \<Rightarrow> tvalue \<Rightarrow> bool" where
  "parser_should_skip_empty_field t v \<longleftrightarrow> optional_like t \<and> \<not> has_value t v"

subsection \<open>Reflected fields\<close>

text \<open>The fields of the nested record when the tag \<open>flat\<close> applies: the type is a record with names.\<close>

definition flat_fields :: "field \<times> ty \<Rightarrow> (field \<times> ty) list option" where
  "flat_fields f = (case snd f of Ty_Record kind gs \<Rightarrow> if tg_flat (fd_tags (fst f)) then Some gs else None | _ \<Rightarrow> None)"

definition field_name :: "field \<Rightarrow> bytes" where
  "field_name f = (case tg_name (fd_tags f) of Some n \<Rightarrow> n | None \<Rightarrow> fd_name f)"

lemma flat_fields_size [simp]: "flat_fields (f, t) = Some gs \<Longrightarrow> size_list (size_prod (\<lambda>_. 0) size) gs < size t"
  by (auto simp: flat_fields_def split: ty.splits if_splits)

function parser_reflect_emitted_field_count :: "(field \<times> ty) list \<Rightarrow> tvalue list \<Rightarrow> nat" where
  "parser_reflect_emitted_field_count [] vs = 0"
| "parser_reflect_emitted_field_count ((f, t) # fs) vs =
     (case vs of
        [] \<Rightarrow> 0
      | v # vs \<Rightarrow>
        (if tg_ignore (fd_tags f) \<or> parser_should_skip_empty_field t v then 0
         else case flat_fields (f, t) of
           Some gs \<Rightarrow> parser_reflect_emitted_field_count gs (items v)
         | None \<Rightarrow> 1) + parser_reflect_emitted_field_count fs vs)"
  by pat_completeness auto

termination
  by (relation "measure (\<lambda>(fs, vs). size_list (size_prod (\<lambda>_. 0) size) fs)")
    (auto dest!: flat_fields_size simp del: flat_fields_size)

definition parser_reflect_field_count :: "(field \<times> ty) list \<Rightarrow> nat" where
  "parser_reflect_field_count fs = length (filter (\<lambda>f. \<not> tg_ignore (fd_tags (fst f))) fs)"

subsection \<open>The parsers\<close>

text \<open>A value of another type than \<open>T\<close> does not exist in C++; it is no value of the functions below.\<close>

definition no_value :: pbody where
  "no_value parent w = (Inl Out_Of_Bounds, parent, w)"

definition write_null :: pwrite where
  "write_null p parent w = write_ok (put_null p parent w)"

definition write_c_string :: "tvalue \<Rightarrow> pwrite" where
  "write_c_string v p parent w =
     (case v of
        V_opt None \<Rightarrow> write_null p parent w
      | V_opt (Some (V_basic (C_string s))) \<Rightarrow> parser_write_string s p parent w
      | _ \<Rightarrow> no_value parent w)"

definition write_bitset :: "tvalue \<Rightarrow> pwrite" where
  "write_bitset v p parent w =
     (case v of V_bits bs \<Rightarrow> parser_write_string (bits_string bs) p parent w | _ \<Rightarrow> no_value parent w)"

definition write_byte :: "nat \<Rightarrow> tvalue \<Rightarrow> pwrite" where
  "write_byte tag v p parent w =
     (case v of V_basic (C_scalar x) \<Rightarrow> write_arithmetic tag x p parent w | _ \<Rightarrow> no_value parent w)"

definition write_vector_bool :: "tvalue list \<Rightarrow> pwrite" where
  "write_vector_bool vs =
     parser_write_sequence
       (\<lambda>x p parent w. case x of V_basic x \<Rightarrow> write_basic 0 x p parent w | _ \<Rightarrow> no_value parent w)
       ''Failed to write vector<bool> element '' vs"

definition write_array :: "nat \<Rightarrow> (tvalue \<Rightarrow> pwrite) \<Rightarrow> tvalue list \<Rightarrow> pwrite" where
  "write_array n wr vs = in_array n (write_items wr ''Failed to write fixed array element '' 0 vs)"

definition write_pair :: "(tvalue \<Rightarrow> pwrite) \<Rightarrow> (tvalue \<Rightarrow> pwrite) \<Rightarrow> tvalue \<Rightarrow> pwrite" where
  "write_pair wk wv v p parent w =
     (case items v of
        [a, b] \<Rightarrow> in_object 2
          (write_two (bytes_of_chars ''first'', wk, a, ''Failed to write pair field '' @ quoted ''first'' @ '': '')
             (bytes_of_chars ''second'', wv, b, ''Failed to write pair field '' @ quoted ''second'' @ '': '')) p parent w
      | _ \<Rightarrow> no_value parent w)"

text \<open>\<open>std::optional\<close>, and the owning pointers, whose parsers read the same.\<close>

definition write_optional :: "(tvalue \<Rightarrow> pwrite) \<Rightarrow> tvalue \<Rightarrow> pwrite" where
  "write_optional wr v p parent w =
     (case v of
        V_opt None \<Rightarrow> write_null p parent w
      | V_opt (Some x) \<Rightarrow> wr x p parent w
      | _ \<Rightarrow> no_value parent w)"

definition write_pointer :: "(tvalue \<Rightarrow> pwrite) \<Rightarrow> tvalue \<Rightarrow> pwrite" where
  "write_pointer wr v p parent w =
     (case v of
        V_opt None \<Rightarrow> write_null p parent w
      | V_opt (Some x) \<Rightarrow> wr x p parent w
      | _ \<Rightarrow> no_value parent w)"

text \<open>A variant; \<open>active\<close> writes the alternative of an index.\<close>

definition write_variant :: "bool \<Rightarrow> (nat \<Rightarrow> tvalue \<Rightarrow> pwrite) \<Rightarrow> tvalue \<Rightarrow> pwrite" where
  "write_variant untagged active v p parent w =
     (case v of
        V_alt i x \<Rightarrow>
          if untagged then active i x p parent w
          else in_array 2 (\<lambda>parent w.
            case write_arithmetic 0 (S_u64 (of_nat i)) In_Array parent w of
              (Inl e, parent, w) \<Rightarrow> (parser_context ''Failed to write variant index: '' (Inl e), parent, w)
            | (Inr _, parent, w) \<Rightarrow> active i x In_Array parent w) p parent w
      | _ \<Rightarrow> no_value parent w)"

definition write_name_value_pair :: "bytes \<Rightarrow> (tvalue \<Rightarrow> pwrite) \<Rightarrow> tvalue \<Rightarrow> pwrite" where
  "write_name_value_pair n wr v = in_object 1 (wr v (In_Object n))"

function parser_write :: "ty \<Rightarrow> ptags \<Rightarrow> tvalue \<Rightarrow> pwrite"
  and write_tuple :: "ty list \<Rightarrow> nat \<Rightarrow> tvalue list \<Rightarrow> pbody"
  and writeActive :: "ty list \<Rightarrow> nat \<Rightarrow> ptags \<Rightarrow> tvalue \<Rightarrow> pwrite"
  and parser_write_reflect_fields :: "(field \<times> ty) list \<Rightarrow> tvalue list \<Rightarrow> pbody"
  and write_positional :: "(field \<times> ty) list \<Rightarrow> nat \<Rightarrow> tvalue list \<Rightarrow> pbody"
where
  "parser_write (Ty_Basic b) tags v p parent w =
     (case v of V_basic x \<Rightarrow> write_basic (tg_fixed tags) x p parent w | _ \<Rightarrow> no_value parent w)"
| "parser_write Ty_Nullptr tags v p parent w = write_null p parent w"
| "parser_write Ty_Monostate tags v p parent w = write_null p parent w"
| "parser_write (Ty_Enum b names) tags v p parent w =
     (case v of V_basic (C_scalar x) \<Rightarrow> write_enum (tg_fixed tags) names x p parent w | _ \<Rightarrow> no_value parent w)"
| "parser_write Ty_StringView tags v p parent w =
     (case v of V_basic (C_string s) \<Rightarrow> parser_write_string s p parent w | _ \<Rightarrow> no_value parent w)"
| "parser_write (Ty_CString c) tags v p parent w = write_c_string v p parent w"
| "parser_write Ty_Byte tags v p parent w = write_byte (tg_fixed tags) v p parent w"
| "parser_write (Ty_Bitset n) tags v p parent w = write_bitset v p parent w"
| "parser_write (Ty_Seq ins t) tags v p parent w =
     parser_write_sequence (\<lambda>x. parser_write t NoTags x) ''Failed to write sequence element '' (items v) p parent w"
| "parser_write Ty_VectorBool tags v p parent w = write_vector_bool (items v) p parent w"
| "parser_write (Ty_Array n t) tags v p parent w = write_array n (\<lambda>x. parser_write t NoTags x) (items v) p parent w"
| "parser_write (Ty_Map str ins k t) tags v p parent w =
     (if str then parser_write_string_key_map (\<lambda>x. parser_write t NoTags x) (entries v) p parent w
      else parser_write_key_value_array (\<lambda>x. parser_write k NoTags x) (\<lambda>x. parser_write t NoTags x) (entries v) p parent w)"
| "parser_write (Ty_Tuple ts) tags v p parent w =
     in_array (length ts) (write_tuple ts 0 (items v)) p parent w"
| "parser_write (Ty_Pair k t) tags v p parent w = 
     write_pair (\<lambda>x. parser_write k NoTags x) (\<lambda>x. parser_write t NoTags x) v p parent w"
| "parser_write (Ty_Opt kind t) tags v p parent w = 
     (if kind = O_optional then write_optional (\<lambda>x. parser_write t tags x) v p parent w
      else write_pointer (\<lambda>x. parser_write t tags x) v p parent w)"
| "parser_write (Ty_Atomic t) tags v p parent w = parser_write t tags v p parent w"
| "parser_write (Ty_Variant ts) tags v p parent w = 
     write_variant (tg_untagged tags) (\<lambda>i x. writeActive ts i (unionPayloadTags tags) x) v p parent w"
| "parser_write (Ty_NameValuePair n t) tags v p parent w = 
     write_name_value_pair n (\<lambda>x. parser_write t NoTags x) v p parent w"
| "parser_write (Ty_Record kind fs) tags v p parent w =
     in_idobject (parser_reflect_emitted_field_count fs (items v)) (parser_write_reflect_fields fs (items v)) p parent w"
| "parser_write (Ty_Positional kind fs) tags v p parent w =
     in_array (parser_reflect_field_count fs) (write_positional fs 0 (items v)) p parent w"
| "write_tuple [] i vs parent w = (Inr (), parent, w)"
| "write_tuple (t # ts) i vs parent w =
     (case vs of
        [] \<Rightarrow> no_value parent w
      | v # vs \<Rightarrow>
        (case write_context (''Failed to write tuple element '' @ to_string i @ '': '') (parser_write t NoTags v In_Array parent w) of
           (Inl e, parent, w) \<Rightarrow> (Inl e, parent, w)
         | (Inr _, parent, w) \<Rightarrow> write_tuple ts (Suc i) vs parent w))"
| "writeActive [] i tags v p parent w = write_failed SaInvalidIndex ''Variant active index is out of range'' parent w"
| "writeActive (t # ts) i tags v p parent w =
     (case i of 0 \<Rightarrow> parser_write t tags v p parent w | Suc j \<Rightarrow> writeActive ts j tags v p parent w)"
| "parser_write_reflect_fields [] vs parent w = (Inr (), parent, w)"
| "parser_write_reflect_fields ((f, t) # fs) vs parent w =
     (case vs of
        [] \<Rightarrow> no_value parent w
      | v # vs \<Rightarrow>
        (case
           (if tg_ignore (fd_tags f) then (Inr (), parent, w)
            else case flat_fields (f, t) of
              Some gs \<Rightarrow> parser_write_reflect_fields gs (items v) parent w
            | None \<Rightarrow>
              if parser_should_skip_empty_field t v then (Inr (), parent, w)
              else write_context
                (''Failed to write field '' @ quoted (chars_of_bytes (field_name f)) @ '': '')
                (parser_write t (fd_tags f) v (In_IdObject (field_name f)) parent w)) of
           (Inl e, parent, w) \<Rightarrow> (Inl e, parent, w)
         | (Inr _, parent, w) \<Rightarrow> parser_write_reflect_fields fs vs parent w))"
| "write_positional [] i vs parent w = (Inr (), parent, w)"
| "write_positional ((f, t) # fs) i vs parent w =
     (case vs of
        [] \<Rightarrow> no_value parent w
      | v # vs \<Rightarrow>
        if tg_ignore (fd_tags f) then write_positional fs (Suc i) vs parent w
        else
          (case write_context (''Failed to write reflected element '' @ to_string i @ '': '')
              (parser_write t (fd_tags f) v In_Array parent w) of
             (Inl e, parent, w) \<Rightarrow> (Inl e, parent, w)
           | (Inr _, parent, w) \<Rightarrow> write_positional fs (Suc i) vs parent w))"
  by pat_completeness auto

termination
  by (relation "measure (\<lambda>x. case x of
      Inl (Inl (t, _)) \<Rightarrow> size t
    | Inl (Inr (ts, _)) \<Rightarrow> size_list size ts
    | Inr (Inl (ts, _)) \<Rightarrow> size_list size ts
    | Inr (Inr (Inl (fs, _))) \<Rightarrow> size_list (size_prod (\<lambda>_. 0) size) fs
    | Inr (Inr (Inr (fs, _))) \<Rightarrow> size_list (size_prod (\<lambda>_. 0) size) fs)")
    (auto dest!: flat_fields_size simp del: flat_fields_size)

end
