(* ===== verification/Parse_Read.thy ===== *)
theory Parse_Read
  imports Parse_Write
begin

text \<open>
  \<open>parser_read\<close>, the \<open>ReadParser\<close>s of \<open>serialization/parsing\<close>, for any reader \<open>R\<close> as in the source:
  \<open>reader\<close> lists the operations the parsers call, on handles of type \<open>'h\<close> and a state of type \<open>'s\<close>.
  A parser takes the handle, the target's value and the state, and returns its result, the value the
  target has then, also when it failed, and the state. \<open>binary_reader\<close> are the operations of
  \<open>binary::Reader\<close>.
\<close>

type_synonym 's visit = "unit sa_result \<times> (tvalue \<times> tvalue) list \<times> 's"

record ('h, 's) reader =
  rd_toArray :: "'h \<Rightarrow> 's \<Rightarrow> 'h sa_result"
  rd_arraySize :: "'h \<Rightarrow> nat"
  rd_arrayElement :: "'h \<Rightarrow> nat \<Rightarrow> 's \<Rightarrow> 'h sa_result \<times> 's"
  rd_toObject :: "'h \<Rightarrow> 's \<Rightarrow> 'h sa_result"
  rd_objectField :: "'h \<Rightarrow> bytes \<Rightarrow> 's \<Rightarrow> 'h sa_result"
  rd_forEach :: "'h \<Rightarrow> 's \<Rightarrow> (bytes \<Rightarrow> 'h \<Rightarrow> 's visit \<Rightarrow> bool \<times> 's visit) \<Rightarrow> 's visit \<Rightarrow> bool \<times> 's visit"
  rd_isEmpty :: "'h \<Rightarrow> 's \<Rightarrow> bool \<times> 's"
  rd_toBasic :: "basic \<Rightarrow> 'h \<Rightarrow> 's \<Rightarrow> cvalue sa_result \<times> 's"
  rd_toFixed :: "basic \<Rightarrow> nat \<Rightarrow> 'h \<Rightarrow> 's \<Rightarrow> cvalue sa_result \<times> 's"
  rd_restore :: "'h \<Rightarrow> 's \<Rightarrow> 's \<Rightarrow> 's"

text \<open>\<open>rd_restore h s s'\<close>: the state \<open>s'\<close> after the checkpoint of \<open>h\<close> taken in \<open>s\<close> is restored; a
  reader without checkpoints leaves \<open>s'\<close>.\<close>

definition binary_reader :: "input \<Rightarrow> (handle, rstate) reader" where
  "binary_reader S = \<lparr>
     rd_toArray = toArray S, rd_arraySize = arraySize, rd_arrayElement = arrayElement S,
     rd_toObject = toObject S, rd_objectField = objectField S,
     rd_forEach = (\<lambda>h st fn x. forEachObjectMember S st fn h x),
     rd_isEmpty = isEmpty S, rd_toBasic = (\<lambda>b. toBasicType b S), rd_toFixed = (\<lambda>b n. readFixed b n S),
     rd_restore = (\<lambda>h st st'. restore (take_checkpoint h st) st')\<rparr>"

type_synonym ('h, 's) pread = "'h \<Rightarrow> tvalue \<Rightarrow> 's \<Rightarrow> unit sa_result \<times> tvalue \<times> 's"

definition read_failed :: "sa_code \<Rightarrow> string \<Rightarrow> ('h, 's) pread" where
  "read_failed c msg h v s = (Inl (Err (SaError c msg)), v, s)"

definition read_context :: "string \<Rightarrow> unit sa_result \<times> tvalue \<times> 's \<Rightarrow> unit sa_result \<times> tvalue \<times> 's" where
  "read_context msg r = (parser_context msg (fst r), snd r)"

text \<open>A target that is assigned only when the parse of a temporary succeeded.\<close>

definition commit :: "tvalue \<Rightarrow> unit sa_result \<times> tvalue \<times> 's \<Rightarrow> unit sa_result \<times> tvalue \<times> 's" where
  "commit old r = (case fst r of Inl e \<Rightarrow> (Inl e, old, snd (snd r)) | Inr _ \<Rightarrow> r)"

subsection \<open>Basic values\<close>

definition assign :: "tvalue \<Rightarrow> (cvalue \<Rightarrow> tvalue) \<Rightarrow> cvalue sa_result \<times> 's \<Rightarrow> unit sa_result \<times> tvalue \<times> 's" where
  "assign old mk r = (case r of (Inl e, s) \<Rightarrow> (Inl e, old, s) | (Inr x, s) \<Rightarrow> (Inr (), mk x, s))"

definition parser_read_arithmetic :: "('h, 's) reader \<Rightarrow> nat \<Rightarrow> basic \<Rightarrow> ('h, 's) pread" where
  "parser_read_arithmetic R tag b h v s =
     (if tag \<noteq> 0 then
        let fixed_length = fixed_length_of tag (basic_size b) in
        if fixed_length \<noteq> basic_size b then (Inl (Err (fixed_length_error (basic_size b) fixed_length)), v, s)
        else assign v V_basic (rd_toFixed R b fixed_length h s)
      else assign v V_basic (rd_toBasic R b h s))"

text \<open>\<open>parser_read_string\<close>: the binary reader has no raw strings. \<open>std::basic_string\<close> adds a context.\<close>

definition parser_read_string :: "('h, 's) reader \<Rightarrow> ('h, 's) pread" where
  "parser_read_string R h v s = assign v V_basic (rd_toBasic R B_string h s)"

definition read_basic :: "('h, 's) reader \<Rightarrow> nat \<Rightarrow> basic \<Rightarrow> ('h, 's) pread" where
  "read_basic R tag b h v s =
     (if b = B_string then read_context ''Failed to parse string: '' (parser_read_string R h v s)
      else parser_read_arithmetic R tag b h v s)"

text \<open>The name map of an enum: the last enumerator of a name counts.\<close>

definition nameMap :: "(bytes \<times> scalar) list \<Rightarrow> bytes \<rightharpoonup> scalar" where
  "nameMap names = map_of (rev names)"

definition read_enum :: "('h, 's) reader \<Rightarrow> nat \<Rightarrow> basic \<Rightarrow> (bytes \<times> scalar) list \<Rightarrow> ('h, 's) pread" where
  "read_enum R tag b names h v s =
     (case parser_read_string R h (V_basic (C_string [])) s of
        (Inr _, x, s) \<Rightarrow>
          (case nameMap names (key_string x) of
             Some e \<Rightarrow> (Inr (), V_basic (C_scalar e), s)
           | None \<Rightarrow> read_failed SaInvalidType
               (''Unknown enum name '' @ quoted (chars_of_bytes (key_string x))) h v s)
      | (Inl Out_Of_Bounds, _, s) \<Rightarrow> (Inl Out_Of_Bounds, v, s)
      | (Inl (Err _), _, s) \<Rightarrow>
          commit v (read_context ''Failed to parse enum value: ''
            (parser_read_arithmetic R tag b h (V_basic (zero_basic b)) s)))"

definition read_null :: "('h, 's) reader \<Rightarrow> string \<Rightarrow> ('h, 's) pread" where
  "read_null R msg h v s =
     (case rd_isEmpty R h s of (True, s) \<Rightarrow> (Inr (), V_null, s) | (False, s) \<Rightarrow> read_failed SaInvalidType msg h v s)"

definition read_bitset :: "('h, 's) reader \<Rightarrow> nat \<Rightarrow> ('h, 's) pread" where
  "read_bitset R n h v s =
     (case read_context ''Failed to parse bitset: '' (read_basic R 0 B_string h (V_basic (C_string [])) s) of
        (Inl e, _, s) \<Rightarrow> (Inl e, v, s)
      | (Inr _, x, s) \<Rightarrow>
        (let str = key_string x in
         if length str \<noteq> n
         then read_failed SaInvalidLength
           (''Expected bitset string with '' @ to_string n @ '' characters, got '' @ to_string (length str)) h v s
         else if \<not> list_all (\<lambda>c. c = 0x30 \<or> c = 0x31) str
         then read_failed SaParseError
           (''Bitset string contains a character other than '' @ quoted ''0'' @ '' or '' @ quoted ''1'') h v s
         else (Inr (), V_bits (map (\<lambda>c. c = 0x31) str), s)))"

subsection \<open>Containers\<close>

text \<open>The elements of an array, parsed into new values and inserted.\<close>

fun read_items ::
  "('h, 's) reader \<Rightarrow> ('h, 's) pread \<Rightarrow> tvalue \<Rightarrow> (tvalue list \<Rightarrow> tvalue \<Rightarrow> tvalue list \<times> bool) \<Rightarrow> string \<Rightarrow> 'h \<Rightarrow>
     nat \<Rightarrow> nat \<Rightarrow> tvalue list \<Rightarrow> 's \<Rightarrow> unit sa_result \<times> tvalue list \<times> 's" where
  "read_items R rd item ins msg a i 0 parsed s = (Inr (), parsed, s)"
| "read_items R rd item ins msg a i (Suc k) parsed s =
     (case rd_arrayElement R a i s of
        (Inl e, s) \<Rightarrow> (Inl e, parsed, s)
      | (Inr c, s) \<Rightarrow>
        (case rd c item s of
           (Inl e, _, s) \<Rightarrow> (parser_context (msg @ to_string i @ '': '') (Inl e), parsed, s)
         | (Inr _, x, s) \<Rightarrow>
           (case ins parsed x of
              (parsed, ok) \<Rightarrow>
                if ok then read_items R rd item ins msg a (Suc i) k parsed s
                else (Inl (Err (SaError SaInvalidField (''Duplicate value at sequence element '' @ to_string i))),
                  parsed, s))))"

definition parser_read_sequence ::
  "('h, 's) reader \<Rightarrow> ('h, 's) pread \<Rightarrow> tvalue \<Rightarrow> (tvalue list \<Rightarrow> tvalue \<Rightarrow> tvalue list \<times> bool) \<Rightarrow> string \<Rightarrow> ('h, 's) pread" where
  "parser_read_sequence R rd item ins msg h v s =
     (case rd_toArray R h s of
        Inl e \<Rightarrow> (Inl e, v, s)
      | Inr a \<Rightarrow>
        (case read_items R rd item ins msg a 0 (rd_arraySize R a) [] s of
           (Inl e, _, s) \<Rightarrow> (Inl e, v, s)
         | (Inr _, vs, s) \<Rightarrow> (Inr (), V_list vs, s)))"

text \<open>The elements of a \<open>std::array\<close> are parsed in place.\<close>

fun read_in_place :: "('h, 's) reader \<Rightarrow> ('h, 's) pread \<Rightarrow> 'h \<Rightarrow> nat \<Rightarrow> tvalue list \<Rightarrow> 's \<Rightarrow> unit sa_result \<times> tvalue list \<times> 's" where
  "read_in_place R rd a i [] s = (Inr (), [], s)"
| "read_in_place R rd a i (x # xs) s =
     (case rd_arrayElement R a i s of
        (Inl e, s) \<Rightarrow> (Inl e, x # xs, s)
      | (Inr c, s) \<Rightarrow>
        (case rd c x s of
           (Inl e, y, s) \<Rightarrow>
             (parser_context (''Failed to parse fixed array element '' @ to_string i @ '': '') (Inl e), y # xs, s)
         | (Inr _, y, s) \<Rightarrow> map_prod (\<lambda>r. r) (map_prod (Cons y) (\<lambda>s. s)) (read_in_place R rd a (Suc i) xs s)))"

definition wrong_length :: "string \<Rightarrow> nat \<Rightarrow> nat \<Rightarrow> string" where
  "wrong_length what n got = ''Expected '' @ what @ '' with '' @ to_string n @ '' elements, got '' @ to_string got"

definition as_list :: "unit sa_result \<times> tvalue list \<times> 's \<Rightarrow> unit sa_result \<times> tvalue \<times> 's" where
  "as_list r = map_prod (\<lambda>r. r) (map_prod V_list (\<lambda>s. s)) r"

definition read_array :: "('h, 's) reader \<Rightarrow> ('h, 's) pread \<Rightarrow> nat \<Rightarrow> ('h, 's) pread" where
  "read_array R rd n h v s =
     (case rd_toArray R h s of
        Inl e \<Rightarrow> (Inl e, v, s)
      | Inr a \<Rightarrow>
        if rd_arraySize R a \<noteq> n then read_failed SaInvalidLength (wrong_length ''fixed array'' n (rd_arraySize R a)) h v s
        else as_list (read_in_place R rd a 0 (items v) s))"

text \<open>Two required fields of an object: an entry of a map and a pair.\<close>

definition read_two ::
  "('h, 's) reader \<Rightarrow> (bytes \<times> ('h, 's) pread \<times> string \<times> string) \<Rightarrow> (bytes \<times> ('h, 's) pread \<times> string \<times> string) \<Rightarrow>
     'h \<Rightarrow> tvalue \<Rightarrow> tvalue \<Rightarrow> 's \<Rightarrow> unit sa_result \<times> (tvalue \<times> tvalue) \<times> 's" where
  "read_two R a b h x y s =
     (let (name1, rd1, missing1, msg1) = a; (name2, rd2, missing2, msg2) = b in
      case rd_objectField R h name1 s of
        Inl Out_Of_Bounds \<Rightarrow> (Inl Out_Of_Bounds, (x, y), s)
      | Inl (Err _) \<Rightarrow> (Inl (Err (SaError SaInvalidField missing1)), (x, y), s)
      | Inr c \<Rightarrow>
        (case rd1 c x s of
           (Inl e, x, s) \<Rightarrow> (parser_context msg1 (Inl e), (x, y), s)
         | (Inr _, x, s) \<Rightarrow>
           (case rd_objectField R h name2 s of
              Inl Out_Of_Bounds \<Rightarrow> (Inl Out_Of_Bounds, (x, y), s)
            | Inl (Err _) \<Rightarrow> (Inl (Err (SaError SaInvalidField missing2)), (x, y), s)
            | Inr c \<Rightarrow>
              (case rd2 c y s of (r, y, s) \<Rightarrow> (parser_context msg2 r, (x, y), s)))))"

definition read_pair :: "('h, 's) reader \<Rightarrow> ('h, 's) pread \<Rightarrow> ('h, 's) pread \<Rightarrow> ('h, 's) pread" where
  "read_pair R rk rv h v s =
     (case rd_toObject R h s of
        Inl e \<Rightarrow> (Inl e, v, s)
      | Inr ob \<Rightarrow>
        (case items v of
           [x, y] \<Rightarrow>
             (case read_two R
                 (bytes_of_chars ''first'', rk, ''Required pair field '' @ quoted ''first'' @ '' is missing'',
                  ''Failed to parse pair field '' @ quoted ''first'' @ '': '')
                 (bytes_of_chars ''second'', rv, ''Required pair field '' @ quoted ''second'' @ '' is missing'',
                  ''Failed to parse pair field '' @ quoted ''second'' @ '': '') ob x y s of
               (r, (x, y), s) \<Rightarrow> (r, V_list [x, y], s))
         | _ \<Rightarrow> (Inl Out_Of_Bounds, v, s)))"

text \<open>The entries of a map whose keys are no strings, or whose keys may repeat.\<close>

fun read_entries ::
  "('h, 's) reader \<Rightarrow> ('h, 's) pread \<Rightarrow> ('h, 's) pread \<Rightarrow> tvalue \<Rightarrow> tvalue \<Rightarrow>
     ((tvalue \<times> tvalue) list \<Rightarrow> tvalue \<Rightarrow> tvalue \<Rightarrow> (tvalue \<times> tvalue) list \<times> bool) \<Rightarrow> 'h \<Rightarrow> nat \<Rightarrow> nat \<Rightarrow>
     (tvalue \<times> tvalue) list \<Rightarrow> 's \<Rightarrow> unit sa_result \<times> (tvalue \<times> tvalue) list \<times> 's" where
  "read_entries R rk rv key val ins a i 0 parsed s = (Inr (), parsed, s)"
| "read_entries R rk rv key val ins a i (Suc k) parsed s =
     (let entry = ''Map entry '' @ to_string i; failed = ''Failed to parse map entry '' @ to_string i in
      case rd_arrayElement R a i s of
        (Inl e, s) \<Rightarrow> (Inl e, parsed, s)
      | (Inr c, s) \<Rightarrow>
        (case rd_toObject R c s of
           Inl e \<Rightarrow> (parser_context (failed @ '': '') (Inl e), parsed, s)
         | Inr ob \<Rightarrow>
           (case read_two R
               (bytes_of_chars ''key'', rk, entry @ '' is missing required field '' @ quoted ''key'', failed @ '' key: '')
               (bytes_of_chars ''value'', rv, entry @ '' is missing required field '' @ quoted ''value'',
                failed @ '' value: '') ob key val s of
              (Inl e, _, s) \<Rightarrow> (Inl e, parsed, s)
            | (Inr _, (x, y), s) \<Rightarrow>
              (case ins parsed x y of
                 (parsed, ok) \<Rightarrow>
                   if ok then read_entries R rk rv key val ins a (Suc i) k parsed s
                   else (Inl (Err (SaError SaInvalidField (entry @ '' contains a duplicate key''))), parsed, s)))))"

definition parser_read_key_value_array ::
  "('h, 's) reader \<Rightarrow> ('h, 's) pread \<Rightarrow> ('h, 's) pread \<Rightarrow> tvalue \<Rightarrow> tvalue \<Rightarrow>
     ((tvalue \<times> tvalue) list \<Rightarrow> tvalue \<Rightarrow> tvalue \<Rightarrow> (tvalue \<times> tvalue) list \<times> bool) \<Rightarrow> ('h, 's) pread" where
  "parser_read_key_value_array R rk rv key val ins h v s =
     (case rd_toArray R h s of
        Inl e \<Rightarrow> (Inl e, v, s)
      | Inr a \<Rightarrow>
        (case read_entries R rk rv key val ins a 0 (rd_arraySize R a) [] s of
           (Inl e, _, s) \<Rightarrow> (Inl e, v, s)
         | (Inr _, es, s) \<Rightarrow> (Inr (), V_map es, s)))"

text \<open>The callback that reads one member of an object into a map with string keys.\<close>

definition visit_member ::
  "('h, 's) pread \<Rightarrow> tvalue \<Rightarrow> ((tvalue \<times> tvalue) list \<Rightarrow> tvalue \<Rightarrow> tvalue \<Rightarrow> (tvalue \<times> tvalue) list \<times> bool) \<Rightarrow>
     bytes \<Rightarrow> 'h \<Rightarrow> 's visit \<Rightarrow> bool \<times> 's visit" where
  "visit_member rv val ins name c x =
     (case x of
        (Inl e, parsed, s) \<Rightarrow> (False, Inl e, parsed, s)
      | (Inr _, parsed, s) \<Rightarrow>
        (case rv c val s of
           (Inl e, _, s) \<Rightarrow>
             (False, parser_context (''Failed to parse map field '' @ quoted (chars_of_bytes name) @ '': '') (Inl e), parsed, s)
         | (Inr _, y, s) \<Rightarrow>
           (case ins parsed (V_basic (C_string name)) y of
              (parsed, ok) \<Rightarrow>
                if ok then (True, Inr (), parsed, s)
                else (False, Inl (Err (SaError SaInvalidField (''Map contains duplicate key '' @ quoted (chars_of_bytes name)))),
                  parsed, s))))"

definition parser_read_string_key_map ::
  "('h, 's) reader \<Rightarrow> ('h, 's) pread \<Rightarrow> tvalue \<Rightarrow>
     ((tvalue \<times> tvalue) list \<Rightarrow> tvalue \<Rightarrow> tvalue \<Rightarrow> (tvalue \<times> tvalue) list \<times> bool) \<Rightarrow> ('h, 's) pread" where
  "parser_read_string_key_map R rv val ins h v s =
     (case rd_toObject R h s of
        Inl e \<Rightarrow> (Inl e, v, s)
      | Inr ob \<Rightarrow>
        (case snd (rd_forEach R ob s (visit_member rv val ins) (Inr (), [], s)) of
           (Inl e, _, s) \<Rightarrow> (Inl e, v, s)
         | (Inr _, es, s) \<Rightarrow> (Inr (), V_map es, s)))"

subsection \<open>Optionals, pointers, fields\<close>

fun opt_name :: "opt_kind \<Rightarrow> string" where
  "opt_name O_optional = ''optional''"
| "opt_name O_shared_ptr = ''shared_ptr''"
| "opt_name O_unique_ptr = ''unique_ptr''"

definition read_optional :: "('h, 's) reader \<Rightarrow> string \<Rightarrow> ('h, 's) pread \<Rightarrow> tvalue \<Rightarrow> ('h, 's) pread" where
  "read_optional R kind rd val h v s =
     (case rd_isEmpty R h s of
        (True, s) \<Rightarrow> (Inr (), V_opt None, s)
      | (False, s) \<Rightarrow>
        (case rd h val s of
           (Inl e, _, s) \<Rightarrow> (parser_context (''Failed to parse '' @ kind @ '' value: '') (Inl e), v, s)
         | (Inr _, x, s) \<Rightarrow> (Inr (), V_opt (Some x), s)))"

definition required_missing :: "bytes \<Rightarrow> sa_error" where
  "required_missing name =
     SaError SaInvalidField (''Required field '' @ quoted (chars_of_bytes name) @ '' is missing'')"

definition read_name_value_pair :: "('h, 's) reader \<Rightarrow> bytes \<Rightarrow> ('h, 's) pread \<Rightarrow> ('h, 's) pread" where
  "read_name_value_pair R name rd h v s =
     (case rd_toObject R h s of
        Inl e \<Rightarrow> (Inl e, v, s)
      | Inr ob \<Rightarrow>
        (case rd_objectField R ob name s of
           Inl Out_Of_Bounds \<Rightarrow> (Inl Out_Of_Bounds, v, s)
         | Inl (Err _) \<Rightarrow> (Inl (Err (required_missing name)), v, s)
         | Inr c \<Rightarrow>
           read_context (''Failed to parse field '' @ quoted (chars_of_bytes name) @ '': '') (rd c v s)))"

definition parser_read_missing_field :: "field \<Rightarrow> ty \<Rightarrow> tvalue \<Rightarrow> 's \<Rightarrow> unit sa_result \<times> tvalue \<times> 's" where
  "parser_read_missing_field f t v s =
     (if tg_skippable (fd_tags f) then (Inr (), v, s)
      else if optional_like t then (Inr (), set_null t, s)
      else (Inl (Err (required_missing (field_name f))), v, s))"

type_synonym ('h, 's) pfields = "'h \<Rightarrow> tvalue list \<Rightarrow> 's \<Rightarrow> unit sa_result \<times> tvalue list \<times> 's"

definition parser_read_reflect_fields :: "('h, 's) reader \<Rightarrow> ('h, 's) pfields \<Rightarrow> ('h, 's) pfields" where
  "parser_read_reflect_fields R loop h vs s =
     (case rd_toObject R h s of Inl e \<Rightarrow> (Inl e, vs, s) | Inr _ \<Rightarrow> loop h vs s)"

text \<open>\<open>flat\<close>: the fields of the nested record, when they stand in the same object; \<open>rd\<close>: the parser of
  the field's type with the field's tags.\<close>

definition parser_read_reflect_field ::
  "('h, 's) reader \<Rightarrow> field \<Rightarrow> ty \<Rightarrow> ('h, 's) pfields option \<Rightarrow> ('h, 's) pread \<Rightarrow> ('h, 's) pread" where
  "parser_read_reflect_field R f t flat rd h v s =
     (if tg_ignore (fd_tags f) then (Inr (), v, s)
      else case flat of
        Some loop \<Rightarrow> as_list (parser_read_reflect_fields R loop h (items v) s)
      | None \<Rightarrow>
        (case rd_toObject R h s of
           Inl e \<Rightarrow> (Inl e, v, s)
         | Inr ob \<Rightarrow>
           (case rd_objectField R ob (field_name f) s of
              Inl Out_Of_Bounds \<Rightarrow> (Inl Out_Of_Bounds, v, s)
            | Inl (Err _) \<Rightarrow> parser_read_missing_field f t v s
            | Inr c \<Rightarrow>
              (case rd_isEmpty R c s of
                 (null, s) \<Rightarrow>
                   if null \<and> optional_like t then (Inr (), set_null t, s)
                   else read_context (''Failed to parse field '' @ quoted (chars_of_bytes (field_name f)) @ '': '')
                     (rd c v s)))))"

text \<open>\<open>ReadParser::read\<close> of a reflected record around \<open>readInPlace\<close>.\<close>

definition read_record :: "rec_kind \<Rightarrow> tvalue \<Rightarrow> ('h, 's) pread \<Rightarrow> ('h, 's) pread" where
  "read_record kind val inPlace h v s =
     (case kind of
        Rec_Copy \<Rightarrow> commit v (inPlace h v s)
      | Rec_Fresh \<Rightarrow> commit v (inPlace h val s)
      | Rec_InPlace \<Rightarrow> inPlace h v s)"

subsection \<open>The parsers\<close>

definition read_c_string :: "bool \<Rightarrow> ('h, 's) pread" where
  "read_c_string is_const h v s =
     read_failed SaInvalidType
       (if is_const then ''Reading into const char* is unsupported'' else ''Reading into char* is unsupported'') h v s"

definition read_string_view :: "('h, 's) pread" where
  "read_string_view h v s = read_failed SaInvalidType ''Reader does not support string_view'' h v s"

definition read_byte :: "('h, 's) reader \<Rightarrow> nat \<Rightarrow> ('h, 's) pread" where
  "read_byte R tag h v s =
     commit v (read_context ''Failed to parse byte: ''
       (parser_read_arithmetic R tag B_u8 h (V_basic (C_scalar (S_u8 0))) s))"

definition read_vector_bool :: "('h, 's) reader \<Rightarrow> ('h, 's) pread" where
  "read_vector_bool R =
     parser_read_sequence R (read_basic R 0 B_bool) (V_basic (zero_basic B_bool)) push_back
       ''Failed to parse vector<bool> element ''"

definition read_atomic :: "('h, 's) pread \<Rightarrow> tvalue \<Rightarrow> ('h, 's) pread" where
  "read_atomic rd val h v s = commit v (read_context ''Failed to parse atomic value: '' (rd h val s))"

text \<open>A tuple and a positional record: an array of the expected size, read element by element.\<close>

definition read_sized :: "('h, 's) reader \<Rightarrow> string \<Rightarrow> nat \<Rightarrow> ('h, 's) pfields \<Rightarrow> ('h, 's) pread" where
  "read_sized R what n loop h v s =
     (case rd_toArray R h s of
        Inl e \<Rightarrow> (Inl e, v, s)
      | Inr a \<Rightarrow>
        if rd_arraySize R a \<noteq> n
        then read_failed SaInvalidLength (wrong_length what n (rd_arraySize R a)) h v s
        else as_list (loop a (items v) s))"

text \<open>\<open>alternative i\<close> reads the alternative of index \<open>i\<close>; \<open>search\<close> counts the alternatives that match.\<close>

definition readUntagged :: "('s \<Rightarrow> nat \<times> nat \<times> 's) \<Rightarrow> (nat \<Rightarrow> ('h, 's) pread) \<Rightarrow> ('h, 's) pread" where
  "readUntagged search alternative h v s =
     (case search s of
        (matchCount, matchIndex, s) \<Rightarrow>
          if matchCount = 0
          then read_failed SaParseError ''No variant alternative matched the input value'' h v s
          else if matchCount \<noteq> 1
          then read_failed SaParseError ''Untagged variant input matches more than one alternative'' h v s
          else alternative matchIndex h v s)"

definition read_tagged :: "('h, 's) reader \<Rightarrow> (nat \<Rightarrow> ('h, 's) pread) \<Rightarrow> ('h, 's) pread" where
  "read_tagged R alternative h v s =
     (case rd_toArray R h s of
        Inl e \<Rightarrow> (parser_context ''Variant must be encoded as [index, value]: '' (Inl e), v, s)
      | Inr a \<Rightarrow>
        if rd_arraySize R a \<noteq> 2
        then read_failed SaInvalidLength ''Variant array must contain exactly two elements'' h v s
        else
          (case rd_arrayElement R a 0 s of
             (Inl e, s) \<Rightarrow> (Inl e, v, s)
           | (Inr c, s) \<Rightarrow>
             (case rd_toBasic R B_u64 c s of
                (Inr (C_scalar (S_u64 index)), s) \<Rightarrow>
                  (case rd_arrayElement R a 1 s of
                     (Inl e, s) \<Rightarrow> (Inl e, v, s)
                   | (Inr c, s) \<Rightarrow> alternative (unat index) c v s)
              | (Inl e, s) \<Rightarrow> (parser_context ''Failed to parse variant index: '' (Inl e), v, s)
              | (Inr _, s) \<Rightarrow> (Inl Out_Of_Bounds, v, s))))"

function parser_read :: "('h, 's) reader \<Rightarrow> ty \<Rightarrow> ptags \<Rightarrow> ('h, 's) pread"
  and read_tuple :: "('h, 's) reader \<Rightarrow> ty list \<Rightarrow> nat \<Rightarrow> ('h, 's) pfields"
  and readAlternative :: "('h, 's) reader \<Rightarrow> ty list \<Rightarrow> nat \<Rightarrow> nat \<Rightarrow> ptags \<Rightarrow> ('h, 's) pread"
  and findAlternatives :: "('h, 's) reader \<Rightarrow> ty list \<Rightarrow> nat \<Rightarrow> ptags \<Rightarrow> 'h \<Rightarrow> nat \<Rightarrow> nat \<Rightarrow> 's \<Rightarrow> nat \<times> nat \<times> 's"
  and read_fields :: "('h, 's) reader \<Rightarrow> (field \<times> ty) list \<Rightarrow> ('h, 's) pfields"
  and read_positional :: "('h, 's) reader \<Rightarrow> (field \<times> ty) list \<Rightarrow> nat \<Rightarrow> nat \<Rightarrow> ('h, 's) pfields"
where
  "parser_read R (Ty_Basic b) tags h v s = read_basic R (tg_fixed tags) b h v s"
| "parser_read R Ty_Nullptr tags h v s = read_null R ''Expected null'' h v s"
| "parser_read R Ty_Monostate tags h v s = read_null R ''Expected null for monostate'' h v s"
| "parser_read R (Ty_Enum b names) tags h v s = read_enum R (tg_fixed tags) b names h v s"
| "parser_read R Ty_StringView tags h v s = read_string_view h v s"
| "parser_read R (Ty_CString c) tags h v s = read_c_string c h v s"
| "parser_read R Ty_Byte tags h v s = read_byte R (tg_fixed tags) h v s"
| "parser_read R (Ty_Bitset n) tags h v s = read_bitset R n h v s"
| "parser_read R (Ty_Seq ins t) tags h v s =
     parser_read_sequence R (\<lambda>h v s. parser_read R t NoTags h v s) (default_of t) ins
       ''Failed to parse sequence element '' h v s"
| "parser_read R Ty_VectorBool tags h v s = read_vector_bool R h v s"
| "parser_read R (Ty_Array n t) tags h v s = read_array R (\<lambda>h v s. parser_read R t NoTags h v s) n h v s"
| "parser_read R (Ty_Map str ins k t) tags h v s =
     (if str then parser_read_string_key_map R (\<lambda>h v s. parser_read R t NoTags h v s) (default_of t) ins h v s
      else parser_read_key_value_array R (\<lambda>h v s. parser_read R k NoTags h v s) (\<lambda>h v s. parser_read R t NoTags h v s)
        (default_of k) (default_of t) ins h v s)"
| "parser_read R (Ty_Tuple ts) tags h v s = 
     read_sized R ''tuple'' (length ts) (\<lambda>a vs s. read_tuple R ts 0 a vs s) h v s"
| "parser_read R (Ty_Pair k t) tags h v s =
     read_pair R (\<lambda>h v s. parser_read R k NoTags h v s) (\<lambda>h v s. parser_read R t NoTags h v s) h v s"
| "parser_read R (Ty_Opt kind t) tags h v s =
     read_optional R (opt_name kind) (\<lambda>h v s. parser_read R t tags h v s) (default_of t) h v s"
| "parser_read R (Ty_Atomic t) tags h v s = read_atomic (\<lambda>h v s. parser_read R t tags h v s) (default_of t) h v s"
| "parser_read R (Ty_Variant ts) tags h v s = 
     (if tg_untagged tags then
        readUntagged (\<lambda>s. findAlternatives R ts 0 (unionPayloadTags tags) h 0 0 s)
          (\<lambda>i h v s. readAlternative R ts i i (unionPayloadTags tags) h v s) h v s
      else read_tagged R (\<lambda>i h v s. readAlternative R ts i i (unionPayloadTags tags) h v s) h v s)"
| "parser_read R (Ty_NameValuePair n t) tags h v s =
     read_name_value_pair R n (\<lambda>h v s. parser_read R t NoTags h v s) h v s"
| "parser_read R (Ty_Record kind fs) tags h v s =
     read_record kind (default_of (Ty_Record kind fs))
       (\<lambda>h v s. as_list (parser_read_reflect_fields R (\<lambda>h vs s. read_fields R fs h vs s) h (items v) s)) h v s"
| "parser_read R (Ty_Positional kind fs) tags h v s = 
     read_record kind (default_of (Ty_Positional kind fs))
       (\<lambda>h v s. read_sized R ''reflected array'' (parser_reflect_field_count fs)
          (\<lambda>a vs s. read_positional R fs 0 0 a vs s) h v s) h v s"
| "read_tuple R [] i a vs s = (Inr (), vs, s)"
| "read_tuple R (t # ts) i a vs s =
     (case vs of
        [] \<Rightarrow> (Inl Out_Of_Bounds, vs, s)
      | v # vs \<Rightarrow>
        (case rd_arrayElement R a i s of
           (Inl e, s) \<Rightarrow> (Inl e, v # vs, s)
         | (Inr c, s) \<Rightarrow>
           (case parser_read R t NoTags c v s of
              (Inl e, x, s) \<Rightarrow> (parser_context (''Failed to parse tuple element '' @ to_string i @ '': '') (Inl e), x # vs, s)
            | (Inr _, x, s) \<Rightarrow> map_prod (\<lambda>r. r) (map_prod (Cons x) (\<lambda>s. s)) (read_tuple R ts (Suc i) a vs s))))"
| "readAlternative R [] i index tags h v s =
     read_failed SaInvalidIndex ''Variant alternative index is out of range'' h v s"
| "readAlternative R (t # ts) i index tags h v s =
     (case i of
        0 \<Rightarrow>
          (case parser_read R t tags h (default_of t) s of
             (Inl e, _, s) \<Rightarrow> (parser_context ''Failed to parse variant alternative: '' (Inl e), v, s)
           | (Inr _, x, s) \<Rightarrow> (Inr (), V_alt index x, s))
      | Suc j \<Rightarrow> readAlternative R ts j index tags h v s)"
| "findAlternatives R [] i tags h matchCount matchIndex s = (matchCount, matchIndex, s)"
| "findAlternatives R (t # ts) i tags h matchCount matchIndex s =
     (case parser_read R t tags h (default_of t) s of
        (r, _, s') \<Rightarrow>
          let s = rd_restore R h s s' in
          case r of
            Inr _ \<Rightarrow> findAlternatives R ts (Suc i) tags h (Suc matchCount) i s
          | Inl _ \<Rightarrow> findAlternatives R ts (Suc i) tags h matchCount matchIndex s)"
| "read_fields R [] h vs s = (Inr (), vs, s)"
| "read_fields R ((f, t) # fs) h vs s =
     (case vs of
        [] \<Rightarrow> (Inl Out_Of_Bounds, vs, s)
      | v # vs \<Rightarrow>
        (case parser_read_reflect_field R f t
            (case flat_fields (f, t) of None \<Rightarrow> None | Some gs \<Rightarrow> Some (\<lambda>h vs s. read_fields R gs h vs s))
            (\<lambda>h v s. parser_read R t (fd_tags f) h v s) h v s of
           (Inl e, x, s) \<Rightarrow> (Inl e, x # vs, s)
         | (Inr _, x, s) \<Rightarrow> map_prod (\<lambda>r. r) (map_prod (Cons x) (\<lambda>s. s)) (read_fields R fs h vs s)))"
| "read_positional R [] i elementIndex a vs s = (Inr (), vs, s)"
| "read_positional R ((f, t) # fs) i elementIndex a vs s =
     (case vs of
        [] \<Rightarrow> (Inl Out_Of_Bounds, vs, s)
      | v # vs \<Rightarrow>
        if tg_ignore (fd_tags f)
        then map_prod (\<lambda>r. r) (map_prod (Cons v) (\<lambda>s. s)) (read_positional R fs (Suc i) elementIndex a vs s)
        else
          (case rd_arrayElement R a elementIndex s of
             (Inl e, s) \<Rightarrow> (Inl e, v # vs, s)
           | (Inr c, s) \<Rightarrow>
             (case parser_read R t (fd_tags f) c v s of
                (Inl e, x, s) \<Rightarrow>
                  (parser_context (''Failed to parse reflected element '' @ to_string i @ '': '') (Inl e), x # vs, s)
              | (Inr _, x, s) \<Rightarrow>
                map_prod (\<lambda>r. r) (map_prod (Cons x) (\<lambda>s. s))
                  (read_positional R fs (Suc i) (Suc elementIndex) a vs s))))"
  by pat_completeness auto

termination
  by (relation "measure (\<lambda>x. case x of
      Inl (Inl (R, t, _)) \<Rightarrow> size t
    | Inl (Inr (Inl (R, ts, _))) \<Rightarrow> size_list size ts
    | Inl (Inr (Inr (R, ts, _))) \<Rightarrow> size_list size ts
    | Inr (Inl (R, ts, _)) \<Rightarrow> size_list size ts
    | Inr (Inr (Inl (R, fs, _))) \<Rightarrow> size_list (size_prod (\<lambda>_. 0) size) fs
    | Inr (Inr (Inr (R, fs, _))) \<Rightarrow> size_list (size_prod (\<lambda>_. 0) size) fs)")
    (auto dest!: flat_fields_size simp del: flat_fields_size)

end
