(* ===== verification/Parse_Document.thy ===== *)
theory Parse_Document
  imports Parse_Read
begin

text \<open>
  The document a typed value stands for, and the proof that \<open>parser_write\<close> writes it: for every value
  whose fixed lengths fit its types, \<open>parser_write\<close> makes the calls that write its document.
\<close>

subsection \<open>The document of a value\<close>

definition arithmetic_doc :: "nat \<Rightarrow> scalar \<Rightarrow> doc" where
  "arithmetic_doc tag s = (if tag \<noteq> 0 then D_fixed s else D_value (C_scalar s))"

definition string_doc :: "bytes \<Rightarrow> doc" where
  "string_doc s = D_value (C_string s)"

definition basic_doc :: "nat \<Rightarrow> cvalue \<Rightarrow> doc" where
  "basic_doc tag v = (case v of C_string s \<Rightarrow> string_doc s | C_scalar s \<Rightarrow> arithmetic_doc tag s)"

definition entry_doc :: "(bytes \<times> doc) \<Rightarrow> (bytes \<times> doc) \<Rightarrow> doc" where
  "entry_doc a b = D_object [a, b]"

function doc_of :: "ty \<Rightarrow> ptags \<Rightarrow> tvalue \<Rightarrow> doc"
  and tuple_docs :: "ty list \<Rightarrow> tvalue list \<Rightarrow> doc list"
  and active_doc :: "ty list \<Rightarrow> nat \<Rightarrow> ptags \<Rightarrow> tvalue \<Rightarrow> doc"
  and field_docs :: "(field \<times> ty) list \<Rightarrow> tvalue list \<Rightarrow> (bytes \<times> doc) list"
  and positional_docs :: "(field \<times> ty) list \<Rightarrow> tvalue list \<Rightarrow> doc list"
where
  "doc_of (Ty_Basic b) tags v = (case v of V_basic x \<Rightarrow> basic_doc (tg_fixed tags) x | _ \<Rightarrow> D_null)"
| "doc_of Ty_Nullptr tags v = D_null"
| "doc_of Ty_Monostate tags v = D_null"
| "doc_of (Ty_Enum b names) tags v =
     (case v of V_basic (C_scalar x) \<Rightarrow>
        if enum_name names x \<noteq> [] then string_doc (enum_name names x) else arithmetic_doc (tg_fixed tags) x
      | _ \<Rightarrow> D_null)"
| "doc_of Ty_StringView tags v = string_doc (key_string v)"
| "doc_of (Ty_CString c) tags v = (case v of V_opt (Some x) \<Rightarrow> string_doc (key_string x) | _ \<Rightarrow> D_null)"
| "doc_of Ty_Byte tags v = (case v of V_basic x \<Rightarrow> basic_doc (tg_fixed tags) x | _ \<Rightarrow> D_null)"
| "doc_of (Ty_Bitset n) tags v = (case v of V_bits bs \<Rightarrow> string_doc (bits_string bs) | _ \<Rightarrow> D_null)"
| "doc_of (Ty_Seq ins t) tags v = D_array (map (\<lambda>x. doc_of t NoTags x) (items v))"
| "doc_of Ty_VectorBool tags v =
     D_array (map (\<lambda>x. case x of V_basic x \<Rightarrow> basic_doc 0 x | _ \<Rightarrow> D_null) (items v))"
| "doc_of (Ty_Array n t) tags v = D_array (map (\<lambda>x. doc_of t NoTags x) (items v))"
| "doc_of (Ty_Map str ins k t) tags v =
     (if str then D_object (map (\<lambda>e. (key_string (fst e), doc_of t NoTags (snd e))) (entries v))
      else D_array (map (\<lambda>e. entry_doc (bytes_of_chars ''key'', doc_of k NoTags (fst e))
        (bytes_of_chars ''value'', doc_of t NoTags (snd e))) (entries v)))"
| "doc_of (Ty_Tuple ts) tags v = D_array (tuple_docs ts (items v))"
| "doc_of (Ty_Pair k t) tags v =
     (case items v of
        [a, b] \<Rightarrow> entry_doc (bytes_of_chars ''first'', doc_of k NoTags a) (bytes_of_chars ''second'', doc_of t NoTags b)
      | _ \<Rightarrow> D_null)"
| "doc_of (Ty_Opt kind t) tags v = (case v of V_opt (Some x) \<Rightarrow> doc_of t tags x | _ \<Rightarrow> D_null)"
| "doc_of (Ty_Atomic t) tags v = doc_of t tags v"
| "doc_of (Ty_Variant ts) tags v =
     (case v of
        V_alt i x \<Rightarrow>
          if tg_untagged tags then active_doc ts i (unionPayloadTags tags) x
          else D_array [D_value (C_scalar (S_u64 (of_nat i))), active_doc ts i (unionPayloadTags tags) x]
      | _ \<Rightarrow> D_null)"
| "doc_of (Ty_NameValuePair n t) tags v = D_object [(n, doc_of t NoTags v)]"
| "doc_of (Ty_Record kind fs) tags v = D_idobject (field_docs fs (items v))"
| "doc_of (Ty_Positional kind fs) tags v = D_array (positional_docs fs (items v))"
| "tuple_docs [] vs = []"
| "tuple_docs (t # ts) vs = (case vs of [] \<Rightarrow> [] | v # vs \<Rightarrow> doc_of t NoTags v # tuple_docs ts vs)"
| "active_doc [] i tags v = D_null"
| "active_doc (t # ts) i tags v = (case i of 0 \<Rightarrow> doc_of t tags v | Suc j \<Rightarrow> active_doc ts j tags v)"
| "field_docs [] vs = []"
| "field_docs ((f, t) # fs) vs =
     (case vs of
        [] \<Rightarrow> []
      | v # vs \<Rightarrow>
        (if tg_ignore (fd_tags f) then []
         else case flat_fields (f, t) of
           Some gs \<Rightarrow> field_docs gs (items v)
         | None \<Rightarrow> if parser_should_skip_empty_field t v then [] else [(field_name f, doc_of t (fd_tags f) v)]) @
        field_docs fs vs)"
| "positional_docs [] vs = []"
| "positional_docs ((f, t) # fs) vs =
     (case vs of
        [] \<Rightarrow> []
      | v # vs \<Rightarrow> if tg_ignore (fd_tags f) then positional_docs fs vs
                else doc_of t (fd_tags f) v # positional_docs fs vs)"
  by pat_completeness auto

termination
  by (relation "measure (\<lambda>x. case x of
      Inl (Inl (t, _)) \<Rightarrow> size t
    | Inl (Inr (ts, _)) \<Rightarrow> size_list size ts
    | Inr (Inl (ts, _)) \<Rightarrow> size_list size ts
    | Inr (Inr (Inl (fs, _))) \<Rightarrow> size_list (size_prod (\<lambda>_. 0) size) fs
    | Inr (Inr (Inr (fs, _))) \<Rightarrow> size_list (size_prod (\<lambda>_. 0) size) fs)")
    (auto dest!: flat_fields_size simp del: flat_fields_size)

subsection \<open>The values that can be written\<close>

definition fixed_fits :: "nat \<Rightarrow> scalar \<Rightarrow> bool" where
  "fixed_fits tag s \<longleftrightarrow> tag \<noteq> 0 \<longrightarrow> fixed_length_of tag (scalar_size s) = scalar_size s"

definition basic_fits :: "nat \<Rightarrow> basic \<Rightarrow> tvalue \<Rightarrow> bool" where
  "basic_fits tag b v \<longleftrightarrow>
     (case v of V_basic (C_string x) \<Rightarrow> b = B_string | V_basic (C_scalar x) \<Rightarrow> basic_of x = b \<and> fixed_fits tag x | _ \<Rightarrow> False)"

function writable :: "ty \<Rightarrow> ptags \<Rightarrow> tvalue \<Rightarrow> bool"
  and writable_tuple :: "ty list \<Rightarrow> tvalue list \<Rightarrow> bool"
  and writable_active :: "ty list \<Rightarrow> nat \<Rightarrow> ptags \<Rightarrow> tvalue \<Rightarrow> bool"
  and writable_fields :: "(field \<times> ty) list \<Rightarrow> tvalue list \<Rightarrow> bool"
where
  "writable (Ty_Basic b) tags v \<longleftrightarrow> basic_fits (tg_fixed tags) b v"
| "writable Ty_Nullptr tags v \<longleftrightarrow> v = V_null"
| "writable Ty_Monostate tags v \<longleftrightarrow> v = V_null"
| "writable (Ty_Enum b names) tags v \<longleftrightarrow>
     (case v of V_basic (C_scalar x) \<Rightarrow>
        basic_of x = b \<and> (enum_name names x = [] \<longrightarrow> fixed_fits (tg_fixed tags) x) | _ \<Rightarrow> False)"
| "writable Ty_StringView tags v \<longleftrightarrow> (case v of V_basic (C_string x) \<Rightarrow> True | _ \<Rightarrow> False)"
| "writable (Ty_CString c) tags v \<longleftrightarrow>
     (case v of V_opt None \<Rightarrow> True | V_opt (Some (V_basic (C_string x))) \<Rightarrow> True | _ \<Rightarrow> False)"
| "writable Ty_Byte tags v \<longleftrightarrow> basic_fits (tg_fixed tags) B_u8 v"
| "writable (Ty_Bitset n) tags v \<longleftrightarrow> (case v of V_bits bs \<Rightarrow> length bs = n | _ \<Rightarrow> False)"
| "writable (Ty_Seq ins t) tags v \<longleftrightarrow> (case v of V_list vs \<Rightarrow> list_all (\<lambda>x. writable t NoTags x) vs | _ \<Rightarrow> False)"
| "writable Ty_VectorBool tags v \<longleftrightarrow> (case v of V_list vs \<Rightarrow> list_all (basic_fits 0 B_bool) vs | _ \<Rightarrow> False)"
| "writable (Ty_Array n t) tags v \<longleftrightarrow>
     (case v of V_list vs \<Rightarrow> length vs = n \<and> list_all (\<lambda>x. writable t NoTags x) vs | _ \<Rightarrow> False)"
| "writable (Ty_Map str ins k t) tags v \<longleftrightarrow>
     (case v of V_map es \<Rightarrow>
        list_all (\<lambda>e. (if str then \<exists>n. fst e = V_basic (C_string n) else writable k NoTags (fst e)) \<and>
          writable t NoTags (snd e)) es | _ \<Rightarrow> False)"
| "writable (Ty_Tuple ts) tags v \<longleftrightarrow> (case v of V_list vs \<Rightarrow> writable_tuple ts vs | _ \<Rightarrow> False)"
| "writable (Ty_Pair k t) tags v \<longleftrightarrow>
     (case v of V_list [a, b] \<Rightarrow> writable k NoTags a \<and> writable t NoTags b | _ \<Rightarrow> False)"
| "writable (Ty_Opt kind t) tags v \<longleftrightarrow>
     (case v of V_opt None \<Rightarrow> True | V_opt (Some x) \<Rightarrow> writable t tags x | _ \<Rightarrow> False)"
| "writable (Ty_Atomic t) tags v \<longleftrightarrow> writable t tags v"
| "writable (Ty_Variant ts) tags v \<longleftrightarrow>
     (case v of V_alt i x \<Rightarrow> writable_active ts i (unionPayloadTags tags) x | _ \<Rightarrow> False)"
| "writable (Ty_NameValuePair n t) tags v \<longleftrightarrow> writable t NoTags v"
| "writable (Ty_Record kind fs) tags v \<longleftrightarrow> (case v of V_list vs \<Rightarrow> writable_fields fs vs | _ \<Rightarrow> False)"
| "writable (Ty_Positional kind fs) tags v \<longleftrightarrow> (case v of V_list vs \<Rightarrow> writable_fields fs vs | _ \<Rightarrow> False)"
| "writable_tuple [] vs \<longleftrightarrow> vs = []"
| "writable_tuple (t # ts) vs \<longleftrightarrow> (case vs of [] \<Rightarrow> False | v # vs \<Rightarrow> writable t NoTags v \<and> writable_tuple ts vs)"
| "writable_active [] i tags v \<longleftrightarrow> False"
| "writable_active (t # ts) i tags v \<longleftrightarrow>
     (case i of 0 \<Rightarrow> writable t tags v | Suc j \<Rightarrow> writable_active ts j tags v)"
| "writable_fields [] vs \<longleftrightarrow> vs = []"
| "writable_fields ((f, t) # fs) vs \<longleftrightarrow>
     (case vs of [] \<Rightarrow> False
      | v # vs \<Rightarrow> (tg_ignore (fd_tags f) \<or> writable t (fd_tags f) v) \<and> writable_fields fs vs)"
  by pat_completeness auto

termination
  by (relation "measure (\<lambda>x. case x of
      Inl (Inl (t, _)) \<Rightarrow> size t
    | Inl (Inr (ts, _)) \<Rightarrow> size_list size ts
    | Inr (Inl (ts, _)) \<Rightarrow> size_list size ts
    | Inr (Inr (fs, _)) \<Rightarrow> size_list (size_prod (\<lambda>_. 0) size) fs)") auto

end
