(* ===== verification/Parse_Refine.thy ===== *)
theory Parse_Refine
  imports Parse_Document
begin

text \<open>
  \<open>parser_write\<close> refines the writing of documents: the typed parsers make exactly the calls that write
  the document of the value.
\<close>

named_theorems write_simps

lemma write_ok_cases [write_simps]:
  "(case write_ok r of (Inl e, parent, w) \<Rightarrow> f e parent w | (Inr u, parent, w) \<Rightarrow> g parent w) =
     (case r of (parent, w) \<Rightarrow> g parent w)"
  by (cases r) (simp add: write_ok_def)

lemma write_ok_parts [write_simps]: "fst (write_ok r) = Inr ()" "snd (write_ok r) = r"
  by (simp_all add: write_ok_def)

lemma write_context_ok [write_simps]: "write_context msg (write_ok r) = write_ok r"
  by (simp add: write_context_def write_ok_def parser_context_def)

lemma write_ok_pair: "write_ok (parent, w) = (Inr (), parent, w)"
  by (simp add: write_ok_def)

lemma in_container_ok [write_simps]:
  assumes "\<And>parent w. body parent w = write_ok (fill parent w)"
  shows "in_array n body p parent w = write_ok
      (case open_array p n parent w of (child, parent, w) \<Rightarrow> case fill (Some child) w of (child, w) \<Rightarrow> (parent, close_scope child w))"
    "in_object n body p parent w = write_ok
      (case open_object p n parent w of (child, parent, w) \<Rightarrow> case fill (Some child) w of (child, w) \<Rightarrow> (parent, close_scope child w))"
    "in_idobject n body p parent w = write_ok
      (case open_idobject p n parent w of (child, parent, w) \<Rightarrow> case fill (Some child) w of (child, w) \<Rightarrow> (parent, close_scope child w))"
  by (simp_all add: in_array_def in_object_def in_idobject_def assms write_ok_def split_beta)

lemma in_array_document:
  assumes "\<And>parent w. body parent w = write_ok (write_elements ds parent w)" "n = length ds"
  shows "in_array n body p parent w = write_ok (write_at p (D_array ds) parent w)"
  using in_container_ok(1) [where fill = "write_elements ds", OF assms(1)] assms(2) by (simp add: split_beta)

lemma in_object_document:
  assumes "\<And>parent w. body parent w = write_ok (write_fields In_Object fs parent w)" "n = length fs"
  shows "in_object n body p parent w = write_ok (write_at p (D_object fs) parent w)"
  using in_container_ok(2) [where fill = "write_fields In_Object fs", OF assms(1)] assms(2) by (simp add: split_beta)

lemma in_idobject_document:
  assumes "\<And>parent w. body parent w = write_ok (write_fields In_IdObject fs parent w)" "n = length fs"
  shows "in_idobject n body p parent w = write_ok (write_at p (D_idobject fs) parent w)"
  using in_container_ok(3) [where fill = "write_fields In_IdObject fs", OF assms(1)] assms(2) by (simp add: split_beta)

declare write_at.simps(4-6) [simp del]

subsection \<open>The loops\<close>

text \<open>\<open>wr\<close> writes the document \<open>f v\<close> of every value that satisfies \<open>P\<close>.\<close>

definition writes :: "(tvalue \<Rightarrow> pwrite) \<Rightarrow> (tvalue \<Rightarrow> doc) \<Rightarrow> (tvalue \<Rightarrow> bool) \<Rightarrow> bool" where
  "writes wr f P \<longleftrightarrow> (\<forall>v p parent w. P v \<longrightarrow> wr v p parent w = write_ok (write_at p (f v) parent w))"

lemma write_arithmetic_document:
  "fixed_fits tag s \<Longrightarrow> write_arithmetic tag s p parent w = write_ok (write_at p (arithmetic_doc tag s) parent w)"
  by (simp add: write_arithmetic_def fixed_fits_def arithmetic_doc_def write_ok_def)

lemma parser_write_string_document:
  "parser_write_string s p parent w = write_ok (write_at p (string_doc s) parent w)"
  by (simp add: parser_write_string_def string_doc_def)

lemma write_basic_document:
  "basic_fits tag b (V_basic x) \<Longrightarrow> write_basic tag x p parent w = write_ok (write_at p (basic_doc tag x) parent w)"
  by (cases x) (simp_all add: basic_fits_def write_basic_def basic_doc_def write_arithmetic_document
      parser_write_string_document)

lemma write_items_document:
  assumes "writes wr f P"
  shows "list_all P vs \<Longrightarrow> write_items wr msg i vs parent w = write_ok (write_elements (map f vs) parent w)"
proof (induction vs arbitrary: i parent w)
  case (Cons v vs)
  then have "wr v In_Array parent w = write_ok (write_at In_Array (f v) parent w)"
    using assms by (simp add: writes_def)
  with Cons show ?case
    by (simp add: write_simps split_beta)
qed (simp add: write_ok_pair)

lemma write_two_document:
  assumes "writes wr1 f1 P1" "P1 v1" "writes wr2 f2 P2" "P2 v2"
  shows "write_two (n1, wr1, v1, m1) (n2, wr2, v2, m2) parent w =
    write_ok (write_fields In_Object [(n1, f1 v1), (n2, f2 v2)] parent w)"
  using assms by (simp add: write_two_def writes_def write_simps split_beta)

lemma in_object_two:
  assumes "writes wr1 f1 P1" "P1 v1" "writes wr2 f2 P2" "P2 v2"
  shows "in_object 2 (write_two (n1, wr1, v1, m1) (n2, wr2, v2, m2)) p parent w =
    write_ok (write_at p (entry_doc (n1, f1 v1) (n2, f2 v2)) parent w)"
  unfolding entry_doc_def by (rule in_object_document) (simp_all add: write_two_document [OF assms] del: write_fields.simps)

lemma write_entries_document:
  assumes "writes wk f P" "writes wv g Q"
  shows "list_all (\<lambda>e. P (fst e) \<and> Q (snd e)) es \<Longrightarrow> write_entries wk wv i es parent w =
    write_ok (write_elements (map (\<lambda>e. entry_doc (bytes_of_chars ''key'', f (fst e)) (bytes_of_chars ''value'', g (snd e))) es)
      parent w)"
proof (induction es arbitrary: i parent w)
  case (Cons e es)
  then show ?case
    by (simp add: in_object_two [OF assms(1) _ assms(2)] write_simps split_beta)
qed (simp add: write_ok_pair)

lemma write_members_document:
  assumes "writes wr f P"
  shows "list_all (\<lambda>e. P (snd e)) es \<Longrightarrow> write_members wr es parent w =
    write_ok (write_fields In_Object (map (\<lambda>e. (key_string (fst e), f (snd e))) es) parent w)"
proof (induction es arbitrary: parent w)
  case (Cons e es)
  then have "wr (snd e) (In_Object (key_string (fst e))) parent w =
      write_ok (write_at (In_Object (key_string (fst e))) (f (snd e)) parent w)"
    using assms by (simp add: writes_def)
  with Cons show ?case
    by (simp add: write_simps split_beta)
qed (simp add: write_ok_pair)

lemma write_elements_append:
  "write_elements (ds @ es) parent w = (case write_elements ds parent w of (parent, w) \<Rightarrow> write_elements es parent w)"
  by (induction ds arbitrary: parent w) (simp_all add: split_beta)

lemma write_fields_append:
  "write_fields pl (fs @ gs) parent w = (case write_fields pl fs parent w of (parent, w) \<Rightarrow> write_fields pl gs parent w)"
  by (induction fs arbitrary: parent w) (simp_all add: split_beta)

subsection \<open>The counts\<close>

lemma length_tuple_docs: "writable_tuple ts vs \<Longrightarrow> length (tuple_docs ts vs) = length ts"
  by (induction ts arbitrary: vs) (auto split: list.splits)

lemma length_positional_docs:
  "writable_fields fs vs \<Longrightarrow> length (positional_docs fs vs) = parser_reflect_field_count fs"
proof (induction fs arbitrary: vs)
  case (Cons f fs)
  then show ?case
    by (cases f) (auto simp: parser_reflect_field_count_def split: list.splits)
qed (simp add: parser_reflect_field_count_def)

lemma flat_fieldsD: "flat_fields (f, t) = Some gs \<Longrightarrow> \<exists>kind. t = Ty_Record kind gs"
  by (auto simp: flat_fields_def split: ty.splits if_splits)

lemma record_not_optional: "flat_fields (f, t) = Some gs \<Longrightarrow> \<not> parser_should_skip_empty_field t v"
  by (auto dest: flat_fieldsD simp: parser_should_skip_empty_field_def optional_like_def)

lemma length_field_docs:
  "writable_fields fs vs \<Longrightarrow> length (field_docs fs vs) = parser_reflect_emitted_field_count fs vs"
proof (induction fs vs rule: parser_reflect_emitted_field_count.induct)
  case (2 f t fs vs)
  then obtain v vs' where vs: "vs = v # vs'" and ok: "tg_ignore (fd_tags f) \<or> writable t (fd_tags f) v"
    and rest: "writable_fields fs vs'"
    by (auto split: list.splits)
  have "length (field_docs gs (items v)) = parser_reflect_emitted_field_count gs (items v)"
    if "flat_fields (f, t) = Some gs" "\<not> tg_ignore (fd_tags f)" for gs
    using that ok flat_fieldsD [OF that(1)] record_not_optional [OF that(1)]
    by (intro "2.IH"(1) [OF vs]) (auto split: tvalue.splits)
  then show ?case
    using "2.IH"(2) [OF vs rest] by (auto simp: vs record_not_optional split: option.splits)
qed simp

subsection \<open>The parsers\<close>

lemma parser_write_documents:
  "writable t tags v \<Longrightarrow> parser_write t tags v p parent w = write_ok (write_at p (doc_of t tags v) parent w)"
  "writable_tuple ts vs \<Longrightarrow> write_tuple ts i vs parent w = write_ok (write_elements (tuple_docs ts vs) parent w)"
  "writable_active ts i tags v \<Longrightarrow>
     writeActive ts i tags v p parent w = write_ok (write_at p (active_doc ts i tags v) parent w)"
  "writable_fields fs vs \<Longrightarrow>
     parser_write_reflect_fields fs vs parent w = write_ok (write_fields In_IdObject (field_docs fs vs) parent w)"
  "writable_fields fs vs \<Longrightarrow>
     write_positional fs i vs parent w = write_ok (write_elements (positional_docs fs vs) parent w)"
proof (induction t tags v p parent w and ts i vs parent w and ts i tags v p parent w and fs vs parent w and fs i vs parent w
    rule: parser_write_write_tuple_writeActive_parser_write_reflect_fields_write_positional.induct)
  case (1 b tags v p parent w)
  then show ?case
    by (cases v) (simp_all add: basic_fits_def write_basic_document [unfolded basic_fits_def])
next
  case (4 b names tags v p parent w)
  then show ?case
    by (auto simp: write_enum_def Let_def parser_write_string_document write_arithmetic_document
        split: tvalue.splits cvalue.splits)
next
  case (7 tags v p parent w)
  then show ?case
    by (auto simp: write_byte_def basic_fits_def basic_doc_def write_arithmetic_document split: tvalue.splits cvalue.splits)
next
  case (9 ins t tags v p parent w)
  have "writes (\<lambda>x. parser_write t NoTags x) (doc_of t NoTags) (writable t NoTags)"
    unfolding writes_def using "9.IH" by blast
  from write_items_document [OF this] "9.prems" show ?case
    by (auto simp: parser_write_sequence_def intro!: in_array_document split: tvalue.splits)
next
  case (10 tags v p parent w)
  have "writes (\<lambda>x p parent w. case x of V_basic x \<Rightarrow> write_basic 0 x p parent w | _ \<Rightarrow> no_value parent w)
      (\<lambda>x. case x of V_basic x \<Rightarrow> basic_doc 0 x | _ \<Rightarrow> D_null) (basic_fits 0 B_bool)"
    by (auto simp: writes_def write_basic_document basic_fits_def split: tvalue.splits)
  from write_items_document [OF this] "10.prems" show ?case
    by (auto simp: write_vector_bool_def parser_write_sequence_def intro!: in_array_document split: tvalue.splits)
next
  case (11 n t tags v p parent w)
  have "writes (\<lambda>x. parser_write t NoTags x) (doc_of t NoTags) (writable t NoTags)"
    unfolding writes_def using "11.IH" by blast
  from write_items_document [OF this] "11.prems" show ?case
    by (auto simp: write_array_def intro!: in_array_document split: tvalue.splits)
next
  case (12 str ins k t tags v p parent w)
  then obtain es where v: "v = V_map es"
    by (auto split: tvalue.splits)
  have wt: "writes (\<lambda>x. parser_write t NoTags x) (doc_of t NoTags) (writable t NoTags)"
    unfolding writes_def using "12.IH"(1,3) by (cases str) blast+
  show ?case
  proof (cases str)
    case True
    with "12.prems" have "list_all (\<lambda>e. writable t NoTags (snd e)) es"
      by (auto simp: v list_all_iff)
    from write_members_document [OF wt this] True show ?thesis
      by (simp add: v parser_write_string_key_map_def in_object_document)
  next
    case False
    have wk: "writes (\<lambda>x. parser_write k NoTags x) (doc_of k NoTags) (writable k NoTags)"
      unfolding writes_def using "12.IH"(2) False by blast
    from "12.prems" False have "list_all (\<lambda>e. writable k NoTags (fst e) \<and> writable t NoTags (snd e)) es"
      by (auto simp: v list_all_iff)
    from write_entries_document [OF wk wt this] False show ?thesis
      by (simp add: v parser_write_key_value_array_def in_array_document)
  qed
next
  case (13 ts tags v p parent w)
  then show ?case
    by (auto intro!: in_array_document simp: length_tuple_docs split: tvalue.splits)
next
  case (14 k t tags v p parent w)
  then obtain a b where v: "v = V_list [a, b]" "writable k NoTags a" "writable t NoTags b"
    by (auto split: tvalue.splits list.splits)
  have wk: "writes (\<lambda>x. parser_write k NoTags x) (doc_of k NoTags) (writable k NoTags)"
    and wt: "writes (\<lambda>x. parser_write t NoTags x) (doc_of t NoTags) (writable t NoTags)"
    unfolding writes_def using "14.IH" v(1) by auto
  show ?case
    by (simp add: write_pair_def v(1) in_object_two [OF wk v(2) wt v(3)])
next
  case (15 kind t tags v p parent w)
  then show ?case
    by (cases "kind = O_optional")
      (auto simp: write_null_def write_optional_def write_pointer_def write_ok_def split: tvalue.splits option.splits)
next
  case (17 ts tags v p parent w)
  then obtain i x where v: "v = V_alt i x" "writable_active ts i (unionPayloadTags tags) x"
    by (auto split: tvalue.splits)
  have wa: "write_arithmetic 0 (S_u64 (of_nat i)) In_Array parent w =
      write_ok (write_at In_Array (D_value (C_scalar (S_u64 (of_nat i)))) parent w)" for parent w
    using write_arithmetic_document [of 0 "S_u64 (of_nat i)" In_Array parent w]
    by (simp add: fixed_fits_def arithmetic_doc_def)
  show ?case
  proof (cases "tg_untagged tags")
    case True
    then show ?thesis
      using "17.IH" v by (simp add: write_variant_def)
  next
    case False
    have "in_array 2 (\<lambda>parent w.
            case write_arithmetic 0 (S_u64 (of_nat i)) In_Array parent w of
              (Inl e, parent, w) \<Rightarrow> (parser_context ''Failed to write variant index: '' (Inl e), parent, w)
            | (Inr _, parent, w) \<Rightarrow> writeActive ts i (unionPayloadTags tags) x In_Array parent w) p parent w =
        write_ok (write_at p (D_array [D_value (C_scalar (S_u64 (of_nat i))), active_doc ts i (unionPayloadTags tags) x]) parent w)"
      using "17.IH" v(2) wa
      by (intro in_array_document) (simp_all add: write_simps split_beta write_ok_def)
    with False v(1) show ?thesis
      by (simp add: write_variant_def)
  qed
next
  case (18 n t tags v p parent w)
  then show ?case
    by (auto intro!: in_object_document simp: write_name_value_pair_def split_beta)
next
  case (19 kind fs tags v p parent w)
  then show ?case
    by (auto intro!: in_idobject_document simp: length_field_docs split: tvalue.splits)
next
  case (20 kind fs tags v p parent w)
  then show ?case
    by (auto intro!: in_array_document simp: length_positional_docs split: tvalue.splits)
next
  case (22 t ts i vs parent w)
  then obtain v vs' where vs: "vs = v # vs'" and ok: "writable t NoTags v" "writable_tuple ts vs'"
    by (auto split: list.splits)
  obtain parent' w' where at: "write_at In_Array (doc_of t NoTags v) parent w = (parent', w')"
    by fastforce
  have wv: "parser_write t NoTags v In_Array parent w = write_ok (parent', w')"
    using "22.IH"(1) [OF vs ok(1)] at by simp
  have "write_tuple ts (Suc i) vs' parent' w' = write_ok (write_elements (tuple_docs ts vs') parent' w')"
    by (rule "22.IH"(2) [OF vs _ refl refl ok(2)]) (simp add: wv write_simps, simp add: write_ok_def)
  then show ?case
    by (simp add: vs wv write_simps at)
next
  case (26 f t fs vs parent w)
  then obtain v vs' where vs: "vs = v # vs'" and ok: "tg_ignore (fd_tags f) \<or> writable t (fd_tags f) v"
    and rest: "writable_fields fs vs'"
    by (auto split: list.splits)
  have gs: "writable_fields gs (items v)" if "flat_fields (f, t) = Some gs" "\<not> tg_ignore (fd_tags f)" for gs
    using ok that flat_fieldsD [OF that(1)] by (auto split: tvalue.splits)
  let ?step = "(if tg_ignore (fd_tags f) then (Inr (), parent, w)
      else case flat_fields (f, t) of
        Some gs \<Rightarrow> parser_write_reflect_fields gs (items v) parent w
      | None \<Rightarrow>
        if parser_should_skip_empty_field t v then (Inr (), parent, w)
        else write_context
          (''Failed to write field '' @ quoted (chars_of_bytes (field_name f)) @ '': '')
          (parser_write t (fd_tags f) v (In_IdObject (field_name f)) parent w))"
  let ?docs = "if tg_ignore (fd_tags f) then []
      else case flat_fields (f, t) of
        Some gs \<Rightarrow> field_docs gs (items v)
      | None \<Rightarrow> if parser_should_skip_empty_field t v then [] else [(field_name f, doc_of t (fd_tags f) v)]"
  obtain parent' w' where at: "write_fields In_IdObject ?docs parent w = (parent', w')"
    by fastforce
  have step: "?step = write_ok (parent', w')"
    using "26.IH"(1,2) [OF vs] ok gs at
    by (auto simp: write_simps write_ok_pair split_beta split: option.splits if_splits)
  have "parser_write_reflect_fields fs vs' parent' w' =
      write_ok (write_fields In_IdObject (field_docs fs vs') parent' w')"
    by (rule "26.IH"(3) [OF vs _ refl refl rest]) (simp only: step write_ok_def)
  then show ?case
    by (simp only: vs parser_write_reflect_fields.simps list.case step write_simps field_docs.simps
        write_fields_append at split_beta fst_conv snd_conv sum.case)
next
  case (28 f t fs i vs parent w)
  then obtain v vs' where vs: "vs = v # vs'" and ok: "tg_ignore (fd_tags f) \<or> writable t (fd_tags f) v"
    and rest: "writable_fields fs vs'"
    by (auto split: list.splits)
  show ?case
  proof (cases "tg_ignore (fd_tags f)")
    case True
    then show ?thesis
      using "28.IH"(1) [OF vs True rest] by (simp add: vs)
  next
    case False
    obtain parent' w' where at: "write_at In_Array (doc_of t (fd_tags f) v) parent w = (parent', w')"
      by fastforce
    have wv: "parser_write t (fd_tags f) v In_Array parent w = write_ok (parent', w')"
      using "28.IH"(2) [OF vs False] ok False at by simp
    have "write_positional fs (Suc i) vs' parent' w' = write_ok (write_elements (positional_docs fs vs') parent' w')"
      by (rule "28.IH"(3) [OF vs False _ refl refl rest]) (simp add: wv write_simps, simp add: write_ok_def)
    with False show ?thesis
      by (simp add: vs wv write_simps at)
  qed
qed (auto simp: write_null_def write_c_string_def write_bitset_def write_optional_def write_pointer_def write_ok_def
    parser_write_string_document split: tvalue.splits option.splits cvalue.splits nat.splits)

text \<open>C22 (refinement). The typed parsers refine the document writer: for every value whose fixed
  lengths fit its types, \<open>parser_write\<close> at the root returns without an error, emits the magic and the
  encoding of the value's document, and the writer reports an error exactly when two hashed field
  ids of one reflected object collide; every container is opened with the number of the elements it
  gets.\<close>

theorem parser_write_exact:
  assumes "writable t tags v"
  shows "\<exists>parent w. parser_write t tags v At_Root None (new_writer []) = (Inr (), parent, w) \<and>
    w_buffer w = BinaryMagic @ emit (tree_of (doc_of t tags v)) \<and>
    writer_result w = (if doc_ok (doc_of t tags v) then Inr () else Inl (Err collision))"
proof -
  have "parser_write t tags v At_Root None (new_writer []) =
      (Inr (), fst (write_at At_Root (doc_of t tags v) None (new_writer [])), write_document (doc_of t tags v))"
    by (simp add: parser_write_documents(1) [OF assms] write_ok_def write_document_def)
  then show ?thesis
    by (simp add: write_document_eq wrote_def writer_result_def ensureDocumentHeader_def appendBytes_def new_writer_def)
qed

definition sample_field :: "string \<Rightarrow> ptags \<Rightarrow> field" where
  "sample_field name tags = \<lparr>fd_name = bytes_of_chars name, fd_tags = tags, fd_init = V_null\<rparr>"

text \<open>A record with a number, a flattened record of an optional and a sequence, and a variant.\<close>

definition sample_ty :: ty where
  "sample_ty = Ty_Record Rec_Copy
     [(sample_field ''id'' NoTags, Ty_Basic B_u32),
      (sample_field ''base'' (NoTags\<lparr>tg_flat := True\<rparr>),
       Ty_Record Rec_Copy [(sample_field ''nick'' NoTags, Ty_Opt O_optional (Ty_Basic B_string)),
                           (sample_field ''list'' NoTags, Ty_Seq push_back (Ty_Basic B_i16))]),
      (sample_field ''u'' NoTags, Ty_Variant [Ty_Basic B_bool, Ty_Basic B_string])]"

definition sample_value :: tvalue where
  "sample_value = V_list
     [V_basic (C_scalar (S_u32 7)),
      V_list [V_opt None, V_list [V_basic (C_scalar (S_i16 1)), V_basic (C_scalar (S_i16 (-2)))]],
      V_alt 1 (V_basic (C_string [0x68, 0x69]))]"

lemma parser_write_exact_witness:
  "\<exists>parent w. parser_write sample_ty NoTags sample_value At_Root None (new_writer []) = (Inr (), parent, w) \<and>
    w_buffer w = BinaryMagic @ emit (tree_of (doc_of sample_ty NoTags sample_value)) \<and> writer_result w = Inr ()"
proof -
  have "writable sample_ty NoTags sample_value"
    by (simp add: sample_ty_def sample_value_def sample_field_def NoTags_def basic_fits_def fixed_fits_def
        unionPayloadTags_def)
  moreover have "doc_ok (doc_of sample_ty NoTags sample_value)"
    by (simp add: sample_ty_def sample_value_def sample_field_def NoTags_def basic_doc_def arithmetic_doc_def
        string_doc_def unionPayloadTags_def flat_fields_def parser_should_skip_empty_field_def optional_like_def
        has_value_def is_monostate_def field_name_def) code_simp
  ultimately show ?thesis
    using parser_write_exact [of sample_ty NoTags sample_value] by simp
qed

end
