(* ===== verification/Parse_Contract.thy ===== *)
theory Parse_Contract
  imports Parse_Refine
begin

text \<open>
  The contract between the typed parsers and the reader they run on, as a locale, and the values that
  survive a round trip: \<open>recoverable\<close> says, by the type alone, when parsing the document of a value
  into a target gives the value back. The theorem is proved once for every reader with the contract.
\<close>

subsection \<open>The tags a type reads\<close>

fun basic_tags :: "basic \<Rightarrow> value_tag list" where
  "basic_tags B_string = [T_String]"
| "basic_tags B_bool = [T_False, T_True]"
| "basic_tags B_f32 = [T_Float32]"
| "basic_tags B_f64 = [T_Float64]"
| "basic_tags b = (if b \<in> {B_i8, B_i16, B_i32, B_i64} then [T_SignedInteger] else [T_UnsignedInteger])"

fun fixed_tags :: "basic \<Rightarrow> value_tag list" where
  "fixed_tags B_i8 = [T_FixedSigned8]"
| "fixed_tags B_i16 = [T_FixedSigned16]"
| "fixed_tags B_i32 = [T_FixedSigned32]"
| "fixed_tags B_i64 = [T_FixedSigned64]"
| "fixed_tags B_u8 = [T_FixedUnsigned8]"
| "fixed_tags B_u16 = [T_FixedUnsigned16]"
| "fixed_tags B_u32 = [T_FixedUnsigned32]"
| "fixed_tags B_u64 = [T_FixedUnsigned64]"
| "fixed_tags b = basic_tags b"

definition arithmetic_tags :: "nat \<Rightarrow> basic \<Rightarrow> value_tag list" where
  "arithmetic_tags tag b = (if tag \<noteq> 0 then fixed_tags b else basic_tags b)"

definition object_tags :: "value_tag list" where
  "object_tags = [T_NamedObject, T_IdObject]"

fun accepts :: "ty \<Rightarrow> ptags \<Rightarrow> value_tag list" where
  "accepts (Ty_Basic b) tags = (if b = B_string then [T_String] else arithmetic_tags (tg_fixed tags) b)"
| "accepts Ty_Nullptr tags = [T_Null]"
| "accepts Ty_Monostate tags = [T_Null]"
| "accepts (Ty_Enum b names) tags = T_String # arithmetic_tags (tg_fixed tags) b"
| "accepts Ty_StringView tags = []"
| "accepts (Ty_CString c) tags = []"
| "accepts Ty_Byte tags = arithmetic_tags (tg_fixed tags) B_u8"
| "accepts (Ty_Bitset n) tags = [T_String]"
| "accepts (Ty_Seq ins t) tags = [T_Array]"
| "accepts Ty_VectorBool tags = [T_Array]"
| "accepts (Ty_Array n t) tags = [T_Array]"
| "accepts (Ty_Map str ins k t) tags = (if str then object_tags else [T_Array])"
| "accepts (Ty_Tuple ts) tags = [T_Array]"
| "accepts (Ty_Pair k t) tags = object_tags"
| "accepts (Ty_Opt kind t) tags = T_Null # accepts t tags"
| "accepts (Ty_Atomic t) tags = accepts t tags"
| "accepts (Ty_Variant ts) tags =
     (if tg_untagged tags then concat (map (\<lambda>t. accepts t (unionPayloadTags tags)) ts) else [T_Array])"
| "accepts (Ty_NameValuePair n t) tags = object_tags"
| "accepts (Ty_Record kind fs) tags = object_tags"
| "accepts (Ty_Positional kind fs) tags = [T_Array]"

definition doc_tag :: "doc \<Rightarrow> value_tag" where
  "doc_tag d = tree_tag (tree_of d)"

fun doc_cost :: "doc \<Rightarrow> nat" where
  "doc_cost (D_value v) = value_cost v"
| "doc_cost (D_array ds) = sum_list (map doc_cost ds)"
| "doc_cost (D_object fs) = sum_list (map (\<lambda>f. doc_cost (snd f)) fs)"
| "doc_cost (D_idobject fs) = sum_list (map (\<lambda>f. doc_cost (snd f)) fs)"
| "doc_cost _ = 0"

subsection \<open>Values that are read back\<close>

text \<open>The names of the fields that are skipped because they are empty.\<close>

function absent_names :: "(field \<times> ty) list \<Rightarrow> tvalue list \<Rightarrow> bytes list" where
  "absent_names [] vs = []"
| "absent_names ((f, t) # fs) vs =
     (case vs of
        [] \<Rightarrow> []
      | v # vs \<Rightarrow>
        (if tg_ignore (fd_tags f) then []
         else case flat_fields (f, t) of
           Some gs \<Rightarrow> absent_names gs (items v)
         | None \<Rightarrow> if parser_should_skip_empty_field t v then [field_name f] else []) @ absent_names fs vs)"
  by pat_completeness auto

termination
  by (relation "measure (\<lambda>(fs, vs). size_list (size_prod (\<lambda>_. 0) size) fs)")
    (auto dest!: flat_fields_size simp del: flat_fields_size)

text \<open>No member of the object has an empty name, and none has the key of a skipped field.\<close>

definition names_found :: "(field \<times> ty) list \<Rightarrow> tvalue list \<Rightarrow> bool" where
  "names_found fs vs \<longleftrightarrow>
     list_all (\<lambda>n. n \<noteq> []) (map fst (field_docs fs vs)) \<and>
     list_all (\<lambda>n. key_of n \<notin> key_of ` set (map fst (field_docs fs vs))) (absent_names fs vs)"

definition alone :: "ty list \<Rightarrow> ptags \<Rightarrow> nat \<Rightarrow> doc \<Rightarrow> bool" where
  "alone ts tags i d \<longleftrightarrow> (\<forall>j < length ts. j \<noteq> i \<longrightarrow> doc_tag d \<notin> set (accepts (ts ! j) tags))"

function recoverable :: "ty \<Rightarrow> ptags \<Rightarrow> tvalue \<Rightarrow> tvalue \<Rightarrow> bool"
  and recoverable_tuple :: "ty list \<Rightarrow> tvalue list \<Rightarrow> tvalue list \<Rightarrow> bool"
  and recoverable_active :: "ty list \<Rightarrow> nat \<Rightarrow> ptags \<Rightarrow> tvalue \<Rightarrow> bool"
  and recoverable_fields :: "(field \<times> ty) list \<Rightarrow> tvalue list \<Rightarrow> tvalue list \<Rightarrow> bool"
  and recoverable_positional :: "(field \<times> ty) list \<Rightarrow> tvalue list \<Rightarrow> tvalue list \<Rightarrow> bool"
where
  "recoverable (Ty_Basic b) tags v cur = basic_fits (tg_fixed tags) b v"
| "recoverable Ty_Nullptr tags v cur = (v = V_null)"
| "recoverable Ty_Monostate tags v cur = (v = V_null)"
| "recoverable (Ty_Enum b names) tags v cur =
     (case v of V_basic (C_scalar x) \<Rightarrow>
        basic_of x = b \<and> (if enum_name names x \<noteq> [] then nameMap names (enum_name names x) = Some x
                          else fixed_fits (tg_fixed tags) x)
      | _ \<Rightarrow> False)"
| "recoverable Ty_StringView tags v cur = False"
| "recoverable (Ty_CString c) tags v cur = False"
| "recoverable Ty_Byte tags v cur = basic_fits (tg_fixed tags) B_u8 v"
| "recoverable (Ty_Bitset n) tags v cur = (case v of V_bits bs \<Rightarrow> length bs = n | _ \<Rightarrow> False)"
| "recoverable (Ty_Seq ins t) tags v cur =
     (case v of V_list vs \<Rightarrow> insert_all ins [] vs = Some vs \<and> list_all (\<lambda>x. recoverable t NoTags x (default_of t)) vs
      | _ \<Rightarrow> False)"
| "recoverable Ty_VectorBool tags v cur = (case v of V_list vs \<Rightarrow> list_all (basic_fits 0 B_bool) vs | _ \<Rightarrow> False)"
| "recoverable (Ty_Array n t) tags v cur =
     (case v of V_list vs \<Rightarrow> length vs = n \<and> list_all2 (\<lambda>x c. recoverable t NoTags x c) vs (items cur) | _ \<Rightarrow> False)"
| "recoverable (Ty_Map str ins k t) tags v cur =
     (case v of V_map es \<Rightarrow>
        insert_all (\<lambda>m e. ins m (fst e) (snd e)) [] es = Some es \<and>
        list_all (\<lambda>e. (if str then fst e = V_basic (C_string (key_string (fst e)))
                       else recoverable k NoTags (fst e) (default_of k)) \<and>
                      recoverable t NoTags (snd e) (default_of t)) es
      | _ \<Rightarrow> False)"
| "recoverable (Ty_Tuple ts) tags v cur = (case v of V_list vs \<Rightarrow> recoverable_tuple ts vs (items cur) | _ \<Rightarrow> False)"
| "recoverable (Ty_Pair k t) tags v cur =
     (case v of V_list [a, b] \<Rightarrow>
        (case items cur of [c, d] \<Rightarrow> recoverable k NoTags a c \<and> recoverable t NoTags b d | _ \<Rightarrow> False)
      | _ \<Rightarrow> False)"
| "recoverable (Ty_Opt kind t) tags v cur =
     (case v of V_opt None \<Rightarrow> True
      | V_opt (Some x) \<Rightarrow> recoverable t tags x (default_of t) \<and> doc_tag (doc_of t tags x) \<noteq> T_Null
      | _ \<Rightarrow> False)"
| "recoverable (Ty_Atomic t) tags v cur = recoverable t tags v (default_of t)"
| "recoverable (Ty_Variant ts) tags v cur =
     (case v of V_alt i x \<Rightarrow> recoverable_active ts i (unionPayloadTags tags) x \<and>
        (if tg_untagged tags then alone ts (unionPayloadTags tags) i (active_doc ts i (unionPayloadTags tags) x)
         else i < 2 ^ 64)
      | _ \<Rightarrow> False)"
| "recoverable (Ty_NameValuePair n t) tags v cur = recoverable t NoTags v cur"
| "recoverable (Ty_Record kind fs) tags v cur =
     (case v of V_list vs \<Rightarrow> names_found fs vs \<and>
        recoverable_fields fs vs (items (if kind = Rec_Fresh then default_of (Ty_Record kind fs) else cur))
      | _ \<Rightarrow> False)"
| "recoverable (Ty_Positional kind fs) tags v cur =
     (case v of V_list vs \<Rightarrow>
        recoverable_positional fs vs (items (if kind = Rec_Fresh then default_of (Ty_Positional kind fs) else cur))
      | _ \<Rightarrow> False)"
| "recoverable_tuple [] vs cs = (vs = [] \<and> cs = [])"
| "recoverable_tuple (t # ts) vs cs =
     (case vs of v # vs \<Rightarrow>
        (case cs of c # cs \<Rightarrow> recoverable t NoTags v c \<and> recoverable_tuple ts vs cs | _ \<Rightarrow> False)
      | _ \<Rightarrow> False)"
| "recoverable_active [] i tags v = False"
| "recoverable_active (t # ts) i tags v =
     (case i of 0 \<Rightarrow> recoverable t tags v (default_of t) | Suc j \<Rightarrow> recoverable_active ts j tags v)"
| "recoverable_fields [] vs cs = (vs = [] \<and> cs = [])"
| "recoverable_fields ((f, t) # fs) vs cs =
     (case vs of v # vs \<Rightarrow>
        (case cs of c # cs \<Rightarrow>
           (if tg_ignore (fd_tags f) then v = c
            else case flat_fields (f, t) of
              Some gs \<Rightarrow> (case v of V_list us \<Rightarrow> recoverable_fields gs us (items c) | _ \<Rightarrow> False)
            | None \<Rightarrow>
              if parser_should_skip_empty_field t v then (if tg_skippable (fd_tags f) then v = c else v = set_null t)
              else recoverable t (fd_tags f) v c \<and> doc_tag (doc_of t (fd_tags f) v) \<noteq> T_Null) \<and>
           recoverable_fields fs vs cs
         | _ \<Rightarrow> False)
      | _ \<Rightarrow> False)"
| "recoverable_positional [] vs cs = (vs = [] \<and> cs = [])"
| "recoverable_positional ((f, t) # fs) vs cs =
     (case vs of v # vs \<Rightarrow>
        (case cs of c # cs \<Rightarrow>
           (if tg_ignore (fd_tags f) then v = c else recoverable t (fd_tags f) v c) \<and> recoverable_positional fs vs cs
         | _ \<Rightarrow> False)
      | _ \<Rightarrow> False)"
  by pat_completeness auto

termination
  by (relation "measure (\<lambda>x. case x of
      Inl (Inl (t, _)) \<Rightarrow> size t
    | Inl (Inr (ts, _)) \<Rightarrow> size_list size ts
    | Inr (Inl (ts, _)) \<Rightarrow> size_list size ts
    | Inr (Inr (Inl (fs, _))) \<Rightarrow> size_list (size_prod (\<lambda>_. 0) size) fs
    | Inr (Inr (Inr (fs, _))) \<Rightarrow> size_list (size_prod (\<lambda>_. 0) size) fs)")
    (auto dest!: flat_fields_size simp del: flat_fields_size)

subsection \<open>A type refuses what it does not read\<close>

text \<open>\<open>refuses s h T\<close>: in the state \<open>s\<close> the handle \<open>h\<close> is not read as a value with the tag \<open>T\<close>. A reader
  that refuses all tags a type reads makes the type's parser fail and is left as it was.\<close>

locale refusing_reader =
  fixes R :: "('h, 's) reader"
    and refuses :: "'s \<Rightarrow> 'h \<Rightarrow> value_tag \<Rightarrow> bool"
  assumes no_array: "refuses s h T_Array \<Longrightarrow> \<exists>e. rd_toArray R h s = Inl (Err e)"
    and no_object: "\<forall>T \<in> set object_tags. refuses s h T \<Longrightarrow> \<exists>e. rd_toObject R h s = Inl (Err e)"
    and no_null: "refuses s h T_Null \<Longrightarrow> rd_isEmpty R h s = (False, s)"
    and no_basic: "\<forall>T \<in> set (basic_tags b). refuses s h T \<Longrightarrow> \<exists>e. rd_toBasic R b h s = (Inl (Err e), s)"
    and no_fixed: "\<forall>T \<in> set (fixed_tags b). refuses s h T \<Longrightarrow>
      \<exists>e. rd_toFixed R b (basic_size b) h s = (Inl (Err e), s)"
    and restore_same: "rd_restore R h s s = s"
begin

lemma arithmetic_refused:
  assumes "\<forall>T \<in> set (arithmetic_tags tag b). refuses s h T"
  shows "\<exists>e. parser_read_arithmetic R tag b h cur s = (Inl (Err e), cur, s)"
proof (cases "tag \<noteq> 0 \<and> fixed_length_of tag (basic_size b) = basic_size b")
  case True
  then obtain e where "rd_toFixed R b (basic_size b) h s = (Inl (Err e), s)"
    using no_fixed [of b s h] assms by (auto simp: arithmetic_tags_def)
  with True show ?thesis
    by (simp add: parser_read_arithmetic_def assign_def)
next
  case False
  show ?thesis
  proof (cases "tag = 0")
    case True
    then obtain e where "rd_toBasic R b h s = (Inl (Err e), s)"
      using no_basic [of b s h] assms by (auto simp: arithmetic_tags_def)
    with True show ?thesis
      by (simp add: parser_read_arithmetic_def assign_def)
  qed (use False in \<open>simp add: parser_read_arithmetic_def Let_def\<close>)
qed

lemma string_refused:
  "refuses s h T_String \<Longrightarrow> \<exists>e. parser_read_string R h cur s = (Inl (Err e), cur, s)"
  using no_basic [of B_string s h] by (auto simp: parser_read_string_def assign_def)

lemma find_none:
  assumes "\<And>t. t \<in> set ts \<Longrightarrow> \<exists>e v. parser_read R t tags h (default_of t) s = (Inl (Err e), v, s)"
  shows "findAlternatives R ts i tags h mc mi s = (mc, mi, s)"
  using assms
proof (induction ts arbitrary: i)
  case (Cons t ts)
  moreover obtain e v where "parser_read R t tags h (default_of t) s = (Inl (Err e), v, s)"
    using Cons.prems by force
  ultimately show ?case
    by (simp add: restore_same)
qed simp

lemma refused:
  "\<forall>T \<in> set (accepts t tags). refuses s h T \<Longrightarrow> \<exists>e v. parser_read R t tags h cur s = (Inl (Err e), v, s)"
proof (induction t tags arbitrary: cur rule: accepts.induct)
  case (1 b tags)
  then show ?case
    using string_refused [of s h cur] arithmetic_refused [of "tg_fixed tags" b s h cur]
    by (auto simp: read_basic_def read_context_def parser_context_def split: if_splits)
next
  case (4 b names tags)
  obtain e1 where e1: "parser_read_string R h (V_basic (C_string [])) s = (Inl (Err e1), V_basic (C_string []), s)"
    using string_refused "4.prems" by fastforce
  obtain e2 where "parser_read_arithmetic R (tg_fixed tags) b h (V_basic (zero_basic b)) s =
      (Inl (Err e2), V_basic (zero_basic b), s)"
    using arithmetic_refused [of "tg_fixed tags" b s h "V_basic (zero_basic b)"] "4.prems" by auto
  with e1 show ?case
    by (simp add: read_enum_def commit_def read_context_def parser_context_def)
next
  case (7 tags)
  then show ?case
    using arithmetic_refused [of "tg_fixed tags" B_u8 s h "V_basic (C_scalar (S_u8 0))"]
    by (auto simp: read_byte_def commit_def read_context_def parser_context_def)
next
  case (8 n tags)
  then show ?case
    using string_refused [of s h "V_basic (C_string [])"]
    by (auto simp: read_bitset_def read_basic_def read_context_def parser_context_def)
next
  case (15 kind t tags)
  then have "rd_isEmpty R h s = (False, s)"
    by (intro no_null) auto
  moreover obtain e v where "parser_read R t tags h (default_of t) s = (Inl (Err e), v, s)"
    using 15 by force
  ultimately show ?case
    by (simp add: read_optional_def parser_context_def)
next
  case (16 t tags)
  then obtain e v where "parser_read R t tags h (default_of t) s = (Inl (Err e), v, s)"
    by force
  then show ?case
    by (simp add: read_atomic_def commit_def read_context_def parser_context_def)
next
  case (17 ts tags)
  show ?case
  proof (cases "tg_untagged tags")
    case True
    have "\<exists>e v. parser_read R t (unionPayloadTags tags) h (default_of t) s = (Inl (Err e), v, s)" if "t \<in> set ts" for t
      using "17.IH" [OF True that] "17.prems" True that by force
    from find_none [OF this] True show ?thesis
      by (simp add: readUntagged_def read_failed_def)
  next
    case False
    then show ?thesis
      using no_array [of s h] "17.prems" by (auto simp: read_tagged_def parser_context_def)
  qed
next
  case (19 kind fs tags)
  then show ?case
    using no_object [of s h]
    by (cases kind) (auto simp: read_record_def parser_read_reflect_fields_def as_list_def commit_def)
next
  case (20 kind fs tags)
  then show ?case
    using no_array [of s h] by (cases kind) (auto simp: read_record_def read_sized_def commit_def)
next
  case (12 str ins k t tags)
  then show ?case
    using no_array [of s h] no_object [of s h]
    by (cases str) (auto simp: parser_read_string_key_map_def parser_read_key_value_array_def)
next
  case (2 tags)
  then show ?case
    using no_null [of s h] by (simp add: read_null_def read_failed_def)
next
  case (3 tags)
  then show ?case
    using no_null [of s h] by (simp add: read_null_def read_failed_def)
next
  case (5 tags)
  show ?case
    by (simp add: read_string_view_def read_failed_def)
next
  case (6 c tags)
  show ?case
    by (simp add: read_c_string_def read_failed_def)
next
  case (9 ins t tags)
  then show ?case
    using no_array [of s h] by (auto simp: parser_read_sequence_def)
next
  case (10 tags)
  then show ?case
    using no_array [of s h] by (auto simp: read_vector_bool_def parser_read_sequence_def)
next
  case (11 n t tags)
  then show ?case
    using no_array [of s h] by (auto simp: read_array_def)
next
  case (13 ts tags)
  then show ?case
    using no_array [of s h] by (auto simp: read_sized_def)
next
  case (14 k t tags)
  then show ?case
    using no_object [of s h] by (auto simp: read_pair_def)
next
  case (18 n t tags)
  then show ?case
    using no_object [of s h] by (auto simp: read_name_value_pair_def)
qed

end

subsection \<open>The contract of a reader\<close>

text \<open>Sets of places, each apart from the ones behind it.\<close>

fun apart :: "'c set list \<Rightarrow> bool" where
  "apart [] = True"
| "apart (C # Cs) \<longleftrightarrow> C \<inter> \<Union> (set Cs) = {} \<and> apart Cs"

definition spans :: "('h \<Rightarrow> 'c set) \<Rightarrow> 'h list \<Rightarrow> 'c set" where
  "spans cells hs = \<Union> (cells ` set hs)"

lemma spans_simps [simp]:
  "spans cells [] = {}" "spans cells (h # hs) = cells h \<union> spans cells hs"
  "spans cells (hs @ gs) = spans cells hs \<union> spans cells gs"
  by (auto simp: spans_def)

fun each_field :: "(bytes \<Rightarrow> 'h \<Rightarrow> 'x \<Rightarrow> bool \<times> 'x) \<Rightarrow> (bytes \<times> 'h) list \<Rightarrow> 'x \<Rightarrow> bool \<times> 'x" where
  "each_field fn [] x = (True, x)"
| "each_field fn (m # ms) x =
     (case fn (fst m) (snd m) x of (go, x) \<Rightarrow> if go then each_field fn ms x else (False, x))"

text \<open>\<open>at s t h\<close>: in the state \<open>s\<close> the handle \<open>h\<close> is an unread value with the tree \<open>t\<close>. Reading it
  changes the state at \<open>cells h\<close> only; \<open>agree C s s'\<close> says that two states agree but for the places \<open>C\<close>
  and the allocation budget. A child can be read, and a container taken apart, after its siblings
  were read.\<close>

locale document_reader = refusing_reader R "\<lambda>s h T. \<exists>t. at s t h \<and> tree_tag t \<noteq> T"
  for R :: "('h, 's) reader"
    and at :: "'s \<Rightarrow> wtree \<Rightarrow> 'h \<Rightarrow> bool" +
  fixes cells :: "'h \<Rightarrow> 'c set"
    and agree :: "'c set \<Rightarrow> 's \<Rightarrow> 's \<Rightarrow> bool"
    and budget :: "'s \<Rightarrow> nat"
  assumes agree_refl: "agree C s s"
    and agree_trans: "agree C s s1 \<Longrightarrow> agree C s1 s2 \<Longrightarrow> agree C s s2"
    and agree_mono: "agree C s s1 \<Longrightarrow> C \<subseteq> D \<Longrightarrow> agree D s s1"
    and at_agree: "at s t h \<Longrightarrow> agree C s s1 \<Longrightarrow> C \<inter> cells h = {} \<Longrightarrow> at s1 t h"
    and read_value: "at s (tree_of (D_value v)) h \<Longrightarrow> value_cost v \<le> budget s \<Longrightarrow>
      \<exists>s1. rd_toBasic R (basic_of_value v) h s = (Inr v, s1) \<and> agree (cells h) s s1 \<and> budget s1 + value_cost v = budget s"
    and read_fixed: "at s (tree_of (D_fixed x)) h \<Longrightarrow>
      \<exists>s1. rd_toFixed R (basic_of x) (scalar_size x) h s = (Inr (C_scalar x), s1) \<and> agree (cells h) s s1 \<and>
        budget s1 = budget s"
    and read_empty: "at s W_Null h \<Longrightarrow>
      \<exists>s1. rd_isEmpty R h s = (True, s1) \<and> agree (cells h) s s1 \<and> budget s1 = budget s"
    and open_array: "at s (W_Arr ts) h \<Longrightarrow>
      \<exists>es. list_all2 (at s) ts es \<and> apart (map cells es) \<and> spans cells es \<subseteq> cells h \<and> rd_arraySize R h = length ts \<and>
        (\<forall>s1. agree (spans cells es) s s1 \<longrightarrow> rd_toArray R h s1 = Inr h \<and>
           (\<forall>i < length es. rd_arrayElement R h i s1 = (Inr (es ! i), s1)))"
    and open_named: "at s (W_Named fs) h \<Longrightarrow>
      \<exists>ms. list_all2 (at s) (map snd fs) ms \<and> apart (map cells ms) \<and> spans cells ms \<subseteq> cells h \<and>
        (\<forall>s1. agree (spans cells ms) s s1 \<longrightarrow> rd_toObject R h s1 = Inr h \<and>
           (\<forall>i < length ms. rd_objectField R h (fst (fs ! i)) s1 = Inr (ms ! i)) \<and>
           (\<forall>fn x. rd_forEach R h s1 fn x = each_field fn (zip (map fst fs) ms) x))"
    and open_ided: "at s (W_Ided ks) h \<Longrightarrow>
      \<exists>ms. list_all2 (at s) (map snd ks) ms \<and> apart (map cells ms) \<and> spans cells ms \<subseteq> cells h \<and>
        (\<forall>s1. agree (spans cells ms) s s1 \<longrightarrow> rd_toObject R h s1 = Inr h \<and>
           (\<forall>i < length ms. \<forall>n. n \<noteq> [] \<and> key_of n = fst (ks ! i) \<longrightarrow> rd_objectField R h n s1 = Inr (ms ! i)) \<and>
           (\<forall>n. Key_Name [] \<notin> fst ` set ks \<and> key_of n \<notin> fst ` set ks \<longrightarrow>
             (\<exists>e. rd_objectField R h n s1 = Inl (Err e))))"
    and restores: "at s t h \<Longrightarrow> agree (cells h) s s1 \<Longrightarrow> rd_restore R h s s1 = s"
begin

lemma read_not_empty: "at s t h \<Longrightarrow> tree_tag t \<noteq> T_Null \<Longrightarrow> rd_isEmpty R h s = (False, s)"
  by (rule no_null) blast

lemma tag_refused:
  "at s tr h \<Longrightarrow> tree_tag tr \<notin> set (accepts t tags) \<Longrightarrow> \<exists>e v. parser_read R t tags h cur s = (Inl (Err e), v, s)"
  by (rule refused) blast

end

end
