(* ===== verification/Parse_Recover.thy ===== *)
theory Parse_Recover
  imports Parse_Contract
begin

text \<open>
  What a recoverable value's document is parsed to, for every reader with the contract of
  \<open>document_reader\<close>: the value, whatever the type.
\<close>

context document_reader
begin

subsection \<open>Children in a row\<close>

definition lined :: "'s \<Rightarrow> wtree list \<Rightarrow> 'h list \<Rightarrow> bool" where
  "lined s ts ms \<longleftrightarrow> list_all2 (at s) ts ms \<and> apart (map cells ms)"

lemma lined_Nil [simp]: "lined s [] ms \<longleftrightarrow> ms = []"
  by (auto simp: lined_def)

lemma lined_Cons [simp]:
  "lined s (t # ts) (m # ms) \<longleftrightarrow> at s t m \<and> cells m \<inter> spans cells ms = {} \<and> lined s ts ms"
  by (auto simp: lined_def spans_def)

lemma lined_ConsE:
  assumes "lined s (t # ts) ms"
  obtains m ms' where "ms = m # ms'" "at s t m" "cells m \<inter> spans cells ms' = {}" "lined s ts ms'"
  using assms by (cases ms) (auto simp: lined_def spans_def)

lemma lined_agree: "lined s ts ms \<Longrightarrow> agree C s s1 \<Longrightarrow> C \<inter> spans cells ms = {} \<Longrightarrow> lined s1 ts ms"
proof (induction ts arbitrary: ms)
  case (Cons t ts)
  then obtain m ms' where ms: "ms = m # ms'" "at s t m" "cells m \<inter> spans cells ms' = {}" "lined s ts ms'"
    by (auto elim: lined_ConsE)
  then show ?case
    using Cons.IH [of ms'] Cons.prems at_agree [of s t m C s1] by auto
qed simp

lemma lined_length: "lined s ts ms \<Longrightarrow> length ms = length ts"
  by (auto simp: lined_def dest: list_all2_lengthD)

text \<open>The elements of an array from index \<open>i\<close> on.\<close>

definition rest :: "'h \<Rightarrow> 's \<Rightarrow> nat \<Rightarrow> wtree list \<Rightarrow> 'h list \<Rightarrow> bool" where
  "rest a s i ts es \<longleftrightarrow> lined s ts es \<and>
     (\<forall>s1. agree (spans cells es) s s1 \<longrightarrow> (\<forall>j < length es. rd_arrayElement R a (i + j) s1 = (Inr (es ! j), s1)))"

lemma rest_Nil: "rest a s i [] es \<Longrightarrow> es = []"
  by (simp add: rest_def)

lemma rest_ConsE:
  assumes "rest a s i (t # ts) es"
  obtains e es' where "es = e # es'" "rd_arrayElement R a i s = (Inr e, s)" "at s t e"
    "\<forall>s1. agree (cells e) s s1 \<longrightarrow> rest a s1 (Suc i) ts es'"
proof -
  obtain e es' where es: "es = e # es'" "at s t e" "cells e \<inter> spans cells es' = {}" "lined s ts es'"
    using assms by (auto simp: rest_def elim: lined_ConsE)
  have elem: "rd_arrayElement R a (i + j) s1 = (Inr (es ! j), s1)" if "agree (spans cells es) s s1" "j < length es" for s1 j
    using assms that by (simp add: rest_def)
  have "rd_arrayElement R a i s = (Inr e, s)"
    using elem [OF agree_refl, of 0] es(1) by simp
  moreover have "rest a s1 (Suc i) ts es'" if s1: "agree (cells e) s s1" for s1
    unfolding rest_def
  proof (intro conjI allI impI)
    show "lined s1 ts es'"
      by (rule lined_agree [OF es(4) s1 es(3)])
    show "rd_arrayElement R a (Suc i + j) s2 = (Inr (es' ! j), s2)"
      if "agree (spans cells es') s1 s2" "j < length es'" for s2 j
    proof -
      have "agree (spans cells es) s s2"
        by (rule agree_trans [OF agree_mono [OF s1] agree_mono [OF that(1)]]) (auto simp: es(1))
      from elem [OF this, of "Suc j"] that(2) show ?thesis
        by (simp add: es(1))
    qed
  qed
  ultimately show ?thesis
    using that es(1,2) by blast
qed

lemma open_rest:
  assumes "at s (tree_of (D_array ds)) h"
  obtains es where "rd_toArray R h s = Inr h" "rd_arraySize R h = length ds" "rest h s 0 (map tree_of ds) es"
    "spans cells es \<subseteq> cells h"
proof -
  from assms have "at s (W_Arr (map tree_of ds)) h"
    by simp
  from open_array [OF this] obtain es where es: "list_all2 (at s) (map tree_of ds) es" "apart (map cells es)"
    "spans cells es \<subseteq> cells h" "rd_arraySize R h = length (map tree_of ds)"
    "\<And>s1. agree (spans cells es) s s1 \<Longrightarrow> rd_toArray R h s1 = Inr h \<and>
       (\<forall>i < length es. rd_arrayElement R h i s1 = (Inr (es ! i), s1))"
    by blast
  have "rest h s 0 (map tree_of ds) es"
    using es(1,2,5) by (simp add: rest_def lined_def)
  then show ?thesis
    using that [of es] es(3-5) agree_refl by simp
qed

subsection \<open>Reading a value regains\<close>

definition recovers :: "('s \<Rightarrow> unit sa_result \<times> 'r \<times> 's) \<Rightarrow> 'c set \<Rightarrow> 's \<Rightarrow> 'r \<Rightarrow> nat \<Rightarrow> bool" where
  "recovers m C s v c \<longleftrightarrow> (\<exists>s1. m s = (Inr (), v, s1) \<and> agree C s s1 \<and> budget s1 + c = budget s)"

lemma recoversI: "m s = (Inr (), v, s1) \<Longrightarrow> agree C s s1 \<Longrightarrow> budget s1 + c = budget s \<Longrightarrow> recovers m C s v c"
  by (auto simp: recovers_def)

lemma recoversE:
  assumes "recovers m C s v c"
  obtains s1 where "m s = (Inr (), v, s1)" "agree C s s1" "budget s1 + c = budget s"
  using assms by (auto simp: recovers_def)

text \<open>\<open>rd\<close> parses the document \<open>d\<close> into a target that holds \<open>cur\<close>, and gives \<open>v\<close>.\<close>

definition regains :: "('h, 's) pread \<Rightarrow> tvalue \<Rightarrow> tvalue \<Rightarrow> doc \<Rightarrow> bool" where
  "regains rd cur v d \<longleftrightarrow>
     (\<forall>h s. at s (tree_of d) h \<longrightarrow> doc_cost d \<le> budget s \<longrightarrow> recovers (rd h cur) (cells h) s v (doc_cost d))"

lemma regainsE:
  assumes "regains rd cur v d" "at s (tree_of d) h" "doc_cost d \<le> budget s"
  obtains s1 where "rd h cur s = (Inr (), v, s1)" "agree (cells h) s s1" "budget s1 + doc_cost d = budget s"
  using assms unfolding regains_def recovers_def by blast

lemma regainsI:
  assumes "\<And>h s. at s (tree_of d) h \<Longrightarrow> doc_cost d \<le> budget s \<Longrightarrow>
    \<exists>s1. rd h cur s = (Inr (), v, s1) \<and> agree (cells h) s s1 \<and> budget s1 + doc_cost d = budget s"
  shows "regains rd cur v d"
  using assms unfolding regains_def recovers_def by blast

lemma agree_both:
  assumes "agree C s s1" "agree D s1 s2" "C \<union> D \<subseteq> E"
  shows "agree E s s2"
  by (rule agree_trans [OF agree_mono [OF assms(1)] agree_mono [OF assms(2)]]) (use assms(3) in auto)

subsection \<open>The loops\<close>

lemma read_items_recovers:
  assumes "list_all (\<lambda>v. regains rd item v (f v)) vs" "rest a s i (map (\<lambda>v. tree_of (f v)) vs) es"
    and "sum_list (map (\<lambda>v. doc_cost (f v)) vs) \<le> budget s" "insert_all ins acc vs = Some res"
  shows "recovers (read_items R rd item ins msg a i (length vs) acc) (spans cells es) s res
    (sum_list (map (\<lambda>v. doc_cost (f v)) vs))"
  using assms
proof (induction vs arbitrary: i es s acc)
  case Nil
  then show ?case
    by (auto intro!: recoversI [where ?s1.0 = s] agree_refl)
next
  case (Cons v vs)
  from Cons.prems(2) obtain e es' where es: "es = e # es'" "rd_arrayElement R a i s = (Inr e, s)"
    "at s (tree_of (f v)) e" "\<forall>s1. agree (cells e) s s1 \<longrightarrow> rest a s1 (Suc i) (map (\<lambda>v. tree_of (f v)) vs) es'"
    by (auto elim: rest_ConsE)
  obtain s1 where s1: "rd e item s = (Inr (), v, s1)" "agree (cells e) s s1" "budget s1 + doc_cost (f v) = budget s"
    using Cons.prems(1,3) es(3) by (auto elim: regainsE [of rd item v "f v" s e])
  obtain acc' where acc': "ins acc v = (acc', True)" "insert_all ins acc' vs = Some res"
    using Cons.prems(4) by (auto split: prod.splits if_splits)
  have "recovers (read_items R rd item ins msg a (Suc i) (length vs) acc') (spans cells es') s1 res
      (sum_list (map (\<lambda>v. doc_cost (f v)) vs))"
    using Cons.prems(1,3) s1(3) by (intro Cons.IH es(4) [rule_format, OF s1(2)] acc'(2)) auto
  then obtain s2 where s2: "read_items R rd item ins msg a (Suc i) (length vs) acc' s1 = (Inr (), res, s2)"
    "agree (spans cells es') s1 s2" "budget s2 + sum_list (map (\<lambda>v. doc_cost (f v)) vs) = budget s1"
    by (rule recoversE)
  show ?case
    using s1 s2 acc'(1) es(1,2) by (intro recoversI [where ?s1.0 = s2] agree_both [OF s1(2) s2(2)]) auto
qed

lemma read_in_place_recovers:
  assumes "list_all2 (\<lambda>v c. regains rd c v (f v)) vs cs" "rest a s i (map (\<lambda>v. tree_of (f v)) vs) es"
    and "sum_list (map (\<lambda>v. doc_cost (f v)) vs) \<le> budget s"
  shows "recovers (read_in_place R rd a i cs) (spans cells es) s vs (sum_list (map (\<lambda>v. doc_cost (f v)) vs))"
  using assms
proof (induction vs cs arbitrary: i es s rule: list_all2_induct)
  case Nil
  then show ?case
    by (auto intro!: recoversI [where ?s1.0 = s] agree_refl)
next
  case (Cons v vs c cs)
  from Cons.prems(1) obtain e es' where es: "es = e # es'" "rd_arrayElement R a i s = (Inr e, s)"
    "at s (tree_of (f v)) e" "\<forall>s1. agree (cells e) s s1 \<longrightarrow> rest a s1 (Suc i) (map (\<lambda>v. tree_of (f v)) vs) es'"
    by (auto elim: rest_ConsE)
  obtain s1 where s1: "rd e c s = (Inr (), v, s1)" "agree (cells e) s s1" "budget s1 + doc_cost (f v) = budget s"
    using Cons.hyps Cons.prems(2) es(3) by (auto elim: regainsE [of rd c v "f v" s e])
  have "recovers (read_in_place R rd a (Suc i) cs) (spans cells es') s1 vs (sum_list (map (\<lambda>v. doc_cost (f v)) vs))"
    using Cons.prems(2) s1(3) by (intro Cons.IH es(4) [rule_format, OF s1(2)]) auto
  then obtain s2 where s2: "read_in_place R rd a (Suc i) cs s1 = (Inr (), vs, s2)"
    "agree (spans cells es') s1 s2" "budget s2 + sum_list (map (\<lambda>v. doc_cost (f v)) vs) = budget s1"
    by (rule recoversE)
  show ?case
    using s1 s2 es(1,2) by (intro recoversI [where ?s1.0 = s2] agree_both [OF s1(2) s2(2)]) auto
qed

subsection \<open>The members of an object\<close>

text \<open>The fields \<open>ps\<close> of the object \<open>h\<close> that are not read yet; the fields \<open>A\<close> are missing.\<close>

definition members_at :: "bytes set \<Rightarrow> 'h \<Rightarrow> 's \<Rightarrow> (bytes \<times> doc) list \<Rightarrow> 'h list \<Rightarrow> bool" where
  "members_at A h s ps ms \<longleftrightarrow> lined s (map (\<lambda>p. tree_of (snd p)) ps) ms \<and>
     (\<forall>s1. agree (spans cells ms) s s1 \<longrightarrow> rd_toObject R h s1 = Inr h \<and>
        (\<forall>j < length ms. rd_objectField R h (fst (ps ! j)) s1 = Inr (ms ! j)) \<and>
        (\<forall>n \<in> A. \<exists>e. rd_objectField R h n s1 = Inl (Err e)))"

lemma members_open: "members_at A h s ps ms \<Longrightarrow> rd_toObject R h s = Inr h"
  by (simp add: members_at_def agree_refl)

lemma members_absent: "members_at A h s ps ms \<Longrightarrow> n \<in> A \<Longrightarrow> \<exists>e. rd_objectField R h n s = Inl (Err e)"
  by (simp add: members_at_def agree_refl)

lemma members_ConsE:
  assumes "members_at A h s ((n, d) # ps) ms"
  obtains m ms' where "ms = m # ms'" "rd_objectField R h n s = Inr m" "at s (tree_of d) m"
    "\<forall>s1. agree (cells m) s s1 \<longrightarrow> members_at A h s1 ps ms'"
proof -
  obtain m ms' where ms: "ms = m # ms'" "at s (tree_of d) m" "cells m \<inter> spans cells ms' = {}"
    "lined s (map (\<lambda>p. tree_of (snd p)) ps) ms'"
    using assms by (auto simp: members_at_def elim: lined_ConsE)
  have opened: "rd_toObject R h s1 = Inr h \<and>
      (\<forall>j < length ms. rd_objectField R h (fst (((n, d) # ps) ! j)) s1 = Inr (ms ! j)) \<and>
      (\<forall>n \<in> A. \<exists>e. rd_objectField R h n s1 = Inl (Err e))" if "agree (spans cells ms) s s1" for s1
    using assms that unfolding members_at_def by blast
  have "rd_objectField R h n s = Inr m"
    using opened [OF agree_refl] ms(1) by auto
  moreover have "members_at A h s1 ps ms'" if s1: "agree (cells m) s s1" for s1
    unfolding members_at_def
  proof (intro conjI allI impI)
    show "lined s1 (map (\<lambda>p. tree_of (snd p)) ps) ms'"
      by (rule lined_agree [OF ms(4) s1 ms(3)])
    fix s2
    assume "agree (spans cells ms') s1 s2"
    then have "agree (spans cells ms) s s2"
      by (intro agree_both [OF s1]) (auto simp: ms(1))
    note o = opened [OF this]
    show "rd_toObject R h s2 = Inr h" "\<forall>n \<in> A. \<exists>e. rd_objectField R h n s2 = Inl (Err e)"
      using o by auto
    show "rd_objectField R h (fst (ps ! j)) s2 = Inr (ms' ! j)" if "j < length ms'" for j
      using o that by (auto simp: ms(1) dest!: spec [of _ "Suc j"])
  qed
  ultimately show ?thesis
    using that ms(1,2) by blast
qed

lemma open_members:
  assumes "at s (tree_of (D_object fs)) h"
  obtains ms where "members_at {} h s fs ms" "spans cells ms \<subseteq> cells h"
    "\<forall>fn x. rd_forEach R h s fn x = each_field fn (zip (map fst fs) ms) x"
proof -
  let ?ts = "map (\<lambda>f. (fst f, tree_of (snd f))) fs"
  from assms have "at s (W_Named ?ts) h"
    by simp
  from open_named [OF this] obtain ms where ms: "list_all2 (at s) (map snd ?ts) ms" "apart (map cells ms)"
    "spans cells ms \<subseteq> cells h"
    "\<forall>s1. agree (spans cells ms) s s1 \<longrightarrow> rd_toObject R h s1 = Inr h \<and>
       (\<forall>i < length ms. rd_objectField R h (fst (?ts ! i)) s1 = Inr (ms ! i)) \<and>
       (\<forall>fn x. rd_forEach R h s1 fn x = each_field fn (zip (map fst ?ts) ms) x)"
    by blast
  have len: "length ms = length fs"
    using list_all2_lengthD [OF ms(1)] by simp
  have "members_at {} h s fs ms"
    using ms(1,2,4) len by (simp add: members_at_def lined_def o_def)
  moreover have "rd_forEach R h s fn x = each_field fn (zip (map fst fs) ms) x" for fn x
    using ms(4) [rule_format, OF agree_refl] by (simp add: o_def del: split_paired_All)
  ultimately show ?thesis
    using that ms(3) by blast
qed

lemma open_ids:
  assumes "at s (tree_of (D_idobject fs)) h" "list_all (\<lambda>n. n \<noteq> []) (map fst fs)"
    and "\<forall>n \<in> A. key_of n \<notin> key_of ` set (map fst fs)"
  obtains ms where "members_at A h s fs ms" "spans cells ms \<subseteq> cells h"
proof -
  let ?ts = "map (\<lambda>f. (key_of (fst f), tree_of (snd f))) fs"
  from assms(1) have "at s (W_Ided ?ts) h"
    by simp
  from open_ided [OF this] obtain ms where ms: "list_all2 (at s) (map snd ?ts) ms" "apart (map cells ms)"
    "spans cells ms \<subseteq> cells h"
    "\<forall>s1. agree (spans cells ms) s s1 \<longrightarrow> rd_toObject R h s1 = Inr h \<and>
       (\<forall>i < length ms. \<forall>n. n \<noteq> [] \<and> key_of n = fst (?ts ! i) \<longrightarrow> rd_objectField R h n s1 = Inr (ms ! i)) \<and>
       (\<forall>n. Key_Name [] \<notin> fst ` set ?ts \<and> key_of n \<notin> fst ` set ?ts \<longrightarrow> (\<exists>e. rd_objectField R h n s1 = Inl (Err e)))"
    by blast
  have len: "length ms = length fs"
    using list_all2_lengthD [OF ms(1)] by simp
  have "members_at A h s fs ms"
    unfolding members_at_def
  proof (intro conjI allI impI)
    show "lined s (map (\<lambda>p. tree_of (snd p)) fs) ms"
      using ms(1,2) by (simp add: lined_def o_def)
    fix s1
    assume s1: "agree (spans cells ms) s s1"
    show "rd_toObject R h s1 = Inr h"
      using ms(4) s1 by blast
    show "rd_objectField R h (fst (fs ! j)) s1 = Inr (ms ! j)" if "j < length ms" for j
      using ms(4) s1 that len assms(2) by (simp add: list_all_length)
    show "\<forall>n \<in> A. \<exists>e. rd_objectField R h n s1 = Inl (Err e)"
    proof
      fix n
      assume "n \<in> A"
      then have "key_of n \<notin> fst ` set ?ts"
        using assms(3) by (auto simp: image_image)
      moreover have "Key_Name [] \<notin> fst ` set ?ts"
        using assms(2) by (auto simp: key_of_def list_all_iff split: if_splits)
      ultimately show "\<exists>e. rd_objectField R h n s1 = Inl (Err e)"
        using ms(4) s1 by blast
    qed
  qed
  then show ?thesis
    using that ms(3) by blast
qed

lemma read_two_recovers:
  assumes "at s (tree_of (entry_doc (n1, d1) (n2, d2))) h" "doc_cost d1 + doc_cost d2 \<le> budget s"
    and "regains rd1 x v1 d1" "regains rd2 y v2 d2"
  shows "rd_toObject R h s = Inr h \<and>
    recovers (read_two R (n1, rd1, m1, g1) (n2, rd2, m2, g2) h x y) (cells h) s (v1, v2) (doc_cost d1 + doc_cost d2)"
proof -
  obtain ms where ms: "members_at {} h s [(n1, d1), (n2, d2)] ms" "spans cells ms \<subseteq> cells h"
    using assms(1) unfolding entry_doc_def by (rule open_members)
  from ms(1) obtain a ms' where a: "ms = a # ms'" "rd_objectField R h n1 s = Inr a" "at s (tree_of d1) a"
    "\<forall>s1. agree (cells a) s s1 \<longrightarrow> members_at {} h s1 [(n2, d2)] ms'"
    by (auto elim: members_ConsE)
  have "doc_cost d1 \<le> budget s"
    using assms(2) by simp
  then obtain s1 where s1: "rd1 a x s = (Inr (), v1, s1)" "agree (cells a) s s1" "budget s1 + doc_cost d1 = budget s"
    using assms(3) a(3) by (auto elim: regainsE)
  from a(4) [rule_format, OF s1(2)] obtain b ms'' where b: "ms' = b # ms''" "rd_objectField R h n2 s1 = Inr b" "at s1 (tree_of d2) b"
    by (auto elim: members_ConsE)
  have "doc_cost d2 \<le> budget s1"
    using assms(2) s1(3) by simp
  then obtain s2 where s2: "rd2 b y s1 = (Inr (), v2, s2)" "agree (cells b) s1 s2" "budget s2 + doc_cost d2 = budget s1"
    using assms(4) b(3) by (auto elim: regainsE)
  have "agree (cells h) s s2"
    using ms(2) by (intro agree_both [OF s1(2) s2(2)]) (simp add: a(1) b(1))
  then show ?thesis
    using a(2) s1 b(2) s2 members_open [OF ms(1)]
    by (intro conjI recoversI [where ?s1.0 = s2]) (simp_all add: read_two_def parser_context_def)
qed

lemma read_entries_recovers:
  fixes f g :: "tvalue \<Rightarrow> doc"
  defines "ed \<equiv> \<lambda>e. entry_doc (bytes_of_chars ''key'', f (fst e)) (bytes_of_chars ''value'', g (snd e))"
  assumes "list_all (\<lambda>e. regains rk key (fst e) (f (fst e)) \<and> regains rv val (snd e) (g (snd e))) vs"
    and "rest a s i (map (\<lambda>e. tree_of (ed e)) vs) es"
    and "sum_list (map (\<lambda>e. doc_cost (ed e)) vs) \<le> budget s"
    and "insert_all (\<lambda>m e. ins m (fst e) (snd e)) acc vs = Some res"
  shows "recovers (read_entries R rk rv key val ins a i (length vs) acc) (spans cells es) s res
    (sum_list (map (\<lambda>e. doc_cost (ed e)) vs))"
  using assms(2-)
proof (induction vs arbitrary: i es s acc)
  case Nil
  then show ?case
    by (auto intro!: recoversI [where ?s1.0 = s] agree_refl dest: rest_Nil)
next
  case (Cons v vs)
  from Cons.prems(2) obtain e es' where es: "es = e # es'" "rd_arrayElement R a i s = (Inr e, s)"
    "at s (tree_of (ed v)) e" "\<forall>s1. agree (cells e) s s1 \<longrightarrow> rest a s1 (Suc i) (map (\<lambda>v. tree_of (ed v)) vs) es'"
    by (auto elim: rest_ConsE)
  have cost: "doc_cost (ed v) = doc_cost (f (fst v)) + doc_cost (g (snd v))"
    by (simp add: ed_def entry_doc_def)
  have cost_le: "doc_cost (f (fst v)) + doc_cost (g (snd v)) \<le> budget s"
    using Cons.prems(3) by (simp add: cost)
  have ob: "rd_toObject R e s = Inr e \<and>
      recovers (read_two R (bytes_of_chars ''key'', rk, m1, g1) (bytes_of_chars ''value'', rv, m2, g2) e key val)
        (cells e) s (fst v, snd v) (doc_cost (ed v))" for m1 g1 m2 g2
    unfolding cost using Cons.prems(1) es(3) by (intro read_two_recovers cost_le) (simp_all add: ed_def)
  obtain acc' where acc': "ins acc (fst v) (snd v) = (acc', True)"
    "insert_all (\<lambda>m e. ins m (fst e) (snd e)) acc' vs = Some res"
    using Cons.prems(4) by (auto split: prod.splits if_splits)
  let ?entry = "''Map entry '' @ to_string i" and ?failed = "''Failed to parse map entry '' @ to_string i"
  obtain s1 where s1: "read_two R
      (bytes_of_chars ''key'', rk, ?entry @ '' is missing required field '' @ quoted ''key'', ?failed @ '' key: '')
      (bytes_of_chars ''value'', rv, ?entry @ '' is missing required field '' @ quoted ''value'', ?failed @ '' value: '')
      e key val s = (Inr (), (fst v, snd v), s1)" "agree (cells e) s s1" "budget s1 + doc_cost (ed v) = budget s"
    using ob by (blast elim: recoversE)
  have "recovers (read_entries R rk rv key val ins a (Suc i) (length vs) acc') (spans cells es') s1 res
      (sum_list (map (\<lambda>e. doc_cost (ed e)) vs))"
    using Cons.prems(1,3) s1(3) by (intro Cons.IH es(4) [rule_format, OF s1(2)] acc'(2)) auto
  then obtain s2 where s2: "read_entries R rk rv key val ins a (Suc i) (length vs) acc' s1 = (Inr (), res, s2)"
    "agree (spans cells es') s1 s2" "budget s2 + sum_list (map (\<lambda>e. doc_cost (ed e)) vs) = budget s1"
    by (rule recoversE)
  have "read_entries R rk rv key val ins a i (length (v # vs)) acc s = (Inr (), res, s2)"
    using ob s1(1) s2(1) acc'(1) es(2) by (cases v) (simp add: Let_def)
  then show ?case
    using s1(3) s2(3) es(1) by (intro recoversI [where ?s1.0 = s2] agree_both [OF s1(2) s2(2)]) auto
qed

lemma visit_members_recover:
  assumes "list_all (\<lambda>e. fst e = V_basic (C_string (key_string (fst e))) \<and> regains rv val (snd e) (g (snd e))) vs"
    and "lined s (map (\<lambda>e. tree_of (g (snd e))) vs) ms"
    and "sum_list (map (\<lambda>e. doc_cost (g (snd e))) vs) \<le> budget s"
    and "insert_all (\<lambda>m e. ins m (fst e) (snd e)) acc vs = Some res"
  shows "\<exists>s1. each_field (visit_member rv val ins) (zip (map (\<lambda>e. key_string (fst e)) vs) ms) (Inr (), acc, s) =
      (True, Inr (), res, s1) \<and> agree (spans cells ms) s s1 \<and>
    budget s1 + sum_list (map (\<lambda>e. doc_cost (g (snd e))) vs) = budget s"
  using assms
proof (induction vs arbitrary: s ms acc)
  case Nil
  then show ?case
    by (auto intro: agree_refl)
next
  case (Cons v vs)
  from Cons.prems(2) obtain m ms' where m: "ms = m # ms'" "at s (tree_of (g (snd v))) m"
    "cells m \<inter> spans cells ms' = {}" "lined s (map (\<lambda>e. tree_of (g (snd e))) vs) ms'"
    by (auto elim: lined_ConsE)
  have "doc_cost (g (snd v)) \<le> budget s"
    using Cons.prems(3) by simp
  then obtain s1 where s1: "rv m val s = (Inr (), snd v, s1)" "agree (cells m) s s1"
    "budget s1 + doc_cost (g (snd v)) = budget s"
    using Cons.prems(1) m(2) by (auto elim: regainsE)
  obtain acc' where acc': "ins acc (fst v) (snd v) = (acc', True)"
    "insert_all (\<lambda>m e. ins m (fst e) (snd e)) acc' vs = Some res"
    using Cons.prems(4) by (auto split: prod.splits if_splits)
  have key: "V_basic (C_string (key_string (fst v))) = fst v"
    using Cons.prems(1) by simp
  have "\<exists>s2. each_field (visit_member rv val ins) (zip (map (\<lambda>e. key_string (fst e)) vs) ms') (Inr (), acc', s1) =
      (True, Inr (), res, s2) \<and> agree (spans cells ms') s1 s2 \<and>
    budget s2 + sum_list (map (\<lambda>e. doc_cost (g (snd e))) vs) = budget s1"
    using Cons.prems(1,3) s1(3) by (intro Cons.IH lined_agree [OF m(4) s1(2) m(3)] acc'(2)) auto
  then obtain s2 where s2: "each_field (visit_member rv val ins) (zip (map (\<lambda>e. key_string (fst e)) vs) ms') (Inr (), acc', s1) =
      (True, Inr (), res, s2)" "agree (spans cells ms') s1 s2"
    "budget s2 + sum_list (map (\<lambda>e. doc_cost (g (snd e))) vs) = budget s1"
    by blast
  have "visit_member rv val ins (key_string (fst v)) m (Inr (), acc, s) = (True, Inr (), acc', s1)"
    using s1(1) acc'(1) by (simp add: visit_member_def key)
  then show ?case
    using s1 s2 m(1) by (intro exI [of _ s2] conjI agree_both [OF s1(2) s2(2)]) simp_all
qed

subsection \<open>Basic values\<close>

lemma basic_of_not_string [simp]: "basic_of x \<noteq> B_string" "B_string \<noteq> basic_of x"
  by (cases x; simp)+

lemma value_regains:
  assumes "\<And>h s. rd h cur s = assign cur V_basic (rd_toBasic R (basic_of_value x) h s)"
  shows "regains rd cur (V_basic x) (D_value x)"
proof (rule regainsI)
  fix h s
  assume "at s (tree_of (D_value x)) h" "doc_cost (D_value x) \<le> budget s"
  then obtain s1 where "rd_toBasic R (basic_of_value x) h s = (Inr x, s1)" "agree (cells h) s s1"
    "budget s1 + value_cost x = budget s"
    using read_value [of s x h] by auto
  then show "\<exists>s1. rd h cur s = (Inr (), V_basic x, s1) \<and> agree (cells h) s s1 \<and> budget s1 + doc_cost (D_value x) = budget s"
    by (simp add: assms assign_def)
qed

lemma string_regains: "regains (parser_read_string R) cur (V_basic (C_string x)) (string_doc x)"
  unfolding string_doc_def by (rule value_regains) (simp add: parser_read_string_def basic_of_value_def)

lemma arithmetic_regains:
  assumes "basic_of x = b" "fixed_fits tag x"
  shows "regains (parser_read_arithmetic R tag b) cur (V_basic (C_scalar x)) (arithmetic_doc tag x)"
proof (cases "tag = 0")
  case True
  then show ?thesis
    using assms(1) value_regains [of "parser_read_arithmetic R tag b" cur "C_scalar x"]
    by (simp add: arithmetic_doc_def parser_read_arithmetic_def basic_of_value_def)
next
  case False
  have "regains (parser_read_arithmetic R tag b) cur (V_basic (C_scalar x)) (D_fixed x)"
  proof (rule regainsI)
    fix h s
    assume "at s (tree_of (D_fixed x)) h"
    then obtain s1 where "rd_toFixed R (basic_of x) (scalar_size x) h s = (Inr (C_scalar x), s1)"
      "agree (cells h) s s1" "budget s1 = budget s"
      using read_fixed by blast
    then show "\<exists>s1. parser_read_arithmetic R tag b h cur s = (Inr (), V_basic (C_scalar x), s1) \<and>
        agree (cells h) s s1 \<and> budget s1 + doc_cost (D_fixed x) = budget s"
      using False assms by (auto simp: parser_read_arithmetic_def fixed_fits_def assign_def)
  qed
  then show ?thesis
    using False by (simp add: arithmetic_doc_def)
qed

lemma regains_wrap:
  assumes "regains rd' cur' v d" "\<And>h s s1. rd' h cur' s = (Inr (), v, s1) \<Longrightarrow> rd h cur s = (Inr (), w, s1)"
  shows "regains rd cur w d"
proof (rule regainsI)
  fix h s
  assume "at s (tree_of d) h" "doc_cost d \<le> budget s"
  then obtain s1 where "rd' h cur' s = (Inr (), v, s1)" "agree (cells h) s s1" "budget s1 + doc_cost d = budget s"
    by (rule regainsE [OF assms(1)])
  then show "\<exists>s1. rd h cur s = (Inr (), w, s1) \<and> agree (cells h) s s1 \<and> budget s1 + doc_cost d = budget s"
    using assms(2) by blast
qed

lemma basic_regains:
  assumes "basic_fits tag b (V_basic x)"
  shows "regains (read_basic R tag b) cur (V_basic x) (basic_doc tag x)"
proof (cases x)
  case (C_string y)
  then have "b = B_string"
    using assms by (simp add: basic_fits_def)
  then show ?thesis
    unfolding C_string basic_doc_def cvalue.case
    by (intro regains_wrap [OF string_regains [of cur]]) (simp add: read_basic_def read_context_def parser_context_def)
next
  case (C_scalar y)
  then have y: "basic_of y = b" "fixed_fits tag y"
    using assms by (auto simp: basic_fits_def)
  then have "b \<noteq> B_string"
    by auto
  then show ?thesis
    unfolding C_scalar basic_doc_def cvalue.case
    by (intro regains_wrap [OF arithmetic_regains [OF y, where cur = cur]]) (simp add: read_basic_def)
qed

lemma enum_regains:
  assumes "basic_of x = b"
    and "if enum_name names x \<noteq> [] then nameMap names (enum_name names x) = Some x else fixed_fits tag x"
  shows "regains (read_enum R tag b names) cur (V_basic (C_scalar x))
    (if enum_name names x \<noteq> [] then string_doc (enum_name names x) else arithmetic_doc tag x)"
proof (cases "enum_name names x = []")
  case False
  then have "nameMap names (enum_name names x) = Some x"
    using assms(2) by simp
  then have "regains (read_enum R tag b names) cur (V_basic (C_scalar x)) (string_doc (enum_name names x))"
    by (intro regains_wrap [OF string_regains [of "V_basic (C_string [])"]]) (simp add: read_enum_def)
  with False show ?thesis
    by simp
next
  case True
  have tag: "tree_tag (tree_of (arithmetic_doc tag x)) \<noteq> T_String"
    by (cases x) (simp_all add: arithmetic_doc_def fixed_tree_def)
  have "regains (read_enum R tag b names) cur (V_basic (C_scalar x)) (arithmetic_doc tag x)"
  proof (rule regainsI)
    fix h s
    assume at: "at s (tree_of (arithmetic_doc tag x)) h" and cost: "doc_cost (arithmetic_doc tag x) \<le> budget s"
    obtain e where e: "parser_read_string R h (V_basic (C_string [])) s = (Inl (Err e), V_basic (C_string []), s)"
      using string_refused [of s h] at tag by blast
    have "regains (parser_read_arithmetic R tag b) (V_basic (zero_basic b)) (V_basic (C_scalar x)) (arithmetic_doc tag x)"
      using assms True by (intro arithmetic_regains) simp_all
    then obtain s1 where "parser_read_arithmetic R tag b h (V_basic (zero_basic b)) s = (Inr (), V_basic (C_scalar x), s1)"
      "agree (cells h) s s1" "budget s1 + doc_cost (arithmetic_doc tag x) = budget s"
      by (rule regainsE [OF _ at cost])
    with e show "\<exists>s1. read_enum R tag b names h cur s = (Inr (), V_basic (C_scalar x), s1) \<and>
        agree (cells h) s s1 \<and> budget s1 + doc_cost (arithmetic_doc tag x) = budget s"
      by (simp add: read_enum_def commit_def read_context_def parser_context_def)
  qed
  with True show ?thesis
    by simp
qed

lemma null_regains: "regains (read_null R msg) cur V_null D_null"
proof (rule regainsI)
  fix h s
  assume "at s (tree_of D_null) h"
  then obtain s1 where "rd_isEmpty R h s = (True, s1)" "agree (cells h) s s1" "budget s1 = budget s"
    using read_empty [of s h] by auto
  then show "\<exists>s1. read_null R msg h cur s = (Inr (), V_null, s1) \<and> agree (cells h) s s1 \<and>
      budget s1 + doc_cost D_null = budget s"
    by (simp add: read_null_def)
qed

lemma bits_of_string: "map (\<lambda>c. c = 0x31) (bits_string bs) = bs" "list_all (\<lambda>c. c = 0x30 \<or> c = 0x31) (bits_string bs)"
  by (induction bs) (auto simp: bits_string_def)

lemma bitset_regains:
  assumes "length bs = n"
  shows "regains (read_bitset R n) cur (V_bits bs) (string_doc (bits_string bs))"
proof (rule regains_wrap [OF string_regains [of "V_basic (C_string [])"]])
  fix h s s1
  assume "parser_read_string R h (V_basic (C_string [])) s = (Inr (), V_basic (C_string (bits_string bs)), s1)"
  moreover have "length (bits_string bs) = n"
    using assms by (simp add: bits_string_def)
  ultimately show "read_bitset R n h cur s = (Inr (), V_bits bs, s1)"
    by (simp add: read_bitset_def read_basic_def read_context_def parser_context_def Let_def bits_of_string)
qed

end

end
