(* ===== verification/Parse_Roundtrip.thy ===== *)
theory Parse_Roundtrip
  imports Parse_Recover
begin

text \<open>
  Every recoverable value is read back from its document, by every reader with the contract; the
  binary reader has it.
\<close>

context document_reader
begin

lemma find_one:
  assumes "at s tr h" "\<And>j. j < length ts \<Longrightarrow> j \<noteq> i \<Longrightarrow> tree_tag tr \<notin> set (accepts (ts ! j) tags)"
    and "i < length ts" "parser_read R (ts ! i) tags h (default_of (ts ! i)) s = (Inr (), v, s1)" "agree (cells h) s s1"
  shows "findAlternatives R ts k tags h mc mi s = (Suc mc, k + i, s)"
  using assms(2-4)
proof (induction ts arbitrary: i k mc mi)
  case (Cons t ts)
  show ?case
  proof (cases i)
    case 0
    have "tree_tag tr \<notin> set (accepts u tags)" if "u \<in> set ts" for u
    proof -
      from that obtain j where "j < length ts" "u = ts ! j"
        by (auto simp: in_set_conv_nth)
      then show ?thesis
        using Cons.prems(1) [of "Suc j"] 0 by simp
    qed
    then have "findAlternatives R ts (Suc k) tags h (Suc mc) k s = (Suc mc, k, s)"
      by (intro find_none tag_refused [OF assms(1)])
    then show ?thesis
      using Cons.prems(3) 0 restores [OF assms(1,5)] by simp
  next
    case (Suc j)
    have "tree_tag tr \<notin> set (accepts t tags)"
      using Cons.prems(1) [of 0] Suc by simp
    then obtain e v' where r: "parser_read R t tags h (default_of t) s = (Inl (Err e), v', s)"
      using tag_refused [OF assms(1)] by blast
    have "findAlternatives R ts (Suc k) tags h mc mi s = (Suc mc, Suc k + j, s)"
    proof (rule Cons.IH)
      show "tree_tag tr \<notin> set (accepts (ts ! l) tags)" if "l < length ts" "l \<noteq> j" for l
        using Cons.prems(1) [of "Suc l"] that Suc by simp
    qed (use Cons.prems Suc in simp_all)
    then show ?thesis
      using r restore_same Suc by simp
  qed
qed simp

lemma alternative_regains:
  assumes "i < length ts" "regains (parser_read R (ts ! i) tags) (default_of (ts ! i)) v d"
  shows "regains (readAlternative R ts i index tags) cur (V_alt index v) d"
  using assms
proof (induction ts arbitrary: i)
  case (Cons t ts)
  show ?case
  proof (cases i)
    case 0
    with Cons.prems(2) have "regains (parser_read R t tags) (default_of t) v d"
      by simp
    then show ?thesis
      by (rule regains_wrap) (simp add: 0)
  next
    case (Suc j)
    then have "regains (readAlternative R ts j index tags) cur (V_alt index v) d"
      using Cons by simp
    then show ?thesis
      by (rule regains_wrap) (simp add: Suc)
  qed
qed simp

lemma variant_regains:
  assumes i: "i < length ts" and rd: "regains (parser_read R (ts ! i) (unionPayloadTags tags)) (default_of (ts ! i)) v d"
    and enc: "if tg_untagged tags then alone ts (unionPayloadTags tags) i d else i < 2 ^ 64"
  shows "regains (parser_read R (Ty_Variant ts) tags) cur (V_alt i v)
    (if tg_untagged tags then d else D_array [D_value (C_scalar (S_u64 (of_nat i))), d])"
proof (cases "tg_untagged tags")
  case True
  let ?pt = "unionPayloadTags tags"
  have alone: "\<And>j. j < length ts \<Longrightarrow> j \<noteq> i \<Longrightarrow> tree_tag (tree_of d) \<notin> set (accepts (ts ! j) ?pt)"
    using enc True by (simp add: alone_def doc_tag_def)
  have "regains (parser_read R (Ty_Variant ts) tags) cur (V_alt i v) d"
  proof (rule regainsI)
    fix h s
    assume at: "at s (tree_of d) h" and cost: "doc_cost d \<le> budget s"
    obtain s1 where s1: "parser_read R (ts ! i) ?pt h (default_of (ts ! i)) s = (Inr (), v, s1)" "agree (cells h) s s1"
      by (rule regainsE [OF rd at cost])
    have "findAlternatives R ts 0 ?pt h 0 0 s = (Suc 0, 0 + i, s)"
      by (rule find_one [OF at alone i s1])
    moreover obtain s2 where "readAlternative R ts i i ?pt h cur s = (Inr (), V_alt i v, s2)" "agree (cells h) s s2"
      "budget s2 + doc_cost d = budget s"
      by (rule regainsE [OF alternative_regains [OF i rd] at cost])
    ultimately show "\<exists>s1. parser_read R (Ty_Variant ts) tags h cur s = (Inr (), V_alt i v, s1) \<and>
        agree (cells h) s s1 \<and> budget s1 + doc_cost d = budget s"
      using True by (simp add: readUntagged_def)
  qed
  with True show ?thesis
    by simp
next
  case False
  let ?pt = "unionPayloadTags tags" and ?ix = "C_scalar (S_u64 (of_nat i))"
  have "regains (parser_read R (Ty_Variant ts) tags) cur (V_alt i v) (D_array [D_value ?ix, d])"
  proof (rule regainsI)
    fix h s
    assume at: "at s (tree_of (D_array [D_value ?ix, d])) h" and cost: "doc_cost (D_array [D_value ?ix, d]) \<le> budget s"
    obtain es where a: "rd_toArray R h s = Inr h" "rd_arraySize R h = 2"
      "rest h s 0 [tree_of (D_value ?ix), tree_of d] es" "spans cells es \<subseteq> cells h"
      using at by (rule open_rest) auto
    from a(3) obtain e es' where e: "es = e # es'" "rd_arrayElement R h 0 s = (Inr e, s)" "at s (tree_of (D_value ?ix)) e"
      "\<forall>s1. agree (cells e) s s1 \<longrightarrow> rest h s1 (Suc 0) [tree_of d] es'"
      by (rule rest_ConsE)
    have "value_cost ?ix \<le> budget s"
      using cost by simp
    then obtain s1 where s1: "rd_toBasic R B_u64 e s = (Inr ?ix, s1)" "agree (cells e) s s1" "budget s1 = budget s"
      using read_value [OF e(3)] by (auto simp: basic_of_value_def value_cost_def)
    from e(4) [rule_format, OF s1(2)] obtain g es'' where g: "es' = g # es''" "rd_arrayElement R h (Suc 0) s1 = (Inr g, s1)" "at s1 (tree_of d) g"
      by (rule rest_ConsE)
    have "unat (of_nat i :: u64) = i"
      using enc False by (simp add: unat_of_nat_bound)
    moreover have "doc_cost d \<le> budget s1"
      using cost s1(3) by simp
    then obtain s2 where s2: "readAlternative R ts i i ?pt g cur s1 = (Inr (), V_alt i v, s2)" "agree (cells g) s1 s2"
      "budget s2 + doc_cost d = budget s1"
      by (rule regainsE [OF alternative_regains [OF i rd] g(3)])
    moreover have "agree (cells h) s s2"
      using a(4) by (intro agree_both [OF s1(2) s2(2)]) (simp add: e(1) g(1))
    ultimately show "\<exists>s1. parser_read R (Ty_Variant ts) tags h cur s = (Inr (), V_alt i v, s1) \<and>
        agree (cells h) s s1 \<and> budget s1 + doc_cost (D_array [D_value ?ix, d]) = budget s"
      using False a(1,2) e(2) g(2) s1 by (simp add: read_tagged_def value_cost_def)
  qed
  with False show ?thesis
    by simp
qed

subsection \<open>Containers\<close>

lemma array_regains:
  assumes "\<And>h s es. rest h s 0 (map tree_of ds) es \<Longrightarrow> doc_cost (D_array ds) \<le> budget s \<Longrightarrow>
      rd_toArray R h s = Inr h \<Longrightarrow> rd_arraySize R h = length ds \<Longrightarrow>
      \<exists>s1. rd h cur s = (Inr (), v, s1) \<and> agree (spans cells es) s s1 \<and> budget s1 + doc_cost (D_array ds) = budget s"
  shows "regains rd cur v (D_array ds)"
proof (rule regainsI)
  fix h s
  assume at: "at s (tree_of (D_array ds)) h" and cost: "doc_cost (D_array ds) \<le> budget s"
  obtain es where es: "rd_toArray R h s = Inr h" "rd_arraySize R h = length ds" "rest h s 0 (map tree_of ds) es"
    "spans cells es \<subseteq> cells h"
    by (rule open_rest [OF at])
  from assms [OF es(3) cost es(1,2)] obtain s1 where s1: "rd h cur s = (Inr (), v, s1)" "agree (spans cells es) s s1"
    "budget s1 + doc_cost (D_array ds) = budget s"
    by blast
  show "\<exists>s1. rd h cur s = (Inr (), v, s1) \<and> agree (cells h) s s1 \<and> budget s1 + doc_cost (D_array ds) = budget s"
    using s1(1,3) agree_mono [OF s1(2) es(4)] by blast
qed

lemma sequence_regains:
  assumes "list_all (\<lambda>v. regains rd item v (f v)) vs" "insert_all ins [] vs = Some vs"
  shows "regains (parser_read_sequence R rd item ins msg) cur (V_list vs) (D_array (map f vs))"
proof (rule array_regains)
  fix h s es
  assume r: "rest h s 0 (map tree_of (map f vs)) es" "doc_cost (D_array (map f vs)) \<le> budget s"
    "rd_toArray R h s = Inr h" "rd_arraySize R h = length (map f vs)"
  have "recovers (read_items R rd item ins msg h 0 (length vs) []) (spans cells es) s vs (sum_list (map (\<lambda>v. doc_cost (f v)) vs))"
    using r by (intro read_items_recovers assms) (simp_all add: o_def)
  then show "\<exists>s1. parser_read_sequence R rd item ins msg h cur s = (Inr (), V_list vs, s1) \<and>
      agree (spans cells es) s s1 \<and> budget s1 + doc_cost (D_array (map f vs)) = budget s"
    using r(3,4) by (auto simp: parser_read_sequence_def o_def elim!: recoversE)
qed

lemma fixed_array_regains:
  assumes "list_all2 (\<lambda>v c. regains rd c v (f v)) vs (items cur)" "length vs = n"
  shows "regains (read_array R rd n) cur (V_list vs) (D_array (map f vs))"
proof (rule array_regains)
  fix h s es
  assume r: "rest h s 0 (map tree_of (map f vs)) es" "doc_cost (D_array (map f vs)) \<le> budget s"
    "rd_toArray R h s = Inr h" "rd_arraySize R h = length (map f vs)"
  have "recovers (read_in_place R rd h 0 (items cur)) (spans cells es) s vs (sum_list (map (\<lambda>v. doc_cost (f v)) vs))"
    using r by (intro read_in_place_recovers assms) (simp_all add: o_def)
  then show "\<exists>s1. read_array R rd n h cur s = (Inr (), V_list vs, s1) \<and>
      agree (spans cells es) s s1 \<and> budget s1 + doc_cost (D_array (map f vs)) = budget s"
    using r(3,4) assms(2) by (auto simp: read_array_def as_list_def o_def elim!: recoversE)
qed

lemma key_value_regains:
  assumes "list_all (\<lambda>e. regains rk key (fst e) (f (fst e)) \<and> regains rv val (snd e) (g (snd e))) es"
    and "insert_all (\<lambda>m e. ins m (fst e) (snd e)) [] es = Some es"
  shows "regains (parser_read_key_value_array R rk rv key val ins) cur (V_map es)
    (D_array (map (\<lambda>e. entry_doc (bytes_of_chars ''key'', f (fst e)) (bytes_of_chars ''value'', g (snd e))) es))"
    (is "regains _ _ _ (D_array (map ?ed es))")
proof (rule array_regains)
  fix h s hs
  assume r: "rest h s 0 (map tree_of (map ?ed es)) hs" "doc_cost (D_array (map ?ed es)) \<le> budget s"
    "rd_toArray R h s = Inr h" "rd_arraySize R h = length (map ?ed es)"
  have "recovers (read_entries R rk rv key val ins h 0 (length es) []) (spans cells hs) s es
      (sum_list (map (\<lambda>e. doc_cost (?ed e)) es))"
    using r(1,2) by (intro read_entries_recovers assms) (simp_all only: map_map o_def doc_cost.simps)
  then show "\<exists>s1. parser_read_key_value_array R rk rv key val ins h cur s = (Inr (), V_map es, s1) \<and>
      agree (spans cells hs) s s1 \<and> budget s1 + doc_cost (D_array (map ?ed es)) = budget s"
    using r(3,4) by (auto simp: parser_read_key_value_array_def o_def elim!: recoversE)
qed

lemma string_map_regains:
  assumes "list_all (\<lambda>e. fst e = V_basic (C_string (key_string (fst e))) \<and> regains rv val (snd e) (g (snd e))) es"
    and "insert_all (\<lambda>m e. ins m (fst e) (snd e)) [] es = Some es"
  shows "regains (parser_read_string_key_map R rv val ins) cur (V_map es)
    (D_object (map (\<lambda>e. (key_string (fst e), g (snd e))) es))" (is "regains _ _ _ (D_object ?fs)")
proof (rule regainsI)
  fix h s
  assume at: "at s (tree_of (D_object ?fs)) h" and cost: "doc_cost (D_object ?fs) \<le> budget s"
  obtain ms where ms: "members_at {} h s ?fs ms" "spans cells ms \<subseteq> cells h"
    "\<forall>fn x. rd_forEach R h s fn x = each_field fn (zip (map fst ?fs) ms) x"
    using at by (rule open_members)
  have "\<exists>s1. each_field (visit_member rv val ins) (zip (map (\<lambda>e. key_string (fst e)) es) ms) (Inr (), [], s) =
      (True, Inr (), es, s1) \<and> agree (spans cells ms) s s1 \<and>
    budget s1 + sum_list (map (\<lambda>e. doc_cost (g (snd e))) es) = budget s"
    using ms(1) cost by (intro visit_members_recover assms) (simp_all add: members_at_def o_def)
  then show "\<exists>s1. parser_read_string_key_map R rv val ins h cur s = (Inr (), V_map es, s1) \<and>
      agree (cells h) s s1 \<and> budget s1 + doc_cost (D_object ?fs) = budget s"
    using ms(2) members_open [OF ms(1)]
    by (auto simp: parser_read_string_key_map_def ms(3) [rule_format] o_def intro: agree_mono)
qed

lemma pair_regains:
  assumes "regains rk c a d1" "regains rv e b d2" "items cur = [c, e]"
  shows "regains (read_pair R rk rv) cur (V_list [a, b]) (entry_doc (bytes_of_chars ''first'', d1) (bytes_of_chars ''second'', d2))"
proof (rule regainsI)
  fix h s
  assume at: "at s (tree_of (entry_doc (bytes_of_chars ''first'', d1) (bytes_of_chars ''second'', d2))) h"
    and cost: "doc_cost (entry_doc (bytes_of_chars ''first'', d1) (bytes_of_chars ''second'', d2)) \<le> budget s"
  have "doc_cost d1 + doc_cost d2 \<le> budget s"
    using cost by (simp add: entry_doc_def)
  note two = read_two_recovers [OF at this assms(1,2)]
  let ?m1 = "''Required pair field '' @ quoted ''first'' @ '' is missing''"
    and ?g1 = "''Failed to parse pair field '' @ quoted ''first'' @ '': ''"
    and ?m2 = "''Required pair field '' @ quoted ''second'' @ '' is missing''"
    and ?g2 = "''Failed to parse pair field '' @ quoted ''second'' @ '': ''"
  from two [of ?m1 ?g1 ?m2 ?g2] obtain s1 where
    "read_two R (bytes_of_chars ''first'', rk, ?m1, ?g1) (bytes_of_chars ''second'', rv, ?m2, ?g2) h c e s = (Inr (), (a, b), s1)"
    "agree (cells h) s s1" "budget s1 + (doc_cost d1 + doc_cost d2) = budget s"
    by (blast elim: recoversE)
  then show "\<exists>s1. read_pair R rk rv h cur s = (Inr (), V_list [a, b], s1) \<and>
      agree (cells h) s s1 \<and>
      budget s1 + doc_cost (entry_doc (bytes_of_chars ''first'', d1) (bytes_of_chars ''second'', d2)) = budget s"
    using assms(3) two by (simp add: read_pair_def entry_doc_def)
qed

lemma optional_regains:
  assumes "regains rd val x d" "doc_tag d \<noteq> T_Null"
  shows "regains (read_optional R kind rd val) cur (V_opt (Some x)) d"
proof (rule regainsI)
  fix h s
  assume at: "at s (tree_of d) h" and cost: "doc_cost d \<le> budget s"
  have "rd_isEmpty R h s = (False, s)"
    using assms(2) by (intro read_not_empty [OF at]) (simp add: doc_tag_def)
  moreover obtain s1 where "rd h val s = (Inr (), x, s1)" "agree (cells h) s s1" "budget s1 + doc_cost d = budget s"
    by (rule regainsE [OF assms(1) at cost])
  ultimately show "\<exists>s1. read_optional R kind rd val h cur s = (Inr (), V_opt (Some x), s1) \<and> agree (cells h) s s1 \<and>
      budget s1 + doc_cost d = budget s"
    by (simp add: read_optional_def)
qed

lemma none_regains: "regains (read_optional R kind rd val) cur (V_opt None) D_null"
proof (rule regainsI)
  fix h s
  assume "at s (tree_of D_null) h"
  then obtain s1 where "rd_isEmpty R h s = (True, s1)" "agree (cells h) s s1" "budget s1 = budget s"
    using read_empty [of s h] by auto
  then show "\<exists>s1. read_optional R kind rd val h cur s = (Inr (), V_opt None, s1) \<and> agree (cells h) s s1 \<and>
      budget s1 + doc_cost D_null = budget s"
    by (simp add: read_optional_def)
qed

lemma name_value_pair_regains:
  assumes "regains rd cur v d"
  shows "regains (read_name_value_pair R n rd) cur v (D_object [(n, d)])"
proof (rule regainsI)
  fix h s
  assume at: "at s (tree_of (D_object [(n, d)])) h" and cost: "doc_cost (D_object [(n, d)]) \<le> budget s"
  obtain ms where ms: "members_at {} h s [(n, d)] ms" "spans cells ms \<subseteq> cells h"
    using at by (rule open_members)
  from ms(1) obtain m ms' where m: "ms = m # ms'" "rd_objectField R h n s = Inr m" "at s (tree_of d) m"
    by (rule members_ConsE)
  obtain s1 where s1: "rd m cur s = (Inr (), v, s1)" "agree (cells m) s s1" "budget s1 + doc_cost d = budget s"
    using cost by (auto intro: regainsE [OF assms m(3)])
  moreover have "agree (cells h) s s1"
    using ms(2) by (intro agree_mono [OF s1(2)]) (simp add: m(1))
  ultimately show "\<exists>s1. read_name_value_pair R n rd h cur s = (Inr (), v, s1) \<and> agree (cells h) s s1 \<and>
      budget s1 + doc_cost (D_object [(n, d)]) = budget s"
    using m(2) members_open [OF ms(1)] by (simp add: read_name_value_pair_def read_context_def parser_context_def)
qed

subsection \<open>Reflected records\<close>

text \<open>A part of a record's fields: the members \<open>ds\<close> are the next ones to be read, \<open>ns\<close> are missing.\<close>

definition part :: "('h \<Rightarrow> 's \<Rightarrow> unit sa_result \<times> 'r \<times> 's) \<Rightarrow> 'r \<Rightarrow> (bytes \<times> doc) list \<Rightarrow> bytes list \<Rightarrow> bool" where
  "part rd v ds ns \<longleftrightarrow>
     (\<forall>A h s qs ms. members_at A h s (ds @ qs) ms \<longrightarrow> set ns \<subseteq> A \<longrightarrow> sum_list (map (\<lambda>d. doc_cost (snd d)) ds) \<le> budget s \<longrightarrow>
       (\<exists>s1 ms1 ms2. ms = ms1 @ ms2 \<and> rd h s = (Inr (), v, s1) \<and> agree (spans cells ms1) s s1 \<and>
         members_at A h s1 qs ms2 \<and> budget s1 + sum_list (map (\<lambda>d. doc_cost (snd d)) ds) = budget s))"

lemma partI:
  assumes "\<And>A h s qs ms. members_at A h s (ds @ qs) ms \<Longrightarrow> set ns \<subseteq> A \<Longrightarrow>
      sum_list (map (\<lambda>d. doc_cost (snd d)) ds) \<le> budget s \<Longrightarrow>
      \<exists>s1 ms1 ms2. ms = ms1 @ ms2 \<and> rd h s = (Inr (), v, s1) \<and> agree (spans cells ms1) s s1 \<and>
        members_at A h s1 qs ms2 \<and> budget s1 + sum_list (map (\<lambda>d. doc_cost (snd d)) ds) = budget s"
  shows "part rd v ds ns"
  using assms unfolding part_def by blast

lemma partE:
  assumes "part rd v ds ns" "members_at A h s (ds @ qs) ms" "set ns \<subseteq> A"
    "sum_list (map (\<lambda>d. doc_cost (snd d)) ds) \<le> budget s"
  obtains s1 ms1 ms2 where "ms = ms1 @ ms2" "rd h s = (Inr (), v, s1)" "agree (spans cells ms1) s s1"
    "members_at A h s1 qs ms2" "budget s1 + sum_list (map (\<lambda>d. doc_cost (snd d)) ds) = budget s"
  using assms unfolding part_def by blast

lemma part_kept: "(\<And>h s. rd h s = (Inr (), v, s)) \<Longrightarrow> part rd v [] []"
  by (rule partI) (auto intro: agree_refl)

lemma part_Cons:
  assumes one: "part one v ds1 ns1" and later: "part later vs ds2 ns2"
    and all: "\<And>h s s1. one h s = (Inr (), v, s1) \<Longrightarrow> rd h s = map_prod (\<lambda>r. r) (map_prod (Cons v) (\<lambda>s. s)) (later h s1)"
  shows "part rd (v # vs) (ds1 @ ds2) (ns1 @ ns2)"
proof (rule partI)
  fix A h s qs ms
  assume ms: "members_at A h s ((ds1 @ ds2) @ qs) ms" and ns: "set (ns1 @ ns2) \<subseteq> A"
    and cost: "sum_list (map (\<lambda>d. doc_cost (snd d)) (ds1 @ ds2)) \<le> budget s"
  have m: "members_at A h s (ds1 @ ds2 @ qs) ms" and n: "set ns1 \<subseteq> A" "set ns2 \<subseteq> A"
    and c: "sum_list (map (\<lambda>d. doc_cost (snd d)) ds1) \<le> budget s"
    using ms ns cost by simp_all
  obtain s1 ms1 ms2 where s1: "ms = ms1 @ ms2" "one h s = (Inr (), v, s1)" "agree (spans cells ms1) s s1"
    "members_at A h s1 (ds2 @ qs) ms2" "budget s1 + sum_list (map (\<lambda>d. doc_cost (snd d)) ds1) = budget s"
    by (rule partE [OF one m n(1) c])
  have "sum_list (map (\<lambda>d. doc_cost (snd d)) ds2) \<le> budget s1"
    using cost s1(5) by simp
  then obtain s2 ms3 ms4 where s2: "ms2 = ms3 @ ms4" "later h s1 = (Inr (), vs, s2)" "agree (spans cells ms3) s1 s2"
    "members_at A h s2 qs ms4" "budget s2 + sum_list (map (\<lambda>d. doc_cost (snd d)) ds2) = budget s1"
    by (rule partE [OF later s1(4) n(2)])
  show "\<exists>s1 ms1 ms2. ms = ms1 @ ms2 \<and> rd h s = (Inr (), v # vs, s1) \<and> agree (spans cells ms1) s s1 \<and>
      members_at A h s1 qs ms2 \<and> budget s1 + sum_list (map (\<lambda>d. doc_cost (snd d)) (ds1 @ ds2)) = budget s"
    using s1(5) s2
    by (intro exI [of _ s2] exI [of _ "ms1 @ ms3"] exI [of _ ms4] conjI agree_both [OF s1(3) s2(3)])
      (simp_all add: s1(1) all [OF s1(2)])
qed

lemma part_absent:
  assumes "\<not> tg_ignore (fd_tags f)" "optional_like t" "v = (if tg_skippable (fd_tags f) then c else set_null t)"
  shows "part (\<lambda>h s. parser_read_reflect_field R f t None rd h c s) v [] [field_name f]"
proof (rule partI)
  fix A h s qs ms
  assume ms: "members_at A h s ([] @ qs) ms" and A: "set [field_name f] \<subseteq> A"
  obtain e where "rd_objectField R h (field_name f) s = Inl (Err e)"
    using members_absent [OF ms, of "field_name f"] A by auto
  then have "parser_read_reflect_field R f t None rd h c s = (Inr (), v, s)"
    using assms members_open [OF ms] by (simp add: parser_read_reflect_field_def parser_read_missing_field_def)
  then show "\<exists>s1 ms1 ms2. ms = ms1 @ ms2 \<and> parser_read_reflect_field R f t None rd h c s = (Inr (), v, s1) \<and>
      agree (spans cells ms1) s s1 \<and> members_at A h s1 qs ms2 \<and>
      budget s1 + sum_list (map (\<lambda>d. doc_cost (snd d)) []) = budget s"
    using ms by (intro exI [of _ s] exI [of _ "[]"] exI [of _ ms]) (simp add: agree_refl)
qed

lemma part_present:
  assumes "\<not> tg_ignore (fd_tags f)" "regains rd c v d" "doc_tag d \<noteq> T_Null"
  shows "part (\<lambda>h s. parser_read_reflect_field R f t None rd h c s) v [(field_name f, d)] []"
proof (rule partI)
  fix A h s qs ms
  assume ms: "members_at A h s ([(field_name f, d)] @ qs) ms"
    and cost: "sum_list (map (\<lambda>d. doc_cost (snd d)) [(field_name f, d)]) \<le> budget s"
  from ms have "members_at A h s ((field_name f, d) # qs) ms"
    by simp
  then obtain m ms' where m: "ms = m # ms'" "rd_objectField R h (field_name f) s = Inr m" "at s (tree_of d) m"
    "\<forall>s1. agree (cells m) s s1 \<longrightarrow> members_at A h s1 qs ms'"
    by (rule members_ConsE)
  obtain s1 where s1: "rd m c s = (Inr (), v, s1)" "agree (cells m) s s1" "budget s1 + doc_cost d = budget s"
    using cost by (auto intro: regainsE [OF assms(2) m(3)])
  have "rd_isEmpty R m s = (False, s)"
    using assms(3) by (intro read_not_empty [OF m(3)]) (simp add: doc_tag_def)
  then have "parser_read_reflect_field R f t None rd h c s = (Inr (), v, s1)"
    using assms(1) members_open [OF ms] m(2) s1(1)
    by (simp add: parser_read_reflect_field_def read_context_def parser_context_def)
  then show "\<exists>s1 ms1 ms2. ms = ms1 @ ms2 \<and> parser_read_reflect_field R f t None rd h c s = (Inr (), v, s1) \<and>
      agree (spans cells ms1) s s1 \<and> members_at A h s1 qs ms2 \<and>
      budget s1 + sum_list (map (\<lambda>d. doc_cost (snd d)) [(field_name f, d)]) = budget s"
    using s1 m(1,4) by (intro exI [of _ s1] exI [of _ "[m]"] exI [of _ ms']) simp
qed

lemma part_flat:
  assumes "\<not> tg_ignore (fd_tags f)" "part (\<lambda>h s. loop h (items c) s) us ds ns"
  shows "part (\<lambda>h s. parser_read_reflect_field R f t (Some loop) rd h c s) (V_list us) ds ns"
proof (rule partI)
  fix A h s qs ms
  assume ms: "members_at A h s (ds @ qs) ms" "set ns \<subseteq> A" "sum_list (map (\<lambda>d. doc_cost (snd d)) ds) \<le> budget s"
  obtain s1 ms1 ms2 where s1: "ms = ms1 @ ms2" "loop h (items c) s = (Inr (), us, s1)" "agree (spans cells ms1) s s1"
    "members_at A h s1 qs ms2" "budget s1 + sum_list (map (\<lambda>d. doc_cost (snd d)) ds) = budget s"
    by (rule partE [OF assms(2) ms])
  have "parser_read_reflect_field R f t (Some loop) rd h c s = (Inr (), V_list us, s1)"
    using assms(1) members_open [OF ms(1)] s1(2)
    by (simp add: parser_read_reflect_field_def parser_read_reflect_fields_def as_list_def)
  with s1 show "\<exists>s1 ms1 ms2. ms = ms1 @ ms2 \<and> parser_read_reflect_field R f t (Some loop) rd h c s = (Inr (), V_list us, s1) \<and>
      agree (spans cells ms1) s s1 \<and> members_at A h s1 qs ms2 \<and>
      budget s1 + sum_list (map (\<lambda>d. doc_cost (snd d)) ds) = budget s"
    by blast
qed

lemma record_regains:
  assumes "part (\<lambda>h s. loop h (items (if kind = Rec_Fresh then val else cur)) s) vs (field_docs fs vs) (absent_names fs vs)"
    and "names_found fs vs"
  shows "regains (read_record kind val (\<lambda>h v s. as_list (parser_read_reflect_fields R loop h (items v) s))) cur (V_list vs)
    (D_idobject (field_docs fs vs))"
proof (rule regainsI)
  fix h s
  assume at: "at s (tree_of (D_idobject (field_docs fs vs))) h" and cost: "doc_cost (D_idobject (field_docs fs vs)) \<le> budget s"
  let ?A = "set (absent_names fs vs)"
  have "list_all (\<lambda>n. n \<noteq> []) (map fst (field_docs fs vs))"
    "\<forall>n \<in> ?A. key_of n \<notin> key_of ` set (map fst (field_docs fs vs))"
    using assms(2) by (auto simp: names_found_def list_all_iff)
  then obtain ms where ms: "members_at ?A h s (field_docs fs vs) ms" "spans cells ms \<subseteq> cells h"
    by (rule open_ids [OF at])
  have "members_at ?A h s (field_docs fs vs @ []) ms" "sum_list (map (\<lambda>d. doc_cost (snd d)) (field_docs fs vs)) \<le> budget s"
    using ms(1) cost by simp_all
  then obtain s1 ms1 ms2 where s1: "ms = ms1 @ ms2"
    "loop h (items (if kind = Rec_Fresh then val else cur)) s = (Inr (), vs, s1)" "agree (spans cells ms1) s s1"
    "budget s1 + sum_list (map (\<lambda>d. doc_cost (snd d)) (field_docs fs vs)) = budget s"
    by (blast elim: partE [OF assms(1) _ subset_refl])
  have "agree (cells h) s s1"
    using ms(2) by (intro agree_mono [OF s1(3)]) (simp add: s1(1))
  then show "\<exists>s1. read_record kind val (\<lambda>h v s. as_list (parser_read_reflect_fields R loop h (items v) s)) h cur s =
      (Inr (), V_list vs, s1) \<and> agree (cells h) s s1 \<and> budget s1 + doc_cost (D_idobject (field_docs fs vs)) = budget s"
    using s1(2,4) members_open [OF ms(1)]
    by (cases kind) (simp_all add: read_record_def commit_def as_list_def parser_read_reflect_fields_def)
qed

text \<open>A tuple and a positional record.\<close>

lemma sized_regains:
  assumes "\<And>h s es. rest h s 0 (map tree_of ds) es \<Longrightarrow> doc_cost (D_array ds) \<le> budget s \<Longrightarrow>
      recovers (loop h (items cur)) (spans cells es) s vs (doc_cost (D_array ds))"
    and "length ds = n"
  shows "regains (read_sized R what n loop) cur (V_list vs) (D_array ds)"
proof (rule array_regains)
  fix h s es
  assume r: "rest h s 0 (map tree_of ds) es" "doc_cost (D_array ds) \<le> budget s"
    "rd_toArray R h s = Inr h" "rd_arraySize R h = length ds"
  show "\<exists>s1. read_sized R what n loop h cur s = (Inr (), V_list vs, s1) \<and>
      agree (spans cells es) s s1 \<and> budget s1 + doc_cost (D_array ds) = budget s"
    using assms(1) [OF r(1,2)] r(3,4) assms(2) by (auto simp: read_sized_def as_list_def elim!: recoversE)
qed

text \<open>One element of an array, then the elements behind it.\<close>

lemma elements_recover:
  assumes r: "rest a s k (tree_of d # map tree_of ds) es" and cost: "doc_cost d + sum_list (map doc_cost ds) \<le> budget s"
    and rd: "regains rd c v d"
    and later: "\<And>s1 es'. rest a s1 (Suc k) (map tree_of ds) es' \<Longrightarrow> sum_list (map doc_cost ds) \<le> budget s1 \<Longrightarrow>
      recovers (later a) (spans cells es') s1 vs (sum_list (map doc_cost ds))"
    and all: "\<And>e s1. rd_arrayElement R a k s = (Inr e, s) \<Longrightarrow> rd e c s = (Inr (), v, s1) \<Longrightarrow>
      loop a s = map_prod (\<lambda>r. r) (map_prod (Cons v) (\<lambda>s. s)) (later a s1)"
  shows "recovers (loop a) (spans cells es) s (v # vs) (doc_cost d + sum_list (map doc_cost ds))"
proof -
  obtain e es' where e: "es = e # es'" "rd_arrayElement R a k s = (Inr e, s)" "at s (tree_of d) e"
    "\<forall>s1. agree (cells e) s s1 \<longrightarrow> rest a s1 (Suc k) (map tree_of ds) es'"
    using r by (rule rest_ConsE)
  have "doc_cost d \<le> budget s"
    using cost by simp
  then obtain s1 where s1: "rd e c s = (Inr (), v, s1)" "agree (cells e) s s1" "budget s1 + doc_cost d = budget s"
    by (rule regainsE [OF rd e(3)])
  have "sum_list (map doc_cost ds) \<le> budget s1"
    using cost s1(3) by simp
  then obtain s2 where s2: "later a s1 = (Inr (), vs, s2)" "agree (spans cells es') s1 s2"
    "budget s2 + sum_list (map doc_cost ds) = budget s1"
    using later [OF e(4) [rule_format, OF s1(2)]] by (auto elim: recoversE)
  show ?thesis
    using s1(3) s2(3) e(1) all [OF e(2) s1(1)] s2(1)
    by (intro recoversI [where ?s1.0 = s2] agree_both [OF s1(2) s2(2)]) simp_all
qed

end

end
