(* ===== verification/Parse_Inverse.thy ===== *)
theory Parse_Inverse
  imports Parse_Roundtrip
begin

text \<open>
  \<open>parser_read\<close> inverts the document of every recoverable value: the theorem of the contract.
\<close>

lemma recoverable_active_index:
  "recoverable_active ts i tags v \<Longrightarrow> i < length ts \<and> active_doc ts i tags v = doc_of (ts ! i) tags v"
proof (induction ts arbitrary: i)
  case (Cons t ts)
  then show ?case
    by (cases i) auto
qed simp

context document_reader
begin

definition tuple_back :: "('h, 's) pfields \<Rightarrow> nat \<Rightarrow> tvalue list \<Rightarrow> tvalue list \<Rightarrow> doc list \<Rightarrow> bool" where
  "tuple_back loop k cs vs ds \<longleftrightarrow>
     (\<forall>a s es. rest a s k (map tree_of ds) es \<longrightarrow> sum_list (map doc_cost ds) \<le> budget s \<longrightarrow>
        recovers (loop a cs) (spans cells es) s vs (sum_list (map doc_cost ds)))"

lemma tuple_back_Nil:
  assumes "\<And>a s. loop a cs s = (Inr (), [], s)"
  shows "tuple_back loop k cs [] []"
  using assms by (auto simp: tuple_back_def intro!: recoversI agree_refl dest: rest_Nil)

lemma tuple_back_Cons:
  assumes "regains rd c v d" "tuple_back later (Suc k) cs vs ds"
    and "\<And>a e s s1. rd_arrayElement R a k s = (Inr e, s) \<Longrightarrow> rd e c s = (Inr (), v, s1) \<Longrightarrow>
      loop a (c # cs) s = map_prod (\<lambda>r. r) (map_prod (Cons v) (\<lambda>s. s)) (later a cs s1)"
  shows "tuple_back loop k (c # cs) (v # vs) (d # ds)"
  unfolding tuple_back_def
proof (intro allI impI)
  fix a s es
  assume r: "rest a s k (map tree_of (d # ds)) es" and cost: "sum_list (map doc_cost (d # ds)) \<le> budget s"
  have "recovers ((\<lambda>a. loop a (c # cs)) a) (spans cells es) s (v # vs) (doc_cost d + sum_list (map doc_cost ds))"
  proof (rule elements_recover [where later = "\<lambda>a. later a cs"])
    show "rest a s k (tree_of d # map tree_of ds) es" "doc_cost d + sum_list (map doc_cost ds) \<le> budget s"
      using r cost by simp_all
    show "regains rd c v d"
      by (rule assms(1))
    show "recovers (later a cs) (spans cells es') s1 vs (sum_list (map doc_cost ds))"
      if "rest a s1 (Suc k) (map tree_of ds) es'" "sum_list (map doc_cost ds) \<le> budget s1" for s1 es'
      using assms(2) that unfolding tuple_back_def by blast
    show "loop a (c # cs) s = map_prod (\<lambda>r. r) (map_prod (Cons v) (\<lambda>s. s)) (later a cs s1)"
      if "rd_arrayElement R a k s = (Inr e, s)" "rd e c s = (Inr (), v, s1)" for e s1
      by (rule assms(3) [OF that])
  qed
  then show "recovers (loop a (c # cs)) (spans cells es) s (v # vs) (sum_list (map doc_cost (d # ds)))"
    by simp
qed

lemma tuple_back_sized:
  assumes "tuple_back loop 0 (items cur) vs ds" "length ds = n"
  shows "regains (read_sized R what n loop) cur (V_list vs) (D_array ds)"
  using assms by (intro sized_regains) (auto simp: tuple_back_def)

lemma length_docs:
  "recoverable_tuple ts vs cs \<Longrightarrow> length (tuple_docs ts vs) = length ts"
  "recoverable_positional fs vs cs \<Longrightarrow> length (positional_docs fs vs) = parser_reflect_field_count fs"
proof (induction ts arbitrary: vs cs)
  case Nil
  {
    case 1
    then show ?case
      by simp
  next
    case 2
    then show ?case
    proof (induction fs arbitrary: vs cs)
      case (Cons f fs)
      then show ?case
        by (cases f) (auto simp: parser_reflect_field_count_def split: list.splits)
    qed (simp add: parser_reflect_field_count_def)
  }
next
  case (Cons t ts)
  {
    case 1
    then show ?case
      using Cons.IH(1) by (auto split: list.splits)
  next
    case 2
    then show ?case
      by (rule Cons.IH(2))
  }
qed

lemma regains_eq: "(\<And>h s. rd h cur s = rd' h cur s) \<Longrightarrow> regains rd' cur v d \<Longrightarrow> regains rd cur v d"
  unfolding regains_def recovers_def by simp

lemma regained:
  "recoverable t tags v cur \<Longrightarrow> regains (parser_read R t tags) cur v (doc_of t tags v)"
  "recoverable_tuple ts vs cs \<Longrightarrow> \<forall>k. tuple_back (read_tuple R ts k) k cs vs (tuple_docs ts vs)"
  "recoverable_active ts i tags v \<Longrightarrow> regains (parser_read R (ts ! i) tags) (default_of (ts ! i)) v (doc_of (ts ! i) tags v)"
  "recoverable_fields fs vs cs \<Longrightarrow> part (\<lambda>h s. read_fields R fs h cs s) vs (field_docs fs vs) (absent_names fs vs)"
  "recoverable_positional fs vs cs \<Longrightarrow> \<forall>j k. tuple_back (read_positional R fs j k) k cs vs (positional_docs fs vs)"
proof (induction t tags v cur and ts vs cs and ts i tags v and fs vs cs and fs vs cs
    rule: recoverable_recoverable_tuple_recoverable_active_recoverable_fields_recoverable_positional.induct)
  case (1 b tags v cur)
  then obtain x where "v = V_basic x" "basic_fits (tg_fixed tags) b (V_basic x)"
    by (cases v) (auto simp: basic_fits_def)
  then show ?case
    using basic_regains [of "tg_fixed tags" b x cur]
    by - (rule regains_eq [of _ _ "read_basic R (tg_fixed tags) b"], simp_all)
next
  case (2 tags v cur)
  show ?case
    by (rule regains_eq [of _ _ "read_null R ''Expected null''"]) (use 2 null_regains in simp_all)
next
  case (3 tags v cur)
  show ?case
    by (rule regains_eq [of _ _ "read_null R ''Expected null for monostate''"]) (use 3 null_regains in simp_all)
next
  case (4 b names tags v cur)
  then obtain x where "v = V_basic (C_scalar x)" "basic_of x = b"
    "if enum_name names x \<noteq> [] then nameMap names (enum_name names x) = Some x else fixed_fits (tg_fixed tags) x"
    by (auto split: tvalue.splits cvalue.splits)
  then show ?case
    using enum_regains [of x b names "tg_fixed tags" cur]
    by - (rule regains_eq [of _ _ "read_enum R (tg_fixed tags) b names"], simp_all)
next
  case (7 tags v cur)
  then obtain x where x: "v = V_basic (C_scalar x)" "basic_of x = B_u8" "fixed_fits (tg_fixed tags) x"
    by (auto simp: basic_fits_def split: tvalue.splits cvalue.splits)
  have "regains (parser_read_arithmetic R (tg_fixed tags) B_u8) (V_basic (C_scalar (S_u8 0))) v
      (arithmetic_doc (tg_fixed tags) x)"
    unfolding x(1) by (rule arithmetic_regains [OF x(2,3)])
  then have "regains (parser_read R Ty_Byte tags) cur v (arithmetic_doc (tg_fixed tags) x)"
    by (rule regains_wrap) (simp add: read_byte_def commit_def read_context_def parser_context_def)
  then show ?case
    by (simp add: x(1) basic_doc_def del: parser_read.simps)
next
  case (8 n tags v cur)
  then obtain bs where "v = V_bits bs" "length bs = n"
    by (auto split: tvalue.splits)
  then show ?case
    using bitset_regains [of bs n cur] by - (rule regains_eq [of _ _ "read_bitset R n"], simp_all)
next
  case (9 ins t tags v cur)
  then obtain vs where vs: "v = V_list vs" "insert_all ins [] vs = Some vs"
    "\<forall>x \<in> set vs. recoverable t NoTags x (default_of t)"
    by (auto simp: list_all_iff split: tvalue.splits)
  have "list_all (\<lambda>x. regains (\<lambda>h v s. parser_read R t NoTags h v s) (default_of t) x (doc_of t NoTags x)) vs"
    using "9.IH" [OF vs(1)] vs(3) by (auto simp: list_all_iff)
  from sequence_regains [OF this vs(2), of "''Failed to parse sequence element ''" cur] show ?case
    by - (rule regains_eq [of _ cur "parser_read_sequence R (\<lambda>h v s. parser_read R t NoTags h v s) (default_of t) ins
      ''Failed to parse sequence element ''"], simp_all add: vs(1))
next
  case (10 tags v cur)
  then obtain vs where vs: "v = V_list vs" "\<forall>x \<in> set vs. basic_fits 0 B_bool x"
    by (auto simp: list_all_iff split: tvalue.splits)
  let ?f = "\<lambda>x. case x of V_basic x \<Rightarrow> basic_doc 0 x | _ \<Rightarrow> D_null"
  have "regains (read_basic R 0 B_bool) (V_basic (zero_basic B_bool)) x (?f x)" if "x \<in> set vs" for x
  proof -
    from vs(2) that have "basic_fits 0 B_bool x"
      by blast
    then obtain y where "x = V_basic y" "basic_fits 0 B_bool (V_basic y)"
      by (cases x) (auto simp: basic_fits_def)
    then show ?thesis
      using basic_regains [of 0 B_bool y] by simp
  qed
  then have "list_all (\<lambda>x. regains (read_basic R 0 B_bool) (V_basic (zero_basic B_bool)) x (?f x)) vs"
    by (simp add: list_all_iff)
  from sequence_regains [OF this insert_all_push_back [of "[]" vs, simplified], of "''Failed to parse vector<bool> element ''" cur]
  show ?case
    by - (rule regains_eq [of _ cur "read_vector_bool R"], simp_all add: vs(1) read_vector_bool_def)
next
  case (11 n t tags v cur)
  then obtain vs where vs: "v = V_list vs" "length vs = n" "list_all2 (\<lambda>x c. recoverable t NoTags x c) vs (items cur)"
    by (auto split: tvalue.splits)
  have "list_all2 (\<lambda>x c. regains (\<lambda>h v s. parser_read R t NoTags h v s) c x (doc_of t NoTags x)) vs (items cur)"
    using vs(3) "11.IH" [OF vs(1)] by (auto intro: list_all2_mono simp: list_all2_conv_all_nth)
  from fixed_array_regains [OF this vs(2)] show ?case
    by - (rule regains_eq [of _ cur "read_array R (\<lambda>h v s. parser_read R t NoTags h v s) n"], simp_all add: vs(1))
next
  case (12 str ins k t tags v cur)
  then obtain es where es: "v = V_map es" "insert_all (\<lambda>m e. ins m (fst e) (snd e)) [] es = Some es"
    "\<forall>e \<in> set es. (if str then fst e = V_basic (C_string (key_string (fst e))) else recoverable k NoTags (fst e) (default_of k)) \<and>
      recoverable t NoTags (snd e) (default_of t)"
    by (auto simp: list_all_iff split: tvalue.splits)
  let ?rk = "\<lambda>h v s. parser_read R k NoTags h v s" and ?rv = "\<lambda>h v s. parser_read R t NoTags h v s"
  have v: "regains ?rv (default_of t) (snd e) (doc_of t NoTags (snd e))" if "e \<in> set es" for e
    using "12.IH"(2) [OF es(1) that] es(3) that by simp
  show ?case
  proof (cases str)
    case True
    have "list_all (\<lambda>e. fst e = V_basic (C_string (key_string (fst e))) \<and> regains ?rv (default_of t) (snd e) (doc_of t NoTags (snd e))) es"
      using es(3) True v by (auto simp: list_all_iff)
    from string_map_regains [OF this es(2), of cur] True show ?thesis
      by - (rule regains_eq [of _ cur "parser_read_string_key_map R ?rv (default_of t) ins"], simp_all add: es(1))
  next
    case False
    have "list_all (\<lambda>e. regains ?rk (default_of k) (fst e) (doc_of k NoTags (fst e)) \<and>
        regains ?rv (default_of t) (snd e) (doc_of t NoTags (snd e))) es"
      using es(3) False v "12.IH"(1) [OF es(1)] by (auto simp: list_all_iff)
    from key_value_regains [OF this es(2), of cur] False show ?thesis
      by - (rule regains_eq [of _ cur "parser_read_key_value_array R ?rk ?rv (default_of k) (default_of t) ins"], simp_all add: es(1))
  qed
next
  case (13 ts tags v cur)
  then obtain vs where vs: "v = V_list vs" "recoverable_tuple ts vs (items cur)"
    by (auto split: tvalue.splits)
  have "tuple_back (read_tuple R ts 0) 0 (items cur) vs (tuple_docs ts vs)"
    using "13.IH" [OF vs] by blast
  from tuple_back_sized [OF this length_docs(1) [OF vs(2)], of "''tuple''"] show ?case
    by - (rule regains_eq [of _ cur "read_sized R ''tuple'' (length ts) (read_tuple R ts 0)"], simp_all add: vs(1))
next
  case (14 k t tags v cur)
  then obtain a b where v: "v = V_list [a, b]"
    by (auto split: tvalue.splits list.splits)
  with 14 obtain c e where c: "items cur = [c, e]" "recoverable k NoTags a c" "recoverable t NoTags b e"
    by (auto split: list.splits)
  have "regains (\<lambda>h v s. parser_read R k NoTags h v s) c a (doc_of k NoTags a)"
    "regains (\<lambda>h v s. parser_read R t NoTags h v s) e b (doc_of t NoTags b)"
    using "14.IH" v c by auto
  from pair_regains [OF this c(1)] show ?case
    by - (rule regains_eq [of _ cur "read_pair R (\<lambda>h v s. parser_read R k NoTags h v s) (\<lambda>h v s. parser_read R t NoTags h v s)"], simp_all add: v)
next
  case (15 kind t tags v cur)
  let ?rd = "read_optional R (opt_name kind) (\<lambda>h v s. parser_read R t tags h v s) (default_of t)"
  have "regains ?rd cur v (doc_of (Ty_Opt kind t) tags v)"
  proof (cases "v = V_opt None")
    case True
    then show ?thesis
      using none_regains by simp
  next
    case False
    then obtain x where x: "v = V_opt (Some x)" "recoverable t tags x (default_of t)" "doc_tag (doc_of t tags x) \<noteq> T_Null"
      using "15.prems" by (auto split: tvalue.splits option.splits)
    then show ?thesis
      using "15.IH" by (auto intro: optional_regains)
  qed
  then show ?case
    by (rule regains_eq [rotated]) simp
next
  case (16 t tags v cur)
  then have "regains (parser_read R t tags) (default_of t) v (doc_of t tags v)"
    by simp
  then have "regains (parser_read R (Ty_Atomic t) tags) cur v (doc_of t tags v)"
    by (rule regains_wrap) (simp add: read_atomic_def commit_def read_context_def parser_context_def)
  then show ?case
    by (simp del: parser_read.simps)
next
  case (17 ts tags v cur)
  let ?pt = "unionPayloadTags tags"
  obtain i x where v: "v = V_alt i x" "recoverable_active ts i ?pt x"
    "if tg_untagged tags then alone ts ?pt i (active_doc ts i ?pt x) else i < 2 ^ 64"
    using "17.prems" by (auto split: tvalue.splits)
  note ix = recoverable_active_index [OF v(2)]
  have enc: "if tg_untagged tags then alone ts ?pt i (doc_of (ts ! i) ?pt x) else i < 2 ^ 64"
    using v(3) ix by (simp split: if_splits)
  from variant_regains [OF conjunct1 [OF ix] "17.IH" [OF v(1,2)] enc, of cur] ix show ?case
    by (simp add: v(1) del: parser_read.simps split: if_splits)
next
  case (18 n t tags v cur)
  then have "regains (\<lambda>h v s. parser_read R t NoTags h v s) cur v (doc_of t NoTags v)"
    by simp
  from name_value_pair_regains [OF this, of n] show ?case
    by - (rule regains_eq [of _ cur "read_name_value_pair R n (\<lambda>h v s. parser_read R t NoTags h v s)"], simp_all)
next
  case (19 kind fs tags v cur)
  let ?base = "items (if kind = Rec_Fresh then default_of (Ty_Record kind fs) else cur)"
  obtain vs where vs: "v = V_list vs" "names_found fs vs" "recoverable_fields fs vs ?base"
    using "19.prems" by (auto split: tvalue.splits)
  have "regains (parser_read R (Ty_Record kind fs) tags) cur v (D_idobject (field_docs fs vs))"
    unfolding vs(1)
    by (rule regains_eq [OF _ record_regains [where loop = "\<lambda>h vs s. read_fields R fs h vs s" and kind = kind and cur = cur
      and val = "default_of (Ty_Record kind fs)", OF "19.IH" [OF vs(1,3)] vs(2)]]) simp
  then show ?case
    by (simp add: vs(1) del: parser_read.simps)
next
  case (20 kind fs tags v cur)
  let ?val = "default_of (Ty_Positional kind fs)"
  let ?base = "if kind = Rec_Fresh then ?val else cur"
  let ?rd = "read_sized R ''reflected array'' (parser_reflect_field_count fs) (read_positional R fs 0 0)"
  obtain vs where vs: "v = V_list vs" "recoverable_positional fs vs (items ?base)"
    using "20.prems" by (auto split: tvalue.splits)
  have "tuple_back (read_positional R fs 0 0) 0 (items ?base) vs (positional_docs fs vs)"
    using "20.IH" [OF vs] by blast
  from tuple_back_sized [OF this length_docs(2) [OF vs(2)]] have "regains ?rd ?base v (D_array (positional_docs fs vs))"
    by (simp add: vs(1))
  then have "regains (parser_read R (Ty_Positional kind fs) tags) cur v (D_array (positional_docs fs vs))"
    by (rule regains_wrap) (cases kind; simp add: read_record_def commit_def)
  then show ?case
    by (simp add: vs(1) del: parser_read.simps)
next
  case (21 vs cs)
  then show ?case
    by (auto intro: tuple_back_Nil)
next
  case (22 t ts vs cs)
  then obtain v vs' c cs' where v: "vs = v # vs'" "cs = c # cs'" "recoverable t NoTags v c" "recoverable_tuple ts vs' cs'"
    by (auto split: list.splits)
  have "tuple_back (read_tuple R (t # ts) k) k cs vs (tuple_docs (t # ts) vs)" for k
    unfolding v(1,2) tuple_docs.simps list.case
    by (rule tuple_back_Cons [OF "22.IH"(1) [OF v(1-3)] "22.IH"(2) [OF v(1,2,4), rule_format]]) simp
  then show ?case
    by blast
next
  case (24 t ts i tags v)
  then show ?case
    by (cases i) auto
next
  case (25 vs cs)
  then show ?case
    by (auto intro: part_kept)
next
  case (26 f t fs vs cs)
  then obtain v vs' c cs' where v: "vs = v # vs'" "cs = c # cs'" "recoverable_fields fs vs' cs'"
    by (auto split: list.splits)
  let ?flat = "case flat_fields (f, t) of None \<Rightarrow> None | Some gs \<Rightarrow> Some (\<lambda>h vs s. read_fields R gs h vs s)"
  let ?one = "\<lambda>h s. parser_read_reflect_field R f t ?flat (\<lambda>h v s. parser_read R t (fd_tags f) h v s) h c s"
  let ?ds = "if tg_ignore (fd_tags f) then []
      else case flat_fields (f, t) of
        Some gs \<Rightarrow> field_docs gs (items v)
      | None \<Rightarrow> if parser_should_skip_empty_field t v then [] else [(field_name f, doc_of t (fd_tags f) v)]"
  let ?ns = "if tg_ignore (fd_tags f) then []
      else case flat_fields (f, t) of
        Some gs \<Rightarrow> absent_names gs (items v)
      | None \<Rightarrow> if parser_should_skip_empty_field t v then [field_name f] else []"
  have "part ?one v ?ds ?ns"
  proof (cases "tg_ignore (fd_tags f)")
    case True
    then have "v = c"
      using "26.prems" v by simp
    with True show ?thesis
      by (auto intro: part_kept simp: parser_read_reflect_field_def)
  next
    case ignore: False
    show ?thesis
    proof (cases "flat_fields (f, t)")
      case (Some gs)
      then obtain us where us: "v = V_list us" "recoverable_fields gs us (items c)"
        using "26.prems" v(1,2) ignore by (auto split: tvalue.splits)
      show ?thesis
        using part_flat [where loop = "\<lambda>h vs s. read_fields R gs h vs s" and c = c, OF ignore "26.IH"(2) [OF v(1,2) ignore Some us]] ignore Some us(1) by simp
    next
      case None
      show ?thesis
      proof (cases "parser_should_skip_empty_field t v")
        case True
        then have "v = (if tg_skippable (fd_tags f) then c else set_null t)" "optional_like t"
          using "26.prems" v(1,2) ignore None by (auto simp: parser_should_skip_empty_field_def split: if_splits)
        then show ?thesis
          using part_absent [OF ignore] ignore None True by simp
      next
        case False
        then have d: "recoverable t (fd_tags f) v c" "doc_tag (doc_of t (fd_tags f) v) \<noteq> T_Null"
          using "26.prems" v(1,2) ignore None by auto
        show ?thesis
          using part_present [OF ignore "26.IH"(1) [OF v(1,2) ignore None False d(1)] d(2)] ignore None False by simp
      qed
    qed
  qed
  from part_Cons [OF this "26.IH"(3) [OF v], of "\<lambda>h s. read_fields R ((f, t) # fs) h cs s"] show ?case
    by (simp add: v(1,2))
next
  case (27 vs cs)
  then show ?case
    by (auto intro: tuple_back_Nil)
next
  case (28 f t fs vs cs)
  then obtain v vs' c cs' where v: "vs = v # vs'" "cs = c # cs'" "recoverable_positional fs vs' cs'"
    by (auto split: list.splits)
  have "tuple_back (read_positional R ((f, t) # fs) j k) k cs vs (positional_docs ((f, t) # fs) vs)" for j k
  proof (cases "tg_ignore (fd_tags f)")
    case True
    then have "v = c"
      using "28.prems" v by simp
    have "tuple_back (read_positional R fs (Suc j) k) k cs' vs' (positional_docs fs vs')"
      using "28.IH"(2) [OF v] by blast
    with True \<open>v = c\<close> show ?thesis
      unfolding v(1,2) by (fastforce simp: tuple_back_def recovers_def)
  next
    case False
    then have d: "recoverable t (fd_tags f) v c"
      using "28.prems" v by simp
    have "tuple_back (read_positional R ((f, t) # fs) j k) k (c # cs') (v # vs')
        (doc_of t (fd_tags f) v # positional_docs fs vs')"
      by (rule tuple_back_Cons [OF "28.IH"(1) [OF v(1,2) False d] "28.IH"(2) [OF v, rule_format]]) (simp add: False)
    with False show ?thesis
      by (simp add: v(1,2))
  qed
  then show ?case
    by blast
qed simp_all

end

end
