(* ===== verification/Parse_Binary.thy ===== *)
theory Parse_Binary
  imports Parse_Inverse Binary_Checkpoint
begin

unbundle bit_operations_syntax

text \<open>
  The binary reader has the contract of \<open>document_reader\<close>: the interpretation.
\<close>

subsection \<open>The cells of a node\<close>

lemma insert_range: "insert k {Suc k..<Suc (k + m)} = {k..<Suc (k + m)}"
  by auto

lemma node_cells_range:
  "set (node_cells (node_of t c d k)) = {k..<k + length (tree_cells t c)}"
  "apart (map (\<lambda>n. set (node_cells n)) (nodes_of ts c d k)) \<and>
     \<Union> ((\<lambda>n. set (node_cells n)) ` set (nodes_of ts c d k)) = {k..<k + length (trees_cells ts c)}"
  "apart (map (\<lambda>m. set (node_cells (snd (snd m)))) (members_of tag fs c d k)) \<and>
     \<Union> ((\<lambda>m. set (node_cells (snd (snd m)))) ` set (members_of tag fs c d k)) = {k..<k + length (fields_cells tag fs c)}"
proof (induction t c d k and ts c d k and tag fs c d k rule: node_of_nodes_of_members_of.induct)
  case (1 t c d k)
  note [simp] = node_of.simps tree_cells.simps tree_node_def default_node_def insert_range split_beta Let_def
  show ?case
  proof (cases t)
    case (W_Arr ts)
    with 1(1) [OF W_Arr] show ?thesis
      by simp
  next
    case (W_Named fs)
    with 1(2) [OF W_Named refl surjective_pairing [symmetric]] show ?thesis
      by simp
  next
    case (W_Ided fs)
    with 1(3) [OF W_Ided refl surjective_pairing [symmetric]] show ?thesis
      by simp
  qed simp_all
qed (auto simp: Let_def)

definition handle_cells :: "handle \<Rightarrow> nat set" where
  "handle_cells h = (case h_node h of None \<Rightarrow> {} | Some n \<Rightarrow> set (node_cells n))"

lemma handle_cells_of [simp]: "handle_cells (handle_of n) = set (node_cells n)"
  by (simp add: handle_cells_def handle_of_def)

text \<open>The states agree but for the cells \<open>C\<close> and the allocation budget.\<close>

definition same_but :: "nat set \<Rightarrow> rstate \<Rightarrow> rstate \<Rightarrow> bool" where
  "same_but C st st1 \<longleftrightarrow>
     rs_offset st1 = rs_offset st \<and> rs_framed st1 = rs_framed st \<and> rs_error st1 = rs_error st \<and>
     length (rs_cells st1) = length (rs_cells st) \<and>
     (\<forall>i < length (rs_cells st). i \<notin> C \<longrightarrow> rs_cells st1 ! i = rs_cells st ! i)"

definition node_at :: "input \<Rightarrow> rstate \<Rightarrow> wtree \<Rightarrow> handle \<Rightarrow> bool" where
  "node_at S st t h \<longleftrightarrow> ready S st \<and> (\<exists>n. h = handle_of n \<and> placed S st t n)"

lemma node_atE:
  assumes "node_at S st t h"
  obtains n where "h = handle_of n" "ready S st" "placed S st t n"
  using assms by (auto simp: node_at_def)

lemma same_but_refl: "same_but C st st"
  by (simp add: same_but_def)

lemma ready_same: "ready S st \<Longrightarrow> same_but C st st1 \<Longrightarrow> ready S st1"
  by (simp add: ready_def same_but_def)

lemma placed_same:
  assumes "placed S st t n" "same_but C st st1" "C \<inter> set (node_cells n) = {}"
  shows "placed S st1 t n"
proof -
  from assms(1) obtain c d k where n: "n = node_of t c d k" "tree_ok (in_limits S) d t" "seg (in_bytes S) c (emit t)"
    "k + length (tree_cells t c) \<le> length (rs_cells st)"
    "\<forall>j < length (tree_cells t c). \<not> consumed (rs_cells st ! (k + j))"
    unfolding placed_def by blast
  have "rs_cells st1 ! (k + j) = rs_cells st ! (k + j)" if "j < length (tree_cells t c)" for j
  proof -
    have "k + j \<notin> C"
      using assms(3) that by (auto simp: n(1) node_cells_range(1))
    then show ?thesis
      using assms(2) n(4) that by (simp add: same_but_def)
  qed
  then show ?thesis
    unfolding placed_def using n assms(2)
    by (intro exI [of _ c] exI [of _ d] exI [of _ k]) (simp add: same_but_def)
qed

lemma spans_range [simp]:
  "spans handle_cells (map handle_of (nodes_of ts c d k)) = {k..<k + length (trees_cells ts c)}"
  "spans handle_cells (map (\<lambda>m. handle_of (snd (snd m))) (members_of tag fs c d k)) =
     {k..<k + length (fields_cells tag fs c)}"
  using node_cells_range(2) [of ts c d k] node_cells_range(3) [of tag fs c d k] by (simp_all add: spans_def)

lemma placed_cell:
  assumes "placed S st t n"
  shows "nd_cell (nd n) < length (rs_cells st)"
proof -
  from assms obtain c d k where n: "n = node_of t c d k" "k + length (tree_cells t c) \<le> length (rs_cells st)"
    unfolding placed_def by blast
  have "length (tree_cells t c) \<noteq> 0"
    by (subst tree_cells.simps) simp
  then show ?thesis
    using n(2) by (simp only: n(1) node_of_parts)
qed

text \<open>A container stays open while its children are read.\<close>

lemma open_validate:
  assumes "ready S st" "placed S st t n" "same_but C st st1" "nd_cell (nd n) \<notin> C"
  shows "validateHandle S (handle_of n) st1 = Inr n" "validate S (handle_of n) st1 = Inr n"
proof -
  have "\<not> consumed (rs_cells st1 ! nd_cell (nd n))"
    using assms(3,4) placed_node(4) [OF assms(2)] placed_cell [OF assms(2)] by (simp add: same_but_def)
  moreover have "ready S st1"
    by (rule ready_same [OF assms(1,3)])
  ultimately show "validateHandle S (handle_of n) st1 = Inr n" "validate S (handle_of n) st1 = Inr n"
    using placed_node(3) [OF assms(2)] by (auto simp: validate_def validateHandle_def handle_of_def ready_def)
qed

lemma placed_children:
  assumes "placed S st t n"
  shows "nd_cell (nd n) \<notin> spans handle_cells (map handle_of (elements n))"
    "spans handle_cells (map handle_of (elements n)) \<subseteq> set (node_cells n)"
    "apart (map handle_cells (map handle_of (elements n)))"
    "nd_cell (nd n) \<notin> spans handle_cells (map (\<lambda>m. handle_of (snd (snd m))) (members n))"
    "spans handle_cells (map (\<lambda>m. handle_of (snd (snd m))) (members n)) \<subseteq> set (node_cells n)"
    "apart (map handle_cells (map (\<lambda>m. handle_of (snd (snd m))) (members n)))"
proof -
  from assms obtain c d k where n: "n = node_of t c d k"
    unfolding placed_def by blast
  have es: "elements n = [] \<or> (\<exists>ts c d. elements n = nodes_of ts c d (Suc k))"
    and ms: "members n = [] \<or> (\<exists>tag fs c d. members n = members_of tag fs c d (Suc k))"
    unfolding n by (cases t; auto simp: node_of.simps split_beta Let_def)+
  have nc: "set (node_cells n) = insert (nd_cell (nd n)) (spans handle_cells (map handle_of (elements n)) \<union>
      spans handle_cells (map (\<lambda>m. handle_of (snd (snd m))) (members n)))"
    by (cases n) (auto simp: spans_def)
  then show "spans handle_cells (map handle_of (elements n)) \<subseteq> set (node_cells n)"
    "spans handle_cells (map (\<lambda>m. handle_of (snd (snd m))) (members n)) \<subseteq> set (node_cells n)"
    by auto
  have k: "nd_cell (nd n) = k"
    by (simp add: n node_of_parts)
  show "nd_cell (nd n) \<notin> spans handle_cells (map handle_of (elements n))"
    using es by (auto simp: k)
  show "apart (map handle_cells (map handle_of (elements n)))"
    using es node_cells_range(2) by (auto simp: o_def)
  show "nd_cell (nd n) \<notin> spans handle_cells (map (\<lambda>m. handle_of (snd (snd m))) (members n))"
    using ms by (auto simp: k)
  show "apart (map handle_cells (map (\<lambda>m. handle_of (snd (snd m))) (members n)))"
    using ms node_cells_range(3) by (auto simp: o_def)
qed

subsection \<open>The laws\<close>

lemma consume_same: "same_but (set (node_cells n)) st (consume n (st\<lparr>rs_remaining := m\<rparr>))"
  by (cases n) (auto simp: same_but_def consume_def set_consumed_def nth_list_update)

lemma remaining_consume [simp]: "rs_remaining (consume n st) = rs_remaining st"
  by (simp add: consume_def set_consumed_def)

lemma update_remaining: "st\<lparr>rs_remaining := rs_remaining st\<rparr> = st"
  by simp

lemma binary_value:
  assumes "node_at S st (tree_of (D_value v)) h" "value_cost v \<le> rs_remaining st"
  shows "\<exists>st1. toBasicType (basic_of_value v) S h st = (Inr v, st1) \<and> same_but (handle_cells h) st st1 \<and>
    rs_remaining st1 + value_cost v = rs_remaining st"
proof -
  obtain n where n: "h = handle_of n" "ready S st" "placed S st (tree_of (D_value v)) n"
    using assms(1) by (rule node_atE)
  show ?thesis
    using toBasicType_value [OF n(2,3) assms(2)] assms(2) by (simp add: n(1) consume_same)
qed

lemma binary_fixed:
  assumes "node_at S st (tree_of (D_fixed x)) h"
  shows "\<exists>st1. readFixed (basic_of x) (scalar_size x) S h st = (Inr (C_scalar x), st1) \<and>
    same_but (handle_cells h) st st1 \<and> rs_remaining st1 = rs_remaining st"
proof -
  obtain n where n: "h = handle_of n" "ready S st" "placed S st (tree_of (D_fixed x)) n"
    using assms by (rule node_atE)
  show ?thesis
    using readFixed_value [OF n(2,3)] consume_same [of n st "rs_remaining st"] by (simp add: n(1))
qed

lemma binary_empty:
  assumes "node_at S st W_Null h"
  shows "\<exists>st1. isEmpty S h st = (True, st1) \<and> same_but (handle_cells h) st st1 \<and> rs_remaining st1 = rs_remaining st"
proof -
  obtain n where n: "h = handle_of n" "ready S st" "placed S st W_Null n"
    using assms by (rule node_atE)
  show ?thesis
    using validate_placed(2) [OF n(2,3)] placed_node [OF n(3)] consume_same [of n st "rs_remaining st"]
    by (simp add: n(1) isEmpty_def)
qed

lemma binary_not_empty:
  assumes "node_at S st t h" "tree_tag t \<noteq> T_Null"
  shows "isEmpty S h st = (False, st)"
proof -
  obtain n where n: "h = handle_of n" "ready S st" "placed S st t n"
    using assms(1) by (rule node_atE)
  show ?thesis
    using validate_placed(2) [OF n(2,3)] placed_node [OF n(3)] assms(2) by (simp add: n(1) isEmpty_def)
qed

lemma binary_array:
  assumes "node_at S st (W_Arr ts) h"
  shows "\<exists>es. list_all2 (node_at S st) ts es \<and> apart (map handle_cells es) \<and> spans handle_cells es \<subseteq> handle_cells h \<and>
    arraySize h = length ts \<and>
    (\<forall>st1. same_but (spans handle_cells es) st st1 \<longrightarrow> toArray S h st1 = Inr h \<and>
       (\<forall>i < length es. arrayElement S h i st1 = (Inr (es ! i), st1)))"
proof -
  obtain n where n: "h = handle_of n" "ready S st" "placed S st (W_Arr ts) n"
    using assms by (rule node_atE)
  note len = placed_element(1) [OF n(3)] and kids = placed_children(1-3) [OF n(3)]
  let ?es = "map handle_of (elements n)"
  have "list_all2 (node_at S st) ts ?es"
    using placed_element(2) [OF n(3)] n(2) len by (auto simp: list_all2_conv_all_nth node_at_def)
  moreover have "toArray S h st1 = Inr h \<and> (\<forall>i < length ?es. arrayElement S h i st1 = (Inr (?es ! i), st1))"
    if "same_but (spans handle_cells ?es) st st1" for st1
    using open_validate [OF n(2,3) that kids(1)] placed_node [OF n(3)]
    by (simp add: n(1) toArray_def arrayElement_def byte_at_inside)
  moreover have "arraySize h = length ts"
    using len by (simp add: n(1) arraySize_def handle_of_def)
  ultimately show ?thesis
    using kids(2,3) by (intro exI [of _ ?es]) (simp add: n(1))
qed

lemma index_keys_none:
  "Key_Name n \<notin> set ks \<Longrightarrow> fst (index_keys T_IdObject ks ix named ids) n = named n"
  "Key_Name [] \<notin> set ks \<Longrightarrow> Key_Hash x \<notin> set ks \<Longrightarrow> snd (index_keys T_IdObject ks ix named ids) x = ids x"
proof (induction ks arbitrary: ix named ids)
  case (Cons k ks)
  {
    case 1
    then show ?case
      by (cases k) (auto simp: Cons.IH(1) Let_def split_beta index_member_def index_emplace_def split: option.splits)
  next
    case 2
    then show ?case
      by (cases k) (auto simp: Cons.IH(2) Let_def split_beta index_member_def index_emplace_def split: option.splits)
  }
qed simp_all

lemma each_member_fields:
  "each_member fn ms x = each_field fn (zip (map fst ms) (map (\<lambda>m. handle_of (snd (snd m))) ms)) x"
proof (induction ms arbitrary: x)
  case (Cons m ms)
  then show ?case
    by (cases m) (simp add: Let_def split: prod.splits)
qed simp

lemma binary_members:
  assumes "ready S st" "placed S st t n" "tree_tag t \<in> set object_tags"
  defines "ms \<equiv> map (\<lambda>m. handle_of (snd (snd m))) (members n)"
  shows "list_all2 (node_at S st) (map snd (keyed t)) ms" "apart (map handle_cells ms)"
    "spans handle_cells ms \<subseteq> set (node_cells n)"
    "same_but (spans handle_cells ms) st st1 \<Longrightarrow> toObject S (handle_of n) st1 = Inr (handle_of n)"
    "same_but (spans handle_cells ms) st st1 \<Longrightarrow> validateHandle S (handle_of n) st1 = Inr n"
    "i < length ms \<Longrightarrow> index key = Some i \<Longrightarrow> member_at n key index name = Inr (ms ! i)"
proof -
  have tag: "tree_tag t = T_NamedObject \<or> tree_tag t = T_IdObject"
    using assms(3) by (simp add: object_tags_def)
  note m = placed_member [OF assms(2) tag] and kids = placed_children(4-6) [OF assms(2)]
  have "node_at S st (snd (keyed t ! i)) (ms ! i)" if "i < length ms" for i
    using m(5) [of i] m(2) that assms(1) by (auto simp: ms_def node_at_def)
  then show "list_all2 (node_at S st) (map snd (keyed t)) ms"
    using m(2) by (simp add: list_all2_conv_all_nth ms_def)
  show "apart (map handle_cells ms)" "spans handle_cells ms \<subseteq> set (node_cells n)"
    using kids(2,3) by (simp_all only: ms_def)
  show "validateHandle S (handle_of n) st1 = Inr n" if "same_but (spans handle_cells ms) st st1"
    using open_validate [OF assms(1,2) that] kids(1) by (simp add: ms_def)
  show "toObject S (handle_of n) st1 = Inr (handle_of n)" if "same_but (spans handle_cells ms) st st1"
    using open_validate(2) [OF assms(1,2) that] kids(1) placed_node [OF assms(2)] tag
    by (auto simp: ms_def toObject_def isFramedObject_def) (simp_all add: handle_of_def)
  show "member_at n key index name = Inr (ms ! i)" if "i < length ms" "index key = Some i"
    using that member_at_found [of index key i n "fst (members n ! i)" "fst (snd (members n ! i))" "snd (snd (members n ! i))" name]
    by (simp add: ms_def)
qed

lemma binary_named:
  assumes "node_at S st (W_Named fs) h"
  shows "\<exists>ms. list_all2 (node_at S st) (map snd fs) ms \<and> apart (map handle_cells ms) \<and>
    spans handle_cells ms \<subseteq> handle_cells h \<and>
    (\<forall>st1. same_but (spans handle_cells ms) st st1 \<longrightarrow> toObject S h st1 = Inr h \<and>
       (\<forall>i < length ms. objectField S h (fst (fs ! i)) st1 = Inr (ms ! i)) \<and>
       (\<forall>fn (x :: 'x). forEachObjectMember S st1 fn h x = each_field fn (zip (map fst fs) ms) x))"
proof -
  obtain n where n: "h = handle_of n" "ready S st" "placed S st (W_Named fs) n"
    using assms by (rule node_atE)
  have tag: "tree_tag (W_Named fs) \<in> set object_tags"
    by (simp add: object_tags_def)
  note b = binary_members [OF n(2,3) tag] and m = placed_member [OF n(3), simplified]
  let ?ms = "map (\<lambda>m. handle_of (snd (snd m))) (members n)"
  have ks: "keyed (W_Named fs) = map (\<lambda>f. (Key_Name (fst f), snd f)) fs"
    by (simp add: keyed_def)
  have len: "length (members n) = length fs"
    using m(2) ks by simp
  have "fst (members n ! i) = fst (fs ! i)" if "i < length fs" for i
    using m(5) [of i] that ks by auto
  then have names: "map fst (members n) = map fst fs"
    using len by (auto simp: list_eq_iff_nth_eq simp del: map_eq_conv)
  have field: "nd_named (nd n) (fst (fs ! i)) = Some i" if "i < length fs" for i
    using index_keys_find(1) [OF m(3), of i "fst (fs ! i)"] m(4) [symmetric] that ks by simp
  have "toObject S h st1 = Inr h \<and> (\<forall>i < length ?ms. objectField S h (fst (fs ! i)) st1 = Inr (?ms ! i)) \<and>
      (\<forall>fn (x :: 'x). forEachObjectMember S st1 fn h x = each_field fn (zip (map fst fs) ?ms) x)"
    if "same_but (spans handle_cells ?ms) st st1" for st1
    using b(4,5) [OF that] b(6) [of _ "nd_named (nd n)"] field len placed_node(1) [OF n(3)]
    by (simp add: n(1) objectField_def forEachObjectMember_def each_member_fields names)
  then show ?thesis
    using b(1-3) ks by (intro exI [of _ ?ms]) (simp add: n(1) o_def)
qed

lemma binary_ided:
  assumes "node_at S st (W_Ided fs) h"
  shows "\<exists>ms. list_all2 (node_at S st) (map snd fs) ms \<and> apart (map handle_cells ms) \<and>
    spans handle_cells ms \<subseteq> handle_cells h \<and>
    (\<forall>st1. same_but (spans handle_cells ms) st st1 \<longrightarrow> toObject S h st1 = Inr h \<and>
       (\<forall>i < length ms. \<forall>name. name \<noteq> [] \<and> key_of name = fst (fs ! i) \<longrightarrow> objectField S h name st1 = Inr (ms ! i)) \<and>
       (\<forall>name. Key_Name [] \<notin> fst ` set fs \<and> key_of name \<notin> fst ` set fs \<longrightarrow> (\<exists>e. objectField S h name st1 = Inl (Err e))))"
proof -
  obtain n where n: "h = handle_of n" "ready S st" "placed S st (W_Ided fs) n"
    using assms by (rule node_atE)
  have tag: "tree_tag (W_Ided fs) \<in> set object_tags"
    by (simp add: object_tags_def)
  note b = binary_members [OF n(2,3) tag] and m = placed_member [OF n(3), simplified]
  let ?ms = "map (\<lambda>m. handle_of (snd (snd m))) (members n)"
  have ks: "keyed (W_Ided fs) = fs"
    by (simp add: keyed_def)
  have len: "length (members n) = length fs"
    using m(2) ks by simp
  have found: "if useHashedFieldId name then nd_ids (nd n) (fieldId name) = Some i else nd_named (nd n) name = Some i"
    if "i < length fs" "name \<noteq> []" "key_of name = fst (fs ! i)" for i name
    using index_keys_find(1) [OF m(3), of i name] index_keys_find(2) [OF m(3), of i "fieldId name"]
      m(4) [symmetric] that ks by (simp add: key_of_def split: if_splits)
  have missing: "if useHashedFieldId name then nd_ids (nd n) (fieldId name) = None else nd_named (nd n) name = None"
    if "Key_Name [] \<notin> fst ` set fs" "key_of name \<notin> fst ` set fs" for name
    using index_keys_none(1) [of name "map fst fs" 0 Map.empty Map.empty]
      index_keys_none(2) [of "map fst fs" "fieldId name" 0 Map.empty Map.empty] m(4) [symmetric] that ks
    by (simp add: key_of_def split: if_splits)
  have "toObject S h st1 = Inr h \<and>
      (\<forall>i < length ?ms. \<forall>name. name \<noteq> [] \<and> key_of name = fst (fs ! i) \<longrightarrow> objectField S h name st1 = Inr (?ms ! i)) \<and>
      (\<forall>name. Key_Name [] \<notin> fst ` set fs \<and> key_of name \<notin> fst ` set fs \<longrightarrow> (\<exists>e. objectField S h name st1 = Inl (Err e)))"
    if "same_but (spans handle_cells ?ms) st st1" for st1
  proof (intro conjI allI impI)
    note v = b(4,5) [OF that]
    show "toObject S h st1 = Inr h"
      using v(1) by (simp add: n(1))
    show "objectField S h name st1 = Inr (?ms ! i)"
      if "i < length ?ms" "name \<noteq> [] \<and> key_of name = fst (fs ! i)" for i name
      using v(2) b(6) [OF that(1), of "nd_named (nd n)" name] b(6) [OF that(1), of "nd_ids (nd n)" "fieldId name"]
        found [of i name] that len placed_node(1) [OF n(3)]
      by (simp add: n(1) objectField_def split: if_splits)
    show "\<exists>e. objectField S h name st1 = Inl (Err e)"
      if "Key_Name [] \<notin> fst ` set fs \<and> key_of name \<notin> fst ` set fs" for name
      using v(2) missing [of name] that placed_node(1) [OF n(3)]
      by (simp add: n(1) objectField_def member_at_def split: if_splits)
  qed
  then show ?thesis
    using b(1-3) ks by (intro exI [of _ ?ms]) (simp add: n(1))
qed

lemma restore_entries_same: "fold (\<lambda>c xs. xs[c := X ! c]) cs X = X"
  by (induction cs) auto

lemma restore_at_once: "restore (take_checkpoint h st) st = st"
  by (simp add: restore_def take_checkpoint_def captureCheckpoint_def restore_entries restore_entries_same split: option.splits)

text \<open>What refuses a conversion: a value with another tag, and a handle that is not valid, as that of a
  consumed value.\<close>

lemma toBasicType_refused:
  assumes "validate S h st = Inr n" "\<not> nd_raw (nd n)" "nd_tag (nd n) \<notin> set (basic_tags b)"
  shows "\<exists>e. toBasicType b S h st = (Inl (Err e), st)"
  using assms
  by (cases b)
    (auto simp: toBasicType_def read_signed_def read_unsigned_def readFloating_def read_float_def validate_then(1))

lemma readFixed_refused:
  assumes "validate S h st = Inr n" "\<not> nd_raw (nd n)" "nd_tag (nd n) \<notin> set (fixed_tags b)"
  shows "\<exists>e. readFixed b (basic_size b) S h st = (Inl (Err e), st)"
proof (cases "b = B_bool")
  case True
  then show ?thesis
    using toBasicType_refused [OF assms(1,2), of b] assms by (simp add: readFixed_def validate_then(1))
next
  case False
  then show ?thesis
    using assms
    by (cases b) (auto simp: readFixed_def read_fixed_int_def readFloating_def read_float_def fail_def validate_then(1))
qed

lemma tags_exist: "\<exists>T. T \<in> set (basic_tags b)" "\<exists>T. T \<in> set (fixed_tags b)"
  by (cases b; force)+

interpretation spent: refusing_reader "binary_reader S" "\<lambda>st h T. \<exists>e. validate S h st = Inl (Err e)" for S
proof unfold_locales
  fix st :: rstate and h b
  have inv: "\<exists>e. toBasicType b S h st = (Inl (Err e), st)" "\<exists>e. readFixed b m S h st = (Inl (Err e), st)"
    if "\<exists>e. validate S h st = Inl (Err e)" for m
    using that by (auto simp: toBasicType_def readFixed_def validate_then(2))
  show "\<exists>e. rd_toBasic (binary_reader S) b h st = (Inl (Err e), st)"
    if "\<forall>T \<in> set (basic_tags b). \<exists>e. validate S h st = Inl (Err e)"
    using that inv(1) tags_exist(1) [of b] by (auto simp: binary_reader_def)
  show "\<exists>e. rd_toFixed (binary_reader S) b (basic_size b) h st = (Inl (Err e), st)"
    if "\<forall>T \<in> set (fixed_tags b). \<exists>e. validate S h st = Inl (Err e)"
    using that inv(2) tags_exist(2) [of b] by (auto simp: binary_reader_def)
qed (auto simp: binary_reader_def toArray_def toObject_def isEmpty_def restore_at_once object_tags_def)

lemma node_at_tag:
  assumes "node_at S st t h"
  obtains n where "h = handle_of n" "validate S h st = Inr n" "\<not> nd_raw (nd n)" "nd_tag (nd n) = tree_tag t"
    "isFramedObject h \<longleftrightarrow> tree_tag t \<in> set object_tags"
proof -
  obtain n where n: "h = handle_of n" "ready S st" "placed S st t n"
    using assms by (rule node_atE)
  show ?thesis
    using that [OF n(1)] validate_placed(2) [OF n(2,3)] placed_node [OF n(3)]
    by (auto simp: n(1) isFramedObject_def object_tags_def handle_of_def)
qed

lemma node_at_refuses:
  "\<exists>t. node_at S st t h \<and> tree_tag t \<noteq> T_Array \<Longrightarrow> \<exists>e. toArray S h st = Inl (Err e)"
  "\<forall>T \<in> set object_tags. \<exists>t. node_at S st t h \<and> tree_tag t \<noteq> T \<Longrightarrow> \<exists>e. toObject S h st = Inl (Err e)"
  "\<exists>t. node_at S st t h \<and> tree_tag t \<noteq> T_Null \<Longrightarrow> isEmpty S h st = (False, st)"
  "\<forall>T \<in> set (basic_tags b). \<exists>t. node_at S st t h \<and> tree_tag t \<noteq> T \<Longrightarrow> \<exists>e. toBasicType b S h st = (Inl (Err e), st)"
  "\<forall>T \<in> set (fixed_tags b). \<exists>t. node_at S st t h \<and> tree_tag t \<noteq> T \<Longrightarrow>
     \<exists>e. readFixed b (basic_size b) S h st = (Inl (Err e), st)"
proof -
  have tags: "\<exists>n. validate S h st = Inr n \<and> \<not> nd_raw (nd n) \<and> nd_tag (nd n) \<notin> set Ts"
    if Ts: "\<forall>T \<in> set Ts. \<exists>t. node_at S st t h \<and> tree_tag t \<noteq> T" "\<exists>T. T \<in> set Ts" for Ts
  proof -
    from Ts obtain t where t: "node_at S st t h"
      by blast
    then obtain n where n: "h = handle_of n" "validate S h st = Inr n" "\<not> nd_raw (nd n)" "nd_tag (nd n) = tree_tag t"
      by (rule node_at_tag)
    have "nd_tag (nd n) \<notin> set Ts"
      using Ts(1) n by (auto elim!: node_at_tag)
    with n show ?thesis
      by blast
  qed
  show "\<exists>e. toBasicType b S h st = (Inl (Err e), st)"
    if "\<forall>T \<in> set (basic_tags b). \<exists>t. node_at S st t h \<and> tree_tag t \<noteq> T"
    using tags [OF that tags_exist(1)] toBasicType_refused by blast
  show "\<exists>e. readFixed b (basic_size b) S h st = (Inl (Err e), st)"
    if "\<forall>T \<in> set (fixed_tags b). \<exists>t. node_at S st t h \<and> tree_tag t \<noteq> T"
    using tags [OF that tags_exist(2)] readFixed_refused by blast
  show "\<exists>e. toArray S h st = Inl (Err e)" if "\<exists>t. node_at S st t h \<and> tree_tag t \<noteq> T_Array"
    using tags [of "[T_Array]"] that by (auto simp: toArray_def)
  show "isEmpty S h st = (False, st)" if "\<exists>t. node_at S st t h \<and> tree_tag t \<noteq> T_Null"
    using tags [of "[T_Null]"] that by (auto simp: isEmpty_def)
  show "\<exists>e. toObject S h st = Inl (Err e)" if "\<forall>T \<in> set object_tags. \<exists>t. node_at S st t h \<and> tree_tag t \<noteq> T"
  proof -
    have "\<exists>T. T \<in> set object_tags"
      by (auto simp: object_tags_def)
    from tags [OF that this] obtain n where n: "validate S h st = Inr n" "nd_tag (nd n) \<notin> set object_tags"
      by blast
    then have "\<not> isFramedObject h"
      using validate_node [OF n(1)] by (auto simp: isFramedObject_def object_tags_def)
    with n show ?thesis
      by (simp add: toObject_def)
  qed
qed

lemma binary_restores:
  assumes "node_at S st t h" "same_but (handle_cells h) st st1"
  shows "restore (take_checkpoint h st) st1 = st"
proof -
  obtain n where n: "h = handle_of n" "placed S st t n"
    using assms(1) by (rule node_atE)
  let ?X = "rs_cells st"
  have sb: "same_but (set (node_cells n)) st st1"
    using assms(2) by (simp add: n(1))
  have cells: "fold (\<lambda>c xs. xs[c := ?X ! c]) (node_cells n) (rs_cells st1) = ?X"
    using sb by (auto simp: list_eq_iff_nth_eq length_fold_update nth_fold_update same_but_def)
  show ?thesis
    using sb by (simp add: n(1) restore_def take_checkpoint_def captureCheckpoint_def restore_entries handle_of_def
        cells same_but_def)
qed

interpretation br: document_reader "binary_reader S" "node_at S" handle_cells same_but rs_remaining for S
proof unfold_locales
  fix C D st st1 st2 t h
  show "same_but C st st"
    by (rule same_but_refl)
  show "same_but C st st2" if "same_but C st st1" "same_but C st1 st2"
    using that by (auto simp: same_but_def)
  show "same_but D st st1" if "same_but C st st1" "C \<subseteq> D"
    using that by (auto simp: same_but_def)
  show "node_at S st1 t h" if "node_at S st t h" "same_but C st st1" "C \<inter> handle_cells h = {}"
    using that ready_same placed_same by (fastforce simp: node_at_def)
qed (simp_all add: binary_reader_def binary_value binary_fixed binary_empty binary_array binary_named
    binary_ided node_at_refuses binary_restores restore_at_once del: tree_of.simps split_paired_All)

end
