(* ===== verification/Parse_Serializer.thy ===== *)
theory Parse_Serializer
  imports Parse_Binary
begin

text \<open>
  Typed values through the binary backend: \<open>BinaryBackend::write\<close> and \<open>BinaryBackend::read\<close> with the
  parsers of the generic layer, and the round trip of every recoverable value. Then the values that
  do not make it.
\<close>

text \<open>\<open>parser_write\<close> of the root value, and \<open>parser_read\<close> of the root into a copy of the target.\<close>

definition write_value :: "ty \<Rightarrow> ptags \<Rightarrow> tvalue \<Rightarrow> out_state \<Rightarrow> unit sa_result \<times> out_state" where
  "write_value t tags v = backend_write Root_Framed (\<lambda>w. case parser_write t tags v At_Root None w of (r, _, w) \<Rightarrow> (r, w))"

definition read_value :: "input \<Rightarrow> ty \<Rightarrow> ptags \<Rightarrow> tvalue \<Rightarrow> rstate \<Rightarrow> unit sa_result \<times> tvalue \<times> rstate" where
  "read_value S t tags cur =
     backend_read Root_Framed S
       (\<lambda>h st. case parser_read (binary_reader S) t tags h cur st of
          (Inl e, _, st) \<Rightarrow> (Inl e, st)
        | (Inr _, v, st) \<Rightarrow> (Inr v, st)) cur"

definition new_output :: out_state where
  "new_output = \<lparr>os_writer = new_writer [], os_wroteRoot = False\<rparr>"

subsection \<open>What is written\<close>

lemma keys_ok_hashed:
  "keys_ok L T_IdObject (map key_of ns) ix named ids \<Longrightarrow> distinct (hashed_ids ns) \<and> set (hashed_ids ns) \<inter> dom ids = {}"
proof (induction ns arbitrary: ix named ids)
  case (Cons n ns)
  show ?case
  proof (cases "useHashedFieldId n")
    case True
    then show ?thesis
      using Cons.prems Cons.IH [of "Suc ix" named "index_emplace ids (fieldId n) ix"]
      by (auto simp: key_of_def hashed_ids_def key_ok_def index_member_def Let_def index_emplace_def
          split: option.splits)
  next
    case False
    then show ?thesis
      using Cons.prems
        Cons.IH [of "Suc ix" "fst (index_member T_IdObject n 0 ix named ids)" "snd (index_member T_IdObject n 0 ix named ids)"]
      by (auto simp: key_of_def hashed_ids_def index_member_def Let_def index_emplace_def split: option.splits if_splits)
  qed
qed (simp add: hashed_ids_def)

lemma tree_ok_doc_ok: "tree_ok L k (tree_of d) \<Longrightarrow> doc_ok d"
proof (induction d arbitrary: k rule: doc_ok.induct)
  case (3 fs)
  then show ?case
    using keys_ok_hashed [of L "map fst fs" 0 Map.empty Map.empty] by (fastforce simp: list_all_iff o_def)
qed (fastforce simp: list_all_iff)+

lemma write_value_bytes:
  assumes "writable t tags v" "doc_ok (doc_of t tags v)"
  shows "\<exists>os. write_value t tags v new_output = (Inr (), os) \<and>
    w_buffer (os_writer os) = BinaryMagic @ emit (tree_of (doc_of t tags v)) \<and> backend_finish_output os (Inr ()) = Inr ()"
proof -
  obtain parent w where w: "parser_write t tags v At_Root None (new_writer []) = (Inr (), parent, w)"
    "w_buffer w = BinaryMagic @ emit (tree_of (doc_of t tags v))" "writer_result w = Inr ()"
  proof -
    have "parser_write t tags v At_Root None (new_writer []) =
        (Inr (), fst (write_at At_Root (doc_of t tags v) None (new_writer [])), write_document (doc_of t tags v))"
      by (simp add: parser_write_documents(1) [OF assms(1)] write_ok_def write_document_def)
    moreover have "w_buffer (write_document (doc_of t tags v)) = BinaryMagic @ emit (tree_of (doc_of t tags v))"
      "writer_result (write_document (doc_of t tags v)) = Inr ()"
      using assms(2)
      by (simp_all add: write_document_eq wrote_def writer_result_def ensureDocumentHeader_def appendBytes_def new_writer_def)
    ultimately show ?thesis
      using that by blast
  qed
  then show ?thesis
    by (simp add: write_value_def backend_write_def new_output_def backend_finish_output_def)
qed

text \<open>The limits and the budget of the reader hold the document.\<close>

definition admits :: "ParseLimits \<Rightarrow> sizes \<Rightarrow> doc \<Rightarrow> bool" where
  "admits lim Z d \<longleftrightarrow> tree_ok lim 0 (tree_of d) \<and>
     tree_cost Z (tree_of d) + doc_cost d \<le> max_total_allocated_bytes lim \<and>
     max_total_allocated_bytes lim \<le> size_max \<and>
     length (BinaryMagic @ emit (tree_of d)) \<le> max_input_bytes lim"

lemma read_value_root:
  assumes "admits lim Z d" and "new_reader (Some (BinaryMagic @ emit (tree_of d))) (length (BinaryMagic @ emit (tree_of d))) lim Z = (S, st0)"
  obtains st h where "reader_root S st0 = (Inr h, st)" "node_at S st (tree_of d) h" "doc_cost d \<le> rs_remaining st"
    "reader_finish S st = Inr ()"
proof -
  have ok: "tree_ok lim 0 (tree_of d)" "tree_cost Z (tree_of d) \<le> max_total_allocated_bytes lim"
    "max_total_allocated_bytes lim \<le> size_max" "length (BinaryMagic @ emit (tree_of d)) \<le> max_input_bytes lim"
    and cost: "tree_cost Z (tree_of d) + doc_cost d \<le> max_total_allocated_bytes lim"
    using assms(1) by (auto simp: admits_def)
  obtain st n where st: "reader_root S st0 = (Inr (handle_of n), st)" "ready S st" "placed S st (tree_of d) n"
    "rs_remaining st = max_total_allocated_bytes lim - tree_cost Z (tree_of d)" "reader_finish S st = Inr ()"
    by (rule root_tree [OF assms(2) ok])
  have "node_at S st (tree_of d) (handle_of n)"
    using st(2,3) by (auto simp: node_at_def)
  moreover have "doc_cost d \<le> rs_remaining st"
    using cost st(4) by simp
  ultimately show ?thesis
    using that [OF st(1)] st(5) by blast
qed

lemma finish_same: "same_but C st st1 \<Longrightarrow> reader_finish S st = Inr () \<Longrightarrow> reader_finish S st1 = Inr ()"
  by (auto simp: reader_finish_def same_but_def split: option.splits if_splits)

text \<open>C3 (roundtrip). Serialization inverts: every typed value whose fixed lengths fit is written
  without an error, and reading the bytes into a target of the same type, whatever the reader's limits
  that hold the document, succeeds, gives the value and consumes the input. The condition
  \<open>recoverable\<close> is decided by type and value alone: containers hold their elements in their order,
  enumerators have names of their own, no other alternative of an untagged variant reads the tag of the
  active one, a field with a value is not written as null, and ignored or skipped fields have in the target
  what they had in the value.\<close>

theorem serializer_roundtrip:
  assumes "writable t tags v" "recoverable t tags v cur" "admits lim Z (doc_of t tags v)"
  shows "\<exists>os. write_value t tags v new_output = (Inr (), os) \<and> backend_finish_output os (Inr ()) = Inr () \<and>
    (case new_reader (Some (w_buffer (os_writer os))) (length (w_buffer (os_writer os))) lim Z of (S, st0) \<Rightarrow>
       \<exists>st. read_value S t tags cur st0 = (Inr (), v, st) \<and> backend_finish_input S st (Inr ()) = Inr ())"
proof -
  let ?d = "doc_of t tags v"
  have "tree_ok lim 0 (tree_of ?d)"
    using assms(3) by (simp add: admits_def)
  from write_value_bytes [OF assms(1) tree_ok_doc_ok [OF this]] obtain os where
    os: "write_value t tags v new_output = (Inr (), os)" "w_buffer (os_writer os) = BinaryMagic @ emit (tree_of ?d)"
      "backend_finish_output os (Inr ()) = Inr ()"
    by blast
  obtain S st0 where new: "new_reader (Some (BinaryMagic @ emit (tree_of ?d))) (length (BinaryMagic @ emit (tree_of ?d))) lim Z = (S, st0)"
    by fastforce
  obtain st h where st: "reader_root S st0 = (Inr h, st)" "node_at S st (tree_of ?d) h" "doc_cost ?d \<le> rs_remaining st"
    "reader_finish S st = Inr ()"
    by (rule read_value_root [OF assms(3) new])
  obtain st1 where st1: "parser_read (binary_reader S) t tags h cur st = (Inr (), v, st1)" "same_but (handle_cells h) st st1"
    by (rule br.regainsE [OF br.regained(1) [OF assms(2)] st(2,3)])
  have "read_value S t tags cur st0 = (Inr (), v, st1)" "backend_finish_input S st1 (Inr ()) = Inr ()"
    using st(1) st1(1) finish_same [OF st1(2) st(4)]
    by (simp_all add: read_value_def backend_read_def act_then_def backend_finish_input_def)
  with os(1,3) show ?thesis
    by (intro exI [of _ os]) (simp add: os(2) new del: length_append)
qed

definition sample_target :: tvalue where
  "sample_target = V_list
     [V_basic (C_scalar (S_u32 0)), V_list [V_opt (Some (V_basic (C_string []))), V_list []],
      V_alt 0 (V_basic (C_scalar (S_bool False)))]"

lemma sample_document:
  "doc_of sample_ty NoTags sample_value = D_idobject
     [([0x69, 0x64], D_value (C_scalar (S_u32 7))),
      ([0x6C, 0x69, 0x73, 0x74], D_array [D_value (C_scalar (S_i16 1)), D_value (C_scalar (S_i16 (-2)))]),
      ([0x75], D_array [D_value (C_scalar (S_u64 1)), D_value (C_string [0x68, 0x69])])]"
  by (simp add: sample_ty_def sample_value_def sample_field_def NoTags_def basic_doc_def arithmetic_doc_def
      string_doc_def unionPayloadTags_def flat_fields_def parser_should_skip_empty_field_def optional_like_def
      has_value_def is_monostate_def field_name_def) code_simp

definition large_limits :: ParseLimits where
  "large_limits = sample_limits\<lparr>max_total_allocated_bytes := 5000\<rparr>"

lemma sample_admitted: "admits large_limits sample_sizes (doc_of sample_ty NoTags sample_value)"
proof -
  have "length (BinaryMagic @ emit (tree_of (doc_of sample_ty NoTags sample_value))) \<le> max_input_bytes large_limits"
    unfolding sample_document by code_simp
  moreover have "tree_cost sample_sizes (tree_of (doc_of sample_ty NoTags sample_value)) +
      doc_cost (doc_of sample_ty NoTags sample_value) \<le> max_total_allocated_bytes large_limits"
    unfolding sample_document by code_simp
  moreover have "key_of [0x69, 0x64] = Key_Name [0x69, 0x64]" "key_of [0x6C, 0x69, 0x73, 0x74] = Key_Name [0x6C, 0x69, 0x73, 0x74]"
    "key_of [0x75] = Key_Name [0x75]"
    by code_simp+
  then have "tree_ok large_limits 0 (tree_of (doc_of sample_ty NoTags sample_value))"
    unfolding sample_document
    by (simp add: large_limits_def sample_limits_def key_ok_def index_member_def index_emplace_def Let_def)
  ultimately show ?thesis
    by (simp add: admits_def large_limits_def sample_limits_def size_max_def)
qed

lemma serializer_roundtrip_witness:
  "\<exists>os. write_value sample_ty NoTags sample_value new_output = (Inr (), os) \<and> backend_finish_output os (Inr ()) = Inr () \<and>
    (case new_reader (Some (w_buffer (os_writer os))) (length (w_buffer (os_writer os))) large_limits sample_sizes of (S, st0) \<Rightarrow>
       \<exists>st. read_value S sample_ty NoTags sample_target st0 = (Inr (), sample_value, st) \<and>
         backend_finish_input S st (Inr ()) = Inr ())"
proof (rule serializer_roundtrip [OF _ _ sample_admitted])
  show "writable sample_ty NoTags sample_value"
    by (simp add: sample_ty_def sample_value_def sample_field_def NoTags_def basic_fits_def fixed_fits_def
        unionPayloadTags_def)
  have "key_of [0x69, 0x64] = Key_Name [0x69, 0x64]" "key_of [0x6C, 0x69, 0x73, 0x74] = Key_Name [0x6C, 0x69, 0x73, 0x74]"
    "key_of [0x75] = Key_Name [0x75]" "key_of [0x6E, 0x69, 0x63, 0x6B] = Key_Name [0x6E, 0x69, 0x63, 0x6B]"
    "bytes_of_chars ''id'' = [0x69, 0x64]" "bytes_of_chars ''list'' = [0x6C, 0x69, 0x73, 0x74]"
    "bytes_of_chars ''u'' = [0x75]" "bytes_of_chars ''nick'' = [0x6E, 0x69, 0x63, 0x6B]"
    by code_simp+
  then show "recoverable sample_ty NoTags sample_value sample_target"
    by (simp add: sample_ty_def sample_value_def sample_target_def sample_field_def NoTags_def basic_fits_def
        fixed_fits_def unionPayloadTags_def push_back_def names_found_def flat_fields_def field_name_def
        parser_should_skip_empty_field_def optional_like_def has_value_def is_monostate_def set_null_def doc_tag_def
        basic_doc_def arithmetic_doc_def string_doc_def)
qed

subsection \<open>What is not read back\<close>

text \<open>A record whose first field is a null pointer: \<open>parser_read_reflect_field\<close> asks whether the field
  is empty before it knows whether the type is optional, and the answer consumes the null.\<close>

lemma null_pointer_doc:
  assumes "\<not> tg_ignore (fd_tags f)" "k \<noteq> O_optional"
  shows "doc_of (Ty_Record kind ((f, Ty_Opt k t) # fs)) tags (V_list (V_opt None # vs)) =
    D_idobject ((field_name f, D_null) # field_docs fs vs)"
  using assms by (simp add: flat_fields_def parser_should_skip_empty_field_def optional_like_def)

lemma null_field_read:
  assumes at: "node_at S st (tree_of (D_idobject ((field_name f, D_null) # ds))) h"
    and f: "\<not> tg_ignore (fd_tags f)" "k \<noteq> O_optional" "field_name f \<noteq> []"
  shows "\<exists>e v st1. parser_read_reflect_field (binary_reader S) f (Ty_Opt k t) None
      (\<lambda>h v s. parser_read (binary_reader S) (Ty_Opt k t) (fd_tags f) h v s) h c st = (Inl (Err e), v, st1)"
proof -
  let ?R = "binary_reader S" and ?t = "Ty_Opt k t"
  from at have "node_at S st (W_Ided (map (\<lambda>d. (key_of (fst d), tree_of (snd d))) ((field_name f, D_null) # ds))) h"
    by simp
  from br.open_ided [OF this] obtain ms where ms:
    "list_all2 (node_at S st) (map snd (map (\<lambda>d. (key_of (fst d), tree_of (snd d))) ((field_name f, D_null) # ds))) ms"
    "\<forall>st1. same_but (spans handle_cells ms) st st1 \<longrightarrow> rd_toObject ?R h st1 = Inr h \<and>
       (\<forall>i < length ms. \<forall>n. n \<noteq> [] \<and> key_of n = fst (map (\<lambda>d. (key_of (fst d), tree_of (snd d))) ((field_name f, D_null) # ds) ! i) \<longrightarrow>
          rd_objectField ?R h n st1 = Inr (ms ! i))"
    by blast
  then obtain m ms' where m: "ms = m # ms'" "node_at S st W_Null m"
    by (cases ms) auto
  have opened: "rd_toObject ?R h st = Inr h" "rd_objectField ?R h (field_name f) st = Inr m"
    using ms(2) [rule_format, OF same_but_refl] f(3) by (auto simp: m(1) dest: spec [of _ 0])
  obtain n where n: "m = handle_of n" "ready S st" "placed S st W_Null n"
    using m(2) by (rule node_atE)
  have v: "validate S m st = Inr n"
    using validate_placed(2) [OF n(2,3)] by (simp add: n(1))
  have null: "isEmpty S m st = (True, consume n st)"
    using v placed_node [OF n(3)] by (simp add: isEmpty_def)
  have "once n st (Inr (), consume n st)"
    using placed_cell [OF n(3)] by (intro once_consume) (simp add: quiet_def)
  from validate_again [OF v this] have "\<exists>e. validate S m (consume n st) = Inl (Err e)"
    by blast
  then obtain e v' where "parser_read ?R ?t (fd_tags f) m c (consume n st) = (Inl (Err e), v', consume n st)"
    using spent.refused [where S = S and t = ?t and tags = "fd_tags f" and h = m and s = "consume n st" and cur = c]
    by blast
  then show ?thesis
    using f null opened
    by (simp add: parser_read_reflect_field_def binary_reader_def optional_like_def read_context_def parser_context_def
        del: parser_read.simps)
qed

lemma null_record_read:
  assumes at: "node_at S st (tree_of (D_idobject ((field_name f, D_null) # ds))) h"
    and f: "\<not> tg_ignore (fd_tags f)" "k \<noteq> O_optional" "field_name f \<noteq> []"
  shows "\<exists>e v st1. parser_read (binary_reader S) (Ty_Record kind ((f, Ty_Opt k t) # fs)) tags h (V_list (c # cs)) st =
    (Inl (Err e), v, st1)"
proof -
  let ?R = "binary_reader S" and ?fs = "(f, Ty_Opt k t) # fs"
  let ?loop = "\<lambda>h v s. as_list (parser_read_reflect_fields ?R (\<lambda>h vs s. read_fields ?R ?fs h vs s) h (items v) s)"
  have "node_at S st (W_Ided (map (\<lambda>d. (key_of (fst d), tree_of (snd d))) ((field_name f, D_null) # ds))) h"
    using at by simp
  from br.open_ided [OF this] have opened: "rd_toObject ?R h st = Inr h"
    using same_but_refl by blast
  have "\<exists>e v st1. ?loop h (V_list (x # xs)) st = (Inl (Err e), v, st1)" for x xs
  proof -
    obtain e v st1 where "parser_read_reflect_field ?R f (Ty_Opt k t) None
        (\<lambda>h v s. parser_read ?R (Ty_Opt k t) (fd_tags f) h v s) h x st = (Inl (Err e), v, st1)"
      using null_field_read [OF at f, of t x] by blast
    then show ?thesis
      using opened
      by (simp add: parser_read_reflect_fields_def as_list_def flat_fields_def del: parser_read.simps)
  qed
  from this [of c cs] this [of "fd_init f" "map (\<lambda>f. fd_init (fst f)) fs"] show ?thesis
    by (cases kind) (auto simp: read_record_def commit_def simp del: read_fields.simps)
qed

text \<open>C32 (error). A null \<open>std::shared_ptr\<close> in the first field of a reflected record is written without
  an error, and no target takes the bytes back: reading them, within any limits that hold the document,
  fails and leaves the target as it was.\<close>

theorem null_pointer_field_unreadable:
  assumes "\<not> tg_ignore (fd_tags f)" "field_name f \<noteq> []"
    and "writable (Ty_Record kind ((f, Ty_Opt O_shared_ptr t) # fs)) tags (V_list (V_opt None # vs))"
    and "admits lim Z (doc_of (Ty_Record kind ((f, Ty_Opt O_shared_ptr t) # fs)) tags (V_list (V_opt None # vs)))"
  shows "\<exists>os. write_value (Ty_Record kind ((f, Ty_Opt O_shared_ptr t) # fs)) tags (V_list (V_opt None # vs)) new_output = (Inr (), os) \<and>
    backend_finish_output os (Inr ()) = Inr () \<and>
    (case new_reader (Some (w_buffer (os_writer os))) (length (w_buffer (os_writer os))) lim Z of (S, st0) \<Rightarrow>
       \<exists>e st. read_value S (Ty_Record kind ((f, Ty_Opt O_shared_ptr t) # fs)) tags (V_list (c # cs)) st0 =
         (Inl (Err e), V_list (c # cs), st))"
proof -
  let ?t = "Ty_Record kind ((f, Ty_Opt O_shared_ptr t) # fs)" and ?v = "V_list (V_opt None # vs)"
  let ?d = "doc_of ?t tags ?v"
  have "tree_ok lim 0 (tree_of ?d)"
    using assms(4) by (simp add: admits_def)
  from write_value_bytes [OF assms(3) tree_ok_doc_ok [OF this]] obtain os where
    os: "write_value ?t tags ?v new_output = (Inr (), os)" "w_buffer (os_writer os) = BinaryMagic @ emit (tree_of ?d)"
      "backend_finish_output os (Inr ()) = Inr ()"
    by blast
  obtain S st0 where new: "new_reader (Some (BinaryMagic @ emit (tree_of ?d))) (length (BinaryMagic @ emit (tree_of ?d))) lim Z = (S, st0)"
    by fastforce
  obtain st h where st: "reader_root S st0 = (Inr h, st)" "node_at S st (tree_of ?d) h"
    by (rule read_value_root [OF assms(4) new])
  have d: "?d = D_idobject ((field_name f, D_null) # field_docs fs vs)"
    using assms(1) by (intro null_pointer_doc) auto
  obtain e v st1 where "parser_read (binary_reader S) ?t tags h (V_list (c # cs)) st = (Inl (Err e), v, st1)"
    using null_record_read [OF st(2) [unfolded d] assms(1) _ assms(2)] by blast
  then have "read_value S ?t tags (V_list (c # cs)) st0 = (Inl (Err e), V_list (c # cs), st1)"
    using st(1) by (simp add: read_value_def backend_read_def act_then_def del: parser_read.simps)
  with os(1,3) show ?thesis
    by (intro exI [of _ os]) (simp add: os(2) new del: length_append parser_read.simps doc_of.simps)
qed

definition null_field :: field where
  "null_field = \<lparr>fd_name = bytes_of_chars ''p'', fd_tags = NoTags, fd_init = V_opt None\<rparr>"

lemma null_admitted:
  "admits large_limits sample_sizes
    (doc_of (Ty_Record Rec_Copy [(null_field, Ty_Opt O_shared_ptr (Ty_Basic B_u32))]) NoTags (V_list [V_opt None]))"
proof -
  have d: "doc_of (Ty_Record Rec_Copy [(null_field, Ty_Opt O_shared_ptr (Ty_Basic B_u32))]) NoTags (V_list [V_opt None]) =
      D_idobject [([0x70], D_null)]"
    by (simp add: null_field_def NoTags_def flat_fields_def parser_should_skip_empty_field_def optional_like_def
        field_name_def) code_simp
  have "tree_ok large_limits 0 (tree_of (D_idobject [([0x70], D_null)]))"
    "tree_cost sample_sizes (tree_of (D_idobject [([0x70], D_null)])) + doc_cost (D_idobject [([0x70], D_null)]) \<le>
       max_total_allocated_bytes large_limits"
    "length (BinaryMagic @ emit (tree_of (D_idobject [([0x70], D_null)]))) \<le> max_input_bytes large_limits"
  proof -
    have "key_of [0x70] = Key_Name [0x70]"
      by code_simp
    then show "tree_ok large_limits 0 (tree_of (D_idobject [([0x70], D_null)]))"
      by (simp add: large_limits_def sample_limits_def key_ok_def index_member_def index_emplace_def Let_def)
  qed code_simp+
  then show ?thesis
    unfolding admits_def d by (simp only: large_limits_def sample_limits_def size_max_def) simp
qed

lemma null_pointer_field_unreadable_witness:
  "\<exists>os. write_value (Ty_Record Rec_Copy [(null_field, Ty_Opt O_shared_ptr (Ty_Basic B_u32))]) NoTags
      (V_list [V_opt None]) new_output = (Inr (), os) \<and>
    backend_finish_output os (Inr ()) = Inr () \<and>
    (case new_reader (Some (w_buffer (os_writer os))) (length (w_buffer (os_writer os))) large_limits sample_sizes of (S, st0) \<Rightarrow>
       \<exists>e st. read_value S (Ty_Record Rec_Copy [(null_field, Ty_Opt O_shared_ptr (Ty_Basic B_u32))]) NoTags
         (V_list [V_opt None]) st0 = (Inl (Err e), V_list [V_opt None], st))"
proof (rule null_pointer_field_unreadable [OF _ _ _ null_admitted])
  show "\<not> tg_ignore (fd_tags null_field)"
    by (simp add: null_field_def NoTags_def)
  show "field_name null_field \<noteq> []"
    by (simp add: null_field_def NoTags_def field_name_def bytes_of_chars_def)
  show "writable (Ty_Record Rec_Copy [(null_field, Ty_Opt O_shared_ptr (Ty_Basic B_u32))]) NoTags (V_list [V_opt None])"
    by simp
qed

text \<open>(error). The members of a reflected record are not visited one by one, as an \<open>IdObject\<close> has no
  names, and \<open>parser_read_string_key_map\<close> does not look at the answer of \<open>forEachObjectMember\<close>: reading the
  bytes of any record into a map with string keys succeeds, and the map is empty.\<close>

theorem idobject_as_map_empty:
  assumes "writable (Ty_Record kind fs) tags (V_list vs)" "admits lim Z (doc_of (Ty_Record kind fs) tags (V_list vs))"
  shows "\<exists>os. write_value (Ty_Record kind fs) tags (V_list vs) new_output = (Inr (), os) \<and>
    (case new_reader (Some (w_buffer (os_writer os))) (length (w_buffer (os_writer os))) lim Z of (S, st0) \<Rightarrow>
       \<exists>st. read_value S (Ty_Map True ins k t) tags' cur st0 = (Inr (), V_map [], st) \<and>
         backend_finish_input S st (Inr ()) = Inr ())"
proof -
  let ?t = "Ty_Record kind fs" and ?v = "V_list vs"
  let ?d = "doc_of ?t tags ?v"
  have "tree_ok lim 0 (tree_of ?d)"
    using assms(2) by (simp add: admits_def)
  from write_value_bytes [OF assms(1) tree_ok_doc_ok [OF this]] obtain os where
    os: "write_value ?t tags ?v new_output = (Inr (), os)" "w_buffer (os_writer os) = BinaryMagic @ emit (tree_of ?d)"
    by blast
  obtain S st0 where new: "new_reader (Some (BinaryMagic @ emit (tree_of ?d))) (length (BinaryMagic @ emit (tree_of ?d))) lim Z = (S, st0)"
    by fastforce
  obtain st h where st: "reader_root S st0 = (Inr h, st)" "node_at S st (tree_of ?d) h" "reader_finish S st = Inr ()"
    by (rule read_value_root [OF assms(2) new])
  obtain n where n: "h = handle_of n" "ready S st" "placed S st (tree_of ?d) n"
    using st(2) by (rule node_atE)
  have tag: "tree_tag (tree_of ?d) = T_IdObject"
    by simp
  have "tree_tag (tree_of ?d) \<in> set object_tags"
    by (simp add: object_tags_def)
  note m = binary_members(4,5) [OF n(2,3) this same_but_refl]
  have "toObject S h st = Inr h"
    using m(1) by (simp add: n(1))
  moreover have "forEachObjectMember S st fn h x = (False, x)" for fn and x :: "rstate visit"
    using m(2) tag placed_node(1) [OF n(3)] by (simp add: n(1) forEachObjectMember_def)
  ultimately have "parser_read (binary_reader S) (Ty_Map True ins k t) tags' h cur st = (Inr (), V_map [], st)"
    by (simp add: parser_read_string_key_map_def binary_reader_def)
  then have "read_value S (Ty_Map True ins k t) tags' cur st0 = (Inr (), V_map [], st)"
    "backend_finish_input S st (Inr ()) = Inr ()"
    using st(1,3) by (simp_all add: read_value_def backend_read_def act_then_def backend_finish_input_def del: parser_read.simps)
  with os(1) show ?thesis
    by (intro exI [of _ os]) (simp add: os(2) new del: length_append parser_read.simps doc_of.simps)
qed

lemma idobject_as_map_empty_witness:
  "\<exists>os. write_value (Ty_Record Rec_Copy [(null_field, Ty_Opt O_shared_ptr (Ty_Basic B_u32))]) NoTags
      (V_list [V_opt None]) new_output = (Inr (), os) \<and>
    (case new_reader (Some (w_buffer (os_writer os))) (length (w_buffer (os_writer os))) large_limits sample_sizes of (S, st0) \<Rightarrow>
       \<exists>st. read_value S (Ty_Map True (map_emplace (\<lambda>x y. False) True) (Ty_Basic B_string) (Ty_Basic B_u32)) NoTags
         (V_map []) st0 = (Inr (), V_map [], st) \<and> backend_finish_input S st (Inr ()) = Inr ())"
  by (rule idobject_as_map_empty [OF _ null_admitted]) simp

end
