(* ===== verification/Parse_Typed.thy ===== *)
theory Parse_Typed
  imports Parse_Serializer
begin

text \<open>
  What a failed parse leaves in its target: for most types the old value, with any reader.
\<close>

text \<open>The types whose parser assigns the target only at the end: the others, the fixed arrays, tuples,
  pairs and the records that cannot be copied, are parsed in place.\<close>

fun transactional :: "ty \<Rightarrow> bool" where
  "transactional (Ty_Array n t) = False"
| "transactional (Ty_Tuple ts) = False"
| "transactional (Ty_Pair k t) = False"
| "transactional (Ty_NameValuePair n t) = transactional t"
| "transactional (Ty_Record kind fs) = (kind \<noteq> Rec_InPlace)"
| "transactional (Ty_Positional kind fs) = (kind \<noteq> Rec_InPlace)"
| "transactional t = True"

lemma commit_failed: "commit v r = (Inl e, v', s) \<Longrightarrow> v' = v"
  by (auto simp: commit_def split: sum.splits)

lemma assign_failed: "assign v mk r = (Inl e, v', s) \<Longrightarrow> v' = v"
  by (auto simp: assign_def split: prod.splits sum.splits)

lemma arithmetic_failed: "parser_read_arithmetic R tag b h v s = (Inl e, v', s') \<Longrightarrow> v' = v"
  by (auto simp: parser_read_arithmetic_def Let_def dest: assign_failed split: if_splits)

lemma context_failed: "read_context msg r = (Inl e, v, s) \<Longrightarrow> \<exists>e. r = (Inl e, v, s)"
  by (cases r; cases "fst r") (auto simp: read_context_def parser_context_def split: halt.splits)

lemma basic_failed: "read_basic R tag b h v s = (Inl e, v', s') \<Longrightarrow> v' = v"
  unfolding read_basic_def parser_read_string_def
  by (cases "b = B_string") (auto dest!: context_failed arithmetic_failed assign_failed)

lemma enum_failed: "read_enum R tag b names h v s = (Inl e, v', s') \<Longrightarrow> v' = v"
  by (auto simp: read_enum_def read_failed_def dest!: commit_failed split: prod.splits sum.splits option.splits halt.splits)

lemma bitset_failed: "read_bitset R n h v s = (Inl e, v', s') \<Longrightarrow> v' = v"
  by (auto simp: read_bitset_def read_failed_def Let_def split: prod.splits sum.splits if_splits)

lemma null_failed: "read_null R msg h v s = (Inl e, v', s') \<Longrightarrow> v' = v"
  by (auto simp: read_null_def read_failed_def split: prod.splits bool.splits)

lemma sequence_failed: "parser_read_sequence R rd item ins msg h v s = (Inl e, v', s') \<Longrightarrow> v' = v"
  by (auto simp: parser_read_sequence_def split: prod.splits sum.splits)

lemma map_failed:
  "parser_read_string_key_map R rv val ins h v s = (Inl e, v', s') \<Longrightarrow> v' = v"
  "parser_read_key_value_array R rk rv key val ins' h v s = (Inl e, v', s') \<Longrightarrow> v' = v"
  by (auto simp: parser_read_string_key_map_def parser_read_key_value_array_def split: prod.splits sum.splits)

lemma optional_failed: "read_optional R kind rd val h v s = (Inl e, v', s') \<Longrightarrow> v' = v"
  by (auto simp: read_optional_def split: prod.splits sum.splits bool.splits)

lemma alternative_failed: "readAlternative R ts i index tags h v s = (Inl e, v', s') \<Longrightarrow> v' = v"
proof (induction ts arbitrary: i)
  case (Cons t ts)
  then show ?case
    by (auto split: nat.splits prod.splits sum.splits)
qed (simp add: read_failed_def)

lemma variant_failed:
  assumes "\<And>i h s e v' s'. alternative i h v s = (Inl e, v', s') \<Longrightarrow> v' = v"
  shows "readUntagged search alternative h v s = (Inl e, v', s') \<Longrightarrow> v' = v"
    "read_tagged R alternative h v s = (Inl e, v', s') \<Longrightarrow> v' = v"
  using assms
  by (auto simp: readUntagged_def read_tagged_def read_failed_def
      split: prod.splits sum.splits if_splits cvalue.splits scalar.splits)

lemma pair_field_failed:
  assumes "\<And>h s e v' s'. rd h v s = (Inl e, v', s') \<Longrightarrow> v' = v"
  shows "read_name_value_pair R name rd h v s = (Inl e, v', s') \<Longrightarrow> v' = v"
  using assms by (auto simp: read_name_value_pair_def dest!: context_failed split: sum.splits halt.splits)

lemma record_failed: "kind \<noteq> Rec_InPlace \<Longrightarrow> read_record kind val rd h v s = (Inl e, v', s') \<Longrightarrow> v' = v"
  by (cases kind) (auto simp: read_record_def dest: commit_failed)

text \<open>C23 (error). A parse that fails leaves its target as it was, with any reader and whatever part of
  the input it had read, unless the type is parsed in place: a fixed array, a tuple, a pair, or a record
  that cannot be copied.\<close>

theorem failed_parse_keeps_target:
  "transactional t \<Longrightarrow> parser_read R t tags h v s = (Inl e, v', s') \<Longrightarrow> v' = v"
proof (induction t arbitrary: tags h s e v' s')
  case (Ty_Map str ins k t)
  then show ?case
    by (cases str) (auto dest: map_failed)
next
  case (Ty_Variant ts)
  then show ?case
    by (auto split: if_splits dest!: variant_failed [rotated])
      (auto dest: alternative_failed)
next
  case (Ty_NameValuePair n t)
  then show ?case
    using pair_field_failed [where rd = "\<lambda>h v s. parser_read R t NoTags h v s" and v = v] by simp
qed (auto simp: read_c_string_def read_string_view_def read_failed_def read_byte_def read_vector_bool_def read_atomic_def
    dest: basic_failed null_failed enum_failed commit_failed bitset_failed sequence_failed optional_failed record_failed)

lemma failed_parse_keeps_target_witness:
  "let n = Node ((default_node 0)\<lparr>nd_tag := T_True\<rparr>) [] [];
       S = \<lparr>in_data = Some [2], in_size = 1, in_limits = sample_limits, in_sizes = sample_sizes\<rparr>;
       st = \<lparr>rs_offset = 1, rs_remaining = 5, rs_framed = True, rs_error = None,
             rs_cells = [\<lparr>consumed = False, cell_end = 1\<rparr>]\<rparr>;
       (r, v', st') = parser_read (binary_reader S) (Ty_Seq push_back (Ty_Basic B_u8)) NoTags (handle_of n)
         (V_list [V_basic (C_scalar (S_u8 7))]) st
   in r = Inl (Err (typeError ''array'')) \<and> v' = V_list [V_basic (C_scalar (S_u8 7))]"
proof -
  let ?n = "Node ((default_node 0)\<lparr>nd_tag := T_True\<rparr>) [] []"
  let ?S = "\<lparr>in_data = Some [2], in_size = 1, in_limits = sample_limits, in_sizes = sample_sizes\<rparr>"
  let ?st = "\<lparr>rs_offset = 1, rs_remaining = 5, rs_framed = True, rs_error = None,
    rs_cells = [\<lparr>consumed = False, cell_end = 1\<rparr>]\<rparr>"
  let ?v = "V_list [V_basic (C_scalar (S_u8 7))]"
  obtain r v' st' where run: "parser_read (binary_reader ?S) (Ty_Seq push_back (Ty_Basic B_u8)) NoTags (handle_of ?n) ?v ?st = (r, v', st')"
    by (metis surj_pair)
  then have r: "r = Inl (Err (typeError ''array''))"
    by (simp add: binary_reader_def parser_read_sequence_def toArray_def validate_def validateHandle_def
        handle_of_def default_node_def)
  have "v' = ?v"
    by (rule failed_parse_keeps_target [OF _ run [unfolded r]]) simp
  then show ?thesis
    unfolding Let_def run r by simp
qed

end
