(* ===== verification/Arg_Error.thy ===== *)
theory Arg_Error
  imports Neko_Prelude
begin

text \<open>
  \<open>argparser/error.hpp\<close>. An error is its code and the detail \<open>make_argparser_error\<close> leaves in the
  thread-local variable; \<open>make_error_code\<close> leaves none. \<open>last_error\<close> after a parse is the detail of the
  error the parse returned, as \<open>parser\<close> clears the variable first and returns every error it makes.
  Command lines are strings of \<open>char\<close>.
\<close>

datatype ArgParserError =
    Arg_Success
  | UnknownOption
  | MissingValue
  | InvalidValue
  | MissingRequired
  | UnexpectedPositional
  | InvalidDefinition
  | HelpRequested
  | UnknownCommand
  | VersionRequested

fun argparser_error_message :: "ArgParserError \<Rightarrow> string" where
  "argparser_error_message Arg_Success = ''success''"
| "argparser_error_message UnknownOption = ''unknown option''"
| "argparser_error_message MissingValue = ''missing option value''"
| "argparser_error_message InvalidValue = ''invalid option value''"
| "argparser_error_message MissingRequired = ''missing required option''"
| "argparser_error_message UnexpectedPositional = ''unexpected positional argument''"
| "argparser_error_message InvalidDefinition = ''invalid argument definition''"
| "argparser_error_message HelpRequested = ''help requested''"
| "argparser_error_message UnknownCommand = ''unknown command''"
| "argparser_error_message VersionRequested = ''version requested''"

datatype arg_error = ArgError (arg_code: ArgParserError) (arg_detail: "string option")

type_synonym 'a arg_result = "(arg_error, 'a) checked"

definition make_argparser_error :: "ArgParserError \<Rightarrow> string \<Rightarrow> arg_error" where
  "make_argparser_error e detail = ArgError e (Some detail)"

definition make_error_code :: "ArgParserError \<Rightarrow> arg_error" where
  "make_error_code e = ArgError e None"

definition arg_fail :: "ArgParserError \<Rightarrow> string \<Rightarrow> 'a arg_result" where
  "arg_fail e detail = Inl (Err (make_argparser_error e detail))"

definition arg_error_of :: "ArgParserError \<Rightarrow> 'a arg_result" where
  "arg_error_of e = Inl (Err (make_error_code e))"

lemma arg_fail_simps [simp]:
  "arg_fail e d \<noteq> Inr x" "Inr x \<noteq> arg_fail e d" "arg_error_of e \<noteq> Inr x" "Inr x \<noteq> arg_error_of e"
  "in_bounds (arg_fail e d)" "in_bounds (arg_error_of e)"
  by (simp_all add: arg_fail_def arg_error_of_def)

text \<open>\<open>ArgParserErrorDetail\<close>: what \<open>last_error\<close> returns after an operation with this outcome.\<close>

definition last_error :: "'a arg_result \<Rightarrow> ArgParserError \<times> string" where
  "last_error r =
     (case r of Inl (Err (ArgError e (Some detail))) \<Rightarrow> (e, detail) | _ \<Rightarrow> (Arg_Success, []))"

subsection \<open>Strings\<close>

definition starts_with :: "string \<Rightarrow> string \<Rightarrow> bool" where
  "starts_with s p \<longleftrightarrow> take (length p) s = p"

lemma starts_with_append [simp]: "starts_with (p @ s) p"
  by (simp add: starts_with_def)

lemma starts_withD: "starts_with s p \<Longrightarrow> s = p @ drop (length p) s"
  unfolding starts_with_def by (metis append_take_drop_id)

lemma starts_with_length: "starts_with s p \<Longrightarrow> length p \<le> length s"
  unfolding starts_with_def by (metis length_take min.cobounded1 min.commute)

text \<open>\<open>text.find(c)\<close> and the two parts around it: the part before, and the part after when there is one.\<close>

definition split_at :: "char \<Rightarrow> string \<Rightarrow> string \<times> string option" where
  "split_at c s =
     (takeWhile (\<lambda>x. x \<noteq> c) s,
      if c \<in> set s then Some (tl (dropWhile (\<lambda>x. x \<noteq> c) s)) else None)"

lemma split_at_append [simp]: "c \<notin> set s \<Longrightarrow> split_at c (s @ c # t) = (s, Some t)"
  by (simp add: split_at_def) (metis (mono_tags, lifting) append_Nil2 dropWhile.simps(2) dropWhile_append2 list.sel(3)
      takeWhile.simps(2) takeWhile_append2)

lemma split_at_none [simp]: "c \<notin> set s \<Longrightarrow> split_at c s = (s, None)"
  by (simp add: split_at_def) (metis takeWhile_eq_all_conv)

lemma split_atD: "split_at c s = (b, Some v) \<Longrightarrow> s = b @ c # v \<and> c \<notin> set b"
proof -
  assume s: "split_at c s = (b, Some v)"
  then have c: "c \<in> set s" and b: "b = takeWhile (\<lambda>x. x \<noteq> c) s" and v: "v = tl (dropWhile (\<lambda>x. x \<noteq> c) s)"
    by (auto simp: split_at_def split: if_splits)
  from c have "dropWhile (\<lambda>x. x \<noteq> c) s \<noteq> []"
    by (simp add: dropWhile_eq_Nil_conv)
  moreover from this have "hd (dropWhile (\<lambda>x. x \<noteq> c) s) = c"
    using hd_dropWhile by blast
  ultimately have "dropWhile (\<lambda>x. x \<noteq> c) s = c # v"
    by (metis list.collapse v)
  then show ?thesis
    using b by (metis takeWhile_dropWhile_id set_takeWhileD)
qed

lemma front_inside [simp]: "s \<noteq> [] \<Longrightarrow> vec_at s 0 = Inr (hd s)"
  by (simp add: byte_at_def hd_conv_nth)

text \<open>The index of the first element with a property.\<close>

fun index_where :: "('a \<Rightarrow> bool) \<Rightarrow> 'a list \<Rightarrow> nat option" where
  "index_where P [] = None"
| "index_where P (x # xs) = (if P x then Some 0 else map_option Suc (index_where P xs))"

lemma index_where_None: "index_where P xs = None \<longleftrightarrow> (\<forall>x \<in> set xs. \<not> P x)"
  by (induction xs) auto

lemma index_where_Some:
  "index_where P xs = Some i \<longleftrightarrow> i < length xs \<and> P (xs ! i) \<and> (\<forall>j < i. \<not> P (xs ! j))"
proof (induction xs arbitrary: i)
  case (Cons x xs)
  then show ?case
    by (cases i) (auto simp: All_less_Suc2)
qed simp

lemma index_where_unique:
  "i < length xs \<Longrightarrow> P (xs ! i) \<Longrightarrow> (\<And>j. j < length xs \<Longrightarrow> P (xs ! j) \<Longrightarrow> j = i) \<Longrightarrow> index_where P xs = Some i"
  unfolding index_where_Some by (metis less_irrefl less_trans)

end
