(* ===== verification/Arg_Schema.thy ===== *)
theory Arg_Schema
  imports Arg_Error Complex_Main
begin

text \<open>
  The schema of an options type: \<open>argparser/detail/schema.hpp\<close>, with the tags of \<open>argparser/tags.hpp\<close>
  and the configuration of \<open>argparser/config.hpp\<close>. An options type is its reflected fields, a list of
  \<open>arg_field\<close>; a field that is ignored has a place in the object and none in the schema. Floating-point
  option fields are not modelled; the bounds of a range, which are doubles, are rational numbers, and how
  \<open>ostream\<close> prints them is a parameter of the configuration.
\<close>

subsection \<open>Option types and tags\<close>

datatype scalar_type =
    At_bool
  | At_int bool nat
  | At_string
  | At_enum "(string \<times> int) list" bool nat

datatype arg_type = At_scalar scalar_type | At_optional scalar_type | At_vector scalar_type

datatype tag_value = Tv_string string | Tv_bool bool | Tv_int int | Tv_enum "(string \<times> int) list" int

record ArgTags =
  tg_required :: bool
  tg_positional :: bool
  tg_flag :: bool
  tg_repeatable :: bool
  tg_hidden :: bool
  tg_range_min :: "rat option"
  tg_range_max :: "rat option"
  tg_long_name :: string
  tg_absolute_long_name :: string
  tg_short_name :: "char option"
  tg_aliases :: "string list"
  tg_help :: string
  tg_value_name :: string
  tg_env_name :: string
  tg_group :: string
  tg_deprecated_message :: "string option"
  tg_separator :: "char option"
  tg_default_value :: "tag_value option"
  tg_implicit_value :: "tag_value option"
  tg_choices :: "string list"
  tg_case_insensitive_choices :: bool
  tg_conflicts :: "string list"
  tg_requires_names :: "string list"

definition no_tags :: ArgTags where
  "no_tags = \<lparr>tg_required = False, tg_positional = False, tg_flag = False, tg_repeatable = False, tg_hidden = False,
     tg_range_min = None, tg_range_max = None, tg_long_name = [], tg_absolute_long_name = [], tg_short_name = None,
     tg_aliases = [], tg_help = [], tg_value_name = [], tg_env_name = [], tg_group = [], tg_deprecated_message = None,
     tg_separator = None, tg_default_value = None, tg_implicit_value = None, tg_choices = [],
     tg_case_insensitive_choices = False, tg_conflicts = [], tg_requires_names = []\<rparr>"

datatype arg_field =
    Option_Field string ArgTags arg_type
  | Nested_Field string ArgTags "arg_field list"
  | Ignored_Field

subsection \<open>Configuration\<close>

datatype ConfigIoDirection = Import | Export

record ConfigIoBuiltinSpec =
  cb_direction :: ConfigIoDirection
  cb_format :: string

record ArgParserConfigIoOptionNames =
  on_format :: string
  on_importName :: "string option"
  on_exportName :: "string option"

record ArgParserConfigIoOptions =
  io_importFormats :: "string list"
  io_exportFormats :: "string list"
  io_optionNames :: "ArgParserConfigIoOptionNames list"

definition enableImportFormat :: "string \<Rightarrow> ArgParserConfigIoOptions \<Rightarrow> ArgParserConfigIoOptions" where
  "enableImportFormat format io = io\<lparr>io_importFormats := io_importFormats io @ [format]\<rparr>"

definition enableExportFormat :: "string \<Rightarrow> ArgParserConfigIoOptions \<Rightarrow> ArgParserConfigIoOptions" where
  "enableExportFormat format io = io\<lparr>io_exportFormats := io_exportFormats io @ [format]\<rparr>"

definition enableFormat :: "string \<Rightarrow> ArgParserConfigIoOptions \<Rightarrow> ArgParserConfigIoOptions" where
  "enableFormat format io = enableExportFormat format (enableImportFormat format io)"

text \<open>\<open>cf_backend_available\<close>: the formats the library was built with; \<open>cf_show_double p x\<close>: the text \<open>ostream\<close> writes for \<open>x\<close> with precision \<open>p\<close>.\<close>

record ArgParserConfig =
  cf_programName :: string
  cf_description :: string
  cf_usage :: string
  cf_version :: string
  cf_nestedSeparator :: char
  cf_allowUnknown :: bool
  cf_addHelp :: bool
  cf_addVersion :: bool
  cf_allowShortCluster :: bool
  cf_configIo :: "ArgParserConfigIoOptions option"
  cf_deprecatedOptionHandler :: bool
  cf_backend_available :: "string \<Rightarrow> bool"
  cf_show_double :: "nat \<Rightarrow> rat \<Rightarrow> string"

subsection \<open>Specs and schemas\<close>

record ArgSpec =
  sp_long_name :: string
  sp_scope :: string
  sp_short_name :: string
  sp_aliases :: "string list"
  sp_help :: string
  sp_value_name :: string
  sp_env_name :: string
  sp_group :: string
  sp_deprecated_message :: string
  sp_required :: bool
  sp_positional :: bool
  sp_flag :: bool
  sp_repeatable :: bool
  sp_hidden :: bool
  sp_has_range :: bool
  sp_has_default :: bool
  sp_has_implicit :: bool
  sp_case_insensitive_choices :: bool
  sp_deprecated :: bool
  sp_range_min :: rat
  sp_range_max :: rat
  sp_separator :: char
  sp_default_value :: string
  sp_implicit_value :: string
  sp_choices :: "string list"
  sp_conflicts :: "string list"
  sp_requires_names :: "string list"
  sp_conflict_indices :: "nat list"
  sp_require_indices :: "nat list"

definition nul :: char where
  "nul = CHR 0x00"

definition new_spec :: ArgSpec where
  "new_spec = \<lparr>sp_long_name = [], sp_scope = [], sp_short_name = [], sp_aliases = [], sp_help = [], sp_value_name = [],
     sp_env_name = [], sp_group = [], sp_deprecated_message = [], sp_required = False, sp_positional = False,
     sp_flag = False, sp_repeatable = False, sp_hidden = False, sp_has_range = False, sp_has_default = False,
     sp_has_implicit = False, sp_case_insensitive_choices = False, sp_deprecated = False, sp_range_min = 0,
     sp_range_max = 0, sp_separator = nul, sp_default_value = [], sp_implicit_value = [], sp_choices = [],
     sp_conflicts = [], sp_requires_names = [], sp_conflict_indices = [], sp_require_indices = []\<rparr>"

record ArgSchema =
  sc_specs :: "ArgSpec list"
  sc_positional_specs :: "nat list"
  sc_builtin_specs :: "ConfigIoBuiltinSpec option list"
  sc_user_spec_count :: nat
  sc_nested_separator :: char

definition new_schema :: "char \<Rightarrow> ArgSchema" where
  "new_schema sep = \<lparr>sc_specs = [], sc_positional_specs = [], sc_builtin_specs = [], sc_user_spec_count = 0,
     sc_nested_separator = sep\<rparr>"

definition push_user_spec :: "ArgSpec \<Rightarrow> ArgSchema \<Rightarrow> ArgSchema" where
  "push_user_spec spec schema =
     schema\<lparr>sc_specs := sc_specs schema @ [spec], sc_builtin_specs := sc_builtin_specs schema @ [None]\<rparr>"

definition push_builtin_spec :: "ConfigIoBuiltinSpec \<Rightarrow> ArgSpec \<Rightarrow> ArgSchema \<Rightarrow> ArgSchema" where
  "push_builtin_spec builtin spec schema =
     schema\<lparr>sc_specs := sc_specs schema @ [spec], sc_builtin_specs := sc_builtin_specs schema @ [Some builtin]\<rparr>"

definition builtin_spec :: "ArgSchema \<Rightarrow> nat \<Rightarrow> ConfigIoBuiltinSpec option arg_result" where
  "builtin_spec schema index =
     (if length (sc_builtin_specs schema) \<le> index then Inr None else vec_at (sc_builtin_specs schema) index)"

subsection \<open>Lookup\<close>

definition has_long_name :: "string \<Rightarrow> ArgSpec \<Rightarrow> bool" where
  "has_long_name name spec \<longleftrightarrow> \<not> sp_positional spec \<and>
     (sp_long_name spec = name \<or> list_ex (\<lambda>alias. 1 < length alias \<and> alias = name) (sp_aliases spec))"

definition find_long_index :: "ArgSchema \<Rightarrow> string \<Rightarrow> nat option" where
  "find_long_index schema name = index_where (has_long_name name) (sc_specs schema)"

definition has_short_name :: "string \<Rightarrow> ArgSpec \<Rightarrow> bool" where
  "has_short_name name spec \<longleftrightarrow> \<not> sp_positional spec \<and>
     (sp_short_name spec \<noteq> [] \<and> sp_short_name spec = name \<or>
      list_ex (\<lambda>alias. length alias = 1 \<and> alias = name) (sp_aliases spec))"

definition find_short_index :: "ArgSchema \<Rightarrow> string \<Rightarrow> nat option" where
  "find_short_index schema name = index_where (has_short_name name) (sc_specs schema)"

definition spec_matches_reference :: "string \<Rightarrow> ArgSpec \<Rightarrow> bool" where
  "spec_matches_reference name spec \<longleftrightarrow>
     sp_long_name spec = name \<or> sp_short_name spec = name \<or> list_ex (\<lambda>alias. alias = name) (sp_aliases spec)"

definition find_exact_reference_index :: "ArgSchema \<Rightarrow> string \<Rightarrow> nat option" where
  "find_exact_reference_index schema name = index_where (spec_matches_reference name) (sc_specs schema)"

text \<open>References of \<open>requires\<close> and \<open>conflicts\<close>.\<close>

definition join_reference_scope :: "char \<Rightarrow> string \<Rightarrow> string \<Rightarrow> string" where
  "join_reference_scope sep scope name =
     (if name = [] then [] else if scope = [] then name else scope @ [sep] @ name)"

definition parent_scope :: "char \<Rightarrow> string \<Rightarrow> string" where
  "parent_scope sep scope =
     (if sep \<in> set scope then rev (tl (dropWhile (\<lambda>c. c \<noteq> sep) (rev scope))) else [])"

function leave_scopes :: "char \<Rightarrow> string \<Rightarrow> string \<Rightarrow> string \<times> string" where
  "leave_scopes sep scope reference =
     (if starts_with reference ''../'' then leave_scopes sep (parent_scope sep scope) (drop 3 reference)
      else (scope, reference))"
  by pat_completeness auto

termination
  by (relation "measure (\<lambda>(sep, scope, reference). length reference)") (auto dest: starts_with_length)

declare leave_scopes.simps [simp del]

definition resolve_reference_name :: "char \<Rightarrow> ArgSpec \<Rightarrow> string \<Rightarrow> string" where
  "resolve_reference_name sep source reference =
     (if reference = [] then []
      else if starts_with reference ''/'' then drop 1 reference
      else
        let (scope, reference) = leave_scopes sep (sp_scope source) reference in
        if starts_with reference ''./'' then join_reference_scope sep scope (drop 2 reference)
        else if sep \<in> set reference then reference
        else join_reference_scope sep scope reference)"

definition find_reference_index :: "ArgSchema \<Rightarrow> ArgSpec \<Rightarrow> string \<Rightarrow> nat option" where
  "find_reference_index schema source reference =
     (if starts_with reference ''--'' then find_long_index schema (drop 2 reference)
      else if starts_with reference ''-'' \<and> length reference = 2 then find_short_index schema (drop 1 reference)
      else
        let normalized = resolve_reference_name (sc_nested_separator schema) source reference in
        if normalized = [] then None
        else case find_exact_reference_index schema normalized of
          Some i \<Rightarrow> Some i
        | None \<Rightarrow> if length reference = 1 then find_short_index schema reference else None)"

definition join_arg_name :: "string \<Rightarrow> string \<Rightarrow> char \<Rightarrow> string" where
  "join_arg_name prefix name sep = (if prefix = [] then name else prefix @ [sep] @ name)"

definition quote_arg_value :: "string \<Rightarrow> string" where
  "quote_arg_value v = [CHR 0x27] @ v @ [CHR 0x27]"

definition format_error_option_label :: "ArgSpec \<Rightarrow> string" where
  "format_error_option_label spec =
     (if sp_positional spec then ''positional '' @ [CHR 0x27] @ sp_long_name spec @ [CHR 0x27]
      else ''--'' @ sp_long_name spec @
        (if sp_short_name spec \<noteq> [] then '' (-'' @ sp_short_name spec @ '')'' else []))"

subsection \<open>The spec of a field\<close>

definition is_vector :: "arg_type \<Rightarrow> bool" where
  "is_vector t = (case t of At_vector _ \<Rightarrow> True | _ \<Rightarrow> False)"

definition field_type_is_flag :: "arg_type \<Rightarrow> bool \<Rightarrow> bool" where
  "field_type_is_flag t tagged_flag \<longleftrightarrow> tagged_flag \<or> t = At_scalar At_bool"

text \<open>Decimal digits, as \<open>std::to_string\<close> and \<open>ostream\<close> write integers.\<close>

definition digit_char :: "nat \<Rightarrow> char" where
  "digit_char d = char_of (48 + d)"

function nat_digits :: "nat \<Rightarrow> string" where
  "nat_digits n = (if n < 10 then [digit_char n] else nat_digits (n div 10) @ [digit_char (n mod 10)])"
  by pat_completeness auto

termination
  by (relation "measure id") auto

declare nat_digits.simps [simp del]

definition int_digits :: "int \<Rightarrow> string" where
  "int_digits i = (if i < 0 then CHR ''-'' # nat_digits (nat (- i)) else nat_digits (nat i))"

fun default_value_to_string :: "tag_value \<Rightarrow> string" where
  "default_value_to_string (Tv_string s) = s"
| "default_value_to_string (Tv_bool b) = (if b then ''true'' else ''false'')"
| "default_value_to_string (Tv_int i) = int_digits i"
| "default_value_to_string (Tv_enum names i) =
     (case find (\<lambda>e. snd e = i) names of Some e \<Rightarrow> fst e | None \<Rightarrow> int_digits i)"

definition make_arg_spec :: "string \<Rightarrow> string \<Rightarrow> ArgTags \<Rightarrow> arg_type \<Rightarrow> ArgParserConfig \<Rightarrow> ArgSpec" where
  "make_arg_spec prefix reflected_name tags t config =
     (let name = (if tg_long_name tags = [] then reflected_name else tg_long_name tags);
          sep = cf_nestedSeparator config;
          long_name = (if tg_absolute_long_name tags = [] then join_arg_name prefix name sep
            else tg_absolute_long_name tags);
          scope = (if tg_absolute_long_name tags = [] then prefix else parent_scope sep long_name)
      in \<lparr>sp_long_name = long_name, sp_scope = scope,
          sp_short_name = (case tg_short_name tags of None \<Rightarrow> [] | Some c \<Rightarrow> [c]),
          sp_aliases = tg_aliases tags, sp_help = tg_help tags, sp_value_name = tg_value_name tags,
          sp_env_name = tg_env_name tags, sp_group = tg_group tags,
          sp_deprecated_message = (case tg_deprecated_message tags of None \<Rightarrow> [] | Some m \<Rightarrow> m),
          sp_required = tg_required tags, sp_positional = tg_positional tags,
          sp_flag = field_type_is_flag t (tg_flag tags), sp_repeatable = (tg_repeatable tags \<or> is_vector t),
          sp_hidden = tg_hidden tags,
          sp_has_range = (tg_range_min tags \<noteq> None \<or> tg_range_max tags \<noteq> None),
          sp_has_default = (tg_default_value tags \<noteq> None), sp_has_implicit = (tg_implicit_value tags \<noteq> None),
          sp_case_insensitive_choices = tg_case_insensitive_choices tags,
          sp_deprecated = (tg_deprecated_message tags \<noteq> None),
          sp_range_min = (case tg_range_min tags of None \<Rightarrow> 0 | Some x \<Rightarrow> x),
          sp_range_max = (case tg_range_max tags of None \<Rightarrow> 0 | Some x \<Rightarrow> x),
          sp_separator = (case tg_separator tags of None \<Rightarrow> nul | Some c \<Rightarrow> c),
          sp_default_value = (case tg_default_value tags of None \<Rightarrow> [] | Some v \<Rightarrow> default_value_to_string v),
          sp_implicit_value = (case tg_implicit_value tags of None \<Rightarrow> [] | Some v \<Rightarrow> default_value_to_string v),
          sp_choices = tg_choices tags, sp_conflicts = tg_conflicts tags, sp_requires_names = tg_requires_names tags,
          sp_conflict_indices = [], sp_require_indices = []\<rparr>)"

fun collect_schema_into :: "string \<Rightarrow> ArgParserConfig \<Rightarrow> arg_field list \<Rightarrow> ArgSchema \<Rightarrow> ArgSchema" where
  "collect_schema_into prefix config [] schema = schema"
| "collect_schema_into prefix config (Ignored_Field # fs) schema = collect_schema_into prefix config fs schema"
| "collect_schema_into prefix config (Nested_Field reflected_name tags gs # fs) schema =
     (let name = (if tg_long_name tags = [] then reflected_name else tg_long_name tags) in
      collect_schema_into prefix config fs
        (collect_schema_into (join_arg_name prefix name (cf_nestedSeparator config)) config gs schema))"
| "collect_schema_into prefix config (Option_Field reflected_name tags t # fs) schema =
     (let spec = make_arg_spec prefix reflected_name tags t config;
          schema = push_user_spec spec schema;
          schema = (if sp_positional spec
            then schema\<lparr>sc_positional_specs := sc_positional_specs schema @ [length (sc_specs schema) - 1]\<rparr>
            else schema)
      in collect_schema_into prefix config fs schema)"

subsection \<open>Built-in options for configuration files\<close>

text \<open>\<open>detail/config_io_registry.hpp\<close>\<close>

record ConfigIoBackend =
  be_format :: string
  be_aliases :: "string list"
  be_label :: string
  be_defaultImportName :: string
  be_defaultExportName :: string
  be_importHelp :: string
  be_exportHelp :: string
  be_available :: bool

definition JsonConfigIoBackend :: "bool \<Rightarrow> ConfigIoBackend" where
  "JsonConfigIoBackend avail =
     \<lparr>be_format = ''json'', be_aliases = [], be_label = ''JSON'', be_defaultImportName = ''import-json'',
      be_defaultExportName = ''export-json'', be_importHelp = ''import options from a JSON file'',
      be_exportHelp = ''export resolved options to a JSON file'', be_available = avail\<rparr>"

definition YamlConfigIoBackend :: "bool \<Rightarrow> ConfigIoBackend" where
  "YamlConfigIoBackend avail =
     \<lparr>be_format = ''yaml'', be_aliases = [''yml''], be_label = ''YAML'', be_defaultImportName = ''import-yaml'',
      be_defaultExportName = ''export-yaml'', be_importHelp = ''import options from a YAML file'',
      be_exportHelp = ''export resolved options to a YAML file'', be_available = avail\<rparr>"

definition BinaryConfigIoBackend :: ConfigIoBackend where
  "BinaryConfigIoBackend =
     \<lparr>be_format = ''binary'', be_aliases = [''bin''], be_label = ''binary'', be_defaultImportName = ''import-binary'',
      be_defaultExportName = ''export-binary'', be_importHelp = ''import options from a binary file'',
      be_exportHelp = ''export resolved options to a binary file'', be_available = True\<rparr>"

definition TomlConfigIoBackend :: "bool \<Rightarrow> ConfigIoBackend" where
  "TomlConfigIoBackend avail =
     \<lparr>be_format = ''toml'', be_aliases = [], be_label = ''TOML'', be_defaultImportName = ''import-toml'',
      be_defaultExportName = ''export-toml'', be_importHelp = ''import options from a TOML file'',
      be_exportHelp = ''export resolved options to a TOML file'', be_available = avail\<rparr>"

definition ConfigIoBackendRegistry :: "ArgParserConfig \<Rightarrow> ConfigIoBackend list" where
  "ConfigIoBackendRegistry config =
     [JsonConfigIoBackend (cf_backend_available config ''json''), YamlConfigIoBackend (cf_backend_available config ''yaml''),
      BinaryConfigIoBackend, TomlConfigIoBackend (cf_backend_available config ''toml'')]"

definition config_io_format_matches :: "ConfigIoBackend \<Rightarrow> string \<Rightarrow> bool" where
  "config_io_format_matches be format \<longleftrightarrow> format = be_format be \<or> list_ex (\<lambda>alias. format = alias) (be_aliases be)"

definition config_io_format_enabled :: "ConfigIoBackend \<Rightarrow> string list \<Rightarrow> bool" where
  "config_io_format_enabled be formats \<longleftrightarrow> list_ex (config_io_format_matches be) formats"

definition make_config_io_spec :: "string \<Rightarrow> string \<Rightarrow> ArgSpec" where
  "make_config_io_spec name help = new_spec\<lparr>sp_long_name := name, sp_help := help, sp_value_name := ''PATH''\<rparr>"

definition config_io_builtin_name_available :: "ArgSchema \<Rightarrow> string \<Rightarrow> bool" where
  "config_io_builtin_name_available schema name \<longleftrightarrow> name \<noteq> [] \<and> find_long_index schema name = None"

definition push_config_io_spec_if_available ::
  "ConfigIoBuiltinSpec \<Rightarrow> string \<Rightarrow> string \<Rightarrow> ArgSchema \<Rightarrow> ArgSchema" where
  "push_config_io_spec_if_available builtin name help schema =
     (if config_io_builtin_name_available schema name
      then push_builtin_spec builtin (make_config_io_spec name help) schema else schema)"

fun config_io_option_name ::
  "ConfigIoBackend \<Rightarrow> ConfigIoDirection \<Rightarrow> ArgParserConfigIoOptionNames list \<Rightarrow> string" where
  "config_io_option_name be direction [] =
     (if direction = Import then be_defaultImportName be else be_defaultExportName be)"
| "config_io_option_name be direction (ns # names) =
     (if \<not> config_io_format_matches be (on_format ns) then config_io_option_name be direction names
      else case (if direction = Import then on_importName ns else on_exportName ns) of
        Some name \<Rightarrow> name
      | None \<Rightarrow> config_io_option_name be direction names)"

definition append_config_io_backend_specs ::
  "ArgParserConfigIoOptions \<Rightarrow> ConfigIoBackend \<Rightarrow> ArgSchema \<Rightarrow> ArgSchema" where
  "append_config_io_backend_specs io be schema =
     (let schema = (if config_io_format_enabled be (io_importFormats io) \<and> be_available be
            then push_config_io_spec_if_available \<lparr>cb_direction = Import, cb_format = be_format be\<rparr>
              (config_io_option_name be Import (io_optionNames io)) (be_importHelp be) schema
            else schema)
      in if config_io_format_enabled be (io_exportFormats io) \<and> be_available be
         then push_config_io_spec_if_available \<lparr>cb_direction = Export, cb_format = be_format be\<rparr>
           (config_io_option_name be Export (io_optionNames io)) (be_exportHelp be) schema
         else schema)"

definition append_config_io_specs :: "ArgParserConfig \<Rightarrow> ArgSchema \<Rightarrow> ArgSchema" where
  "append_config_io_specs config schema =
     (case cf_configIo config of
        None \<Rightarrow> schema
      | Some io \<Rightarrow> fold (append_config_io_backend_specs io) (ConfigIoBackendRegistry config) schema)"

definition collect_schema :: "arg_field list \<Rightarrow> ArgParserConfig \<Rightarrow> ArgSchema" where
  "collect_schema options config =
     (let schema = collect_schema_into [] config options (new_schema (cf_nestedSeparator config)) in
      append_config_io_specs config (schema\<lparr>sc_user_spec_count := length (sc_specs schema)\<rparr>))"

definition collect_command_config_io_schema :: "ArgParserConfig \<Rightarrow> ArgSchema" where
  "collect_command_config_io_schema config = append_config_io_specs config (new_schema (cf_nestedSeparator config))"

subsection \<open>Validation\<close>

text \<open>A \<open>char\<close> is compared as a signed byte.\<close>

definition char_value :: "char \<Rightarrow> int" where
  "char_value c = (let n = of_char c in if n < 128 then n else n - 256)"

definition in_chars :: "char \<Rightarrow> char \<Rightarrow> char \<Rightarrow> bool" where
  "in_chars a ch b \<longleftrightarrow> char_value a \<le> char_value ch \<and> char_value ch \<le> char_value b"

definition is_option_name_character :: "char \<Rightarrow> bool" where
  "is_option_name_character ch \<longleftrightarrow>
     in_chars CHR ''a'' ch CHR ''z'' \<or> in_chars CHR ''A'' ch CHR ''Z'' \<or> in_chars CHR ''0'' ch CHR ''9'' \<or>
     ch = CHR ''-'' \<or> ch = CHR ''_''"

definition is_short_option_character :: "char \<Rightarrow> bool" where
  "is_short_option_character ch \<longleftrightarrow> in_chars CHR ''!'' ch CHR ''~'' \<and> ch \<noteq> CHR ''-'' \<and> ch \<noteq> CHR ''=''"

fun valid_path_loop :: "char \<Rightarrow> bool \<Rightarrow> string \<Rightarrow> bool" where
  "valid_path_loop sep previous [] = (\<not> previous)"
| "valid_path_loop sep previous (ch # path) =
     (if ch = sep then (if previous then False else valid_path_loop sep True path)
      else if \<not> is_option_name_character ch then False
      else valid_path_loop sep False path)"

definition is_valid_option_path :: "string \<Rightarrow> char \<Rightarrow> bool" where
  "is_valid_option_path path sep = (if path = [] then False else valid_path_loop sep True path)"

type_synonym names = "(string \<times> nat) list"

definition check_name :: "ArgSchema \<Rightarrow> string \<Rightarrow> names \<Rightarrow> string \<Rightarrow> nat \<Rightarrow> names arg_result" where
  "check_name schema kind entries name index =
     (case find (\<lambda>e. fst e = name) entries of
        None \<Rightarrow> Inr (entries @ [(name, index)])
      | Some e \<Rightarrow>
          and_then (vec_at (sc_specs schema) (snd e)) (\<lambda>a. and_then (vec_at (sc_specs schema) index) (\<lambda>b.
            arg_fail InvalidDefinition (kind @ '' option name '' @ quote_arg_value name @ '' is used by both '' @
              format_error_option_label a @ '' and '' @ format_error_option_label b))))"

fun check_aliases :: "ArgSchema \<Rightarrow> nat \<Rightarrow> ArgSpec \<Rightarrow> string list \<Rightarrow> names \<times> names \<Rightarrow> (names \<times> names) arg_result" where
  "check_aliases schema index spec [] ns = Inr ns"
| "check_aliases schema index spec (alias # as) (long_names, short_names) =
     (let label = format_error_option_label spec in
      if alias = [] then arg_fail InvalidDefinition (label @ '' has an empty alias'')
      else if length alias = 1 then
        and_then (vec_at alias 0) (\<lambda>c.
        if \<not> is_short_option_character c
        then arg_fail InvalidDefinition (label @ '' has an invalid short alias'')
        else and_then (check_name schema ''short'' short_names alias index) (\<lambda>short_names.
          check_aliases schema index spec as (long_names, short_names)))
      else if \<not> is_valid_option_path alias (sc_nested_separator schema)
      then arg_fail InvalidDefinition (label @ '' has an invalid long alias'')
      else and_then (check_name schema ''long'' long_names alias index) (\<lambda>long_names.
        check_aliases schema index spec as (long_names, short_names)))"

definition check_own_names :: "ArgSchema \<Rightarrow> nat \<Rightarrow> ArgSpec \<Rightarrow> names \<times> names \<Rightarrow> (names \<times> names) arg_result" where
  "check_own_names schema index spec ns =
     (case ns of (long_names, short_names) \<Rightarrow>
      if sp_positional spec then Inr ns
      else and_then (check_name schema ''long'' long_names (sp_long_name spec) index) (\<lambda>long_names.
        if sp_short_name spec = [] then Inr (long_names, short_names)
        else and_then (vec_at (sp_short_name spec) 0) (\<lambda>c.
        if \<not> is_short_option_character c
        then arg_fail InvalidDefinition (format_error_option_label spec @ '' has an invalid short option name'')
        else and_then (check_name schema ''short'' short_names (sp_short_name spec) index) (\<lambda>short_names.
          Inr (long_names, short_names)))))"

definition check_spec :: "ArgSchema \<Rightarrow> nat \<Rightarrow> ArgSpec \<Rightarrow> names \<times> names \<Rightarrow> (names \<times> names) arg_result" where
  "check_spec schema index spec ns =
     (if \<not> is_valid_option_path (sp_long_name spec) (sc_nested_separator schema)
      then arg_fail InvalidDefinition (format_error_option_label spec @ '' has an invalid long option path'')
      else if sp_positional spec \<and> sp_flag spec
      then arg_fail InvalidDefinition (format_error_option_label spec @ '' cannot be both positional and a flag'')
      else and_then (check_own_names schema index spec ns) (\<lambda>ns.
        check_aliases schema index spec (sp_aliases spec) ns))"

fun check_specs :: "ArgSchema \<Rightarrow> nat \<Rightarrow> ArgSpec list \<Rightarrow> names \<times> names \<Rightarrow> (names \<times> names) arg_result" where
  "check_specs schema index [] ns = Inr ns"
| "check_specs schema index (spec # specs) ns =
     and_then (check_spec schema index spec ns) (\<lambda>ns. check_specs schema (Suc index) specs ns)"

fun check_positionals :: "ArgSchema \<Rightarrow> nat list \<Rightarrow> unit arg_result" where
  "check_positionals schema [] = Inr ()"
| "check_positionals schema (index # rest) =
     and_then (vec_at (sc_specs schema) index) (\<lambda>spec.
       if sp_repeatable spec \<and> rest \<noteq> []
       then arg_fail InvalidDefinition (format_error_option_label spec @
         '' is repeatable and therefore must be the last positional option'')
       else check_positionals schema rest)"

text \<open>The indices of the references that were resolved before the first failure stay in the spec.\<close>

fun resolve_references ::
  "ArgSchema \<Rightarrow> nat \<Rightarrow> ArgSpec \<Rightarrow> string \<Rightarrow> string list \<Rightarrow> nat list \<Rightarrow> unit arg_result \<times> nat list" where
  "resolve_references schema index spec kind [] targets = (Inr (), targets)"
| "resolve_references schema index spec kind (reference # rs) targets =
     (case find_reference_index schema spec reference of
        Some target \<Rightarrow>
          if target = index
          then (arg_fail InvalidDefinition (format_error_option_label spec @ '' references unknown '' @ kind @ '' '' @
            quote_arg_value reference), targets)
          else resolve_references schema index spec kind rs (targets @ [target])
      | None \<Rightarrow>
          (arg_fail InvalidDefinition (format_error_option_label spec @ '' references unknown '' @ kind @ '' '' @
            quote_arg_value reference), targets))"

definition resolve_spec :: "ArgSchema \<Rightarrow> nat \<Rightarrow> ArgSpec \<Rightarrow> unit arg_result \<times> ArgSpec" where
  "resolve_spec schema index spec =
     (case resolve_references schema index spec ''requirement'' (sp_requires_names spec) [] of
        (Inl e, rs) \<Rightarrow> (Inl e, spec\<lparr>sp_require_indices := rs, sp_conflict_indices := []\<rparr>)
      | (Inr _, rs) \<Rightarrow>
        (case resolve_references schema index spec ''conflict'' (sp_conflicts spec) [] of
           (r, cs) \<Rightarrow> (r, spec\<lparr>sp_require_indices := rs, sp_conflict_indices := cs\<rparr>)))"

fun resolve_specs :: "ArgSchema \<Rightarrow> nat \<Rightarrow> nat \<Rightarrow> ArgSpec list \<Rightarrow> unit arg_result \<times> ArgSpec list" where
  "resolve_specs schema index 0 specs = (Inr (), specs)"
| "resolve_specs schema index (Suc count) [] = (Inl Out_Of_Bounds, [])"
| "resolve_specs schema index (Suc count) (spec # specs) =
     (case resolve_spec schema index spec of
        (Inl e, spec) \<Rightarrow> (Inl e, spec # specs)
      | (Inr _, spec) \<Rightarrow> map_prod (\<lambda>r. r) (Cons spec) (resolve_specs schema (Suc index) count specs))"

definition validate_separator :: "char \<Rightarrow> unit arg_result" where
  "validate_separator sep =
     (if sep = nul \<or> sep = CHR ''/'' \<or> sep = CHR ''='' \<or> is_option_name_character sep \<or> char_value sep \<le> 32
      then arg_fail InvalidDefinition (''nestedSeparator must be a visible non-option-name character other than '' @
        quote_arg_value ''/'' @ '', '' @ quote_arg_value ''='')
      else Inr ())"

definition validate_schema_definition :: "ArgSchema \<Rightarrow> unit arg_result \<times> ArgSchema" where
  "validate_schema_definition schema =
     (case and_then (validate_separator (sc_nested_separator schema)) (\<lambda>_.
          and_then (check_specs schema 0 (sc_specs schema) ([], [])) (\<lambda>_.
            check_positionals schema (sc_positional_specs schema))) of
        Inl e \<Rightarrow> (Inl e, schema)
      | Inr _ \<Rightarrow>
        (case resolve_specs schema 0 (sc_user_spec_count schema) (sc_specs schema) of
           (r, specs) \<Rightarrow> (r, schema\<lparr>sc_specs := specs\<rparr>)))"

end
