(* ===== verification/Arg_Raw.thy ===== *)
theory Arg_Raw
  imports Arg_Schema
begin

text \<open>
  \<open>argparser/detail/raw_parser.hpp\<close>: a command line is distributed over the options of a schema, as the
  texts each of them was given. An argument is a string, or \<open>None\<close> for a null pointer in \<open>argv\<close>. The
  loop over the index \<open>idx\<close> is a recursion on the arguments that are left; an option that takes its value
  from the next argument returns the arguments after it.
\<close>

type_synonym raw_values = "string list"
type_synonym RawParseResult = "raw_values list"

definition seen :: "raw_values \<Rightarrow> bool" where
  "seen vs \<longleftrightarrow> vs \<noteq> []"

definition is_option_token :: "string \<Rightarrow> bool" where
  "is_option_token arg \<longleftrightarrow> 1 < length arg \<and> arg ! 0 = CHR ''-''"

definition is_help_token :: "string \<Rightarrow> bool" where
  "is_help_token arg \<longleftrightarrow> arg = ''--help'' \<or> arg = ''-h''"

definition is_version_token :: "string \<Rightarrow> bool" where
  "is_version_token arg \<longleftrightarrow> arg = ''--version'' \<or> arg = ''-V''"

definition is_declared_option_token :: "ArgSchema \<Rightarrow> string \<Rightarrow> bool" where
  "is_declared_option_token schema arg \<longleftrightarrow>
     (if starts_with arg ''--'' then find_long_index schema (fst (split_at CHR ''='' (drop 2 arg))) \<noteq> None
      else if starts_with arg ''-'' \<and> 1 < length arg
      then find_short_index schema (fst (split_at CHR ''='' (drop 1 arg))) \<noteq> None
      else False)"

definition isdigit :: "char \<Rightarrow> bool" where
  "isdigit c \<longleftrightarrow> in_chars CHR ''0'' c CHR ''9''"

definition starts_with_digit :: "string \<Rightarrow> bool" where
  "starts_with_digit s \<longleftrightarrow> (case s of [] \<Rightarrow> False | c # _ \<Rightarrow> isdigit c)"

definition looks_like_negative_number :: "string \<Rightarrow> bool" where
  "looks_like_negative_number token \<longleftrightarrow>
     (if length token < 2 \<or> token ! 0 \<noteq> CHR ''-'' then False
      else
        let rest = drop 1 token; rest = (if starts_with rest ''.'' then drop 1 rest else rest) in
        if \<not> starts_with_digit rest then False
        else
          let rest = dropWhile isdigit rest in
          if starts_with rest ''.'' then
            let rest = drop 1 rest in
            if \<not> starts_with_digit rest then False else dropWhile isdigit rest = []
          else rest = [])"

definition version_enabled :: "ArgParserConfig \<Rightarrow> bool" where
  "version_enabled config \<longleftrightarrow> cf_addVersion config \<and> cf_version config \<noteq> []"

definition looks_like_option_boundary_for_implicit :: "string \<Rightarrow> ArgParserConfig \<Rightarrow> bool" where
  "looks_like_option_boundary_for_implicit token config \<longleftrightarrow>
     (if token = ''--'' then True
      else if cf_addHelp config \<and> is_help_token token then True
      else if version_enabled config \<and> is_version_token token then True
      else if starts_with token ''--'' then True
      else is_option_token token \<and> \<not> looks_like_negative_number token)"

subsection \<open>Recording a value\<close>

definition record_raw_value :: "ArgSchema \<Rightarrow> nat \<Rightarrow> string \<Rightarrow> RawParseResult \<Rightarrow> RawParseResult arg_result" where
  "record_raw_value schema spec_index text result =
     (if length (sc_specs schema) \<le> spec_index \<or> length result \<le> spec_index
      then arg_fail InvalidDefinition (''schema index is out of range while reading '' @ quote_arg_value text)
      else
        and_then (vec_at (sc_specs schema) spec_index) (\<lambda>spec.
        and_then (vec_at result spec_index) (\<lambda>values.
        if \<not> sp_repeatable spec \<and> seen values
        then arg_fail InvalidValue (format_error_option_label spec @
          '' was provided more than once; duplicate value '' @ quote_arg_value text)
        else vec_set result spec_index (values @ [text]))))"

definition record_raw_positional ::
  "ArgSchema \<Rightarrow> string \<Rightarrow> RawParseResult \<times> nat \<Rightarrow> (RawParseResult \<times> nat) arg_result" where
  "record_raw_positional schema text st =
     (case st of (result, positional_index) \<Rightarrow>
       if length (sc_positional_specs schema) \<le> positional_index
       then arg_fail UnexpectedPositional (''no positional field accepts '' @ quote_arg_value text)
       else
         and_then (vec_at (sc_positional_specs schema) positional_index) (\<lambda>spec_index.
         and_then (record_raw_value schema spec_index text result) (\<lambda>result.
         and_then (vec_at (sc_specs schema) spec_index) (\<lambda>spec.
           Inr (result, if sp_repeatable spec then positional_index else positional_index + 1)))))"

type_synonym args = "string option list"

definition record_raw_option ::
  "ArgSchema \<Rightarrow> ArgParserConfig \<Rightarrow> nat \<Rightarrow> string \<Rightarrow> bool \<Rightarrow> args \<Rightarrow> RawParseResult \<Rightarrow> (RawParseResult \<times> args) arg_result" where
  "record_raw_option schema config spec_index text value_inline rest result =
     and_then (vec_at (sc_specs schema) spec_index) (\<lambda>spec.
       let implicit =
         (if sp_has_implicit spec
          then and_then (record_raw_value schema spec_index (sp_implicit_value spec) result) (\<lambda>result. Inr (result, rest))
          else arg_fail MissingValue (format_error_option_label spec @ '' expects a value''))
       in if sp_flag spec \<or> value_inline
          then and_then (record_raw_value schema spec_index text result) (\<lambda>result. Inr (result, rest))
          else case rest of
            Some nextValue # rest' \<Rightarrow>
              if \<not> sp_has_implicit spec \<or> \<not> looks_like_option_boundary_for_implicit nextValue config
              then and_then (record_raw_value schema spec_index nextValue result) (\<lambda>result. Inr (result, rest'))
              else implicit
          | _ \<Rightarrow> implicit)"

subsection \<open>Tokens\<close>

definition unknown_option :: "string \<Rightarrow> 'a arg_result" where
  "unknown_option name = arg_fail UnknownOption name"

definition parse_long_token ::
  "ArgSchema \<Rightarrow> ArgParserConfig \<Rightarrow> string \<Rightarrow> args \<Rightarrow> RawParseResult \<Rightarrow> (RawParseResult \<times> args) arg_result" where
  "parse_long_token schema config arg rest result =
     (let (body, inline) = split_at CHR ''='' (drop 2 arg) in
      case find_long_index schema body of
        None \<Rightarrow> if cf_allowUnknown config then Inr (result, rest) else unknown_option (''--'' @ body)
      | Some spec_index \<Rightarrow>
          record_raw_option schema config spec_index (case inline of None \<Rightarrow> [] | Some v \<Rightarrow> v) (inline \<noteq> None) rest result)"

text \<open>The options of a short cluster, one per character, up to the first that takes a value.\<close>

fun parse_cluster ::
  "ArgSchema \<Rightarrow> ArgParserConfig \<Rightarrow> string \<Rightarrow> args \<Rightarrow> RawParseResult \<Rightarrow> (RawParseResult \<times> args) arg_result" where
  "parse_cluster schema config [] rest result = Inr (result, rest)"
| "parse_cluster schema config (c # remainder) rest result =
     (case find_short_index schema [c] of
        None \<Rightarrow> if cf_allowUnknown config then parse_cluster schema config remainder rest result
          else unknown_option (''-'' @ [c])
      | Some spec_index \<Rightarrow>
          and_then (vec_at (sc_specs schema) spec_index) (\<lambda>spec.
            if \<not> sp_flag spec then
              if remainder \<noteq> []
              then and_then (record_raw_value schema spec_index remainder result) (\<lambda>result. Inr (result, rest))
              else record_raw_option schema config spec_index [] False rest result
            else and_then (record_raw_value schema spec_index [] result) (\<lambda>result.
              parse_cluster schema config remainder rest result)))"

definition parse_short_token ::
  "ArgSchema \<Rightarrow> ArgParserConfig \<Rightarrow> string \<Rightarrow> args \<Rightarrow> RawParseResult \<Rightarrow> (RawParseResult \<times> args) arg_result" where
  "parse_short_token schema config arg rest result =
     (let (body, inline) = split_at CHR ''='' (drop 1 arg) in
      if cf_allowShortCluster config \<and> 1 < length body \<and> inline = None
      then parse_cluster schema config body rest result
      else
        and_then
          (case find_short_index schema body of
             Some i \<Rightarrow> Inr (Some i, inline)
           | None \<Rightarrow>
               if 1 < length body \<and> inline = None then
                 and_then (vec_at body 0) (\<lambda>c. Inr (case find_short_index schema [c] of
                   Some i \<Rightarrow> (Some i, Some (drop 1 body))
                 | None \<Rightarrow> (None, inline)))
               else Inr (None, inline))
          (\<lambda>(spec_index, inline).
           case spec_index of
             None \<Rightarrow> if cf_allowUnknown config then Inr (result, rest) else unknown_option (''-'' @ body)
           | Some i \<Rightarrow>
               record_raw_option schema config i (case inline of None \<Rightarrow> [] | Some v \<Rightarrow> v) (inline \<noteq> None) rest result))"

text \<open>An option that takes the next argument leaves fewer.\<close>

lemma record_raw_option_rest:
  "record_raw_option schema config i text inline rest result = Inr (result', rest') \<Longrightarrow> length rest' \<le> length rest"
  by (auto simp: record_raw_option_def and_then_Inr_iff Let_def split: if_splits list.splits option.splits)

lemma parse_long_token_rest:
  "parse_long_token schema config arg rest result = Inr (result', rest') \<Longrightarrow> length rest' \<le> length rest"
  by (auto simp: parse_long_token_def unknown_option_def dest: record_raw_option_rest split: option.splits if_splits prod.splits)

lemma parse_cluster_rest:
  "parse_cluster schema config body rest result = Inr (result', rest') \<Longrightarrow> length rest' \<le> length rest"
  by (induction body arbitrary: result)
    (auto simp: unknown_option_def and_then_Inr_iff dest: record_raw_option_rest split: option.splits if_splits)

lemma parse_short_token_rest:
  "parse_short_token schema config arg rest result = Inr (result', rest') \<Longrightarrow> length rest' \<le> length rest"
  by (auto simp: parse_short_token_def unknown_option_def and_then_Inr_iff vec_at_Inr dest: record_raw_option_rest parse_cluster_rest
      split: option.splits if_splits prod.splits)

subsection \<open>The command line\<close>

definition arg_text :: "string option \<Rightarrow> string" where
  "arg_text arg = (case arg of None \<Rightarrow> [] | Some s \<Rightarrow> s)"

function parse_raw_loop ::
  "ArgSchema \<Rightarrow> ArgParserConfig \<Rightarrow> bool \<Rightarrow> args \<Rightarrow> RawParseResult \<times> nat \<Rightarrow> RawParseResult arg_result" where
  "parse_raw_loop schema config forcePositional [] st = Inr (fst st)"
| "parse_raw_loop schema config forcePositional (a # rest) st =
     (let arg = arg_text a in
      if forcePositional then
        and_then (record_raw_positional schema arg st) (\<lambda>st. parse_raw_loop schema config True rest st)
      else if arg = ''--'' then parse_raw_loop schema config True rest st
      else if cf_addHelp config \<and> is_help_token arg \<and> \<not> is_declared_option_token schema arg
      then arg_error_of HelpRequested
      else if version_enabled config \<and> is_version_token arg \<and> \<not> is_declared_option_token schema arg
      then arg_error_of VersionRequested
      else if starts_with arg ''--'' then
        and_then (parse_long_token schema config arg rest (fst st)) (\<lambda>(result, rest').
          parse_raw_loop schema config False rest' (result, snd st))
      else if starts_with arg ''-'' \<and> 1 < length arg then
        and_then (parse_short_token schema config arg rest (fst st)) (\<lambda>(result, rest').
          parse_raw_loop schema config False rest' (result, snd st))
      else and_then (record_raw_positional schema arg st) (\<lambda>st. parse_raw_loop schema config False rest st))"
  by pat_completeness auto

termination
  by (relation "measure (\<lambda>(schema, config, force, args, st). length args)")
    (auto dest: parse_long_token_rest parse_short_token_rest)

declare parse_raw_loop.simps(2) [simp del]

definition parse_raw_arguments ::
  "ArgSchema \<Rightarrow> args \<Rightarrow> nat \<Rightarrow> ArgParserConfig \<Rightarrow> RawParseResult arg_result" where
  "parse_raw_arguments schema argv start_index config =
     parse_raw_loop schema config False (drop start_index argv) (replicate (length (sc_specs schema)) [], 0)"

end
