(* ===== verification/Arg_Value.thy ===== *)
theory Arg_Value
  imports Arg_Raw
begin

text \<open>
  The values of options: the first part of \<open>argparser/detail/materializer.hpp\<close>, from \<open>equals_ignore_case\<close>
  to \<open>validate_field_value\<close>. A field has one of the types of \<open>Arg_Schema\<close>; an operation chosen by
  \<open>if constexpr\<close> on the type is one that takes the type as an argument. An integer is its value, in the
  range of its type; an enumerator is the value of the underlying type. Fields of a floating-point or a
  character type are not modelled.
\<close>

datatype scalar_value = Sv_bool bool | Sv_int int | Sv_string string | Sv_enum int

datatype arg_value =
    Av_scalar scalar_value
  | Av_optional "scalar_value option"
  | Av_vector "scalar_value list"

definition scalar_of :: "arg_type \<Rightarrow> scalar_type" where
  "scalar_of t = (case t of At_scalar s \<Rightarrow> s | At_optional s \<Rightarrow> s | At_vector s \<Rightarrow> s)"

definition elements :: "arg_value \<Rightarrow> scalar_value list" where
  "elements v = (case v of Av_scalar x \<Rightarrow> [x] | Av_optional None \<Rightarrow> [] | Av_optional (Some x) \<Rightarrow> [x] | Av_vector xs \<Rightarrow> xs)"

text \<open>The values of a type.\<close>

definition in_width :: "bool \<Rightarrow> nat \<Rightarrow> int \<Rightarrow> bool" where
  "in_width is_signed w i \<longleftrightarrow>
     (if is_signed then - (2 ^ (w - 1)) \<le> i \<and> i < 2 ^ (w - 1) else 0 \<le> i \<and> i < 2 ^ w)"

fun scalar_typed :: "scalar_type \<Rightarrow> scalar_value \<Rightarrow> bool" where
  "scalar_typed At_bool (Sv_bool b) = True"
| "scalar_typed (At_int sg w) (Sv_int i) = in_width sg w i"
| "scalar_typed At_string (Sv_string s) = True"
| "scalar_typed (At_enum names sg w) (Sv_enum i) = in_width sg w i"
| "scalar_typed _ _ = False"

fun value_typed :: "arg_type \<Rightarrow> arg_value \<Rightarrow> bool" where
  "value_typed (At_scalar s) (Av_scalar x) = scalar_typed s x"
| "value_typed (At_optional s) (Av_optional x) = (case x of None \<Rightarrow> True | Some x \<Rightarrow> scalar_typed s x)"
| "value_typed (At_vector s) (Av_vector xs) = list_all (scalar_typed s) xs"
| "value_typed _ _ = False"

subsection \<open>Texts\<close>

text \<open>\<open>std::tolower\<close> in the locale a program starts in.\<close>

definition to_lower :: "char \<Rightarrow> char" where
  "to_lower c = (if in_chars CHR ''A'' c CHR ''Z'' then char_of (of_char c + 32 :: nat) else c)"

definition equals_ignore_case :: "string \<Rightarrow> string \<Rightarrow> bool" where
  "equals_ignore_case lhs rhs \<longleftrightarrow>
     (if length lhs \<noteq> length rhs then False else list_all2 (\<lambda>l r. to_lower l = to_lower r) lhs rhs)"

definition parse_bool :: "string \<Rightarrow> bool arg_result" where
  "parse_bool text =
     (if text = [] then Inr True
      else if text = ''1'' \<or> equals_ignore_case text ''true'' \<or> equals_ignore_case text ''yes'' \<or> equals_ignore_case text ''on''
      then Inr True
      else if text = ''0'' \<or> equals_ignore_case text ''false'' \<or> equals_ignore_case text ''no'' \<or> equals_ignore_case text ''off''
      then Inr False
      else arg_error_of InvalidValue)"

text \<open>\<open>std::from_chars\<close> for an integer that has to take the whole text.\<close>

definition digits_value :: "string \<Rightarrow> nat" where
  "digits_value ds = foldl (\<lambda>n c. 10 * n + (of_char c - 48)) 0 ds"

definition from_chars :: "bool \<Rightarrow> nat \<Rightarrow> string \<Rightarrow> int option" where
  "from_chars is_signed w text =
     (let negative = (is_signed \<and> starts_with text ''-'');
          ds = (if negative then drop 1 text else text);
          i = (if negative then - int (digits_value ds) else int (digits_value ds))
      in if ds \<noteq> [] \<and> list_all isdigit ds \<and> in_width is_signed w i then Some i else None)"

definition parse_scalar :: "scalar_type \<Rightarrow> bool \<Rightarrow> string \<Rightarrow> scalar_value arg_result" where
  "parse_scalar t case_insensitive_enum text =
     (case t of
        At_bool \<Rightarrow> and_then (parse_bool text) (\<lambda>b. Inr (Sv_bool b))
      | At_string \<Rightarrow> Inr (Sv_string text)
      | At_int sg w \<Rightarrow> (case from_chars sg w text of Some i \<Rightarrow> Inr (Sv_int i) | None \<Rightarrow> arg_error_of InvalidValue)
      | At_enum names sg w \<Rightarrow>
          (case find (\<lambda>e. fst e = text \<or> case_insensitive_enum \<and> equals_ignore_case (fst e) text) names of
             Some e \<Rightarrow> Inr (Sv_enum (snd e))
           | None \<Rightarrow> (case from_chars sg w text of Some i \<Rightarrow> Inr (Sv_enum i) | None \<Rightarrow> arg_error_of InvalidValue)))"

definition assign_value :: "arg_type \<Rightarrow> bool \<Rightarrow> string \<Rightarrow> arg_value \<Rightarrow> arg_value arg_result" where
  "assign_value t case_insensitive_enum text v =
     and_then (parse_scalar (scalar_of t) case_insensitive_enum text) (\<lambda>x.
       Inr (case t of At_optional _ \<Rightarrow> Av_optional (Some x) | At_vector _ \<Rightarrow> Av_vector (elements v @ [x])
            | At_scalar _ \<Rightarrow> Av_scalar x))"

function assign_parts :: "arg_type \<Rightarrow> bool \<Rightarrow> char \<Rightarrow> string \<Rightarrow> arg_value \<Rightarrow> arg_value arg_result" where
  "assign_parts t case_insensitive_enum separator text v =
     (case split_at separator text of
        (part, rest) \<Rightarrow>
          and_then (assign_value t case_insensitive_enum part v) (\<lambda>v.
            case rest of None \<Rightarrow> Inr v | Some rest \<Rightarrow> assign_parts t case_insensitive_enum separator rest v))"
  by pat_completeness auto

termination
  by (relation "measure (\<lambda>(t, ci, sep, text, v). length text)") (auto dest!: split_atD [OF sym])

declare assign_parts.simps [simp del]

definition assign_text_value :: "arg_type \<Rightarrow> bool \<Rightarrow> char \<Rightarrow> string \<Rightarrow> arg_value \<Rightarrow> arg_value arg_result" where
  "assign_text_value t case_insensitive_enum separator text v =
     (if separator = nul then assign_value t case_insensitive_enum text v
      else if \<not> is_vector t then arg_error_of InvalidDefinition
      else assign_parts t case_insensitive_enum separator text v)"

text \<open>The default of a tag that is not a text is converted as an assignment converts it, with \<open>None\<close> where the
  assignment does not compile; a number given to a \<open>std::string\<close> is not modelled.\<close>

definition to_width :: "bool \<Rightarrow> nat \<Rightarrow> int \<Rightarrow> int" where
  "to_width is_signed w i = (if is_signed then (i + 2 ^ (w - 1)) mod 2 ^ w - 2 ^ (w - 1) else i mod 2 ^ w)"

fun convert_default :: "scalar_type \<Rightarrow> tag_value \<Rightarrow> scalar_value option" where
  "convert_default At_bool (Tv_bool b) = Some (Sv_bool b)"
| "convert_default At_bool (Tv_int i) = Some (Sv_bool (i \<noteq> 0))"
| "convert_default (At_int sg w) (Tv_bool b) = Some (Sv_int (of_bool b))"
| "convert_default (At_int sg w) (Tv_int i) = Some (Sv_int (to_width sg w i))"
| "convert_default (At_enum names sg w) (Tv_enum _ i) = Some (Sv_enum i)"
| "convert_default _ _ = None"

definition assign_default_value :: "arg_type \<Rightarrow> bool \<Rightarrow> char \<Rightarrow> tag_value \<Rightarrow> arg_value \<Rightarrow> arg_value arg_result" where
  "assign_default_value t case_insensitive_enum separator default_value v =
     (case default_value of
        Tv_string text \<Rightarrow> assign_text_value t case_insensitive_enum separator text v
      | _ \<Rightarrow>
        (case convert_default (scalar_of t) default_value of
           None \<Rightarrow> Inl Out_Of_Bounds
         | Some x \<Rightarrow> Inr (case t of At_vector _ \<Rightarrow> Av_vector (elements v @ [x]) | At_optional _ \<Rightarrow> Av_optional (Some x)
             | At_scalar _ \<Rightarrow> Av_scalar x)))"

subsection \<open>Ranges and choices\<close>

definition is_range_supported :: "arg_type \<Rightarrow> bool" where
  "is_range_supported t = (case scalar_of t of At_int _ _ \<Rightarrow> True | _ \<Rightarrow> False)"

definition is_choices_supported :: "arg_type \<Rightarrow> bool" where
  "is_choices_supported t = (case scalar_of t of At_string \<Rightarrow> True | At_enum _ _ _ \<Rightarrow> True | _ \<Rightarrow> False)"

text \<open>\<open>static_cast<double>\<close>: 53 significant bits, ties to even.\<close>

function bit_length :: "nat \<Rightarrow> nat" where
  "bit_length n = (if n = 0 then 0 else Suc (bit_length (n div 2)))"
  by pat_completeness auto

termination
  by (relation "measure id") auto

declare bit_length.simps [simp del]

definition round_53 :: "nat \<Rightarrow> nat" where
  "round_53 n =
     (let k = bit_length n - 53; q = n div 2 ^ k; r = 2 * (n mod 2 ^ k)
      in (if 2 ^ k < r \<or> 2 ^ k = r \<and> odd q then q + 1 else q) * 2 ^ k)"

definition to_double :: "int \<Rightarrow> rat" where
  "to_double i = of_int (if i < 0 then - int (round_53 (nat (- i))) else int (round_53 (nat i)))"

definition scalar_in_range :: "scalar_value \<Rightarrow> rat \<Rightarrow> rat \<Rightarrow> bool" where
  "scalar_in_range x lo hi =
     (case x of Sv_int i \<Rightarrow> (let numeric = to_double i in lo \<le> numeric \<and> numeric < hi) | _ \<Rightarrow> False)"

definition validate_range :: "arg_type \<Rightarrow> arg_value \<Rightarrow> ArgSpec \<Rightarrow> unit arg_result" where
  "validate_range t v spec =
     (if \<not> sp_has_range spec then Inr ()
      else if \<not> is_range_supported t then arg_error_of InvalidDefinition
      else if list_all (\<lambda>x. scalar_in_range x (sp_range_min spec) (sp_range_max spec)) (elements v) then Inr ()
      else arg_error_of InvalidValue)"

definition choice_contains :: "string list \<Rightarrow> string \<Rightarrow> bool \<Rightarrow> bool" where
  "choice_contains choices text case_insensitive_choices \<longleftrightarrow>
     list_ex (\<lambda>choice. if case_insensitive_choices then equals_ignore_case choice text else choice = text) choices"

definition choice_value_allowed :: "scalar_type \<Rightarrow> scalar_value \<Rightarrow> string list \<Rightarrow> bool \<Rightarrow> bool" where
  "choice_value_allowed t x choices case_insensitive_choices =
     (case (t, x) of
        (At_string, Sv_string text) \<Rightarrow> choice_contains choices text case_insensitive_choices
      | (At_enum names _ _, Sv_enum i) \<Rightarrow>
          (case find (\<lambda>e. snd e = i) names of
             Some e \<Rightarrow> choice_contains choices (fst e) case_insensitive_choices
           | None \<Rightarrow> False)
      | _ \<Rightarrow> False)"

definition validate_choices :: "arg_type \<Rightarrow> arg_value \<Rightarrow> ArgSpec \<Rightarrow> unit arg_result" where
  "validate_choices t v spec =
     (if sp_choices spec = [] then Inr ()
      else if \<not> is_choices_supported t then arg_error_of InvalidDefinition
      else if list_all (\<lambda>x. choice_value_allowed (scalar_of t) x (sp_choices spec) (sp_case_insensitive_choices spec)) (elements v)
      then Inr ()
      else arg_error_of InvalidValue)"

definition validate_field_definition :: "arg_type \<Rightarrow> ArgSpec \<Rightarrow> unit arg_result" where
  "validate_field_definition t spec =
     (if sp_separator spec \<noteq> nul \<and> \<not> is_vector t then arg_error_of InvalidDefinition
      else if sp_has_range spec \<and> (\<not> is_range_supported t \<or> sp_range_max spec < sp_range_min spec)
      then arg_error_of InvalidDefinition
      else if sp_choices spec \<noteq> [] \<and> \<not> is_choices_supported t then arg_error_of InvalidDefinition
      else Inr ())"

definition validate_field_value :: "arg_type \<Rightarrow> arg_value \<Rightarrow> ArgSpec \<Rightarrow> unit arg_result" where
  "validate_field_value t v spec = and_then (validate_range t v spec) (\<lambda>_. validate_choices t v spec)"

subsection \<open>What the operations give\<close>

lemma assign_value_typed:
  assumes "\<And>x. parse_scalar (scalar_of t) ci text = Inr x \<Longrightarrow> scalar_typed (scalar_of t) x"
    "value_typed t v" "assign_value t ci text v = Inr v'"
  shows "value_typed t v'"
  using assms by (cases t; cases v)
    (auto simp: assign_value_def and_then_Inr_iff elements_def scalar_of_def split: option.splits)

lemma in_bounds_parse_scalar [fault_free]: "in_bounds (parse_scalar t ci text)"
  by (auto simp: parse_scalar_def parse_bool_def intro!: fault_free split: scalar_type.split option.split)

lemma in_bounds_assign_value [fault_free]: "in_bounds (assign_value t ci text v)"
  by (auto simp: assign_value_def intro!: fault_free)

lemma in_bounds_assign_parts: "in_bounds (assign_parts t ci sep str v)"
proof (induction t ci sep str v rule: assign_parts.induct)
  case (1 t ci sep str v)
  then show ?case
    by (subst assign_parts.simps) (auto intro!: fault_free split: prod.split option.split)
qed

lemma in_bounds_assign_text [fault_free]: "in_bounds (assign_text_value t ci sep str v)"
  by (simp add: assign_text_value_def in_bounds_assign_parts in_bounds_assign_value)

lemma in_bounds_validate_field [fault_free]:
  "in_bounds (validate_field_definition t spec)" "in_bounds (validate_field_value t v spec)"
  by (auto simp: validate_field_definition_def validate_field_value_def validate_range_def validate_choices_def
      intro!: fault_free)

end
