(* ===== verification/Arg_Material.thy ===== *)
theory Arg_Material
  imports Arg_Value
begin

text \<open>
  The rest of \<open>argparser/detail/materializer.hpp\<close>: an options object takes its defaults, the values of the
  command line and of the environment, and is validated. An object is its reflected fields, each with its
  name, tags, type and value, and the walks over it are \<open>Reflect::forEach\<close> with a body for the options.
  What a parse does besides its result, a call of the handler for deprecated options or a file written, is
  a list of events, those before an error included. The environment is the parameter \<open>env\<close>.
\<close>

datatype obj_field =
    Ob_option string ArgTags arg_type arg_value
  | Ob_nested string ArgTags "obj_field list"
  | Ob_ignored

type_synonym obj = "obj_field list"
type_synonym PresenceList = "bool list"

fun type_of_obj :: "obj \<Rightarrow> arg_field list" where
  "type_of_obj [] = []"
| "type_of_obj (Ob_option name tags t v # fs) = Option_Field name tags t # type_of_obj fs"
| "type_of_obj (Ob_nested name tags gs # fs) = Nested_Field name tags (type_of_obj gs) # type_of_obj fs"
| "type_of_obj (Ob_ignored # fs) = Ignored_Field # type_of_obj fs"

datatype arg_event = Deprecated_Option string string | File_Written string bytes

type_synonym 'a noted = "arg_event list \<times> 'a arg_result"

definition noting :: "'a arg_result \<Rightarrow> 'a noted" where
  "noting r = ([], r)"

definition note_then :: "'a noted \<Rightarrow> ('a \<Rightarrow> 'b noted) \<Rightarrow> 'b noted" where
  "note_then m f = (case m of
     (events, Inl e) \<Rightarrow> (events, Inl e)
   | (events, Inr x) \<Rightarrow> (case f x of (events', r) \<Rightarrow> (events @ events', r)))"

subsection \<open>One option\<close>

definition describe_value_source :: "string \<Rightarrow> string \<Rightarrow> string" where
  "describe_value_source source text = (if source = [] then ''value'' else source) @ '' '' @ quote_arg_value text"

fun join_choices :: "string list \<Rightarrow> string" where
  "join_choices [] = []"
| "join_choices [c] = c"
| "join_choices (c # cs) = c @ '', '' @ join_choices cs"

definition format_validation_expectation :: "ArgParserConfig \<Rightarrow> ArgSpec \<Rightarrow> string" where
  "format_validation_expectation config spec =
     (let range = (if sp_has_range spec
            then ''expected range ['' @ cf_show_double config 6 (sp_range_min spec) @ '', '' @
              cf_show_double config 6 (sp_range_max spec) @ '')'' else [])
      in if sp_choices spec = [] then range
         else range @ (if range = [] then [] else ''; '') @ ''expected one of {'' @ join_choices (sp_choices spec) @ ''}'')"

definition contextual_argparser_error :: "ArgSpec \<Rightarrow> string \<Rightarrow> 'a arg_result \<Rightarrow> 'a arg_result" where
  "contextual_argparser_error spec detail r =
     (case r of
        Inl (Err e) \<Rightarrow> arg_fail (arg_code e) (format_error_option_label spec @ '': '' @ detail)
      | _ \<Rightarrow> r)"

definition with_expectation :: "ArgParserConfig \<Rightarrow> ArgSpec \<Rightarrow> string \<Rightarrow> string" where
  "with_expectation config spec detail =
     (let expectation = format_validation_expectation config spec in
      if expectation = [] then detail else detail @ ''; '' @ expectation)"

definition case_insensitive_enum :: "ArgSpec \<Rightarrow> bool" where
  "case_insensitive_enum spec \<longleftrightarrow> sp_case_insensitive_choices spec \<and> sp_choices spec \<noteq> []"

definition assign_text_to_field ::
  "ArgParserConfig \<Rightarrow> ArgSpec \<Rightarrow> arg_type \<Rightarrow> string \<Rightarrow> string \<Rightarrow> arg_value \<Rightarrow> arg_value arg_result" where
  "assign_text_to_field config spec t text source v =
     and_then (contextual_argparser_error spec (''failed to parse '' @ describe_value_source source text)
         (assign_text_value t (case_insensitive_enum spec) (sp_separator spec) text v)) (\<lambda>v.
       and_then (contextual_argparser_error spec
           (with_expectation config spec (describe_value_source source text @ '' failed validation''))
           (validate_field_value t v spec)) (\<lambda>_. Inr v))"

definition assign_default_to_field ::
  "ArgParserConfig \<Rightarrow> ArgSpec \<Rightarrow> ArgTags \<Rightarrow> arg_type \<Rightarrow> arg_value \<Rightarrow> arg_value arg_result" where
  "assign_default_to_field config spec tags t v =
     (case tg_default_value tags of
        None \<Rightarrow> Inr v
      | Some d \<Rightarrow>
          and_then (contextual_argparser_error spec (''failed to apply default '' @ quote_arg_value (sp_default_value spec))
              (assign_default_value t (case_insensitive_enum spec) (sp_separator spec) d v)) (\<lambda>v.
            and_then (contextual_argparser_error spec
                (with_expectation config spec (''default '' @ quote_arg_value (sp_default_value spec) @ '' failed validation''))
                (validate_field_value t v spec)) (\<lambda>_. Inr v)))"

text \<open>The value, and whether the default supplied it.\<close>

definition apply_default_option ::
  "ArgParserConfig \<Rightarrow> ArgSpec \<Rightarrow> ArgTags \<Rightarrow> arg_type \<Rightarrow> arg_value \<Rightarrow> (arg_value \<times> bool) arg_result" where
  "apply_default_option config spec tags t v =
     and_then (contextual_argparser_error spec ''invalid option definition'' (validate_field_definition t spec)) (\<lambda>_.
       if sp_has_default spec
       then and_then (assign_default_to_field config spec tags t v) (\<lambda>v. Inr (v, True))
       else Inr (v, False))"

definition read_env :: "(string \<Rightarrow> string option) \<Rightarrow> string \<Rightarrow> string option" where
  "read_env env name = (if name = [] then None else env name)"

definition notify_deprecated_option :: "ArgSpec \<Rightarrow> ArgParserConfig \<Rightarrow> arg_event list" where
  "notify_deprecated_option spec config =
     (if sp_deprecated spec \<and> cf_deprecatedOptionHandler config
      then [Deprecated_Option (sp_long_name spec) (sp_deprecated_message spec)] else [])"

fun assign_raw_values ::
  "ArgParserConfig \<Rightarrow> ArgSpec \<Rightarrow> arg_type \<Rightarrow> raw_values \<Rightarrow> arg_value \<Rightarrow> arg_value noted" where
  "assign_raw_values config spec t [] v = noting (Inr v)"
| "assign_raw_values config spec t (text # texts) v =
     note_then (noting (assign_text_to_field config spec t text ''value'' v)) (\<lambda>v.
       note_then (notify_deprecated_option spec config, Inr ()) (\<lambda>_. assign_raw_values config spec t texts v))"

definition cleared :: "arg_type \<Rightarrow> bool \<Rightarrow> arg_value \<Rightarrow> arg_value" where
  "cleared t already_supplied v = (if is_vector t \<and> already_supplied then Av_vector [] else v)"

definition materialize_one_option ::
  "(string \<Rightarrow> string option) \<Rightarrow> ArgParserConfig \<Rightarrow> ArgSpec \<Rightarrow> raw_values \<Rightarrow> arg_type \<Rightarrow> bool \<Rightarrow> arg_value \<Rightarrow>
     (arg_value \<times> bool) noted" where
  "materialize_one_option env config spec raw t already_supplied v =
     note_then (noting (contextual_argparser_error spec ''invalid option definition'' (validate_field_definition t spec))) (\<lambda>_.
       if seen raw then
         note_then (assign_raw_values config spec t raw (cleared t already_supplied v)) (\<lambda>v. noting (Inr (v, True)))
       else case read_env env (sp_env_name spec) of
         Some text \<Rightarrow>
           note_then (noting (assign_text_to_field config spec t text
               (if sp_env_name spec = [] then ''env value'' else sp_env_name spec) (cleared t already_supplied v))) (\<lambda>v.
             noting (Inr (v, True)))
       | None \<Rightarrow> noting (Inr (v, False)))"

subsection \<open>Walks over an object\<close>

text \<open>\<open>Reflect::forEach\<close> over the fields, with \<open>step\<close> for each option and the same walk for a nested object;
  once a step has failed the rest are skipped.\<close>

fun for_each_option ::
  "(string \<Rightarrow> ArgTags \<Rightarrow> arg_type \<Rightarrow> arg_value \<Rightarrow> 's \<Rightarrow> (arg_value \<times> 's) noted) \<Rightarrow> obj \<Rightarrow> 's \<Rightarrow> (obj \<times> 's) noted" where
  "for_each_option step [] st = noting (Inr ([], st))"
| "for_each_option step (Ob_ignored # fs) st =
     note_then (for_each_option step fs st) (\<lambda>(fs, st). noting (Inr (Ob_ignored # fs, st)))"
| "for_each_option step (Ob_nested name tags gs # fs) st =
     note_then (for_each_option step gs st) (\<lambda>(gs, st).
       note_then (for_each_option step fs st) (\<lambda>(fs, st). noting (Inr (Ob_nested name tags gs # fs, st))))"
| "for_each_option step (Ob_option name tags t v # fs) st =
     note_then (step name tags t v st) (\<lambda>(v, st).
       note_then (for_each_option step fs st) (\<lambda>(fs, st). noting (Inr (Ob_option name tags t v # fs, st))))"

definition index_range :: "bool \<Rightarrow> string \<Rightarrow> string \<Rightarrow> unit arg_result" where
  "index_range ok doing name =
     (if ok then Inr () else arg_fail InvalidDefinition (''schema index is out of range while '' @ doing @ quote_arg_value name))"

definition default_step ::
  "ArgParserConfig \<Rightarrow> ArgSchema \<Rightarrow> string \<Rightarrow> ArgTags \<Rightarrow> arg_type \<Rightarrow> arg_value \<Rightarrow> nat \<times> PresenceList \<Rightarrow>
     (arg_value \<times> nat \<times> PresenceList) noted" where
  "default_step config schema name tags t v st =
     (case st of (spec_index, supplied) \<Rightarrow> noting (
        and_then (index_range (spec_index < sc_user_spec_count schema) ''applying default for field '' name) (\<lambda>_.
        and_then (vec_at (sc_specs schema) spec_index) (\<lambda>spec.
        and_then (apply_default_option config spec tags t v) (\<lambda>(v, defaultSupplied).
        if defaultSupplied
        then and_then (vec_set supplied spec_index True) (\<lambda>supplied. Inr (v, spec_index + 1, supplied))
        else Inr (v, spec_index + 1, supplied))))))"

definition apply_defaults_into ::
  "ArgParserConfig \<Rightarrow> ArgSchema \<Rightarrow> obj \<Rightarrow> PresenceList \<Rightarrow> (obj \<times> PresenceList) noted" where
  "apply_defaults_into config schema object supplied =
     note_then (for_each_option (default_step config schema) object (0, supplied)) (\<lambda>(object, spec_index, supplied).
       noting (if spec_index \<noteq> sc_user_spec_count schema
         then arg_fail InvalidDefinition ''not all schema fields received defaults'' else Inr (object, supplied)))"

definition materialize_step ::
  "(string \<Rightarrow> string option) \<Rightarrow> ArgParserConfig \<Rightarrow> ArgSchema \<Rightarrow> RawParseResult \<Rightarrow> string \<Rightarrow> ArgTags \<Rightarrow> arg_type \<Rightarrow> arg_value \<Rightarrow>
     nat \<times> PresenceList \<Rightarrow> (arg_value \<times> nat \<times> PresenceList) noted" where
  "materialize_step env config schema raw name tags t v st =
     (case st of (spec_index, supplied) \<Rightarrow>
        note_then (noting (index_range (spec_index < sc_user_spec_count schema \<and> spec_index < length raw)
          ''materializing field '' name)) (\<lambda>_.
        note_then (noting (vec_at supplied spec_index)) (\<lambda>alreadySupplied.
        note_then (noting (vec_at (sc_specs schema) spec_index)) (\<lambda>spec.
        note_then (noting (vec_at raw spec_index)) (\<lambda>values.
        note_then (materialize_one_option env config spec values t alreadySupplied v) (\<lambda>(v, optionSupplied).
        noting (
          if optionSupplied
          then and_then (vec_set supplied spec_index True) (\<lambda>supplied. Inr (v, spec_index + 1, supplied))
          else Inr (v, spec_index + 1, supplied))))))))"

definition materialize_explicit_options_into ::
  "(string \<Rightarrow> string option) \<Rightarrow> ArgParserConfig \<Rightarrow> ArgSchema \<Rightarrow> RawParseResult \<Rightarrow> obj \<Rightarrow> PresenceList \<Rightarrow>
     (obj \<times> PresenceList) noted" where
  "materialize_explicit_options_into env config schema raw object supplied =
     note_then (for_each_option (materialize_step env config schema raw) object (0, supplied)) (\<lambda>(object, spec_index, supplied).
       noting (if spec_index \<noteq> sc_user_spec_count schema
         then arg_fail InvalidDefinition ''not all schema fields were materialized'' else Inr (object, supplied)))"

text \<open>Marking what an imported object supplies, and what counts for the relations between options.\<close>

definition imported_field_supplied :: "arg_value \<Rightarrow> bool" where
  "imported_field_supplied v = (case v of Av_optional x \<Rightarrow> x \<noteq> None | _ \<Rightarrow> True)"

definition imported_step ::
  "ArgSchema \<Rightarrow> string \<Rightarrow> ArgTags \<Rightarrow> arg_type \<Rightarrow> arg_value \<Rightarrow> nat \<times> PresenceList \<Rightarrow> (arg_value \<times> nat \<times> PresenceList) noted" where
  "imported_step schema name tags t v st =
     (case st of (spec_index, supplied) \<Rightarrow> noting (
        and_then (index_range (spec_index < sc_user_spec_count schema \<and> spec_index < length supplied)
          ''marking imported field '' name) (\<lambda>_.
        and_then (vec_set supplied spec_index (imported_field_supplied v)) (\<lambda>supplied.
          Inr (v, spec_index + 1, supplied)))))"

definition mark_imported_options_supplied :: "ArgSchema \<Rightarrow> obj \<Rightarrow> PresenceList \<Rightarrow> PresenceList noted" where
  "mark_imported_options_supplied schema object supplied =
     (let end_index = min (sc_user_spec_count schema) (length supplied);
          supplied = replicate end_index False @ drop end_index supplied
      in note_then (for_each_option (imported_step schema) object (0, supplied)) (\<lambda>(_, spec_index, supplied).
           noting (if spec_index \<noteq> sc_user_spec_count schema
             then arg_fail InvalidDefinition ''not all imported schema fields were marked'' else Inr supplied)))"

definition field_relationship_active :: "arg_value \<Rightarrow> bool \<Rightarrow> bool" where
  "field_relationship_active v supplied =
     (if \<not> supplied then False
      else case v of
        Av_scalar (Sv_bool b) \<Rightarrow> b
      | Av_scalar _ \<Rightarrow> True
      | Av_optional None \<Rightarrow> False
      | Av_optional (Some (Sv_bool b)) \<Rightarrow> b
      | Av_optional (Some _) \<Rightarrow> True
      | Av_vector xs \<Rightarrow> list_ex (\<lambda>x. case x of Sv_bool b \<Rightarrow> b | _ \<Rightarrow> True) xs)"

definition active_step ::
  "ArgSchema \<Rightarrow> PresenceList \<Rightarrow> string \<Rightarrow> ArgTags \<Rightarrow> arg_type \<Rightarrow> arg_value \<Rightarrow> nat \<times> PresenceList \<Rightarrow>
     (arg_value \<times> nat \<times> PresenceList) noted" where
  "active_step schema supplied name tags t v st =
     (case st of (spec_index, active) \<Rightarrow> noting (
        and_then (index_range (spec_index < sc_user_spec_count schema \<and> spec_index < length supplied \<and> spec_index < length active)
          ''evaluating field '' name) (\<lambda>_.
        and_then (vec_at supplied spec_index) (\<lambda>fieldSupplied.
        and_then (vec_set active spec_index (field_relationship_active v fieldSupplied)) (\<lambda>active.
          Inr (v, spec_index + 1, active))))))"

definition mark_active_options :: "ArgSchema \<Rightarrow> obj \<Rightarrow> PresenceList \<Rightarrow> PresenceList \<Rightarrow> PresenceList noted" where
  "mark_active_options schema object supplied active =
     note_then (for_each_option (active_step schema supplied) object (0, replicate (length active) False))
       (\<lambda>(_, spec_index, active).
         noting (if spec_index \<noteq> sc_user_spec_count schema
           then arg_fail InvalidDefinition ''not all schema fields were evaluated'' else Inr active))"

subsection \<open>Validation of the result\<close>

fun required_loop :: "ArgSchema \<Rightarrow> PresenceList \<Rightarrow> nat list \<Rightarrow> unit arg_result" where
  "required_loop schema supplied [] = Inr ()"
| "required_loop schema supplied (index # rest) =
     and_then (vec_at (sc_specs schema) index) (\<lambda>spec.
     and_then (if sp_required spec then and_then (vec_at supplied index) (\<lambda>b. Inr (\<not> b)) else Inr False) (\<lambda>is_missing.
       if is_missing then arg_fail MissingRequired (format_error_option_label spec @ '' is required'')
       else required_loop schema supplied rest))"

definition validate_required_options :: "ArgSchema \<Rightarrow> PresenceList \<Rightarrow> unit arg_result" where
  "validate_required_options schema supplied = required_loop schema supplied [0..<sc_user_spec_count schema]"

fun check_required_indices :: "ArgSchema \<Rightarrow> PresenceList \<Rightarrow> nat \<Rightarrow> ArgSpec \<Rightarrow> nat list \<Rightarrow> unit arg_result" where
  "check_required_indices schema active index spec [] = Inr ()"
| "check_required_indices schema active index spec (r # rs) =
     (if length (sc_specs schema) \<le> r \<or> r = index
      then arg_fail InvalidDefinition (format_error_option_label spec @ '' has an invalid normalized requirement reference'')
      else and_then (vec_at active r) (\<lambda>b.
        if \<not> b then and_then (vec_at (sc_specs schema) r) (\<lambda>required.
          arg_fail MissingRequired (format_error_option_label spec @ '' requires '' @ format_error_option_label required))
        else check_required_indices schema active index spec rs))"

fun check_conflict_indices :: "ArgSchema \<Rightarrow> PresenceList \<Rightarrow> nat \<Rightarrow> ArgSpec \<Rightarrow> nat list \<Rightarrow> unit arg_result" where
  "check_conflict_indices schema active index spec [] = Inr ()"
| "check_conflict_indices schema active index spec (c # cs) =
     (if length (sc_specs schema) \<le> c \<or> c = index
      then arg_fail InvalidDefinition (format_error_option_label spec @ '' has an invalid normalized conflict reference'')
      else and_then (vec_at active c) (\<lambda>b.
        if b then and_then (vec_at (sc_specs schema) c) (\<lambda>other.
          arg_fail InvalidValue (format_error_option_label spec @ '' conflicts with '' @ format_error_option_label other))
        else check_conflict_indices schema active index spec cs))"

fun cross_field_loop :: "ArgSchema \<Rightarrow> PresenceList \<Rightarrow> nat list \<Rightarrow> unit arg_result" where
  "cross_field_loop schema active [] = Inr ()"
| "cross_field_loop schema active (index # rest) =
     and_then (vec_at active index) (\<lambda>b.
       if \<not> b then cross_field_loop schema active rest
       else
         and_then (vec_at (sc_specs schema) index) (\<lambda>spec.
         and_then (check_required_indices schema active index spec (sp_require_indices spec)) (\<lambda>_.
         and_then (check_conflict_indices schema active index spec (sp_conflict_indices spec)) (\<lambda>_.
           cross_field_loop schema active rest))))"

definition validate_cross_field_constraints :: "ArgSchema \<Rightarrow> PresenceList \<Rightarrow> unit arg_result" where
  "validate_cross_field_constraints schema active = cross_field_loop schema active [0..<sc_user_spec_count schema]"

definition validate_materialized_options :: "ArgSchema \<Rightarrow> obj \<Rightarrow> PresenceList \<Rightarrow> unit noted" where
  "validate_materialized_options schema object supplied =
     note_then (noting (validate_required_options schema supplied)) (\<lambda>_.
     note_then (mark_active_options schema object supplied (replicate (length (sc_specs schema)) False)) (\<lambda>active.
       noting (validate_cross_field_constraints schema active)))"

definition materialize_options_into ::
  "(string \<Rightarrow> string option) \<Rightarrow> ArgParserConfig \<Rightarrow> ArgSchema \<Rightarrow> RawParseResult \<Rightarrow> obj \<Rightarrow> obj noted" where
  "materialize_options_into env config schema raw object =
     (if length (sc_specs schema) \<noteq> length raw
      then noting (arg_fail InvalidDefinition ''schema and raw option counts differ'')
      else
        note_then (apply_defaults_into config schema object (replicate (length (sc_specs schema)) False)) (\<lambda>(object, supplied).
        note_then (materialize_explicit_options_into env config schema raw object supplied) (\<lambda>(object, supplied).
        note_then (validate_materialized_options schema object supplied) (\<lambda>_. noting (Inr object)))))"

end
