(* ===== verification/Arg_Config_Io.thy ===== *)
theory Arg_Config_Io
  imports Arg_Material
begin

text \<open>
  Configuration files: \<open>argparser/config_io.hpp\<close> and \<open>argparser/detail/config_io.hpp\<close>. The file system and
  the serializers of the formats, most of them third-party libraries, are the parameter \<open>config_world\<close>:
  what a path reads as, what bytes decode to in a format for a type and what a value encodes to, and
  whether a file can be opened and written. The \<open>cause\<close> of a \<open>ConfigIoError\<close>, a code of these libraries
  that the parser does not read, is left out.
\<close>

datatype config_type =
    Options_Type "arg_field list"
  | Selector_Type
  | Command_Type "arg_field list"
  | Placeholder_Type

datatype config_doc =
    Options_Doc obj
  | Selector_Doc string
  | Command_Doc string obj
  | Placeholder_Doc string

datatype read_outcome = Not_Opened | Read_Failed | Read_Bytes bytes

record config_world =
  wd_read :: "string \<Rightarrow> read_outcome"
  wd_decode :: "string \<Rightarrow> config_type \<Rightarrow> bytes \<Rightarrow> string option + config_doc"
  wd_encode :: "string \<Rightarrow> config_doc \<Rightarrow> string option + bytes"
  wd_open :: "string \<Rightarrow> bool"
  wd_write :: "string \<Rightarrow> bytes \<Rightarrow> bool"

datatype ConfigIoErrorCode =
    ConfigIo_Success
  | UnknownFormat
  | BackendUnavailable
  | OpenFailed
  | ReadFailed
  | DecodeFailed
  | EncodeFailed
  | WriteFailed

fun config_io_message :: "ConfigIoErrorCode \<Rightarrow> string" where
  "config_io_message ConfigIo_Success = ''success''"
| "config_io_message UnknownFormat = ''unknown config format''"
| "config_io_message BackendUnavailable = ''config backend unavailable''"
| "config_io_message OpenFailed = ''could not open config file''"
| "config_io_message ReadFailed = ''could not read config data''"
| "config_io_message DecodeFailed = ''could not decode config data''"
| "config_io_message EncodeFailed = ''could not encode config data''"
| "config_io_message WriteFailed = ''could not write config data''"

record ConfigIoError =
  ce_code :: ConfigIoErrorCode
  ce_message :: string
  ce_format :: string
  ce_path :: string

definition make_config_error :: "ConfigIoErrorCode \<Rightarrow> string \<Rightarrow> string \<Rightarrow> string \<Rightarrow> ConfigIoError" where
  "make_config_error code message format path =
     \<lparr>ce_code = code, ce_message = message, ce_format = format, ce_path = path\<rparr>"

definition add_path_context :: "ConfigIoError \<Rightarrow> string \<Rightarrow> ConfigIoError" where
  "add_path_context error path =
     error\<lparr>ce_path := path, ce_message := ce_message error @ '' in config file '' @ quote_arg_value path\<rparr>"

text \<open>\<open>path.extension()\<close> of a POSIX path, without its dot and in lower case.\<close>

definition file_name :: "string \<Rightarrow> string" where
  "file_name path = rev (takeWhile (\<lambda>c. c \<noteq> CHR ''/'') (rev path))"

definition path_extension :: "string \<Rightarrow> string" where
  "path_extension path =
     (let name = file_name path; suffix = takeWhile (\<lambda>c. c \<noteq> CHR ''.'') (rev name) in
      if name = ''.'' \<or> name = ''..'' \<or> length name \<le> length suffix + 1 then [] else CHR ''.'' # rev suffix)"

definition normalized_extension :: "string \<Rightarrow> string" where
  "normalized_extension path =
     (let extension = path_extension path in
      map to_lower (if extension \<noteq> [] \<and> extension ! 0 = CHR ''.'' then drop 1 extension else extension))"

definition read_stream :: "read_outcome \<Rightarrow> string \<Rightarrow> ConfigIoError + bytes" where
  "read_stream input format =
     (case input of
        Read_Bytes bs \<Rightarrow> Inr bs
      | _ \<Rightarrow> Inl (make_config_error ReadFailed (''failed to read '' @ format @ '' config data'') format []))"

definition write_stream :: "bool \<Rightarrow> string \<Rightarrow> string \<Rightarrow> ConfigIoError + unit" where
  "write_stream written format path =
     (if written then Inr ()
      else Inl (make_config_error WriteFailed (''failed to write '' @ format @ '' config data'' @
        (if path = [] then [] else '' to '' @ quote_arg_value path)) format path))"

definition unavailable_error :: "ConfigIoBackend \<Rightarrow> ConfigIoError" where
  "unavailable_error be =
     make_config_error BackendUnavailable (be_label be @ '' config backend is not available'') (be_format be) []"

definition unknown_format_error :: "string \<Rightarrow> string \<Rightarrow> ConfigIoError" where
  "unknown_format_error format path =
     make_config_error UnknownFormat (''unknown config format '' @ quote_arg_value format @
       (if path = [] then [] else '' for '' @ quote_arg_value path)) format path"

definition decode_backend :: "config_world \<Rightarrow> ConfigIoBackend \<Rightarrow> config_type \<Rightarrow> bytes \<Rightarrow> ConfigIoError + config_doc" where
  "decode_backend w be t data =
     (if \<not> be_available be then Inl (unavailable_error be)
      else case wd_decode w (be_format be) t data of
        Inr doc \<Rightarrow> Inr doc
      | Inl cause \<Rightarrow> Inl (make_config_error DecodeFailed (''failed to decode '' @ be_label be @ '' config'' @
          (case cause of None \<Rightarrow> [] | Some msg \<Rightarrow> '': '' @ msg)) (be_format be) []))"

definition encode_backend :: "config_world \<Rightarrow> ConfigIoBackend \<Rightarrow> config_doc \<Rightarrow> ConfigIoError + bytes" where
  "encode_backend w be doc =
     (if \<not> be_available be then Inl (unavailable_error be)
      else case wd_encode w (be_format be) doc of
        Inr bs \<Rightarrow> Inr bs
      | Inl cause \<Rightarrow> Inl (make_config_error EncodeFailed (''failed to encode '' @ be_label be @ '' config'' @
          (case cause of None \<Rightarrow> [] | Some msg \<Rightarrow> '': '' @ msg)) (be_format be) []))"

definition find_backend :: "ArgParserConfig \<Rightarrow> string \<Rightarrow> ConfigIoBackend option" where
  "find_backend config format = find (\<lambda>be. config_io_format_matches be format) (ConfigIoBackendRegistry config)"

definition decode_format :: "config_world \<Rightarrow> ArgParserConfig \<Rightarrow> string \<Rightarrow> config_type \<Rightarrow> bytes \<Rightarrow> ConfigIoError + config_doc" where
  "decode_format w config format t data =
     (case find_backend config format of
        Some be \<Rightarrow> decode_backend w be t data
      | None \<Rightarrow> Inl (unknown_format_error format []))"

definition encode_format :: "config_world \<Rightarrow> ArgParserConfig \<Rightarrow> string \<Rightarrow> config_doc \<Rightarrow> ConfigIoError + bytes" where
  "encode_format w config format doc =
     (case find_backend config format of
        Some be \<Rightarrow> encode_backend w be doc
      | None \<Rightarrow> Inl (unknown_format_error format []))"

definition load_stream :: "config_world \<Rightarrow> ArgParserConfig \<Rightarrow> config_type \<Rightarrow> read_outcome \<Rightarrow> string \<Rightarrow> ConfigIoError + config_doc" where
  "load_stream w config t input format =
     (case read_stream input format of Inl e \<Rightarrow> Inl e | Inr bs \<Rightarrow> decode_format w config format t bs)"

definition load_file :: "config_world \<Rightarrow> ArgParserConfig \<Rightarrow> config_type \<Rightarrow> string \<Rightarrow> string \<Rightarrow> ConfigIoError + config_doc" where
  "load_file w config t path format =
     (if wd_read w path = Not_Opened
      then Inl (make_config_error OpenFailed (''could not open config file '' @ quote_arg_value path) format path)
      else case load_stream w config t (wd_read w path) format of
        Inl e \<Rightarrow> Inl (add_path_context e path)
      | Inr doc \<Rightarrow> Inr doc)"

definition load_path :: "config_world \<Rightarrow> ArgParserConfig \<Rightarrow> config_type \<Rightarrow> string \<Rightarrow> ConfigIoError + config_doc" where
  "load_path w config t path =
     (let format = normalized_extension path in
      if format = [] then Inl (unknown_format_error format path) else load_file w config t path format)"

definition save_file ::
  "config_world \<Rightarrow> ArgParserConfig \<Rightarrow> config_doc \<Rightarrow> string \<Rightarrow> string \<Rightarrow> arg_event list \<times> (ConfigIoError + unit)" where
  "save_file w config doc path format =
     (case encode_format w config format doc of
        Inl e \<Rightarrow> ([], Inl (add_path_context e path))
      | Inr bs \<Rightarrow>
          if \<not> wd_open w path
          then ([], Inl (make_config_error OpenFailed (''could not open config file '' @ quote_arg_value path) format path))
          else ([File_Written path bs], write_stream (wd_write w path bs) format path))"

definition save_path :: "config_world \<Rightarrow> ArgParserConfig \<Rightarrow> config_doc \<Rightarrow> string \<Rightarrow> arg_event list \<times> (ConfigIoError + unit)" where
  "save_path w config doc path =
     (let format = normalized_extension path in
      if format = [] then ([], Inl (unknown_format_error format path)) else save_file w config doc path format)"

subsection \<open>The files a command line names\<close>

record ConfigIoFile =
  cio_format :: string
  cio_path :: string

record ConfigIoSelection =
  cs_import_file :: "ConfigIoFile option"
  cs_export_files :: "ConfigIoFile list"

definition no_selection :: ConfigIoSelection where
  "no_selection = \<lparr>cs_import_file = None, cs_export_files = []\<rparr>"

definition config_io_to_argparser_error :: "ConfigIoError \<Rightarrow> 'a arg_result" where
  "config_io_to_argparser_error e =
     arg_fail (if ce_code e = UnknownFormat \<or> ce_code e = BackendUnavailable then InvalidDefinition else InvalidValue)
       (ce_message e)"

definition import_config_file :: "config_world \<Rightarrow> ArgParserConfig \<Rightarrow> config_type \<Rightarrow> ConfigIoFile \<Rightarrow> config_doc arg_result" where
  "import_config_file w config t file =
     (case load_file w config t (cio_path file) (cio_format file) of
        Inl e \<Rightarrow> config_io_to_argparser_error e
      | Inr doc \<Rightarrow> Inr doc)"

definition export_config_file :: "config_world \<Rightarrow> ArgParserConfig \<Rightarrow> config_doc \<Rightarrow> ConfigIoFile \<Rightarrow> unit noted" where
  "export_config_file w config doc file =
     (case save_file w config doc (cio_path file) (cio_format file) of
        (events, Inl e) \<Rightarrow> (events, config_io_to_argparser_error e)
      | (events, Inr _) \<Rightarrow> (events, Inr ()))"

fun export_config_loop :: "config_world \<Rightarrow> ArgParserConfig \<Rightarrow> config_doc \<Rightarrow> ConfigIoFile list \<Rightarrow> unit noted" where
  "export_config_loop w config doc [] = noting (Inr ())"
| "export_config_loop w config doc (file # files) =
     note_then (export_config_file w config doc file) (\<lambda>_. export_config_loop w config doc files)"

definition export_config_files :: "config_world \<Rightarrow> ArgParserConfig \<Rightarrow> config_doc \<Rightarrow> ConfigIoSelection \<Rightarrow> unit noted" where
  "export_config_files w config doc selection = export_config_loop w config doc (cs_export_files selection)"

definition only_one_import :: "'a arg_result" where
  "only_one_import = arg_fail InvalidValue ''only one config import option can be used at a time''"

fun collect_io_loop :: "ArgSchema \<Rightarrow> RawParseResult \<Rightarrow> nat list \<Rightarrow> ConfigIoSelection \<Rightarrow> ConfigIoSelection arg_result" where
  "collect_io_loop schema raw [] selection = Inr selection"
| "collect_io_loop schema raw (index # rest) selection =
     (if length raw \<le> index then collect_io_loop schema raw rest selection
      else and_then (vec_at raw index) (\<lambda>texts.
        if \<not> seen texts then collect_io_loop schema raw rest selection
        else if length texts \<noteq> 1
        then and_then (vec_at (sc_specs schema) index) (\<lambda>spec.
          arg_fail InvalidValue (format_error_option_label spec @ '' expects exactly one path''))
        else and_then (builtin_spec schema index) (\<lambda>builtin_option. case builtin_option of
          None \<Rightarrow> collect_io_loop schema raw rest selection
        | Some builtin \<Rightarrow> and_then (vec_at texts 0) (\<lambda>path.
            let file = \<lparr>cio_format = cb_format builtin, cio_path = path\<rparr> in
            if cb_direction builtin = Import then
              if cs_import_file selection \<noteq> None then only_one_import
              else collect_io_loop schema raw rest (selection\<lparr>cs_import_file := Some file\<rparr>)
            else collect_io_loop schema raw rest (selection\<lparr>cs_export_files := cs_export_files selection @ [file]\<rparr>)))))"

definition collect_config_io_selection :: "ArgSchema \<Rightarrow> RawParseResult \<Rightarrow> ConfigIoSelection \<Rightarrow> ConfigIoSelection arg_result" where
  "collect_config_io_selection schema raw selection =
     collect_io_loop schema raw [sc_user_spec_count schema..<length (sc_specs schema)] selection"

end
