(* ===== verification/Arg_Parser.thy ===== *)
theory Arg_Parser
  imports Arg_Config_Io
begin

text \<open>
  \<open>argparser/argparser.hpp\<close>: parsing into an options object, and a set of commands of which one is selected.
  The type \<open>T\<close> of a parse is an options object with the values \<open>T{}\<close> has, or its command fields. A command
  whose field type is an empty placeholder has no options. The events of a run are those of \<open>Arg_Material\<close>.
\<close>

definition options_of_doc :: "config_doc \<Rightarrow> obj" where
  "options_of_doc doc = (case doc of Options_Doc object \<Rightarrow> object | Command_Doc _ object \<Rightarrow> object | _ \<Rightarrow> [])"

definition command_of_doc :: "config_doc \<Rightarrow> string" where
  "command_of_doc doc =
     (case doc of Selector_Doc c \<Rightarrow> c | Command_Doc c _ \<Rightarrow> c | Placeholder_Doc c \<Rightarrow> c | Options_Doc _ \<Rightarrow> [])"

definition selected_import :: "ConfigIoFile option \<Rightarrow> ConfigIoSelection \<Rightarrow> ConfigIoFile option" where
  "selected_import external_import local_io =
     (case external_import of Some file \<Rightarrow> Some file | None \<Rightarrow> cs_import_file local_io)"

definition import_object ::
  "config_world \<Rightarrow> ArgParserConfig \<Rightarrow> ArgSchema \<Rightarrow> ConfigIoFile option \<Rightarrow> obj \<Rightarrow> PresenceList \<Rightarrow> (obj \<times> PresenceList) noted" where
  "import_object w config schema import_file object supplied =
     (case import_file of
        None \<Rightarrow> noting (Inr (object, supplied))
      | Some file \<Rightarrow>
          note_then (noting (import_config_file w config (Options_Type (type_of_obj object)) file)) (\<lambda>doc.
          note_then (mark_imported_options_supplied schema (options_of_doc doc) supplied) (\<lambda>supplied.
            noting (Inr (options_of_doc doc, supplied)))))"

definition parse_options_into ::
  "config_world \<Rightarrow> (string \<Rightarrow> string option) \<Rightarrow> obj \<Rightarrow> args \<Rightarrow> nat \<Rightarrow> ArgParserConfig \<Rightarrow> ConfigIoFile option \<Rightarrow>
     ConfigIoSelection option \<Rightarrow> obj noted" where
  "parse_options_into w env object argv start_index config external_import external_exports =
     (case validate_schema_definition (collect_schema (type_of_obj object) config) of
        (Inl e, schema) \<Rightarrow> noting (Inl e)
      | (Inr _, schema) \<Rightarrow>
        note_then (noting (parse_raw_arguments schema argv start_index config)) (\<lambda>raw.
        if length (sc_specs schema) \<noteq> length raw
        then noting (arg_fail InvalidDefinition ''schema and raw option counts differ'')
        else
          note_then (noting (collect_config_io_selection schema raw no_selection)) (\<lambda>local_io.
          if external_import \<noteq> None \<and> cs_import_file local_io \<noteq> None then noting only_one_import
          else
            note_then (apply_defaults_into config schema object (replicate (length (sc_specs schema)) False)) (\<lambda>(object, supplied).
            note_then (import_object w config schema (selected_import external_import local_io) object supplied) (\<lambda>(object, supplied).
            note_then (materialize_explicit_options_into env config schema raw object supplied) (\<lambda>(object, supplied).
            note_then (validate_materialized_options schema object supplied) (\<lambda>_.
            note_then (export_config_files w config (Options_Doc object)
                (case external_exports of None \<Rightarrow> local_io | Some io \<Rightarrow> io)) (\<lambda>_.
              noting (Inr object)))))))))"

subsection \<open>Commands\<close>

datatype command_payload = Placeholder_Command | Options_Command obj

datatype command_field = Command_Field string ArgTags command_payload | Ignored_Command

definition command_name_at :: "string \<Rightarrow> ArgTags \<Rightarrow> string" where
  "command_name_at reflected_name tags = (if tg_long_name tags \<noteq> [] then tg_long_name tags else reflected_name)"

record CommandRootParseResult =
  cr_command :: string
  cr_start_index :: nat
  cr_io :: ConfigIoSelection

definition record_command_root_option ::
  "ArgSchema \<Rightarrow> ArgParserConfig \<Rightarrow> string \<Rightarrow> args \<Rightarrow> RawParseResult \<Rightarrow> (RawParseResult \<times> args) arg_result" where
  "record_command_root_option schema config arg rest raw =
     (if starts_with arg ''--'' then
        let (body, inline) = split_at CHR ''='' (drop 2 arg) in
        case find_long_index schema body of
          None \<Rightarrow> if cf_allowUnknown config then Inr (raw, rest) else unknown_option (''--'' @ body)
        | Some spec_index \<Rightarrow>
            record_raw_option schema config spec_index (case inline of None \<Rightarrow> [] | Some v \<Rightarrow> v) (inline \<noteq> None) rest raw
      else unknown_option arg)"

lemma record_command_root_option_rest:
  "record_command_root_option schema config arg rest raw = Inr (raw', rest') \<Longrightarrow> length rest' \<le> length rest"
  by (auto simp: record_command_root_option_def unknown_option_def dest: record_raw_option_rest
      split: option.splits if_splits prod.splits)

text \<open>The loop up to the command name: what the options of the root recorded, the name, and the index in
  \<open>argv\<close> of the argument after it.\<close>

function command_root_loop ::
  "ArgSchema \<Rightarrow> ArgParserConfig \<Rightarrow> nat \<Rightarrow> args \<Rightarrow> RawParseResult \<Rightarrow> (RawParseResult \<times> string \<times> nat) arg_result" where
  "command_root_loop schema config argc [] raw = Inr (raw, [], 0)"
| "command_root_loop schema config argc (a # rest) raw =
     (let arg = arg_text a in
      if cf_addHelp config \<and> is_help_token arg \<and> \<not> is_declared_option_token schema arg then arg_error_of HelpRequested
      else if version_enabled config \<and> is_version_token arg \<and> \<not> is_declared_option_token schema arg
      then arg_error_of VersionRequested
      else if arg = ''--'' then
        (case rest of
           Some command # rest' \<Rightarrow> Inr (raw, command, argc - length rest')
         | _ \<Rightarrow> Inr (raw, [], 0))
      else if starts_with arg ''--'' then
        if sc_specs schema = [] then
          if cf_allowUnknown config then command_root_loop schema config argc rest raw else unknown_option arg
        else and_then (record_command_root_option schema config arg rest raw) (\<lambda>(raw, rest').
          command_root_loop schema config argc rest' raw)
      else if starts_with arg ''-'' \<and> 1 < length arg then
        if cf_allowUnknown config then command_root_loop schema config argc rest raw else unknown_option arg
      else Inr (raw, arg, argc - length rest))"
  by pat_completeness auto

termination
  by (relation "measure (\<lambda>(schema, config, argc, args, raw). length args)") (auto dest: record_command_root_option_rest)

declare command_root_loop.simps(2) [simp del]

definition parse_command_root_arguments ::
  "config_world \<Rightarrow> args \<Rightarrow> ArgParserConfig \<Rightarrow> CommandRootParseResult arg_result" where
  "parse_command_root_arguments w argv config =
     (case validate_schema_definition (collect_command_config_io_schema config) of
        (Inl e, schema) \<Rightarrow> Inl e
      | (Inr _, schema) \<Rightarrow>
        and_then (command_root_loop schema config (length argv) (drop 1 argv) (replicate (length (sc_specs schema)) []))
          (\<lambda>(raw, command, start_index).
        and_then (collect_config_io_selection schema raw no_selection) (\<lambda>io.
        and_then (case cs_import_file io of
            Some file \<Rightarrow>
              if command = [] then
                and_then (import_config_file w config Selector_Type file) (\<lambda>doc. Inr (command_of_doc doc, length argv))
              else Inr (command, start_index)
          | None \<Rightarrow> Inr (command, start_index)) (\<lambda>(command, start_index).
          if command = [] then arg_fail MissingRequired ''command name is required''
          else Inr \<lparr>cr_command = command, cr_start_index = start_index, cr_io = io\<rparr>))))"

definition validate_imported_command_name :: "string \<Rightarrow> string \<Rightarrow> unit arg_result" where
  "validate_imported_command_name expected actual =
     (if actual = expected then Inr ()
      else arg_fail InvalidValue (''imported config command '' @ quote_arg_value actual @
        '' does not match selected command '' @ quote_arg_value expected))"

definition merge_config_io_selection :: "ConfigIoSelection \<Rightarrow> ConfigIoSelection \<Rightarrow> ConfigIoSelection arg_result" where
  "merge_config_io_selection target source =
     (if cs_import_file source \<noteq> None \<and> cs_import_file target \<noteq> None then only_one_import
      else Inr \<lparr>cs_import_file = (if cs_import_file source \<noteq> None then cs_import_file source else cs_import_file target),
        cs_export_files = cs_export_files target @ cs_export_files source\<rparr>)"

text \<open>What a selected command gives: its options, \<open>None\<close> for a placeholder, and the files of its run.\<close>

type_synonym command_outcome = "obj option \<times> ConfigIoSelection"

definition parse_placeholder_command ::
  "config_world \<Rightarrow> string \<Rightarrow> args \<Rightarrow> nat \<Rightarrow> ArgParserConfig \<Rightarrow> ConfigIoSelection \<Rightarrow> command_outcome arg_result" where
  "parse_placeholder_command w command argv start_index config root_io =
     (case validate_schema_definition (collect_command_config_io_schema config) of
        (Inl e, schema) \<Rightarrow> Inl e
      | (Inr _, schema) \<Rightarrow>
        and_then (parse_raw_arguments schema argv start_index config) (\<lambda>raw.
        and_then (collect_config_io_selection schema raw no_selection) (\<lambda>local_io.
        and_then (merge_config_io_selection root_io local_io) (\<lambda>command_io.
        and_then (case cs_import_file command_io of
            None \<Rightarrow> Inr ()
          | Some file \<Rightarrow> and_then (import_config_file w config Placeholder_Type file) (\<lambda>doc.
              validate_imported_command_name command (command_of_doc doc))) (\<lambda>_.
          Inr (None, command_io))))))"

definition import_command_object ::
  "config_world \<Rightarrow> ArgParserConfig \<Rightarrow> ArgSchema \<Rightarrow> string \<Rightarrow> ConfigIoFile option \<Rightarrow> obj \<Rightarrow> PresenceList \<Rightarrow>
     (obj \<times> PresenceList) noted" where
  "import_command_object w config schema command import_file object supplied =
     (case import_file of
        None \<Rightarrow> noting (Inr (object, supplied))
      | Some file \<Rightarrow>
          note_then (noting (import_config_file w config (Command_Type (type_of_obj object)) file)) (\<lambda>doc.
          note_then (noting (validate_imported_command_name command (command_of_doc doc))) (\<lambda>_.
          note_then (mark_imported_options_supplied schema (options_of_doc doc) supplied) (\<lambda>supplied.
            noting (Inr (options_of_doc doc, supplied))))))"

definition parse_options_command ::
  "config_world \<Rightarrow> (string \<Rightarrow> string option) \<Rightarrow> obj \<Rightarrow> string \<Rightarrow> args \<Rightarrow> nat \<Rightarrow> ArgParserConfig \<Rightarrow> ConfigIoSelection \<Rightarrow>
     command_outcome noted" where
  "parse_options_command w env object command argv start_index config root_io =
     (case validate_schema_definition (collect_schema (type_of_obj object) config) of
        (Inl e, schema) \<Rightarrow> noting (Inl e)
      | (Inr _, schema) \<Rightarrow>
        note_then (noting (parse_raw_arguments schema argv start_index config)) (\<lambda>raw.
        if length (sc_specs schema) \<noteq> length raw
        then noting (arg_fail InvalidDefinition ''schema and raw option counts differ'')
        else
          note_then (noting (collect_config_io_selection schema raw no_selection)) (\<lambda>local_io.
          note_then (noting (merge_config_io_selection root_io local_io)) (\<lambda>command_io.
          note_then (apply_defaults_into config schema object (replicate (length (sc_specs schema)) False)) (\<lambda>(object, supplied).
          note_then (import_command_object w config schema command (cs_import_file command_io) object supplied) (\<lambda>(object, supplied).
          note_then (materialize_explicit_options_into env config schema raw object supplied) (\<lambda>(object, supplied).
          note_then (validate_materialized_options schema object supplied) (\<lambda>_.
            noting (Inr (Some object, command_io))))))))))"

text \<open>\<open>None\<close>: the field is not the command.\<close>

definition try_parse_command ::
  "config_world \<Rightarrow> (string \<Rightarrow> string option) \<Rightarrow> command_field \<Rightarrow> string \<Rightarrow> args \<Rightarrow> nat \<Rightarrow> ArgParserConfig \<Rightarrow> ConfigIoSelection \<Rightarrow>
     command_outcome noted option" where
  "try_parse_command w env field command argv start_index config root_io =
     (case field of
        Ignored_Command \<Rightarrow> None
      | Command_Field name tags payload \<Rightarrow>
          if command \<noteq> command_name_at name tags then None
          else Some (case payload of
              Placeholder_Command \<Rightarrow> noting (parse_placeholder_command w command argv start_index config root_io)
            | Options_Command object \<Rightarrow> parse_options_command w env object command argv start_index config root_io))"

fun try_commands ::
  "config_world \<Rightarrow> (string \<Rightarrow> string option) \<Rightarrow> command_field list \<Rightarrow> nat \<Rightarrow> string \<Rightarrow> args \<Rightarrow> nat \<Rightarrow> ArgParserConfig \<Rightarrow>
     ConfigIoSelection \<Rightarrow> (nat \<times> command_outcome noted) option" where
  "try_commands w env [] index command argv start_index config root_io = None"
| "try_commands w env (field # rest) index command argv start_index config root_io =
     (case try_parse_command w env field command argv start_index config root_io of
        Some r \<Rightarrow> Some (index, r)
      | None \<Rightarrow> try_commands w env rest (Suc index) command argv start_index config root_io)"

text \<open>The result is the index of the command field, which is the alternative of the variant, with its options.\<close>

datatype parser_result = Parsed_Options obj | Parsed_Command nat "obj option"

definition make_command_config :: "string \<Rightarrow> obj option \<Rightarrow> config_doc" where
  "make_command_config command options =
     (case options of None \<Rightarrow> Placeholder_Doc command | Some object \<Rightarrow> Command_Doc command object)"

definition field_command_name :: "command_field \<Rightarrow> string" where
  "field_command_name field = (case field of Ignored_Command \<Rightarrow> [] | Command_Field name tags _ \<Rightarrow> command_name_at name tags)"

definition parse_command_set ::
  "config_world \<Rightarrow> (string \<Rightarrow> string option) \<Rightarrow> command_field list \<Rightarrow> args \<Rightarrow> ArgParserConfig \<Rightarrow> parser_result noted" where
  "parse_command_set w env commands argv config =
     note_then (noting (parse_command_root_arguments w argv config)) (\<lambda>root.
       case try_commands w env commands 0 (cr_command root) argv (cr_start_index root) config (cr_io root) of
         None \<Rightarrow> noting (arg_fail UnknownCommand (quote_arg_value (cr_command root)))
       | Some (index, outcome) \<Rightarrow>
           note_then outcome (\<lambda>(options, selected_io).
           note_then (export_config_files w config
               (make_command_config (field_command_name (commands ! index)) options) selected_io) (\<lambda>_.
             noting (Inr (Parsed_Command index options)))))"

datatype root_type = Options_Root obj | Commands_Root "command_field list"

text \<open>\<open>argc\<close> and \<open>argv\<close> as \<open>main\<close> has them: \<open>None\<close> is a null \<open>argv\<close>, and \<open>argv\<close> has \<open>argc\<close> entries.\<close>

definition arg_parser ::
  "config_world \<Rightarrow> (string \<Rightarrow> string option) \<Rightarrow> root_type \<Rightarrow> int \<Rightarrow> args option \<Rightarrow> ArgParserConfig \<Rightarrow> parser_result noted" where
  "arg_parser w env kind argc argv config =
     (if argc < 0 \<or> 0 < argc \<and> argv = None
      then noting (arg_fail InvalidValue ''argc/argv is not a valid argument vector'')
      else
        let args = (case argv of None \<Rightarrow> [] | Some a \<Rightarrow> take (nat argc) a);
            config = (case args of
                Some program # _ \<Rightarrow> if cf_programName config = [] then config\<lparr>cf_programName := program\<rparr> else config
              | _ \<Rightarrow> config)
        in case kind of
          Commands_Root commands \<Rightarrow>
            if argv = None then noting (arg_fail MissingRequired ''command name is required'')
            else parse_command_set w env commands args config
        | Options_Root object \<Rightarrow>
            note_then (parse_options_into w env object args 1 config None None) (\<lambda>object. noting (Inr (Parsed_Options object))))"

end
