(* ===== verification/Arg_Walk.thy ===== *)
theory Arg_Walk
  imports Arg_Parser
begin

text \<open>
  The walks over an options object, option by option: a walk over the tree of fields is a loop over its
  leaves, and the four walks of the materializer share one contract, the locale \<open>indexed_walk\<close>, because
  each counts the options and changes the presence of the one it is at.
\<close>

subsection \<open>Results with events\<close>

lemma note_then_simps [simp]:
  "note_then (events, Inl e) f = (events, Inl e)"
  "note_then (noting (Inl e)) f = noting (Inl e)"
  "note_then (noting (Inr x)) f = f x"
  "snd (noting r) = r" "fst (noting r) = []"
  by (auto simp: note_then_def noting_def split: prod.split)

lemma snd_note_then: "snd (note_then m f) = and_then (snd m) (\<lambda>x. snd (f x))"
  by (cases m; cases "snd m") (auto simp: note_then_def split: prod.split)

lemma note_then_assoc: "note_then (note_then m f) g = note_then m (\<lambda>x. note_then (f x) g)"
  by (cases m; cases "snd m") (auto simp: note_then_def split: prod.split sum.split)

lemma note_then_cong: "(\<And>x. snd m = Inr x \<Longrightarrow> f x = g x) \<Longrightarrow> note_then m f = note_then m g"
  by (cases m; cases "snd m") (auto simp: note_then_def)

lemma note_then_noting: "note_then m (\<lambda>x. noting (Inr x)) = m"
  by (cases m; cases "snd m") (auto simp: note_then_def noting_def)

lemma in_bounds_noting [fault_free]: "in_bounds r \<Longrightarrow> in_bounds (snd (noting r))"
  by simp

lemma in_bounds_note_then [fault_free]:
  "in_bounds (snd m) \<Longrightarrow> (\<And>x. snd m = Inr x \<Longrightarrow> in_bounds (snd (f x))) \<Longrightarrow> in_bounds (snd (note_then m f))"
  unfolding snd_note_then by (rule in_bounds_and_then)

lemma fst_note_then:
  "set (fst (note_then m f)) = set (fst m) \<union> (case snd m of Inl e \<Rightarrow> {} | Inr x \<Rightarrow> set (fst (f x)))"
  by (cases m; cases "snd m") (auto simp: note_then_def split: prod.split)

subsection \<open>Leaves\<close>

type_synonym leaf = "string \<times> ArgTags \<times> arg_type \<times> arg_value"

fun leaves :: "obj \<Rightarrow> leaf list" where
  "leaves [] = []"
| "leaves (Ob_ignored # fs) = leaves fs"
| "leaves (Ob_nested name tags gs # fs) = leaves gs @ leaves fs"
| "leaves (Ob_option name tags t v # fs) = (name, tags, t, v) # leaves fs"

definition leaf_value :: "leaf \<Rightarrow> arg_value" where
  "leaf_value l = snd (snd (snd l))"

definition leaf_type :: "leaf \<Rightarrow> arg_type" where
  "leaf_type l = fst (snd (snd l))"

definition leaf_tags :: "leaf \<Rightarrow> ArgTags" where
  "leaf_tags l = fst (snd l)"

lemma leaf_simps [simp]:
  "leaf_value (n, tags, t, v) = v" "leaf_type (n, tags, t, v) = t" "leaf_tags (n, tags, t, v) = tags"
  by (simp_all add: leaf_value_def leaf_type_def leaf_tags_def)

abbreviation values_of :: "obj \<Rightarrow> arg_value list" where
  "values_of object \<equiv> map leaf_value (leaves object)"

fun refill :: "obj \<Rightarrow> arg_value list \<Rightarrow> obj" where
  "refill [] vs = []"
| "refill (Ob_ignored # fs) vs = Ob_ignored # refill fs vs"
| "refill (Ob_nested name tags gs # fs) vs =
     Ob_nested name tags (refill gs (take (length (leaves gs)) vs)) # refill fs (drop (length (leaves gs)) vs)"
| "refill (Ob_option name tags t v # fs) vs = Ob_option name tags t (hd vs) # refill fs (tl vs)"

lemma leaves_refill:
  "length vs = length (leaves fs) \<Longrightarrow> leaves (refill fs vs) = map2 (\<lambda>(n, tags, t, _) v. (n, tags, t, v)) (leaves fs) vs"
proof (induction fs vs rule: refill.induct)
  case (3 name tags gs fs vs)
  then have "zip (leaves gs @ leaves fs) vs =
      zip (leaves gs) (take (length (leaves gs)) vs) @ zip (leaves fs) (drop (length (leaves gs)) vs)"
    by (simp add: zip_append1)
  then show ?case
    using 3 by simp
next
  case (4 name tags t v fs vs)
  then show ?case
    by (cases vs) auto
qed auto

lemma values_of_refill:
  "length vs = length (leaves fs) \<Longrightarrow> values_of (refill fs vs) = vs"
  "length vs = length (leaves fs) \<Longrightarrow> map leaf_type (leaves (refill fs vs)) = map leaf_type (leaves fs)"
  "length vs = length (leaves fs) \<Longrightarrow> map leaf_tags (leaves (refill fs vs)) = map leaf_tags (leaves fs)"
  by (auto simp: leaves_refill intro!: nth_equalityI split: prod.splits)

lemma type_of_refill [simp]: "type_of_obj (refill fs vs) = type_of_obj fs"
  by (induction fs vs rule: refill.induct) auto

fun leaf_loop ::
  "(string \<Rightarrow> ArgTags \<Rightarrow> arg_type \<Rightarrow> arg_value \<Rightarrow> 's \<Rightarrow> (arg_value \<times> 's) noted) \<Rightarrow> leaf list \<Rightarrow> 's \<Rightarrow> (arg_value list \<times> 's) noted" where
  "leaf_loop step [] st = noting (Inr ([], st))"
| "leaf_loop step ((name, tags, t, v) # ls) st =
     note_then (step name tags t v st) (\<lambda>(v, st).
       note_then (leaf_loop step ls st) (\<lambda>(vs, st). noting (Inr (v # vs, st))))"

lemma leaf_loop_append:
  "leaf_loop step (xs @ ys) st =
   note_then (leaf_loop step xs st) (\<lambda>(vs, st). note_then (leaf_loop step ys st) (\<lambda>(ws, st). noting (Inr (vs @ ws, st))))"
proof (induction xs arbitrary: st)
  case Nil
  then show ?case
    by (simp add: case_prod_unfold note_then_noting)
next
  case (Cons x xs)
  then show ?case
    by (cases x) (simp add: note_then_assoc case_prod_unfold)
qed

lemma leaf_loop_length: "snd (leaf_loop step ls st) = Inr (vs, st') \<Longrightarrow> length vs = length ls"
  by (induction ls arbitrary: st vs) (auto simp: snd_note_then and_then_Inr_iff)

theorem for_each_option_loop:
  "for_each_option step fs st =
   note_then (leaf_loop step (leaves fs) st) (\<lambda>(vs, st). noting (Inr (refill fs vs, st)))"
proof (induction step fs st rule: for_each_option.induct)
  case (3 step name tags gs fs st)
  have "for_each_option step (Ob_nested name tags gs # fs) st =
      note_then (leaf_loop step (leaves gs) st) (\<lambda>(vs, st).
        note_then (for_each_option step fs st) (\<lambda>(fs, st). noting (Inr (Ob_nested name tags (refill gs vs) # fs, st))))"
    using 3 by (simp add: note_then_assoc case_prod_unfold)
  also have "\<dots> = note_then (leaf_loop step (leaves gs) st) (\<lambda>(vs, st).
        note_then (leaf_loop step (leaves fs) st) (\<lambda>(ws, st).
          noting (Inr (refill (Ob_nested name tags gs # fs) (vs @ ws), st))))"
  proof (intro note_then_cong)
    fix x
    assume x: "snd (leaf_loop step (leaves gs) st) = Inr x"
    obtain vs st' where vs: "x = (vs, st')" "length vs = length (leaves gs)"
      using x by (cases x) (auto dest: leaf_loop_length)
    have "for_each_option step fs st' =
        note_then (leaf_loop step (leaves fs) st') (\<lambda>(vs, st). noting (Inr (refill fs vs, st)))"
      using 3 by simp
    then show "(case x of (vs, st) \<Rightarrow>
        note_then (for_each_option step fs st) (\<lambda>(fs, st). noting (Inr (Ob_nested name tags (refill gs vs) # fs, st)))) =
      (case x of (vs, st) \<Rightarrow> note_then (leaf_loop step (leaves fs) st) (\<lambda>(ws, st).
          noting (Inr (refill (Ob_nested name tags gs # fs) (vs @ ws), st))))"
      using vs by (simp add: note_then_assoc case_prod_unfold)
  qed
  also have "\<dots> = note_then (leaf_loop step (leaves (Ob_nested name tags gs # fs)) st)
      (\<lambda>(vs, st). noting (Inr (refill (Ob_nested name tags gs # fs) vs, st)))"
    by (simp add: leaf_loop_append note_then_assoc case_prod_unfold)
  finally show ?case .
next
  case (4 step name tags t v fs st)
  then show ?case
    by (simp add: note_then_assoc case_prod_unfold)
qed (simp_all add: note_then_assoc case_prod_unfold)

end
