(* ===== verification/Arg_Material_Facts.thy ===== *)
theory Arg_Material_Facts
  imports Arg_Walk
begin

text \<open>
  What a materialized object is: each option settled by the sources that have a value for it, and the
  validation of the whole.
\<close>

subsection \<open>The contract of the walks\<close>

text \<open>A step looks at the presence of its own option only, may set it, and goes on to the next index:
  \<open>R i tags t v b v' b'\<close> says how the value and the presence of option \<open>i\<close> change. On presence lists
  that \<open>fit\<close> and options that are \<open>ok\<close> it reads inside the vectors.\<close>

locale indexed_walk =
  fixes step :: "string \<Rightarrow> ArgTags \<Rightarrow> arg_type \<Rightarrow> arg_value \<Rightarrow> nat \<times> PresenceList \<Rightarrow> (arg_value \<times> nat \<times> PresenceList) noted"
    and R :: "nat \<Rightarrow> ArgTags \<Rightarrow> arg_type \<Rightarrow> arg_value \<Rightarrow> bool \<Rightarrow> arg_value \<Rightarrow> bool \<Rightarrow> bool"
    and fits :: "PresenceList \<Rightarrow> bool"
    and ok :: "ArgTags \<Rightarrow> arg_type \<Rightarrow> bool"
  assumes step_result: "snd (step name tags t v (i, P)) = Inr (v', st) \<Longrightarrow> i < length P \<Longrightarrow>
      \<exists>b. st = (i + 1, P[i := b]) \<and> R i tags t v (P ! i) v' b"
    and step_in_bounds: "fits P \<Longrightarrow> ok tags t \<Longrightarrow> in_bounds (snd (step name tags t v (i, P)))"
    and step_fits: "fits P \<Longrightarrow> snd (step name tags t v (i, P)) = Inr (v', j, P') \<Longrightarrow> fits P'"
begin

lemma walk_result:
  "snd (leaf_loop step ls (i, P)) = Inr (vs, st) \<Longrightarrow> i + length ls \<le> length P \<Longrightarrow>
    \<exists>P'. st = (i + length ls, P') \<and> length P' = length P \<and> length vs = length ls \<and>
      (\<forall>k < length ls. R (i + k) (leaf_tags (ls ! k)) (leaf_type (ls ! k)) (leaf_value (ls ! k)) (P ! (i + k)) (vs ! k) (P' ! (i + k))) \<and>
      (\<forall>m. m < i \<or> i + length ls \<le> m \<longrightarrow> P' ! m = P ! m)"
proof (induction ls arbitrary: i P vs st)
  case (Cons l ls)
  obtain name tags t v where l: "l = (name, tags, t, v)"
    by (cases l)
  obtain w st1 ws where s: "snd (step name tags t v (i, P)) = Inr (w, st1)" "snd (leaf_loop step ls st1) = Inr (ws, st)"
    "vs = w # ws"
    using Cons.prems(1) by (auto simp: l snd_note_then and_then_Inr_iff)
  obtain b where b: "st1 = (i + 1, P[i := b])" "R i tags t v (P ! i) w b"
    using step_result [OF s(1)] Cons.prems(2) by auto
  obtain P' where P': "st = (i + 1 + length ls, P')" "length P' = length P" "length ws = length ls"
    "\<forall>k < length ls. R (i + 1 + k) (leaf_tags (ls ! k)) (leaf_type (ls ! k)) (leaf_value (ls ! k)) (P[i := b] ! (i + 1 + k)) (ws ! k) (P' ! (i + 1 + k))"
    "\<forall>m. m < i + 1 \<or> i + 1 + length ls \<le> m \<longrightarrow> P' ! m = P[i := b] ! m"
    using Cons.IH [of "i + 1" "P[i := b]" ws st] s(2) b(1) Cons.prems(2) by auto
  have "P' ! i = b"
    using P'(5) [rule_format, of i] Cons.prems(2) by simp
  then have "R (i + k) (leaf_tags ((l # ls) ! k)) (leaf_type ((l # ls) ! k)) (leaf_value ((l # ls) ! k)) (P ! (i + k)) (vs ! k) (P' ! (i + k))"
    if "k < length (l # ls)" for k
    using that b(2) P'(4) by (cases k) (auto simp: l s(3))
  moreover have "P' ! m = P ! m" if "m < i \<or> i + length (l # ls) \<le> m" for m
    using that P'(5) [rule_format, of m] by auto
  ultimately show ?case
    using P'(1-3) s(3) by auto
qed simp

lemma walk_in_bounds:
  "fits P \<Longrightarrow> (\<And>l. l \<in> set ls \<Longrightarrow> ok (leaf_tags l) (leaf_type l)) \<Longrightarrow> in_bounds (snd (leaf_loop step ls (i, P)))"
proof (induction ls arbitrary: i P)
  case (Cons l ls)
  obtain name tags t v where l: "l = (name, tags, t, v)"
    by (cases l)
  have "ok tags t"
    using Cons.prems(2) [of l] by (simp add: l)
  then show ?case
    using Cons.prems Cons.IH unfolding l leaf_loop.simps
    by (intro in_bounds_note_then) (auto intro!: step_in_bounds in_bounds_note_then dest: step_fits)
qed simp

text \<open>The same of the walk over the object.\<close>

lemma object_result:
  assumes "snd (for_each_option step object (0, P)) = Inr (object', st)" "length (leaves object) \<le> length P"
  shows "\<exists>P'. st = (length (leaves object), P') \<and> length P' = length P \<and> object' = refill object (values_of object') \<and>
      length (leaves object') = length (leaves object) \<and>
      (\<forall>k < length (leaves object). R k (leaf_tags (leaves object ! k)) (leaf_type (leaves object ! k))
        (leaf_value (leaves object ! k)) (P ! k) (leaf_value (leaves object' ! k)) (P' ! k)) \<and>
      (\<forall>m. length (leaves object) \<le> m \<longrightarrow> P' ! m = P ! m)"
proof -
  obtain vs where vs: "snd (leaf_loop step (leaves object) (0, P)) = Inr (vs, st)" "object' = refill object vs"
    using assms(1) by (auto simp: for_each_option_loop snd_note_then and_then_Inr_iff)
  obtain P' where P': "st = (length (leaves object), P')" "length P' = length P" "length vs = length (leaves object)"
    "\<forall>k < length (leaves object). R k (leaf_tags (leaves object ! k)) (leaf_type (leaves object ! k))
      (leaf_value (leaves object ! k)) (P ! k) (vs ! k) (P' ! k)"
    "\<forall>m. length (leaves object) \<le> m \<longrightarrow> P' ! m = P ! m"
    using walk_result [OF vs(1)] assms(2) by auto
  have v: "values_of object' = vs"
    using values_of_refill(1) P'(3) vs(2) by blast
  then have "length (leaves object') = length (leaves object)"
    using P'(3) by (metis length_map)
  moreover have "leaf_value (leaves object' ! k) = vs ! k" if "k < length (leaves object)" for k
    using v that calculation by (metis nth_map)
  ultimately show ?thesis
    using P' v vs(2) by auto
qed

lemma object_in_bounds:
  "fits P \<Longrightarrow> (\<And>l. l \<in> set (leaves object) \<Longrightarrow> ok (leaf_tags l) (leaf_type l)) \<Longrightarrow>
    in_bounds (snd (for_each_option step object (0, P)))"
  unfolding for_each_option_loop by (intro in_bounds_note_then walk_in_bounds) auto

end

subsection \<open>The walks of the materializer\<close>

text \<open>A default that is a number has a field it converts to.\<close>

definition default_compiles :: "ArgTags \<Rightarrow> arg_type \<Rightarrow> bool" where
  "default_compiles tags t \<longleftrightarrow>
     (case tg_default_value tags of
        None \<Rightarrow> True
      | Some (Tv_string _) \<Rightarrow> True
      | Some d \<Rightarrow> convert_default (scalar_of t) d \<noteq> None)"

definition presence_fits :: "ArgSchema \<Rightarrow> PresenceList \<Rightarrow> bool" where
  "presence_fits schema P \<longleftrightarrow> sc_user_spec_count schema \<le> length (sc_specs schema) \<and> length P = length (sc_specs schema)"

lemma contextual_Inr [simp]: "contextual_argparser_error spec d r = Inr x \<longleftrightarrow> r = Inr x"
  by (auto simp: contextual_argparser_error_def arg_fail_def split: sum.splits halt.splits)

lemma in_bounds_contextual [fault_free]: "in_bounds r \<Longrightarrow> in_bounds (contextual_argparser_error spec d r)"
  by (auto simp: contextual_argparser_error_def split: sum.splits halt.splits)

lemma index_range_simps [simp]:
  "index_range ok d n = Inr u \<longleftrightarrow> ok" "in_bounds (index_range ok d n)"
  by (auto simp: index_range_def)

lemma in_bounds_assign [fault_free]:
  "in_bounds (assign_text_to_field config spec t text source v)"
  by (auto simp: assign_text_to_field_def intro!: fault_free)

lemma in_bounds_default [fault_free]:
  assumes "default_compiles tags t"
  shows "in_bounds (apply_default_option config spec tags t v)"
proof -
  have "in_bounds (assign_default_value t ci sep d v)" if "tg_default_value tags = Some d" for ci sep d
    using assms that in_bounds_assign_text
    by (auto simp: assign_default_value_def default_compiles_def split: tag_value.splits option.splits)
  then show ?thesis
    by (auto simp: apply_default_option_def assign_default_to_field_def intro!: fault_free split: option.split)
qed

lemma in_bounds_raw_values [fault_free]: "in_bounds (snd (assign_raw_values config spec t texts v))"
  by (induction texts arbitrary: v) (auto intro!: fault_free)

lemma in_bounds_one_option [fault_free]:
  "in_bounds (snd (materialize_one_option env config spec raw t already v))"
  by (auto simp: materialize_one_option_def intro!: fault_free split: option.split)

interpretation dw: indexed_walk "default_step config schema"
  "\<lambda>i tags t v b v' b'. i < sc_user_spec_count schema \<and>
     (\<exists>d. apply_default_option config (sc_specs schema ! i) tags t v = Inr (v', d) \<and> b' = (d \<or> b))"
  "presence_fits schema" default_compiles for config schema
proof unfold_locales
  fix name tags t v i and P :: PresenceList and v' st
  assume "snd (default_step config schema name tags t v (i, P)) = Inr (v', st)" "i < length P"
  then show "\<exists>b. st = (i + 1, P[i := b]) \<and> i < sc_user_spec_count schema \<and>
      (\<exists>d. apply_default_option config (sc_specs schema ! i) tags t v = Inr (v', d) \<and> b = (d \<or> P ! i))"
    by (auto simp: default_step_def and_then_Inr_iff byte_at_def vec_set_def split: if_splits intro: exI [of _ True] exI [of _ "P ! i"])
next
  fix name tags t v i and P :: PresenceList
  assume "presence_fits schema P" "default_compiles tags t"
  then show "in_bounds (snd (default_step config schema name tags t v (i, P)))"
    by (auto simp: default_step_def presence_fits_def intro!: fault_free)
qed (auto simp: default_step_def presence_fits_def and_then_Inr_iff byte_at_def vec_set_def split: if_splits)

interpretation mw: indexed_walk "materialize_step env config schema raw"
  "\<lambda>i tags t v b v' b'. i < sc_user_spec_count schema \<and> i < length raw \<and>
     (\<exists>d. snd (materialize_one_option env config (sc_specs schema ! i) (raw ! i) t b v) = Inr (v', d) \<and> b' = (d \<or> b))"
  "presence_fits schema" "\<lambda>tags t. True" for env config schema raw
proof unfold_locales
  fix name tags t v i and P :: PresenceList and v' st
  assume "snd (materialize_step env config schema raw name tags t v (i, P)) = Inr (v', st)" "i < length P"
  then show "\<exists>b. st = (i + 1, P[i := b]) \<and> i < sc_user_spec_count schema \<and> i < length raw \<and>
      (\<exists>d. snd (materialize_one_option env config (sc_specs schema ! i) (raw ! i) t (P ! i) v) = Inr (v', d) \<and> b = (d \<or> P ! i))"
    by (auto simp: materialize_step_def snd_note_then and_then_Inr_iff byte_at_def vec_set_def split: if_splits
        intro: exI [of _ True] exI [of _ "P ! i"])
next
  fix name tags t v i and P :: PresenceList
  assume "presence_fits schema P"
  then show "in_bounds (snd (materialize_step env config schema raw name tags t v (i, P)))"
    by (auto simp: materialize_step_def presence_fits_def intro!: fault_free)
qed (auto simp: materialize_step_def presence_fits_def snd_note_then and_then_Inr_iff byte_at_def vec_set_def split: if_splits)

interpretation iw: indexed_walk "imported_step schema"
  "\<lambda>i tags t v b v' b'. i < sc_user_spec_count schema \<and> v' = v \<and> b' = imported_field_supplied v"
  "presence_fits schema" "\<lambda>tags t. True" for schema
  by unfold_locales (auto simp: imported_step_def presence_fits_def and_then_Inr_iff vec_set_Inr intro!: fault_free)

interpretation aw: indexed_walk "active_step schema supplied"
  "\<lambda>i tags t v b v' b'. i < sc_user_spec_count schema \<and> v' = v \<and> b' = field_relationship_active v (supplied ! i)"
  "presence_fits schema" "\<lambda>tags t. True" for schema supplied
  by unfold_locales (auto simp: active_step_def presence_fits_def and_then_Inr_iff vec_set_Inr vec_at_Inr intro!: fault_free)

subsection \<open>Validation\<close>

lemma required_loop_Inr:
  "list_all (\<lambda>i. i < length (sc_specs schema) \<and> i < length supplied) is \<Longrightarrow>
    required_loop schema supplied is = Inr () \<longleftrightarrow> list_all (\<lambda>i. sp_required (sc_specs schema ! i) \<longrightarrow> supplied ! i) is"
  by (induction "is") (auto simp: byte_at_def)

lemma check_required_indices_Inr:
  "length active = length (sc_specs schema) \<Longrightarrow>
    check_required_indices schema active index spec rs = Inr () \<longleftrightarrow>
      list_all (\<lambda>r. r < length (sc_specs schema) \<and> r \<noteq> index \<and> active ! r) rs"
  by (induction rs) (auto simp: byte_at_def)

lemma check_conflict_indices_Inr:
  "length active = length (sc_specs schema) \<Longrightarrow>
    check_conflict_indices schema active index spec cs = Inr () \<longleftrightarrow>
      list_all (\<lambda>c. c < length (sc_specs schema) \<and> c \<noteq> index \<and> \<not> active ! c) cs"
  by (induction cs) (auto simp: byte_at_def)

definition relations_hold :: "ArgSchema \<Rightarrow> PresenceList \<Rightarrow> nat \<Rightarrow> bool" where
  "relations_hold schema active i \<longleftrightarrow> (active ! i \<longrightarrow>
     list_all (\<lambda>r. r < length (sc_specs schema) \<and> r \<noteq> i \<and> active ! r) (sp_require_indices (sc_specs schema ! i)) \<and>
     list_all (\<lambda>c. c < length (sc_specs schema) \<and> c \<noteq> i \<and> \<not> active ! c) (sp_conflict_indices (sc_specs schema ! i)))"

lemma cross_field_loop_Inr:
  "length active = length (sc_specs schema) \<Longrightarrow> list_all (\<lambda>i. i < length (sc_specs schema)) is \<Longrightarrow>
    cross_field_loop schema active is = Inr () \<longleftrightarrow> list_all (relations_hold schema active) is"
  by (induction "is") (auto simp: byte_at_def relations_hold_def and_then_Inr_iff check_required_indices_Inr check_conflict_indices_Inr)

lemma in_bounds_required: "list_all (\<lambda>i. i < length (sc_specs schema) \<and> i < length supplied) is \<Longrightarrow>
    in_bounds (required_loop schema supplied is)"
  by (induction "is") (auto simp: byte_at_def)

lemma in_bounds_relations:
  "length active = length (sc_specs schema) \<Longrightarrow> in_bounds (check_required_indices schema active index spec rs)"
  "length active = length (sc_specs schema) \<Longrightarrow> in_bounds (check_conflict_indices schema active index spec cs)"
proof -
  assume len: "length active = length (sc_specs schema)"
  show "in_bounds (check_required_indices schema active index spec rs)"
    by (induction rs) (auto simp: byte_at_def len)
  show "in_bounds (check_conflict_indices schema active index spec cs)"
    by (induction cs) (auto simp: byte_at_def len)
qed

lemma in_bounds_cross:
  "length active = length (sc_specs schema) \<Longrightarrow> list_all (\<lambda>i. i < length (sc_specs schema)) is \<Longrightarrow>
    in_bounds (cross_field_loop schema active is)"
  by (induction "is") (auto simp: byte_at_def intro!: fault_free in_bounds_relations)

text \<open>The options that are active: supplied, with a value that counts.\<close>

definition active_options :: "ArgSchema \<Rightarrow> obj \<Rightarrow> PresenceList \<Rightarrow> PresenceList" where
  "active_options schema object supplied =
     map (\<lambda>i. i < length (leaves object) \<and> field_relationship_active (leaf_value (leaves object ! i)) (supplied ! i))
       [0..<length (sc_specs schema)]"

lemma mark_active_Inr:
  assumes "presence_fits schema supplied" "length (leaves object) \<le> length (sc_specs schema)"
    "snd (mark_active_options schema object supplied (replicate (length (sc_specs schema)) False)) = Inr active"
  shows "sc_user_spec_count schema = length (leaves object)" "active = active_options schema object supplied"
proof -
  let ?P = "replicate (length (sc_specs schema)) False"
  obtain object' i where w: "snd (for_each_option (active_step schema supplied) object (0, ?P)) = Inr (object', i, active)"
    "i = sc_user_spec_count schema"
    using assms(3) by (auto simp: mark_active_options_def snd_note_then and_then_Inr_iff split: if_splits)
  have A: "i = length (leaves object)" "length active = length (sc_specs schema)"
    "\<forall>k < length (leaves object). active ! k = field_relationship_active (leaf_value (leaves object ! k)) (supplied ! k)"
    "\<forall>m. length (leaves object) \<le> m \<longrightarrow> active ! m = ?P ! m"
    using aw.object_result [OF w(1)] assms(2) by auto
  show "sc_user_spec_count schema = length (leaves object)"
    using A(1) w(2) by simp
  show "active = active_options schema object supplied"
  proof (intro nth_equalityI)
    show "active ! i = active_options schema object supplied ! i" if "i < length active" for i
      using that A(2) A(3) [rule_format, of i] A(4) [rule_format, of i]
      by (cases "i < length (leaves object)") (auto simp: active_options_def)
  qed (simp add: A(2) active_options_def)
qed

lemma validate_materialized_Inr:
  assumes "presence_fits schema supplied" "length (leaves object) \<le> length (sc_specs schema)"
    "snd (validate_materialized_options schema object supplied) = Inr ()"
  shows "\<forall>i < sc_user_spec_count schema. (sp_required (sc_specs schema ! i) \<longrightarrow> supplied ! i) \<and>
    relations_hold schema (active_options schema object supplied) i"
proof -
  have user: "sc_user_spec_count schema \<le> length (sc_specs schema)" "length supplied = length (sc_specs schema)"
    using assms(1) by (simp_all add: presence_fits_def)
  obtain active where a: "validate_required_options schema supplied = Inr ()"
    "snd (mark_active_options schema object supplied (replicate (length (sc_specs schema)) False)) = Inr active"
    "validate_cross_field_constraints schema active = Inr ()"
    using assms(3) by (auto simp: validate_materialized_options_def snd_note_then and_then_Inr_iff)
  note active = mark_active_Inr(2) [OF assms(1,2) a(2)]
  have "length active = length (sc_specs schema)"
    by (simp add: active active_options_def)
  then show ?thesis
    using a(1,3) user required_loop_Inr [of schema supplied "[0..<sc_user_spec_count schema]"]
      cross_field_loop_Inr [of active schema "[0..<sc_user_spec_count schema]"]
    by (auto simp: validate_required_options_def validate_cross_field_constraints_def list_all_iff active)
qed

lemma in_bounds_validate_materialized [fault_free]:
  assumes "presence_fits schema supplied"
  shows "in_bounds (snd (validate_materialized_options schema object supplied))"
proof -
  have user: "sc_user_spec_count schema \<le> length (sc_specs schema)" "length supplied = length (sc_specs schema)"
    using assms by (simp_all add: presence_fits_def)
  let ?P = "replicate (length (sc_specs schema)) False"
  have walk: "in_bounds (snd (for_each_option (active_step schema supplied) object (0, ?P)))"
    using user by (intro aw.object_in_bounds) (auto simp: presence_fits_def)
  have len: "length active = length (sc_specs schema)"
    if marked: "snd (mark_active_options schema object supplied ?P) = Inr active" for active
  proof -
    obtain vs i where w: "snd (leaf_loop (active_step schema supplied) (leaves object) (0, ?P)) = Inr (vs, i, active)"
      using marked by (auto simp: mark_active_options_def for_each_option_loop snd_note_then and_then_Inr_iff split: if_splits)
    have "presence_fits schema P \<Longrightarrow> snd (leaf_loop (active_step schema supplied) ls (j, P)) = Inr (vs, i, active) \<Longrightarrow>
        presence_fits schema active" for ls j P vs
    proof (induction ls arbitrary: j P vs)
      case (Cons l ls)
      then show ?case
        by (cases l) (auto simp: snd_note_then and_then_Inr_iff dest: aw.step_fits)
    qed simp
    from this [OF _ w] show ?thesis
      using user by (simp add: presence_fits_def)
  qed
  show ?thesis
    unfolding validate_materialized_options_def
  proof (intro in_bounds_note_then in_bounds_noting)
    show "in_bounds (validate_required_options schema supplied)"
      unfolding validate_required_options_def using user by (intro in_bounds_required) (simp add: list_all_iff)
    show "in_bounds (snd (mark_active_options schema object supplied ?P))"
      unfolding mark_active_options_def using walk by (auto intro!: fault_free)
    show "in_bounds (validate_cross_field_constraints schema active)"
      if "snd (mark_active_options schema object supplied ?P) = Inr active" for active
      unfolding validate_cross_field_constraints_def using user len [OF that]
      by (intro in_bounds_cross) (auto simp: list_all_iff)
  qed
qed

end
