(* ===== verification/Arg_Schema_Facts.thy ===== *)
theory Arg_Schema_Facts
  imports Arg_Raw
begin

text \<open>
  What \<open>validate_schema_definition\<close> accepts, and what an accepted schema gives the parsers that look up
  names in it: the locale \<open>option_lookup\<close>, interpreted by the validated schemas.
\<close>

subsection \<open>Names\<close>

definition long_names_of :: "ArgSpec \<Rightarrow> string list" where
  "long_names_of spec =
     (if sp_positional spec then [] else [sp_long_name spec]) @ filter (\<lambda>alias. length alias \<noteq> 1) (sp_aliases spec)"

definition short_names_of :: "ArgSpec \<Rightarrow> string list" where
  "short_names_of spec =
     (if sp_positional spec \<or> sp_short_name spec = [] then [] else [sp_short_name spec]) @
     filter (\<lambda>alias. length alias = 1) (sp_aliases spec)"

definition alias_valid :: "char \<Rightarrow> string \<Rightarrow> bool" where
  "alias_valid sep alias \<longleftrightarrow>
     (if length alias = 1 then is_short_option_character (hd alias) else is_valid_option_path alias sep)"

definition spec_names_valid :: "char \<Rightarrow> ArgSpec \<Rightarrow> bool" where
  "spec_names_valid sep spec \<longleftrightarrow>
     is_valid_option_path (sp_long_name spec) sep \<and> \<not> (sp_positional spec \<and> sp_flag spec) \<and>
     (\<not> sp_positional spec \<and> sp_short_name spec \<noteq> [] \<longrightarrow> is_short_option_character (hd (sp_short_name spec))) \<and>
     list_all (alias_valid sep) (sp_aliases spec)"

abbreviation name_list :: "names \<Rightarrow> string list" where
  "name_list ns \<equiv> map fst ns"

lemma check_name_Inr:
  "check_name schema kind ns name index = Inr ns' \<longleftrightarrow> name \<notin> set (name_list ns) \<and> ns' = ns @ [(name, index)]"
proof (cases "find (\<lambda>e. fst e = name) ns")
  case None
  then have "name \<notin> set (name_list ns)"
    by (auto simp: find_None_iff)
  with None show ?thesis
    by (auto simp: check_name_def)
next
  case (Some e)
  then have "name \<in> set (name_list ns)"
    by (auto simp: find_Some_iff intro: nth_mem imageI)
  with Some show ?thesis
    by (auto simp: check_name_def and_then_Inr_iff)
qed

text \<open>The names of \<open>ls\<close> and \<open>ss\<close> are new: they extend the lists without a repetition.\<close>

definition extend :: "nat \<Rightarrow> string list \<Rightarrow> names \<Rightarrow> names" where
  "extend index ls ns = ns @ map (\<lambda>l. (l, index)) ls"

lemma extend_simps [simp]:
  "extend index [] ns = ns" "extend index (l # ls) ns = extend index ls (ns @ [(l, index)])"
  "extend index (ls @ ls') ns = extend index ls' (extend index ls ns)"
  "name_list (extend index ls ns) = name_list ns @ ls"
  by (simp_all add: extend_def o_def)

lemma check_aliases_Inr:
  "distinct (name_list lns) \<Longrightarrow> distinct (name_list sns) \<Longrightarrow>
   check_aliases schema index spec as (lns, sns) = Inr ns \<longleftrightarrow>
     list_all (alias_valid (sc_nested_separator schema)) as \<and>
     distinct (name_list lns @ filter (\<lambda>a. length a \<noteq> 1) as) \<and> distinct (name_list sns @ filter (\<lambda>a. length a = 1) as) \<and>
     ns = (extend index (filter (\<lambda>a. length a \<noteq> 1) as) lns, extend index (filter (\<lambda>a. length a = 1) as) sns)"
proof (induction as arbitrary: lns sns)
  case (Cons a as)
  show ?case
  proof (cases "length a = 1")
    case True
    have "check_aliases schema index spec (a # as) (lns, sns) = Inr ns \<longleftrightarrow>
        is_short_option_character (hd a) \<and> a \<notin> set (name_list sns) \<and>
        check_aliases schema index spec as (lns, sns @ [(a, index)]) = Inr ns"
      using True by (cases "a = []") (auto simp: Let_def and_then_Inr_iff check_name_Inr)
    then show ?thesis
      using Cons.IH [of lns "sns @ [(a, index)]"] Cons.prems True
      by (cases "a \<in> set (name_list sns)") (auto simp: alias_valid_def)
  next
    case False
    have "check_aliases schema index spec (a # as) (lns, sns) = Inr ns \<longleftrightarrow>
        is_valid_option_path a (sc_nested_separator schema) \<and> a \<notin> set (name_list lns) \<and>
        check_aliases schema index spec as (lns @ [(a, index)], sns) = Inr ns"
      using False by (cases "a = []") (auto simp: Let_def and_then_Inr_iff check_name_Inr is_valid_option_path_def)
    then show ?thesis
      using Cons.IH [of "lns @ [(a, index)]" sns] Cons.prems False
      by (cases "a \<in> set (name_list lns)") (auto simp: alias_valid_def)
  qed
qed auto

lemma check_own_names_Inr:
  "check_own_names schema index spec (lns, sns) = Inr ns \<longleftrightarrow>
     (\<not> sp_positional spec \<longrightarrow> sp_long_name spec \<notin> set (name_list lns) \<and>
        (sp_short_name spec \<noteq> [] \<longrightarrow> is_short_option_character (hd (sp_short_name spec)) \<and>
           sp_short_name spec \<notin> set (name_list sns))) \<and>
     ns = (extend index (if sp_positional spec then [] else [sp_long_name spec]) lns,
           extend index (if sp_positional spec \<or> sp_short_name spec = [] then [] else [sp_short_name spec]) sns)"
  by (auto simp: check_own_names_def and_then_Inr_iff check_name_Inr)

lemma check_spec_Inr:
  assumes "distinct (name_list lns)" "distinct (name_list sns)"
  shows "check_spec schema index spec (lns, sns) = Inr ns \<longleftrightarrow>
     spec_names_valid (sc_nested_separator schema) spec \<and>
     distinct (name_list lns @ long_names_of spec) \<and> distinct (name_list sns @ short_names_of spec) \<and>
     ns = (extend index (long_names_of spec) lns, extend index (short_names_of spec) sns)"
proof -
  let ?ls = "if sp_positional spec then [] else [sp_long_name spec]"
  let ?ss = "if sp_positional spec \<or> sp_short_name spec = [] then [] else [sp_short_name spec]"
  have "check_spec schema index spec (lns, sns) = Inr ns \<longleftrightarrow>
      is_valid_option_path (sp_long_name spec) (sc_nested_separator schema) \<and> \<not> (sp_positional spec \<and> sp_flag spec) \<and>
      (\<not> sp_positional spec \<longrightarrow> sp_long_name spec \<notin> set (name_list lns) \<and>
        (sp_short_name spec \<noteq> [] \<longrightarrow> is_short_option_character (hd (sp_short_name spec)) \<and>
           sp_short_name spec \<notin> set (name_list sns))) \<and>
      check_aliases schema index spec (sp_aliases spec) (extend index ?ls lns, extend index ?ss sns) = Inr ns"
    by (auto simp: check_spec_def and_then_Inr_iff check_own_names_Inr)
  moreover have "distinct (name_list (extend index ?ls lns)) \<longleftrightarrow> (\<not> sp_positional spec \<longrightarrow> sp_long_name spec \<notin> set (name_list lns))"
    "distinct (name_list (extend index ?ss sns)) \<longleftrightarrow>
       (\<not> sp_positional spec \<and> sp_short_name spec \<noteq> [] \<longrightarrow> sp_short_name spec \<notin> set (name_list sns))"
    using assms by auto
  ultimately show ?thesis
    using check_aliases_Inr [of "extend index ?ls lns" "extend index ?ss sns" schema index spec "sp_aliases spec" ns]
    unfolding spec_names_valid_def long_names_of_def short_names_of_def
    by (cases "sp_positional spec"; cases "sp_short_name spec = []") (simp_all, blast+)
qed

lemma check_specs_Inr:
  "distinct (name_list lns) \<Longrightarrow> distinct (name_list sns) \<Longrightarrow>
   (\<exists>ns. check_specs schema index specs (lns, sns) = Inr ns) \<longleftrightarrow>
     list_all (spec_names_valid (sc_nested_separator schema)) specs \<and>
     distinct (name_list lns @ concat (map long_names_of specs)) \<and>
     distinct (name_list sns @ concat (map short_names_of specs))"
proof (induction specs arbitrary: index lns sns)
  case (Cons spec specs)
  let ?lns = "extend index (long_names_of spec) lns" and ?sns = "extend index (short_names_of spec) sns"
  have step: "(\<exists>ns. check_specs schema index (spec # specs) (lns, sns) = Inr ns) \<longleftrightarrow>
      spec_names_valid (sc_nested_separator schema) spec \<and> distinct (name_list ?lns) \<and> distinct (name_list ?sns) \<and>
      (\<exists>ns. check_specs schema (Suc index) specs (?lns, ?sns) = Inr ns)"
    unfolding check_specs.simps and_then_Inr_iff check_spec_Inr [OF Cons.prems] by (simp del: distinct_append)
  show ?case
  proof (cases "distinct (name_list ?lns) \<and> distinct (name_list ?sns)")
    case True
    then show ?thesis
      unfolding step using Cons.IH [of ?lns ?sns "Suc index"] by (simp del: distinct_append)
  next
    case False
    then show ?thesis
      unfolding step by auto
  qed
qed simp

subsection \<open>Positionals and references\<close>

lemma check_positionals_Inr:
  "check_positionals schema ps = Inr () \<longleftrightarrow>
     list_all (\<lambda>i. i < length (sc_specs schema)) ps \<and>
     list_all (\<lambda>i. \<not> sp_repeatable (sc_specs schema ! i)) (butlast ps)"
proof (induction ps)
  case (Cons p ps)
  then show ?case
    by (cases "p < length (sc_specs schema)") (auto simp: byte_at_def)
qed simp

text \<open>The option a reference of the spec at \<open>index\<close> means.\<close>

definition reference_target :: "ArgSchema \<Rightarrow> nat \<Rightarrow> ArgSpec \<Rightarrow> string \<Rightarrow> nat option" where
  "reference_target schema index spec reference =
     (case find_reference_index schema spec reference of
        None \<Rightarrow> None | Some target \<Rightarrow> if target = index then None else Some target)"

definition references_ok :: "ArgSchema \<Rightarrow> nat \<Rightarrow> ArgSpec \<Rightarrow> bool" where
  "references_ok schema index spec \<longleftrightarrow>
     (\<forall>r \<in> set (sp_requires_names spec @ sp_conflicts spec). reference_target schema index spec r \<noteq> None)"

definition resolved :: "ArgSchema \<Rightarrow> nat \<Rightarrow> ArgSpec \<Rightarrow> ArgSpec" where
  "resolved schema index spec =
     spec\<lparr>sp_require_indices := map (\<lambda>r. the (reference_target schema index spec r)) (sp_requires_names spec),
       sp_conflict_indices := map (\<lambda>r. the (reference_target schema index spec r)) (sp_conflicts spec)\<rparr>"

lemma resolve_references_Inr:
  "resolve_references schema index spec kind rs targets = (Inr (), ts) \<longleftrightarrow>
     (\<forall>r \<in> set rs. reference_target schema index spec r \<noteq> None) \<and>
     ts = targets @ map (\<lambda>r. the (reference_target schema index spec r)) rs"
proof (induction rs arbitrary: targets)
  case (Cons r rs)
  then show ?case
    by (auto simp: reference_target_def split: option.splits)
qed auto

lemma resolve_references_cases:
  assumes "resolve_references schema index spec kind rs [] = (r, ts)"
  shows "r = Inr () \<longleftrightarrow> (\<forall>x \<in> set rs. reference_target schema index spec x \<noteq> None)"
    "r = Inr () \<Longrightarrow> ts = map (\<lambda>x. the (reference_target schema index spec x)) rs"
  using resolve_references_Inr [of schema index spec kind rs "[]"] assms by auto

lemma resolve_spec_Inr:
  "resolve_spec schema index spec = (Inr (), spec') \<longleftrightarrow>
     references_ok schema index spec \<and> spec' = resolved schema index spec"
proof -
  obtain r1 t1 where 1: "resolve_references schema index spec ''requirement'' (sp_requires_names spec) [] = (r1, t1)"
    by fastforce
  obtain r2 t2 where 2: "resolve_references schema index spec ''conflict'' (sp_conflicts spec) [] = (r2, t2)"
    by fastforce
  note c = resolve_references_cases [OF 1] resolve_references_cases [OF 2]
  have "resolve_spec schema index spec = (Inr (), spec') \<longleftrightarrow>
      r1 = Inr () \<and> r2 = Inr () \<and> spec' = spec\<lparr>sp_require_indices := t1, sp_conflict_indices := t2\<rparr>"
    by (cases r1; cases r2) (auto simp: resolve_spec_def 1 2)
  then show ?thesis
    using c by (auto simp: references_ok_def resolved_def)
qed

lemma resolve_specs_Inr:
  "resolve_specs schema index count specs = (Inr (), specs') \<longleftrightarrow>
     count \<le> length specs \<and> (\<forall>i < count. references_ok schema (index + i) (specs ! i)) \<and>
     specs' = map2 (resolved schema) [index..<index + count] (take count specs) @ drop count specs"
proof (induction count arbitrary: index specs specs')
  case (Suc count)
  show ?case
  proof (cases specs)
    case (Cons spec ss)
    obtain r1 spec1 where one: "resolve_spec schema index spec = (r1, spec1)"
      by fastforce
    have upt: "[index..<index + Suc count] = index # [Suc index..<Suc index + count]"
      by (simp add: upt_rec)
    have "resolve_specs schema index (Suc count) specs = (Inr (), specs') \<longleftrightarrow>
        r1 = Inr () \<and> (\<exists>ss'. resolve_specs schema (Suc index) count ss = (Inr (), ss') \<and> specs' = spec1 # ss')"
      by (cases r1) (auto simp: Cons one map_prod_def split: prod.splits)
    also have "\<dots> \<longleftrightarrow> references_ok schema index spec \<and> count \<le> length ss \<and>
        (\<forall>i < count. references_ok schema (Suc index + i) (ss ! i)) \<and>
        specs' = resolved schema index spec # map2 (resolved schema) [Suc index..<Suc index + count] (take count ss) @ drop count ss"
      using resolve_spec_Inr [of schema index spec spec1] resolve_spec_Inr [of schema index spec "resolved schema index spec"]
      unfolding Suc.IH by (auto simp: one)
    finally show ?thesis
      unfolding upt by (auto simp: Cons All_less_Suc2)
  qed simp
qed auto

definition positionals_ordered :: "ArgSchema \<Rightarrow> bool" where
  "positionals_ordered schema \<longleftrightarrow>
     list_all (\<lambda>i. i < length (sc_specs schema)) (sc_positional_specs schema) \<and>
     list_all (\<lambda>i. \<not> sp_repeatable (sc_specs schema ! i)) (butlast (sc_positional_specs schema))"

definition names_unique :: "ArgSpec list \<Rightarrow> bool" where
  "names_unique specs \<longleftrightarrow> distinct (concat (map long_names_of specs)) \<and> distinct (concat (map short_names_of specs))"

lemma schema_validation_iff:
  "validate_schema_definition schema = (Inr (), schema') \<longleftrightarrow>
     validate_separator (sc_nested_separator schema) = Inr () \<and>
     list_all (spec_names_valid (sc_nested_separator schema)) (sc_specs schema) \<and> names_unique (sc_specs schema) \<and>
     positionals_ordered schema \<and> sc_user_spec_count schema \<le> length (sc_specs schema) \<and>
     (\<forall>i < sc_user_spec_count schema. references_ok schema i (sc_specs schema ! i)) \<and>
     schema' = schema\<lparr>sc_specs :=
       map2 (resolved schema) [0..<sc_user_spec_count schema] (take (sc_user_spec_count schema) (sc_specs schema)) @
       drop (sc_user_spec_count schema) (sc_specs schema)\<rparr>"
proof -
  let ?check = "and_then (validate_separator (sc_nested_separator schema)) (\<lambda>_.
    and_then (check_specs schema 0 (sc_specs schema) ([], [])) (\<lambda>_. check_positionals schema (sc_positional_specs schema)))"
  have ok: "?check = Inr () \<longleftrightarrow> validate_separator (sc_nested_separator schema) = Inr () \<and>
      (\<exists>ns. check_specs schema 0 (sc_specs schema) ([], []) = Inr ns) \<and>
      check_positionals schema (sc_positional_specs schema) = Inr ()"
    by (auto simp: and_then_Inr_iff)
  have "validate_schema_definition schema = (Inr (), schema') \<longleftrightarrow> ?check = Inr () \<and>
      (\<exists>specs. resolve_specs schema 0 (sc_user_spec_count schema) (sc_specs schema) = (Inr (), specs) \<and>
        schema' = schema\<lparr>sc_specs := specs\<rparr>)"
    by (auto simp: validate_schema_definition_def split: sum.splits prod.splits)
  moreover have "(\<exists>ns. check_specs schema 0 (sc_specs schema) ([], []) = Inr ns) \<longleftrightarrow>
      list_all (spec_names_valid (sc_nested_separator schema)) (sc_specs schema) \<and> names_unique (sc_specs schema)"
    using check_specs_Inr [of "[]" "[]" schema 0 "sc_specs schema"] by (simp add: names_unique_def del: split_paired_Ex)
  ultimately show ?thesis
    unfolding ok check_positionals_Inr positionals_ordered_def [symmetric] resolve_specs_Inr by auto
qed

text \<open>The documents (\<open>docs/argparser_hardening_plan.md\<close>) give a reference the options it names, and call
  a reference invalid when it names none, its own option, or more than one. \<open>reference_options\<close> is what a
  reference names in each of its forms; the code takes the first of them.\<close>

definition options_with :: "(ArgSpec \<Rightarrow> bool) \<Rightarrow> ArgSchema \<Rightarrow> nat list" where
  "options_with P schema = filter (\<lambda>i. P (sc_specs schema ! i)) [0..<length (sc_specs schema)]"

definition reference_options :: "ArgSchema \<Rightarrow> ArgSpec \<Rightarrow> string \<Rightarrow> nat list" where
  "reference_options schema source reference =
     (if starts_with reference ''--'' then options_with (has_long_name (drop 2 reference)) schema
      else if starts_with reference ''-'' \<and> length reference = 2 then options_with (has_short_name (drop 1 reference)) schema
      else
        let normalized = resolve_reference_name (sc_nested_separator schema) source reference;
            named = options_with (spec_matches_reference normalized) schema in
        if normalized = [] then []
        else if named \<noteq> [] then named
        else if length reference = 1 then options_with (has_short_name reference) schema
        else [])"

definition unambiguous :: "ArgSchema \<Rightarrow> ArgSpec \<Rightarrow> bool" where
  "unambiguous schema spec \<longleftrightarrow>
     list_all (\<lambda>r. length (reference_options schema spec r) \<le> 1) (sp_requires_names spec @ sp_conflicts spec)"

definition linked :: "ArgSchema \<Rightarrow> ArgSpec \<Rightarrow> ArgSpec" where
  "linked schema spec =
     spec\<lparr>sp_require_indices := concat (map (reference_options schema spec) (sp_requires_names spec)),
       sp_conflict_indices := concat (map (reference_options schema spec) (sp_conflicts spec))\<rparr>"

lemma index_where_first:
  "index_where P xs = (case filter (\<lambda>i. P (xs ! i)) [0..<length xs] of [] \<Rightarrow> None | i # _ \<Rightarrow> Some i)"
proof (induction xs)
  case (Cons x xs)
  have upt: "[0..<length (x # xs)] = 0 # map Suc [0..<length xs]"
    by (metis length_Cons map_Suc_upt upt_conv_Cons zero_less_Suc)
  show ?case
    unfolding upt by (simp add: Cons filter_map o_def split: list.split)
qed simp

lemma find_reference_first:
  "find_reference_index schema spec r = (case reference_options schema spec r of [] \<Rightarrow> None | i # _ \<Rightarrow> Some i)"
  by (auto simp: find_reference_index_def reference_options_def Let_def find_long_index_def find_short_index_def
      find_exact_reference_index_def options_with_def index_where_first split: list.split)

lemma unambiguous_target:
  assumes "unambiguous schema spec" "r \<in> set (sp_requires_names spec @ sp_conflicts spec)"
  shows "reference_target schema i spec r = Some j \<longleftrightarrow> reference_options schema spec r = [j] \<and> j \<noteq> i"
proof -
  have "length (reference_options schema spec r) \<le> 1"
    using assms by (auto simp: unambiguous_def list_all_iff)
  then show ?thesis
    by (cases "reference_options schema spec r") (auto simp: reference_target_def find_reference_first)
qed

lemma unambiguous_references:
  assumes "unambiguous schema spec"
  shows "references_ok schema i spec \<longleftrightarrow>
      (\<forall>r \<in> set (sp_requires_names spec @ sp_conflicts spec). \<exists>j. reference_options schema spec r = [j] \<and> j \<noteq> i)"
    "references_ok schema i spec \<Longrightarrow> resolved schema i spec = linked schema spec"
proof -
  note target = unambiguous_target [OF assms]
  show "references_ok schema i spec \<longleftrightarrow>
      (\<forall>r \<in> set (sp_requires_names spec @ sp_conflicts spec). \<exists>j. reference_options schema spec r = [j] \<and> j \<noteq> i)"
    unfolding references_ok_def using target by (intro ball_cong) auto
  assume ok: "references_ok schema i spec"
  have one: "[the (reference_target schema i spec r)] = reference_options schema spec r"
    if "r \<in> set (sp_requires_names spec @ sp_conflicts spec)" for r
  proof -
    have "reference_target schema i spec r \<noteq> None"
      using bspec [OF ok [unfolded references_ok_def] that] .
    then show ?thesis
      using target [OF that, where i = i] by (metis option.exhaust_sel)
  qed
  have "map (\<lambda>r. the (reference_target schema i spec r)) rs = concat (map (reference_options schema spec) rs)"
    if "set rs \<subseteq> set (sp_requires_names spec @ sp_conflicts spec)" for rs
    using that by (induction rs) (auto simp: one [symmetric])
  then show "resolved schema i spec = linked schema spec"
    by (simp add: resolved_def linked_def)
qed

text \<open>C33 (functional). When every reference of \<open>requires\<close> and \<open>conflicts\<close> names at most one option, a
  schema is accepted exactly when its separator is a visible character outside names, every name is
  well-formed, no two options share a long or a short name or alias, a repeatable positional is the last
  one, and every reference names one option and not its own; the accepted schema holds the indices of the
  options named.\<close>

theorem schema_validation_exact:
  assumes "\<forall>spec \<in> set (take (sc_user_spec_count schema) (sc_specs schema)). unambiguous schema spec"
  shows "validate_schema_definition schema = (Inr (), schema') \<longleftrightarrow>
     validate_separator (sc_nested_separator schema) = Inr () \<and>
     list_all (spec_names_valid (sc_nested_separator schema)) (sc_specs schema) \<and> names_unique (sc_specs schema) \<and>
     positionals_ordered schema \<and> sc_user_spec_count schema \<le> length (sc_specs schema) \<and>
     (\<forall>i < sc_user_spec_count schema. let spec = sc_specs schema ! i in
        \<forall>r \<in> set (sp_requires_names spec @ sp_conflicts spec). \<exists>j. reference_options schema spec r = [j] \<and> j \<noteq> i) \<and>
     schema' = schema\<lparr>sc_specs :=
       map (linked schema) (take (sc_user_spec_count schema) (sc_specs schema)) @
       drop (sc_user_spec_count schema) (sc_specs schema)\<rparr>"
proof -
  let ?n = "sc_user_spec_count schema" and ?specs = "sc_specs schema"
  have one: "unambiguous schema (?specs ! i)" if "i < ?n" "?n \<le> length ?specs" for i
    using assms that by (metis in_set_conv_nth length_take min.absorb2 nth_take)
  have links: "map2 (resolved schema) [0..<?n] (take ?n ?specs) = map (linked schema) (take ?n ?specs)"
    if "?n \<le> length ?specs" "\<forall>i < ?n. references_ok schema i (?specs ! i)"
    using that one unambiguous_references(2) by (auto intro!: nth_equalityI)
  have refs: "(\<forall>i < ?n. references_ok schema i (?specs ! i)) \<longleftrightarrow>
      (\<forall>i < ?n. let spec = ?specs ! i in
        \<forall>r \<in> set (sp_requires_names spec @ sp_conflicts spec). \<exists>j. reference_options schema spec r = [j] \<and> j \<noteq> i)"
    if "?n \<le> length ?specs"
    using one that unambiguous_references(1) by (simp add: Let_def)
  show ?thesis
    unfolding schema_validation_iff using links refs by auto
qed

definition pair_schema :: ArgSchema where
  "pair_schema =
     (push_user_spec (new_spec\<lparr>sp_long_name := ''b'', sp_requires_names := [''a'']\<rparr>)
       (push_user_spec (new_spec\<lparr>sp_long_name := ''a''\<rparr>) (new_schema CHR ''.'')))\<lparr>sc_user_spec_count := 2\<rparr>"

lemma schema_validation_exact_witness:
  "names_unique (sc_specs pair_schema) \<and> reference_options pair_schema (sc_specs pair_schema ! 1) ''a'' = [0] \<and>
   sp_require_indices (sc_specs (snd (validate_schema_definition pair_schema)) ! 1) = [0]"
proof -
  let ?s = "snd (validate_schema_definition pair_schema)"
  have v: "fst (validate_schema_definition pair_schema) = Inr ()" "map sp_require_indices (sc_specs ?s) = [[], [0]]"
    "reference_options pair_schema (sc_specs pair_schema ! 1) ''a'' = [0]"
    "list_all (unambiguous pair_schema) (take (sc_user_spec_count pair_schema) (sc_specs pair_schema))"
    by code_simp+
  from v(1) have "validate_schema_definition pair_schema = (Inr (), ?s)"
    by (simp add: prod_eq_iff)
  moreover have "\<forall>spec \<in> set (take (sc_user_spec_count pair_schema) (sc_specs pair_schema)). unambiguous pair_schema spec"
    using v(4) by (simp only: list_all_iff)
  ultimately have "names_unique (sc_specs pair_schema)"
    using schema_validation_exact [of pair_schema ?s] by blast
  with v(2,3) show ?thesis
    by (auto simp: map_eq_Cons_conv)
qed

subsection \<open>Lookup in an accepted schema\<close>

text \<open>The laws the parsers of command lines rely on: an option is found under its name and under its
  short name, a name has no equals sign, and the positionals are indices of positional specs.\<close>

locale option_lookup =
  fixes accepted :: "ArgSchema \<Rightarrow> bool"
  assumes long_found: "accepted s \<Longrightarrow> i < length (sc_specs s) \<Longrightarrow> has_long_name n (sc_specs s ! i) \<Longrightarrow>
      find_long_index s n = Some i"
    and short_found: "accepted s \<Longrightarrow> i < length (sc_specs s) \<Longrightarrow> has_short_name n (sc_specs s ! i) \<Longrightarrow>
      find_short_index s n = Some i"
    and long_name_plain: "accepted s \<Longrightarrow> i < length (sc_specs s) \<Longrightarrow> has_long_name n (sc_specs s ! i) \<Longrightarrow>
      n \<noteq> [] \<and> CHR ''='' \<notin> set n"
    and short_name_plain: "accepted s \<Longrightarrow> i < length (sc_specs s) \<Longrightarrow> has_short_name n (sc_specs s ! i) \<Longrightarrow>
      length n = 1 \<and> n \<noteq> ''-'' \<and> n \<noteq> ''=''"
    and positional_index: "accepted s \<Longrightarrow> i \<in> set (sc_positional_specs s) \<longleftrightarrow>
      i < length (sc_specs s) \<and> sp_positional (sc_specs s ! i)"
    and positionals_distinct: "accepted s \<Longrightarrow> distinct (sc_positional_specs s)"
    and repeatable_last: "accepted s \<Longrightarrow> i \<in> set (butlast (sc_positional_specs s)) \<Longrightarrow> \<not> sp_repeatable (sc_specs s ! i)"

lemma concat_map_unique:
  "distinct (concat (map f xs)) \<Longrightarrow> i < length xs \<Longrightarrow> j < length xs \<Longrightarrow> x \<in> set (f (xs ! i)) \<Longrightarrow> x \<in> set (f (xs ! j)) \<Longrightarrow> i = j"
proof (induction xs arbitrary: i j)
  case (Cons a xs)
  have apart: "x \<notin> set (f a)" if "k < length xs" "x \<in> set (f (xs ! k))" for k
    using Cons.prems(1) that by (auto dest: nth_mem)
  show ?case
    using Cons.prems apart Cons.IH by (cases i; cases j) auto
qed simp

lemma has_long_name_of: "has_long_name n spec \<Longrightarrow> n \<in> set (long_names_of spec)"
  by (auto simp: has_long_name_def long_names_of_def list_ex_iff)

lemma has_short_name_of: "has_short_name n spec \<Longrightarrow> n \<in> set (short_names_of spec)"
  by (auto simp: has_short_name_def short_names_of_def list_ex_iff)

lemma valid_path_chars: "valid_path_loop sep b path \<Longrightarrow> c \<in> set path \<Longrightarrow> c = sep \<or> is_option_name_character c"
  by (induction sep b path rule: valid_path_loop.induct) (auto split: if_splits)

lemma equals_no_name: "\<not> is_option_name_character CHR ''=''" "\<not> is_short_option_character CHR ''=''"
  "\<not> is_short_option_character CHR ''-''"
  by code_simp+

lemma valid_path_plain:
  assumes "is_valid_option_path path sep" "validate_separator sep = Inr ()"
  shows "path \<noteq> [] \<and> CHR ''='' \<notin> set path"
  using assms valid_path_chars [of sep True path "CHR ''=''"] equals_no_name
  by (auto simp: is_valid_option_path_def validate_separator_def split: if_splits)

lemma alias_valid_long: "alias_valid sep a \<Longrightarrow> 1 < length a \<Longrightarrow> is_valid_option_path a sep"
  by (auto simp: alias_valid_def)

text \<open>The schemas \<open>collect_schema\<close> builds list their positional specs in order, and a short name is one
  character.\<close>

definition shaped :: "ArgSchema \<Rightarrow> bool" where
  "shaped s \<longleftrightarrow> sc_positional_specs s = filter (\<lambda>i. sp_positional (sc_specs s ! i)) [0..<length (sc_specs s)] \<and>
     list_all (\<lambda>spec. length (sp_short_name spec) \<le> 1) (sc_specs s)"

definition accepted :: "ArgSchema \<Rightarrow> bool" where
  "accepted s \<longleftrightarrow> validate_separator (sc_nested_separator s) = Inr () \<and>
     list_all (spec_names_valid (sc_nested_separator s)) (sc_specs s) \<and> names_unique (sc_specs s) \<and>
     positionals_ordered s \<and> shaped s"

lemma accepted_long_plain:
  assumes "accepted s" "i < length (sc_specs s)" "has_long_name n (sc_specs s ! i)"
  shows "n \<noteq> [] \<and> CHR ''='' \<notin> set n"
proof -
  have valid: "spec_names_valid (sc_nested_separator s) (sc_specs s ! i)" "validate_separator (sc_nested_separator s) = Inr ()"
    using assms(1,2) by (auto simp: accepted_def list_all_length)
  then have "is_valid_option_path n (sc_nested_separator s)"
    using assms(3) alias_valid_long by (auto simp: has_long_name_def spec_names_valid_def list_ex_iff list_all_iff)
  with valid(2) show ?thesis
    by (rule valid_path_plain [rotated])
qed

lemma accepted_short_plain:
  assumes "accepted s" "i < length (sc_specs s)" "has_short_name n (sc_specs s ! i)"
  shows "length n = 1 \<and> n \<noteq> ''-'' \<and> n \<noteq> ''=''"
proof -
  have valid: "spec_names_valid (sc_nested_separator s) (sc_specs s ! i)" "length (sp_short_name (sc_specs s ! i)) \<le> 1"
    using assms(1,2) by (auto simp: accepted_def shaped_def list_all_length)
  then have "length n = 1 \<and> is_short_option_character (hd n)"
    using assms(3)
    by (cases "sp_short_name (sc_specs s ! i)")
      (auto simp: has_short_name_def spec_names_valid_def list_ex_iff list_all_iff alias_valid_def)
  then show ?thesis
    using equals_no_name by auto
qed

interpretation al: option_lookup accepted
proof unfold_locales
  fix s i n
  assume s: "accepted s"
  show "find_long_index s n = Some i" if "i < length (sc_specs s)" "has_long_name n (sc_specs s ! i)"
    unfolding find_long_index_def
  proof (rule index_where_unique [where P = "has_long_name n", OF that])
    fix j
    assume "j < length (sc_specs s)" "has_long_name n (sc_specs s ! j)"
    then show "j = i"
      using s that concat_map_unique [of long_names_of "sc_specs s" j i n]
      by (simp add: accepted_def names_unique_def has_long_name_of)
  qed
  show "find_short_index s n = Some i" if "i < length (sc_specs s)" "has_short_name n (sc_specs s ! i)"
    unfolding find_short_index_def
  proof (rule index_where_unique [where P = "has_short_name n", OF that])
    fix j
    assume "j < length (sc_specs s)" "has_short_name n (sc_specs s ! j)"
    then show "j = i"
      using s that concat_map_unique [of short_names_of "sc_specs s" j i n]
      by (simp add: accepted_def names_unique_def has_short_name_of)
  qed
  show "n \<noteq> [] \<and> CHR ''='' \<notin> set n" if "i < length (sc_specs s)" "has_long_name n (sc_specs s ! i)"
    by (rule accepted_long_plain [OF s that])
  show "length n = 1 \<and> n \<noteq> ''-'' \<and> n \<noteq> ''=''" if "i < length (sc_specs s)" "has_short_name n (sc_specs s ! i)"
    by (rule accepted_short_plain [OF s that])
  have "sc_positional_specs s = filter (\<lambda>i. sp_positional (sc_specs s ! i)) [0..<length (sc_specs s)]"
    using s by (simp add: accepted_def shaped_def)
  then show "i \<in> set (sc_positional_specs s) \<longleftrightarrow> i < length (sc_specs s) \<and> sp_positional (sc_specs s ! i)"
    "distinct (sc_positional_specs s)"
    by simp_all
  show "\<not> sp_repeatable (sc_specs s ! i)" if "i \<in> set (butlast (sc_positional_specs s))"
    using s that by (simp add: accepted_def positionals_ordered_def list_all_iff)
qed

lemma accepted_names:
  assumes "map long_names_of specs = map long_names_of (sc_specs s)" "map short_names_of specs = map short_names_of (sc_specs s)"
  shows "names_unique specs = names_unique (sc_specs s)"
  using assms by (simp add: names_unique_def)

text \<open>Resolving the references changes no name.\<close>

lemma resolved_simps [simp]:
  "sp_long_name (resolved s i spec) = sp_long_name spec" "sp_short_name (resolved s i spec) = sp_short_name spec"
  "sp_aliases (resolved s i spec) = sp_aliases spec" "sp_positional (resolved s i spec) = sp_positional spec"
  "sp_repeatable (resolved s i spec) = sp_repeatable spec" "sp_flag (resolved s i spec) = sp_flag spec"
  "long_names_of (resolved s i spec) = long_names_of spec" "short_names_of (resolved s i spec) = short_names_of spec"
  "spec_names_valid sep (resolved s i spec) = spec_names_valid sep spec"
  by (simp_all add: resolved_def long_names_of_def short_names_of_def spec_names_valid_def)

lemma validated_specs:
  assumes "validate_schema_definition s = (Inr (), s')"
  shows "length (sc_specs s') = length (sc_specs s)"
    "i < length (sc_specs s) \<Longrightarrow>
       sc_specs s' ! i = (if i < sc_user_spec_count s then resolved s i (sc_specs s ! i) else sc_specs s ! i)"
    "sc_positional_specs s' = sc_positional_specs s" "sc_nested_separator s' = sc_nested_separator s"
    "sc_user_spec_count s' = sc_user_spec_count s" "sc_builtin_specs s' = sc_builtin_specs s"
  using assms unfolding schema_validation_iff by (auto simp: nth_append min_def)

lemma map_validated:
  assumes "validate_schema_definition s = (Inr (), s')" "\<And>i spec. f (resolved s i spec) = f spec"
  shows "map f (sc_specs s') = map f (sc_specs s)"
  using validated_specs(1,2) [OF assms(1)] assms(2) by (intro nth_equalityI) auto

lemma list_all_validated:
  assumes "validate_schema_definition s = (Inr (), s')" "\<And>i spec. P (resolved s i spec) = P spec"
  shows "list_all P (sc_specs s') = list_all P (sc_specs s)"
proof -
  have "list_all (\<lambda>b. b) (map P (sc_specs s')) = list_all (\<lambda>b. b) (map P (sc_specs s))"
    by (simp only: map_validated [OF assms])
  then show ?thesis
    by (simp add: list_all_iff)
qed

lemma validated_accepted:
  assumes "validate_schema_definition s = (Inr (), s')" "shaped s"
  shows "accepted s'"
proof -
  note v = validated_specs [OF assms(1)] and ok = assms(1) [unfolded schema_validation_iff]
  have "filter (\<lambda>i. sp_positional (sc_specs s' ! i)) [0..<length (sc_specs s')] =
      filter (\<lambda>i. sp_positional (sc_specs s ! i)) [0..<length (sc_specs s)]"
    using v(1,2) by (intro filter_cong) (auto split: if_splits)
  then have "shaped s'"
    using assms(2) v(3) list_all_validated [OF assms(1), of "\<lambda>spec. length (sp_short_name spec) \<le> 1"]
    by (simp add: shaped_def)
  moreover have "positionals_ordered s'"
    unfolding positionals_ordered_def list_all_iff v(1,3)
  proof (intro conjI ballI)
    have old: "\<forall>i \<in> set (sc_positional_specs s). i < length (sc_specs s)"
      "\<forall>i \<in> set (butlast (sc_positional_specs s)). \<not> sp_repeatable (sc_specs s ! i)"
      using ok by (simp_all add: positionals_ordered_def list_all_iff)
    show "i < length (sc_specs s)" if "i \<in> set (sc_positional_specs s)" for i
      using old(1) that by blast
    show "\<not> sp_repeatable (sc_specs s' ! i)" if "i \<in> set (butlast (sc_positional_specs s))" for i
    proof -
      have "i < length (sc_specs s)"
        using old(1) that by (auto dest: in_set_butlastD)
      then show ?thesis
        using old(2) that v(2) [of i] by (simp split: if_splits)
    qed
  qed
  moreover have "names_unique (sc_specs s')"
    using ok accepted_names [OF map_validated [OF assms(1)] map_validated [OF assms(1)]] by simp
  moreover have "list_all (spec_names_valid (sc_nested_separator s')) (sc_specs s')"
    using ok v(4) list_all_validated [OF assms(1), of "spec_names_valid (sc_nested_separator s)"] by simp
  ultimately show ?thesis
    using ok v(4) by (simp add: accepted_def)
qed

subsection \<open>The schemas of the code\<close>

lemma filter_upt_Suc: "filter P [0..<Suc n] = filter P [0..<n] @ (if P n then [n] else [])"
  by simp

lemma shaped_push:
  assumes "shaped s" "length (sp_short_name spec) \<le> 1"
  shows "sp_positional spec \<Longrightarrow> shaped ((push_user_spec spec s)\<lparr>sc_positional_specs :=
      sc_positional_specs s @ [length (sc_specs s)]\<rparr>)"
    "\<not> sp_positional spec \<Longrightarrow> shaped (push_user_spec spec s)"
    "\<not> sp_positional spec \<Longrightarrow> shaped (push_builtin_spec b spec s)"
proof -
  have "filter (\<lambda>i. sp_positional ((sc_specs s @ [spec]) ! i)) [0..<length (sc_specs s)] =
      filter (\<lambda>i. sp_positional (sc_specs s ! i)) [0..<length (sc_specs s)]"
    by (intro filter_cong) (auto simp: nth_append)
  then show "sp_positional spec \<Longrightarrow> shaped ((push_user_spec spec s)\<lparr>sc_positional_specs :=
      sc_positional_specs s @ [length (sc_specs s)]\<rparr>)"
    "\<not> sp_positional spec \<Longrightarrow> shaped (push_user_spec spec s)"
    "\<not> sp_positional spec \<Longrightarrow> shaped (push_builtin_spec b spec s)"
    using assms by (simp_all add: shaped_def push_user_spec_def push_builtin_spec_def)
qed

lemma make_arg_spec_short: "length (sp_short_name (make_arg_spec prefix name tags t config)) \<le> 1"
  by (simp add: make_arg_spec_def Let_def split: option.split)

lemma shaped_collect: "shaped s \<Longrightarrow> shaped (collect_schema_into prefix config fs s)"
proof (induction prefix config fs s rule: collect_schema_into.induct)
  case (4 prefix config name tags t fs s)
  then show ?case
    using shaped_push [of s "make_arg_spec prefix name tags t config"] make_arg_spec_short [of prefix name tags t config]
    by (simp add: Let_def push_user_spec_def)
qed (simp_all add: Let_def)

lemma shaped_push_config_io: "shaped s \<Longrightarrow> shaped (push_config_io_spec_if_available b name help s)"
  using shaped_push(3) [of s "make_config_io_spec name help" b]
  by (simp add: push_config_io_spec_if_available_def make_config_io_spec_def new_spec_def)

lemma shaped_append: "shaped s \<Longrightarrow> shaped (append_config_io_specs config s)"
proof -
  have "shaped s \<Longrightarrow> shaped (fold (append_config_io_backend_specs io) bes s)" for io bes s
    by (induction bes arbitrary: s) (simp_all add: append_config_io_backend_specs_def Let_def shaped_push_config_io)
  then show "shaped s \<Longrightarrow> ?thesis"
    by (simp add: append_config_io_specs_def split: option.split)
qed

lemma shaped_schema: "shaped (collect_schema options config)" "shaped (collect_command_config_io_schema config)"
proof -
  have new: "shaped (new_schema sep)" for sep
    by (simp add: shaped_def new_schema_def)
  have "shaped (s\<lparr>sc_user_spec_count := n\<rparr>) = shaped s" for s n
    by (simp add: shaped_def)
  then show "shaped (collect_schema options config)"
    by (simp add: collect_schema_def Let_def shaped_append shaped_collect new)
  show "shaped (collect_command_config_io_schema config)"
    by (simp add: collect_command_config_io_schema_def shaped_append new)
qed

lemma collected_accepted:
  "validate_schema_definition (collect_schema options config) = (Inr (), s) \<Longrightarrow> accepted s"
  by (rule validated_accepted [OF _ shaped_schema(1)])

end
