(* ===== verification/Arg_Raw_Facts.thy ===== *)
theory Arg_Raw_Facts
  imports Arg_Schema_Facts
begin

text \<open>
  The command-line parser over an accepted schema: what it records, the spellings that mean the same, and
  the command line that gives any assignment of values.
\<close>

subsection \<open>What is recorded\<close>

definition raw_ok :: "ArgSchema \<Rightarrow> RawParseResult \<Rightarrow> bool" where
  "raw_ok schema result \<longleftrightarrow> length result = length (sc_specs schema) \<and>
     (\<forall>i < length result. \<not> sp_repeatable (sc_specs schema ! i) \<longrightarrow> length (result ! i) \<le> 1)"

named_theorems raw_keeps

lemma record_raw_value_Inr:
  "record_raw_value schema i text result = Inr result' \<longleftrightarrow>
     i < length (sc_specs schema) \<and> i < length result \<and>
     (sp_repeatable (sc_specs schema ! i) \<or> result ! i = []) \<and> result' = result[i := result ! i @ [text]]"
  by (auto simp: record_raw_value_def byte_at_def vec_set_def seen_def)

lemma record_raw_value_keeps [raw_keeps]:
  "raw_ok schema result \<Longrightarrow> record_raw_value schema i text result = Inr result' \<Longrightarrow> raw_ok schema result'"
  unfolding record_raw_value_Inr by (auto simp: raw_ok_def nth_list_update)

lemma record_raw_positional_keeps [raw_keeps]:
  "raw_ok schema (fst st) \<Longrightarrow> record_raw_positional schema text st = Inr st' \<Longrightarrow> raw_ok schema (fst st')"
  by (cases st) (auto simp: record_raw_positional_def Let_def and_then_Inr_iff intro: raw_keeps split: if_splits)

lemma record_raw_option_keeps [raw_keeps]:
  "raw_ok schema result \<Longrightarrow> record_raw_option schema config i text inline rest result = Inr (result', rest') \<Longrightarrow>
    raw_ok schema result'"
  by (auto simp: record_raw_option_def Let_def and_then_Inr_iff intro: raw_keeps split: if_splits list.splits option.splits)

lemma parse_long_token_keeps [raw_keeps]:
  "raw_ok schema result \<Longrightarrow> parse_long_token schema config arg rest result = Inr (result', rest') \<Longrightarrow> raw_ok schema result'"
  by (auto simp: parse_long_token_def unknown_option_def intro: raw_keeps split: prod.splits option.splits if_splits)

lemma parse_cluster_keeps [raw_keeps]:
  "raw_ok schema result \<Longrightarrow> parse_cluster schema config body rest result = Inr (result', rest') \<Longrightarrow> raw_ok schema result'"
  by (induction body arbitrary: result)
    (auto simp: unknown_option_def and_then_Inr_iff intro: raw_keeps split: option.splits if_splits)

lemma parse_short_token_keeps [raw_keeps]:
  "raw_ok schema result \<Longrightarrow> parse_short_token schema config arg rest result = Inr (result', rest') \<Longrightarrow> raw_ok schema result'"
  by (auto simp: parse_short_token_def unknown_option_def and_then_Inr_iff vec_at_Inr intro: raw_keeps split: prod.splits option.splits if_splits)

lemma parse_raw_loopE:
  assumes "parse_raw_loop schema config force (a # rest) st = Inr result"
  obtains
    (positional) st' where "record_raw_positional schema (arg_text a) st = Inr st'"
      "parse_raw_loop schema config force rest st' = Inr result"
  | (dashes) "parse_raw_loop schema config True rest st = Inr result"
  | (option) r rest' where "parse_long_token schema config (arg_text a) rest (fst st) = Inr (r, rest') \<or>
      parse_short_token schema config (arg_text a) rest (fst st) = Inr (r, rest')"
      "length rest' \<le> length rest" "parse_raw_loop schema config False rest' (r, snd st) = Inr result"
proof -
  from assms consider
      (pos) st' where "record_raw_positional schema (arg_text a) st = Inr st'" "parse_raw_loop schema config force rest st' = Inr result"
    | (sep) "parse_raw_loop schema config True rest st = Inr result"
    | (long) r rest' where "parse_long_token schema config (arg_text a) rest (fst st) = Inr (r, rest')"
        "parse_raw_loop schema config False rest' (r, snd st) = Inr result"
    | (short) r rest' where "parse_short_token schema config (arg_text a) rest (fst st) = Inr (r, rest')"
        "parse_raw_loop schema config False rest' (r, snd st) = Inr result"
    by (auto simp: parse_raw_loop.simps(2) [of schema config force a rest st] Let_def and_then_Inr_iff split: if_splits)
  then show ?thesis
    by cases (use positional dashes option parse_long_token_rest parse_short_token_rest in blast)+
qed

lemma args_induct [case_names Nil Cons]:
  assumes "\<And>force st. P force [] st"
    "\<And>force a rest st. (\<And>force st rest'. length rest' \<le> length rest \<Longrightarrow> P force rest' st) \<Longrightarrow> P force (a # rest) st"
  shows "P force (args :: args) st"
proof (induction args arbitrary: force st rule: length_induct)
  case (1 args)
  then show ?case
    using assms by (cases args) (auto simp: less_Suc_eq_le)
qed

lemma parse_raw_loop_keeps:
  "raw_ok schema (fst st) \<Longrightarrow> parse_raw_loop schema config force args st = Inr result \<Longrightarrow> raw_ok schema result"
proof (induction force args st rule: args_induct)
  case (Cons force a rest st)
  from Cons.prems(2) show ?case
    by (cases rule: parse_raw_loopE) (use Cons.IH Cons.prems(1) in \<open>fastforce dest: raw_keeps\<close>)+
qed simp

lemma raw_ok_start: "raw_ok schema (replicate (length (sc_specs schema)) [])"
  by (simp add: raw_ok_def)

text \<open>No operation reads outside a vector.\<close>

lemma in_bounds_record_value [fault_free]: "in_bounds (record_raw_value schema i text result)"
  by (auto simp: record_raw_value_def intro!: fault_free)

lemma in_bounds_record_option [fault_free]:
  "i < length (sc_specs schema) \<Longrightarrow> in_bounds (record_raw_option schema config i text inline rest result)"
  by (auto simp: record_raw_option_def Let_def byte_at_def intro!: fault_free split: list.split option.split)

lemma found_in_range: "find_long_index schema n = Some i \<Longrightarrow> i < length (sc_specs schema)"
  "find_short_index schema n = Some i \<Longrightarrow> i < length (sc_specs schema)"
  by (auto simp: find_long_index_def find_short_index_def index_where_Some)

lemma in_bounds_cluster [fault_free]: "in_bounds (parse_cluster schema config body rest result)"
proof (induction body arbitrary: result)
  case (Cons c body)
  then show ?case
    by (auto simp: unknown_option_def byte_at_def dest: found_in_range intro!: fault_free split: option.split)
qed simp

lemma in_bounds_tokens [fault_free]:
  "in_bounds (parse_long_token schema config arg rest result)" "in_bounds (parse_short_token schema config arg rest result)"
  by (auto simp: parse_long_token_def parse_short_token_def unknown_option_def and_then_Inr_iff
      intro!: fault_free split: option.splits prod.splits if_splits)
    (blast intro: found_in_range)+

lemma in_bounds_record_positional [fault_free]:
  "in_bounds (record_raw_positional schema text st)"
  by (cases st) (auto simp: record_raw_positional_def record_raw_value_Inr vec_at_Inr intro!: fault_free)

lemma parse_raw_loop_in_bounds: "in_bounds (parse_raw_loop schema config force args st)"
proof (induction force args st rule: args_induct)
  case (Cons force a rest st)
  then show ?case
    unfolding parse_raw_loop.simps(2) [of schema config force a rest st] Let_def
    by (intro fault_free) (auto intro!: fault_free dest: parse_long_token_rest parse_short_token_rest)
qed simp

text \<open>(safety). No command line makes the parser read outside \<open>argv\<close> or the schema, whatever the
  schema, and what it records fits the schema: an option that is not repeatable has at most one value.\<close>

theorem raw_arguments_safe:
  "in_bounds (parse_raw_arguments schema argv start_index config) \<and>
   (\<forall>result. parse_raw_arguments schema argv start_index config = Inr result \<longrightarrow>
      length result = length (sc_specs schema) \<and>
      (\<forall>i < length result. \<not> sp_repeatable (sc_specs schema ! i) \<longrightarrow> length (result ! i) \<le> 1))"
proof -
  have "raw_ok schema result" if "parse_raw_arguments schema argv start_index config = Inr result" for result
    using that parse_raw_loop_keeps [of schema "(replicate (length (sc_specs schema)) [], 0)"] raw_ok_start
    by (simp add: parse_raw_arguments_def)
  then show ?thesis
    by (simp add: parse_raw_arguments_def parse_raw_loop_in_bounds raw_ok_def)
qed

subsection \<open>Spellings\<close>

text \<open>A token that starts with dashes, has more, and is neither help nor version is read as an option.\<close>

lemma loop_long_token:
  assumes "starts_with arg ''--''" "arg \<noteq> ''--''"
    "is_help_token arg \<or> is_version_token arg \<Longrightarrow> is_declared_option_token schema arg"
  shows "parse_raw_loop schema config False (Some arg # rest) st =
    and_then (parse_long_token schema config arg rest (fst st)) (\<lambda>(result, rest').
      parse_raw_loop schema config False rest' (result, snd st))"
  using assms unfolding parse_raw_loop.simps(2) by (auto simp: arg_text_def)

lemma loop_short_token:
  assumes "starts_with arg ''-''" "1 < length arg" "\<not> starts_with arg ''--''"
    "is_help_token arg \<or> is_version_token arg \<Longrightarrow> is_declared_option_token schema arg"
  shows "parse_raw_loop schema config False (Some arg # rest) st =
    and_then (parse_short_token schema config arg rest (fst st)) (\<lambda>(result, rest').
      parse_raw_loop schema config False rest' (result, snd st))"
  using assms unfolding parse_raw_loop.simps(2) by (auto simp: arg_text_def starts_with_def)

lemma starts_with_dashes [simp]:
  "starts_with (CHR ''-'' # CHR ''-'' # s) ''--''" "starts_with (CHR ''-'' # s) ''-''"
  "starts_with (CHR ''-'' # c # s) ''--'' \<longleftrightarrow> c = CHR ''-''"
  by (auto simp: starts_with_def)

lemma builtin_token_plain: "is_help_token arg \<or> is_version_token arg \<Longrightarrow> CHR ''='' \<notin> set arg"
  by (auto simp: is_help_token_def is_version_token_def)

definition equals_form :: "string \<Rightarrow> string \<Rightarrow> string option" where
  "equals_form n v = Some (''--'' @ n @ ''='' @ v)"

context option_lookup
begin

lemma inline_value:
  assumes "accepted s" "i < length (sc_specs s)" "has_long_name n (sc_specs s ! i)"
  shows "parse_raw_loop s config False (equals_form n v # rest) st =
    and_then (record_raw_value s i v (fst st)) (\<lambda>result. parse_raw_loop s config False rest (result, snd st))"
proof -
  let ?arg = "''--'' @ n @ ''='' @ v"
  have plain: "n \<noteq> []" "CHR ''='' \<notin> set n"
    using long_name_plain [OF assms] by auto
  have "\<not> is_help_token ?arg" "\<not> is_version_token ?arg"
    using builtin_token_plain [of ?arg] by auto
  then show ?thesis
    using long_found [OF assms] plain assms(2)
    by (subst equals_form_def, subst loop_long_token)
      (auto simp: parse_long_token_def record_raw_option_def Let_def byte_at_def and_then_def split: sum.splits)
qed

lemma separate_value:
  assumes "accepted s" "i < length (sc_specs s)" "has_long_name n (sc_specs s ! i)"
    "\<not> sp_flag (sc_specs s ! i)" "\<not> sp_has_implicit (sc_specs s ! i)"
  shows "parse_raw_loop s config False (Some (''--'' @ n) # Some v # rest) st =
    and_then (record_raw_value s i v (fst st)) (\<lambda>result. parse_raw_loop s config False rest (result, snd st))"
proof -
  have plain: "n \<noteq> []" "CHR ''='' \<notin> set n"
    using long_name_plain [OF assms(1-3)] by auto
  have "is_declared_option_token s (''--'' @ n)"
    using long_found [OF assms(1-3)] plain by (simp add: is_declared_option_token_def)
  then show ?thesis
    using long_found [OF assms(1-3)] plain assms(2,4,5)
    by (subst loop_long_token)
      (auto simp: parse_long_token_def record_raw_option_def Let_def byte_at_def and_then_def split: sum.splits)
qed

lemma short_token:
  assumes "accepted s" "i < length (sc_specs s)" "has_short_name [c] (sc_specs s ! i)"
  shows "parse_raw_loop s config False (Some [CHR ''-'', c] # rest) st =
    and_then (record_raw_option s config i [] False rest (fst st)) (\<lambda>(result, rest').
      parse_raw_loop s config False rest' (result, snd st))"
proof -
  have c: "c \<noteq> CHR ''-''" "c \<noteq> CHR ''=''"
    using short_name_plain [OF assms] by auto
  note found = short_found [OF assms]
  have "is_declared_option_token s [CHR ''-'', c]"
    using found c by (simp add: is_declared_option_token_def)
  moreover have "parse_short_token s config [CHR ''-'', c] rest result = record_raw_option s config i [] False rest result" for result
    using found c by (simp add: parse_short_token_def)
  ultimately show ?thesis
    using c by (subst loop_short_token) simp_all
qed

lemma no_long_short_name:
  assumes "accepted s" "1 < length n"
  shows "find_short_index s n = None"
proof (rule ccontr)
  assume "find_short_index s n \<noteq> None"
  then obtain i where "i < length (sc_specs s)" "has_short_name n (sc_specs s ! i)"
    by (auto simp: find_short_index_def index_where_Some)
  with short_name_plain [OF assms(1)] assms(2) show False
    by fastforce
qed

lemma value_option:
  assumes "i < length (sc_specs s)" "\<not> sp_flag (sc_specs s ! i)" "\<not> sp_has_implicit (sc_specs s ! i)"
  shows "record_raw_option s config i text True rest result =
      and_then (record_raw_value s i text result) (\<lambda>result. Inr (result, rest))"
    "record_raw_option s config i [] False (Some v # rest) result =
      and_then (record_raw_value s i v result) (\<lambda>result. Inr (result, rest))"
  using assms by (simp_all add: record_raw_option_def byte_at_def)

lemma short_attached:
  assumes "accepted s" "i < length (sc_specs s)" "has_short_name [c] (sc_specs s ! i)"
    "\<not> sp_flag (sc_specs s ! i)" "\<not> sp_has_implicit (sc_specs s ! i)" "v \<noteq> []" "CHR ''='' \<notin> set v"
  shows "parse_raw_loop s config False (Some (CHR ''-'' # c # v) # rest) st =
    and_then (record_raw_value s i v (fst st)) (\<lambda>result. parse_raw_loop s config False rest (result, snd st))"
proof -
  have c: "c \<noteq> CHR ''-''" "c \<noteq> CHR ''=''"
    using short_name_plain [OF assms(1-3)] by auto
  have none: "find_short_index s (c # v) = None"
    using assms(1,6) by (intro no_long_short_name) auto
  have split: "split_at CHR ''='' (c # v) = (c # v, None)"
    using c assms(7) by (intro split_at_none) auto
  have "parse_short_token s config (CHR ''-'' # c # v) rest result =
      and_then (record_raw_value s i v result) (\<lambda>result. Inr (result, rest))" for result
    using short_found [OF assms(1-3)] assms(2,4-6) none split
    by (simp add: parse_short_token_def value_option byte_at_def)
  then show ?thesis
    using c assms(6)
    by (subst loop_short_token)
      (auto simp: is_help_token_def is_version_token_def and_then_def split: sum.splits)
qed

lemma short_equals:
  assumes "accepted s" "i < length (sc_specs s)" "has_short_name [c] (sc_specs s ! i)"
    "\<not> sp_flag (sc_specs s ! i)" "\<not> sp_has_implicit (sc_specs s ! i)"
  shows "parse_raw_loop s config False (Some (CHR ''-'' # c # CHR ''='' # v) # rest) st =
    and_then (record_raw_value s i v (fst st)) (\<lambda>result. parse_raw_loop s config False rest (result, snd st))"
proof -
  have c: "c \<noteq> CHR ''-''" "c \<noteq> CHR ''=''"
    using short_name_plain [OF assms(1-3)] by auto
  have split: "split_at CHR ''='' (c # CHR ''='' # v) = ([c], Some v)"
    using split_at_append [of "CHR ''=''" "[c]" v] c by simp
  have "parse_short_token s config (CHR ''-'' # c # CHR ''='' # v) rest result =
      and_then (record_raw_value s i v result) (\<lambda>result. Inr (result, rest))" for result
    using short_found [OF assms(1-3)] assms(2,4,5) split by (simp add: parse_short_token_def value_option)
  then show ?thesis
    using c
    by (subst loop_short_token)
      (auto simp: is_help_token_def is_version_token_def and_then_def split: sum.splits)
qed

text \<open>A cluster, from its first character on.\<close>

lemma cluster_tokens:
  assumes "accepted s" "cs \<noteq> []" "\<forall>c \<in> set cs. \<exists>i < length (sc_specs s). has_short_name [c] (sc_specs s ! i)"
    "\<forall>c \<in> set (butlast cs). \<forall>i < length (sc_specs s). has_short_name [c] (sc_specs s ! i) \<longrightarrow> sp_flag (sc_specs s ! i)"
  shows "and_then (parse_cluster s config cs rest (fst st)) (\<lambda>(result, rest').
      parse_raw_loop s config False rest' (result, snd st)) =
    parse_raw_loop s config False (map (\<lambda>c. Some [CHR ''-'', c]) cs @ rest) st"
  using assms(2-4)
proof (induction cs arbitrary: st)
  case (Cons c cs)
  obtain i where i: "i < length (sc_specs s)" "has_short_name [c] (sc_specs s ! i)"
    using Cons.prems(2) by auto
  note found = short_found [OF assms(1) i]
  show ?case
  proof (cases cs)
    case Nil
    then show ?thesis
      using found i short_token [OF assms(1) i]
      by (auto simp: byte_at_def record_raw_option_def Let_def and_then_def split: sum.splits)
  next
    case (Cons d ds)
    then have flag: "sp_flag (sc_specs s ! i)"
      using Cons.prems(3) i by simp
    have "parse_raw_loop s config False (map (\<lambda>c. Some [CHR ''-'', c]) (c # cs) @ rest) st =
        and_then (record_raw_value s i [] (fst st)) (\<lambda>result.
          parse_raw_loop s config False (map (\<lambda>c. Some [CHR ''-'', c]) cs @ rest) (result, snd st))"
      using short_token [OF assms(1) i] i flag
      by (auto simp: record_raw_option_def byte_at_def Let_def and_then_def split: sum.splits)
    moreover have "and_then (parse_cluster s config (c # cs) rest (fst st)) (\<lambda>(result, rest').
          parse_raw_loop s config False rest' (result, snd st)) =
        and_then (record_raw_value s i [] (fst st)) (\<lambda>result.
          and_then (parse_cluster s config cs rest result) (\<lambda>(result, rest').
            parse_raw_loop s config False rest' (result, snd st)))"
      using found i flag by (auto simp: byte_at_def and_then_def split: sum.splits)
    moreover have "and_then (parse_cluster s config cs rest result) (\<lambda>(result, rest').
          parse_raw_loop s config False rest' (result, snd st)) =
        parse_raw_loop s config False (map (\<lambda>c. Some [CHR ''-'', c]) cs @ rest) (result, snd st)" for result
      using Cons.IH [of "(result, snd st)"] Cons.prems(2,3) Cons by simp
    ultimately show ?thesis
      by simp
  qed
qed simp

lemma cluster_spelling:
  assumes "accepted s" "cf_allowShortCluster config" "2 \<le> length cs"
    "\<forall>c \<in> set cs. \<exists>i < length (sc_specs s). has_short_name [c] (sc_specs s ! i)"
    "\<forall>c \<in> set (butlast cs). \<forall>i < length (sc_specs s). has_short_name [c] (sc_specs s ! i) \<longrightarrow> sp_flag (sc_specs s ! i)"
  shows "parse_raw_loop s config False (Some (CHR ''-'' # cs) # rest) st =
    parse_raw_loop s config False (map (\<lambda>c. Some [CHR ''-'', c]) cs @ rest) st"
proof -
  have plain: "c \<noteq> CHR ''-'' \<and> c \<noteq> CHR ''=''" if "c \<in> set cs" for c
    using assms(4) that short_name_plain [OF assms(1)] by fastforce
  then have "CHR ''='' \<notin> set cs"
    by blast
  then have split: "split_at CHR ''='' cs = (cs, None)"
    by (rule split_at_none)
  obtain c ds where cs: "cs = c # ds" "ds \<noteq> []"
    using assms(3) by (cases cs) fastforce+
  have "c \<noteq> CHR ''-''"
    using plain [of c] by (simp add: cs)
  then have "parse_raw_loop s config False (Some (CHR ''-'' # cs) # rest) st =
      and_then (parse_short_token s config (CHR ''-'' # cs) rest (fst st)) (\<lambda>(result, rest').
        parse_raw_loop s config False rest' (result, snd st))"
    using cs by (subst loop_short_token) (auto simp: is_help_token_def is_version_token_def)
  also have "parse_short_token s config (CHR ''-'' # cs) rest (fst st) = parse_cluster s config cs rest (fst st)"
    using split assms(2,3) by (simp add: parse_short_token_def)
  finally show ?thesis
    using cluster_tokens [OF assms(1) _ assms(4,5), of config rest st] cs by auto
qed

end

subsection \<open>Every assignment has a command line\<close>

text \<open>The values given to each option as arguments: the named options with equals signs, then the
  positionals in their order.\<close>

definition option_args :: "ArgSchema \<Rightarrow> RawParseResult \<Rightarrow> nat \<Rightarrow> args" where
  "option_args s vals i = map (equals_form (sp_long_name (sc_specs s ! i))) (vals ! i)"

definition command_line :: "ArgSchema \<Rightarrow> RawParseResult \<Rightarrow> args" where
  "command_line s vals =
     concat (map (option_args s vals) (filter (\<lambda>i. \<not> sp_positional (sc_specs s ! i)) [0..<length (sc_specs s)])) @
     Some ''--'' # concat (map (\<lambda>i. map Some (vals ! i)) (sc_positional_specs s))"

definition assignable :: "ArgSchema \<Rightarrow> RawParseResult \<Rightarrow> bool" where
  "assignable s vals \<longleftrightarrow> raw_ok s vals \<and>
     (\<forall>k < length (sc_positional_specs s). \<forall>j < k. vals ! (sc_positional_specs s ! k) \<noteq> [] \<longrightarrow>
        vals ! (sc_positional_specs s ! j) \<noteq> [])"

lemma assignableD:
  "assignable s vals \<Longrightarrow> k < length (sc_positional_specs s) \<Longrightarrow> j < k \<Longrightarrow>
    vals ! (sc_positional_specs s ! k) \<noteq> [] \<Longrightarrow> vals ! (sc_positional_specs s ! j) \<noteq> []"
  by (simp add: assignable_def)

definition assigned :: "ArgSchema \<Rightarrow> RawParseResult \<Rightarrow> nat set \<Rightarrow> RawParseResult" where
  "assigned s vals D = map (\<lambda>i. if i \<in> D then vals ! i else []) [0..<length (sc_specs s)]"

lemma assigned_simps [simp]:
  "length (assigned s vals D) = length (sc_specs s)"
  "i < length (sc_specs s) \<Longrightarrow> assigned s vals D ! i = (if i \<in> D then vals ! i else [])"
  by (simp_all add: assigned_def)

lemma assigned_insert:
  "i < length (sc_specs s) \<Longrightarrow> i \<notin> D \<Longrightarrow> (assigned s vals D)[i := vals ! i] = assigned s vals (insert i D)"
  by (rule nth_equalityI) (auto simp: nth_list_update)

context option_lookup
begin

lemma loop_values:
  assumes "accepted s" "i < length (sc_specs s)" "has_long_name n (sc_specs s ! i)"
  shows "length r = length (sc_specs s) \<Longrightarrow> sp_repeatable (sc_specs s ! i) \<or> length (r ! i @ vs) \<le> 1 \<Longrightarrow>
    parse_raw_loop s config False (map (equals_form n) vs @ rest) (r, p) =
    parse_raw_loop s config False rest (r[i := r ! i @ vs], p)"
proof (induction vs arbitrary: r)
  case (Cons v vs)
  have "record_raw_value s i v r = Inr (r[i := r ! i @ [v]])"
    using Cons.prems assms(2) by (auto simp: record_raw_value_Inr)
  then show ?case
    using inline_value [OF assms] Cons.IH [of "r[i := r ! i @ [v]]"] Cons.prems assms(2) by simp
qed simp

lemma loop_options:
  assumes "accepted s" "raw_ok s vals"
  shows "distinct is \<Longrightarrow> \<forall>i \<in> set is. i < length (sc_specs s) \<and> \<not> sp_positional (sc_specs s ! i) \<Longrightarrow> set is \<inter> D = {} \<Longrightarrow>
    parse_raw_loop s config False (concat (map (option_args s vals) is) @ rest) (assigned s vals D, p) =
    parse_raw_loop s config False rest (assigned s vals (set is \<union> D), p)"
proof (induction "is" arbitrary: D)
  case (Cons i "is")
  then have i: "i < length (sc_specs s)" "has_long_name (sp_long_name (sc_specs s ! i)) (sc_specs s ! i)" "i \<notin> D"
    by (auto simp: has_long_name_def)
  have "sp_repeatable (sc_specs s ! i) \<or> length (vals ! i) \<le> 1"
    using assms(2) i(1) by (auto simp: raw_ok_def)
  then have "parse_raw_loop s config False (option_args s vals i @ more) (assigned s vals D, p) =
      parse_raw_loop s config False more (assigned s vals (insert i D), p)" for more
    using loop_values [OF assms(1) i(1,2), of "assigned s vals D" "vals ! i" config more p] i(1,3) assigned_insert [OF i(1,3)]
    by (simp add: option_args_def)
  then show ?case
    using Cons.IH [of "insert i D"] Cons.prems by simp
qed simp

lemma loop_repeated:
  assumes "k < length (sc_positional_specs s)" "sc_positional_specs s ! k = i" "i < length (sc_specs s)"
    "sp_repeatable (sc_specs s ! i)"
  shows "length r = length (sc_specs s) \<Longrightarrow>
    parse_raw_loop s config True (map Some vs) (r, k) = Inr (r[i := r ! i @ vs])"
proof (induction vs arbitrary: r)
  case (Cons v vs)
  have "record_raw_positional s v (r, k) = Inr (r[i := r ! i @ [v]], k)"
    using assms Cons.prems by (simp add: record_raw_positional_def record_raw_value_def byte_at_def vec_set_def)
  then show ?case
    using Cons.IH [of "r[i := r ! i @ [v]]"] Cons.prems assms(3)
    by (simp add: parse_raw_loop.simps(2) arg_text_def)
qed simp

lemma positional_values:
  assumes "accepted s" "assignable s vals" "k \<le> length (sc_positional_specs s)"
    "D \<inter> set (drop k (sc_positional_specs s)) = {}"
  shows "parse_raw_loop s config True (concat (map (\<lambda>i. map Some (vals ! i)) (drop k (sc_positional_specs s))))
      (assigned s vals D, k) = Inr (assigned s vals (D \<union> set (drop k (sc_positional_specs s))))"
  using assms(3,4)
proof (induction "length (sc_positional_specs s) - k" arbitrary: k D)
  case (Suc m)
  let ?ps = "sc_positional_specs s"
  define i where "i = ?ps ! k"
  have k: "k < length ?ps"
    using Suc.hyps(2) by simp
  have drop: "drop k ?ps = i # drop (Suc k) ?ps"
    using k by (simp add: i_def Cons_nth_drop_Suc)
  have i: "i < length (sc_specs s)" "i \<notin> D"
    using positional_index [OF assms(1), of i] k Suc.prems(2) by (auto simp: i_def drop)
  have fresh: "insert i D \<inter> set (drop (Suc k) ?ps) = {}"
    using Suc.prems(2) positionals_distinct [OF assms(1)] drop by (metis Int_insert_left disjoint_insert(1)
        distinct.simps(2) distinct_drop list.simps(15))
  show ?case
  proof (cases "vals ! i")
    case Nil
    have "vals ! j = []" if "j \<in> set (drop (Suc k) ?ps)" for j
    proof -
      from that obtain l where "l < length ?ps - Suc k" "j = ?ps ! (Suc k + l)"
        by (auto simp: in_set_conv_nth)
      moreover have "vals ! (?ps ! (Suc k + l)) \<noteq> [] \<Longrightarrow> vals ! (?ps ! k) \<noteq> []"
        using assignableD [OF assms(2), of "Suc k + l" k] calculation(1) by simp
      ultimately show ?thesis
        using Nil by (auto simp: i_def)
    qed
    then have empty: "\<forall>j \<in> set (drop k ?ps). vals ! j = []"
      using Nil by (simp add: drop)
    then have "assigned s vals D = assigned s vals (D \<union> set (drop k ?ps))"
      by (intro nth_equalityI) auto
    with empty show ?thesis
      by (simp add: concat_eq_Nil_conv [THEN iffD2])
  next
    case (Cons v vs)
    show ?thesis
    proof (cases "sp_repeatable (sc_specs s ! i)")
      case True
      have "Suc k = length ?ps"
      proof (rule ccontr)
        assume "Suc k \<noteq> length ?ps"
        then have "butlast ?ps ! k = i" "k < length (butlast ?ps)"
          using k by (auto simp: nth_butlast i_def)
        then show False
          using repeatable_last [OF assms(1)] True nth_mem by metis
      qed
      then show ?thesis
        using loop_repeated [OF k i_def [symmetric] i(1) True, of "assigned s vals D" config "vals ! i"] i
          assigned_insert [OF i] by (simp add: drop)
    next
      case False
      then have v: "vals ! i = [v]"
        using assms(2) i(1) Cons by (auto simp: assignable_def raw_ok_def)
      have "record_raw_positional s v (assigned s vals D, k) = Inr (assigned s vals (insert i D), Suc k)"
        using k i False assigned_insert [OF i, of vals] v
        by (simp add: record_raw_positional_def record_raw_value_def byte_at_def vec_set_def seen_def i_def [symmetric])
      then show ?thesis
        using Suc.hyps(1) [of "Suc k" "insert i D"] Suc.hyps(2) fresh k
        by (simp add: drop v parse_raw_loop.simps(2) arg_text_def)
    qed
  qed
qed simp

lemma command_line_parsed:
  assumes "accepted s" "assignable s vals"
  shows "parse_raw_loop s config False (command_line s vals) (replicate (length (sc_specs s)) [], 0) = Inr vals"
proof -
  let ?opts = "filter (\<lambda>i. \<not> sp_positional (sc_specs s ! i)) [0..<length (sc_specs s)]" and ?ps = "sc_positional_specs s"
  have ok: "raw_ok s vals"
    using assms(2) by (simp add: assignable_def)
  have start: "replicate (length (sc_specs s)) [] = assigned s vals {}"
    by (rule nth_equalityI) auto
  have "set ?opts \<inter> set (drop 0 ?ps) = {}"
    using positional_index [OF assms(1)] by auto
  from positional_values [OF assms _ this]
  have "parse_raw_loop s config True (concat (map (\<lambda>i. map Some (vals ! i)) ?ps)) (assigned s vals (set ?opts), 0) =
      Inr (assigned s vals (set ?opts \<union> set ?ps))"
    by simp
  moreover have "assigned s vals (set ?opts \<union> set ?ps) = vals"
    using ok positional_index [OF assms(1)] by (intro nth_equalityI) (auto simp: raw_ok_def)
  moreover have "parse_raw_loop s config False (command_line s vals) (assigned s vals {}, 0) =
      parse_raw_loop s config False (Some ''--'' # concat (map (\<lambda>i. map Some (vals ! i)) ?ps)) (assigned s vals (set ?opts \<union> {}), 0)"
    unfolding command_line_def by (rule loop_options [OF assms(1) ok]) auto
  ultimately show ?thesis
    unfolding start by (simp add: parse_raw_loop.simps(2) arg_text_def del: set_filter)
qed

end

end
