(* ===== verification/Arg_Command_Line.thy ===== *)
theory Arg_Command_Line
  imports Arg_Raw_Facts
begin

text \<open>
  Command lines over the schema \<open>collect_schema\<close> builds and \<open>validate_schema_definition\<close> accepts: the
  spellings that mean the same, and the round trip from the values to a command line and back. The facts
  about accepted schemas come from the interpretation \<open>al\<close>.
\<close>

text \<open>The default configuration of \<open>config.hpp\<close>, and a small program: a flag, an option with a value, and a
  list of positionals.\<close>

definition new_config :: ArgParserConfig where
  "new_config = \<lparr>cf_programName = [], cf_description = [], cf_usage = [], cf_version = [], cf_nestedSeparator = CHR ''.'',
     cf_allowUnknown = False, cf_addHelp = True, cf_addVersion = True, cf_allowShortCluster = False,
     cf_configIo = None, cf_deprecatedOptionHandler = False, cf_backend_available = (\<lambda>format. False),
     cf_show_double = (\<lambda>p x. [])\<rparr>"

definition example_options :: "arg_field list" where
  "example_options =
     [Option_Field ''verbose'' (no_tags\<lparr>tg_short_name := Some CHR ''v''\<rparr>) (At_scalar At_bool),
      Option_Field ''name'' (no_tags\<lparr>tg_short_name := Some CHR ''n''\<rparr>) (At_scalar At_string),
      Option_Field ''input'' (no_tags\<lparr>tg_positional := True\<rparr>) (At_vector At_string)]"

definition example_schema :: ArgSchema where
  "example_schema = snd (validate_schema_definition (collect_schema example_options new_config))"

lemma example_validated:
  "validate_schema_definition (collect_schema example_options new_config) = (Inr (), example_schema)"
  by code_simp

text \<open>C36 (equivalence). In an accepted schema an option that takes a value has one meaning in all its
  spellings: \<open>--name=v\<close>, \<open>--name v\<close>, \<open>-n v\<close>, \<open>-n=v\<close>, and \<open>-nv\<close> for a \<open>v\<close> that is not empty and
  has no equals sign, each before any other arguments and after any others.\<close>

theorem spellings_equivalent:
  assumes "validate_schema_definition (collect_schema options config) = (Inr (), s)"
    "i < length (sc_specs s)" "has_long_name n (sc_specs s ! i)" "has_short_name [c] (sc_specs s ! i)"
    "\<not> sp_flag (sc_specs s ! i)" "\<not> sp_has_implicit (sc_specs s ! i)"
  shows "parse_raw_loop s config False (Some (''--'' @ n) # Some v # rest) st =
      parse_raw_loop s config False (equals_form n v # rest) st \<and>
    parse_raw_loop s config False (Some [CHR ''-'', c] # Some v # rest) st =
      parse_raw_loop s config False (equals_form n v # rest) st \<and>
    parse_raw_loop s config False (Some (CHR ''-'' # c # CHR ''='' # v) # rest) st =
      parse_raw_loop s config False (equals_form n v # rest) st \<and>
    (v \<noteq> [] \<and> CHR ''='' \<notin> set v \<longrightarrow> parse_raw_loop s config False (Some (CHR ''-'' # c # v) # rest) st =
      parse_raw_loop s config False (equals_form n v # rest) st)"
proof (intro conjI impI)
  note ok = collected_accepted [OF assms(1)]
  note forms = al.inline_value [OF ok assms(2,3)] al.separate_value [OF ok assms(2,3,5,6)]
    al.short_equals [OF ok assms(2,4-6)]
  show "parse_raw_loop s config False (Some (''--'' @ n) # Some v # rest) st =
      parse_raw_loop s config False (equals_form n v # rest) st"
    "parse_raw_loop s config False (Some (CHR ''-'' # c # CHR ''='' # v) # rest) st =
      parse_raw_loop s config False (equals_form n v # rest) st"
    by (simp_all only: forms)
  show "parse_raw_loop s config False (Some [CHR ''-'', c] # Some v # rest) st =
      parse_raw_loop s config False (equals_form n v # rest) st"
    unfolding al.short_token [OF ok assms(2,4)] al.value_option(2) [OF assms(2,5,6)] forms
    by (auto simp: and_then_def split: sum.split)
  show "parse_raw_loop s config False (Some (CHR ''-'' # c # v) # rest) st =
      parse_raw_loop s config False (equals_form n v # rest) st" if "v \<noteq> [] \<and> CHR ''='' \<notin> set v"
    using that by (simp add: forms al.short_attached [OF ok assms(2,4-6)])
qed

lemma spellings_equivalent_witness:
  "parse_raw_loop example_schema new_config False [Some ''-nx'', Some ''-v''] ([[], [], []], 0) =
   parse_raw_loop example_schema new_config False [equals_form ''name'' ''x'', Some ''-v''] ([[], [], []], 0)"
proof -
  have "1 < length (sc_specs example_schema)" "has_long_name ''name'' (sc_specs example_schema ! 1)"
    "has_short_name [CHR ''n''] (sc_specs example_schema ! 1)" "\<not> sp_flag (sc_specs example_schema ! 1)"
    "\<not> sp_has_implicit (sc_specs example_schema ! 1)"
    by code_simp+
  then show ?thesis
    using spellings_equivalent [OF example_validated, of 1 "''name''" "CHR ''n''" "''x''" "[Some ''-v'']" "([[], [], []], 0)"]
    by simp
qed

text \<open>C37 (equivalence). A short cluster means the same as its options one by one: \<open>-abc\<close> is \<open>-a -b -c\<close>,
  when all of them but the last are flags; the last may take its value from the next argument.\<close>

theorem cluster_equals_separate:
  assumes "validate_schema_definition (collect_schema options config) = (Inr (), s)" "cf_allowShortCluster config" "2 \<le> length cs"
    "\<forall>c \<in> set cs. \<exists>i < length (sc_specs s). has_short_name [c] (sc_specs s ! i)"
    "\<forall>c \<in> set (butlast cs). \<forall>i < length (sc_specs s). has_short_name [c] (sc_specs s ! i) \<longrightarrow> sp_flag (sc_specs s ! i)"
  shows "parse_raw_loop s config False (Some (CHR ''-'' # cs) # rest) st =
    parse_raw_loop s config False (map (\<lambda>c. Some [CHR ''-'', c]) cs @ rest) st"
  using al.cluster_spelling [OF collected_accepted [OF assms(1)] assms(2-5)] .

definition cluster_config :: ArgParserConfig where
  "cluster_config = new_config\<lparr>cf_allowShortCluster := True\<rparr>"

lemma cluster_equals_separate_witness:
  "parse_raw_loop example_schema cluster_config False [Some ''-vn'', Some ''x''] ([[], [], []], 0) =
   parse_raw_loop example_schema cluster_config False [Some ''-v'', Some ''-n'', Some ''x''] ([[], [], []], 0)"
proof -
  have "validate_schema_definition (collect_schema example_options cluster_config) = (Inr (), example_schema)"
    "cf_allowShortCluster cluster_config" "2 \<le> length ''vn''"
    by code_simp+
  moreover have "list_all (\<lambda>c. list_ex (has_short_name [c]) (sc_specs example_schema)) ''vn''"
    "list_all (\<lambda>c. list_all (\<lambda>spec. has_short_name [c] spec \<longrightarrow> sp_flag spec) (sc_specs example_schema)) (butlast ''vn'')"
    by code_simp+
  then have "\<forall>c \<in> set ''vn''. \<exists>i < length (sc_specs example_schema). has_short_name [c] (sc_specs example_schema ! i)"
    "\<forall>c \<in> set (butlast ''vn''). \<forall>i < length (sc_specs example_schema). has_short_name [c] (sc_specs example_schema ! i) \<longrightarrow>
      sp_flag (sc_specs example_schema ! i)"
    by (simp_all only: list_all_iff list_ex_iff) (metis in_set_conv_nth nth_mem)+
  ultimately show ?thesis
    using cluster_equals_separate [of example_options cluster_config example_schema "''vn''" "[Some ''x'']" "([[], [], []], 0)"]
    by simp
qed

text \<open>C35 (roundtrip). Any values that fit an accepted schema, at most one for an option that is not
  repeatable and no positional given after one that is not, are read back from the command line that
  spells them, whatever their texts.\<close>

theorem command_line_roundtrip:
  assumes "validate_schema_definition (collect_schema options config) = (Inr (), s)" "assignable s vals"
  shows "parse_raw_arguments s (program # command_line s vals) 1 config = Inr vals"
  using al.command_line_parsed [OF collected_accepted [OF assms(1)] assms(2)] by (simp add: parse_raw_arguments_def)

lemma command_line_roundtrip_witness:
  "parse_raw_arguments example_schema [Some ''tool'', Some ''--verbose='', Some ''--name=--x=y'', Some ''--'', Some ''-a'', Some ''--'']
     1 new_config = Inr [[''''], [''--x=y''], [''-a'', ''--'']]"
proof -
  let ?vals = "[[''''], [''--x=y''], [''-a'', ''--'']]"
  have s: "length (sc_specs example_schema) = 3" "sp_repeatable (sc_specs example_schema ! 2)"
    "length (sc_positional_specs example_schema) = 1"
    by code_simp+
  have "assignable example_schema ?vals"
    using s by (auto simp: assignable_def raw_ok_def less_Suc_eq numeral_3_eq_3 numeral_2_eq_2)
  moreover have "command_line example_schema ?vals =
      [Some ''--verbose='', Some ''--name=--x=y'', Some ''--'', Some ''-a'', Some ''--'']"
    by code_simp
  ultimately show ?thesis
    using command_line_roundtrip [OF example_validated, of ?vals "Some ''tool''"] by simp
qed

lemma raw_arguments_safe_witness:
  "in_bounds (parse_raw_arguments example_schema [Some ''tool'', Some ''-nx'', Some ''--input'', Some ''a''] 1 new_config)"
  using raw_arguments_safe [of example_schema "[Some ''tool'', Some ''-nx'', Some ''--input'', Some ''a'']" 1 new_config]
  by blast



end
