(* ===== verification/Arg_Parser_Facts.thy ===== *)
theory Arg_Parser_Facts
  imports Arg_Material_Facts Arg_Command_Line
begin

text \<open>
  The parser as a whole: which source each option has its value from, what holds of an object that is
  returned, that no input makes the parser read outside a vector, and what it writes.
\<close>

subsection \<open>Schemas of an object\<close>

lemma collect_leaves:
  "length (sc_specs (collect_schema_into prefix config (type_of_obj fs) s)) = length (sc_specs s) + length (leaves fs)"
  by (induction fs arbitrary: prefix s rule: leaves.induct) (auto simp: Let_def push_user_spec_def)

lemma backend_specs_grow:
  "sc_user_spec_count (append_config_io_backend_specs io be s) = sc_user_spec_count s"
  "length (sc_specs s) \<le> length (sc_specs (append_config_io_backend_specs io be s))"
  by (simp_all add: append_config_io_backend_specs_def Let_def push_config_io_spec_if_available_def push_builtin_spec_def)

lemma append_config_io_grows:
  "sc_user_spec_count (append_config_io_specs config s) = sc_user_spec_count s"
  "length (sc_specs s) \<le> length (sc_specs (append_config_io_specs config s))"
proof -
  have "sc_user_spec_count (fold (append_config_io_backend_specs io) bes s) = sc_user_spec_count s \<and>
      length (sc_specs s) \<le> length (sc_specs (fold (append_config_io_backend_specs io) bes s))" for io bes
  proof (induction bes arbitrary: s)
    case (Cons be bes)
    then show ?case
      using backend_specs_grow [where io = io and be = be and s = s] le_trans by (metis fold_simps(2))
  qed simp
  then show "sc_user_spec_count (append_config_io_specs config s) = sc_user_spec_count s"
    "length (sc_specs s) \<le> length (sc_specs (append_config_io_specs config s))"
    by (simp_all add: append_config_io_specs_def split: option.split)
qed

lemma collected_counts:
  "sc_user_spec_count (collect_schema (type_of_obj object) config) = length (leaves object)"
  "length (leaves object) \<le> length (sc_specs (collect_schema (type_of_obj object) config))"
proof -
  let ?s = "collect_schema_into [] config (type_of_obj object) (new_schema (cf_nestedSeparator config))"
  have n: "length (sc_specs ?s) = length (leaves object)"
    by (simp add: collect_leaves new_schema_def)
  then show "sc_user_spec_count (collect_schema (type_of_obj object) config) = length (leaves object)"
    by (simp add: collect_schema_def Let_def append_config_io_grows(1))
  show "length (leaves object) \<le> length (sc_specs (collect_schema (type_of_obj object) config))"
    using append_config_io_grows(2) [of "?s\<lparr>sc_user_spec_count := length (sc_specs ?s)\<rparr>" config] n
    by (simp add: collect_schema_def Let_def)
qed

lemma validated_counts:
  assumes "validate_schema_definition (collect_schema (type_of_obj object) config) = (Inr (), schema)"
  shows "sc_user_spec_count schema = length (leaves object)" "length (leaves object) \<le> length (sc_specs schema)"
  using validated_specs(1,5) [OF assms] collected_counts by simp_all

lemma same_type_leaves:
  "type_of_obj a = type_of_obj b \<Longrightarrow> length (leaves a) = length (leaves b) \<and>
    map leaf_type (leaves a) = map leaf_type (leaves b) \<and> map leaf_tags (leaves a) = map leaf_tags (leaves b)"
proof (induction a arbitrary: b rule: type_of_obj.induct)
  case 1
  then show ?case
    by (cases b rule: type_of_obj.cases) simp_all
next
  case (2 name tags t v fs)
  from 2(2) obtain v' fs' where b: "b = Ob_option name tags t v' # fs'" "type_of_obj fs = type_of_obj fs'"
    by (cases b rule: type_of_obj.cases) simp_all
  then show ?case
    using 2(1) [OF b(2)] by simp
next
  case (3 name tags gs fs)
  from 3(3) obtain gs' fs' where b: "b = Ob_nested name tags gs' # fs'" "type_of_obj gs = type_of_obj gs'" "type_of_obj fs = type_of_obj fs'"
    by (cases b rule: type_of_obj.cases) simp_all
  then show ?case
    using 3(1) [OF b(2)] 3(2) [OF b(3)] by simp
next
  case (4 fs)
  from 4(2) obtain fs' where b: "b = Ob_ignored # fs'" "type_of_obj fs = type_of_obj fs'"
    by (cases b rule: type_of_obj.cases) simp_all
  then show ?case
    using 4(1) [OF b(2)] by simp
qed

lemma only_one_import_Inr [simp]: "only_one_import \<noteq> Inr x" "in_bounds only_one_import"
  by (simp_all add: only_one_import_def)

subsection \<open>One option\<close>

lemma assign_text_to_field_Inr:
  "assign_text_to_field config spec t text source v = Inr v' \<longleftrightarrow>
     assign_text_value t (case_insensitive_enum spec) (sp_separator spec) text v = Inr v' \<and> validate_field_value t v' spec = Inr ()"
  by (auto simp: assign_text_to_field_def and_then_Inr_iff)

text \<open>Assigning texts to a field, one after the other.\<close>

fun assign_texts :: "arg_type \<Rightarrow> bool \<Rightarrow> char \<Rightarrow> string list \<Rightarrow> arg_value \<Rightarrow> arg_value arg_result" where
  "assign_texts t ci sep [] v = Inr v"
| "assign_texts t ci sep (x # xs) v = and_then (assign_text_value t ci sep x v) (assign_texts t ci sep xs)"

lemma assign_raw_values_Inr:
  "snd (assign_raw_values config spec t texts v) = Inr v' \<Longrightarrow>
    assign_texts t (case_insensitive_enum spec) (sp_separator spec) texts v = Inr v' \<and>
    (texts \<noteq> [] \<longrightarrow> validate_field_value t v' spec = Inr ())"
proof (induction texts arbitrary: v)
  case (Cons x texts)
  obtain w where w: "assign_text_value t (case_insensitive_enum spec) (sp_separator spec) x v = Inr w"
    "validate_field_value t w spec = Inr ()" "snd (assign_raw_values config spec t texts w) = Inr v'"
    using Cons.prems(1) by (auto simp: snd_note_then and_then_Inr_iff assign_text_to_field_Inr)
  show ?case
    using Cons.IH [OF w(3)] w by (cases texts) simp_all
qed simp

text \<open>Whether the command line or the environment has a value, and the texts the stronger of them has.\<close>

definition given :: "(string \<Rightarrow> string option) \<Rightarrow> ArgSpec \<Rightarrow> raw_values \<Rightarrow> bool" where
  "given env spec texts \<longleftrightarrow> texts \<noteq> [] \<or> read_env env (sp_env_name spec) \<noteq> None"

definition given_texts :: "(string \<Rightarrow> string option) \<Rightarrow> ArgSpec \<Rightarrow> raw_values \<Rightarrow> string list" where
  "given_texts env spec texts =
     (if texts \<noteq> [] then texts else case read_env env (sp_env_name spec) of None \<Rightarrow> [] | Some text \<Rightarrow> [text])"

lemma given_texts_empty: "given_texts env spec texts = [] \<longleftrightarrow> \<not> given env spec texts"
  by (auto simp: given_texts_def given_def split: option.split)

lemma materialize_one_option_Inr:
  assumes "snd (materialize_one_option env config spec texts t already v) = Inr (v', d)"
  shows "d = given env spec texts" "d \<Longrightarrow> validate_field_value t v' spec = Inr ()"
    "d \<Longrightarrow> assign_texts t (case_insensitive_enum spec) (sp_separator spec) (given_texts env spec texts)
      (if is_vector t \<and> already then Av_vector [] else v) = Inr v'"
    "\<not> d \<Longrightarrow> v' = v"
proof -
  from assms consider
      (raw) "texts \<noteq> []" "snd (assign_raw_values config spec t texts (cleared t already v)) = Inr v'" "d"
    | (env) x where "texts = []" "read_env env (sp_env_name spec) = Some x" "d"
        "assign_text_value t (case_insensitive_enum spec) (sp_separator spec) x (cleared t already v) = Inr v'"
        "validate_field_value t v' spec = Inr ()"
    | (neither) "texts = []" "read_env env (sp_env_name spec) = None" "\<not> d" "v' = v"
    by (auto simp: materialize_one_option_def snd_note_then and_then_Inr_iff seen_def assign_text_to_field_Inr
        split: if_splits option.splits)
  then have "d = given env spec texts \<and> (d \<longrightarrow> validate_field_value t v' spec = Inr ()) \<and>
      (d \<longrightarrow> assign_texts t (case_insensitive_enum spec) (sp_separator spec) (given_texts env spec texts)
        (if is_vector t \<and> already then Av_vector [] else v) = Inr v') \<and>
      (\<not> d \<longrightarrow> v' = v)"
  proof cases
    case raw
    then show ?thesis
      using assign_raw_values_Inr [OF raw(2)] by (simp add: given_def given_texts_def cleared_def)
  qed (simp_all add: given_def given_texts_def cleared_def)
  then show "d = given env spec texts" "d \<Longrightarrow> validate_field_value t v' spec = Inr ()"
    "d \<Longrightarrow> assign_texts t (case_insensitive_enum spec) (sp_separator spec) (given_texts env spec texts)
      (if is_vector t \<and> already then Av_vector [] else v) = Inr v'"
    "\<not> d \<Longrightarrow> v' = v"
    by blast+
qed

lemma apply_default_option_Inr:
  "apply_default_option config spec tags t v = Inr (v', d) \<Longrightarrow> d = sp_has_default spec \<and> (\<not> d \<longrightarrow> v' = v)"
  by (auto simp: apply_default_option_def and_then_Inr_iff split: if_splits)

subsection \<open>A parse that succeeds\<close>

text \<open>What the serializers promise: a decoded object has the type it was decoded for.\<close>

definition decodes_types :: "config_world \<Rightarrow> bool" where
  "decodes_types w \<longleftrightarrow> (\<forall>format fs data doc.
     (wd_decode w format (Options_Type fs) data = Inr doc \<or> wd_decode w format (Command_Type fs) data = Inr doc) \<longrightarrow>
       type_of_obj (options_of_doc doc) = fs)"

lemma load_file_decodes:
  "load_file w config t path format = Inr doc \<Longrightarrow> \<exists>f data. wd_decode w f t data = Inr doc"
  by (auto simp: load_file_def load_stream_def decode_format_def decode_backend_def
      split: if_splits sum.splits option.splits)

lemma imported_type:
  assumes "decodes_types w" "import_config_file w config t file = Inr doc" "t = Options_Type fs \<or> t = Command_Type fs"
  shows "type_of_obj (options_of_doc doc) = fs"
proof -
  obtain f data where "wd_decode w f t data = Inr doc"
    using assms(2) load_file_decodes [of w config t "cio_path file" "cio_format file" doc]
    by (auto simp: import_config_file_def config_io_to_argparser_error_def split: sum.splits)
  then show ?thesis
    using assms(1,3) unfolding decodes_types_def by blast
qed

text \<open>The imported object of a parse, if it imports one.\<close>

definition imported_object :: "config_world \<Rightarrow> ArgParserConfig \<Rightarrow> obj \<Rightarrow> ConfigIoFile option \<Rightarrow> obj option" where
  "imported_object w config object import_file =
     (case import_file of
        None \<Rightarrow> None
      | Some file \<Rightarrow>
        (case import_config_file w config (Options_Type (type_of_obj object)) file of
           Inr doc \<Rightarrow> Some (options_of_doc doc)
         | Inl e \<Rightarrow> None))"

definition supplied_by ::
  "(string \<Rightarrow> string option) \<Rightarrow> ArgSchema \<Rightarrow> RawParseResult \<Rightarrow> obj option \<Rightarrow> nat \<Rightarrow> bool" where
  "supplied_by env schema raw imported i \<longleftrightarrow> given env (sc_specs schema ! i) (raw ! i) \<or>
     (case imported of
        None \<Rightarrow> sp_has_default (sc_specs schema ! i)
      | Some object \<Rightarrow> imported_field_supplied (leaf_value (leaves object ! i)))"

lemma mark_imported_Inr:
  assumes "snd (mark_imported_options_supplied schema object supplied) = Inr supplied'"
    "length (leaves object) = sc_user_spec_count schema" "presence_fits schema supplied"
  shows "length supplied' = length supplied"
    "i < length (leaves object) \<Longrightarrow> supplied' ! i = imported_field_supplied (leaf_value (leaves object ! i))"
proof -
  have P: "length (leaves object) \<le> length supplied"
    using assms(2,3) by (simp add: presence_fits_def)
  obtain object' j where w: "snd (for_each_option (imported_step schema) object
      (0, replicate (length (leaves object)) False @ drop (length (leaves object)) supplied)) = Inr (object', j, supplied')"
    using assms(1,2) P
    by (auto simp: mark_imported_options_supplied_def snd_note_then and_then_Inr_iff Let_def min_absorb1 split: if_splits)
  from iw.object_result [OF w] P show "length supplied' = length supplied"
    "i < length (leaves object) \<Longrightarrow> supplied' ! i = imported_field_supplied (leaf_value (leaves object ! i))"
    by auto
qed

text \<open>How the parse settles option \<open>i\<close>: the initial value, the default, the imported value, then the
  command line and the environment.\<close>

lemma parse_options_settles:
  assumes "snd (parse_options_into w env object argv start_index config external_import external_exports) = Inr result"
    "decodes_types w"
  obtains schema raw io supplied where
    "validate_schema_definition (collect_schema (type_of_obj object) config) = (Inr (), schema)"
    "parse_raw_arguments schema argv start_index config = Inr raw"
    "collect_config_io_selection schema raw no_selection = Inr io"
    "length (leaves result) = sc_user_spec_count schema" "length (leaves object) = sc_user_spec_count schema"
    "type_of_obj result = type_of_obj object"
    "presence_fits schema supplied"
    "snd (validate_materialized_options schema result supplied) = Inr ()"
    "\<And>i. i < sc_user_spec_count schema \<Longrightarrow>
       supplied ! i = supplied_by env schema raw (imported_object w config object (selected_import external_import io)) i"
    "\<And>i. i < sc_user_spec_count schema \<Longrightarrow> \<exists>v already d.
       snd (materialize_one_option env config (sc_specs schema ! i) (raw ! i) (leaf_type (leaves object ! i)) already v) =
         Inr (leaf_value (leaves result ! i), d) \<and>
       (case imported_object w config object (selected_import external_import io) of
          Some imported \<Rightarrow> v = leaf_value (leaves imported ! i) \<and> already = imported_field_supplied v
        | None \<Rightarrow> apply_default_option config (sc_specs schema ! i) (leaf_tags (leaves object ! i))
            (leaf_type (leaves object ! i)) (leaf_value (leaves object ! i)) = Inr (v, already))"
proof -
  obtain schema where schema: "validate_schema_definition (collect_schema (type_of_obj object) config) = (Inr (), schema)"
    using assms(1) by (auto simp: parse_options_into_def split: prod.splits sum.splits)
  note counts = validated_counts [OF schema]
  let ?P = "replicate (length (sc_specs schema)) False" and ?n = "sc_user_spec_count schema"
  obtain raw io o1 s1 o2 s2 s3 where r: "parse_raw_arguments schema argv start_index config = Inr raw"
    "collect_config_io_selection schema raw no_selection = Inr io"
    "snd (apply_defaults_into config schema object ?P) = Inr (o1, s1)"
    "snd (import_object w config schema (selected_import external_import io) o1 s1) = Inr (o2, s2)"
    "snd (materialize_explicit_options_into env config schema raw o2 s2) = Inr (result, s3)"
    "snd (validate_materialized_options schema result s3) = Inr ()"
    using assms(1) by (auto simp: parse_options_into_def schema snd_note_then and_then_Inr_iff split: if_splits)
  obtain k1 where d: "snd (for_each_option (default_step config schema) object (0, ?P)) = Inr (o1, k1, s1)"
    using r(3) by (auto simp: apply_defaults_into_def snd_note_then and_then_Inr_iff split: if_splits)
  have D: "length s1 = length (sc_specs schema)" "o1 = refill object (values_of o1)" "length (leaves o1) = ?n"
    "\<forall>i < ?n. \<exists>d. apply_default_option config (sc_specs schema ! i) (leaf_tags (leaves object ! i)) (leaf_type (leaves object ! i))
      (leaf_value (leaves object ! i)) = Inr (leaf_value (leaves o1 ! i), d) \<and> s1 ! i = d"
    using dw.object_result [OF d] counts by auto
  have fits: "presence_fits schema s1"
    using D(1) counts by (simp add: presence_fits_def)
  let ?imp = "imported_object w config object (selected_import external_import io)"
  have t1: "type_of_obj o1 = type_of_obj object"
    using D(2) type_of_refill by metis
  have I: "type_of_obj o2 = type_of_obj object \<and> length s2 = length (sc_specs schema) \<and>
      (\<forall>i < ?n. case ?imp of
         Some imported \<Rightarrow> leaf_value (leaves o2 ! i) = leaf_value (leaves imported ! i) \<and>
           s2 ! i = imported_field_supplied (leaf_value (leaves imported ! i))
       | None \<Rightarrow> leaf_value (leaves o2 ! i) = leaf_value (leaves o1 ! i) \<and> s2 ! i = s1 ! i)"
  proof (cases "selected_import external_import io")
    case None
    then show ?thesis
      using r(4) t1 D(1) by (simp add: import_object_def imported_object_def)
  next
    case (Some x)
    then obtain doc where doc: "import_config_file w config (Options_Type (type_of_obj object)) x = Inr doc"
      "o2 = options_of_doc doc" "snd (mark_imported_options_supplied schema o2 s1) = Inr s2"
      using r(4) by (auto simp: import_object_def t1 snd_note_then and_then_Inr_iff)
    have t2: "type_of_obj o2 = type_of_obj object"
      using imported_type [OF assms(2) doc(1)] doc(2) by simp
    then have n2: "length (leaves o2) = ?n"
      using same_type_leaves [OF t2] counts by simp
    show ?thesis
      using mark_imported_Inr [OF doc(3) n2 fits] n2 t2 doc Some D(1) by (simp add: imported_object_def)
  qed
  have n2: "length (leaves o2) = ?n" and types2: "map leaf_type (leaves o2) = map leaf_type (leaves object)"
    using I same_type_leaves [of o2 object] counts by simp_all
  obtain k2 where m: "snd (for_each_option (materialize_step env config schema raw) o2 (0, s2)) = Inr (result, k2, s3)"
    using r(5) by (auto simp: materialize_explicit_options_into_def snd_note_then and_then_Inr_iff split: if_splits)
  have M: "length s3 = length (sc_specs schema)" "result = refill o2 (values_of result)" "length (leaves result) = ?n"
    "\<forall>i < ?n. \<exists>d. snd (materialize_one_option env config (sc_specs schema ! i) (raw ! i) (leaf_type (leaves o2 ! i)) (s2 ! i)
      (leaf_value (leaves o2 ! i))) = Inr (leaf_value (leaves result ! i), d) \<and> s3 ! i = (d \<or> s2 ! i)"
    using mw.object_result [OF m] I n2 counts by auto
  have tr: "type_of_obj result = type_of_obj object"
    using M(2) I type_of_refill by metis
  have types: "leaf_type (leaves o2 ! i) = leaf_type (leaves object ! i)" if "i < ?n" for i
    using types2 n2 counts that by (metis nth_map)
  show thesis
  proof (rule that [OF schema r(1,2) M(3) _ tr _ r(6)])
    show "length (leaves object) = ?n"
      using counts by simp
    show "presence_fits schema s3"
      using M(1) counts by (simp add: presence_fits_def)
    show "s3 ! i = supplied_by env schema raw ?imp i" if i: "i < ?n" for i
    proof -
      obtain d where s3: "snd (materialize_one_option env config (sc_specs schema ! i) (raw ! i) (leaf_type (leaves o2 ! i)) (s2 ! i)
        (leaf_value (leaves o2 ! i))) = Inr (leaf_value (leaves result ! i), d)" "s3 ! i = (d \<or> s2 ! i)"
        using M(4) i by blast
      moreover have "s1 ! i = sp_has_default (sc_specs schema ! i)"
        using D(4) i apply_default_option_Inr by blast
      ultimately show ?thesis
        using materialize_one_option_Inr(1) [OF s3(1)] I i
        by (auto simp: supplied_by_def split: option.splits)
    qed
    show "\<exists>v already d.
       snd (materialize_one_option env config (sc_specs schema ! i) (raw ! i) (leaf_type (leaves object ! i)) already v) =
         Inr (leaf_value (leaves result ! i), d) \<and>
       (case ?imp of
          Some imported \<Rightarrow> v = leaf_value (leaves imported ! i) \<and> already = imported_field_supplied v
        | None \<Rightarrow> apply_default_option config (sc_specs schema ! i) (leaf_tags (leaves object ! i))
            (leaf_type (leaves object ! i)) (leaf_value (leaves object ! i)) = Inr (v, already))" if i: "i < ?n" for i
    proof -
      obtain d where "snd (materialize_one_option env config (sc_specs schema ! i) (raw ! i) (leaf_type (leaves object ! i)) (s2 ! i)
        (leaf_value (leaves o2 ! i))) = Inr (leaf_value (leaves result ! i), d)"
        using M(4) types [OF i] i by metis
      moreover have "case ?imp of
          Some imported \<Rightarrow> leaf_value (leaves o2 ! i) = leaf_value (leaves imported ! i) \<and>
            s2 ! i = imported_field_supplied (leaf_value (leaves o2 ! i))
        | None \<Rightarrow> apply_default_option config (sc_specs schema ! i) (leaf_tags (leaves object ! i))
            (leaf_type (leaves object ! i)) (leaf_value (leaves object ! i)) = Inr (leaf_value (leaves o2 ! i), s2 ! i)"
        using I D(4) i by (auto split: option.splits)
      ultimately show ?thesis
        by blast
    qed
  qed
qed

end
