(* ===== verification/Arg_Help.thy ===== *)
theory Arg_Help
  imports Arg_Parser
begin

text \<open>
  The help and version texts: \<open>argparser/detail/help.hpp\<close> and the second half of \<open>argparser.hpp\<close>. The
  indices of \<open>positional_specs\<close> are those of specs, as the schemas of \<open>collect_schema\<close> have them.
\<close>

definition newline :: string where
  "newline = [CHR 0x0A]"

definition positional_is_required :: "ArgSpec \<Rightarrow> bool" where
  "positional_is_required spec \<longleftrightarrow> sp_required spec \<and> \<not> sp_has_default spec"

definition format_positional_usage :: "ArgSpec \<Rightarrow> string" where
  "format_positional_usage spec =
     (let result = ''<'' @ (if sp_value_name spec = [] then sp_long_name spec else sp_value_name spec) @ ''>'' @
        (if sp_repeatable spec then ''...'' else [])
      in if positional_is_required spec then result else ''['' @ result @ '']'')"

definition usage_start :: "string \<Rightarrow> string" where
  "usage_start programName = ''Usage:'' @ (if programName = [] then [] else '' '' @ programName)"

definition visible_positionals :: "ArgSchema \<Rightarrow> ArgSpec list" where
  "visible_positionals schema = filter (\<lambda>spec. \<not> sp_hidden spec) (map ((!) (sc_specs schema)) (sc_positional_specs schema))"

definition default_usage :: "string \<Rightarrow> ArgSchema \<Rightarrow> string" where
  "default_usage programName schema =
     usage_start programName @ '' [options]'' @
     concat (map (\<lambda>spec. '' '' @ format_positional_usage spec) (visible_positionals schema))"

definition default_command_usage :: "string \<Rightarrow> string" where
  "default_command_usage programName = usage_start programName @ '' <command> [options]''"

definition format_version_text :: "ArgParserConfig \<Rightarrow> string" where
  "format_version_text config =
     (if cf_programName config = [] then []
      else cf_programName config @ (if cf_version config = [] then [] else '' '')) @ cf_version config @ newline"

fun join_names :: "string list \<Rightarrow> string" where
  "join_names [] = []"
| "join_names [n] = n"
| "join_names (n # ns) = n @ '', '' @ join_names ns"

definition option_names :: "ArgSpec \<Rightarrow> string list" where
  "option_names spec =
     (if sp_short_name spec = [] then [] else [''-'' @ sp_short_name spec]) @
     map ((@) ''-'') (filter (\<lambda>a. length a = 1) (sp_aliases spec)) @ [''--'' @ sp_long_name spec] @
     map ((@) ''--'') (filter (\<lambda>a. 1 < length a) (sp_aliases spec))"

definition format_option_label :: "ArgSpec \<Rightarrow> string" where
  "format_option_label spec =
     (if sp_positional spec
      then (if sp_value_name spec = [] then sp_long_name spec else sp_value_name spec) @
        (if sp_repeatable spec then ''...'' else [])
      else join_names (option_names spec)) @
     (if \<not> sp_flag spec \<and> \<not> sp_positional spec
      then '' <'' @ (if sp_value_name spec = [] then ''value'' else sp_value_name spec) @ ''>'' else [])"

definition relation_details :: "ArgSchema \<Rightarrow> nat list \<Rightarrow> string \<Rightarrow> string" where
  "relation_details schema targets label =
     (if targets = [] then []
      else '' ('' @ label @ '': '' @
        join_names (map (\<lambda>t. if t < length (sc_specs schema) then format_error_option_label (sc_specs schema ! t)
          else ''<invalid>'') targets) @ '')'')"

definition option_details :: "ArgParserConfig \<Rightarrow> ArgSchema \<Rightarrow> ArgSpec \<Rightarrow> string" where
  "option_details config schema spec =
     (if sp_required spec then '' (required)'' else []) @
     (if sp_has_range spec
      then '' (range: ['' @ cf_show_double config 15 (sp_range_min spec) @ '', '' @
        cf_show_double config 15 (sp_range_max spec) @ ''))'' else []) @
     (if sp_has_default spec then '' (default: '' @ sp_default_value spec @ '')'' else []) @
     (if sp_has_implicit spec then '' (implicit: '' @ sp_implicit_value spec @ '')'' else []) @
     (if sp_repeatable spec then '' (repeatable)'' else []) @
     (if sp_separator spec \<noteq> nul then '' (separator: '' @ [CHR 0x27, sp_separator spec, CHR 0x27] @ '')'' else []) @
     (if sp_env_name spec \<noteq> [] then '' (env: '' @ sp_env_name spec @ '')'' else []) @
     (if sp_choices spec \<noteq> [] then '' (choices: {'' @ join_names (sp_choices spec) @ ''})'' else []) @
     (if sp_case_insensitive_choices spec \<and> sp_choices spec \<noteq> [] then '' (case-insensitive)'' else []) @
     (if sp_deprecated spec
      then '' (deprecated'' @ (if sp_deprecated_message spec = [] then [] else '': '' @ sp_deprecated_message spec) @ '')''
      else []) @
     relation_details schema (sp_require_indices spec) ''requires'' @
     relation_details schema (sp_conflict_indices spec) ''conflicts''"

definition option_entry :: "ArgParserConfig \<Rightarrow> ArgSchema \<Rightarrow> ArgSpec \<Rightarrow> string" where
  "option_entry config schema spec =
     ''  '' @ format_option_label spec @ option_details config schema spec @
     (if sp_help spec = [] then [] else newline @ ''      '' @ sp_help spec) @ newline"

definition builtin_option_entry :: "ArgSchema \<Rightarrow> bool \<Rightarrow> string \<Rightarrow> string \<Rightarrow> string" where
  "builtin_option_entry schema enabled short_name long_name =
     (let has_short_override = find_short_index schema short_name \<noteq> None;
          has_long_override = find_long_index schema long_name \<noteq> None
      in if \<not> enabled \<or> has_short_override \<and> has_long_override then []
         else ''  '' @ (if has_short_override then [] else ''-'' @ short_name) @
           (if \<not> has_short_override \<and> \<not> has_long_override then '', '' else []) @
           (if has_long_override then [] else ''--'' @ long_name) @ newline)"

definition ungrouped_options :: "ArgParserConfig \<Rightarrow> ArgSchema \<Rightarrow> string" where
  "ungrouped_options config schema =
     concat (map (option_entry config schema)
       (filter (\<lambda>spec. \<not> (sp_hidden spec \<or> sp_positional spec \<or> sp_group spec \<noteq> [])) (sc_specs schema)))"

text \<open>The groups in the order of their first visible option.\<close>

fun option_groups :: "string list \<Rightarrow> ArgSpec list \<Rightarrow> string list" where
  "option_groups groups [] = groups"
| "option_groups groups (spec # specs) =
     (if sp_hidden spec \<or> sp_positional spec \<or> sp_group spec = [] then option_groups groups specs
      else option_groups (if sp_group spec \<in> set groups then groups else groups @ [sp_group spec]) specs)"

definition grouped_options :: "ArgParserConfig \<Rightarrow> ArgSchema \<Rightarrow> string" where
  "grouped_options config schema =
     concat (map (\<lambda>group. newline @ group @ '':'' @ newline @
         concat (map (option_entry config schema)
           (filter (\<lambda>spec. \<not> sp_hidden spec \<and> \<not> sp_positional spec \<and> sp_group spec = group) (sc_specs schema))))
       (option_groups [] (sc_specs schema)))"

definition positional_arguments :: "ArgParserConfig \<Rightarrow> ArgSchema \<Rightarrow> string" where
  "positional_arguments config schema =
     (if visible_positionals schema = [] then []
      else newline @ ''Arguments:'' @ newline @ concat (map (option_entry config schema) (visible_positionals schema)))"

definition description_text :: "string \<Rightarrow> string" where
  "description_text description = (if description = [] then [] else newline @ description @ newline)"

definition format_help_from_schema :: "ArgSchema \<Rightarrow> ArgParserConfig \<Rightarrow> string" where
  "format_help_from_schema schema config =
     (let schema = snd (validate_schema_definition schema) in
      (if cf_usage config \<noteq> [] then cf_usage config else default_usage (cf_programName config) schema) @ newline @
      description_text (cf_description config) @
      newline @ ''Options:'' @ newline @
      builtin_option_entry schema (cf_addHelp config) ''h'' ''help'' @
      builtin_option_entry schema (version_enabled config) ''V'' ''version'' @
      ungrouped_options config schema @
      (if list_ex (\<lambda>spec. \<not> sp_hidden spec \<and> \<not> sp_positional spec \<and> sp_group spec \<noteq> []) (sc_specs schema)
       then grouped_options config schema else []) @
      positional_arguments config schema)"

definition format_placeholder_command_help :: "string \<Rightarrow> string \<Rightarrow> string" where
  "format_placeholder_command_help programName description =
     usage_start programName @ newline @ description_text description"

subsection \<open>Help of a command set\<close>

definition command_entry :: "command_field \<Rightarrow> string" where
  "command_entry field =
     (case field of
        Ignored_Command \<Rightarrow> []
      | Command_Field name tags _ \<Rightarrow>
          if tg_hidden tags then []
          else ''  '' @ command_name_at name tags @
            (if tg_help tags = [] then [] else newline @ ''      '' @ tg_help tags) @ newline)"

definition format_command_help :: "command_field list \<Rightarrow> ArgParserConfig \<Rightarrow> string" where
  "format_command_help commands config =
     (let root_schema = collect_command_config_io_schema config in
      (if cf_usage config \<noteq> [] then cf_usage config else default_command_usage (cf_programName config)) @ newline @
      description_text (cf_description config) @
      (if cf_addHelp config \<or> version_enabled config \<or> sc_specs root_schema \<noteq> []
       then newline @ ''Options:'' @ newline @
         builtin_option_entry root_schema (cf_addHelp config) ''h'' ''help'' @
         builtin_option_entry root_schema (version_enabled config) ''V'' ''version'' @
         ungrouped_options config root_schema
       else []) @
      newline @ ''Commands:'' @ newline @ concat (map command_entry commands))"

definition try_format_command_help :: "string \<Rightarrow> ArgParserConfig \<Rightarrow> ArgTags \<Rightarrow> command_payload \<Rightarrow> string" where
  "try_format_command_help command config tags payload =
     (let program_name = (if cf_programName config = [] then [] else cf_programName config @ '' '') @ command;
          command_config = config\<lparr>cf_programName := program_name, cf_usage := [],
            cf_description := (if tg_help tags \<noteq> [] then tg_help tags else cf_description config)\<rparr>
      in case payload of
           Placeholder_Command \<Rightarrow> format_placeholder_command_help (cf_programName command_config) (cf_description command_config)
         | Options_Command object \<Rightarrow>
             format_help_from_schema (collect_schema (type_of_obj object) command_config) command_config)"

text \<open>The help of the last field with the name of the command.\<close>

fun command_help :: "string \<Rightarrow> ArgParserConfig \<Rightarrow> command_field list \<Rightarrow> string option \<Rightarrow> string option" where
  "command_help command config [] result = result"
| "command_help command config (Ignored_Command # fs) result = command_help command config fs result"
| "command_help command config (Command_Field name tags payload # fs) result =
     command_help command config fs
       (if command_name_at name tags = command then Some (try_format_command_help command config tags payload) else result)"

definition format_context_help :: "root_type \<Rightarrow> args \<Rightarrow> ArgParserConfig \<Rightarrow> string" where
  "format_context_help kind argv config =
     (let config = (case argv of
            Some program # _ \<Rightarrow> if cf_programName config = [] then config\<lparr>cf_programName := program\<rparr> else config
          | _ \<Rightarrow> config)
      in case kind of
        Options_Root object \<Rightarrow> format_help_from_schema (collect_schema (type_of_obj object) config) config
      | Commands_Root commands \<Rightarrow>
          (case argv of
             _ # Some command # _ \<Rightarrow>
               if is_help_token command \<or> is_version_token command then format_command_help commands config
               else (case command_help command config commands None of
                   Some help \<Rightarrow> help
                 | None \<Rightarrow> format_command_help commands config)
           | _ \<Rightarrow> format_command_help commands config))"

definition format_help :: "root_type \<Rightarrow> ArgParserConfig \<Rightarrow> string" where
  "format_help kind config =
     (case kind of
        Options_Root object \<Rightarrow> format_help_from_schema (collect_schema (type_of_obj object) config) config
      | Commands_Root commands \<Rightarrow> format_command_help commands config)"

end
