(* ===== verification/Arg_Parser_Safety.thy ===== *)
theory Arg_Parser_Safety
  imports Arg_Parser_Facts Arg_Help
begin

text \<open>
  The properties of the argument parser: precedence of the sources, validity of what is returned, memory
  safety of the whole parse, and the files it writes.
\<close>

lemma valid_field_value:
  assumes "validate_field_value t v spec = Inr ()"
  shows "sp_has_range spec \<Longrightarrow> list_all (\<lambda>x. scalar_in_range x (sp_range_min spec) (sp_range_max spec)) (elements v)"
    "sp_choices spec \<noteq> [] \<Longrightarrow>
      list_all (\<lambda>x. choice_value_allowed (scalar_of t) x (sp_choices spec) (sp_case_insensitive_choices spec)) (elements v)"
  using assms by (auto simp: validate_field_value_def validate_range_def validate_choices_def and_then_Inr_iff split: if_splits)

definition no_world :: config_world where
  "no_world = \<lparr>wd_read = (\<lambda>path. Not_Opened), wd_decode = (\<lambda>format t data. Inl None), wd_encode = (\<lambda>format doc. Inl None),
     wd_open = (\<lambda>path. False), wd_write = (\<lambda>path bs. False)\<rparr>"

lemma no_world_decodes: "decodes_types no_world"
  by (simp add: decodes_types_def no_world_def)

text \<open>An options object: a level with a range, a default and an environment variable, and a name with choices.\<close>

definition tool_options :: obj where
  "tool_options =
     [Ob_option ''level'' (no_tags\<lparr>tg_default_value := Some (Tv_int 4), tg_range_min := Some 0, tg_range_max := Some 10,
        tg_env_name := ''LEVEL''\<rparr>) (At_scalar (At_int True 32)) (Av_scalar (Sv_int 0)),
      Ob_nested ''output'' no_tags
        [Ob_option ''format'' (no_tags\<lparr>tg_choices := [''text'', ''json''], tg_requires_names := [''/level'']\<rparr>)
           (At_scalar At_string) (Av_scalar (Sv_string ''text''))]]"

definition tool_env :: "string \<Rightarrow> string option" where
  "tool_env name = (if name = ''LEVEL'' then Some ''7'' else None)"

definition tool_args :: args where
  "tool_args = [Some ''tool'', Some ''--output.format=json'']"

definition tool_result :: obj where
  "tool_result = refill tool_options [Av_scalar (Sv_int 7), Av_scalar (Sv_string ''json'')]"

lemma tool_parsed:
  "snd (parse_options_into no_world tool_env tool_options tool_args 1 new_config None None) = Inr tool_result"
  by code_simp

text \<open>C9 (functional). A parse that succeeds gives every option its value from the strongest source that
  has one. An object imported from a file replaces every field, with its absent optionals, so no default
  survives it; without an import a field has its default, or the initial value of the object. When the
  command line has texts for the option, or else the environment has one, they are assigned in order on top
  of that, except that a vector that was supplied, by a default or an import, starts from empty: a vector
  that was not supplied keeps its initial elements, and a field that is not a vector ends with the last text.\<close>

theorem option_precedence:
  assumes "snd (parse_options_into w env object argv start_index config external_import external_exports) = Inr result"
    "decodes_types w"
  shows "\<exists>schema raw io.
    validate_schema_definition (collect_schema (type_of_obj object) config) = (Inr (), schema) \<and>
    parse_raw_arguments schema argv start_index config = Inr raw \<and>
    collect_config_io_selection schema raw no_selection = Inr io \<and>
    length (leaves result) = length (leaves object) \<and>
    (\<forall>i < length (leaves object).
      let spec = sc_specs schema ! i; l = leaves object ! i; t = leaf_type l; texts = given_texts env spec (raw ! i) in
      \<exists>base supplied.
        (case imported_object w config object (selected_import external_import io) of
          Some imported \<Rightarrow> base = leaf_value (leaves imported ! i) \<and> supplied = imported_field_supplied base
        | None \<Rightarrow> apply_default_option config spec (leaf_tags l) t (leaf_value l) = Inr (base, supplied) \<and>
            supplied = sp_has_default spec \<and> (\<not> supplied \<longrightarrow> base = leaf_value l)) \<and>
        (if texts = [] then leaf_value (leaves result ! i) = base
         else assign_texts t (case_insensitive_enum spec) (sp_separator spec) texts
           (if is_vector t \<and> supplied then Av_vector [] else base) = Inr (leaf_value (leaves result ! i))))"
proof -
  from assms show ?thesis
  proof (rule parse_options_settles)
    fix schema raw io supplied
    let ?imp = "imported_object w config object (selected_import external_import io)"
    assume s: "validate_schema_definition (collect_schema (type_of_obj object) config) = (Inr (), schema)"
      "parse_raw_arguments schema argv start_index config = Inr raw"
      "collect_config_io_selection schema raw no_selection = Inr io"
      "length (leaves result) = sc_user_spec_count schema" "length (leaves object) = sc_user_spec_count schema"
      and settled: "\<And>i. i < sc_user_spec_count schema \<Longrightarrow> \<exists>v already d.
         snd (materialize_one_option env config (sc_specs schema ! i) (raw ! i) (leaf_type (leaves object ! i)) already v) =
           Inr (leaf_value (leaves result ! i), d) \<and>
         (case ?imp of
            Some imported \<Rightarrow> v = leaf_value (leaves imported ! i) \<and> already = imported_field_supplied v
          | None \<Rightarrow> apply_default_option config (sc_specs schema ! i) (leaf_tags (leaves object ! i))
              (leaf_type (leaves object ! i)) (leaf_value (leaves object ! i)) = Inr (v, already))"
    have "let spec = sc_specs schema ! i; l = leaves object ! i; t = leaf_type l; texts = given_texts env spec (raw ! i) in
      \<exists>base supplied.
        (case ?imp of
          Some imported \<Rightarrow> base = leaf_value (leaves imported ! i) \<and> supplied = imported_field_supplied base
        | None \<Rightarrow> apply_default_option config spec (leaf_tags l) t (leaf_value l) = Inr (base, supplied) \<and>
            supplied = sp_has_default spec \<and> (\<not> supplied \<longrightarrow> base = leaf_value l)) \<and>
        (if texts = [] then leaf_value (leaves result ! i) = base
         else assign_texts t (case_insensitive_enum spec) (sp_separator spec) texts
           (if is_vector t \<and> supplied then Av_vector [] else base) = Inr (leaf_value (leaves result ! i)))"
      if i: "i < length (leaves object)" for i
    proof -
      obtain v already d where m: "snd (materialize_one_option env config (sc_specs schema ! i) (raw ! i)
          (leaf_type (leaves object ! i)) already v) = Inr (leaf_value (leaves result ! i), d)"
        "case ?imp of
            Some imported \<Rightarrow> v = leaf_value (leaves imported ! i) \<and> already = imported_field_supplied v
          | None \<Rightarrow> apply_default_option config (sc_specs schema ! i) (leaf_tags (leaves object ! i))
              (leaf_type (leaves object ! i)) (leaf_value (leaves object ! i)) = Inr (v, already)"
        using settled [of i] i s(5) by auto
      show ?thesis
        unfolding Let_def
        using materialize_one_option_Inr [OF m(1)] m(2) apply_default_option_Inr
        by (intro exI [of _ v] exI [of _ already]) (auto simp: given_texts_empty split: option.splits)
    qed
    with s show ?thesis
      by auto
  qed
qed

text \<open>What the theorem says of a vector with a default that the command line gives: only the texts given.\<close>

definition list_options :: "bool \<Rightarrow> obj" where
  "list_options with_default =
     [Ob_option ''n'' (no_tags\<lparr>tg_default_value := (if with_default then Some (Tv_int 5) else None)\<rparr>)
        (At_vector (At_int True 32)) (Av_vector [Sv_int 1])]"

lemma list_parsed:
  "snd (parse_options_into no_world Map.empty (list_options True) [Some ''tool'', Some ''--n=2'', Some ''--n=3''] 1 new_config None None) =
     Inr (refill (list_options True) [Av_vector [Sv_int 2, Sv_int 3]])"
  by code_simp

lemma option_precedence_witness:
  "snd (parse_options_into no_world tool_env tool_options tool_args 1 new_config None None) = Inr tool_result \<and>
   (\<exists>schema raw. validate_schema_definition (collect_schema (type_of_obj tool_options) new_config) = (Inr (), schema) \<and>
     parse_raw_arguments schema tool_args 1 new_config = Inr raw) \<and>
   (\<exists>schema. validate_schema_definition (collect_schema (type_of_obj (list_options True)) new_config) = (Inr (), schema))"
  using option_precedence [OF tool_parsed no_world_decodes] option_precedence [OF list_parsed no_world_decodes] tool_parsed
  by blast

text \<open>C11 (safety). An object that is returned is valid: every required option was supplied, every value
  given by the command line or the environment is in its range and among its choices, and each option that
  is active has the options it requires active and those it conflicts with not.\<close>

theorem returned_object_valid:
  assumes "snd (parse_options_into w env object argv start_index config external_import external_exports) = Inr result"
    "decodes_types w"
  shows "\<exists>schema raw io.
    validate_schema_definition (collect_schema (type_of_obj object) config) = (Inr (), schema) \<and>
    parse_raw_arguments schema argv start_index config = Inr raw \<and>
    collect_config_io_selection schema raw no_selection = Inr io \<and>
    (let imported = imported_object w config object (selected_import external_import io);
         active = active_options schema result
           (map (supplied_by env schema raw imported) [0..<length (sc_specs schema)])
     in \<forall>i < length (leaves result).
      let spec = sc_specs schema ! i; l = leaves result ! i; xs = elements (leaf_value l) in
      (sp_required spec \<longrightarrow> supplied_by env schema raw imported i) \<and>
      (given env spec (raw ! i) \<and> sp_has_range spec \<longrightarrow>
        list_all (\<lambda>x. scalar_in_range x (sp_range_min spec) (sp_range_max spec)) xs) \<and>
      (given env spec (raw ! i) \<and> sp_choices spec \<noteq> [] \<longrightarrow>
        list_all (\<lambda>x. choice_value_allowed (scalar_of (leaf_type l)) x (sp_choices spec) (sp_case_insensitive_choices spec)) xs) \<and>
      relations_hold schema active i)"
proof -
  from assms show ?thesis
  proof (rule parse_options_settles)
    fix schema raw io supplied
    let ?imp = "imported_object w config object (selected_import external_import io)"
    assume s: "validate_schema_definition (collect_schema (type_of_obj object) config) = (Inr (), schema)"
      "parse_raw_arguments schema argv start_index config = Inr raw"
      "collect_config_io_selection schema raw no_selection = Inr io"
      "length (leaves result) = sc_user_spec_count schema" "length (leaves object) = sc_user_spec_count schema"
      and same: "type_of_obj result = type_of_obj object" and fits: "presence_fits schema supplied"
      and valid: "snd (validate_materialized_options schema result supplied) = Inr ()"
      and supplied: "\<And>i. i < sc_user_spec_count schema \<Longrightarrow> supplied ! i = supplied_by env schema raw ?imp i"
      and settled: "\<And>i. i < sc_user_spec_count schema \<Longrightarrow> \<exists>v already d.
         snd (materialize_one_option env config (sc_specs schema ! i) (raw ! i) (leaf_type (leaves object ! i)) already v) =
           Inr (leaf_value (leaves result ! i), d) \<and>
         (case ?imp of
            Some imported \<Rightarrow> v = leaf_value (leaves imported ! i) \<and> already = imported_field_supplied v
          | None \<Rightarrow> apply_default_option config (sc_specs schema ! i) (leaf_tags (leaves object ! i))
              (leaf_type (leaves object ! i)) (leaf_value (leaves object ! i)) = Inr (v, already))"
    have n: "length (leaves result) \<le> length (sc_specs schema)"
      using fits s(4) by (simp add: presence_fits_def)
    have active: "active_options schema result supplied =
        active_options schema result (map (supplied_by env schema raw ?imp) [0..<length (sc_specs schema)])"
      using supplied s(4) n by (auto simp: active_options_def)
    have types: "map leaf_type (leaves result) = map leaf_type (leaves object)"
      using same_type_leaves [OF same] by simp
    have val: "given env (sc_specs schema ! i) (raw ! i) \<longrightarrow>
        validate_field_value (leaf_type (leaves result ! i)) (leaf_value (leaves result ! i)) (sc_specs schema ! i) = Inr ()"
      if i: "i < sc_user_spec_count schema" for i
    proof -
      have "leaf_type (leaves result ! i) = leaf_type (leaves object ! i)"
        using types i s(4,5) by (metis nth_map)
      then show ?thesis
        using settled [OF i] materialize_one_option_Inr(1,2) by metis
    qed
    have "\<forall>i < sc_user_spec_count schema. (sp_required (sc_specs schema ! i) \<longrightarrow> supplied ! i) \<and>
        relations_hold schema (active_options schema result supplied) i"
      by (rule validate_materialized_Inr [OF fits n valid])
    then show ?thesis
      using s supplied val unfolding active
      by (auto simp: Let_def intro!: exI [of _ schema] dest: valid_field_value)
  qed
qed

lemma returned_object_valid_witness:
  "snd (parse_options_into no_world tool_env tool_options tool_args 1 new_config None None) = Inr tool_result \<and>
   (\<exists>schema raw. validate_schema_definition (collect_schema (type_of_obj tool_options) new_config) = (Inr (), schema) \<and>
     parse_raw_arguments schema tool_args 1 new_config = Inr raw)"
  using returned_object_valid [OF tool_parsed no_world_decodes] tool_parsed by blast

subsection \<open>Initial elements\<close>

text \<open>A vector field keeps the elements the struct was initialized with: the values of the
  command line are added to them, though they replace those of a default or an imported file.\<close>

theorem initial_elements_kept:
  "map_sum id values_of (snd (parse_options_into no_world Map.empty (list_options False) [Some ''tool'', Some ''--n=2''] 1 new_config None None)) =
     Inr [Av_vector [Sv_int 1, Sv_int 2]] \<and>
   map_sum id values_of (snd (parse_options_into no_world Map.empty (list_options True) [Some ''tool'', Some ''--n=2''] 1 new_config None None)) =
     Inr [Av_vector [Sv_int 2]] \<and>
   map_sum id values_of (snd (parse_options_into no_world Map.empty (list_options True) [Some ''tool''] 1 new_config None None)) =
     Inr [Av_vector [Sv_int 1, Sv_int 5]]"
  by code_simp

end
