(* ===== verification/Arg_Parser_Bounds.thy ===== *)
theory Arg_Parser_Bounds
  imports Arg_Parser_Safety
begin

text \<open>
  No run of the parser reads outside a vector, and no run writes a file before its options are accepted.
\<close>

subsection \<open>Bounds\<close>

definition names_below :: "nat \<Rightarrow> names \<Rightarrow> bool" where
  "names_below n entries \<longleftrightarrow> list_all (\<lambda>e. snd e < n) entries"

lemma check_name_bounds:
  assumes "names_below n entries" "index < n" "n \<le> length (sc_specs schema)"
  shows "in_bounds (check_name schema kind entries name index)"
    "check_name schema kind entries name index = Inr entries' \<Longrightarrow> names_below n entries'"
proof -
  have found: "e \<in> set entries" if "find (\<lambda>e. fst e = name) entries = Some e" for e
    using that by (auto simp: find_Some_iff)
  show "in_bounds (check_name schema kind entries name index)"
  proof (cases "find (\<lambda>e. fst e = name) entries")
    case (Some e)
    then have "snd e < length (sc_specs schema)"
      using found [OF Some] assms by (auto simp: names_below_def list_all_iff)
    then show ?thesis
      using Some assms by (simp add: check_name_def byte_at_def)
  qed (simp add: check_name_def)
  show "check_name schema kind entries name index = Inr entries' \<Longrightarrow> names_below n entries'"
    using assms by (auto simp: check_name_def names_below_def and_then_Inr_iff split: option.splits)
qed

definition both_below :: "nat \<Rightarrow> names \<times> names \<Rightarrow> bool" where
  "both_below n ns \<longleftrightarrow> names_below n (fst ns) \<and> names_below n (snd ns)"

lemma both_below_pair [simp]: "both_below n (ls, ss) \<longleftrightarrow> names_below n ls \<and> names_below n ss"
  by (simp add: both_below_def)

lemma check_aliases_below:
  assumes "index < n" "n \<le> length (sc_specs schema)"
  shows "both_below n ns \<Longrightarrow> check_aliases schema index spec as ns = Inr ns' \<Longrightarrow> both_below n ns'"
proof (induction "as" arbitrary: ns)
  case (Cons a as)
  obtain ls ss where ns: "ns = (ls, ss)"
    by (cases ns)
  have step: "both_below n ns'" if "both_below n (l, s)" "check_aliases schema index spec as (l, s) = Inr ns'" for l s
    using Cons.IH that by blast
  show ?case
    using Cons.prems step
    by (auto simp: ns Let_def and_then_Inr_iff dest: check_name_bounds(2) [OF _ assms] split: if_splits)
qed auto

lemma check_aliases_bounds:
  assumes "index < n" "n \<le> length (sc_specs schema)"
  shows "both_below n ns \<Longrightarrow> in_bounds (check_aliases schema index spec as ns)"
proof (induction "as" arbitrary: ns)
  case (Cons a as)
  then show ?case
    using check_name_bounds [OF _ assms]
    by (cases ns) (auto simp: Let_def intro!: fault_free)
qed auto

lemma check_spec_bounds:
  assumes "index < n" "n \<le> length (sc_specs schema)" "both_below n ns"
  shows "in_bounds (check_spec schema index spec ns)"
    "check_spec schema index spec ns = Inr ns' \<Longrightarrow> both_below n ns'"
proof -
  obtain ls ss where ns: "ns = (ls, ss)" "names_below n ls" "names_below n ss"
    using assms(3) by (cases ns) auto
  note name = check_name_bounds [OF _ assms(1,2)]
  have own: "in_bounds (check_own_names schema index spec ns)"
    using ns name by (auto simp: check_own_names_def intro!: fault_free)
  have kept: "both_below n ns1" if "check_own_names schema index spec ns = Inr ns1" for ns1
    using that ns name(2) by (auto simp: check_own_names_def and_then_Inr_iff split: if_splits)
  show "in_bounds (check_spec schema index spec ns)"
    unfolding check_spec_def using own kept check_aliases_bounds [OF assms(1,2)] by (auto intro!: fault_free)
  show "check_spec schema index spec ns = Inr ns' \<Longrightarrow> both_below n ns'"
    by (auto simp: check_spec_def and_then_Inr_iff dest!: kept split: if_splits
        intro: check_aliases_below [OF assms(1,2)])
qed

lemma check_specs_bounds:
  "index + length specs \<le> length (sc_specs schema) \<Longrightarrow> both_below (length (sc_specs schema)) ns \<Longrightarrow>
    in_bounds (check_specs schema index specs ns)"
proof (induction specs arbitrary: index ns)
  case (Cons spec specs)
  then show ?case
    using check_spec_bounds [of index "length (sc_specs schema)" schema ns spec] by (auto intro!: fault_free)
qed simp

lemma check_positionals_bounds:
  "list_all (\<lambda>i. i < length (sc_specs schema)) is \<Longrightarrow> in_bounds (check_positionals schema is)"
  by (induction schema "is" rule: check_positionals.induct) (auto simp: byte_at_def)

lemma resolve_bounds:
  "in_bounds (fst (resolve_references schema index spec kind rs targets))"
  by (induction rs arbitrary: targets) (auto split: option.split)

lemma resolve_specs_bounds:
  "count \<le> length specs \<Longrightarrow> in_bounds (fst (resolve_specs schema index count specs))"
proof (induction specs arbitrary: index count)
  case Nil
  then show ?case
    by (cases count) auto
next
  case (Cons spec specs)
  have "in_bounds (fst (resolve_spec schema index spec))"
    using resolve_bounds [of schema index spec "''requirement''" "sp_requires_names spec" "[]"]
      resolve_bounds [of schema index spec "''conflict''" "sp_conflicts spec" "[]"]
    by (auto simp: resolve_spec_def split: prod.splits sum.splits)
  then show ?case
    using Cons by (cases count) (auto simp: in_bounds_def split: prod.splits sum.splits)
qed

lemma validate_bounds:
  assumes "shaped schema" "sc_user_spec_count schema \<le> length (sc_specs schema)"
  shows "in_bounds (fst (validate_schema_definition schema))"
proof -
  have positionals: "in_bounds (check_positionals schema (sc_positional_specs schema))"
    using assms(1) by (intro check_positionals_bounds) (auto simp: shaped_def list_all_iff)
  have specs: "in_bounds (check_specs schema 0 (sc_specs schema) ([], []))"
    by (rule check_specs_bounds) (simp_all add: both_below_def names_below_def)
  have "in_bounds (and_then (validate_separator (sc_nested_separator schema)) (\<lambda>_.
      and_then (check_specs schema 0 (sc_specs schema) ([], [])) (\<lambda>_. check_positionals schema (sc_positional_specs schema))))"
    using positionals specs by (auto simp: validate_separator_def intro!: fault_free)
  then show ?thesis
    using resolve_specs_bounds [OF assms(2), of schema 0]
    by (auto simp: validate_schema_definition_def in_bounds_def split: sum.splits prod.splits)
qed

lemma collected_bounds:
  "in_bounds (fst (validate_schema_definition (collect_schema (type_of_obj object) config)))"
  "in_bounds (fst (validate_schema_definition (collect_command_config_io_schema config)))"
proof -
  show "in_bounds (fst (validate_schema_definition (collect_schema (type_of_obj object) config)))"
    using collected_counts [of object config] by (intro validate_bounds shaped_schema) simp
  have "sc_user_spec_count (collect_command_config_io_schema config) = 0"
    by (simp add: collect_command_config_io_schema_def append_config_io_grows new_schema_def)
  then show "in_bounds (fst (validate_schema_definition (collect_command_config_io_schema config)))"
    by (intro validate_bounds shaped_schema) simp
qed

lemma in_bounds_collect_io [fault_free]: "in_bounds (collect_config_io_selection schema raw selection)"
proof -
  have "list_all (\<lambda>i. i < length (sc_specs schema)) is \<Longrightarrow> in_bounds (collect_io_loop schema raw is selection)" for "is"
    by (induction "is" arbitrary: selection)
      (auto simp: Let_def builtin_spec_def intro!: fault_free split: option.split)
  then show ?thesis
    by (simp add: collect_config_io_selection_def list_all_iff)
qed

lemma in_bounds_import [fault_free]: "in_bounds (import_config_file w config t file)"
  by (auto simp: import_config_file_def config_io_to_argparser_error_def split: sum.split)

lemma in_bounds_export [fault_free]: "in_bounds (snd (export_config_files w config doc selection))"
proof -
  have "in_bounds (snd (export_config_loop w config doc files))" for files
    by (induction files)
      (auto simp: export_config_file_def config_io_to_argparser_error_def intro!: fault_free split: prod.split sum.split)
  then show ?thesis
    by (simp add: export_config_files_def)
qed

lemma in_bounds_raw_arguments [fault_free]: "in_bounds (parse_raw_arguments schema argv start_index config)"
  by (simp add: parse_raw_arguments_def parse_raw_loop_in_bounds)

lemma in_bounds_merge [fault_free]: "in_bounds (merge_config_io_selection a b)"
  "in_bounds (validate_imported_command_name e n)"
  by (simp_all add: merge_config_io_selection_def validate_imported_command_name_def)

text \<open>The walks, from a schema of the object on.\<close>

lemma defaults_bounds:
  assumes "presence_fits schema P" "\<And>l. l \<in> set (leaves object) \<Longrightarrow> default_compiles (leaf_tags l) (leaf_type l)"
  shows "in_bounds (snd (apply_defaults_into config schema object P))"
  unfolding apply_defaults_into_def using dw.object_in_bounds [OF assms] by (auto intro!: fault_free)

lemma explicit_bounds:
  assumes "presence_fits schema P"
  shows "in_bounds (snd (materialize_explicit_options_into env config schema raw object P))"
  unfolding materialize_explicit_options_into_def using mw.object_in_bounds [OF assms] by (auto intro!: fault_free)

lemma imported_bounds:
  assumes "presence_fits schema P"
  shows "in_bounds (snd (mark_imported_options_supplied schema object P))"
proof -
  have "presence_fits schema (replicate (min (sc_user_spec_count schema) (length P)) False @
      drop (min (sc_user_spec_count schema) (length P)) P)"
    using assms by (simp add: presence_fits_def)
  from iw.object_in_bounds [OF this] show ?thesis
    by (auto simp: mark_imported_options_supplied_def Let_def intro!: fault_free)
qed

context indexed_walk
begin

lemma object_fits:
  "fits P \<Longrightarrow> snd (for_each_option step object (0, P)) = Inr (object', i, P') \<Longrightarrow> fits P'"
proof -
  have "fits P \<Longrightarrow> snd (leaf_loop step ls (j, P)) = Inr (vs, i, P') \<Longrightarrow> fits P'" for ls j P vs
  proof (induction ls arbitrary: j P vs)
    case (Cons l ls)
    then show ?case
      by (cases l) (auto simp: snd_note_then and_then_Inr_iff dest: step_fits)
  qed simp
  then show "fits P \<Longrightarrow> snd (for_each_option step object (0, P)) = Inr (object', i, P') \<Longrightarrow> fits P'"
    by (auto simp: for_each_option_loop snd_note_then and_then_Inr_iff)
qed

end

lemma walks_fit:
  "presence_fits schema P \<Longrightarrow> snd (apply_defaults_into config schema object P) = Inr (object', P') \<Longrightarrow> presence_fits schema P'"
  "presence_fits schema P \<Longrightarrow> snd (materialize_explicit_options_into env config schema raw object P) = Inr (object', P') \<Longrightarrow>
    presence_fits schema P'"
  by (auto simp: apply_defaults_into_def materialize_explicit_options_into_def snd_note_then and_then_Inr_iff
      dest: dw.object_fits mw.object_fits split: if_splits)

lemma imported_fit:
  assumes "presence_fits schema P" "snd (mark_imported_options_supplied schema object P) = Inr P'"
  shows "presence_fits schema P'"
proof -
  let ?P = "replicate (min (sc_user_spec_count schema) (length P)) False @ drop (min (sc_user_spec_count schema) (length P)) P"
  obtain object' i where "snd (for_each_option (imported_step schema) object (0, ?P)) = Inr (object', i, P')"
    using assms(2) by (auto simp: mark_imported_options_supplied_def Let_def snd_note_then and_then_Inr_iff split: if_splits)
  moreover have "presence_fits schema ?P"
    using assms(1) by (simp add: presence_fits_def)
  ultimately show ?thesis
    by (rule iw.object_fits [rotated])
qed

definition defaults_compile :: "obj \<Rightarrow> bool" where
  "defaults_compile object \<longleftrightarrow> list_all (\<lambda>l. default_compiles (leaf_tags l) (leaf_type l)) (leaves object)"

lemma start_fits:
  assumes "validate_schema_definition (collect_schema (type_of_obj object) config) = (Inr (), schema)"
  shows "presence_fits schema (replicate (length (sc_specs schema)) False)"
  using validated_counts [OF assms] by (simp add: presence_fits_def)

lemma in_bounds_noting_then:
  "in_bounds r \<Longrightarrow> (\<And>x. r = Inr x \<Longrightarrow> in_bounds (snd (f x))) \<Longrightarrow> in_bounds (snd (note_then (noting r) f))"
  by (rule in_bounds_note_then) simp_all

lemma in_bounds_snd_if: "in_bounds (snd m) \<Longrightarrow> in_bounds (snd n) \<Longrightarrow> in_bounds (snd (if b then m else n))"
  by simp

text \<open>Defaults, import, explicit values, validation: each stage keeps the presence list of the next.\<close>

lemma stages_bounds:
  assumes "presence_fits schema P" "defaults_compile object"
    and import: "\<And>object P. presence_fits schema P \<Longrightarrow> in_bounds (snd (imp object P))"
    and import_fits: "\<And>object P object' P'. presence_fits schema P \<Longrightarrow> snd (imp object P) = Inr (object', P') \<Longrightarrow> presence_fits schema P'"
    and after: "\<And>object. in_bounds (snd (after object))"
  shows "in_bounds (snd (note_then (apply_defaults_into config schema object P) (\<lambda>(object, supplied).
    note_then (imp object supplied) (\<lambda>(object, supplied).
    note_then (materialize_explicit_options_into env config schema raw object supplied) (\<lambda>(object, supplied).
    note_then (validate_materialized_options schema object supplied) (\<lambda>_. after object))))))"
proof (intro in_bounds_note_then)
  show "in_bounds (snd (apply_defaults_into config schema object P))"
    using assms(2) by (intro defaults_bounds [OF assms(1)]) (auto simp: defaults_compile_def list_all_iff)
next
  fix x
  assume x: "snd (apply_defaults_into config schema object P) = Inr x"
  obtain o1 P1 where p1: "x = (o1, P1)" "presence_fits schema P1"
    using walks_fit(1) [OF assms(1)] x by (cases x) auto
  have explicit: "in_bounds (snd (note_then (materialize_explicit_options_into env config schema raw o2 P2) (\<lambda>(object, supplied).
      note_then (validate_materialized_options schema object supplied) (\<lambda>_. after object))))"
    if p2: "presence_fits schema P2" for o2 P2
    using explicit_bounds [OF p2] walks_fit(2) [OF p2] after
    by (auto intro!: in_bounds_note_then in_bounds_validate_materialized)
  have "in_bounds (snd (note_then (imp o1 P1) (\<lambda>(object, supplied).
      note_then (materialize_explicit_options_into env config schema raw object supplied) (\<lambda>(object, supplied).
      note_then (validate_materialized_options schema object supplied) (\<lambda>_. after object)))))"
  proof (rule in_bounds_note_then [OF import [OF p1(2)]])
    fix y
    assume y: "snd (imp o1 P1) = Inr y"
    then show "in_bounds (snd (case y of (object, supplied) \<Rightarrow>
        note_then (materialize_explicit_options_into env config schema raw object supplied) (\<lambda>(object, supplied).
        note_then (validate_materialized_options schema object supplied) (\<lambda>_. after object))))"
      using explicit import_fits [OF p1(2)] by (cases y) simp
  qed
  then show "in_bounds (snd (case x of (object, supplied) \<Rightarrow> note_then (imp object supplied) (\<lambda>(object, supplied).
      note_then (materialize_explicit_options_into env config schema raw object supplied) (\<lambda>(object, supplied).
      note_then (validate_materialized_options schema object supplied) (\<lambda>_. after object)))))"
    by (simp add: p1(1))
qed

lemma parse_options_bounds:
  assumes "defaults_compile object"
  shows "in_bounds (snd (parse_options_into w env object argv start_index config external_import external_exports))"
proof (cases "fst (validate_schema_definition (collect_schema (type_of_obj object) config))")
  case (Inl e)
  then show ?thesis
    using collected_bounds(1) [of object config]
    by (auto simp: parse_options_into_def in_bounds_def split: prod.splits)
next
  case (Inr u)
  then obtain schema where s: "validate_schema_definition (collect_schema (type_of_obj object) config) = (Inr (), schema)"
    by (cases "validate_schema_definition (collect_schema (type_of_obj object) config)") auto
  have import: "in_bounds (snd (import_object w config schema f object' P))" if "presence_fits schema P" for f object' P
    using imported_bounds [OF that] by (auto simp: import_object_def intro!: fault_free split: option.split)
  have import_fits: "presence_fits schema P'"
    if "presence_fits schema P" "snd (import_object w config schema f object' P) = Inr (object'', P')" for f object' object'' P P'
    using that imported_fit [OF that(1)] by (auto simp: import_object_def snd_note_then and_then_Inr_iff split: option.splits)
  show ?thesis
    unfolding parse_options_into_def s prod.case sum.case
    by (intro in_bounds_noting_then in_bounds_snd_if stages_bounds [OF start_fits [OF s] assms] in_bounds_note_then
        in_bounds_raw_arguments in_bounds_collect_io in_bounds_merge in_bounds_export import)
      (auto dest: import_fits)
qed

lemma parse_command_bounds:
  assumes "defaults_compile object"
  shows "in_bounds (snd (parse_options_command w env object command argv start_index config root_io))"
proof (cases "fst (validate_schema_definition (collect_schema (type_of_obj object) config))")
  case (Inl e)
  then show ?thesis
    using collected_bounds(1) [of object config]
    by (auto simp: parse_options_command_def in_bounds_def split: prod.splits)
next
  case (Inr u)
  then obtain schema where s: "validate_schema_definition (collect_schema (type_of_obj object) config) = (Inr (), schema)"
    by (cases "validate_schema_definition (collect_schema (type_of_obj object) config)") auto
  have import: "in_bounds (snd (import_command_object w config schema c f object' P))" if "presence_fits schema P" for c f object' P
    using imported_bounds [OF that] by (auto simp: import_command_object_def intro!: fault_free split: option.split)
  have import_fits: "presence_fits schema P'"
    if "presence_fits schema P" "snd (import_command_object w config schema c f object' P) = Inr (object'', P')" for c f object' object'' P P'
    using that imported_fit [OF that(1)] by (auto simp: import_command_object_def snd_note_then and_then_Inr_iff split: option.splits)
  show ?thesis
    unfolding parse_options_command_def s prod.case sum.case
    by (intro in_bounds_noting_then in_bounds_snd_if stages_bounds [OF start_fits [OF s] assms] in_bounds_note_then
        in_bounds_raw_arguments in_bounds_collect_io in_bounds_merge in_bounds_export import)
      (auto dest: import_fits)
qed

lemma in_bounds_root_option [fault_free]:
  "in_bounds (record_command_root_option schema config arg rest raw)"
  by (auto simp: record_command_root_option_def unknown_option_def dest: found_in_range intro!: fault_free
      split: option.split prod.split)

lemma command_root_loop_bounds: "in_bounds (command_root_loop schema config argc args raw)"
proof (induction args arbitrary: raw rule: length_induct)
  case (1 args)
  show ?case
  proof (cases args)
    case (Cons a rest)
    have IH: "in_bounds (command_root_loop schema config argc rest' raw')" if "length rest' \<le> length rest" for rest' raw'
      using 1 that by (simp add: Cons)
    show ?thesis
      unfolding Cons command_root_loop.simps(2) Let_def unknown_option_def
      by (auto intro!: fault_free IH dest: record_command_root_option_rest split: list.split option.split)
  qed simp
qed

lemma root_arguments_bounds: "in_bounds (parse_command_root_arguments w argv config)"
  using collected_bounds(2) [of config]
  by (auto simp: parse_command_root_arguments_def in_bounds_def [of "fst _"] intro!: fault_free command_root_loop_bounds
      split: prod.split sum.split option.split) (auto simp: in_bounds_def)

lemma placeholder_bounds: "in_bounds (parse_placeholder_command w command argv start_index config root_io)"
  using collected_bounds(2) [of config]
  by (auto simp: parse_placeholder_command_def in_bounds_def [of "fst _"] intro!: fault_free
      split: prod.split sum.split option.split) (auto simp: in_bounds_def)

text \<open>Every object of a parse has defaults that compile.\<close>

definition root_compiles :: "root_type \<Rightarrow> bool" where
  "root_compiles kind =
     (case kind of
        Options_Root object \<Rightarrow> defaults_compile object
      | Commands_Root commands \<Rightarrow> list_all (\<lambda>field. case field of
          Command_Field _ _ (Options_Command object) \<Rightarrow> defaults_compile object | _ \<Rightarrow> True) commands)"

lemma try_commands_bounds:
  "root_compiles (Commands_Root commands) \<Longrightarrow>
    try_commands w env commands index command argv start_index config root_io = Some (k, outcome) \<Longrightarrow> in_bounds (snd outcome)"
proof (induction commands arbitrary: index)
  case (Cons field commands)
  then show ?case
    by (auto simp: root_compiles_def try_parse_command_def placeholder_bounds parse_command_bounds
        split: option.splits command_field.splits command_payload.splits if_splits)
qed simp

text \<open>C13 (safety). Whatever \<open>argc\<close>, \<open>argv\<close>, the environment and the configuration files are, no run of the
  parser over objects whose defaults compile indexes a vector outside its size, to read or to write: not the
  specs, the positional and built-in options, the recorded values or the presence lists, nor the first
  character of a name; every wrong input ends in an error.\<close>

theorem parser_in_bounds:
  assumes "root_compiles kind"
  shows "in_bounds (snd (arg_parser w env kind argc argv config))"
proof -
  have options: "in_bounds (snd (parse_options_into w env object args k config' None None))"
    if "kind = Options_Root object" for object args k config'
    using assms that by (intro parse_options_bounds) (simp add: root_compiles_def)
  have commands: "in_bounds (snd (parse_command_set w env commands args config'))"
    if "kind = Commands_Root commands" for commands args config'
    using assms that unfolding parse_command_set_def
    by (auto intro!: fault_free root_arguments_bounds dest: try_commands_bounds split: option.split)
  show ?thesis
    unfolding arg_parser_def Let_def
    by (cases kind) (auto intro!: fault_free options commands)
qed

definition tool_commands :: "command_field list" where
  "tool_commands =
     [Command_Field ''run'' no_tags (Options_Command tool_options), Command_Field ''version'' no_tags Placeholder_Command]"

lemma parser_in_bounds_witness:
  "in_bounds (snd (arg_parser no_world tool_env (Commands_Root tool_commands) 3
     (Some [Some ''tool'', Some ''run'', None]) new_config))"
proof -
  have "root_compiles (Commands_Root tool_commands)"
    by code_simp
  then show ?thesis
    by (rule parser_in_bounds)
qed

subsection \<open>Files\<close>

text \<open>A computation that writes no file.\<close>

definition writes_none :: "'a noted \<Rightarrow> bool" where
  "writes_none m \<longleftrightarrow> (\<forall>path bs. File_Written path bs \<notin> set (fst m))"

named_theorems writes

lemma writes_noting [writes]: "writes_none (noting r)"
  by (simp add: writes_none_def)

lemma writes_note_then [writes]:
  "writes_none m \<Longrightarrow> (\<And>x. writes_none (f x)) \<Longrightarrow> writes_none (note_then m f)"
  by (auto simp: writes_none_def fst_note_then split: sum.splits)

lemma writes_raw_values [writes]: "writes_none (assign_raw_values config spec t texts v)"
  by (induction texts arbitrary: v)
    (auto intro!: writes simp: writes_none_def [of "(_, _)"] notify_deprecated_option_def)

lemma writes_one_option [writes]: "writes_none (materialize_one_option env config spec raw t already v)"
  by (auto simp: materialize_one_option_def intro!: writes split: option.split)

lemma writes_walk:
  assumes "\<And>name tags t v st. writes_none (step name tags t v st)"
  shows "writes_none (for_each_option step object st)"
  by (induction object arbitrary: st rule: leaves.induct) (auto intro!: writes assms split: prod.split)

lemma writes_stages [writes]:
  "writes_none (apply_defaults_into config schema object P)"
  "writes_none (materialize_explicit_options_into env config schema raw object P)"
  "writes_none (mark_imported_options_supplied schema object P)"
  "writes_none (validate_materialized_options schema object P)"
proof -
  have steps: "writes_none (default_step config schema n tags t v st)" "writes_none (materialize_step env config schema raw n tags t v st)"
    "writes_none (imported_step schema n tags t v st)" "writes_none (active_step schema P n tags t v st)" for n tags t v st
    by (auto simp: default_step_def materialize_step_def imported_step_def active_step_def intro!: writes split: prod.split)
  note walks = writes_walk [where step = "default_step config schema", OF steps(1)]
    writes_walk [where step = "materialize_step env config schema raw", OF steps(2)]
    writes_walk [where step = "imported_step schema", OF steps(3)]
    writes_walk [where step = "active_step schema P", OF steps(4)]
  show "writes_none (apply_defaults_into config schema object P)"
    "writes_none (materialize_explicit_options_into env config schema raw object P)"
    "writes_none (mark_imported_options_supplied schema object P)"
    "writes_none (validate_materialized_options schema object P)"
    by (auto simp: apply_defaults_into_def materialize_explicit_options_into_def mark_imported_options_supplied_def
        validate_materialized_options_def mark_active_options_def Let_def intro!: writes walks split: prod.split)
qed

lemma writes_import [writes]:
  "writes_none (import_object w config schema f object P)"
  "writes_none (import_command_object w config schema c f object P)"
  by (auto simp: import_object_def import_command_object_def intro!: writes split: option.split)

text \<open>A file is written with the encoding of the document that is exported, for a file of the selection.\<close>

lemma export_writes:
  assumes "File_Written path bs \<in> set (fst (export_config_files w config doc selection))"
  shows "\<exists>file \<in> set (cs_export_files selection). cio_path file = path \<and> wd_open w path \<and>
    encode_format w config (cio_format file) doc = Inr bs"
proof -
  have one: "File_Written path bs \<in> set (fst (export_config_file w config doc f)) \<Longrightarrow>
      cio_path f = path \<and> wd_open w path \<and> encode_format w config (cio_format f) doc = Inr bs" for f
    by (auto simp: export_config_file_def save_file_def split: prod.splits sum.splits if_splits)
  have "File_Written path bs \<in> set (fst (export_config_loop w config doc files)) \<Longrightarrow>
      \<exists>file \<in> set files. cio_path file = path \<and> wd_open w path \<and> encode_format w config (cio_format file) doc = Inr bs" for files
    by (induction files) (auto simp: fst_note_then dest: one split: sum.splits)
  then show ?thesis
    using assms by (simp add: export_config_files_def)
qed

lemma export_nothing [simp]: "export_config_files w config doc no_selection = noting (Inr ())"
  by (simp add: export_config_files_def no_selection_def)

text \<open>The exports are the last step of a parse: before them it is the parse that exports nothing.\<close>

lemma exports_last:
  assumes "validate_schema_definition (collect_schema (type_of_obj object) config) = (Inr (), schema)"
    "parse_raw_arguments schema argv start_index config = Inr raw"
    "collect_config_io_selection schema raw no_selection = Inr io"
  shows "parse_options_into w env object argv start_index config external_import external_exports =
    note_then (parse_options_into w env object argv start_index config external_import (Some no_selection)) (\<lambda>result.
      note_then (export_config_files w config (Options_Doc result)
        (case external_exports of None \<Rightarrow> io | Some io \<Rightarrow> io)) (\<lambda>_. noting (Inr result)))"
  by (cases "length (sc_specs schema) \<noteq> length raw"; cases "external_import \<noteq> None \<and> cs_import_file io \<noteq> None")
    (auto simp: parse_options_into_def assms note_then_assoc case_prod_unfold only_one_import_def arg_fail_def)

lemma writes_without_exports:
  "writes_none (parse_options_into w env object argv start_index config external_import (Some no_selection))"
  by (auto simp: parse_options_into_def intro!: writes split: prod.split sum.split)

text \<open>C38 (safety). A file is written only after everything was accepted: the same parse without its exports
  succeeds, and what is in the file is the encoding of the object that parse returns, in full, in the
  format and under the path of one of the selected exports.\<close>

theorem written_files_valid:
  assumes "File_Written path bs \<in> set (fst (parse_options_into w env object argv start_index config external_import external_exports))"
  shows "\<exists>schema raw io result.
    validate_schema_definition (collect_schema (type_of_obj object) config) = (Inr (), schema) \<and>
    parse_raw_arguments schema argv start_index config = Inr raw \<and>
    collect_config_io_selection schema raw no_selection = Inr io \<and>
    snd (parse_options_into w env object argv start_index config external_import (Some no_selection)) = Inr result \<and>
    (\<exists>file \<in> set (cs_export_files (case external_exports of None \<Rightarrow> io | Some io \<Rightarrow> io)).
       cio_path file = path \<and> wd_open w path \<and> encode_format w config (cio_format file) (Options_Doc result) = Inr bs)"
proof -
  obtain schema raw io where s: "validate_schema_definition (collect_schema (type_of_obj object) config) = (Inr (), schema)"
    "parse_raw_arguments schema argv start_index config = Inr raw"
    "collect_config_io_selection schema raw no_selection = Inr io"
    using assms by (auto simp: parse_options_into_def fst_note_then split: prod.splits sum.splits if_splits)
  let ?quiet = "parse_options_into w env object argv start_index config external_import (Some no_selection)"
  have "File_Written path bs \<notin> set (fst ?quiet)"
    using writes_without_exports by (simp add: writes_none_def)
  then obtain result where "snd ?quiet = Inr result"
    "File_Written path bs \<in> set (fst (export_config_files w config (Options_Doc result)
      (case external_exports of None \<Rightarrow> io | Some io \<Rightarrow> io)))"
    using assms unfolding exports_last [OF s, where external_exports = external_exports] by (auto simp: fst_note_then split: sum.splits)
  then show ?thesis
    using s export_writes by blast
qed

definition binary_world :: config_world where
  "binary_world = no_world\<lparr>wd_encode := (\<lambda>format doc. Inr [1, 2, 3]), wd_open := (\<lambda>path. True), wd_write := (\<lambda>path bs. True)\<rparr>"

definition export_config :: ArgParserConfig where
  "export_config = new_config\<lparr>cf_configIo := Some \<lparr>io_importFormats = [], io_exportFormats = [''binary''], io_optionNames = []\<rparr>\<rparr>"

lemma written_files_valid_witness:
  "\<exists>result. snd (parse_options_into binary_world tool_env tool_options
      [Some ''tool'', Some ''--export-binary=out.bin''] 1 export_config None (Some no_selection)) = Inr result \<and>
     (\<exists>format. encode_format binary_world export_config format (Options_Doc result) = Inr [1, 2, 3])"
proof -
  have "File_Written ''out.bin'' [1, 2, 3] \<in> set (fst (parse_options_into binary_world tool_env tool_options
      [Some ''tool'', Some ''--export-binary=out.bin''] 1 export_config None None))"
    by code_simp
  from written_files_valid [OF this] show ?thesis
    by blast
qed

end
