(* ===== verification/Arg_Text.thy ===== *)
theory Arg_Text
  imports Arg_Value
begin

text \<open>
  The texts of values: \<open>arg_implicit\<close> keeps a value as the text \<open>default_value_to_string\<close> makes of it, and an
  option given without a value is parsed from that text, so printing and parsing have to agree.
\<close>

lemma digit_char_code: "d < 10 \<Longrightarrow> of_char (digit_char d) = 48 + d"
  by (simp add: digit_char_def of_char_of)

lemma isdigit_digit_char: "d < 10 \<Longrightarrow> isdigit (digit_char d)"
proof -
  assume d: "d < 10"
  have "(of_char (digit_char d) :: int) = int (of_char (digit_char d))"
    by (rule of_nat_of_char [symmetric])
  then have "(of_char (digit_char d) :: int) = int (48 + d)"
    by (simp only: digit_char_code [OF d])
  then show ?thesis
    using d by (simp add: isdigit_def in_chars_def char_value_def Let_def)
qed

lemma digits_value_snoc: "digits_value (ds @ [c]) = 10 * digits_value ds + (of_char c - 48)"
  by (simp add: digits_value_def)

lemma nat_digits_props: "nat_digits n \<noteq> [] \<and> list_all isdigit (nat_digits n) \<and> digits_value (nat_digits n) = n"
proof (induction n rule: nat_digits.induct)
  case (1 n)
  show ?case
  proof (cases "n < 10")
    case True
    then show ?thesis
      using digits_value_snoc [of "[]" "digit_char n"]
      by (subst (1 2 3) nat_digits.simps) (simp add: isdigit_digit_char digit_char_code digits_value_def)
  next
    case False
    then have "nat_digits n = nat_digits (n div 10) @ [digit_char (n mod 10)]"
      by (subst nat_digits.simps) simp
    then show ?thesis
      using 1 [OF False] by (simp add: isdigit_digit_char digits_value_snoc digit_char_code)
  qed
qed

lemma isdigit_no_minus: "list_all isdigit ds \<Longrightarrow> \<not> starts_with ds ''-''"
  by (cases ds) (auto simp: starts_with_def isdigit_def in_chars_def char_value_def Let_def)

lemma from_chars_int_digits:
  assumes "in_width sg w i"
  shows "from_chars sg w (int_digits i) = Some i"
proof (cases "i < 0")
  case True
  then have "sg"
    using assms by (auto simp: in_width_def split: if_splits)
  then show ?thesis
    using True assms nat_digits_props [of "nat (- i)"]
    by (auto simp: from_chars_def int_digits_def starts_with_def Let_def)
next
  case False
  then show ?thesis
    using assms nat_digits_props [of "nat i"] isdigit_no_minus [of "nat_digits (nat i)"]
    by (auto simp: from_chars_def int_digits_def Let_def)
qed

definition name_matches :: "bool \<Rightarrow> string \<Rightarrow> string \<Rightarrow> bool" where
  "name_matches ci a b \<longleftrightarrow> a = b \<or> ci \<and> equals_ignore_case a b"

text \<open>Enumerators have different names, and no name is a number.\<close>

definition names_apart :: "bool \<Rightarrow> (string \<times> int) list \<Rightarrow> bool" where
  "names_apart ci names \<longleftrightarrow>
     (\<forall>i < length names. \<forall>j < length names. name_matches ci (fst (names ! i)) (fst (names ! j)) \<longrightarrow> i = j) \<and>
     (\<forall>e \<in> set names. \<forall>i. \<not> name_matches ci (fst e) (int_digits i))"

text \<open>The value a tag stands for in a field of the type.\<close>

fun tag_scalar :: "bool \<Rightarrow> scalar_type \<Rightarrow> tag_value \<Rightarrow> scalar_value option" where
  "tag_scalar ci At_bool (Tv_bool b) = Some (Sv_bool b)"
| "tag_scalar ci (At_int sg w) (Tv_int i) = (if in_width sg w i then Some (Sv_int i) else None)"
| "tag_scalar ci At_string (Tv_string s) = Some (Sv_string s)"
| "tag_scalar ci (At_enum names sg w) (Tv_enum names' i) =
     (if names' = names \<and> in_width sg w i then Some (Sv_enum i) else None)"
| "tag_scalar ci _ _ = None"

lemma find_name:
  assumes "names_apart ci names" "e \<in> set names"
  shows "find (\<lambda>e'. fst e' = fst e \<or> ci \<and> equals_ignore_case (fst e') (fst e)) names = Some e"
proof -
  obtain i where i: "i < length names" "names ! i = e"
    using assms(2) by (auto simp: in_set_conv_nth)
  have "\<not> name_matches ci (fst (names ! j)) (fst e)" if "j < i" for j
    using assms(1) i that unfolding names_apart_def by (metis less_trans nat_neq_iff)
  then show ?thesis
    using i by (auto simp: find_Some_iff name_matches_def intro!: exI [of _ i])
qed

text \<open>C39 (roundtrip). The text kept for an implicit value is read back as that value, for booleans, integers of
  every width, strings and enumerations, also with names compared without case and for an enumeration value
  that has no name.\<close>

theorem implicit_text_roundtrip:
  assumes "tag_scalar ci t tv = Some x" "\<And>names sg w. t = At_enum names sg w \<Longrightarrow> names_apart ci names"
  shows "parse_scalar t ci (default_value_to_string tv) = Inr x"
proof (cases "(ci, t, tv)" rule: tag_scalar.cases)
  case (1 ci b)
  then show ?thesis
    using assms(1) by (cases b) (auto simp: parse_scalar_def parse_bool_def equals_ignore_case_def)
next
  case (2 ci sg w i)
  then show ?thesis
    using assms(1) by (auto simp: parse_scalar_def from_chars_int_digits split: if_splits)
next
  case (3 ci s)
  then show ?thesis
    using assms(1) by (auto simp: parse_scalar_def)
next
  case (4 ci' names sg w names' i)
  then have e: "names' = names" "in_width sg w i" "x = Sv_enum i" "names_apart ci names"
    using assms by (auto split: if_splits)
  show ?thesis
  proof (cases "find (\<lambda>e. snd e = i) names")
    case None
    have "\<not> (fst n = int_digits i \<or> ci \<and> equals_ignore_case (fst n) (int_digits i))" if "n \<in> set names" for n
      using e(4) that unfolding names_apart_def name_matches_def by blast
    then have "find (\<lambda>e. fst e = int_digits i \<or> ci \<and> equals_ignore_case (fst e) (int_digits i)) names = None"
      unfolding find_None_iff by blast
    then show ?thesis
      using 4 e None by (simp add: parse_scalar_def from_chars_int_digits)
  next
    case (Some n)
    then have "n \<in> set names" "snd n = i"
      by (auto simp: find_Some_iff)
    then show ?thesis
      using 4 e Some find_name [of ci names n] by (simp add: parse_scalar_def)
  qed
qed (use assms(1) in auto)

lemma implicit_text_roundtrip_witness:
  "parse_scalar (At_enum [(''Fast'', 1), (''Slow'', 2)] True 32) False (default_value_to_string (Tv_enum [(''Fast'', 1), (''Slow'', 2)] (- 3))) =
   Inr (Sv_enum (- 3))"
proof (rule implicit_text_roundtrip)
  show "tag_scalar False (At_enum [(''Fast'', 1), (''Slow'', 2)] True 32) (Tv_enum [(''Fast'', 1), (''Slow'', 2)] (- 3)) =
      Some (Sv_enum (- 3))"
    by (simp add: in_width_def)
next
  fix names sg w
  assume "At_enum [(''Fast'', 1), (''Slow'', 2)] True 32 = At_enum names sg w"
  then have names: "names = [(''Fast'', 1), (''Slow'', 2)]"
    by simp
  have digits: "''Fast'' \<noteq> int_digits i \<and> ''Slow'' \<noteq> int_digits i" for i
  proof -
    have "from_chars True w' (int_digits i) \<noteq> None" if "in_width True w' i" for w'
      using from_chars_int_digits [OF that] by simp
    moreover have "\<exists>w'. in_width True w' i"
    proof -
      have "\<bar>i\<bar> < 2 ^ nat \<bar>i\<bar>"
        using of_nat_less_two_power [of "nat \<bar>i\<bar>", where 'a = int] by simp
      then have "in_width True (Suc (nat \<bar>i\<bar>)) i"
        by (auto simp: in_width_def abs_if split: if_splits)
      then show ?thesis ..
    qed
    moreover have "from_chars True w' ''Fast'' = None" "from_chars True w' ''Slow'' = None" for w'
      by (simp_all add: from_chars_def starts_with_def isdigit_def in_chars_def char_value_def Let_def)
    ultimately show ?thesis
      by metis
  qed
  then show "names_apart False names"
    by (auto simp: names names_apart_def name_matches_def less_Suc_eq nth_Cons' split: if_splits)
qed

end
