(* ===== verification/Xor_List.thy ===== *)
theory Xor_List
  imports Neko_Prelude
begin

text \<open>
  \<open>global/xor_list.hpp\<close>: a doubly linked list whose nodes store one link, the exclusive or of the addresses
  of their neighbours. A pointer is a 64-bit word and null is 0; the heap maps the address of a live node
  to its link and its value. An access to an address with no node is \<open>Out_Of_Bounds\<close>. \<open>size_\<close> counts live
  nodes at different addresses, so it is a natural number.
\<close>

type_synonym addr = u64
type_synonym 'a node_heap = "addr \<rightharpoonup> addr \<times> 'a"
type_synonym ('a, 'b) heap_result = "(string, 'a node_heap \<times> 'b) checked"

text \<open>\<open>xor_node_base\<close>\<close>

definition xor_ptr :: "addr \<Rightarrow> addr \<Rightarrow> addr" where
  "xor_ptr a b = a XOR b"

definition node_link :: "'a node_heap \<Rightarrow> addr \<Rightarrow> (string, addr) checked" where
  "node_link h p = (case h p of None \<Rightarrow> Inl Out_Of_Bounds | Some (link, _) \<Rightarrow> Inr link)"

definition node_next :: "'a node_heap \<Rightarrow> addr \<Rightarrow> addr \<Rightarrow> (string, addr) checked" where
  "node_next h p pre = and_then (node_link h p) (\<lambda>link. Inr (xor_ptr pre link))"

definition node_pre :: "'a node_heap \<Rightarrow> addr \<Rightarrow> addr \<Rightarrow> (string, addr) checked" where
  "node_pre h p nxt = and_then (node_link h p) (\<lambda>link. Inr (xor_ptr nxt link))"

definition node_set :: "'a node_heap \<Rightarrow> addr \<Rightarrow> addr \<Rightarrow> addr \<Rightarrow> (string, 'a node_heap) checked" where
  "node_set h p pre nxt =
     (case h p of None \<Rightarrow> Inl Out_Of_Bounds | Some (_, v) \<Rightarrow> Inr (h(p \<mapsto> (xor_ptr pre nxt, v))))"

definition node_value :: "'a node_heap \<Rightarrow> addr \<Rightarrow> (string, 'a) checked" where
  "node_value h p = (case h p of None \<Rightarrow> Inl Out_Of_Bounds | Some (_, v) \<Rightarrow> Inr v)"

subsection \<open>Iterators\<close>

record xor_iterator =
  it_prev :: addr
  it_current :: addr

definition it_increment :: "'a node_heap \<Rightarrow> xor_iterator \<Rightarrow> (string, xor_iterator) checked" where
  "it_increment h it =
     and_then (node_next h (it_current it) (it_prev it)) (\<lambda>nxt. Inr \<lparr>it_prev = it_current it, it_current = nxt\<rparr>)"

definition it_decrement :: "'a node_heap \<Rightarrow> xor_iterator \<Rightarrow> (string, xor_iterator) checked" where
  "it_decrement h it =
     and_then (node_pre h (it_prev it) (it_current it)) (\<lambda>prev_of_prev.
       Inr \<lparr>it_prev = prev_of_prev, it_current = it_prev it\<rparr>)"

definition it_value :: "'a node_heap \<Rightarrow> xor_iterator \<Rightarrow> (string, 'a) checked" where
  "it_value h it = node_value h (it_current it)"

definition it_equal :: "xor_iterator \<Rightarrow> xor_iterator \<Rightarrow> bool" where
  "it_equal a b \<longleftrightarrow> it_current a = it_current b"

subsection \<open>The intrusive list\<close>

record xor_list =
  xl_head :: addr
  xl_tail :: addr
  xl_size :: nat

definition xl_new :: xor_list where
  "xl_new = \<lparr>xl_head = 0, xl_tail = 0, xl_size = 0\<rparr>"

definition xl_begin :: "xor_list \<Rightarrow> xor_iterator" where
  "xl_begin l = \<lparr>it_prev = 0, it_current = xl_head l\<rparr>"

definition xl_end :: "xor_list \<Rightarrow> xor_iterator" where
  "xl_end l = \<lparr>it_prev = xl_tail l, it_current = 0\<rparr>"

definition xl_empty :: "xor_list \<Rightarrow> bool" where
  "xl_empty l \<longleftrightarrow> xl_head l = 0"

definition xl_push_front :: "'a node_heap \<Rightarrow> xor_list \<Rightarrow> addr \<Rightarrow> ('a, xor_list) heap_result" where
  "xl_push_front h l node =
     (if xl_empty l then
        and_then (node_set h node 0 0) (\<lambda>h. Inr (h, \<lparr>xl_head = node, xl_tail = node, xl_size = xl_size l + 1\<rparr>))
      else
        and_then (node_set h node 0 (xl_head l)) (\<lambda>h.
        and_then (node_next h (xl_head l) 0) (\<lambda>old_next.
        and_then (node_set h (xl_head l) node old_next) (\<lambda>h.
          Inr (h, l\<lparr>xl_head := node, xl_size := xl_size l + 1\<rparr>)))))"

definition xl_push_back :: "'a node_heap \<Rightarrow> xor_list \<Rightarrow> addr \<Rightarrow> ('a, xor_list) heap_result" where
  "xl_push_back h l node =
     (if xl_empty l then
        and_then (node_set h node 0 0) (\<lambda>h. Inr (h, \<lparr>xl_head = node, xl_tail = node, xl_size = xl_size l + 1\<rparr>))
      else
        and_then (node_set h node (xl_tail l) 0) (\<lambda>h.
        and_then (node_pre h (xl_tail l) 0) (\<lambda>old_prev.
        and_then (node_set h (xl_tail l) old_prev node) (\<lambda>h.
          Inr (h, l\<lparr>xl_tail := node, xl_size := xl_size l + 1\<rparr>)))))"

text \<open>The node that was removed, null when there is none.\<close>

definition xl_pop_front :: "'a node_heap \<Rightarrow> xor_list \<Rightarrow> ('a, xor_list \<times> addr) heap_result" where
  "xl_pop_front h l =
     (if xl_empty l then Inr (h, l, 0)
      else
        let front = xl_head l in
        and_then (node_next h front 0) (\<lambda>nxt.
        and_then (if nxt \<noteq> 0
            then and_then (node_next h nxt front) (\<lambda>next_of_next.
              and_then (node_set h nxt 0 next_of_next) (\<lambda>h. Inr (h, xl_tail l)))
            else Inr (h, 0)) (\<lambda>(h, tail).
          Inr (h, \<lparr>xl_head = nxt, xl_tail = tail, xl_size = xl_size l - 1\<rparr>, front))))"

definition xl_pop_back :: "'a node_heap \<Rightarrow> xor_list \<Rightarrow> ('a, xor_list \<times> addr) heap_result" where
  "xl_pop_back h l =
     (if xl_empty l then Inr (h, l, 0)
      else
        let back = xl_tail l in
        and_then (node_pre h back 0) (\<lambda>prev.
        and_then (if prev \<noteq> 0
            then and_then (node_pre h prev back) (\<lambda>prev_of_prev.
              and_then (node_set h prev prev_of_prev 0) (\<lambda>h. Inr (h, xl_head l)))
            else Inr (h, 0)) (\<lambda>(h, head).
          Inr (h, \<lparr>xl_head = head, xl_tail = prev, xl_size = xl_size l - 1\<rparr>, back))))"

definition xl_erase :: "'a node_heap \<Rightarrow> xor_list \<Rightarrow> xor_iterator \<Rightarrow> ('a, xor_list \<times> xor_iterator) heap_result" where
  "xl_erase h l pos =
     (let prev = it_prev pos; current = it_current pos in
      and_then (node_next h current prev) (\<lambda>nxt.
      and_then (if prev \<noteq> 0
          then and_then (node_pre h prev current) (\<lambda>prev_of_prev.
            and_then (node_set h prev prev_of_prev nxt) (\<lambda>h. Inr (h, xl_head l)))
          else Inr (h, nxt)) (\<lambda>(h, head).
      and_then (if nxt \<noteq> 0
          then and_then (node_next h nxt current) (\<lambda>next_of_next.
            and_then (node_set h nxt prev next_of_next) (\<lambda>h. Inr (h, xl_tail l)))
          else Inr (h, prev)) (\<lambda>(h, tail).
      and_then (node_set h current 0 0) (\<lambda>h.
        Inr (h, \<lparr>xl_head = head, xl_tail = tail, xl_size = xl_size l - 1\<rparr>, \<lparr>it_prev = prev, it_current = nxt\<rparr>))))))"

definition xl_clear :: "xor_list \<Rightarrow> xor_list" where
  "xl_clear l = xl_new"

text \<open>A loop from \<open>begin()\<close> to \<open>end()\<close>: the values it visits. \<open>None\<close> is a loop that does not end.\<close>

partial_function (option) xl_visit :: "'a node_heap \<Rightarrow> xor_iterator \<Rightarrow> xor_iterator \<Rightarrow> (string, 'a list) checked option" where
  "xl_visit h it stop =
     (if it_equal it stop then Some (Inr [])
      else case it_value h it of
        Inl e \<Rightarrow> Some (Inl e)
      | Inr v \<Rightarrow>
        (case it_increment h it of
           Inl e \<Rightarrow> Some (Inl e)
         | Inr it' \<Rightarrow> Option.bind (xl_visit h it' stop) (\<lambda>r. Some (and_then r (\<lambda>vs. Inr (v # vs))))))"

text \<open>The same from \<open>end()\<close> back to \<open>begin()\<close>, each step before the access.\<close>

partial_function (option) xl_visit_back :: "'a node_heap \<Rightarrow> xor_iterator \<Rightarrow> xor_iterator \<Rightarrow> (string, 'a list) checked option" where
  "xl_visit_back h it first =
     (if it_equal it first then Some (Inr [])
      else case it_decrement h it of
        Inl e \<Rightarrow> Some (Inl e)
      | Inr it' \<Rightarrow>
        (case it_value h it' of
           Inl e \<Rightarrow> Some (Inl e)
         | Inr v \<Rightarrow> Option.bind (xl_visit_back h it' first) (\<lambda>r. Some (and_then r (\<lambda>vs. Inr (v # vs))))))"

subsection \<open>The list that owns its nodes\<close>

text \<open>The allocator is a parameter: the address it gives for a heap, \<open>None\<close> when it throws. A constructed
  node has a null link.\<close>

type_synonym 'a allocator = "'a node_heap \<Rightarrow> addr option"

definition construct_node :: "'a allocator \<Rightarrow> 'a node_heap \<Rightarrow> 'a \<Rightarrow> ('a, addr) heap_result" where
  "construct_node alloc h v =
     (case alloc h of None \<Rightarrow> Inl (Err ''std::bad_alloc'') | Some p \<Rightarrow> Inr (h(p \<mapsto> (0, v)), p))"

definition destroy_node :: "'a node_heap \<Rightarrow> addr \<Rightarrow> (string, 'a node_heap) checked" where
  "destroy_node h p = (case h p of None \<Rightarrow> Inl Out_Of_Bounds | Some _ \<Rightarrow> Inr (h(p := None)))"

definition ol_push_back :: "'a allocator \<Rightarrow> 'a node_heap \<Rightarrow> xor_list \<Rightarrow> 'a \<Rightarrow> ('a, xor_list) heap_result" where
  "ol_push_back alloc h l v = and_then (construct_node alloc h v) (\<lambda>(h, new_node). xl_push_back h l new_node)"

definition ol_push_front :: "'a allocator \<Rightarrow> 'a node_heap \<Rightarrow> xor_list \<Rightarrow> 'a \<Rightarrow> ('a, xor_list) heap_result" where
  "ol_push_front alloc h l v = and_then (construct_node alloc h v) (\<lambda>(h, new_node). xl_push_front h l new_node)"

definition ol_emplace_back :: "'a allocator \<Rightarrow> 'a node_heap \<Rightarrow> xor_list \<Rightarrow> 'a \<Rightarrow> ('a, xor_list \<times> 'a) heap_result" where
  "ol_emplace_back alloc h l v =
     and_then (construct_node alloc h v) (\<lambda>(h, new_node).
       and_then (xl_push_back h l new_node) (\<lambda>(h, l). and_then (node_value h new_node) (\<lambda>v. Inr (h, l, v))))"

definition ol_pop_front :: "'a node_heap \<Rightarrow> xor_list \<Rightarrow> ('a, xor_list \<times> 'a) heap_result" where
  "ol_pop_front h l =
     (if xl_empty l then Inl (Err ''pop_front() called on empty list'')
      else and_then (xl_pop_front h l) (\<lambda>(h, l, front).
        and_then (node_value h front) (\<lambda>v. and_then (destroy_node h front) (\<lambda>h. Inr (h, l, v)))))"

definition ol_pop_back :: "'a node_heap \<Rightarrow> xor_list \<Rightarrow> ('a, xor_list \<times> 'a) heap_result" where
  "ol_pop_back h l =
     (if xl_empty l then Inl (Err ''pop_back() called on empty list'')
      else and_then (xl_pop_back h l) (\<lambda>(h, l, back).
        and_then (node_value h back) (\<lambda>v. and_then (destroy_node h back) (\<lambda>h. Inr (h, l, v)))))"

definition ol_erase :: "'a node_heap \<Rightarrow> xor_list \<Rightarrow> xor_iterator \<Rightarrow> ('a, xor_list \<times> xor_iterator) heap_result" where
  "ol_erase h l pos =
     and_then (xl_erase h l pos) (\<lambda>(h, l, next_it).
       and_then (destroy_node h (it_current pos)) (\<lambda>h. Inr (h, l, next_it)))"

partial_function (option) ol_clear :: "'a node_heap \<Rightarrow> xor_list \<Rightarrow> ('a, xor_list) heap_result option" where
  "ol_clear h l =
     (if xl_empty l then Some (Inr (h, l))
      else case and_then (xl_pop_front h l) (\<lambda>(h, l, p). and_then (destroy_node h p) (\<lambda>h. Inr (h, l))) of
        Inl e \<Rightarrow> Some (Inl e)
      | Inr (h, l) \<Rightarrow> ol_clear h l)"

declare xl_visit.simps [code] xl_visit_back.simps [code] ol_clear.simps [code]

end
