(* ===== verification/Xor_List_Facts.thy ===== *)
theory Xor_List_Facts
  imports Xor_List
begin

text \<open>
  The exclusive-or list is a list: \<open>xl_nodes\<close> says which nodes it links, the locale \<open>intrusive_list\<close> what
  its operations promise about them, and the list that owns its nodes is proved against these promises to
  do what the operations of \<open>'a list\<close> do.
\<close>

subsection \<open>Links\<close>

lemma xor_ptr_cancel [simp]:
  "xor_ptr a (xor_ptr a b) = b" "xor_ptr b (xor_ptr a b) = a" "xor_ptr 0 a = a" "xor_ptr a 0 = a" "xor_ptr a a = 0"
  by (simp_all add: xor_ptr_def xor.left_commute flip: xor.assoc)

definition front_of :: "addr list \<Rightarrow> addr \<Rightarrow> addr" where
  "front_of xs n = (case xs of [] \<Rightarrow> n | x # _ \<Rightarrow> x)"

definition back_of :: "addr \<Rightarrow> addr list \<Rightarrow> addr" where
  "back_of p xs = last (p # xs)"

lemma front_of_simps [simp]:
  "front_of [] n = n" "front_of (x # xs) n = x" "front_of (xs @ ys) n = front_of xs (front_of ys n)"
  by (auto simp: front_of_def split: list.split)

lemma back_of_simps [simp]:
  "back_of p [] = p" "back_of p (x # xs) = back_of x xs" "back_of p (xs @ ys) = back_of (back_of p xs) ys"
  by (auto simp: back_of_def)

text \<open>The nodes \<open>xs\<close> are linked in their order, after \<open>p\<close> and before \<open>n\<close>.\<close>

fun chain :: "'a node_heap \<Rightarrow> addr \<Rightarrow> addr list \<Rightarrow> addr \<Rightarrow> bool" where
  "chain h p [] n = True"
| "chain h p (x # xs) n = ((\<exists>v. h x = Some (xor_ptr p (front_of xs n), v)) \<and> chain h x xs n)"

lemma chain_append [simp]:
  "chain h p (xs @ ys) n \<longleftrightarrow> chain h p xs (front_of ys n) \<and> chain h (back_of p xs) ys n"
  by (induction xs arbitrary: p) auto

lemma chain_frame: "(\<And>x. x \<in> set xs \<Longrightarrow> h' x = h x) \<Longrightarrow> chain h' p xs n = chain h p xs n"
  by (induction xs arbitrary: p) auto

lemma chain_upd [simp]: "a \<notin> set xs \<Longrightarrow> chain (h(a := y)) p xs n = chain h p xs n"
  by (rule chain_frame) auto

lemma chain_live: "chain h p xs n \<Longrightarrow> x \<in> set xs \<Longrightarrow> h x \<noteq> None"
  by (induction xs arbitrary: p) auto

definition xl_nodes :: "'a node_heap \<Rightarrow> xor_list \<Rightarrow> addr list \<Rightarrow> bool" where
  "xl_nodes h l ns \<longleftrightarrow> chain h 0 ns 0 \<and> distinct ns \<and> 0 \<notin> set ns \<and>
     xl_head l = front_of ns 0 \<and> xl_tail l = back_of 0 ns \<and> xl_size l = length ns"

text \<open>The links may differ, the nodes and their values do not.\<close>

definition same_values :: "'a node_heap \<Rightarrow> 'a node_heap \<Rightarrow> bool" where
  "same_values h h' \<longleftrightarrow> (\<forall>p. map_option snd (h' p) = map_option snd (h p))"

lemma same_values_refl [simp]: "same_values h h"
  by (simp add: same_values_def)

lemma same_values_upd [simp]:
  "h p = Some (x, v) \<Longrightarrow> same_values h h' \<Longrightarrow> same_values h (h'(p \<mapsto> (y, v)))"
  by (auto simp: same_values_def)

lemma same_values_dom: "same_values h h' \<Longrightarrow> dom h' = dom h"
proof -
  assume "same_values h h'"
  then have "h' p = None \<longleftrightarrow> h p = None" for p
    unfolding same_values_def by (metis map_option_is_None)
  then show ?thesis
    by (auto simp: dom_def)
qed

lemmas node_ops = node_link_def node_next_def node_pre_def node_set_def

lemma front_zero_iff: "0 \<notin> set ns \<Longrightarrow> front_of ns 0 = 0 \<longleftrightarrow> ns = []"
  by (auto simp: front_of_def split: list.split)

lemma back_zero_iff: "0 \<notin> set ns \<Longrightarrow> back_of 0 ns = 0 \<longleftrightarrow> ns = []"
  by (auto simp: back_of_def) (metis last_in_set)

lemma xl_push_front_nodes:
  assumes "xl_nodes h l ns" "node \<noteq> 0" "node \<notin> set ns" "h node = Some (k, v)"
  shows "\<exists>h' l'. xl_push_front h l node = Inr (h', l') \<and> xl_nodes h' l' (node # ns) \<and> same_values h h'"
proof (cases ns)
  case Nil
  then show ?thesis
    using assms by (auto simp: xl_nodes_def xl_push_front_def xl_empty_def node_ops)
next
  case (Cons x xs)
  then show ?thesis
    using assms by (auto simp: xl_nodes_def xl_push_front_def xl_empty_def node_ops)
qed

lemma xl_push_back_nodes:
  assumes "xl_nodes h l ns" "node \<noteq> 0" "node \<notin> set ns" "h node = Some (k, v)"
  shows "\<exists>h' l'. xl_push_back h l node = Inr (h', l') \<and> xl_nodes h' l' (ns @ [node]) \<and> same_values h h'"
proof (cases ns rule: rev_cases)
  case Nil
  then show ?thesis
    using assms by (auto simp: xl_nodes_def xl_push_back_def xl_empty_def node_ops)
next
  case (snoc xs x)
  then have "front_of (xs @ [x]) 0 \<noteq> 0"
    using assms front_zero_iff [of ns] by (simp add: xl_nodes_def)
  then show ?thesis
    using assms snoc by (auto simp: xl_nodes_def xl_push_back_def xl_empty_def node_ops)
qed

lemma xl_pop_front_nodes:
  assumes "xl_nodes h l (n # ns)"
  shows "\<exists>h' l'. xl_pop_front h l = Inr (h', l', n) \<and> xl_nodes h' l' ns \<and> same_values h h'"
proof (cases ns)
  case Nil
  then show ?thesis
    using assms by (auto simp: xl_nodes_def xl_pop_front_def xl_empty_def node_ops)
next
  case (Cons x xs)
  then show ?thesis
    using assms by (auto simp: xl_nodes_def xl_pop_front_def xl_empty_def node_ops Let_def)
qed

lemma xl_pop_back_nodes:
  assumes "xl_nodes h l (ns @ [n])"
  shows "\<exists>h' l'. xl_pop_back h l = Inr (h', l', n) \<and> xl_nodes h' l' ns \<and> same_values h h'"
proof (cases ns rule: rev_cases)
  case Nil
  then show ?thesis
    using assms by (auto simp: xl_nodes_def xl_pop_back_def xl_empty_def node_ops)
next
  case (snoc xs x)
  then have "front_of (xs @ [x]) n \<noteq> 0"
    using assms front_zero_iff [of "ns @ [n]"] by (simp add: xl_nodes_def)
  then show ?thesis
    using assms snoc by (auto simp: xl_nodes_def xl_pop_back_def xl_empty_def node_ops Let_def)
qed

lemma xl_erase_nodes:
  assumes "xl_nodes h l (as @ c # bs)"
  shows "\<exists>h' l'. xl_erase h l \<lparr>it_prev = back_of 0 as, it_current = c\<rparr> =
      Inr (h', l', \<lparr>it_prev = back_of 0 as, it_current = front_of bs 0\<rparr>) \<and> xl_nodes h' l' (as @ bs) \<and> same_values h h'"
proof (cases as rule: rev_cases)
  case as: Nil
  then show ?thesis
    using assms by (cases bs) (auto simp: xl_nodes_def xl_erase_def node_ops Let_def)
next
  case as: (snoc xs a)
  then show ?thesis
    using assms by (cases bs) (auto simp: xl_nodes_def xl_erase_def node_ops Let_def)
qed

subsection \<open>The contract\<close>

text \<open>What the intrusive list promises a client that gives it nodes: which nodes it links after each
  operation, that it changes no value, and that it depends on its own nodes only.\<close>

locale intrusive_list =
  fixes nodes :: "'a node_heap \<Rightarrow> xor_list \<Rightarrow> addr list \<Rightarrow> bool"
  assumes nodes_new: "nodes h xl_new []"
    and nodes_empty: "nodes h l ns \<Longrightarrow> xl_empty l \<longleftrightarrow> ns = []"
    and nodes_size: "nodes h l ns \<Longrightarrow> xl_size l = length ns"
    and nodes_distinct: "nodes h l ns \<Longrightarrow> distinct ns"
    and nodes_live: "nodes h l ns \<Longrightarrow> p \<in> set ns \<Longrightarrow> h p \<noteq> None"
    and nodes_frame: "nodes h l ns \<Longrightarrow> (\<And>p. p \<in> set ns \<Longrightarrow> h' p = h p) \<Longrightarrow> nodes h' l ns"
    and push_front: "nodes h l ns \<Longrightarrow> node \<noteq> 0 \<Longrightarrow> node \<notin> set ns \<Longrightarrow> h node = Some (k, v) \<Longrightarrow>
      \<exists>h' l'. xl_push_front h l node = Inr (h', l') \<and> nodes h' l' (node # ns) \<and> same_values h h'"
    and push_back: "nodes h l ns \<Longrightarrow> node \<noteq> 0 \<Longrightarrow> node \<notin> set ns \<Longrightarrow> h node = Some (k, v) \<Longrightarrow>
      \<exists>h' l'. xl_push_back h l node = Inr (h', l') \<and> nodes h' l' (ns @ [node]) \<and> same_values h h'"
    and pop_front: "nodes h l (n # ns) \<Longrightarrow>
      \<exists>h' l'. xl_pop_front h l = Inr (h', l', n) \<and> nodes h' l' ns \<and> same_values h h'"
    and pop_back: "nodes h l (ns @ [n]) \<Longrightarrow>
      \<exists>h' l'. xl_pop_back h l = Inr (h', l', n) \<and> nodes h' l' ns \<and> same_values h h'"
    and erase: "nodes h l (as @ c # bs) \<Longrightarrow>
      \<exists>h' l'. xl_erase h l \<lparr>it_prev = back_of 0 as, it_current = c\<rparr> =
        Inr (h', l', \<lparr>it_prev = back_of 0 as, it_current = front_of bs 0\<rparr>) \<and> nodes h' l' (as @ bs) \<and> same_values h h'"
    and iterators: "nodes h l ns \<Longrightarrow> xl_begin l = \<lparr>it_prev = 0, it_current = front_of ns 0\<rparr> \<and>
      xl_end l = \<lparr>it_prev = back_of 0 ns, it_current = 0\<rparr>"
    and increment: "nodes h l (as @ c # bs) \<Longrightarrow> it_increment h \<lparr>it_prev = back_of 0 as, it_current = c\<rparr> =
      Inr \<lparr>it_prev = c, it_current = front_of bs 0\<rparr>"
    and decrement: "nodes h l (as @ c # bs) \<Longrightarrow> it_decrement h \<lparr>it_prev = c, it_current = front_of bs 0\<rparr> =
      Inr \<lparr>it_prev = back_of 0 as, it_current = c\<rparr>"
    and nodes_not_null: "nodes h l ns \<Longrightarrow> 0 \<notin> set ns"

interpretation xl: intrusive_list xl_nodes
proof unfold_locales
  fix h :: "'a node_heap" and l ns h'
  assume "xl_nodes h l ns" "\<And>p. p \<in> set ns \<Longrightarrow> h' p = h p"
  then show "xl_nodes h' l ns"
    using chain_frame [of ns h' h] by (simp add: xl_nodes_def)
next
  fix h :: "'a node_heap" and l as c bs
  assume "xl_nodes h l (as @ c # bs)"
  then show "it_decrement h \<lparr>it_prev = c, it_current = front_of bs 0\<rparr> = Inr \<lparr>it_prev = back_of 0 as, it_current = c\<rparr>"
    by (auto simp: xl_nodes_def it_decrement_def node_ops)
qed (simp_all add: xl_push_front_nodes xl_push_back_nodes xl_pop_front_nodes xl_pop_back_nodes xl_erase_nodes,
  auto simp: xl_nodes_def xl_new_def xl_empty_def xl_begin_def xl_end_def it_increment_def node_ops front_zero_iff
    dest: chain_live)

subsection \<open>The list that owns its nodes\<close>

definition value_at :: "'a node_heap \<Rightarrow> addr \<Rightarrow> 'a" where
  "value_at h p = snd (the (h p))"

lemma value_at_upd [simp]: "value_at (h(p \<mapsto> (k, v))) p = v" "q \<noteq> p \<Longrightarrow> value_at (h(p := y)) q = value_at h q"
  by (simp_all add: value_at_def)

lemma map_value_at_upd [simp]: "p \<notin> set ns \<Longrightarrow> map (value_at (h(p := y))) ns = map (value_at h) ns"
  by (intro map_cong) (auto simp: value_at_def)

lemma same_valuesE:
  assumes "same_values h h'" "h p \<noteq> None"
  obtains k k' v where "h p = Some (k, v)" "h' p = Some (k', v)"
proof -
  obtain k v where "h p = Some (k, v)"
    using assms(2) by auto
  moreover from this have "map_option snd (h' p) = Some v"
    using assms(1) by (simp add: same_values_def)
  ultimately show thesis
    using that by auto
qed

lemma same_values_at: "same_values h h' \<Longrightarrow> h p \<noteq> None \<Longrightarrow> value_at h' p = value_at h p"
  by (erule same_valuesE) (auto simp: value_at_def)

lemma same_values_node: "same_values h h' \<Longrightarrow> h p \<noteq> None \<Longrightarrow> node_value h' p = Inr (value_at h p)"
  by (erule same_valuesE) (auto simp: value_at_def node_value_def)

lemma same_values_map:
  "same_values h h' \<Longrightarrow> set ns \<subseteq> dom h \<Longrightarrow> map (value_at h') ns = map (value_at h) ns"
  by (intro map_cong) (auto intro!: same_values_at)

context intrusive_list
begin

text \<open>The heap holds the nodes of the list and no other, with the values \<open>vs\<close>.\<close>

definition owns :: "'a node_heap \<Rightarrow> xor_list \<Rightarrow> 'a list \<Rightarrow> bool" where
  "owns h l vs \<longleftrightarrow> (\<exists>ns. nodes h l ns \<and> dom h = set ns \<and> vs = map (value_at h) ns)"

lemma owns_new: "owns Map.empty xl_new []"
  using nodes_new by (auto simp: owns_def)

lemma ownsI:
  assumes "nodes h' l' ns" "same_values h h'" "dom h = set ns"
  shows "owns h' l' (map (value_at h) ns)"
  using assms same_values_map [OF assms(2), of ns] same_values_dom [OF assms(2)]
  by (auto simp: owns_def simp del: map_eq_conv intro!: exI [of _ ns])

lemma owns_remove:
  assumes "nodes h' l' (as @ bs)" "same_values h h'" "dom h = set (as @ c # bs)" "distinct (as @ c # bs)"
  shows "owns (h'(c := None)) l' (map (value_at h) (as @ bs))"
proof -
  have live: "set as \<subseteq> dom h" "set bs \<subseteq> dom h"
    using assms(3) by auto
  have "nodes (h'(c := None)) l' (as @ bs)"
    using assms(4) by (intro nodes_frame [OF assms(1)]) auto
  moreover have "map (value_at h) (as @ bs) = map (value_at (h'(c := None))) (as @ bs)"
    using assms(4) same_values_map [OF assms(2) live(1)] same_values_map [OF assms(2) live(2)]
    by (simp del: map_eq_conv)
  moreover have "dom (h'(c := None)) = set (as @ bs)"
    using assms(3,4) same_values_dom [OF assms(2)] by auto
  ultimately show ?thesis
    unfolding owns_def by blast
qed

lemma destroyed: "same_values h h' \<Longrightarrow> h p \<noteq> None \<Longrightarrow> destroy_node h' p = Inr (h'(p := None))"
  by (erule same_valuesE) (auto simp: destroy_node_def)

lemma ol_push:
  assumes "owns h l vs" "alloc h = Some p" "p \<noteq> 0" "h p = None"
  shows "\<exists>h' l'. ol_push_front alloc h l v = Inr (h', l') \<and> owns h' l' (v # vs)"
    "\<exists>h' l'. ol_push_back alloc h l v = Inr (h', l') \<and> owns h' l' (vs @ [v])"
    "\<exists>h' l'. ol_emplace_back alloc h l v = Inr (h', l', v) \<and> owns h' l' (vs @ [v])"
proof -
  obtain ns where ns: "nodes h l ns" "dom h = set ns" "vs = map (value_at h) ns"
    using assms(1) by (auto simp: owns_def)
  let ?h = "h(p \<mapsto> (0, v))"
  have new: "p \<notin> set ns"
    using assms(4) ns(2) by auto
  have nodes: "nodes ?h l ns"
    using new by (intro nodes_frame [OF ns(1)]) auto
  have vs: "map (value_at ?h) ns = vs"
    using new ns(3) by simp
  obtain h1 l1 where f: "xl_push_front ?h l p = Inr (h1, l1)" "nodes h1 l1 (p # ns)" "same_values ?h h1"
    using push_front [OF nodes assms(3) new, of 0 v] by auto
  obtain h2 l2 where b: "xl_push_back ?h l p = Inr (h2, l2)" "nodes h2 l2 (ns @ [p])" "same_values ?h h2"
    using push_back [OF nodes assms(3) new, of 0 v] by auto
  have "owns h1 l1 (v # vs)" "owns h2 l2 (vs @ [v])"
    using ownsI [OF f(2,3)] ownsI [OF b(2,3)] ns(2) vs by auto
  moreover have "node_value h2 p = Inr v"
    using same_values_node [OF b(3), of p] by simp
  ultimately show "\<exists>h' l'. ol_push_front alloc h l v = Inr (h', l') \<and> owns h' l' (v # vs)"
    "\<exists>h' l'. ol_push_back alloc h l v = Inr (h', l') \<and> owns h' l' (vs @ [v])"
    "\<exists>h' l'. ol_emplace_back alloc h l v = Inr (h', l', v) \<and> owns h' l' (vs @ [v])"
    using assms(2) f(1) b(1)
    by (simp_all add: ol_push_front_def ol_push_back_def ol_emplace_back_def construct_node_def)
qed

lemma ol_pop_front_owns:
  "owns h l (v # vs) \<Longrightarrow> \<exists>h' l'. ol_pop_front h l = Inr (h', l', v) \<and> owns h' l' vs"
proof -
  assume "owns h l (v # vs)"
  then obtain n ns where ns: "nodes h l (n # ns)" "dom h = set (n # ns)" "v = value_at h n" "vs = map (value_at h) ns"
    by (auto simp: owns_def)
  obtain h' l' where p: "xl_pop_front h l = Inr (h', l', n)" "nodes h' l' ns" "same_values h h'"
    using pop_front [OF ns(1)] by auto
  have "n \<in> dom h"
    using ns(2) by simp
  then have "h n \<noteq> None"
    by blast
  then show ?thesis
    using p owns_remove [of h' l' "[]" ns h n] ns nodes_distinct [OF ns(1)] nodes_empty [OF ns(1)]
      same_values_node [OF p(3), of n] destroyed [OF p(3), of n]
    by (simp add: ol_pop_front_def)
qed

lemma ol_pop_back_owns:
  "owns h l (vs @ [v]) \<Longrightarrow> \<exists>h' l'. ol_pop_back h l = Inr (h', l', v) \<and> owns h' l' vs"
proof -
  assume "owns h l (vs @ [v])"
  then obtain n ns where ns: "nodes h l (ns @ [n])" "dom h = set (ns @ [n])" "v = value_at h n" "vs = map (value_at h) ns"
    by (auto simp: owns_def append_eq_map_conv)
  obtain h' l' where p: "xl_pop_back h l = Inr (h', l', n)" "nodes h' l' ns" "same_values h h'"
    using pop_back [OF ns(1)] by auto
  have "n \<in> dom h"
    using ns(2) by simp
  then have "h n \<noteq> None"
    by blast
  then show ?thesis
    using p owns_remove [of h' l' ns "[]" h n] ns nodes_distinct [OF ns(1)] nodes_empty [OF ns(1)]
      same_values_node [OF p(3), of n] destroyed [OF p(3), of n]
    by (simp add: ol_pop_back_def)
qed

lemma owns_empty: "owns h l vs \<Longrightarrow> xl_empty l \<longleftrightarrow> vs = []"
  using nodes_empty by (auto simp: owns_def)

lemma ol_pop_empty:
  "owns h l [] \<Longrightarrow> ol_pop_front h l = Inl (Err ''pop_front() called on empty list'')"
  "owns h l [] \<Longrightarrow> ol_pop_back h l = Inl (Err ''pop_back() called on empty list'')"
  using owns_empty by (simp_all add: ol_pop_front_def ol_pop_back_def)

text \<open>\<open>clear\<close> ends, and leaves no node.\<close>

lemma ol_clear_owns: "owns h l vs \<Longrightarrow> \<exists>l'. ol_clear h l = Some (Inr (Map.empty, l')) \<and> owns Map.empty l' []"
proof (induction vs arbitrary: h l)
  case Nil
  then have "h = Map.empty"
    by (auto simp: owns_def)
  moreover have "ol_clear h l = Some (Inr (h, l))"
    using owns_empty [OF Nil] by (subst ol_clear.simps) simp
  ultimately show ?case
    using Nil by auto
next
  case (Cons v vs)
  then obtain h' l' where p: "ol_pop_front h l = Inr (h', l', v)" "owns h' l' vs"
    using ol_pop_front_owns by blast
  have "ol_clear h l = ol_clear h' l'"
    using p(1) owns_empty [OF Cons.prems]
    by (auto simp: ol_clear.simps [of h l] ol_pop_front_def and_then_Inr_iff)
  then show ?case
    using Cons.IH [OF p(2)] by simp
qed

subsection \<open>Iteration\<close>

text \<open>The iterator \<open>k\<close> steps from \<open>begin()\<close>.\<close>

lemma visit_nodes:
  assumes "nodes h l (as @ bs)"
  shows "xl_visit h \<lparr>it_prev = back_of 0 as, it_current = front_of bs 0\<rparr> (xl_end l) = Some (Inr (map (value_at h) bs))"
  using assms
proof (induction bs arbitrary: as)
  case Nil
  then show ?case
    by (subst xl_visit.simps) (simp add: it_equal_def iterators)
next
  case (Cons b bs)
  have b: "b \<noteq> 0" "h b \<noteq> None"
    using nodes_not_null [OF Cons.prems] nodes_live [OF Cons.prems, of b] by auto
  have "xl_visit h \<lparr>it_prev = b, it_current = front_of bs 0\<rparr> (xl_end l) = Some (Inr (map (value_at h) bs))"
    using Cons.IH [of "as @ [b]"] Cons.prems by simp
  moreover have "node_value h b = Inr (value_at h b)"
    using same_values_node [of h h b] b by simp
  ultimately show ?case
    using b(1) increment [OF Cons.prems] iterators [OF Cons.prems]
    by (subst xl_visit.simps) (simp add: it_equal_def it_value_def)
qed

lemma visit_back_nodes:
  assumes "nodes h l (as @ bs)" "as = [] \<longrightarrow> bs \<noteq> []"
  shows "xl_visit_back h \<lparr>it_prev = back_of 0 as, it_current = front_of bs 0\<rparr> (xl_begin l) =
    Some (Inr (rev (map (value_at h) as)))"
  using assms
proof (induction as arbitrary: bs rule: rev_induct)
  case Nil
  then show ?case
    by (subst xl_visit_back.simps) (auto simp: it_equal_def iterators)
next
  case (snoc a as)
  have a: "h a \<noteq> None"
    using nodes_live [OF snoc.prems(1), of a] by simp
  have "front_of (as @ [a] @ bs) 0 \<noteq> front_of bs 0"
    using nodes_distinct [OF snoc.prems(1)] nodes_not_null [OF snoc.prems(1)]
    by (cases as; cases bs) auto
  then have "\<not> it_equal \<lparr>it_prev = a, it_current = front_of bs 0\<rparr> (xl_begin l)"
    using iterators [OF snoc.prems(1)] by (simp add: it_equal_def)
  moreover have "it_decrement h \<lparr>it_prev = a, it_current = front_of bs 0\<rparr> = Inr \<lparr>it_prev = back_of 0 as, it_current = a\<rparr>"
    using decrement [of h l as a bs] snoc.prems by simp
  moreover have "xl_visit_back h \<lparr>it_prev = back_of 0 as, it_current = a\<rparr> (xl_begin l) = Some (Inr (rev (map (value_at h) as)))"
    using snoc.IH [of "a # bs"] snoc.prems by simp
  moreover have "node_value h a = Inr (value_at h a)"
    using same_values_node [of h h a] a by simp
  ultimately show ?case
    by (subst xl_visit_back.simps) (simp add: it_value_def)
qed

lemma visit_all:
  assumes "owns h l vs"
  shows "xl_visit h (xl_begin l) (xl_end l) = Some (Inr vs)"
    "xl_visit_back h (xl_end l) (xl_begin l) = Some (Inr (rev vs))"
proof -
  obtain ns where ns: "nodes h l ns" "vs = map (value_at h) ns"
    using assms by (auto simp: owns_def)
  show "xl_visit h (xl_begin l) (xl_end l) = Some (Inr vs)"
    using visit_nodes [of h l "[]" ns] ns iterators [OF ns(1)] by simp
  show "xl_visit_back h (xl_end l) (xl_begin l) = Some (Inr (rev vs))"
  proof (cases "ns = []")
    case True
    then show ?thesis
      using iterators [OF ns(1)] ns(2) by (subst xl_visit_back.simps) (simp add: it_equal_def)
  next
    case False
    then show ?thesis
      using visit_back_nodes [of h l ns "[]"] ns iterators [OF ns(1)] by simp
  qed
qed

end

end
