(* ===== verification/Xor_List_Refine.thy ===== *)
theory Xor_List_Refine
  imports Xor_List_Facts
begin

text \<open>
  Whatever a client does with a list that owns its nodes, it sees what it would see of an \<open>'a list\<close>: the
  operations, one by one and in any sequence, refine those of \<open>list_step\<close>.
\<close>

datatype 'a list_op =
    Push_Back 'a
  | Push_Front 'a
  | Emplace_Back 'a
  | Pop_Front
  | Pop_Back
  | Erase_At nat
  | Clear
  | Is_Empty
  | Get_Size
  | Get_Front
  | Get_Back
  | Walk
  | Walk_Back

datatype 'a list_out = Done | Got 'a | Listed "'a list" | Flag bool | Count nat

type_synonym 'a list_state = "'a node_heap \<times> xor_list"

fun it_advance :: "'a node_heap \<Rightarrow> xor_iterator \<Rightarrow> nat \<Rightarrow> (string, xor_iterator) checked" where
  "it_advance h it 0 = Inr it"
| "it_advance h it (Suc k) = and_then (it_increment h it) (\<lambda>it. it_advance h it k)"

text \<open>One call. After an \<open>erase\<close> the client walks on from the iterator it gets.\<close>

fun ol_step :: "'a allocator \<Rightarrow> 'a list_op \<Rightarrow> 'a list_state \<Rightarrow> (string, 'a list_state \<times> 'a list_out) checked option" where
  "ol_step alloc (Push_Back v) (h, l) = Some (and_then (ol_push_back alloc h l v) (\<lambda>st. Inr (st, Done)))"
| "ol_step alloc (Push_Front v) (h, l) = Some (and_then (ol_push_front alloc h l v) (\<lambda>st. Inr (st, Done)))"
| "ol_step alloc (Emplace_Back v) (h, l) =
     Some (and_then (ol_emplace_back alloc h l v) (\<lambda>(h, l, v). Inr ((h, l), Got v)))"
| "ol_step alloc Pop_Front (h, l) = Some (and_then (ol_pop_front h l) (\<lambda>(h, l, v). Inr ((h, l), Got v)))"
| "ol_step alloc Pop_Back (h, l) = Some (and_then (ol_pop_back h l) (\<lambda>(h, l, v). Inr ((h, l), Got v)))"
| "ol_step alloc (Erase_At k) (h, l) =
     (case and_then (it_advance h (xl_begin l) k) (ol_erase h l) of
        Inl e \<Rightarrow> Some (Inl e)
      | Inr (h, l, it) \<Rightarrow>
          map_option (\<lambda>r. and_then r (\<lambda>vs. Inr ((h, l), Listed vs))) (xl_visit h it (xl_end l)))"
| "ol_step alloc Clear (h, l) = map_option (\<lambda>r. and_then r (\<lambda>st. Inr (st, Done))) (ol_clear h l)"
| "ol_step alloc Is_Empty (h, l) = Some (Inr ((h, l), Flag (xl_empty l)))"
| "ol_step alloc Get_Size (h, l) = Some (Inr ((h, l), Count (xl_size l)))"
| "ol_step alloc Get_Front (h, l) = Some (and_then (node_value h (xl_head l)) (\<lambda>v. Inr ((h, l), Got v)))"
| "ol_step alloc Get_Back (h, l) = Some (and_then (node_value h (xl_tail l)) (\<lambda>v. Inr ((h, l), Got v)))"
| "ol_step alloc Walk (h, l) =
     map_option (\<lambda>r. and_then r (\<lambda>vs. Inr ((h, l), Listed vs))) (xl_visit h (xl_begin l) (xl_end l))"
| "ol_step alloc Walk_Back (h, l) =
     map_option (\<lambda>r. and_then r (\<lambda>vs. Inr ((h, l), Listed vs))) (xl_visit_back h (xl_end l) (xl_begin l))"

fun list_step :: "'a list_op \<Rightarrow> 'a list \<Rightarrow> (string, 'a list \<times> 'a list_out) checked" where
  "list_step (Push_Back v) vs = Inr (vs @ [v], Done)"
| "list_step (Push_Front v) vs = Inr (v # vs, Done)"
| "list_step (Emplace_Back v) vs = Inr (vs @ [v], Got v)"
| "list_step Pop_Front vs = (if vs = [] then Inl (Err ''pop_front() called on empty list'') else Inr (tl vs, Got (hd vs)))"
| "list_step Pop_Back vs = (if vs = [] then Inl (Err ''pop_back() called on empty list'') else Inr (butlast vs, Got (last vs)))"
| "list_step (Erase_At k) vs =
     (if k < length vs then Inr (take k vs @ drop (Suc k) vs, Listed (drop (Suc k) vs)) else Inl Out_Of_Bounds)"
| "list_step Clear vs = Inr ([], Done)"
| "list_step Is_Empty vs = Inr (vs, Flag (vs = []))"
| "list_step Get_Size vs = Inr (vs, Count (length vs))"
| "list_step Get_Front vs = (if vs = [] then Inl Out_Of_Bounds else Inr (vs, Got (hd vs)))"
| "list_step Get_Back vs = (if vs = [] then Inl Out_Of_Bounds else Inr (vs, Got (last vs)))"
| "list_step Walk vs = Inr (vs, Listed vs)"
| "list_step Walk_Back vs = Inr (vs, Listed (rev vs))"

fun ol_run :: "'a allocator \<Rightarrow> 'a list_op list \<Rightarrow> 'a list_state \<Rightarrow> (string, 'a list_state \<times> 'a list_out list) checked option" where
  "ol_run alloc [] st = Some (Inr (st, []))"
| "ol_run alloc (op # ops) st =
     (case ol_step alloc op st of
        None \<Rightarrow> None
      | Some (Inl e) \<Rightarrow> Some (Inl e)
      | Some (Inr (st, out)) \<Rightarrow>
          map_option (\<lambda>r. and_then r (\<lambda>(st, outs). Inr (st, out # outs))) (ol_run alloc ops st))"

fun list_run :: "'a list_op list \<Rightarrow> 'a list \<Rightarrow> (string, 'a list \<times> 'a list_out list) checked" where
  "list_run [] vs = Inr (vs, [])"
| "list_run (op # ops) vs =
     and_then (list_step op vs) (\<lambda>(vs, out). and_then (list_run ops vs) (\<lambda>(vs, outs). Inr (vs, out # outs)))"

text \<open>The list holds \<open>vs\<close>, and the heap its nodes and nothing else.\<close>

definition xl_holds :: "'a node_heap \<Rightarrow> xor_list \<Rightarrow> 'a list \<Rightarrow> bool" where
  "xl_holds h l vs \<longleftrightarrow> (\<exists>ns. xl_nodes h l ns \<and> dom h = set ns \<and> vs = map (value_at h) ns)"

definition allocates_fresh :: "'a allocator \<Rightarrow> bool" where
  "allocates_fresh alloc \<longleftrightarrow> (\<forall>h p. alloc h = Some p \<longrightarrow> p \<noteq> 0 \<and> h p = None)"

lemma xl_holds_owns: "xl_holds = xl.owns"
  by (simp add: fun_eq_iff xl_holds_def xl.owns_def)

lemma it_advance_nodes:
  assumes "xl_nodes h l (as @ bs)" "dom h = set (as @ bs)"
  shows "it_advance h \<lparr>it_prev = back_of 0 as, it_current = front_of bs 0\<rparr> k =
    (if k \<le> length bs
     then Inr \<lparr>it_prev = back_of 0 (as @ take k bs), it_current = front_of (drop k bs) 0\<rparr> else Inl Out_Of_Bounds)"
  using assms
proof (induction k arbitrary: as bs)
  case (Suc k)
  show ?case
  proof (cases bs)
    case Nil
    have "h 0 = None"
      using Suc.prems xl.nodes_not_null [OF Suc.prems(1)] by (auto simp: Nil)
    then show ?thesis
      using Nil by (simp add: it_increment_def node_ops)
  next
    case (Cons b bs')
    then show ?thesis
      using Suc.IH [of "as @ [b]" bs'] Suc.prems xl.increment [of h l as b bs'] by simp
  qed
qed simp

lemma erase_owns:
  assumes "xl_nodes h l (as @ c # bs)" "dom h = set (as @ c # bs)"
  shows "\<exists>h' l'. ol_erase h l \<lparr>it_prev = back_of 0 as, it_current = c\<rparr> =
      Inr (h', l', \<lparr>it_prev = back_of 0 as, it_current = front_of bs 0\<rparr>) \<and>
    xl_nodes h' l' (as @ bs) \<and> dom h' = set (as @ bs) \<and> map (value_at h') (as @ bs) = map (value_at h) (as @ bs)"
proof -
  obtain h' l' where e: "xl_erase h l \<lparr>it_prev = back_of 0 as, it_current = c\<rparr> =
      Inr (h', l', \<lparr>it_prev = back_of 0 as, it_current = front_of bs 0\<rparr>)"
    "xl_nodes h' l' (as @ bs)" "same_values h h'"
    using xl.erase [OF assms(1)] by blast
  have d: "distinct (as @ c # bs)"
    by (rule xl.nodes_distinct [OF assms(1)])
  have c: "h c \<noteq> None"
    using assms(2) by (auto simp: dom_def)
  have "xl_nodes (h'(c := None)) l' (as @ bs)"
    using d by (intro xl.nodes_frame [OF e(2)]) auto
  moreover have "dom (h'(c := None)) = set (as @ bs)"
    using d assms(2) same_values_dom [OF e(3)] by auto
  moreover have "map (value_at (h'(c := None))) (as @ bs) = map (value_at h) (as @ bs)"
    using d assms(2) same_values_map [OF e(3), of "as @ bs"] by auto
  ultimately show ?thesis
    using e(1) xl.destroyed [OF e(3) c] by (simp add: ol_erase_def del: map_append)
qed

lemma step_erase:
  assumes "xl_holds h l vs"
  shows "\<exists>r. ol_step alloc (Erase_At k) (h, l) = Some r \<and>
    (case r of Inl e \<Rightarrow> list_step (Erase_At k) vs = Inl e
     | Inr ((h', l'), out) \<Rightarrow> \<exists>vs'. list_step (Erase_At k) vs = Inr (vs', out) \<and> xl_holds h' l' vs')"
proof -
  obtain ns where ns: "xl_nodes h l ns" "dom h = set ns" "vs = map (value_at h) ns"
    using assms by (auto simp: xl_holds_def)
  have adv: "it_advance h (xl_begin l) k =
      (if k \<le> length ns then Inr \<lparr>it_prev = back_of 0 (take k ns), it_current = front_of (drop k ns) 0\<rparr> else Inl Out_Of_Bounds)"
    using it_advance_nodes [of h l "[]" ns k] ns(1,2) xl.iterators [OF ns(1)] by simp
  show ?thesis
  proof (cases "k < length ns")
    case True
    then have split: "ns = take k ns @ ns ! k # drop (Suc k) ns"
      by (simp add: id_take_nth_drop)
    obtain h' l' where e: "ol_erase h l \<lparr>it_prev = back_of 0 (take k ns), it_current = ns ! k\<rparr> =
        Inr (h', l', \<lparr>it_prev = back_of 0 (take k ns), it_current = front_of (drop (Suc k) ns) 0\<rparr>)"
      "xl_nodes h' l' (take k ns @ drop (Suc k) ns)" "dom h' = set (take k ns @ drop (Suc k) ns)"
      "map (value_at h') (take k ns @ drop (Suc k) ns) = map (value_at h) (take k ns @ drop (Suc k) ns)"
      using erase_owns [of h l "take k ns" "ns ! k" "drop (Suc k) ns"] ns(1,2) split by auto
    have "front_of (drop k ns) 0 = ns ! k"
      using True by (simp flip: Cons_nth_drop_Suc)
    moreover have "xl_holds h' l' (map (value_at h) (take k ns @ drop (Suc k) ns))"
      unfolding xl_holds_def using e(2-4) by metis
    moreover have "map (value_at h') (drop (Suc k) ns) = drop (Suc k) vs"
      using e(4) ns(3) by (simp add: drop_map)
    ultimately show ?thesis
      using True adv e(1) xl.visit_nodes [OF e(2)] ns(3) by (simp add: take_map drop_map)
  next
    case False
    have "h 0 = None"
      using ns(2) xl.nodes_not_null [OF ns(1)] by auto
    then have "ol_erase h l \<lparr>it_prev = p, it_current = 0\<rparr> = Inl Out_Of_Bounds" for p
      by (simp add: ol_erase_def xl_erase_def node_ops)
    then show ?thesis
      using False adv ns(3) by auto
  qed
qed

text \<open>One step of the client: the same output, and the list holds what the abstract list is.\<close>

lemma step_refines:
  assumes "allocates_fresh alloc" "xl_holds h l vs"
  shows "\<exists>r. ol_step alloc op (h, l) = Some r \<and>
    (case r of Inl e \<Rightarrow> e = Err ''std::bad_alloc'' \<or> list_step op vs = Inl e
     | Inr ((h', l'), out) \<Rightarrow> \<exists>vs'. list_step op vs = Inr (vs', out) \<and> xl_holds h' l' vs')"
proof -
  note owns = assms(2) [unfolded xl_holds_owns]
  have alloc: "construct_node alloc h v = Inl (Err ''std::bad_alloc'')" if "alloc h = None" for v
    using that by (simp add: construct_node_def)
  have fresh: "p \<noteq> 0" "h p = None" if "alloc h = Some p" for p
    using assms(1) that by (auto simp: allocates_fresh_def)
  have push: "\<exists>h' l'. ol_push_front alloc h l v = Inr (h', l') \<and> xl.owns h' l' (v # vs)"
    "\<exists>h' l'. ol_push_back alloc h l v = Inr (h', l') \<and> xl.owns h' l' (vs @ [v])"
    "\<exists>h' l'. ol_emplace_back alloc h l v = Inr (h', l', v) \<and> xl.owns h' l' (vs @ [v])"
    if "alloc h = Some p" for p v
    using xl.ol_push [where h = h and l = l and vs = vs and alloc = alloc and p = p and v = v] owns that fresh [OF that]
    by blast+
  obtain ns where ns: "xl_nodes h l ns" "dom h = set ns" "vs = map (value_at h) ns"
    using assms(2) by (auto simp: xl_holds_def)
  have ends: "h 0 = None" "ns \<noteq> [] \<Longrightarrow> node_value h (hd ns) = Inr (value_at h (hd ns))"
    "ns \<noteq> [] \<Longrightarrow> node_value h (last ns) = Inr (value_at h (last ns))"
    using ns(2) xl.nodes_not_null [OF ns(1)] xl.nodes_live [OF ns(1)]
    by (auto intro: same_values_node [of h h])
  have ht: "xl_head l = front_of ns 0" "xl_tail l = back_of 0 ns" "xl_size l = length ns"
    using ns(1) by (simp_all add: xl_nodes_def)
  show ?thesis
  proof (cases op)
    case (Push_Back v)
    then show ?thesis
      using push(2) [of _ v] alloc by (cases "alloc h") (auto simp: xl_holds_owns ol_push_back_def)
  next
    case (Push_Front v)
    then show ?thesis
      using push(1) [of _ v] alloc by (cases "alloc h") (auto simp: xl_holds_owns ol_push_front_def)
  next
    case (Emplace_Back v)
    then show ?thesis
      using push(3) [of _ v] alloc by (cases "alloc h") (auto simp: xl_holds_owns ol_emplace_back_def)
  next
    case Pop_Front
    then show ?thesis
      using owns xl.ol_pop_front_owns [of h l "hd vs" "tl vs"] xl.ol_pop_empty(1) [of h l]
      by (cases vs) (auto simp: xl_holds_owns)
  next
    case Pop_Back
    then show ?thesis
      using owns xl.ol_pop_back_owns [of h l "butlast vs" "last vs"] xl.ol_pop_empty(2) [of h l]
      by (cases vs rule: rev_cases) (auto simp: xl_holds_owns)
  next
    case (Erase_At k)
    then show ?thesis
      using step_erase [OF assms(2), of alloc k] by (auto split: sum.splits)
  next
    case Clear
    then show ?thesis
      using xl.ol_clear_owns [OF owns] by (auto simp: xl_holds_owns)
  next
    case Walk
    then show ?thesis
      using xl.visit_all(1) [OF owns] assms(2) by simp
  next
    case Walk_Back
    then show ?thesis
      using xl.visit_all(2) [OF owns] assms(2) by simp
  next
    case Is_Empty
    then show ?thesis
      using xl.owns_empty [OF owns] assms(2) by simp
  next
    case Get_Size
    then show ?thesis
      using ht(3) ns(3) assms(2) by simp
  next
    case Get_Front
    then show ?thesis
      using ends ht(1) ns(3) assms(2) by (cases ns) (auto simp: node_value_def)
  next
    case Get_Back
    then show ?thesis
      using ends ht(2) ns(3) assms(2) by (cases ns rule: rev_cases) (auto simp: node_value_def)
  qed
qed

lemma run_refines:
  assumes "allocates_fresh alloc" "xl_holds h l vs"
  shows "\<exists>r. ol_run alloc ops (h, l) = Some r \<and>
    (case r of Inl e \<Rightarrow> e = Err ''std::bad_alloc'' \<or> list_run ops vs = Inl e
     | Inr ((h', l'), outs) \<Rightarrow> \<exists>vs'. list_run ops vs = Inr (vs', outs) \<and> xl_holds h' l' vs')"
  using assms(2)
proof (induction ops arbitrary: h l vs)
  case (Cons op ops)
  obtain r where r: "ol_step alloc op (h, l) = Some r"
    "case r of Inl e \<Rightarrow> e = Err ''std::bad_alloc'' \<or> list_step op vs = Inl e
     | Inr ((h', l'), out) \<Rightarrow> \<exists>vs'. list_step op vs = Inr (vs', out) \<and> xl_holds h' l' vs'"
    using step_refines [OF assms(1) Cons.prems] by blast
  show ?case
  proof (cases r)
    case (Inl e)
    then show ?thesis
      using r by auto
  next
    case (Inr x)
    then obtain h' l' out vs' where x: "r = Inr ((h', l'), out)" "list_step op vs = Inr (vs', out)" "xl_holds h' l' vs'"
      using r(2) by (cases x) auto
    obtain z where z: "ol_run alloc ops (h', l') = Some z"
      "case z of Inl e \<Rightarrow> e = Err ''std::bad_alloc'' \<or> list_run ops vs' = Inl e
       | Inr ((h', l'), outs) \<Rightarrow> \<exists>vs. list_run ops vs' = Inr (vs, outs) \<and> xl_holds h' l' vs"
      using Cons.IH [OF x(3)] by blast
    have "ol_run alloc (op # ops) (h, l) = Some (and_then z (\<lambda>(st, outs). Inr (st, out # outs)))"
      using r(1) x(1) z(1) by simp
    then show ?thesis
      using x(2) z(2) by (cases z) auto
  qed
qed simp

text \<open>C10 (refinement). A client of an \<open>xor_list\<close> that owns its nodes sees an ordinary list: whatever it
  calls, every call returns, with the output the list gives or, at the first call that throws, the same
  exception, unless the allocator throws; no call reads a node that is not live, but for those that the
  list leaves undefined as well.\<close>

theorem xor_list_refines_list:
  assumes "allocates_fresh alloc"
  shows "\<exists>r. ol_run alloc ops (Map.empty, xl_new) = Some r \<and>
    (case r of Inl e \<Rightarrow> e = Err ''std::bad_alloc'' \<or> list_run ops [] = Inl e
     | Inr ((h, l), outs) \<Rightarrow> \<exists>vs. list_run ops [] = Inr (vs, outs) \<and> xl_holds h l vs)"
  using run_refines [OF assms, of Map.empty xl_new "[]"] xl.owns_new by (simp add: xl_holds_owns)

definition small_allocator :: "'a allocator" where
  "small_allocator h = find (\<lambda>p. h p = None) [16, 32, 48]"

lemma small_allocator_fresh: "allocates_fresh small_allocator"
  by (auto simp: allocates_fresh_def small_allocator_def find_Some_iff less_Suc_eq numeral_3_eq_3 nth_Cons' split: if_splits)

definition example_ops :: "nat list_op list" where
  "example_ops = [Push_Back 1, Push_Front 0, Emplace_Back 2, Walk, Erase_At 1, Walk_Back, Pop_Back, Get_Size]"

lemma xor_list_refines_list_witness:
  "\<exists>h l. ol_run small_allocator example_ops (Map.empty, xl_new) =
     Some (Inr ((h, l), [Done, Done, Got 2, Listed [0, 1, 2], Listed [2], Listed [2, 0], Got 2, Count 1])) \<and> xl_holds h l [0]"
proof -
  have l: "list_run example_ops [] =
      Inr ([0], [Done, Done, Got 2, Listed [0, 1, 2], Listed [2], Listed [2, 0], Got 2, Count 1])"
    by code_simp
  obtain r where r: "ol_run small_allocator example_ops (Map.empty, xl_new) = Some r"
    "case r of Inl e \<Rightarrow> e = Err ''std::bad_alloc'' \<or> list_run example_ops [] = Inl e
     | Inr ((h, l), outs) \<Rightarrow> \<exists>vs. list_run example_ops [] = Inr (vs, outs) \<and> xl_holds h l vs"
    using xor_list_refines_list [OF small_allocator_fresh, of example_ops] by blast
  have "map_option (map_sum id snd) (ol_run small_allocator example_ops (Map.empty, xl_new)) =
      Some (Inr [Done, Done, Got 2, Listed [0, 1, 2], Listed [2], Listed [2, 0], Got 2, Count 1])"
    by code_simp
  with r l show ?thesis
    by (auto split: sum.splits)
qed

text \<open>C40 (termination). \<open>clear\<close>, and with it the destructor, returns after any calls that did not throw,
  has read no dead node, and has freed every node the calls allocated.\<close>

theorem clear_frees_all:
  assumes "allocates_fresh alloc" "ol_run alloc ops (Map.empty, xl_new) = Some (Inr ((h, l), outs))"
  shows "\<exists>l'. ol_clear h l = Some (Inr (Map.empty, l'))"
proof -
  obtain vs where "xl_holds h l vs"
    using run_refines [OF assms(1), of Map.empty xl_new "[]" ops] assms(2) xl.owns_new by (auto simp: xl_holds_owns)
  then show ?thesis
    using xl.ol_clear_owns [of h l vs] by (auto simp: xl_holds_owns)
qed

lemma clear_frees_all_witness:
  "\<exists>h l. ol_run small_allocator example_ops (Map.empty, xl_new) =
     Some (Inr ((h, l), [Done, Done, Got 2, Listed [0, 1, 2], Listed [2], Listed [2, 0], Got 2, Count 1])) \<and>
     (\<exists>l'. ol_clear h l = Some (Inr (Map.empty, l')))"
proof -
  have "map_option (map_sum id snd) (ol_run small_allocator example_ops (Map.empty, xl_new)) =
      Some (Inr [Done, Done, Got 2, Listed [0, 1, 2], Listed [2], Listed [2, 0], Got 2, Count 1])"
    by code_simp
  then obtain h l where r: "ol_run small_allocator example_ops (Map.empty, xl_new) =
      Some (Inr ((h, l), [Done, Done, Got 2, Listed [0, 1, 2], Listed [2], Listed [2, 0], Got 2, Count 1]))"
    by (cases "ol_run small_allocator example_ops (Map.empty, xl_new)") (auto split: sum.splits simp: map_sum_def)
  show ?thesis
    using r clear_frees_all [OF small_allocator_fresh r] by blast
qed

end
