(* ===== verification/Spec2Isabelle.thy ===== *)
theory Spec2Isabelle
  imports Rpc_Calls Binary_Safety Binary_Checkpoint Binary_Field_Names Binary_Raw Parse_Typed Arg_Parser_Bounds Arg_Text Xor_List_Refine
begin

text \<open>A model of NekoProtoTools: the wire protocol and the method-id synchronisation of its RPC layer
  (src/src/rpc.cpp, src/include/nekoproto/rpc), its binary serialization
  (src/include/nekoproto/serialization/binary, binary_serializer.hpp and the parsing layer they use),
  its argument parser (src/include/nekoproto/argparser) and its xor list (global/xor_list.hpp).

  How the parts interact. A client encodes a call with the backend (rpc/backend.hpp), which asks the
  session whether method ids and compression were negotiated, and sends the frame over a stream
  endpoint; the server's backend reads the frame, turns a method id back into a name through the
  method-id table, decompresses the payload and hands method, parameters and call id to the
  dispatcher; the answer takes the same way back. Payloads are produced by a serializer, of which the
  binary one is modelled: a writer that emits a framed document, a reader that indexes it before any
  value is converted.

  The argument parser turns an options type into a schema (detail/schema.hpp), validates it,
  distributes argv over its options as texts (detail/raw_parser.hpp), and settles each option from the
  command line, the environment, an imported config file and defaults (detail/materializer.hpp,
  config_io.hpp); argparser.hpp puts the steps together, for one options object or a set of commands.

  Conventions. A byte is an 8 word, every C++ integer keeps its width; a size_t that only counts
  bytes in memory is a nat, and where it is written to the wire or compared with a limit the width is
  written out, and the binary reader's differences of sizes wrap (size_diff). Errors are the left side
  of a sum: Err of the error the code returns, or Out_Of_Bounds, which stands for an access outside a
  buffer or a vector (byte_at, vec_at, vec_set, span_sub), so that memory safety is the statement that
  Out_Of_Bounds never is the result. Mutable objects are records passed along and returned; a std::map keeps its
  order (Ordered_Map). Code that is not under src/ is a parameter.

  Theories.

  Neko_Prelude: the error sum and its bind, reads inside a buffer, bytes and characters, word facts.
  Ordered_Map: std::map as a sorted association list. Serialization_Error, Rpc_Error: the error codes
  and messages of serialization/error.hpp and rpc/error.hpp.

  Wire_Codec: the locale of a codec whose decoder inverts its encoder, interpreted by the integers
  (Wire_Integers), varints and method entries. Wire_Integers: NekoRpcExtensionCodec::appendInteger,
  readInteger. Wire_Uleb: _writeUleb128, _readUleb, ulebSize. Wire_Endian: endian.hpp.

  Rpc_Frame: the frame codec of rpc.cpp: header, extensions, frames; each decoder accepts exactly the
  bytes its encoder emits and stays in bounds. Rpc_Endpoint: NekoRpcStreamEndpoint over a stream
  given by its operations; the locale of a reliable stream is interpreted on a pipe.
  Rpc_Method_Table: all operations of NekoRpcMethodIdTable, its invariant, the stability of ids and
  resolve. Rpc_Method_Wire: the table on the wire, catalog synchronisation, incoming method ids.
  Rpc_Compression: the run-length codec. Rpc_Session: options, sessions, payload transforms
  (backend_compression.hpp). Rpc_Backend: the operations of NekoRpcBackend; Rpc_Backend_Facts the
  lemmas about its extensions; Rpc_Negotiation the Hello exchange; Rpc_Calls requests, responses,
  errors, recovery from stale method ids. The theorem of this file composes them into a whole call.

  Binary_Writer: binary::Writer, every operation, with its container scopes; a scope is closed
  explicitly where C++ runs the destructor. Binary_Document: parsing::Parent for this writer, the
  grammar of documents (wtree, emit) and the proof that the writer emits it. Binary_Reader: the
  reader's data and its parser; a node is a tree whose two mutable fields are cells of a store, so
  that all handles of a node share them. Binary_Values: navigation, conversions, raw reads,
  checkpoints. Binary_Parse, Binary_Exact: the parser accepts exactly the encodings of the trees that
  fit the limits. Binary_Roundtrip, Binary_Access, Binary_Facts: what is written is found under its
  path and read back. Binary_Safety: in every state a client reaches, all reads are in bounds. Binary_Checkpoint: restoring a
  checkpoint undoes the probes of a union, a value is read once. Binary_Field_Names: two defects of
  field names. Binary_Raw: raw_fixed_data records and BinaryBackend.

  Parse_Types: the C++ types the parsers of serialization/parsing are instantiated at, as values of a
  datatype, and the values of a type. Parse_Write: parser_write for every such type. Parse_Read:
  parser_read, over a record of the operations any reader offers. Parse_Document, Parse_Refine: the
  document a typed value stands for, and the proof that parser_write refines the document writer.
  Parse_Contract: the interface between parsers and reader as two locales, what a reader refuses
  (refusing_reader) and what it finds in a document (document_reader). Parse_Recover, Parse_Roundtrip,
  Parse_Inverse: inside the contract, parser_read gives back the value whose document it reads.
  Parse_Binary: the binary reader has the contract. Parse_Serializer: BinaryBackend over both parsers,
  the round trip of typed values and two values that do not make it. Parse_Typed: what a failed parse
  leaves in its target.

  Arg_Error: the errors of the argument parser, which carry their detail where C++ leaves it in a
  thread-local. Arg_Schema: tags and fields of an options type as values, ArgSpec and ArgSchema, the
  config formats, validate_schema_definition; Arg_Schema_Facts: where no reference is
  ambiguous it accepts exactly the schemas in order; the locale option_lookup, what a lookup in an accepted schema finds. Arg_Raw: tokens, clusters,
  positionals, the loop over argv; Arg_Raw_Facts, Arg_Command_Line: in that locale, that the spellings of
  an option are equivalent, a cluster is its options one by one, and what a command line spells is
  parsed. Arg_Value: conversion, range and choices of a value; Arg_Text: implicit values survive as text.
  Arg_Material: defaults, command line, environment, imports and the constraints between options, as
  walks over an object (Reflect::forEach); Arg_Walk: a walk is a loop over the options in order;
  Arg_Material_Facts: the locale indexed_walk, the walks that count the options, interpreted by the four
  of the code. Arg_Config_Io: config files. Arg_Parser: parsing into an object, commands; Arg_Help: help
  and usage. Arg_Parser_Facts, Arg_Parser_Safety, Arg_Parser_Bounds: the value of every option from its
  sources, validity of what is returned or written, no access outside a vector.

  Xor_List: nodes as a heap of links that are the xor of two 64-bit addresses, the intrusive list, its
  iterators, the owning list over an allocator. Xor_List_Facts: the locale intrusive_list, what every
  operation does to the sequence of nodes. Xor_List_Refine: the owning list refines a list, clear frees
  every node.

  Bounds and termination. No fuel is used. Loops recurse on the bytes that are left; the parser of
  framed values recurses on the distance to the depth limit, which its first guard compares, and on
  the count of children. A nesting limit of SIZE_MAX would let depth + 1 wrap in C++; the limits of
  the source are far below. The loops that follow
  the links of an xor list are partial functions, whose value None would be a loop that does not end.

  Parameters. Sockets are a stream given by its operations; the payload serializer and the user's method
  are arguments of the RPC backend; the environment, the file system with the serializers of the config
  formats (config_world) and the allocator of a list are arguments of the functions that use them.

  Not modelled. Coroutines, clients, servers and the dispatcher (rpc/client.hpp, server.hpp,
  dispatcher.hpp) and the communication layer, whose control flow awaits user code and the sockets of a
  library that is not under src/; JSON-RPC, whose messages are what the JSON serializer makes of them;
  protocol classes and reflection, which are template metaprogramming; the text serializers, which wrap
  third-party parsers; logging. In the parsing layer: the schemas, comments, attributes, raw strings and
  unframed objects of the text formats, custom parsers, which are user code, and
  NEKO_WRITE_NULL_FOR_EMPTY_OPTIONAL, which is off by default. In the argument parser: fields of a
  floating-point type, the checks made by the compiler, and the overloads of config_io that take a
  backend as a type.\<close>

text \<open>C1 (functional). A call over an established session whose sides agree completes, by name or by method
id, when both of its messages encode and its parameters and its result pass: each payload is safe for the
negotiated compression (where run lengths were negotiated it has no literal stretch the format cannot invert;
where nothing was, any payload is safe), is within the receiver's bound on decompressed payloads, the
receiver allows the ratio compression can reach, and its frame limits cover the sender's. Then the request the client encodes crosses the stream as one frame and is dispatched with the method and
parameters of the caller; the result the method returns crosses back as one frame and is the value the
caller's call returns.\<close>
theorem call_completes:
  assumes "reliable_stream pending readAll writeAll flush" "pending up = []" "pending down = []"
    and "sessions_agree csess ssess (sc_method_table sctx)" "name \<noteq> []"
    and "encodeRequest env cctx csess name False (Some params) = (Inr req, cctx1)"
    and "payload_passes (cc_options cctx) (sc_options sctx) csess ssess params"
    and "encodeResponseFrameFor (sc_options sctx) ssess stats (makeResponse env (er_id req) result 0 []) =
      (Inr answer, stats')"
    and "payload_passes (sc_options sctx) (cc_options cctx) ssess csess result" "dec result = Some v"
  shows "\<exists>up1 up2 q sctx1 sctx2 down1 down2 cctx2.
    endpoint_send writeAll flush (env_codec env) (opt_frame_limits (cc_options cctx)) (er_message req) up =
      (Inr (length (er_message req)), up1) \<and>
    endpoint_recv readAll (env_codec env) (opt_frame_limits (sc_options sctx)) up1 = (Inr (er_message req), up2) \<and>
    decodeIncoming env sctx ssess (er_message req) =
      (Inr (empty_result\<lparr>dres_ok := True, dres_requests := [q]\<rparr>), sctx1) \<and>
    dr_method q = name \<and> dr_payload q = params \<and>
    encodeResponsesFor env sctx1 ssess (appendMethodReturn env [] q (Inr (Some result))) = (answer, sctx2) \<and>
    endpoint_send writeAll flush (env_codec env) (opt_frame_limits (sc_options sctx)) answer down =
      (Inr (length answer), down1) \<and>
    endpoint_recv readAll (env_codec env) (opt_frame_limits (cc_options cctx)) down1 = (Inr answer, down2) \<and>
    decodeResponse env dec cctx1 csess answer (er_id req) = (Inr v, cctx2, csess)"
proof -
  let ?f = "request_frame env csess name False (next_request_id cctx) params"
  note rf = request_frame_cases [of env csess name False "next_request_id cctx" params]
  obtain stats1 where out: "encode_outgoing_frame compress (cc_options cctx) csess (cc_stats cctx) ?f =
      (Inr (er_message req), stats1)"
    using assms(6) by (auto simp: encodeRequest_def Let_def and_then_Inr_iff split: prod.splits)
  have limits: "limits_cover (opt_frame_limits (sc_options sctx)) (opt_frame_limits (cc_options cctx))"
    using assms(7) by (simp add: payload_passes_def)
  obtain up1 up2 where up:
    "endpoint_send writeAll flush (env_codec env) (opt_frame_limits (cc_options cctx)) (er_message req) up =
      (Inr (length (er_message req)), up1)"
    "endpoint_recv readAll (env_codec env) (opt_frame_limits (sc_options sctx)) up1 = (Inr (er_message req), up2)"
    using frame_travels [OF out rf(6,2) limits assms(1), where s = up, OF assms(2)] by blast
  have table: "ps_method_id_enabled csess \<Longrightarrow>
      ps_method_id_enabled ssess \<and> table_copy (ps_remote_method_table csess) (sc_method_table sctx)"
    using assms(4) by (simp add: sessions_agree_def)
  obtain h sctx1 where d: "decodeIncoming env sctx ssess (er_message req) =
      (Inr (empty_result\<lparr>dres_ok := True,
              dres_requests := [\<lparr>dr_header = h, dr_method = name, dr_payload = params\<rparr>]\<rparr>), sctx1)"
    "h_kind h = Kind_Request" "h_id h = er_id req"
    using request_delivered [OF assms(6,5,7) table] by auto
  let ?q = "\<lparr>dr_header = h, dr_method = name, dr_payload = params\<rparr>"
  have r: "appendMethodReturn env [] ?q (Inr (Some result)) = [makeResponse env (er_id req) result 0 []]"
    using d(2,3) by (simp add: appendMethodReturn_def expectsResponse_def)
  note keep = decodeIncoming_keeps [OF d(1)] encodeRequest_keeps [OF assms(6)]
  obtain sctx2 down1 down2 cctx2 where down:
    "encodeResponsesFor env sctx1 ssess [makeResponse env (er_id req) result 0 []] = (answer, sctx2)"
    "endpoint_send writeAll flush (env_codec env) (opt_frame_limits (sc_options sctx)) answer down =
      (Inr (length answer), down1)"
    "endpoint_recv readAll (env_codec env) (opt_frame_limits (cc_options cctx)) down1 = (Inr answer, down2)"
    "decodeResponse env dec cctx1 csess answer (er_id req) = (Inr v, cctx2, csess)"
    using single_response_travels [of sctx1 ssess stats env "er_id req" result answer stats' cctx1 csess dec v,
        unfolded keep, OF assms(8,9,10,1,3)] by blast
  show ?thesis
    by (intro exI [of _ up1] exI [of _ up2] exI [of _ ?q] exI [of _ sctx1] exI [of _ sctx2]
        exI [of _ down1] exI [of _ down2] exI [of _ cctx2] conjI)
      (simp_all only: up d(1) r down DecodedRequest.simps)
qed

lemma call_completes_witness:
  "\<exists>q sctx1 cctx1 cctx2 answer. decodeIncoming sample_env sample_server plain_session
      (encodeFrame (request_frame sample_env plain_session ''add'' False 1 [7, 7])) =
      (Inr (empty_result\<lparr>dres_ok := True, dres_requests := [q]\<rparr>), sctx1) \<and> dr_method q = ''add'' \<and>
    decodeResponse sample_env Some cctx1 plain_session answer 1 = (Inr [9], cctx2, plain_session)"
proof -
  have rel: "reliable_stream id pipe_read pipe_write pipe_flush"
    by (rule pipe_reliable)
  have r: "encodeResponseFrameFor (sc_options sample_server) plain_session None (makeResponse sample_env 1 [9] 0 []) =
      (Inr (encodeResponseFrame (makeResponse sample_env 1 [9] 0 [])), None)"
    by (simp add: plain_response_encodes sample_server_def sample_env_def)
  have p: "payload_passes (cc_options sample_client) (sc_options sample_server) plain_session plain_session [7, 7]"
    "payload_passes (sc_options sample_server) (cc_options sample_client) plain_session plain_session [9]"
    by (rule plain_passes; simp add: sample_server_def sample_client_def makeClientContext_def
        sample_options_def default_options_def)+
  let ?req = "\<lparr>er_message = encodeFrame (request_frame sample_env plain_session ''add'' False 1 [7, 7]), er_id = 1\<rparr>"
  note c = call_completes [OF rel _ _ plain_agree _ sample_request_encodes p(1), where dec = Some and up = "[]"
      and down = "[]", simplified, OF r p(2) refl]
  show ?thesis
    using c by simp blast
qed

end
